(* ===== verification/Prelude.thy ===== *)
theory Prelude
  imports Complex_Main "HOL-Library.List_Lexorder" "HOL-Library.Char_ord"
    "HOL-Library.Product_Lexorder" "HOL-Library.Option_ord"
begin

text \<open>
  Shared vocabulary of the development.
  \<^item> Names for the program's scalar types: identifiers are strings, money is an unbounded
    integer of USD micros, wall-clock instants are integers of microseconds, and the
    program's floats are exact rationals (binary64 rounding is not modelled).
  \<^item> The exceptions the program raises, as a datatype, and the result type
    \<open>exc + 'a\<close> with its sequencing operators.
  \<^item> The rules of the validators: an ordered list of guards, of which the first one that
    is violated is raised.
  \<^item> Association lists with the update order of Python's \<open>dict\<close>, ceiling division,
    half-even rounding, and lemmas on lists the components share.
\<close>

section \<open>Scalars\<close>

type_synonym ident = string
type_synonym micros = int
type_synonym instant = int
type_synonym flt = rat

section \<open>Exceptions and results\<close>

datatype exc =
    GatewayError int string
  | ValueError string
  | StorageError string
  | RuntimeError string
  | ProviderError string
  | TimeoutError
  | CancelledError
  | OtherException

text \<open>\<open>except Exception\<close> does not catch a cancellation.\<close>

fun is_exception :: "exc \<Rightarrow> bool" where
  "is_exception CancelledError = False"
| "is_exception _ = True"

type_synonym 'a result = "exc + 'a"

definition bindE :: "'a result \<Rightarrow> ('a \<Rightarrow> 'b result) \<Rightarrow> 'b result" where
  "bindE r f = (case r of Inl e \<Rightarrow> Inl e | Inr x \<Rightarrow> f x)"

definition guardE :: "bool \<Rightarrow> exc \<Rightarrow> unit result" where
  "guardE b e = (if b then Inr () else Inl e)"

definition is_ok :: "'a result \<Rightarrow> bool" where
  "is_ok r = (case r of Inl _ \<Rightarrow> False | Inr _ \<Rightarrow> True)"

lemma bindE_simps [simp]:
  "bindE (Inl e) f = Inl e"
  "bindE (Inr x) f = f x"
  by (simp_all add: bindE_def)

lemma bindE_Inr_iff: "bindE r f = Inr y \<longleftrightarrow> (\<exists>x. r = Inr x \<and> f x = Inr y)"
  by (cases r) simp_all

lemma bindE_InrE:
  assumes "bindE r f = Inr y"
  obtains x where "r = Inr x" and "f x = Inr y"
  using assms by (auto simp: bindE_Inr_iff)

lemma bindE_Inl_iff: "bindE r f = Inl e \<longleftrightarrow> r = Inl e \<or> (\<exists>x. r = Inr x \<and> f x = Inl e)"
  by (cases r) auto

lemma bindE_assoc: "bindE (bindE r f) g = bindE r (\<lambda>x. bindE (f x) g)"
  by (cases r) simp_all

lemma guardE_Inr_iff [simp]: "guardE b e = Inr u \<longleftrightarrow> b"
  by (simp add: guardE_def)

lemma guardE_Inl_iff [simp]: "guardE b e = Inl e' \<longleftrightarrow> \<not> b \<and> e' = e"
  by (auto simp: guardE_def)

lemma guardE_simps [simp]: "guardE True e = Inr ()" "guardE False e = Inl e"
  by (simp_all add: guardE_def)

lemma is_ok_simps [simp]: "is_ok (Inl e) = False" "is_ok (Inr x) = True"
  by (simp_all add: is_ok_def)

lemma is_ok_if [simp]:
  "is_ok (if b then r else r') = (if b then is_ok r else is_ok r')"
  "is_ok (if b then Inl e else r) = (\<not> b \<and> is_ok r)"
  by simp_all

lemma is_ok_iff: "is_ok r \<longleftrightarrow> (\<exists>x. r = Inr x)"
  by (cases r) simp_all

lemma is_ok_bindE: "is_ok (bindE r f) \<longleftrightarrow> (\<exists>x. r = Inr x \<and> is_ok (f x))"
  by (cases r) simp_all

lemmas result_simps = bindE_Inr_iff bindE_Inl_iff is_ok_iff is_ok_bindE

section \<open>Validators\<close>

text \<open>
  A model validator is a sequence of \<open>if bad: raise ValueError(code)\<close>: the first guard
  that is violated decides the error.
\<close>

named_theorems validators

fun raise_first :: "(bool \<times> string) list \<Rightarrow> 'a \<Rightarrow> 'a result" where
  "raise_first [] x = Inr x"
| "raise_first ((bad, code) # gs) x = (if bad then Inl (ValueError code) else raise_first gs x)"

lemma raise_first_Inr_iff: "raise_first gs x = Inr y \<longleftrightarrow> y = x \<and> (\<forall>g \<in> set gs. \<not> fst g)"
  by (induction gs x rule: raise_first.induct) auto

lemma raise_first_is_ok: "is_ok (raise_first gs x) \<longleftrightarrow> (\<forall>g \<in> set gs. \<not> fst g)"
  by (auto simp: is_ok_iff raise_first_Inr_iff)

lemma raise_first_Inl: "raise_first gs x = Inl e \<Longrightarrow> \<exists>g \<in> set gs. fst g \<and> e = ValueError (snd g)"
  by (induction gs x rule: raise_first.induct) (auto split: if_splits)

text \<open>The code every violated field constraint of a contract is reported with.\<close>

definition field_error :: string where
  "field_error = ''field_constraint''"

section \<open>Characters\<close>

definition code :: "char \<Rightarrow> nat" where
  "code c = of_char c"

definition is_digit :: "char \<Rightarrow> bool" where
  "is_digit c = (48 \<le> code c \<and> code c \<le> 57)"

definition is_lower :: "char \<Rightarrow> bool" where
  "is_lower c = (97 \<le> code c \<and> code c \<le> 122)"

definition is_upper :: "char \<Rightarrow> bool" where
  "is_upper c = (65 \<le> code c \<and> code c \<le> 90)"

text \<open>The class \<open>\w\<close> of the identifiers' pattern, on ASCII.\<close>

definition is_word_char :: "char \<Rightarrow> bool" where
  "is_word_char c = (is_digit c \<or> is_lower c \<or> is_upper c \<or> c = CHR ''_'')"

definition is_space :: "char \<Rightarrow> bool" where
  "is_space c = (code c \<in> {9, 10, 11, 12, 13, 28, 29, 30, 31, 32})"

text \<open>\<open>s.strip()\<close> is truthy iff some character is not white space.\<close>

definition nonblank :: "string \<Rightarrow> bool" where
  "nonblank s = list_ex (\<lambda>c. \<not> is_space c) s"

definition to_lower :: "char \<Rightarrow> char" where
  "to_lower c = (if is_upper c then char_of (code c + 32) else c)"

definition starts_with :: "string \<Rightarrow> string \<Rightarrow> bool" where
  "starts_with p s = (take (length p) s = p)"

lemma starts_with_iff: "starts_with p s \<longleftrightarrow> (\<exists>t. s = p @ t)"
  by (auto simp: starts_with_def) (metis append_take_drop_id)

fun join :: "string \<Rightarrow> string list \<Rightarrow> string" where
  "join sep [] = []"
| "join sep [x] = x"
| "join sep (x # y # xs) = x @ sep @ join sep (y # xs)"

section \<open>Numbers\<close>

text \<open>Ceiling division by a positive integer, as \<open>(a + b - 1) // b\<close>.\<close>

definition ceil_div :: "int \<Rightarrow> int \<Rightarrow> int" where
  "ceil_div a b = (a + b - 1) div b"

lemma ceil_div_bounds:
  assumes "0 < b"
  shows "a \<le> ceil_div a b * b" and "ceil_div a b * b < a + b"
proof -
  have eq: "ceil_div a b * b + (a + b - 1) mod b = a + b - 1"
    by (simp add: ceil_div_def)
  have "0 \<le> (a + b - 1) mod b" and "(a + b - 1) mod b < b"
    using assms by simp_all
  with eq show "a \<le> ceil_div a b * b" and "ceil_div a b * b < a + b"
    by linarith+
qed

lemma ceil_div_least:
  assumes "0 < b" and "a \<le> q * b"
  shows "ceil_div a b \<le> q"
proof (rule ccontr)
  assume "\<not> ?thesis"
  then have "q + 1 \<le> ceil_div a b" by simp
  then have "(q + 1) * b \<le> ceil_div a b * b"
    using assms(1) by (intro mult_right_mono) simp_all
  with ceil_div_bounds(2) [OF assms(1), of a] assms(2) show False
    by (simp add: algebra_simps)
qed

lemma ceil_div_mono: "0 < b \<Longrightarrow> a \<le> c \<Longrightarrow> ceil_div a b \<le> ceil_div c b"
  by (simp add: ceil_div_def zdiv_mono1)

text \<open>Round to the nearest integer, ties to the even one (\<open>timedelta\<close>, \<open>round\<close>).\<close>

definition round_half_even :: "rat \<Rightarrow> int" where
  "round_half_even x =
     (let n = \<lfloor>x\<rfloor>; d = x - of_int n
      in if d < 1 / 2 then n else if d > 1 / 2 then n + 1
         else if even n then n else n + 1)"

lemma round_half_even_of_int [simp]: "round_half_even (of_int n) = n"
  by (simp add: round_half_even_def Let_def)

lemma round_half_even_close: "\<bar>of_int (round_half_even x) - x\<bar> \<le> 1 / 2"
  unfolding round_half_even_def Let_def
  by (auto simp: abs_if field_simps) linarith+

lemma round_half_even_ge: "of_int n \<le> x \<Longrightarrow> n \<le> round_half_even x"
proof -
  assume "of_int n \<le> x"
  then have "n \<le> \<lfloor>x\<rfloor>" by (simp add: le_floor_iff)
  then show ?thesis unfolding round_half_even_def Let_def by auto
qed

lemma round_half_even_le: "x \<le> of_int n \<Longrightarrow> round_half_even x \<le> n"
proof -
  assume x: "x \<le> of_int n"
  show ?thesis
  proof (cases "x = of_int n")
    case False
    with x have "\<lfloor>x\<rfloor> < n" by (simp add: floor_less_iff)
    then show ?thesis unfolding round_half_even_def Let_def by auto
  qed simp
qed

text \<open>\<open>timedelta(seconds=x)\<close> in microseconds.\<close>

definition seconds :: "flt \<Rightarrow> int" where
  "seconds x = round_half_even (x * 1000000)"

section \<open>Association lists in insertion order\<close>

text \<open>
  A \<open>dict\<close> keeps the position of a key that is written again and appends a new one.
\<close>

fun dict_put :: "'k \<Rightarrow> 'v \<Rightarrow> ('k \<times> 'v) list \<Rightarrow> ('k \<times> 'v) list" where
  "dict_put k v [] = [(k, v)]"
| "dict_put k v ((k', v') # d) = (if k' = k then (k, v) # d else (k', v') # dict_put k v d)"

definition dict_del :: "'k \<Rightarrow> ('k \<times> 'v) list \<Rightarrow> ('k \<times> 'v) list" where
  "dict_del k d = filter (\<lambda>e. fst e \<noteq> k) d"

lemma map_of_dict_put [simp]: "map_of (dict_put k v d) = (map_of d)(k \<mapsto> v)"
  by (induction k v d rule: dict_put.induct) auto

lemma keys_dict_put: "fst ` set (dict_put k v d) = insert k (fst ` set d)"
  by (induction k v d rule: dict_put.induct) auto

lemma distinct_dict_put: "distinct (map fst d) \<Longrightarrow> distinct (map fst (dict_put k v d))"
proof (induction k v d rule: dict_put.induct)
  case (2 k v k' v' d)
  then show ?case
    using keys_dict_put [of k v d] by auto
qed simp

lemma length_dict_put:
  "length (dict_put k v d) = (if k \<in> fst ` set d then length d else Suc (length d))"
  by (induction k v d rule: dict_put.induct) auto

lemma map_of_dict_del [simp]: "map_of (dict_del k d) = (map_of d)(k := None)"
  by (induction d) (auto simp: dict_del_def fun_eq_iff)

lemma distinct_dict_del: "distinct (map fst d) \<Longrightarrow> distinct (map fst (dict_del k d))"
  by (induction d) (auto simp: dict_del_def)

lemma dict_del_fresh: "map_of d k = None \<Longrightarrow> dict_del k d = d"
  unfolding dict_del_def map_of_eq_None_iff by (induction d) auto

lemma dict_del_put_fresh: "map_of d k = None \<Longrightarrow> dict_del k (dict_put k v d) = d"
  by (induction k v d rule: dict_put.induct) (auto simp: dict_del_def dict_del_fresh split: if_splits)

section \<open>Lists\<close>

lemma find_Some_iff2: "find P xs = Some x \<Longrightarrow> x \<in> set xs \<and> P x"
  by (induction xs) (auto split: if_splits)

lemma find_None_iff2: "find P xs = None \<longleftrightarrow> (\<forall>x \<in> set xs. \<not> P x)"
  by (induction xs) auto

lemma find_append: "List.find p (xs @ ys) = (case List.find p xs of None \<Rightarrow> List.find p ys | Some x \<Rightarrow> Some x)"
  by (induction xs) auto

lemma hd_filter_find:
  "(case filter P xs of [] \<Rightarrow> None | x # _ \<Rightarrow> Some x) = find P xs"
  by (induction xs) auto

text \<open>\<open>list(dict.fromkeys(xs))\<close>: the first occurrences, in order.\<close>

fun dedup :: "'a list \<Rightarrow> 'a list" where
  "dedup [] = []"
| "dedup (x # xs) = x # filter (\<lambda>y. y \<noteq> x) (dedup xs)"

lemma set_dedup [simp]: "set (dedup xs) = set xs"
  by (induction xs) auto

lemma distinct_dedup [simp]: "distinct (dedup xs)"
  by (induction xs) auto

lemma dedup_id: "distinct xs \<Longrightarrow> dedup xs = xs"
proof (induction xs)
  case (Cons x xs)
  then have "filter (\<lambda>y. y \<noteq> x) xs = xs"
    by (metis (mono_tags, lifting) distinct.simps(2) filter_True)
  with Cons show ?case by simp
qed simp

text \<open>\<open>sorted(set(xs))\<close>: increasing, without repetition.\<close>

definition sorted_set :: "'a::linorder list \<Rightarrow> 'a list" where
  "sorted_set xs = sort (remdups xs)"

lemma set_sorted_set [simp]: "set (sorted_set xs) = set xs"
  by (simp add: sorted_set_def)

lemma sorted_sorted_set [simp]: "sorted (sorted_set xs)"
  by (simp add: sorted_set_def)

lemma distinct_sorted_set [simp]: "distinct (sorted_set xs)"
  by (simp add: sorted_set_def)

lemma sorted_set_eq_iff: "sorted_set xs = sorted_set ys \<longleftrightarrow> set xs = set ys"
proof
  assume "sorted_set xs = sorted_set ys"
  then show "set xs = set ys" by (metis set_sorted_set)
next
  assume "set xs = set ys"
  then show "sorted_set xs = sorted_set ys"
    by (intro sorted_distinct_set_unique) simp_all
qed

text \<open>
  Two lists are equal as Python sets: executable by inclusion both ways.
\<close>

definition same_set :: "'a list \<Rightarrow> 'a list \<Rightarrow> bool" where
  "same_set xs ys = (list_all (\<lambda>x. x \<in> set ys) xs \<and> list_all (\<lambda>y. y \<in> set xs) ys)"

lemma same_set_iff: "same_set xs ys \<longleftrightarrow> set xs = set ys"
  by (auto simp: same_set_def list_all_iff)

definition subset_list :: "'a list \<Rightarrow> 'a list \<Rightarrow> bool" where
  "subset_list xs ys = list_all (\<lambda>x. x \<in> set ys) xs"

lemma subset_list_iff: "subset_list xs ys \<longleftrightarrow> set xs \<subseteq> set ys"
  by (auto simp: subset_list_def list_all_iff)

text \<open>The first of the elements with the least key (\<open>min\<close>, \<open>ORDER BY key LIMIT 1\<close>), and the
  first with the greatest (\<open>max\<close>).\<close>

fun min_by :: "('a \<Rightarrow> 'k::linorder) \<Rightarrow> 'a list \<Rightarrow> 'a option" where
  "min_by key [] = None"
| "min_by key (x # xs) =
     (case min_by key xs of None \<Rightarrow> Some x | Some y \<Rightarrow> if key y < key x then Some y else Some x)"

fun max_by :: "('a \<Rightarrow> 'k::linorder) \<Rightarrow> 'a list \<Rightarrow> 'a option" where
  "max_by key [] = None"
| "max_by key (x # xs) =
     (case max_by key xs of None \<Rightarrow> Some x | Some y \<Rightarrow> if key x < key y then Some y else Some x)"

lemma min_by_None_iff: "min_by key xs = None \<longleftrightarrow> xs = []"
  by (cases xs) (auto split: option.splits)

lemma min_by_Some: "min_by key xs = Some x \<Longrightarrow> x \<in> set xs \<and> (\<forall>y \<in> set xs. key x \<le> key y)"
proof (induction xs arbitrary: x)
  case (Cons z xs)
  then show ?case
    by (cases "min_by key xs") (fastforce simp: min_by_None_iff split: if_splits)+
qed simp

lemma max_by_None_iff: "max_by key xs = None \<longleftrightarrow> xs = []"
  by (cases xs) (auto split: option.splits)

lemma max_by_Some: "max_by key xs = Some x \<Longrightarrow> x \<in> set xs \<and> (\<forall>y \<in> set xs. key y \<le> key x)"
proof (induction xs arbitrary: x)
  case (Cons z xs)
  then show ?case
    by (cases "max_by key xs") (fastforce simp: max_by_None_iff split: if_splits)+
qed simp

lemma sum_list_filter_split:
  "sum_list (map f xs) =
     sum_list (map f (filter P xs)) + (sum_list (map f (filter (\<lambda>x. \<not> P x) xs)) :: int)"
  by (induction xs) auto

lemma sum_list_nonneg_int: "\<forall>x \<in> set xs. 0 \<le> f x \<Longrightarrow> 0 \<le> (sum_list (map f xs) :: int)"
  by (induction xs) auto

text \<open>\<open>statistics.fmean\<close> on a list that is not empty.\<close>

definition fmean :: "flt list \<Rightarrow> flt" where
  "fmean xs = sum_list xs / of_nat (length xs)"

lemma sum_list_le_const:
  "\<forall>x \<in> set xs. x \<le> (c::rat) \<Longrightarrow> sum_list xs \<le> of_nat (length xs) * c"
  by (induction xs) (auto simp: algebra_simps)

lemma sum_list_ge_const:
  "\<forall>x \<in> set xs. (c::rat) \<le> x \<Longrightarrow> of_nat (length xs) * c \<le> sum_list xs"
  by (induction xs) (auto simp: algebra_simps)

lemma fmean_bounds:
  assumes "xs \<noteq> []" and "\<forall>x \<in> set xs. lo \<le> x \<and> x \<le> hi"
  shows "lo \<le> fmean xs" and "fmean xs \<le> hi"
proof -
  have pos: "(0::rat) < of_nat (length xs)" using assms(1) by simp
  show "lo \<le> fmean xs"
    using sum_list_ge_const [of xs lo] assms(2) pos
    by (simp add: fmean_def le_divide_eq mult.commute)
  show "fmean xs \<le> hi"
    using sum_list_le_const [of xs hi] assms(2) pos
    by (simp add: fmean_def divide_le_eq mult.commute)
qed

definition bool_flt :: "bool \<Rightarrow> flt" where
  "bool_flt b = (if b then 1 else 0)"

end
