(* ===== verification/Structured.thy ===== *)
theory Structured
  imports Prelude "HOL-Library.Multiset"
begin

text \<open>
  The bounded JSON schemas of \<open>structured/__init__.py\<close>: the canonical encoding of a JSON
  value and the ingress check of a schema (size bound, meta-schema, local references only).
  The loop over the \<open>pending\<close> stack is modelled as it runs and proved equal to a recursive
  specification over the value. The textual form of a float (\<open>show_float\<close>) and the
  meta-schema check of the jsonschema package (\<open>meta_ok\<close>) are parameters. Strings are lists
  of bytes, so the length of an encoding is its UTF-8 length.
\<close>

section \<open>JSON values\<close>

datatype json =
    JNull
  | JBool bool
  | JInt int
  | JFloat flt
  | JStr string
  | JArr "json list"
  | JObj "(string \<times> json) list"

section \<open>The canonical encoding\<close>

definition digit_char :: "nat \<Rightarrow> char" where
  "digit_char n = char_of (if n < 10 then 48 + n else 87 + n)"

fun show_nat :: "nat \<Rightarrow> string" where
  "show_nat n = (if n < 10 then [digit_char n] else show_nat (n div 10) @ [digit_char (n mod 10)])"

declare show_nat.simps [simp del]

definition show_int :: "int \<Rightarrow> string" where
  "show_int i = (if i < 0 then CHR ''-'' # show_nat (nat (- i)) else show_nat (nat i))"

definition escape_char :: "char \<Rightarrow> string" where
  "escape_char c =
     (let n = code c in
      if n = 34 then [char_of (92::nat), char_of (34::nat)]
      else if n = 92 then [char_of (92::nat), char_of (92::nat)]
      else if n = 10 then [char_of (92::nat), CHR ''n'']
      else if n = 13 then [char_of (92::nat), CHR ''r'']
      else if n = 9 then [char_of (92::nat), CHR ''t'']
      else if n = 8 then [char_of (92::nat), CHR ''b'']
      else if n = 12 then [char_of (92::nat), CHR ''f'']
      else if n < 32 then
        char_of (92::nat) # ''u00'' @ [digit_char (n div 16), digit_char (n mod 16)]
      else [c])"

definition quote :: "string \<Rightarrow> string" where
  "quote s = char_of (34::nat) # concat (map escape_char s) @ [char_of (34::nat)]"

fun canonical :: "(flt \<Rightarrow> string) \<Rightarrow> json \<Rightarrow> string" where
  "canonical show_float JNull = ''null''"
| "canonical show_float (JBool b) = (if b then ''true'' else ''false'')"
| "canonical show_float (JInt i) = show_int i"
| "canonical show_float (JFloat x) = show_float x"
| "canonical show_float (JStr s) = quote s"
| "canonical show_float (JArr vs) =
     ''['' @ join '','' (map (\<lambda>v. canonical show_float v) vs) @ '']''"
| "canonical show_float (JObj kvs) =
     ''{'' @ join '','' (map (\<lambda>(k, s). quote k @ '':'' @ s)
       (sort_key fst (map (\<lambda>kv. (fst kv, canonical show_float (snd kv))) kvs))) @ ''}''"

lemma sort_key_perm:
  assumes "distinct (map f xs)" and "mset xs = mset ys"
  shows "sort_key f xs = sort_key f ys"
proof (rule properties_for_sort_key)
  show "mset (sort_key f ys) = mset xs" using assms(2) by simp
  show "sorted (map f (sort_key f ys))" by simp
  fix k
  have len: "length (filter (\<lambda>x. f k = f x) zs) \<le> 1" if "distinct (map f zs)" for zs
    using that
  proof (induction zs)
    case (Cons z zs)
    then show ?case by (cases "f k = f z") (auto simp: filter_empty_conv)
  qed simp
  have eq: "mset (filter (\<lambda>x. f k = f x) xs) = mset (filter (\<lambda>x. f k = f x) ys)"
    using assms(2) by (simp add: mset_filter)
  have "filter (\<lambda>x. f k = f x) xs = filter (\<lambda>x. f k = f x) ys"
  proof (cases "filter (\<lambda>x. f k = f x) xs")
    case Nil
    with eq show ?thesis by simp
  next
    case (Cons a as)
    with len [OF assms(1)] have as: "as = []" by simp
    with Cons eq show ?thesis by (cases "filter (\<lambda>x. f k = f x) ys") auto
  qed
  then show "filter (\<lambda>x. f k = f x) (sort_key f ys) = filter (\<lambda>x. f k = f x) xs"
    using sort_key_stable [of f "f k" ys] by (simp add: eq_commute [of "f k"])
qed

section \<open>The ingress check of a schema\<close>

definition reference_keys :: "string list" where
  "reference_keys = [''$ref'', ''$dynamicRef'']"

fun local_reference :: "json \<Rightarrow> bool" where
  "local_reference (JStr s) = starts_with ''#'' s"
| "local_reference _ = False"

definition bad_entry :: "string \<times> json \<Rightarrow> bool" where
  "bad_entry kv = (fst kv \<in> set reference_keys \<and> \<not> local_reference (snd kv))"

fun jsize :: "json \<Rightarrow> nat" where
  "jsize (JArr vs) = Suc (sum_list (map jsize vs))"
| "jsize (JObj kvs) = Suc (sum_list (map (\<lambda>kv. jsize (snd kv)) kvs))"
| "jsize _ = 1"

text \<open>
  \<open>pending\<close> is a stack whose top is the head: \<open>pop()\<close> takes the last element pushed.
\<close>

function scan_references :: "json list \<Rightarrow> bool" where
  "scan_references [] = True"
| "scan_references (JObj kvs # rest) =
     (if list_ex bad_entry kvs then False
      else scan_references (rev (map snd kvs) @ rest))"
| "scan_references (JArr vs # rest) = scan_references (rev vs @ rest)"
| "scan_references (JNull # rest) = scan_references rest"
| "scan_references (JBool b # rest) = scan_references rest"
| "scan_references (JInt i # rest) = scan_references rest"
| "scan_references (JFloat x # rest) = scan_references rest"
| "scan_references (JStr s # rest) = scan_references rest"
  by pat_completeness auto
termination
  by (relation "measure (\<lambda>ps. sum_list (map jsize ps))")
    (simp_all add: rev_map [symmetric] sum_list_rev comp_def)

text \<open>The specification: no object anywhere in the value holds a non-local reference.\<close>

fun references_local :: "json \<Rightarrow> bool" where
  "references_local (JObj kvs) =
     list_all (\<lambda>kv. \<not> bad_entry kv \<and> references_local (snd kv)) kvs"
| "references_local (JArr vs) = list_all references_local vs"
| "references_local _ = True"

lemma scan_references_spec: "scan_references ps = list_all references_local ps"
proof (induction ps rule: scan_references.induct)
  case (2 kvs rest)
  then show ?case by (auto simp: list_all_iff list_ex_iff)
qed (auto simp: list_all_iff)

definition check_schema :: "(flt \<Rightarrow> string) \<Rightarrow> (json \<Rightarrow> bool) \<Rightarrow> json \<Rightarrow> unit result" where
  "check_schema show_float meta_ok schema =
     bindE (guardE (length (canonical show_float schema) \<le> 8192) (ValueError ''invalid_json_schema''))
      (\<lambda>_. bindE (guardE (meta_ok schema) (ValueError ''invalid_json_schema''))
        (\<lambda>_. guardE (scan_references [schema]) (ValueError ''invalid_json_schema'')))"

lemma check_schema_cases:
  "check_schema sf m s = Inr () \<or> check_schema sf m s = Inl (ValueError ''invalid_json_schema'')"
  by (simp add: check_schema_def guardE_def)

section \<open>Properties\<close>

text \<open>The ingress check of a JSON schema accepts a value exactly when its canonical
  encoding has at most 8192 bytes, the meta-schema accepts it, and no object at any depth
  holds a reference that is not local. The stack loop over \<open>pending\<close> decides that
  recursive specification and always terminates.\<close>

theorem check_schema_iff:
  "check_schema show_float meta_ok schema = Inr () \<longleftrightarrow>
     length (canonical show_float schema) \<le> 8192 \<and> meta_ok schema \<and> references_local schema"
  by (simp add: check_schema_def guardE_def scan_references_spec)

text \<open>The canonical encoding does not depend on the order in which the keys of an
  object were inserted.\<close>

theorem canonical_key_order:
  assumes "distinct (map fst kvs)" and "mset kvs = mset kvs'"
  shows "canonical show_float (JObj kvs) = canonical show_float (JObj kvs')"
proof -
  let ?f = "\<lambda>kv. (fst kv, canonical show_float (snd kv))"
  have "distinct (map fst (map ?f kvs))" using assms(1) by (simp add: comp_def)
  moreover have "mset (map ?f kvs) = mset (map ?f kvs')"
    using assms(2) by (metis mset_map)
  ultimately have "sort_key fst (map ?f kvs) = sort_key fst (map ?f kvs')"
    by (rule sort_key_perm)
  then show ?thesis by simp
qed

theorem canonical_key_order_witness:
  "canonical (\<lambda>_. ''0.5'') (JObj [(''b'', JInt 1), (''a'', JBool True)]) =
   canonical (\<lambda>_. ''0.5'') (JObj [(''a'', JBool True), (''b'', JInt 1)])"
  by (rule canonical_key_order) simp_all

end
