(* ===== verification/Uid.thy ===== *)
theory Uid
  imports Structured
begin

unbundle bit_operations_syntax

text \<open>
  The UUIDv7 identifiers of \<open>contracts.uid\<close>: the bit layout of the 128-bit value, the
  canonical text form \<open>str(UUID(int=value))\<close> and the check the contracts apply to a
  client-chosen identifier (\<open>UUID(s)\<close> parses, its version is 7 and \<open>str\<close> gives the
  text back). The clock and the random bits are arguments. The lemmas show that the
  layout's fields do not overlap, so that identifiers are ordered by their millisecond.
\<close>

section \<open>The 128-bit value\<close>

definition uid_value :: "nat \<Rightarrow> nat \<Rightarrow> nat \<Rightarrow> nat" where
  "uid_value ms r12 r62 =
     ((push_bit 80 ms OR push_bit 76 7) OR push_bit 64 r12) OR (push_bit 62 2 OR r62)"

lemma or_disjoint:
  assumes "(b::nat) < 2 ^ n"
  shows "push_bit n a OR b = a * 2 ^ n + b"
proof -
  have "push_bit n a AND b = 0"
  proof (rule bit_eqI)
    fix m
    have "\<not> bit b m" if "n \<le> m"
      using assms that
      by (metis bit_take_bit_iff leD take_bit_nat_eq_self)
    then show "bit (push_bit n a AND b) m \<longleftrightarrow> bit 0 m"
      by (auto simp: bit_and_iff bit_push_bit_iff)
  qed
  then have "push_bit n a OR b = push_bit n a + b"
    by (simp add: disjunctive_add_eq_or)
  then show ?thesis by (simp add: push_bit_eq_mult)
qed

lemma uid_value_eq:
  assumes "r12 < 2 ^ 12" and "r62 < 2 ^ 62"
  shows "uid_value ms r12 r62 = ms * 2 ^ 80 + 7 * 2 ^ 76 + r12 * 2 ^ 64 + 2 * 2 ^ 62 + r62"
proof -
  have low: "push_bit 62 (2::nat) OR r62 = 2 * 2 ^ 62 + r62"
    by (rule or_disjoint [OF assms(2)])
  have top: "push_bit 80 ms OR push_bit 76 (7::nat) = push_bit 76 (ms * 16 + 7)"
  proof -
    have "push_bit 80 ms OR push_bit 76 (7::nat) = push_bit 76 (push_bit 4 ms OR 7)"
      by (simp add: push_bit_or)
    also have "push_bit 4 ms OR 7 = ms * 2 ^ 4 + 7" by (rule or_disjoint) simp
    finally show ?thesis by simp
  qed
  have middle: "push_bit 76 (ms * 16 + 7) OR push_bit 64 r12 = push_bit 64 ((ms * 16 + 7) * 4096 + r12)"
  proof -
    have "push_bit 76 (ms * 16 + 7) OR push_bit 64 r12 = push_bit 64 (push_bit 12 (ms * 16 + 7) OR r12)"
      by (simp add: push_bit_or)
    also have "push_bit 12 (ms * 16 + 7) OR r12 = (ms * 16 + 7) * 2 ^ 12 + r12"
      by (rule or_disjoint [OF assms(1)])
    finally show ?thesis by simp
  qed
  have whole: "push_bit 64 ((ms * 16 + 7) * 4096 + r12) OR (2 * 2 ^ 62 + r62) =
      ((ms * 16 + 7) * 4096 + r12) * 2 ^ 64 + (2 * 2 ^ 62 + r62)"
    using assms(2) by (intro or_disjoint) simp
  show ?thesis
    unfolding uid_value_def low top middle whole by (simp add: algebra_simps)
qed

section \<open>The text form\<close>

fun hex :: "nat \<Rightarrow> nat \<Rightarrow> string" where
  "hex 0 v = []"
| "hex (Suc n) v = digit_char (v div 16 ^ n mod 16) # hex n v"

definition uuid_text :: "nat \<Rightarrow> string" where
  "uuid_text v =
     hex 8 (v div 16 ^ 24) @ ''-'' @ hex 4 (v div 16 ^ 20) @ ''-'' @ hex 4 (v div 16 ^ 16) @
     ''-'' @ hex 4 (v div 16 ^ 12) @ ''-'' @ hex 12 v"

definition uid :: "nat \<Rightarrow> nat \<Rightarrow> nat \<Rightarrow> ident" where
  "uid ms r12 r62 = uuid_text (uid_value ms r12 r62)"

text \<open>
  \<open>UUID(s)\<close> succeeds, \<open>identifier.version == 7\<close> (which is \<open>None\<close> unless the variant is
  RFC 4122) and \<open>str(identifier) == s\<close>: the canonical lower-case form with version
  digit 7 and a variant digit among 8, 9, a, b.
\<close>

definition is_hex_char :: "char \<Rightarrow> bool" where
  "is_hex_char c = (is_digit c \<or> (97 \<le> code c \<and> code c \<le> 102))"

definition is_uuid7 :: "string \<Rightarrow> bool" where
  "is_uuid7 s =
     (let a = take 8 s; b = take 4 (drop 9 s); c = take 4 (drop 14 s);
          d = take 4 (drop 19 s); e = drop 24 s
      in length s = 36 \<and>
         s = a @ ''-'' @ b @ ''-'' @ c @ ''-'' @ d @ ''-'' @ e \<and>
         list_all is_hex_char (a @ b @ c @ d @ e) \<and>
         c ! 0 = CHR ''7'' \<and> d ! 0 \<in> set ''89ab'')"

lemma length_hex [simp]: "length (hex n v) = n"
  by (induction n) auto

lemma code_digit_char: "n < 16 \<Longrightarrow> code (digit_char n) = (if n < 10 then 48 + n else 87 + n)"
  by (simp add: code_def digit_char_def)

lemma is_hex_digit_char: "n < 16 \<Longrightarrow> is_hex_char (digit_char n)"
  by (auto simp: is_hex_char_def is_digit_def code_digit_char)

lemma hex_chars: "list_all is_hex_char (hex n v)"
  by (induction n) (simp_all add: is_hex_digit_char)

lemma digit_char_less: "m < n \<Longrightarrow> n < 16 \<Longrightarrow> digit_char m < digit_char n"
proof -
  assume "m < n" "n < 16"
  then have "code (digit_char m) < code (digit_char n)"
    by (auto simp: code_digit_char)
  then show ?thesis by (simp add: less_char_def code_def)
qed

text \<open>Fixed-width hexadecimal is monotone for the lexicographic order of strings.\<close>

lemma mod_pow_Suc: "v mod 16 ^ Suc n = 16 ^ n * (v div 16 ^ n mod 16) + v mod (16::nat) ^ n"
  by (simp add: mod_mult2_eq mult.commute [of 16])

lemma hex_cong: "v mod 16 ^ n = w mod 16 ^ n \<Longrightarrow> hex n v = hex n w"
proof (induction n)
  case (Suc n)
  have split: "x mod 16 ^ Suc n div 16 ^ n = x div 16 ^ n mod 16"
    "x mod 16 ^ Suc n mod 16 ^ n = x mod 16 ^ n" for x :: nat
    by (simp_all add: mod_pow_Suc del: power_Suc)
  from Suc.prems have "v div 16 ^ n mod 16 = w div 16 ^ n mod 16"
    and "v mod 16 ^ n = w mod 16 ^ n"
    by (metis split(1), metis split(2))
  with Suc.IH show ?case by simp
qed simp

lemma hex_less: "v mod 16 ^ n < w mod 16 ^ n \<Longrightarrow> hex n v < hex n w"
proof (induction n)
  case (Suc n)
  let ?a = "v div 16 ^ n mod 16" and ?b = "w div 16 ^ n mod 16"
  have le: "16 ^ n * ?a + v mod 16 ^ n < 16 ^ n * ?b + w mod 16 ^ n"
    using Suc.prems by (simp add: mod_pow_Suc del: power_Suc)
  show ?case
  proof (cases ?a ?b rule: linorder_cases)
    case less
    then have "digit_char ?a < digit_char ?b" by (intro digit_char_less) simp_all
    then show ?thesis by simp
  next
    case equal
    with le Suc.IH show ?thesis by simp
  next
    case greater
    then have "16 ^ n * Suc ?b \<le> 16 ^ n * ?a" by (intro mult_le_mono) simp_all
    moreover have "w mod 16 ^ n < 16 ^ n" by simp
    ultimately have False using le by simp
    then show ?thesis ..
  qed
qed simp

lemma append_less_iff:
  "length xs = length ys \<Longrightarrow> xs @ us < ys @ vs \<longleftrightarrow> xs < ys \<or> xs = ys \<and> us < (vs::'a::linorder list)"
  by (induction xs ys rule: list_induct2) auto

text \<open>The first 48 bits of the value are the millisecond.\<close>

lemma uid_value_div:
  assumes "r12 < 2 ^ 12" and "r62 < 2 ^ 62"
  shows "uid_value ms r12 r62 div 16 ^ 20 = ms"
    and "uid_value ms r12 r62 div 16 ^ 24 = ms div 16 ^ 4"
    and "uid_value ms r12 r62 div 16 ^ 16 = ms * 16 ^ 4 + 7 * 16 ^ 3 + r12"
    and "uid_value ms r12 r62 div 16 ^ 12 mod 16 ^ 4 = 2 * 2 ^ 14 + r62 div 16 ^ 12"
proof -
  let ?v = "uid_value ms r12 r62"
  have v: "?v = ms * 2 ^ 80 + (7 * 2 ^ 76 + r12 * 2 ^ 64 + 2 * 2 ^ 62 + r62)"
    by (simp add: uid_value_eq [OF assms])
  have low: "7 * 2 ^ 76 + r12 * 2 ^ 64 + 2 * 2 ^ 62 + r62 < 2 ^ 80"
    using assms by simp
  show top: "?v div 16 ^ 20 = ms"
    using low by (simp add: v)
  have "?v div 16 ^ 24 = ?v div 16 ^ 20 div 16 ^ 4"
    by (simp add: div_mult2_eq [symmetric])
  then show "?v div 16 ^ 24 = ms div 16 ^ 4" by (simp only: top)
  have "?v = (ms * 16 ^ 4 + 7 * 16 ^ 3 + r12) * 16 ^ 16 + (2 * 2 ^ 62 + r62)"
    by (simp add: uid_value_eq [OF assms])
  moreover have "2 * 2 ^ 62 + r62 < (16::nat) ^ 16" using assms(2) by simp
  ultimately show "?v div 16 ^ 16 = ms * 16 ^ 4 + 7 * 16 ^ 3 + r12" by simp
  have "?v = ((ms * 16 ^ 4 + 7 * 16 ^ 3 + r12) * 16 ^ 4 + (2 * 2 ^ 14 + r62 div 16 ^ 12)) * 16 ^ 12
      + r62 mod 16 ^ 12"
    by (simp add: uid_value_eq [OF assms] add_mult_distrib)
  then have "?v div 16 ^ 12 = (ms * 16 ^ 4 + 7 * 16 ^ 3 + r12) * 16 ^ 4 + (2 * 2 ^ 14 + r62 div 16 ^ 12)"
    by simp
  moreover have "2 * 2 ^ 14 + r62 div 16 ^ 12 < (16::nat) ^ 4"
    using assms(2) by (simp add: div_less_iff_less_mult)
  ultimately show "?v div 16 ^ 12 mod 16 ^ 4 = 2 * 2 ^ 14 + r62 div 16 ^ 12"
    by (simp only: mod_mult_self3 mod_less)
qed

lemma uid_prefix:
  assumes "r12 < 2 ^ 12" and "r62 < 2 ^ 62"
  shows "\<exists>rest. uid ms r12 r62 = (hex 8 (ms div 16 ^ 4) @ ''-'' @ hex 4 ms) @ rest"
  unfolding uid_def uuid_text_def uid_value_div [OF assms] by auto

lemma is_uuid7_grouped:
  assumes "length a = 8" "length b = 4" "length c = 4" "length d = 4" "length e = 12"
    and "list_all is_hex_char (a @ b @ c @ d @ e)"
    and "c ! 0 = CHR ''7''" and "d ! 0 \<in> set ''89ab''"
  shows "is_uuid7 (a @ ''-'' @ b @ ''-'' @ c @ ''-'' @ d @ ''-'' @ e)"
proof -
  let ?s = "a @ ''-'' @ b @ ''-'' @ c @ ''-'' @ d @ ''-'' @ e"
  have "take 8 ?s = a" "take 4 (drop 9 ?s) = b" "take 4 (drop 14 ?s) = c"
    "take 4 (drop 19 ?s) = d" "drop 24 ?s = e" "length ?s = 36"
    using assms(1-5) by simp_all
  with assms(6-8) show ?thesis by (simp only: is_uuid7_def Let_def simp_thms)
qed

lemma hex_first: "hex 4 v ! 0 = digit_char (v div 16 ^ 3 mod 16)"
proof -
  have "(4::nat) = Suc 3" by simp
  then show ?thesis by (simp only: hex.simps nth_Cons_0)
qed

section \<open>Properties\<close>

text \<open>Every generated identifier passes the check the contracts apply to an
  identifier a client chooses: the canonical lower-case form of a version 7, RFC 4122
  variant UUID.\<close>

theorem uid_is_uuid7:
  assumes "ms < 2 ^ 48" and "r12 < 2 ^ 12" and "r62 < 2 ^ 62"
  shows "is_uuid7 (uid ms r12 r62)"
proof -
  note div = uid_value_div [OF assms(2,3)]
  let ?v = "uid_value ms r12 r62"
  have "hex 4 (?v div 16 ^ 16) ! 0 = digit_char ((ms * 16 ^ 4 + 7 * 16 ^ 3 + r12) div 16 ^ 3 mod 16)"
    by (simp only: hex_first div)
  also have "(ms * 16 ^ 4 + 7 * 16 ^ 3 + r12) div 16 ^ 3 = ms * 16 + 7"
    using assms(2) by simp
  also have "(ms * 16 + 7) mod 16 = 7"
    by (simp add: mod_simps)
  also have "digit_char 7 = CHR ''7''" by code_simp
  finally have version: "hex 4 (?v div 16 ^ 16) ! 0 = CHR ''7''" .
  have "hex 4 (?v div 16 ^ 12) = hex 4 (2 * 2 ^ 14 + r62 div 16 ^ 12)"
    by (rule hex_cong) (metis div(4) mod_mod_trivial)
  then have d: "hex 4 (?v div 16 ^ 12) ! 0 = digit_char ((2 * 2 ^ 14 + r62 div 16 ^ 12) div 16 ^ 3 mod 16)"
    by (simp only: hex_first)
  have "(2 * 2 ^ 14 + r62 div 16 ^ 12) div 16 ^ 3 = 8 + r62 div 16 ^ 15"
    by (simp add: div_mult2_eq [symmetric])
  moreover have "r62 div 16 ^ 15 < 4" using assms(3) by (simp add: div_less_iff_less_mult)
  ultimately have "(2 * 2 ^ 14 + r62 div 16 ^ 12) div 16 ^ 3 mod 16 \<in> {8, 9, 10, 11}" by auto
  moreover have "digit_char ` {8, 9, 10, 11} \<subseteq> set ''89ab''" by code_simp
  ultimately have variant: "hex 4 (?v div 16 ^ 12) ! 0 \<in> set ''89ab''" unfolding d by blast
  show ?thesis
    unfolding uid_def uuid_text_def
    by (rule is_uuid7_grouped) (simp_all only: length_hex list_all_append hex_chars version variant)
qed

theorem uid_is_uuid7_witness: "is_uuid7 (uid 1700000000000 5 7)"
  by (rule uid_is_uuid7) simp_all

text \<open>Identifiers sort by their creation time: of two identifiers generated in
  different milliseconds the later one is the greater string, whatever the random bits.\<close>

theorem uid_time_sortable:
  assumes "ms < ms'" and "ms' < 2 ^ 48" and "r < 2 ^ 12" "r' < 2 ^ 12" and "q < 2 ^ 62" "q' < 2 ^ 62"
  shows "uid ms r q < uid ms' r' q'"
proof -
  let ?p = "\<lambda>m. hex 8 (m div 16 ^ 4) @ ''-'' @ hex 4 m"
  obtain u u' where u: "uid ms r q = ?p ms @ u" and u': "uid ms' r' q' = ?p ms' @ u'"
    using uid_prefix [OF assms(3,5)] uid_prefix [OF assms(4,6)] by metis
  have small: "m div 16 ^ 4 mod 16 ^ 8 = m div 16 ^ 4" if "m < 2 ^ 48" for m :: nat
    using that by simp
  have "ms div 16 ^ 4 \<le> ms' div 16 ^ 4" using assms(1) by (simp add: div_le_mono)
  then consider "ms div 16 ^ 4 < ms' div 16 ^ 4" | "ms div 16 ^ 4 = ms' div 16 ^ 4"
    by linarith
  then have "?p ms < ?p ms'"
  proof cases
    case 1
    then have "hex 8 (ms div 16 ^ 4) < hex 8 (ms' div 16 ^ 4)"
      using assms(1,2) by (intro hex_less) (simp only: small)
    then show ?thesis by (simp only: append_less_iff length_hex) simp
  next
    case 2
    then have "ms mod 16 ^ 4 < ms' mod 16 ^ 4"
      using assms(1) by (metis mod_div_decomp nat_add_left_cancel_less)
    then have "hex 4 ms < hex 4 ms'" by (rule hex_less)
    with 2 show ?thesis by (simp only: append_less_iff length_hex) simp
  qed
  moreover have "length (?p ms) = length (?p ms')" by simp
  ultimately show ?thesis unfolding u u' by (metis append_less_iff)
qed

theorem uid_time_sortable_witness: "uid 1700000000000 4095 9 < uid 1700000000001 0 0"
  by (rule uid_time_sortable) simp_all

end
