(* ===== verification/Contracts.thy ===== *)
theory Contracts
  imports Uid
begin

text \<open>
  The ingress contracts of \<open>contracts.py\<close>: constrained scalars, the inference request and
  its parts, usage, the inference response and the feedback bodies. Each contract is a
  record; \<open>..._fields\<close> is the conjunction of its declared field constraints, and the
  model validators are the ordered guards of the source. \<open>contract_new\<close> is construction:
  the fields are checked before the validator runs, so a validator may rely on them.
  The constant field \<open>schema_version\<close> is only modelled on the event envelope, where a
  validator reads it.
\<close>

section \<open>Constrained scalars\<close>

definition valid_identifier :: "string \<Rightarrow> bool" where
  "valid_identifier s =
     (1 \<le> length s \<and> length s \<le> 100 \<and>
      list_all (\<lambda>c. is_word_char c \<or> c = CHR ''.'' \<or> c = CHR ''-'') s)"

definition valid_region :: "string \<Rightarrow> bool" where
  "valid_region s =
     (1 \<le> length s \<and> length s \<le> 32 \<and>
      list_all (\<lambda>c. is_lower c \<or> is_digit c \<or> c = CHR ''-'') s)"

definition valid_content :: "string \<Rightarrow> bool" where
  "valid_content s = (length s \<le> 32000)"

definition valid_reference :: "string \<Rightarrow> bool" where
  "valid_reference s = (1 \<le> length s \<and> length s \<le> 512)"

definition valid_metadata_value :: "string \<Rightarrow> bool" where
  "valid_metadata_value s = (length s \<le> 200)"

definition opt_all :: "('a \<Rightarrow> bool) \<Rightarrow> 'a option \<Rightarrow> bool" where
  "opt_all P x = (case x of None \<Rightarrow> True | Some y \<Rightarrow> P y)"

lemmas scalar_defs = valid_identifier_def valid_region_def valid_content_def valid_reference_def
  valid_metadata_value_def is_word_char_def is_digit_def is_lower_def is_upper_def code_def

lemma opt_all_simps [simp]: "opt_all P None" "opt_all P (Some y) = P y"
  by (simp_all add: opt_all_def)

definition contract_new :: "bool \<Rightarrow> 'a result \<Rightarrow> 'a result" where
  "contract_new fields validated = (if fields then validated else Inl (ValueError field_error))"

lemma contract_new_Inr_iff: "contract_new f v = Inr x \<longleftrightarrow> f \<and> v = Inr x"
  by (simp add: contract_new_def)

lemma contract_new_is_ok: "is_ok (contract_new f v) \<longleftrightarrow> f \<and> is_ok v"
  by (simp add: contract_new_def)

lemmas contract_simps = contract_new_Inr_iff contract_new_is_ok raise_first_Inr_iff raise_first_is_ok

text \<open>\<open>LifecycleState\<close>, \<open>Environment\<close>, \<open>FinishReason\<close>, \<open>Producer\<close>.\<close>

datatype lifecycle_state =
    Candidate | Evaluating | Approved | Shadow | Canary | Production | Deprecated | Revoked

datatype environment = Local | Development | Staging | ProductionEnv

datatype finish_reason = Stop | Length | ErrorFinish | Cancelled | DeadlineExceeded | ContentFilter

datatype producer =
    Gateway | PolicyRedaction | RagOrchestrator | ModelRouter | EventCollector | DatasetBuilder
  | TrainingOrchestrator | EvaluationService | DeploymentController

section \<open>Inference ingress\<close>

datatype role = System | User | Assistant

record message =
  role_of :: role
  content_of :: string

definition message_validate :: "message \<Rightarrow> message result" where
  "message_validate m = contract_new (valid_content (content_of m))
     (raise_first
       [(role_of m = System \<and> length (content_of m) > 8000, ''system_message_too_long'')] m)"

record rag_options =
  rag_enabled :: bool
  rag_index_id :: "ident option"

definition rag_options_validate :: "rag_options \<Rightarrow> rag_options result" where
  "rag_options_validate r = contract_new (opt_all valid_identifier (rag_index_id r))
     (raise_first
       [(rag_enabled r \<and> rag_index_id r = None,
         ''rag.index_id is required when rag is enabled'')] r)"

record json_schema =
  schema_name :: ident
  schema_body :: json

definition json_schema_validate ::
    "(flt \<Rightarrow> string) \<Rightarrow> (json \<Rightarrow> bool) \<Rightarrow> json_schema \<Rightarrow> json_schema result" where
  "json_schema_validate show_float meta_ok s = contract_new (valid_identifier (schema_name s))
     (bindE (check_schema show_float meta_ok (schema_body s)) (\<lambda>_. Inr s))"

datatype format_type = TextFormat | JsonObjectFormat | JsonSchemaFormat

record response_format =
  rf_type :: format_type
  rf_schema :: "json_schema option"

definition response_format_validate :: "response_format \<Rightarrow> response_format result" where
  "response_format_validate r =
     raise_first
       [((rf_type r = JsonSchemaFormat) \<noteq> (rf_schema r \<noteq> None),
         ''response_format_schema_mismatch'')] r"

datatype routing_mode = AutoMode | FoundationMode | SpecialistMode

record routing_options =
  ro_mode :: routing_mode
  ro_max_cost_micros :: micros
  ro_deadline_ms :: int

definition routing_options_fields :: "routing_options \<Rightarrow> bool" where
  "routing_options_fields r =
     (0 \<le> ro_max_cost_micros r \<and> ro_max_cost_micros r \<le> 1000000 \<and>
      50 \<le> ro_deadline_ms r \<and> ro_deadline_ms r \<le> 30000)"

definition default_routing_options :: routing_options where
  "default_routing_options =
     \<lparr>ro_mode = AutoMode, ro_max_cost_micros = 20000, ro_deadline_ms = 5000\<rparr>"

record inference_request =
  rq_request_id :: ident
  rq_messages :: "message list"
  rq_application_id :: ident
  rq_rag :: rag_options
  rq_response_format :: response_format
  rq_routing :: routing_options
  rq_metadata :: "(ident \<times> string) list"
  rq_max_output_tokens :: int
  rq_stream :: bool

definition inference_request_fields ::
    "(flt \<Rightarrow> string) \<Rightarrow> (json \<Rightarrow> bool) \<Rightarrow> inference_request \<Rightarrow> bool" where
  "inference_request_fields show_float meta_ok r =
     (valid_identifier (rq_request_id r) \<and>
      1 \<le> length (rq_messages r) \<and> length (rq_messages r) \<le> 32 \<and>
      list_all (\<lambda>m. is_ok (message_validate m)) (rq_messages r) \<and>
      valid_identifier (rq_application_id r) \<and>
      is_ok (rag_options_validate (rq_rag r)) \<and>
      opt_all (\<lambda>s. is_ok (json_schema_validate show_float meta_ok s)) (rf_schema (rq_response_format r)) \<and>
      is_ok (response_format_validate (rq_response_format r)) \<and>
      routing_options_fields (rq_routing r) \<and>
      length (rq_metadata r) \<le> 16 \<and> distinct (map fst (rq_metadata r)) \<and>
      list_all (\<lambda>(k, v). valid_identifier k \<and> valid_metadata_value v) (rq_metadata r) \<and>
      1 \<le> rq_max_output_tokens r \<and> rq_max_output_tokens r \<le> 2048)"

definition bounded_messages :: "inference_request \<Rightarrow> inference_request result" where
  "bounded_messages r = raise_first
     [(list_ex (\<lambda>m. role_of m = System) (tl (rq_messages r)),
       ''system_message_must_be_first_and_unique''),
      (sum_list (map (\<lambda>m. length (content_of m)) (rq_messages r)) > 32000,
       ''total message length exceeds limit''),
      (role_of (last (rq_messages r)) \<noteq> User, ''last message must be a user message'')] r"

definition inference_request_validate ::
    "(flt \<Rightarrow> string) \<Rightarrow> (json \<Rightarrow> bool) \<Rightarrow> inference_request \<Rightarrow> inference_request result" where
  "inference_request_validate show_float meta_ok r =
     contract_new (inference_request_fields show_float meta_ok r) (bounded_messages r)"

record citation =
  ci_document_id :: string
  ci_chunk_id :: string

record route_summary =
  rs_fallback_used :: bool
  rs_specialist_served :: bool

datatype usage_source = ProviderReported | LocallyEstimated

record usage =
  us_input_tokens :: int
  us_output_tokens :: int
  us_cached_input_tokens :: "int option"
  us_reasoning_tokens :: "int option"
  us_source :: usage_source
  us_tokenizer :: string

definition usage_validate :: "usage \<Rightarrow> usage result" where
  "usage_validate u = contract_new
     (0 \<le> us_input_tokens u \<and> 0 \<le> us_output_tokens u \<and>
      opt_all (\<lambda>n. 0 \<le> n) (us_cached_input_tokens u) \<and>
      opt_all (\<lambda>n. 0 \<le> n) (us_reasoning_tokens u))
     (raise_first
       [(case us_cached_input_tokens u of None \<Rightarrow> False | Some c \<Rightarrow> c > us_input_tokens u,
         ''cached input cannot exceed total input'')] u)"

record inference_response =
  rp_interaction_id :: string
  rp_trace_id :: string
  rp_model_deployment_id :: string
  rp_content :: string
  rp_citations :: "citation list"
  rp_usage :: usage
  rp_estimated_cost_micros :: micros
  rp_route :: route_summary
  rp_finish_reason :: finish_reason
  rp_replayed :: bool

section \<open>Feedback ingress\<close>

record feedback_value =
  fv_score :: int
  fv_max_score :: int

definition feedback_value_validate :: "feedback_value \<Rightarrow> feedback_value result" where
  "feedback_value_validate v = contract_new (0 \<le> fv_score v \<and> 1 \<le> fv_max_score v)
     (raise_first [(fv_score v > fv_max_score v, ''score cannot exceed max_score'')] v)"

datatype label_type = Thumb | Rubric | Correction | Resolution | SafetyLabel

record feedback_input =
  fi_label_type :: label_type
  fi_value :: feedback_value
  fi_comment :: "string option"
  fi_rubric_version :: "ident option"
  fi_training_authorised :: bool

record correction_input =
  co_correction :: string
  co_training_authorised :: bool

definition feedback_input_fields :: "feedback_input \<Rightarrow> bool" where
  "feedback_input_fields f =
     (is_ok (feedback_value_validate (fi_value f)) \<and> opt_all valid_content (fi_comment f) \<and>
      opt_all valid_identifier (fi_rubric_version f))"

definition correction_input_fields :: "correction_input \<Rightarrow> bool" where
  "correction_input_fields c = (valid_content (co_correction c) \<and> 1 \<le> length (co_correction c))"

definition subject_deletion_fields :: "string \<Rightarrow> bool" where
  "subject_deletion_fields subject = (1 \<le> length subject \<and> length subject \<le> 512)"

section \<open>Properties\<close>

lemma bounded_messages_ok:
  "is_ok (bounded_messages r) \<longleftrightarrow>
     (\<forall>m \<in> set (tl (rq_messages r)). role_of m \<noteq> System) \<and>
     sum_list (map (\<lambda>m. length (content_of m)) (rq_messages r)) \<le> 32000 \<and>
     role_of (last (rq_messages r)) = User"
  by (auto simp: bounded_messages_def raise_first_is_ok list_ex_iff)

text \<open>A request the gateway accepts ends with a user message, has a system message at
  most in the first position (and that one of at most 8000 characters), at most 32000
  characters in total, a cost limit and a deadline within their bounds, and names an index
  whenever retrieval is enabled.\<close>

theorem accepted_request_shape:
  assumes "inference_request_validate sf meta r = Inr r'"
  shows "r' = r \<and> rq_messages r \<noteq> [] \<and> role_of (last (rq_messages r)) = User \<and>
    (\<forall>i < length (rq_messages r). role_of (rq_messages r ! i) = System \<longrightarrow>
       i = 0 \<and> length (content_of (rq_messages r ! i)) \<le> 8000) \<and>
    sum_list (map (\<lambda>m. length (content_of m)) (rq_messages r)) \<le> 32000 \<and>
    ro_max_cost_micros (rq_routing r) \<in> {0..1000000} \<and>
    ro_deadline_ms (rq_routing r) \<in> {50..30000} \<and>
    (rag_enabled (rq_rag r) \<longrightarrow> rag_index_id (rq_rag r) \<noteq> None)"
proof -
  let ?ms = "rq_messages r"
  from assms have fields: "inference_request_fields sf meta r" and val: "bounded_messages r = Inr r'"
    by (simp_all add: inference_request_validate_def contract_simps)
  from val have ok: "is_ok (bounded_messages r)" and "r' = r"
    by (simp, simp add: bounded_messages_def split: if_splits)
  have ne: "?ms \<noteq> []" using fields by (auto simp: inference_request_fields_def)
  have "i = 0 \<and> length (content_of (?ms ! i)) \<le> 8000"
    if "i < length ?ms" and sys: "role_of (?ms ! i) = System" for i
  proof
    have "?ms ! i \<notin> set (tl ?ms)" using ok sys by (auto simp: bounded_messages_ok)
    then show "i = 0" using that(1) ne
      by (cases ?ms; cases i) auto
    have "is_ok (message_validate (?ms ! i))"
      using fields that(1) by (auto simp: inference_request_fields_def list_all_length)
    with sys show "length (content_of (?ms ! i)) \<le> 8000"
      by (simp add: message_validate_def contract_simps split: if_splits)
  qed
  moreover have "rag_enabled (rq_rag r) \<longrightarrow> rag_index_id (rq_rag r) \<noteq> None"
    using fields
    by (simp add: inference_request_fields_def rag_options_validate_def contract_simps split: if_splits)
  ultimately show ?thesis
    using fields ok ne \<open>r' = r\<close>
    by (simp add: inference_request_fields_def routing_options_fields_def bounded_messages_ok)
qed

definition sample_request :: inference_request where
  "sample_request =
     \<lparr>rq_request_id = ''req-1'',
      rq_messages = [\<lparr>role_of = System, content_of = ''be brief''\<rparr>,
                     \<lparr>role_of = User, content_of = ''hello''\<rparr>],
      rq_application_id = ''app'', rq_rag = \<lparr>rag_enabled = False, rag_index_id = None\<rparr>,
      rq_response_format = \<lparr>rf_type = TextFormat, rf_schema = None\<rparr>,
      rq_routing = default_routing_options, rq_metadata = [(''k'', ''v'')],
      rq_max_output_tokens = 512, rq_stream = False\<rparr>"

lemma sample_request_accepted:
  "inference_request_validate (\<lambda>_. ''0.0'') (\<lambda>_. True) sample_request = Inr sample_request"
  by (simp add: sample_request_def default_routing_options_def inference_request_validate_def
      inference_request_fields_def bounded_messages_def contract_new_def message_validate_def
      rag_options_validate_def response_format_validate_def routing_options_fields_def scalar_defs)

theorem accepted_request_shape_witness:
  "role_of (last (rq_messages sample_request)) = User"
  using accepted_request_shape [OF sample_request_accepted] by blast

end
