(* ===== verification/Contracts_Records.thy ===== *)
theory Contracts_Records
  imports Contracts
begin

text \<open>
  The records of the serving path in \<open>contracts.py\<close>: policy decision, task, retrieval
  evidence, routing policy and its thresholds, route decision, validation, generation
  attempt, interaction, feedback and deletion requests. \<open>..._fields\<close> and
  \<open>..._validate\<close> as in \<open>Contracts\<close>; a record whose declaration constrains nothing has
  neither.
\<close>

section \<open>Policy, task and retrieval evidence\<close>

record policy_decision =
  pd_policy_version :: string
  pd_processing_allowed :: bool
  pd_content_logging_allowed :: bool
  pd_evaluation_allowed :: bool
  pd_human_review_allowed :: bool
  pd_training_allowed :: bool
  pd_retention_seconds :: int
  pd_residency :: string
  pd_processing_redaction_version :: string
  pd_processing_redaction_counts :: "(string \<times> int) list"
  pd_persistence_redaction_version :: string
  pd_persistence_redaction_counts :: "(string \<times> int) list"

definition policy_decision_fields :: "policy_decision \<Rightarrow> bool" where
  "policy_decision_fields p = (1 \<le> pd_retention_seconds p \<and> valid_region (pd_residency p))"

text \<open>A decision with the declared defaults: everything but processing is denied.\<close>

definition policy_decision_default :: "string \<Rightarrow> int \<Rightarrow> policy_decision" where
  "policy_decision_default version retention =
     \<lparr>pd_policy_version = version, pd_processing_allowed = True,
      pd_content_logging_allowed = False, pd_evaluation_allowed = False,
      pd_human_review_allowed = False, pd_training_allowed = False,
      pd_retention_seconds = retention, pd_residency = ''local'',
      pd_processing_redaction_version = ''processing-regex-local-1'',
      pd_processing_redaction_counts = [],
      pd_persistence_redaction_version = ''persistence-regex-local-1'',
      pd_persistence_redaction_counts = []\<rparr>"

datatype risk_tier = LowRisk | MediumRisk | HighRisk

record task =
  tk_label :: string
  tk_language :: string
  tk_risk_tier :: risk_tier
  tk_classifier_version :: string
  tk_confidence :: flt
  tk_reason_codes :: "string list"

definition task_fields :: "task \<Rightarrow> bool" where
  "task_fields t = (0 \<le> tk_confidence t \<and> tk_confidence t \<le> 1)"

datatype licence_class = SyntheticLicence | InternalApproved | UnknownLicence

record chunk =
  ck_tenant_id :: ident
  ck_environment :: environment
  ck_region :: string
  ck_allowed_applications :: "ident list"
  ck_index_id :: ident
  ck_document_id :: ident
  ck_document_version :: string
  ck_document_family :: ident
  ck_chunk_id :: ident
  ck_content :: string
  ck_licence_class :: licence_class

record chunk_evidence =
  ce_document_id :: string
  ce_document_version :: string
  ce_chunk_id :: string
  ce_rank_retrieved :: nat
  ce_retrieval_score :: flt
  ce_rerank_score :: "flt option"
  ce_supplied_to_model :: bool
  ce_context_position :: "nat option"
  ce_token_count :: nat
  ce_content_hash :: string
  ce_content_ref :: "string option"
  ce_licence_class :: licence_class

record retrieval_run =
  rr_retrieval_run_id :: string
  rr_interaction_id :: string
  rr_index_id :: string
  rr_index_version :: string
  rr_filters :: "(string \<times> string) list"
  rr_query_hash :: "string option"
  rr_query_ref :: "string option"
  rr_latency_ms :: flt
  rr_candidates :: "chunk_evidence list"

section \<open>Routing policy\<close>

record breaker_thresholds =
  bt_window_seconds :: flt
  bt_minimum_samples :: nat
  bt_error_rate :: flt
  bt_validation_failure_rate :: flt
  bt_p95_latency_ms :: flt
  bt_cooldown_seconds :: flt

definition breaker_thresholds_fields :: "breaker_thresholds \<Rightarrow> bool" where
  "breaker_thresholds_fields t =
     (0 < bt_window_seconds t \<and> bt_window_seconds t \<le> 3600 \<and>
      1 \<le> bt_minimum_samples t \<and> bt_minimum_samples t \<le> 1000 \<and>
      0 < bt_error_rate t \<and> bt_error_rate t \<le> 1 \<and>
      0 < bt_validation_failure_rate t \<and> bt_validation_failure_rate t \<le> 1 \<and>
      0 < bt_p95_latency_ms t \<and>
      0 < bt_cooldown_seconds t \<and> bt_cooldown_seconds t \<le> 3600)"

definition default_breaker_thresholds :: breaker_thresholds where
  "default_breaker_thresholds =
     \<lparr>bt_window_seconds = 60, bt_minimum_samples = 5, bt_error_rate = 1 / 2,
      bt_validation_failure_rate = 1 / 2, bt_p95_latency_ms = 5000, bt_cooldown_seconds = 30\<rparr>"

datatype fallback_reason =
    ValidationFailure | EndpointError | DeadlineRisk | PolicyUncertainty | UnsupportedTool
  | LowConfidence | OutOfDistribution | LowQuality | CircuitOpen | LiveSpecialistsDisabled
  | NotCheapest

definition hard_fallback_reasons :: "fallback_reason list" where
  "hard_fallback_reasons =
     [ValidationFailure, EndpointError, DeadlineRisk, PolicyUncertainty, UnsupportedTool, CircuitOpen]"

record canary_config =
  cc_traffic_fraction :: flt
  cc_tenant_allowlist :: "ident list"

definition canary_config_fields :: "canary_config \<Rightarrow> bool" where
  "canary_config_fields c =
     (0 \<le> cc_traffic_fraction c \<and> cc_traffic_fraction c \<le> 1 \<and>
      length (cc_tenant_allowlist c) \<le> 100 \<and> list_all valid_identifier (cc_tenant_allowlist c))"

record rollback_thresholds =
  rb_interval_seconds :: flt
  rb_window_seconds :: flt
  rb_minimum_samples :: nat
  rb_non_inferiority_margin :: flt
  rb_validation_failure_rate_max :: flt
  rb_error_rate_max :: flt
  rb_p95_latency_ms_max :: flt
  rb_cost_ratio_max :: flt

definition rollback_thresholds_fields :: "rollback_thresholds \<Rightarrow> bool" where
  "rollback_thresholds_fields r =
     (0 < rb_interval_seconds r \<and> rb_interval_seconds r \<le> 60 \<and>
      0 < rb_window_seconds r \<and> rb_window_seconds r \<le> 86400 \<and>
      1 \<le> rb_minimum_samples r \<and>
      0 < rb_non_inferiority_margin r \<and> rb_non_inferiority_margin r < 1 \<and>
      0 \<le> rb_validation_failure_rate_max r \<and> rb_validation_failure_rate_max r \<le> 1 \<and>
      0 \<le> rb_error_rate_max r \<and> rb_error_rate_max r \<le> 1 \<and>
      0 < rb_p95_latency_ms_max r \<and> 0 < rb_cost_ratio_max r)"

definition default_rollback_thresholds :: rollback_thresholds where
  "default_rollback_thresholds =
     \<lparr>rb_interval_seconds = 1, rb_window_seconds = 300, rb_minimum_samples = 4,
      rb_non_inferiority_margin = 2 / 100, rb_validation_failure_rate_max = 0,
      rb_error_rate_max = 0, rb_p95_latency_ms_max = 5000, rb_cost_ratio_max = 1\<rparr>"

record routing_features =
  ft_task :: ident
  ft_language :: ident
  ft_risk_tier :: risk_tier
  ft_chunk_count :: nat
  ft_top_score :: flt
  ft_index_id :: "ident option"
  ft_input_tokens :: nat
  ft_context_supplied :: bool

definition routing_features_fields :: "routing_features \<Rightarrow> bool" where
  "routing_features_fields f =
     (valid_identifier (ft_task f) \<and> valid_identifier (ft_language f) \<and> 0 \<le> ft_top_score f \<and>
      opt_all valid_identifier (ft_index_id f))"

record routing_observation =
  ob_quality :: "flt option"
  ob_validation_pass :: "bool option"
  ob_cost_micros :: "micros option"
  ob_latency_ms :: "flt option"

definition routing_observation_fields :: "routing_observation \<Rightarrow> bool" where
  "routing_observation_fields r =
     (opt_all (\<lambda>q. 0 \<le> q \<and> q \<le> 1) (ob_quality r) \<and> opt_all (\<lambda>c. 0 \<le> c) (ob_cost_micros r) \<and>
      opt_all (\<lambda>l. 0 \<le> l) (ob_latency_ms r))"

record routing_row =
  rw_interaction_id :: ident
  rw_tenant_id :: ident
  rw_features :: routing_features
  rw_foundation_id :: ident
  rw_candidates :: "(ident \<times> routing_observation option) list"

record route_policy =
  po_policy_id :: ident
  po_eligible_specialist_versions :: "ident list"
  po_quality_threshold :: flt
  po_router_confidence_threshold :: flt
  po_ood_threshold_max :: flt
  po_max_attempts :: nat
  po_hard_fallback_on :: "fallback_reason list"
  po_foundation_fallback :: ident
  po_shadow_enabled :: bool
  po_tenant_enabled :: "(ident \<times> bool) list"
  po_task_enabled :: "(ident \<times> bool) list"
  po_kill_switch :: bool
  po_live_specialists_allowed :: bool
  po_router_version :: "ident option"
  po_canary :: canary_config
  po_rollback :: rollback_thresholds
  po_breaker :: breaker_thresholds

definition route_policy_fields :: "route_policy \<Rightarrow> bool" where
  "route_policy_fields p =
     (valid_identifier (po_policy_id p) \<and>
      length (po_eligible_specialist_versions p) \<le> 16 \<and>
      list_all valid_identifier (po_eligible_specialist_versions p) \<and>
      0 \<le> po_quality_threshold p \<and> po_quality_threshold p \<le> 1 \<and>
      0 \<le> po_router_confidence_threshold p \<and> po_router_confidence_threshold p \<le> 1 \<and>
      0 \<le> po_ood_threshold_max p \<and> po_ood_threshold_max p \<le> 1 \<and>
      1 \<le> po_max_attempts p \<and> po_max_attempts p \<le> 8 \<and>
      valid_identifier (po_foundation_fallback p) \<and>
      length (po_tenant_enabled p) \<le> 100 \<and> length (po_task_enabled p) \<le> 32 \<and>
      distinct (map fst (po_tenant_enabled p)) \<and> distinct (map fst (po_task_enabled p)) \<and>
      list_all valid_identifier (map fst (po_tenant_enabled p)) \<and>
      list_all valid_identifier (map fst (po_task_enabled p)) \<and>
      opt_all valid_identifier (po_router_version p) \<and>
      canary_config_fields (po_canary p) \<and> rollback_thresholds_fields (po_rollback p) \<and>
      breaker_thresholds_fields (po_breaker p))"

definition unique_specialists :: "route_policy \<Rightarrow> route_policy result" where
  "unique_specialists p = raise_first
     [(length (remdups (po_eligible_specialist_versions p)) \<noteq>
         length (po_eligible_specialist_versions p), ''duplicate_specialists''),
      (po_live_specialists_allowed p \<and> po_router_version p = None, ''promoted_router_required'')] p"

definition route_policy_validate :: "route_policy \<Rightarrow> route_policy result" where
  "route_policy_validate p = contract_new (route_policy_fields p) (unique_specialists p)"

definition default_route_policy :: "ident \<Rightarrow> ident \<Rightarrow> route_policy" where
  "default_route_policy policy_id foundation =
     \<lparr>po_policy_id = policy_id, po_eligible_specialist_versions = [],
      po_quality_threshold = 9 / 10, po_router_confidence_threshold = 85 / 100,
      po_ood_threshold_max = 15 / 100, po_max_attempts = 2,
      po_hard_fallback_on = hard_fallback_reasons, po_foundation_fallback = foundation,
      po_shadow_enabled = False, po_tenant_enabled = [], po_task_enabled = [],
      po_kill_switch = False, po_live_specialists_allowed = False, po_router_version = None,
      po_canary = \<lparr>cc_traffic_fraction = 0, cc_tenant_allowlist = []\<rparr>,
      po_rollback = default_rollback_thresholds, po_breaker = default_breaker_thresholds\<rparr>"

section \<open>Route decision, validation and generation attempts\<close>

record candidate =
  cd_model_deployment_id :: string
  cd_eligible :: bool
  cd_processing_region :: string
  cd_estimated_cost_micros :: micros
  cd_price_list_version :: string
  cd_estimated_latency_ms :: "flt option"
  cd_predicted_quality :: "flt option"
  cd_confidence :: "flt option"
  cd_ood_score :: "flt option"
  cd_reason_codes :: "string list"

record route_decision =
  rd_route_decision_id :: string
  rd_interaction_id :: string
  rd_router_version :: string
  rd_route_policy_id :: "string option"
  rd_fallback_reasons :: "string list"
  rd_candidates :: "candidate list"
  rd_selected_model_deployment_id :: "string option"
  rd_fallback_deployment_ids :: "string list"
  rd_decision_latency_ms :: flt
  rd_policy_constraints :: "string list"
  rd_response_schema_name :: "ident option"
  rd_response_schema_sha256 :: "string option"

datatype severity = Hard | Advisory

record validation_check =
  vc_version :: string
  vc_name :: string
  vc_passed :: bool
  vc_severity :: severity
  vc_critical_safety :: bool

record validation =
  va_validator_version :: string
  va_passed :: bool
  va_checks :: "validation_check list"

record request_parameters =
  rqp_temperature :: "flt option"
  rqp_max_output_tokens :: int
  rqp_seed :: "int option"

record tool_call =
  tc_tool_name :: ident
  tc_arguments_hash :: string
  tc_arguments_ref :: "string option"
  tc_allowed :: bool
  tc_result_ref :: "string option"

record generation_attempt =
  ga_attempt_id :: string
  ga_interaction_id :: string
  ga_attempt_number :: nat
  ga_shadow :: bool
  ga_model_provider :: string
  ga_model_id :: string
  ga_model_version :: string
  ga_deployment_id :: string
  ga_adapter_id :: "string option"
  ga_request_parameters :: "request_parameters option"
  ga_usage :: "usage option"
  ga_tool_calls :: "tool_call list"
  ga_output_ref :: "string option"
  ga_output_hash :: "string option"
  ga_total_latency_ms :: flt
  ga_estimated_cost_micros :: "micros option"
  ga_price_list_version :: "string option"
  ga_finish_reason :: finish_reason
  ga_validation :: "validation option"
  ga_fallback_reason :: "string option"
  ga_error_code :: "string option"

section \<open>Interaction, feedback and deletion\<close>

record input_summary =
  is_messages_ref :: "string option"
  is_response_format_ref :: "string option"
  is_content_hash :: "string option"
  is_token_count :: nat
  is_tokenizer :: string

datatype interaction_status = Completed | Failed

record interaction =
  ia_interaction_id :: string
  ia_trace_id :: string
  ia_request_id :: string
  ia_tenant_id :: string
  ia_subject :: "string option"
  ia_application_id :: string
  ia_environment :: environment
  ia_started_at :: instant
  ia_completed_at :: instant
  ia_task :: task
  ia_policy :: policy_decision
  ia_input :: input_summary
  ia_retrieval_run_id :: "string option"
  ia_route_decision_id :: "string option"
  ia_generation_attempt_ids :: "string list"
  ia_final_attempt_id :: "string option"
  ia_feedback_ids :: "string list"
  ia_total_cost_micros :: micros
  ia_shadow_cost_micros :: micros
  ia_status :: interaction_status
  ia_error_code :: "string option"

record started =
  st_interaction_id :: string
  st_application_id :: string
  st_policy_version :: string

datatype feedback_source = UserSource | ReviewerSource | AutomatedSource | BusinessOutcome

record feedback =
  fb_interaction_id :: string
  fb_feedback_id :: string
  fb_source :: feedback_source
  fb_label_type :: label_type
  fb_value :: feedback_value
  fb_comment_ref :: "string option"
  fb_correction_ref :: "string option"
  fb_content_hash :: "string option"
  fb_error_code :: "string option"
  fb_rubric_version :: "string option"
  fb_judge_version :: "string option"
  fb_actor :: "string option"
  fb_training_authorised :: bool
  fb_created_at :: instant

definition automated_labels_declare_judge :: "feedback \<Rightarrow> feedback result" where
  "automated_labels_declare_judge f = raise_first
     [(fb_source f = AutomatedSource \<and> fb_judge_version f = None,
       ''automated feedback must record judge_version''),
      (fb_source f \<noteq> AutomatedSource \<and> fb_judge_version f \<noteq> None,
       ''judge_version is only valid for automated feedback'')] f"

datatype deletion_scope =
    SubjectScope | InteractionScope | TenantScope | DocumentScope | DatasetScope

record deletion_request =
  dr_deletion_request_id :: string
  dr_scope :: deletion_scope
  dr_target_id :: string
  dr_requested_at :: instant
  dr_actor :: "string option"

text \<open>The validator of labels: a judge is recorded exactly for automated feedback.\<close>

lemma automated_labels_declare_judge_iff:
  "is_ok (automated_labels_declare_judge f) \<longleftrightarrow>
     (fb_source f = AutomatedSource) = (fb_judge_version f \<noteq> None)"
  by (auto simp: automated_labels_declare_judge_def)

lemma unique_specialists_iff:
  "is_ok (unique_specialists p) \<longleftrightarrow>
     distinct (po_eligible_specialist_versions p) \<and>
     (po_live_specialists_allowed p \<longrightarrow> po_router_version p \<noteq> None)"
  by (auto simp: unique_specialists_def)

end
