(* ===== verification/Contracts_Datasets.thy ===== *)
theory Contracts_Datasets
  imports Contracts_Records
begin

text \<open>
  The contracts of \<open>contracts.py\<close> for datasets, training jobs and model manifests. A record
  class that derives from another is a record extension (\<open>SignedRecord\<close>); \<open>..._fields\<close> is
  the conjunction of the declared field constraints and \<open>..._validate\<close> is construction.
  A field whose type has a single value (\<open>split_strategy\<close>) is left out, and
  \<open>astimezone(UTC)\<close> is the identity on instants.
\<close>

section \<open>Datasets\<close>

datatype approval_status = ApprovalPending | ApprovalApproved | ApprovalRejected

datatype dataset_purpose = AdapterTraining | DistillationPurpose | RouterTraining | EvaluationPurpose

datatype target_source = CorrectionTarget | PositiveResolution | ProductionOutput

datatype split = TrainSplit | ValidationSplit | TestSplit

datatype grouping_key = DocumentFamilyKey | SubjectKey

record dataset_built =
  db_dataset_id :: ident
  db_version :: string
  db_purpose :: dataset_purpose
  db_manifest_digest :: string
  db_deletions_applied_through :: instant
  db_approval_status :: approval_status

definition target_preferences :: "target_source list" where
  "target_preferences = [CorrectionTarget, PositiveResolution, ProductionOutput]"

definition grouping_keys :: "grouping_key list" where
  "grouping_keys = [DocumentFamilyKey, SubjectKey]"

record source_window =
  sw_start :: instant
  sw_end :: instant

definition source_window_validate :: "source_window \<Rightarrow> source_window result" where
  "source_window_validate w = raise_first [(sw_start w \<ge> sw_end w, ''invalid_source_window'')] w"

record time_split =
  ts_train_end :: instant
  ts_validation_end :: instant

definition time_split_validate :: "time_split \<Rightarrow> time_split result" where
  "time_split_validate t = raise_first [(ts_train_end t \<ge> ts_validation_end t, ''invalid_time_split'')] t"

text \<open>The two path components that are valid identifiers and must not name a directory.\<close>

definition is_dots :: "string \<Rightarrow> bool" where
  "is_dots s = (s = ''.'' \<or> s = ''..'')"

record dataset_specification =
  ds_dataset_id :: ident
  ds_fixture_set :: ident
  ds_purpose :: dataset_purpose
  ds_tenant_ids :: "ident list"
  ds_source_window :: source_window
  ds_eligibility_policy_version :: ident
  ds_target_preference_order :: "target_source list"
  ds_grouping_keys :: "grouping_key list"
  ds_time_split :: "time_split option"
  ds_minimum_examples :: int
  ds_seed :: int
  ds_near_duplicate_threshold :: flt
  ds_source_dataset_id :: "ident option"
  ds_source_dataset_version :: "ident option"
  ds_teacher_deployment_id :: "ident option"
  ds_teacher_minimum_score :: flt
  ds_teacher_max_output_tokens :: int
  ds_general_safety_fraction :: flt
  ds_soft_targets :: bool

definition dataset_specification_fields :: "dataset_specification \<Rightarrow> bool" where
  "dataset_specification_fields s =
     (valid_identifier (ds_dataset_id s) \<and> valid_identifier (ds_fixture_set s) \<and>
      1 \<le> length (ds_tenant_ids s) \<and> length (ds_tenant_ids s) \<le> 100 \<and>
      list_all valid_identifier (ds_tenant_ids s) \<and>
      is_ok (source_window_validate (ds_source_window s)) \<and>
      valid_identifier (ds_eligibility_policy_version s) \<and>
      1 \<le> length (ds_target_preference_order s) \<and> length (ds_target_preference_order s) \<le> 3 \<and>
      opt_all (\<lambda>t. is_ok (time_split_validate t)) (ds_time_split s) \<and>
      1 \<le> ds_minimum_examples s \<and> 0 \<le> ds_seed s \<and>
      0 \<le> ds_near_duplicate_threshold s \<and> ds_near_duplicate_threshold s \<le> 1 \<and>
      opt_all valid_identifier (ds_source_dataset_id s) \<and>
      opt_all valid_identifier (ds_source_dataset_version s) \<and>
      opt_all valid_identifier (ds_teacher_deployment_id s) \<and>
      0 \<le> ds_teacher_minimum_score s \<and> ds_teacher_minimum_score s \<le> 1 \<and>
      1 \<le> ds_teacher_max_output_tokens s \<and> ds_teacher_max_output_tokens s \<le> 2048 \<and>
      0 \<le> ds_general_safety_fraction s \<and> ds_general_safety_fraction s \<le> 8 / 10)"

definition valid_specification :: "dataset_specification \<Rightarrow> dataset_specification result" where
  "valid_specification s = raise_first
     [(is_dots (ds_fixture_set s), ''invalid_fixture_set''),
      (ds_purpose s = DistillationPurpose \<and>
         (ds_source_dataset_id s = None \<or> ds_source_dataset_version s = None \<or>
          ds_teacher_deployment_id s = None), ''distillation_source_and_teacher_required''),
      (ds_purpose s = RouterTraining \<and>
         (ds_source_dataset_id s = None \<or> ds_source_dataset_version s = None),
       ''routing_source_dataset_required''),
      (is_dots (ds_dataset_id s) \<or> list_ex is_dots (ds_tenant_ids s), ''invalid_dataset_identifier''),
      (length (remdups (ds_tenant_ids s)) \<noteq> length (ds_tenant_ids s), ''duplicate_tenants''),
      (length (remdups (ds_target_preference_order s)) \<noteq> length (ds_target_preference_order s),
       ''duplicate_target_preferences''),
      (ds_grouping_keys s \<noteq> [DocumentFamilyKey, SubjectKey] \<and>
         ds_grouping_keys s \<noteq> [SubjectKey, DocumentFamilyKey], ''joint_grouping_required'')] s"

definition dataset_specification_validate :: "dataset_specification \<Rightarrow> dataset_specification result" where
  "dataset_specification_validate s =
     contract_new (dataset_specification_fields s) (valid_specification s)"

record dataset_quality_summary =
  dq_considered :: int
  dq_accepted_rate :: flt
  dq_duplicate_rate :: flt
  dq_exclusions :: "(string \<times> int) list"
  dq_label_mix :: "(string \<times> int) list"
  dq_languages :: "(string \<times> int) list"

section \<open>Signed records\<close>

record signed_record =
  sr_signature :: "string option"
  sr_signature_key_id :: "ident option"
  sr_signature_version :: "string option"

definition signed_record_fields :: "'a signed_record_scheme \<Rightarrow> bool" where
  "signed_record_fields r =
     (opt_all valid_identifier (sr_signature_key_id r) \<and>
      (sr_signature_version r = None \<or> sr_signature_version r = Some ''ed25519-v1''))"

datatype mac_version = Mac1 | Mac2

record dataset_approval = signed_record +
  da_status :: approval_status
  da_actor :: "string option"
  da_reason :: "string option"
  da_at :: "instant option"
  da_mac :: "string option"
  da_approval_mac_version :: mac_version

record route_control_note =
  rn_reason :: string
  rn_tenant_id :: "ident option"
  rn_task :: "ident option"
  rn_specialist_version :: "ident option"

definition route_control_note_fields :: "route_control_note \<Rightarrow> bool" where
  "route_control_note_fields n =
     (1 \<le> length (rn_reason n) \<and> length (rn_reason n) \<le> 2000 \<and>
      opt_all valid_identifier (rn_tenant_id n) \<and> opt_all valid_identifier (rn_task n) \<and>
      opt_all valid_identifier (rn_specialist_version n))"

definition valid_scope :: "route_control_note \<Rightarrow> route_control_note result" where
  "valid_scope n = raise_first
     [(\<not> nonblank (rn_reason n) \<or>
       length (filter (\<lambda>v. v \<noteq> None) [rn_tenant_id n, rn_task n, rn_specialist_version n]) > 1,
       ''invalid_route_control_note'')] n"

definition route_control_note_validate :: "route_control_note \<Rightarrow> route_control_note result" where
  "route_control_note_validate n = contract_new (route_control_note_fields n) (valid_scope n)"

definition operator_note_validate :: "string \<Rightarrow> string result" where
  "operator_note_validate reason =
     contract_new (1 \<le> length reason \<and> length reason \<le> 2000)
       (raise_first [(\<not> nonblank reason, ''operator_note_required'')] reason)"


section \<open>Dataset manifests\<close>

record soft_target_file =
  sf_tenant_id :: ident
  sf_example_hash :: ident
  sf_plaintext_hash :: string
  sf_key_version :: ident

datatype parameter_value = IntParameter int | BoolParameter bool

record distillation_lineage =
  dl_source_dataset_id :: ident
  dl_source_dataset_version :: ident
  dl_source_content_digest :: string
  dl_teacher_deployment_id :: ident
  dl_teacher_version :: ident
  dl_teacher_artifact_digest :: string
  dl_teacher_parameter_count :: "int option"
  dl_tokenizer_id :: "ident option"
  dl_chat_template_version :: "ident option"
  dl_generation_parameters :: "(ident \<times> parameter_value) list"
  dl_judge_version :: ident
  dl_rubric_version :: ident
  dl_minimum_score :: flt
  dl_requested_mix_fraction :: flt
  dl_mix_counts :: "(ident \<times> int) list"
  dl_mix_content_digest :: string
  dl_soft_target_files :: "soft_target_file list"

record dataset_manifest = signed_record +
  dm_dataset_id :: ident
  dm_version :: ident
  dm_purpose :: dataset_purpose
  dm_tenant_ids :: "ident list"
  dm_created_at :: instant
  dm_source_window :: source_window
  dm_eligibility_policy_version :: string
  dm_transformation_code_revision :: string
  dm_redaction_version :: string
  dm_licence_policy_version :: string
  dm_examples :: "(split \<times> int) list"
  dm_content_digest :: string
  dm_deletions_applied_through :: instant
  dm_quality_summary :: dataset_quality_summary
  dm_approval :: dataset_approval
  dm_specification :: dataset_specification
  dm_distillation :: "distillation_lineage option"

section \<open>Training jobs\<close>

datatype precision = Fp32 | Fp16 | Bf16

record adapter_config =
  ac_target_modules :: "ident list"
  ac_rank :: int
  ac_alpha :: flt
  ac_dropout :: flt
  ac_learning_rate :: flt
  ac_precision :: precision
  ac_gradient_accumulation :: int

definition adapter_config_fields :: "adapter_config \<Rightarrow> bool" where
  "adapter_config_fields c =
     (1 \<le> length (ac_target_modules c) \<and> list_all valid_identifier (ac_target_modules c) \<and>
      1 \<le> ac_rank c \<and> 0 < ac_alpha c \<and> 0 \<le> ac_dropout c \<and> ac_dropout c < 1 \<and>
      0 < ac_learning_rate c \<and> 1 \<le> ac_gradient_accumulation c)"

definition default_adapter_config :: adapter_config where
  "default_adapter_config =
     \<lparr>ac_target_modules = [''q_proj'', ''v_proj''], ac_rank = 8, ac_alpha = 16, ac_dropout = 0,
      ac_learning_rate = 2 / 10000, ac_precision = Fp32, ac_gradient_accumulation = 1\<rparr>"

datatype job_type = AdapterJob | RouterJob | DistillationJob

datatype student_training = FullStudent | LoraStudent

record training_specification =
  tj_job_id :: ident
  tj_job_type :: job_type
  tj_registry_id :: ident
  tj_dataset_id :: ident
  tj_dataset_version :: ident
  tj_base_model_id :: ident
  tj_base_model_revision :: ident
  tj_base_model_licence :: ident
  tj_tokenizer_id :: ident
  tj_chat_template_version :: ident
  tj_adapter_config :: adapter_config
  tj_seed :: int
  tj_steps :: int
  tj_batch_size :: int
  tj_max_sequence_length :: int
  tj_checkpoint_every :: int
  tj_hardware_class :: ident
  tj_container_digest :: string
  tj_code_revision :: string
  tj_input_micros_per_1000_tokens :: int
  tj_output_micros_per_1000_tokens :: int
  tj_student_training :: student_training
  tj_soft_target_weight :: flt

definition training_specification_fields :: "training_specification \<Rightarrow> bool" where
  "training_specification_fields s =
     (list_all valid_identifier
        [tj_job_id s, tj_registry_id s, tj_dataset_id s, tj_dataset_version s, tj_base_model_id s,
         tj_base_model_revision s, tj_base_model_licence s, tj_tokenizer_id s,
         tj_chat_template_version s, tj_hardware_class s] \<and>
      adapter_config_fields (tj_adapter_config s) \<and> 0 \<le> tj_seed s \<and> 1 \<le> tj_steps s \<and>
      1 \<le> tj_batch_size s \<and> 2 \<le> tj_max_sequence_length s \<and> 1 \<le> tj_checkpoint_every s \<and>
      0 \<le> tj_input_micros_per_1000_tokens s \<and> 0 \<le> tj_output_micros_per_1000_tokens s \<and>
      0 \<le> tj_soft_target_weight s \<and> tj_soft_target_weight s \<le> 1)"

definition is_container_digest :: "string \<Rightarrow> bool" where
  "is_container_digest s =
     (s = ''local'' \<or>
      starts_with ''sha256:'' s \<and> length s = 71 \<and> list_all is_hex_char (drop 7 s))"

definition valid_training :: "training_specification \<Rightarrow> training_specification result" where
  "valid_training s = raise_first
     [(\<not> is_uuid7 (tj_job_id s), ''invalid_job_id''),
      (list_ex is_dots [tj_registry_id s, tj_dataset_id s, tj_dataset_version s],
       ''invalid_training_identifier''),
      (\<not> is_container_digest (tj_container_digest s), ''invalid_container_digest'')] s"

definition training_specification_validate :: "training_specification \<Rightarrow> training_specification result" where
  "training_specification_validate s =
     contract_new (training_specification_fields s) (valid_training s)"

record resource_usage =
  ru_examples :: int
  ru_steps :: int
  ru_artifact_bytes :: int
  ru_cpu_seconds :: "flt option"
  ru_wall_seconds :: "flt option"
  ru_peak_memory_bytes :: "int option"

definition resource_usage_fields :: "resource_usage \<Rightarrow> bool" where
  "resource_usage_fields u =
     (0 \<le> ru_examples u \<and> 0 \<le> ru_steps u \<and> 0 \<le> ru_artifact_bytes u \<and>
      opt_all (\<lambda>x. 0 \<le> x) (ru_cpu_seconds u) \<and> opt_all (\<lambda>x. 0 \<le> x) (ru_wall_seconds u) \<and>
      opt_all (\<lambda>x. 0 \<le> x) (ru_peak_memory_bytes u))"

definition no_usage :: resource_usage where
  "no_usage = \<lparr>ru_examples = 0, ru_steps = 0, ru_artifact_bytes = 0, ru_cpu_seconds = None,
     ru_wall_seconds = None, ru_peak_memory_bytes = None\<rparr>"

datatype job_state = JobQueued | JobRunning | JobSucceeded | JobFailed | JobCancelled

record training_job =
  jb_specification :: training_specification
  jb_trainer_architecture :: ident
  jb_created_at :: instant
  jb_cancel_requested :: bool
  jb_model_version :: ident
  jb_state :: job_state
  jb_started_at :: "instant option"
  jb_completed_at :: "instant option"
  jb_resource_usage :: resource_usage
  jb_checkpoint_refs :: "string list"
  jb_artifact_ref :: "string option"
  jb_artifact_digest :: "string option"
  jb_failure_code :: "ident option"

section \<open>Model manifests\<close>

record lifecycle_transition =
  lt_from_state :: "lifecycle_state option"
  lt_to_state :: lifecycle_state
  lt_actor :: ident
  lt_at :: instant
  lt_reason :: string
  lt_evaluation_id :: "ident option"

record dataset_lineage =
  dg_dataset_id :: ident
  dg_version :: ident
  dg_content_digest :: string
  dg_weight :: flt

datatype pruning_structure = AttentionHeads | MlpChannels | Layers

record pruning_plan =
  pp_structures :: "pruning_structure list"
  pp_maximum_fraction :: flt
  pp_ranking_rule :: ident

definition pruning_plan_fields :: "pruning_plan \<Rightarrow> bool" where
  "pruning_plan_fields p =
     (1 \<le> length (pp_structures p) \<and> length (pp_structures p) \<le> 3 \<and>
      0 < pp_maximum_fraction p \<and> pp_maximum_fraction p \<le> 1 / 2 \<and>
      valid_identifier (pp_ranking_rule p))"

definition default_pruning_plan :: pruning_plan where
  "default_pruning_plan =
     \<lparr>pp_structures = [AttentionHeads], pp_maximum_fraction = 1 / 4,
      pp_ranking_rule = ''ablation_sensitivity''\<rparr>"

record pruning_lineage =
  pn_study_id :: ident
  pn_plan :: pruning_plan
  pn_removed_indices :: "(string \<times> int list) list"
  pn_parameter_count_before :: int
  pn_parameter_count_after :: int
  pn_base_digest :: string
  pn_adapter_version :: "ident option"
  pn_adapter_digest :: "string option"
  pn_calibration_dataset :: dataset_lineage
  pn_evaluation_dataset :: dataset_lineage
  pn_baseline_evaluation_id :: ident

record model_manifest = signed_record +
  mm_registry_id :: ident
  mm_version :: ident
  mm_created_at :: instant
  mm_state :: lifecycle_state
  mm_tenant_ids :: "ident list"
  mm_base_model_id :: ident
  mm_base_model_revision :: ident
  mm_base_model_licence :: ident
  mm_adapter_architecture :: ident
  mm_adapter_config :: adapter_config
  mm_tokenizer_id :: ident
  mm_chat_template_version :: ident
  mm_datasets :: "dataset_lineage list"
  mm_training_job_id :: ident
  mm_code_revision :: string
  mm_container_digest :: string
  mm_configuration_digest :: string
  mm_seed :: int
  mm_hardware_class :: ident
  mm_evaluation_reports :: "(ident \<times> bool) list"
  mm_intended_tasks :: "ident list"
  mm_excluded_tasks :: "ident list"
  mm_languages :: "ident list"
  mm_context_limit :: int
  mm_capability_signature_version :: "string option"
  mm_processing_region :: string
  mm_modalities :: "string list"
  mm_tools_supported :: bool
  mm_input_micros_per_1000_tokens :: int
  mm_output_micros_per_1000_tokens :: int
  mm_safety_notes :: "string list"
  mm_known_limitations :: "string list"
  mm_artifact_hashes :: "(string \<times> string) list"
  mm_artifact_digest :: string
  mm_artifact_mac :: string
  mm_storage_location :: string
  mm_lifecycle_history :: "lifecycle_transition list"
  mm_student_architecture :: "ident option"
  mm_student_parameter_count :: "int option"
  mm_distillation :: "distillation_lineage option"
  mm_manifest_mac_version :: mac_version
  mm_pruning :: "pruning_lineage option"

record promotion_request =
  pq_reason :: string
  pq_model_version :: ident
  pq_target_state :: lifecycle_state
  pq_actor :: "ident option"
  pq_evaluation_id :: "ident option"

definition promotion_request_validate :: "promotion_request \<Rightarrow> promotion_request result" where
  "promotion_request_validate p =
     contract_new
       (valid_identifier (pq_model_version p) \<and> opt_all valid_identifier (pq_actor p) \<and>
        opt_all valid_identifier (pq_evaluation_id p) \<and> is_ok (operator_note_validate (pq_reason p)))
       (Inr p)"

datatype completed_job_type = CompletedAdapter | CompletedSft | CompletedDistillation | CompletedRouter

record training_completed =
  tm_job_id :: string
  tm_job_type :: completed_job_type
  tm_dataset_refs :: "string list"
  tm_model_version :: "string option"
  tm_status :: job_state
  tm_artifact_digest :: "string option"
  tm_failure_code :: "ident option"

definition training_completed_fields :: "training_completed \<Rightarrow> bool" where
  "training_completed_fields t =
     (tm_status t \<in> {JobSucceeded, JobFailed, JobCancelled} \<and>
      opt_all valid_identifier (tm_failure_code t))"

section \<open>Properties\<close>

text \<open>A name that is one component of a path below the data directory.\<close>

definition path_component :: "string \<Rightarrow> bool" where
  "path_component s \<longleftrightarrow>
     s \<noteq> [] \<and> CHR ''/'' \<notin> set s \<and> CHR 0x5C \<notin> set s \<and> CHR 0x00 \<notin> set s \<and>
     s \<noteq> ''.'' \<and> s \<noteq> ''..''"

lemma identifier_path_component: "valid_identifier s \<Longrightarrow> \<not> is_dots s \<Longrightarrow> path_component s"
proof -
  assume valid: "valid_identifier s" and dots: "\<not> is_dots s"
  have char: "is_word_char c \<or> c = CHR ''.'' \<or> c = CHR ''-''" if "c \<in> set s" for c
    using valid that by (simp add: valid_identifier_def list_all_iff)
  have "CHR ''/'' \<notin> set s" "CHR 0x5C \<notin> set s" "CHR 0x00 \<notin> set s"
    using char [of "CHR ''/''"] char [of "CHR 0x5C"] char [of "CHR 0x00"]
    by (auto simp: scalar_defs)
  moreover have "s \<noteq> []" using valid by (auto simp: valid_identifier_def)
  ultimately show ?thesis using dots by (simp add: path_component_def is_dots_def)
qed

lemma dataset_specification_Inr:
  "dataset_specification_validate s = Inr s' \<longleftrightarrow> s' = s \<and> dataset_specification_fields s \<and>
     is_ok (valid_specification s)"
  by (auto simp: dataset_specification_validate_def contract_simps valid_specification_def)

text \<open>An accepted dataset specification cannot escape the data directory: the dataset, the
  fixture set and every tenant it names are single path components, the tenants and the target
  preferences are distinct, both grouping keys are present, and a distillation or a router
  dataset names its source (and its teacher).\<close>

theorem accepted_dataset_specification:
  assumes "dataset_specification_validate s = Inr s'"
  shows "s' = s \<and> path_component (ds_dataset_id s) \<and> path_component (ds_fixture_set s) \<and>
    (\<forall>t \<in> set (ds_tenant_ids s). path_component t) \<and> ds_tenant_ids s \<noteq> [] \<and>
    distinct (ds_tenant_ids s) \<and> distinct (ds_target_preference_order s) \<and>
    set (ds_grouping_keys s) = {DocumentFamilyKey, SubjectKey} \<and>
    sw_start (ds_source_window s) < sw_end (ds_source_window s) \<and>
    (ds_purpose s \<in> {DistillationPurpose, RouterTraining} \<longrightarrow>
       ds_source_dataset_id s \<noteq> None \<and> ds_source_dataset_version s \<noteq> None) \<and>
    (ds_purpose s = DistillationPurpose \<longrightarrow> ds_teacher_deployment_id s \<noteq> None)"
proof -
  from assms have "s' = s" and f: "dataset_specification_fields s"
    and v: "is_ok (valid_specification s)"
    by (simp_all add: dataset_specification_Inr)
  have v': "\<not> is_dots (ds_fixture_set s)" "\<not> is_dots (ds_dataset_id s)"
      "\<forall>t \<in> set (ds_tenant_ids s). \<not> is_dots t" "distinct (ds_tenant_ids s)"
      "distinct (ds_target_preference_order s)"
      "set (ds_grouping_keys s) = {DocumentFamilyKey, SubjectKey}"
    using v
    by (auto simp: valid_specification_def list_ex_iff raise_first_is_ok simp del: raise_first.simps)
  have valid: "\<forall>t \<in> set (ds_tenant_ids s). valid_identifier t" "valid_identifier (ds_dataset_id s)"
      "valid_identifier (ds_fixture_set s)" "ds_tenant_ids s \<noteq> []"
    using f by (auto simp: dataset_specification_fields_def list_all_iff)
  have window: "sw_start (ds_source_window s) < sw_end (ds_source_window s)"
    using f by (simp add: dataset_specification_fields_def source_window_validate_def raise_first_is_ok
        del: raise_first.simps)
  have source: "ds_purpose s \<in> {DistillationPurpose, RouterTraining} \<longrightarrow>
       ds_source_dataset_id s \<noteq> None \<and> ds_source_dataset_version s \<noteq> None"
      "ds_purpose s = DistillationPurpose \<longrightarrow> ds_teacher_deployment_id s \<noteq> None"
    using v
    by (auto simp: valid_specification_def raise_first_is_ok simp del: raise_first.simps)
  show ?thesis
    using \<open>s' = s\<close> v' valid window source by (simp add: identifier_path_component)
qed

definition sample_dataset_specification :: dataset_specification where
  "sample_dataset_specification =
     \<lparr>ds_dataset_id = ''d1'', ds_fixture_set = ''synthetic'', ds_purpose = AdapterTraining,
      ds_tenant_ids = [''t1'', ''t2''], ds_source_window = \<lparr>sw_start = 0, sw_end = 10\<rparr>,
      ds_eligibility_policy_version = ''e1'', ds_target_preference_order = target_preferences,
      ds_grouping_keys = grouping_keys, ds_time_split = None, ds_minimum_examples = 1,
      ds_seed = 0, ds_near_duplicate_threshold = 8 / 10, ds_source_dataset_id = None,
      ds_source_dataset_version = None, ds_teacher_deployment_id = None,
      ds_teacher_minimum_score = 9 / 10, ds_teacher_max_output_tokens = 256,
      ds_general_safety_fraction = 2 / 10, ds_soft_targets = False\<rparr>"

theorem accepted_dataset_specification_witness:
  "distinct (ds_tenant_ids sample_dataset_specification) \<and>
   path_component (ds_dataset_id sample_dataset_specification)"
proof -
  have "dataset_specification_validate sample_dataset_specification = Inr sample_dataset_specification"
    unfolding dataset_specification_Inr
    by (simp add: sample_dataset_specification_def dataset_specification_fields_def
        valid_specification_def scalar_defs source_window_validate_def is_dots_def
        target_preferences_def grouping_keys_def)
  from accepted_dataset_specification [OF this] show ?thesis by simp
qed

text \<open>An accepted training job is named by a version-7 UUID and reads only below its own
  registry, dataset and version directories; its container is the local one or pinned by a
  SHA-256 digest of 64 hexadecimal digits, and it makes progress (at least one step, a batch of
  at least one row, a checkpoint at least every few steps).\<close>

theorem accepted_training_specification:
  assumes "training_specification_validate s = Inr s'"
  shows "s' = s \<and> is_uuid7 (tj_job_id s) \<and>
    (\<forall>c \<in> {tj_registry_id s, tj_dataset_id s, tj_dataset_version s}. path_component c) \<and>
    (tj_container_digest s = ''local'' \<or>
     (\<exists>h. tj_container_digest s = ''sha256:'' @ h \<and> length h = 64 \<and> list_all is_hex_char h)) \<and>
    1 \<le> tj_steps s \<and> 1 \<le> tj_batch_size s \<and> 1 \<le> tj_checkpoint_every s"
proof -
  from assms have eq: "s' = s" and f: "training_specification_fields s" and v: "is_uuid7 (tj_job_id s)"
      "\<not> list_ex is_dots [tj_registry_id s, tj_dataset_id s, tj_dataset_version s]"
      "is_container_digest (tj_container_digest s)"
    by (auto simp: training_specification_validate_def contract_simps valid_training_def
        simp del: raise_first.simps)
  have "tj_container_digest s = ''local'' \<or>
     (\<exists>h. tj_container_digest s = ''sha256:'' @ h \<and> length h = 64 \<and> list_all is_hex_char h)"
    using v(3) by (auto simp: is_container_digest_def starts_with_iff)
  then show ?thesis
    using eq f v(1,2) by (auto simp: training_specification_fields_def identifier_path_component)
qed

definition sample_training_specification :: training_specification where
  "sample_training_specification =
     \<lparr>tj_job_id = ''00000000-0001-7002-8000-000000000003'', tj_job_type = AdapterJob, tj_registry_id = ''synthetic-specialist'',
      tj_dataset_id = ''d1'', tj_dataset_version = ''v1'', tj_base_model_id = ''fake-foundation'',
      tj_base_model_revision = ''fake-1'', tj_base_model_licence = ''synthetic'',
      tj_tokenizer_id = ''fake-whitespace-v1'', tj_chat_template_version = ''fake-chat-1'',
      tj_adapter_config = default_adapter_config, tj_seed = 23, tj_steps = 2, tj_batch_size = 1,
      tj_max_sequence_length = 256, tj_checkpoint_every = 1, tj_hardware_class = ''cpu'',
      tj_container_digest = ''local'', tj_code_revision = ''server'',
      tj_input_micros_per_1000_tokens = 1000, tj_output_micros_per_1000_tokens = 2000,
      tj_student_training = FullStudent, tj_soft_target_weight = 1 / 2\<rparr>"

theorem accepted_training_specification_witness:
  "is_uuid7 (tj_job_id sample_training_specification) \<and> 1 \<le> tj_steps sample_training_specification"
proof -
  have "training_specification_validate sample_training_specification = Inr sample_training_specification"
    by (simp add: training_specification_validate_def contract_new_def training_specification_fields_def
        sample_training_specification_def default_adapter_config_def adapter_config_fields_def
        valid_training_def scalar_defs is_dots_def is_container_digest_def is_uuid7_def
        is_hex_char_def Let_def)
  from accepted_training_specification [OF this] show ?thesis by simp
qed

end
