(* ===== verification/Stats.thy ===== *)
theory Stats
  imports Contracts
begin

text \<open>
  The statistics of \<open>evaluation/stats.py\<close>: the interpolated percentile, the sample-size
  rule and the paired percentile bootstrap. The random generator is a parameter: the
  bootstrap only needs \<open>rng.choices\<close> to draw as many elements as asked from the given
  population, which is the named hypothesis \<open>draws_from\<close>; so is the normal quantile
  \<open>inv_cdf\<close>. The finiteness checks of the source cannot fail on exact rationals.
\<close>

record paired_comparison =
  pc_mean_delta :: "flt option"
  pc_ci_lower :: "flt option"
  pc_ci_upper :: "flt option"
  pc_sample_size :: nat

definition required_sample_size :: "(flt \<Rightarrow> flt) \<Rightarrow> flt \<Rightarrow> flt \<Rightarrow> flt \<Rightarrow> int result" where
  "required_sample_size inv_cdf margin pilot_sd confidence =
     bindE (guardE (0 < margin \<and> margin < 1 \<and> 1 / 2 < confidence \<and> confidence < 1 \<and> 0 \<le> pilot_sd)
             (ValueError ''invalid_sample_size_parameters''))
       (\<lambda>_. let z = inv_cdf ((1 + confidence) / 2)
            in Inr (max 1 (\<lfloor>(2 * z * pilot_sd / margin) ^ 2\<rfloor> + 1)))"

definition interpolate :: "flt list \<Rightarrow> flt \<Rightarrow> flt" where
  "interpolate ordered position =
     (let lower = nat \<lfloor>position\<rfloor>; upper = nat \<lceil>position\<rceil>
      in ordered ! lower + (ordered ! upper - ordered ! lower) * (position - of_nat lower))"

definition percentile :: "flt list \<Rightarrow> flt \<Rightarrow> flt result" where
  "percentile values probability =
     bindE (guardE (values \<noteq> [] \<and> 0 \<le> probability \<and> probability \<le> 1) (ValueError ''invalid_percentile''))
       (\<lambda>_. Inr (interpolate (sort values) (of_nat (length values - 1) * probability)))"

definition deltas_of :: "flt list \<Rightarrow> flt list \<Rightarrow> flt list" where
  "deltas_of candidate baseline = map (\<lambda>(c, b). c - b) (zip candidate baseline)"

text \<open>\<open>choices seed i xs k\<close> is the \<open>i\<close>-th call of \<open>rng.choices(xs, k=k)\<close> after seeding.\<close>

definition draws_from :: "(int \<Rightarrow> nat \<Rightarrow> flt list \<Rightarrow> nat \<Rightarrow> flt list) \<Rightarrow> bool" where
  "draws_from choices \<longleftrightarrow>
     (\<forall>seed i xs k. xs \<noteq> [] \<longrightarrow>
        length (choices seed i xs k) = k \<and> set (choices seed i xs k) \<subseteq> set xs)"

definition paired_bootstrap ::
    "(int \<Rightarrow> nat \<Rightarrow> flt list \<Rightarrow> nat \<Rightarrow> flt list) \<Rightarrow> flt list \<Rightarrow> flt list \<Rightarrow> flt \<Rightarrow> int \<Rightarrow> nat \<Rightarrow>
     paired_comparison result" where
  "paired_bootstrap choices candidate baseline confidence seed resamples =
     bindE (guardE (length candidate = length baseline) (ValueError ''unpaired_samples'')) (\<lambda>_.
     bindE (guardE (1 / 2 < confidence \<and> confidence < 1 \<and> 1 \<le> resamples)
             (ValueError ''invalid_bootstrap_parameters'')) (\<lambda>_.
     let deltas = deltas_of candidate baseline
     in if deltas = [] then
          Inr \<lparr>pc_mean_delta = None, pc_ci_lower = None, pc_ci_upper = None, pc_sample_size = 0\<rparr>
        else
          let samples = map (\<lambda>i. fmean (choices seed i deltas (length deltas))) [0..<resamples];
              tail = (1 - confidence) / 2
          in bindE (percentile samples tail) (\<lambda>lower.
             bindE (percentile samples (1 - tail)) (\<lambda>upper.
             Inr \<lparr>pc_mean_delta = Some (fmean deltas), pc_ci_lower = Some lower,
                  pc_ci_upper = Some upper, pc_sample_size = length deltas\<rparr>))))"

text \<open>The defaults of the source.\<close>

definition default_bootstrap ::
    "(int \<Rightarrow> nat \<Rightarrow> flt list \<Rightarrow> nat \<Rightarrow> flt list) \<Rightarrow> flt list \<Rightarrow> flt list \<Rightarrow> paired_comparison result" where
  "default_bootstrap choices candidate baseline =
     paired_bootstrap choices candidate baseline (95 / 100) 23 2000"

section \<open>Interpolation\<close>

lemma interpolate_lower_upper:
  assumes "sorted xs" and "0 \<le> x" and "x \<le> of_nat (length xs - 1)" and "xs \<noteq> []"
  shows "xs ! nat \<lfloor>x\<rfloor> \<le> interpolate xs x" and "interpolate xs x \<le> xs ! nat \<lceil>x\<rceil>"
    and "nat \<lceil>x\<rceil> < length xs"
proof -
  let ?l = "nat \<lfloor>x\<rfloor>" and ?u = "nat \<lceil>x\<rceil>"
  have "\<lceil>x\<rceil> \<le> int (length xs - 1)" using assms(3) by (simp add: ceiling_le_iff)
  then show u: "?u < length xs" using assms(4) by (cases xs) auto
  have "?l \<le> ?u" by (simp add: floor_le_ceiling nat_mono)
  then have le: "xs ! ?l \<le> xs ! ?u" using sorted_nth_mono [OF assms(1)] u by blast
  have l: "of_nat ?l = (of_int \<lfloor>x\<rfloor> :: rat)" using assms(2) by simp
  have frac: "0 \<le> x - of_nat ?l" "x - of_nat ?l \<le> 1"
    unfolding l by linarith+
  have eq: "interpolate xs x = xs ! ?l + (xs ! ?u - xs ! ?l) * (x - of_nat ?l)"
    by (simp only: interpolate_def Let_def)
  show "xs ! ?l \<le> interpolate xs x"
    unfolding eq using le frac by (simp add: mult_nonneg_nonneg)
  have "(xs ! ?u - xs ! ?l) * (x - of_nat ?l) \<le> (xs ! ?u - xs ! ?l) * 1"
    using le frac by (intro mult_left_mono) simp_all
  then show "interpolate xs x \<le> xs ! ?u" unfolding eq by simp
qed

lemma interpolate_mono:
  assumes "sorted xs" and "0 \<le> x" and "x \<le> y" and "y \<le> of_nat (length xs - 1)" and "xs \<noteq> []"
  shows "interpolate xs x \<le> interpolate xs y"
proof -
  have bx: "xs ! nat \<lfloor>x\<rfloor> \<le> interpolate xs x" "interpolate xs x \<le> xs ! nat \<lceil>x\<rceil>"
    using interpolate_lower_upper [of xs x] assms by auto
  have yb: "xs ! nat \<lfloor>y\<rfloor> \<le> interpolate xs y" "nat \<lceil>y\<rceil> < length xs"
    using interpolate_lower_upper [of xs y] assms by auto
  show ?thesis
  proof (cases "\<lfloor>x\<rfloor> = \<lfloor>y\<rfloor>")
    case False
    then have "\<lfloor>x\<rfloor> < \<lfloor>y\<rfloor>" using assms(3) floor_mono [of x y] by linarith
    then have "\<lceil>x\<rceil> \<le> \<lfloor>y\<rfloor>" by linarith
    moreover have "\<lfloor>y\<rfloor> \<le> \<lceil>y\<rceil>" by (rule floor_le_ceiling)
    then have "nat \<lfloor>y\<rfloor> < length xs" using yb(2) nat_mono order_le_less_trans by blast
    ultimately have "xs ! nat \<lceil>x\<rceil> \<le> xs ! nat \<lfloor>y\<rfloor>"
      using assms(1) by (intro sorted_nth_mono) (simp_all add: nat_mono)
    with bx yb show ?thesis by linarith
  next
    case same: True
    show ?thesis
    proof (cases "x = of_int \<lfloor>x\<rfloor>")
      case True
      then have "\<lceil>x\<rceil> = \<lfloor>x\<rfloor>" by (metis ceiling_of_int)
      with same bx yb show ?thesis by simp
    next
      case False
      then have "\<lceil>x\<rceil> = \<lfloor>x\<rfloor> + 1" by (metis ceiling_altdef)
      moreover from this False same assms(3) have "\<lceil>y\<rceil> = \<lfloor>x\<rfloor> + 1"
        by (metis ceiling_altdef floor_correct order_antisym)
      ultimately have ceil: "\<lceil>x\<rceil> = \<lceil>y\<rceil>" by simp
      let ?l = "nat \<lfloor>x\<rfloor>" and ?u = "nat \<lceil>y\<rceil>"
      have "\<lfloor>x\<rfloor> \<le> \<lceil>y\<rceil>" using floor_le_ceiling [of x] ceil by simp
      then have "xs ! ?l \<le> xs ! ?u"
        using yb(2) assms(1) ceil by (intro sorted_nth_mono) (simp_all add: nat_mono floor_le_ceiling)
      then have "(xs ! ?u - xs ! ?l) * (x - of_nat ?l) \<le> (xs ! ?u - xs ! ?l) * (y - of_nat ?l)"
        using assms(3) by (intro mult_left_mono) simp_all
      then show ?thesis by (simp only: interpolate_def Let_def ceil same)
    qed
  qed
qed

lemma percentile_Inr_iff:
  "percentile vs p = Inr q \<longleftrightarrow>
     vs \<noteq> [] \<and> 0 \<le> p \<and> p \<le> 1 \<and> q = interpolate (sort vs) (of_nat (length vs - 1) * p)"
  by (auto simp: percentile_def bindE_Inr_iff)

lemma position_bounds:
  "0 \<le> p \<Longrightarrow> p \<le> 1 \<Longrightarrow> 0 \<le> of_nat n * p \<and> of_nat n * p \<le> (of_nat n :: rat)"
  by (simp add: mult_left_le)

lemma percentile_between:
  assumes "percentile vs p = Inr q" and "\<forall>v \<in> set vs. lo \<le> v \<and> v \<le> hi"
  shows "lo \<le> q \<and> q \<le> hi"
proof -
  let ?xs = "sort vs" and ?x = "of_nat (length vs - 1) * p"
  from assms(1) have q: "q = interpolate ?xs ?x" and ne: "vs \<noteq> []" and p: "0 \<le> p" "p \<le> 1"
    by (simp_all add: percentile_Inr_iff)
  note b = interpolate_lower_upper [of ?xs ?x]
  have x: "0 \<le> ?x" "?x \<le> of_nat (length ?xs - 1)" using position_bounds [OF p] by simp_all
  have ne': "?xs \<noteq> []" using ne by (metis length_sort length_0_conv)
  have up: "nat \<lceil>?x\<rceil> < length ?xs" using b(3) x ne' by simp
  moreover have "nat \<lfloor>?x\<rfloor> \<le> nat \<lceil>?x\<rceil>" by (simp add: floor_le_ceiling nat_mono)
  ultimately have down: "nat \<lfloor>?x\<rfloor> < length ?xs" by linarith
  have "lo \<le> ?xs ! nat \<lfloor>?x\<rfloor>" using assms(2) nth_mem [OF down] by simp
  moreover have "?xs ! nat \<lceil>?x\<rceil> \<le> hi" using assms(2) nth_mem [OF up] by simp
  ultimately show ?thesis
    using b(1,2) [OF sorted_sort x ne'] unfolding q by linarith
qed

lemma percentile_mono:
  assumes "percentile vs p = Inr q" and "percentile vs p' = Inr q'" and "p \<le> p'"
  shows "q \<le> q'"
proof -
  have "vs \<noteq> []" using assms(1) by (simp add: percentile_Inr_iff)
  then have ne: "sort vs \<noteq> []" by (metis length_sort length_0_conv)
  have "of_nat (length vs - 1) * p \<le> of_nat (length vs - 1) * p'"
    using assms(3) by (simp add: mult_left_mono)
  then show ?thesis
    using assms ne position_bounds [of p "length vs - 1"] position_bounds [of p' "length vs - 1"]
    by (auto simp: percentile_Inr_iff intro!: interpolate_mono)
qed

lemma percentile_total: "vs \<noteq> [] \<Longrightarrow> 0 \<le> p \<Longrightarrow> p \<le> 1 \<Longrightarrow> \<exists>q. percentile vs p = Inr q"
  by (simp add: percentile_Inr_iff)

section \<open>Properties\<close>

text \<open>The percentile of a sample does not depend on the order of the observations, lies
  between the smallest and the greatest of them, and is monotone in the probability.\<close>

theorem percentile_laws:
  assumes "percentile vs p = Inr q" and "percentile ws p' = Inr q'"
    and "mset ws = mset vs" and "p \<le> p'" and "\<forall>v \<in> set vs. lo \<le> v \<and> v \<le> hi"
  shows "lo \<le> q \<and> q \<le> q' \<and> q' \<le> hi"
proof -
  have "sort ws = sort vs" and "length ws = length vs" and "set ws = set vs"
    using assms(3) by (metis sorted_list_of_multiset_mset, metis size_mset, metis set_mset_mset)
  then have "percentile vs p' = Inr q'"
    using assms(2) by (auto simp: percentile_Inr_iff)
  then show ?thesis
    using percentile_mono [OF assms(1)] percentile_between [OF assms(1)]
      percentile_between [of vs p' q'] assms(4,5) by blast
qed

lemma percentile_samples:
  "percentile [3, 1, 2] (1 / 2) = Inr 2" "percentile [1, 2, 3] 1 = Inr 3"
  by (simp_all add: percentile_def interpolate_def)

theorem percentile_laws_witness:
  "percentile [3, 1, 2] (1 / 2) = Inr 2 \<and> (1::rat) \<le> 2 \<and> (2::rat) \<le> 3 \<and> (3::rat) \<le> 3"
  using percentile_samples percentile_laws [OF percentile_samples, of 1 3] by simp

text \<open>The sample-size rule returns the least positive size for which the half-width of the
  interval is strictly below half the margin, the boundary where the quotient is an integer
  included: \<open>(2 z sd)^2 < n margin^2\<close>.\<close>

theorem required_sample_size_least:
  assumes "required_sample_size inv_cdf margin sd conf = Inr n"
  shows "1 \<le> n \<and> (2 * inv_cdf ((1 + conf) / 2) * sd) ^ 2 < of_int n * margin ^ 2 \<and>
    (\<forall>m. 1 \<le> m \<and> (2 * inv_cdf ((1 + conf) / 2) * sd) ^ 2 < of_int m * margin ^ 2 \<longrightarrow> n \<le> m)"
proof (intro conjI allI impI)
  let ?w = "2 * inv_cdf ((1 + conf) / 2) * sd"
  from assms have margin: "0 < margin" and n: "n = max 1 (\<lfloor>(?w / margin) ^ 2\<rfloor> + 1)"
    by (auto simp: required_sample_size_def bindE_Inr_iff Let_def)
  have less_iff: "?w ^ 2 < of_int m * margin ^ 2 \<longleftrightarrow> \<lfloor>(?w / margin) ^ 2\<rfloor> < m" for m
  proof -
    have "?w ^ 2 < of_int m * margin ^ 2 \<longleftrightarrow> (?w / margin) ^ 2 < of_int m"
      using margin by (simp add: power_divide divide_less_eq)
    then show ?thesis by (simp add: floor_less_iff)
  qed
  show "1 \<le> n" using n by simp
  show "?w ^ 2 < of_int n * margin ^ 2" unfolding less_iff using n by simp
  show "n \<le> m" if "1 \<le> m \<and> ?w ^ 2 < of_int m * margin ^ 2" for m
    using that n unfolding less_iff by simp
qed

theorem required_sample_size_least_witness:
  "required_sample_size (\<lambda>_. 2) (1 / 10) (1 / 10) (95 / 100) = Inr 17 \<and>
   (2 * 2 * (1 / 10 :: rat)) ^ 2 < of_int 17 * (1 / 10) ^ 2"
proof -
  have r: "required_sample_size (\<lambda>_. 2) (1 / 10) (1 / 10) (95 / 100) = Inr 17"
    by (simp add: required_sample_size_def)
  show ?thesis using r required_sample_size_least [OF r] by simp
qed

lemma sample_means_between:
  assumes "draws_from choices" and "ds \<noteq> []" and "\<forall>d \<in> set ds. lo \<le> d \<and> d \<le> hi"
  shows "\<forall>m \<in> set (map (\<lambda>i. fmean (choices seed i ds (length ds))) [0..<n]). lo \<le> m \<and> m \<le> hi"
proof
  fix m
  assume "m \<in> set (map (\<lambda>i. fmean (choices seed i ds (length ds))) [0..<n])"
  then obtain i where m: "m = fmean (choices seed i ds (length ds))" by auto
  have draw: "length (choices seed i ds (length ds)) = length ds"
      "set (choices seed i ds (length ds)) \<subseteq> set ds"
    using assms(1,2) by (auto simp: draws_from_def)
  then have "choices seed i ds (length ds) \<noteq> []" using assms(2) by (metis length_0_conv)
  then show "lo \<le> m \<and> m \<le> hi" unfolding m using draw(2) assms(3) fmean_bounds by (meson subsetD)
qed

text \<open>The paired bootstrap returns a comparison for every two samples of equal length:
  on the empty sample one without estimates, otherwise the sample size, the mean of the paired
  differences and an ordered interval, all of them between the least and the greatest
  difference; unpaired samples are an error.\<close>

theorem paired_bootstrap_interval:
  assumes "draws_from choices" and "length cs = length bs"
    and "1 / 2 < conf" and "conf < 1" and "1 \<le> resamples"
    and "\<forall>d \<in> set (deltas_of cs bs). lo \<le> d \<and> d \<le> hi" and "cs \<noteq> []"
  shows "\<exists>mean lower upper.
     paired_bootstrap choices cs bs conf seed resamples =
       Inr \<lparr>pc_mean_delta = Some mean, pc_ci_lower = Some lower, pc_ci_upper = Some upper,
            pc_sample_size = length cs\<rparr> \<and>
     lo \<le> mean \<and> mean \<le> hi \<and> lo \<le> lower \<and> lower \<le> upper \<and> upper \<le> hi"
proof -
  let ?ds = "deltas_of cs bs" and ?tail = "(1 - conf) / 2"
  let ?ms = "map (\<lambda>i. fmean (choices seed i ?ds (length ?ds))) [0..<resamples]"
  have len: "length ?ds = length cs" using assms(2) by (simp add: deltas_of_def)
  then have ne: "?ds \<noteq> []" using assms(7) by auto
  have between: "\<forall>m \<in> set ?ms. lo \<le> m \<and> m \<le> hi"
    using sample_means_between [OF assms(1) ne assms(6)] .
  have tail: "0 \<le> ?tail" "?tail \<le> 1" "0 \<le> 1 - ?tail" "1 - ?tail \<le> 1" "?tail \<le> 1 - ?tail"
    using assms(3,4) by (simp_all add: field_simps)
  have "?ms \<noteq> []" using assms(5) by simp
  then obtain l u where l: "percentile ?ms ?tail = Inr l" and u: "percentile ?ms (1 - ?tail) = Inr u"
    using percentile_total tail by meson
  have "lo \<le> l" "l \<le> u" "u \<le> hi"
    using percentile_between [OF l between] percentile_between [OF u between]
      percentile_mono [OF l u tail(5)] by simp_all
  moreover have "lo \<le> fmean ?ds" "fmean ?ds \<le> hi" using fmean_bounds [OF ne assms(6)] by simp_all
  moreover have "paired_bootstrap choices cs bs conf seed resamples =
      Inr \<lparr>pc_mean_delta = Some (fmean ?ds), pc_ci_lower = Some l, pc_ci_upper = Some u,
           pc_sample_size = length cs\<rparr>"
    unfolding paired_bootstrap_def Let_def using assms(2-5) ne len l u by simp
  ultimately show ?thesis by blast
qed

definition first_draws :: "int \<Rightarrow> nat \<Rightarrow> flt list \<Rightarrow> nat \<Rightarrow> flt list" where
  "first_draws seed i xs k = replicate k (hd xs)"

lemma first_draws: "draws_from first_draws"
  by (auto simp: draws_from_def first_draws_def)

theorem paired_bootstrap_interval_witness:
  "\<exists>mean lower upper.
     paired_bootstrap first_draws [3, 2] [1, 1] (95 / 100) 23 4 =
       Inr \<lparr>pc_mean_delta = Some mean, pc_ci_lower = Some lower, pc_ci_upper = Some upper,
            pc_sample_size = length [3, 2 :: rat]\<rparr> \<and>
     1 \<le> mean \<and> mean \<le> 2 \<and> 1 \<le> lower \<and> lower \<le> upper \<and> upper \<le> 2"
  by (rule paired_bootstrap_interval [OF first_draws]) (simp_all add: deltas_of_def)

end
