(* ===== verification/Contracts_Evaluation.thy ===== *)
theory Contracts_Evaluation
  imports Contracts_Datasets Stats
begin

text \<open>
  The contracts of \<open>contracts.py\<close> for evaluations, benchmarks, shadow and live
  observations, and the event envelope with its payloads. The payload union \<open>EventData\<close> is
  a datatype with one constructor per class; \<open>EVENT_PAYLOADS\<close> is a function from the event
  type to the class of its payload, and the envelope's validator compares the two and the
  major versions.
\<close>

section \<open>Evaluations\<close>

datatype suite_name = Golden | HeldOut | SafetySuite | RetrievalSuite | PerformanceSuite | RoutingSuite

record evaluation_specification =
  ev_evaluation_id :: string
  ev_candidate_deployment_id :: ident
  ev_baseline_deployment_id :: "ident option"
  ev_dataset_id :: ident
  ev_dataset_version :: ident
  ev_application_id :: ident
  ev_fixture_set :: "ident option"
  ev_fixture_tenant_id :: "ident option"
  ev_suites :: "suite_name list"
  ev_rubric_version :: "ident option"
  ev_judge_version :: "ident option"
  ev_seed :: int
  ev_confidence_level :: flt
  ev_non_inferiority_margin :: flt
  ev_minimum_sample_size :: "int option"
  ev_critical_segments :: "ident list"
  ev_performance_requests :: int
  ev_concurrency :: int
  ev_latency_p95_ms_max :: flt
  ev_error_rate_max :: flt
  ev_cost_per_success_micros_max :: int

definition evaluation_specification_fields :: "'a evaluation_specification_scheme \<Rightarrow> bool" where
  "evaluation_specification_fields s =
     (list_all valid_identifier
        [ev_candidate_deployment_id s, ev_dataset_id s, ev_dataset_version s, ev_application_id s] \<and>
      list_all (opt_all valid_identifier)
        [ev_baseline_deployment_id s, ev_fixture_set s, ev_fixture_tenant_id s,
         ev_rubric_version s, ev_judge_version s] \<and>
      1 \<le> length (ev_suites s) \<and> length (ev_suites s) \<le> 6 \<and> 0 \<le> ev_seed s \<and>
      1 / 2 < ev_confidence_level s \<and> ev_confidence_level s < 1 \<and>
      0 < ev_non_inferiority_margin s \<and> ev_non_inferiority_margin s < 1 \<and>
      opt_all (\<lambda>n. 1 \<le> n) (ev_minimum_sample_size s) \<and>
      length (ev_critical_segments s) \<le> 16 \<and> list_all valid_identifier (ev_critical_segments s) \<and>
      1 \<le> ev_performance_requests s \<and> ev_performance_requests s \<le> 10000 \<and>
      1 \<le> ev_concurrency s \<and> ev_concurrency s \<le> 100 \<and> 0 < ev_latency_p95_ms_max s \<and>
      0 \<le> ev_error_rate_max s \<and> ev_error_rate_max s \<le> 1 \<and> 0 \<le> ev_cost_per_success_micros_max s)"

definition valid_evaluation ::
    "'a evaluation_specification_scheme \<Rightarrow> 'a evaluation_specification_scheme result" where
  "valid_evaluation s = raise_first
     [(opt_all is_dots (ev_fixture_set s) \<and> ev_fixture_set s \<noteq> None, ''invalid_fixture_evaluation''),
      (ev_fixture_tenant_id s \<noteq> None \<and>
         (ev_fixture_set s = None \<or> \<not> same_set (ev_suites s) [Golden, SafetySuite]),
       ''invalid_fixture_evaluation''),
      (ev_fixture_set s \<noteq> None \<and> ev_fixture_tenant_id s = None \<and>
         \<not> same_set (ev_suites s) [Golden, SafetySuite, HeldOut, RetrievalSuite, PerformanceSuite],
       ''invalid_fixture_evaluation''),
      (\<not> is_uuid7 (ev_evaluation_id s), ''invalid_evaluation_id''),
      (is_dots (ev_dataset_id s) \<or> is_dots (ev_dataset_version s), ''invalid_dataset_identifier''),
      (length (remdups (ev_suites s)) \<noteq> length (ev_suites s), ''duplicate_suites''),
      (length (remdups (ev_critical_segments s)) \<noteq> length (ev_critical_segments s),
       ''duplicate_segments'')] s"

record evaluation_input = evaluation_specification +
  ei_replace :: bool
  ei_operator_note :: "string option"

definition replacement_note :: "evaluation_input \<Rightarrow> evaluation_input result" where
  "replacement_note i = raise_first
     [(ei_replace i \<and>
         (case ei_operator_note i of None \<Rightarrow> True | Some note \<Rightarrow> \<not> (note \<noteq> [] \<and> nonblank note)),
       ''replacement_note_required'')] i"

definition evaluation_input_validate :: "evaluation_input \<Rightarrow> evaluation_input result" where
  "evaluation_input_validate i =
     contract_new (evaluation_specification_fields i \<and> opt_all valid_content (ei_operator_note i))
       (bindE (valid_evaluation i) replacement_note)"

record item_score =
  sc_item_id :: ident
  sc_score :: flt
  sc_segments :: "ident list"
  sc_observation :: "routing_observation option"

definition item_score_fields :: "item_score \<Rightarrow> bool" where
  "item_score_fields s =
     (valid_identifier (sc_item_id s) \<and> 0 \<le> sc_score s \<and> sc_score s \<le> 1 \<and>
      length (sc_segments s) \<le> 32 \<and> list_all valid_identifier (sc_segments s) \<and>
      opt_all routing_observation_fields (sc_observation s))"

type_synonym metric_map = "(ident \<times> flt) list"

record suite_result =
  su_suite :: suite_name
  su_items :: int
  su_metrics :: metric_map
  su_per_segment_metrics :: "(ident \<times> metric_map) list"
  su_failures :: "(ident \<times> int) list"
  su_scores :: "item_score list"
  su_completed :: bool
  su_first_token_latency_ms :: "flt option"
  su_total_cost_micros :: "int option"
  su_cost_per_success_micros :: "int option"

definition suite_result_fields :: "suite_result \<Rightarrow> bool" where
  "suite_result_fields r =
     (0 \<le> su_items r \<and> length (su_metrics r) \<le> 40 \<and> length (su_per_segment_metrics r) \<le> 1000 \<and>
      list_all (\<lambda>(_, m). length m \<le> 40) (su_per_segment_metrics r) \<and> length (su_failures r) \<le> 40 \<and>
      length (su_scores r) \<le> 100000 \<and> list_all item_score_fields (su_scores r) \<and>
      opt_all (\<lambda>x. 0 \<le> x) (su_first_token_latency_ms r) \<and>
      opt_all (\<lambda>x. 0 \<le> x) (su_total_cost_micros r) \<and>
      opt_all (\<lambda>x. 0 \<le> x) (su_cost_per_success_micros r))"

record gate_decision =
  gd_gate :: ident
  gd_passed :: bool
  gd_reason :: ident

record evaluation_report = signed_record +
  er_specification :: evaluation_specification
  er_candidate_manifest_version :: ident
  er_candidate_model_version :: "string option"
  er_candidate_artifact_digest :: "string option"
  er_baseline_manifest_version :: "ident option"
  er_baseline_report_id :: "string option"
  er_dataset_content_digest :: string
  er_suite_content_digest :: string
  er_code_revision :: string
  er_started_at :: instant
  er_completed_at :: instant
  er_suite_results :: "suite_result list"
  er_baseline_suite_results :: "suite_result list"
  er_paired_comparison :: paired_comparison
  er_segment_comparisons :: "(ident \<times> paired_comparison) list"
  er_coverage :: "(ident \<times> int) list"
  er_pilot_standard_deviation :: flt
  er_derived_minimum_sample_size :: int
  er_gate_decisions :: "gate_decision list"
  er_passed :: bool
  er_known_limitations :: "string list"
  er_distillation :: "distillation_lineage option"

section \<open>Benchmarks\<close>

record benchmark_specification =
  bs_benchmark_id :: ident
  bs_candidate_version :: ident
  bs_evaluation_id :: ident
  bs_requests :: int

definition benchmark_specification_validate :: "benchmark_specification \<Rightarrow> benchmark_specification result" where
  "benchmark_specification_validate s =
     contract_new
       (valid_identifier (bs_benchmark_id s) \<and> valid_identifier (bs_candidate_version s) \<and>
        valid_identifier (bs_evaluation_id s) \<and> 4 \<le> bs_requests s \<and> bs_requests s \<le> 1000)
       (raise_first [(\<not> is_uuid7 (bs_benchmark_id s), ''invalid_benchmark_id'')] s)"

record benchmark_measurement =
  bm_requests :: int
  bm_successes :: int
  bm_p50_latency_ms :: flt
  bm_p95_latency_ms :: flt
  bm_requests_per_second :: flt
  bm_peak_rss_bytes :: int
  bm_total_cost_micros :: int
  bm_cost_per_success_micros :: "int option"
  bm_input_micros_per_1000_tokens :: int
  bm_output_micros_per_1000_tokens :: int
  bm_parameter_count :: "int option"

definition benchmark_measurement_fields :: "benchmark_measurement \<Rightarrow> bool" where
  "benchmark_measurement_fields m =
     (0 \<le> bm_p50_latency_ms m \<and> 0 \<le> bm_p95_latency_ms m \<and> 0 \<le> bm_requests_per_second m \<and>
      0 < bm_peak_rss_bytes m \<and> 0 \<le> bm_total_cost_micros m \<and>
      opt_all (\<lambda>x. 0 < x) (bm_parameter_count m))"

record benchmark_report = signed_record +
  br_specification :: benchmark_specification
  br_tenant_ids :: "ident list"
  br_candidate_artifact_digest :: string
  br_teacher_version :: ident
  br_teacher_artifact_digest :: string
  br_dataset_content_digest :: string
  br_request_mix_digest :: string
  br_created_at :: instant
  br_student :: benchmark_measurement
  br_teacher :: benchmark_measurement
  br_quality_comparison :: paired_comparison
  br_latency_reduction_fraction :: "flt option"
  br_cost_reduction_fraction :: "flt option"
  br_passed :: bool
  br_known_limitations :: "string list"
  br_mac :: string
  br_pruning_study_id :: "ident option"
  br_peak_rss_reduction_fraction :: "flt option"
  br_gate_reasons :: "ident list"

section \<open>Shadow and live observations\<close>

record shadow_comparison =
  sh_comparison_id :: string
  sh_interaction_id :: string
  sh_policy_id :: string
  sh_tenant_id :: string
  sh_specialist_version :: string
  sh_created_at :: instant
  sh_segments :: "string list"
  sh_judge_version :: string
  sh_rubric_version :: string
  sh_foundation_score :: flt
  sh_specialist_score :: flt
  sh_foundation_citation_precision :: flt
  sh_foundation_citation_recall :: flt
  sh_specialist_citation_precision :: flt
  sh_specialist_citation_recall :: flt
  sh_input_token_delta :: int
  sh_output_token_delta :: int
  sh_cost_delta_micros :: int
  sh_specialist_cost_micros :: "int option"
  sh_latency_delta_ms :: flt
  sh_specialist_validation :: validation

record shadow_aggregate =
  sa_opportunities :: nat
  sa_comparisons :: nat
  sa_coverage :: flt
  sa_specialist_validation_pass_rate :: "flt option"
  sa_score_delta :: paired_comparison
  sa_mean_cost_delta_micros :: "flt option"
  sa_mean_latency_delta_ms :: "flt option"
  sa_mean_input_token_delta :: "flt option"
  sa_mean_output_token_delta :: "flt option"
  sa_citation_metrics :: "(string \<times> flt) list"

record shadow_report =
  sp_policy_id :: string
  sp_since :: instant
  sp_overall :: shadow_aggregate
  sp_critical_segments :: "(string \<times> shadow_aggregate) list"
  sp_passed :: bool

record live_observation =
  lo_interaction_id :: ident
  lo_policy_id :: ident
  lo_tenant_id :: ident
  lo_created_at :: instant
  lo_features :: routing_features
  lo_specialist_version :: "ident option"
  lo_specialist_served :: bool
  lo_fallback_used :: bool
  lo_success :: bool
  lo_validation_failure :: bool
  lo_error :: bool
  lo_critical_safety_incidents :: int
  lo_quality :: flt
  lo_total_cost_micros :: int
  lo_shadow_cost_micros :: int
  lo_latency_ms :: flt

definition live_observation_fields :: "live_observation \<Rightarrow> bool" where
  "live_observation_fields r =
     (valid_identifier (lo_interaction_id r) \<and> valid_identifier (lo_policy_id r) \<and>
      valid_identifier (lo_tenant_id r) \<and> routing_features_fields (lo_features r) \<and>
      opt_all valid_identifier (lo_specialist_version r) \<and> 0 \<le> lo_critical_safety_incidents r \<and>
      0 \<le> lo_quality r \<and> lo_quality r \<le> 1 \<and> 0 \<le> lo_total_cost_micros r \<and>
      0 \<le> lo_shadow_cost_micros r \<and> 0 \<le> lo_latency_ms r)"

record outcome_aggregate =
  oa_interactions :: nat
  oa_successes :: nat
  oa_total_cost_micros :: int
  oa_cost_per_success_micros :: "int option"
  oa_validation_failure_rate :: "flt option"
  oa_error_rate :: "flt option"
  oa_p95_latency_ms :: "flt option"
  oa_critical_safety_incidents :: int

record canary_aggregate =
  ca_specialist :: outcome_aggregate
  ca_foundation :: outcome_aggregate
  ca_specialist_served :: outcome_aggregate
  ca_foundation_served :: outcome_aggregate
  ca_quality_delta :: paired_comparison
  ca_cost_delta_micros :: paired_comparison
  ca_served_cost_delta_micros :: paired_comparison
  ca_cost_reduction_fraction :: "flt option"
  ca_served_cost_reduction_fraction :: "flt option"
  ca_shadow_cost_micros :: int
  ca_passed :: bool
  ca_breach_reasons :: "ident list"
  ca_trigger_segments :: "string list"

record canary_report =
  cr_policy_id :: ident
  cr_since :: instant
  cr_until :: instant
  cr_overall :: canary_aggregate
  cr_critical_segments :: "(string \<times> canary_aggregate) list"
  cr_specialists :: "(string \<times> canary_aggregate) list"
  cr_passed :: bool

section \<open>Events\<close>

record evaluation_completed =
  ec_evaluation_id :: string
  ec_model_version :: string
  ec_baseline_version :: "string option"
  ec_suites :: "string list"
  ec_passed :: bool
  ec_report_ref :: string

datatype deployment_state =
    LifecycleDeployment lifecycle_state
  | DeploymentActive | DeploymentInactive | DeploymentEnabled | DeploymentDisabled

record deployment_changed =
  dc_deployment_id :: string
  dc_model_version :: string
  dc_previous_state :: "deployment_state option"
  dc_new_state :: deployment_state
  dc_actor_id :: string
  dc_reason :: string
  dc_evaluation_id :: "string option"

datatype event_data =
    StartedData started
  | RetrievalData retrieval_run
  | RouteData route_decision
  | AttemptData generation_attempt
  | InteractionData interaction
  | FeedbackData feedback
  | DeletionData deletion_request
  | DatasetData dataset_built
  | TrainingData training_completed
  | EvaluationData evaluation_completed
  | DeploymentData deployment_changed

datatype event_type =
    InteractionStarted | RetrievalCompleted | RouteDecided | GenerationCompleted | GenerationFailed
  | InteractionCompleted | FeedbackRecorded | DeletionRequested | DatasetBuiltEvent
  | TrainingCompletedEvent | EvaluationCompletedEvent | DeploymentChangedEvent

datatype payload_class =
    StartedClass | RetrievalRunClass | RouteDecisionClass | GenerationAttemptClass
  | InteractionClass | FeedbackClass | DeletionRequestClass | DatasetBuiltClass
  | TrainingCompletedClass | EvaluationCompletedClass | DeploymentChangedClass

fun class_of :: "event_data \<Rightarrow> payload_class" where
  "class_of (StartedData _) = StartedClass"
| "class_of (RetrievalData _) = RetrievalRunClass"
| "class_of (RouteData _) = RouteDecisionClass"
| "class_of (AttemptData _) = GenerationAttemptClass"
| "class_of (InteractionData _) = InteractionClass"
| "class_of (FeedbackData _) = FeedbackClass"
| "class_of (DeletionData _) = DeletionRequestClass"
| "class_of (DatasetData _) = DatasetBuiltClass"
| "class_of (TrainingData _) = TrainingCompletedClass"
| "class_of (EvaluationData _) = EvaluationCompletedClass"
| "class_of (DeploymentData _) = DeploymentChangedClass"

fun event_payloads :: "event_type \<Rightarrow> payload_class" where
  "event_payloads InteractionStarted = StartedClass"
| "event_payloads RetrievalCompleted = RetrievalRunClass"
| "event_payloads RouteDecided = RouteDecisionClass"
| "event_payloads GenerationCompleted = GenerationAttemptClass"
| "event_payloads GenerationFailed = GenerationAttemptClass"
| "event_payloads InteractionCompleted = InteractionClass"
| "event_payloads FeedbackRecorded = FeedbackClass"
| "event_payloads DeletionRequested = DeletionRequestClass"
| "event_payloads DatasetBuiltEvent = DatasetBuiltClass"
| "event_payloads TrainingCompletedEvent = TrainingCompletedClass"
| "event_payloads EvaluationCompletedEvent = EvaluationCompletedClass"
| "event_payloads DeploymentChangedEvent = DeploymentChangedClass"

fun event_type_text :: "event_type \<Rightarrow> string" where
  "event_type_text InteractionStarted = ''interaction.started.v1''"
| "event_type_text RetrievalCompleted = ''retrieval.completed.v1''"
| "event_type_text RouteDecided = ''route.decided.v1''"
| "event_type_text GenerationCompleted = ''generation.completed.v1''"
| "event_type_text GenerationFailed = ''generation.failed.v1''"
| "event_type_text InteractionCompleted = ''interaction.completed.v1''"
| "event_type_text FeedbackRecorded = ''feedback.recorded.v1''"
| "event_type_text DeletionRequested = ''privacy.deletion.requested.v1''"
| "event_type_text DatasetBuiltEvent = ''dataset.built.v1''"
| "event_type_text TrainingCompletedEvent = ''training.completed.v1''"
| "event_type_text EvaluationCompletedEvent = ''evaluation.completed.v1''"
| "event_type_text DeploymentChangedEvent = ''deployment.changed.v1''"

record event =
  en_event_id :: string
  en_event_type :: event_type
  en_occurred_at :: instant
  en_producer :: producer
  en_tenant_id :: string
  en_trace_id :: string
  en_schema_version :: string
  en_data :: event_data

definition major_of_type :: "event_type \<Rightarrow> string" where
  "major_of_type t = rev (takeWhile (\<lambda>c. c \<noteq> CHR ''.'') (rev (event_type_text t)))"

definition major_of_schema :: "string \<Rightarrow> string" where
  "major_of_schema v = CHR ''v'' # takeWhile (\<lambda>c. c \<noteq> CHR ''.'') v"

definition matching_event_data :: "event \<Rightarrow> event result" where
  "matching_event_data e = raise_first
     [(class_of (en_data e) \<noteq> event_payloads (en_event_type e), ''event type and payload do not match''),
      (major_of_type (en_event_type e) \<noteq> major_of_schema (en_schema_version e),
       ''event type version and schema major version disagree'')] e"

definition event_validate :: "event \<Rightarrow> event result" where
  "event_validate e = contract_new (en_schema_version e = ''1.0'') (matching_event_data e)"

text \<open>The event envelope accepts exactly the events whose payload is of the class its type
  announces: the version check never rejects an event of schema version 1.0, so that no type of
  the catalogue is unusable.\<close>

theorem event_validate_iff:
  "event_validate e = Inr e' \<longleftrightarrow>
     e' = e \<and> en_schema_version e = ''1.0'' \<and> class_of (en_data e) = event_payloads (en_event_type e)"
proof -
  have "major_of_type (en_event_type e) = ''v1''"
    by (cases "en_event_type e") (simp_all add: major_of_type_def)
  moreover have "major_of_schema ''1.0'' = ''v1''" by (simp add: major_of_schema_def)
  ultimately show ?thesis
    by (auto simp: event_validate_def matching_event_data_def contract_simps simp del: raise_first.simps)
qed

end
