(* ===== verification/Lifecycle.thy ===== *)
theory Lifecycle
  imports Contracts
begin

text \<open>
  The model lifecycle of \<open>registry/state.py\<close>: the allowed edges, \<open>validate_transition\<close>
  with its three errors in order, and the histories it permits. A history is a run of
  \<open>lifecycle_step\<close>, one accepted request per step; the invariants over runs are what the
  registry relies on: nothing is served that was not approved on a passed evaluation,
  a revoked model stays revoked, and without a rollback the lifecycle only moves forward.
\<close>

section \<open>Transitions\<close>

definition allowed_edges :: "(lifecycle_state \<times> lifecycle_state) list" where
  "allowed_edges =
     [(Candidate, Evaluating), (Evaluating, Approved), (Approved, Shadow), (Shadow, Canary),
      (Canary, Production), (Production, Deprecated), (Candidate, Revoked),
      (Evaluating, Revoked), (Approved, Revoked), (Shadow, Revoked), (Canary, Revoked),
      (Production, Revoked), (Deprecated, Revoked)]"

record transition_request =
  tr_target :: lifecycle_state
  tr_actor :: "string option"
  tr_reason :: string
  tr_evaluation_passed :: bool
  tr_rollback :: bool

text \<open>\<open>not actor\<close> holds for \<open>None\<close> and for the empty string.\<close>

definition validate_transition :: "lifecycle_state \<Rightarrow> transition_request \<Rightarrow> unit result" where
  "validate_transition current r =
     (let edge = (current, tr_target r);
          allowed = (if tr_rollback r \<and> edge = (Deprecated, Production)
                     then tr_evaluation_passed r else edge \<in> set allowed_edges)
      in bindE (guardE allowed (GatewayError 409 ''invalid_lifecycle_transition''))
          (\<lambda>_. bindE (guardE (tr_actor r \<noteq> None \<and> tr_actor r \<noteq> Some [] \<and> nonblank (tr_reason r))
                (GatewayError 422 ''operator_note_required''))
            (\<lambda>_. guardE (\<not> (tr_target r = Approved \<and> \<not> tr_evaluation_passed r))
                (GatewayError 409 ''passed_evaluation_required''))))"

definition permitted :: "lifecycle_state \<Rightarrow> transition_request \<Rightarrow> bool" where
  "permitted current r \<longleftrightarrow>
     ((current, tr_target r) \<in> set allowed_edges \<or>
      tr_rollback r \<and> tr_evaluation_passed r \<and> current = Deprecated \<and> tr_target r = Production) \<and>
     tr_actor r \<noteq> None \<and> tr_actor r \<noteq> Some [] \<and> nonblank (tr_reason r) \<and>
     (tr_target r = Approved \<longrightarrow> tr_evaluation_passed r)"

lemma validate_transition_iff: "validate_transition s r = Inr () \<longleftrightarrow> permitted s r"
  by (cases s; cases "tr_target r")
    (auto simp: validate_transition_def permitted_def allowed_edges_def Let_def bindE_Inr_iff)

lemma validate_transition_errors:
  "validate_transition s r = Inl e \<Longrightarrow>
     e \<in> {GatewayError 409 ''invalid_lifecycle_transition'',
          GatewayError 422 ''operator_note_required'',
          GatewayError 409 ''passed_evaluation_required''}"
  by (auto simp: validate_transition_def Let_def bindE_Inl_iff)

section \<open>Histories\<close>

inductive lifecycle_step :: "lifecycle_state \<Rightarrow> transition_request \<Rightarrow> lifecycle_state \<Rightarrow> bool" where
  accept: "validate_transition s r = Inr () \<Longrightarrow> lifecycle_step s r (tr_target r)"

inductive_cases lifecycle_stepE: "lifecycle_step s r t"
inductive_simps lifecycle_step_iff: "lifecycle_step s r t"

inductive lifecycle_run :: "lifecycle_state \<Rightarrow> transition_request list \<Rightarrow> lifecycle_state \<Rightarrow> bool" where
  stay: "lifecycle_run s [] s"
| move: "lifecycle_run s rs t \<Longrightarrow> lifecycle_step t r u \<Longrightarrow> lifecycle_run s (rs @ [r]) u"

definition served_states :: "lifecycle_state list" where
  "served_states = [Approved, Shadow, Canary, Production, Deprecated]"

fun rank :: "lifecycle_state \<Rightarrow> nat" where
  "rank Candidate = 0"
| "rank Evaluating = 1"
| "rank Approved = 2"
| "rank Shadow = 3"
| "rank Canary = 4"
| "rank Production = 5"
| "rank Deprecated = 6"
| "rank Revoked = 7"

lemma permitted_rank: "permitted s r \<Longrightarrow> \<not> tr_rollback r \<Longrightarrow> rank s < rank (tr_target r)"
  by (cases s) (auto simp: permitted_def allowed_edges_def)

lemma permitted_served:
  "permitted s r \<Longrightarrow> tr_target r \<in> set served_states \<Longrightarrow>
     s \<in> set served_states \<or> tr_target r = Approved \<and> tr_evaluation_passed r"
  by (cases s) (auto simp: permitted_def allowed_edges_def served_states_def)

lemma step_permitted: "lifecycle_step s r t \<Longrightarrow> permitted s r \<and> t = tr_target r"
  by (auto elim!: lifecycle_stepE simp: validate_transition_iff)

lemma run_rank:
  "lifecycle_run s rs t \<Longrightarrow> \<forall>r \<in> set rs. \<not> tr_rollback r \<Longrightarrow> rank s + length rs \<le> rank t"
proof (induction rule: lifecycle_run.induct)
  case (move s rs t r u)
  then show ?case using step_permitted [OF move.hyps(2)] permitted_rank [of t r] by fastforce
qed simp

lemma rank_le: "rank t \<le> 7"
  by (cases t) simp_all

section \<open>Properties\<close>

text \<open>Nothing reaches a served state without an approval: every accepted history from
  \<open>candidate\<close> to \<open>approved\<close>, \<open>shadow\<close>, \<open>canary\<close>, \<open>production\<close> or \<open>deprecated\<close>, rollbacks
  included, contains an accepted transition to \<open>approved\<close> with a passed evaluation.\<close>

theorem served_requires_approval:
  assumes "lifecycle_run Candidate rs t" and "t \<in> set served_states"
  shows "\<exists>r \<in> set rs. tr_target r = Approved \<and> tr_evaluation_passed r"
  using assms
proof (induction Candidate rs t rule: lifecycle_run.induct)
  case stay
  then show ?case by (simp add: served_states_def)
next
  case (move rs t r u)
  have "permitted t r" and u: "u = tr_target r" using step_permitted [OF move.hyps(3)] by simp_all
  then have "t \<in> set served_states \<or> tr_target r = Approved \<and> tr_evaluation_passed r"
    using permitted_served move.prems by blast
  then show ?case using move.hyps(2) by auto
qed

definition evaluate_request :: transition_request where
  "evaluate_request = \<lparr>tr_target = Evaluating, tr_actor = Some ''op'', tr_reason = ''start'',
     tr_evaluation_passed = False, tr_rollback = False\<rparr>"

definition approve_request :: transition_request where
  "approve_request = \<lparr>tr_target = Approved, tr_actor = Some ''op'', tr_reason = ''passed'',
     tr_evaluation_passed = True, tr_rollback = False\<rparr>"

lemma sample_lifecycle_run: "lifecycle_run Candidate ([evaluate_request] @ [approve_request]) Approved"
proof (rule move)
  have "lifecycle_step Candidate evaluate_request (tr_target evaluate_request)"
    by (rule accept) code_simp
  then show "lifecycle_run Candidate [evaluate_request] Evaluating"
    using move [OF stay, of Candidate evaluate_request] by (simp add: evaluate_request_def)
  have "lifecycle_step Evaluating approve_request (tr_target approve_request)"
    by (rule accept) code_simp
  then show "lifecycle_step Evaluating approve_request Approved"
    by (simp add: approve_request_def)
qed

theorem served_requires_approval_witness:
  "tr_target approve_request = Approved \<and>
   (\<exists>r \<in> set ([evaluate_request] @ [approve_request]). tr_target r = Approved \<and> tr_evaluation_passed r)"
  using served_requires_approval [OF sample_lifecycle_run]
  by (simp add: served_states_def approve_request_def)

text \<open>The lifecycle only moves forward: without a rollback a history takes at most seven
  transitions, never returns to a state it left, and nothing leaves \<open>revoked\<close>, with or
  without a rollback.\<close>

theorem lifecycle_forward:
  assumes "lifecycle_run s rs t" and "\<forall>r \<in> set rs. \<not> tr_rollback r"
  shows "length rs \<le> 7 \<and> (rs \<noteq> [] \<longrightarrow> t \<noteq> s) \<and> \<not> lifecycle_step Revoked r u"
proof (intro conjI impI)
  have le: "rank s + length rs \<le> rank t" using run_rank assms by blast
  with rank_le [of t] show "length rs \<le> 7" by simp
  show "t \<noteq> s" if "rs \<noteq> []" using le that by auto
  show "\<not> lifecycle_step Revoked r u"
    by (auto dest!: step_permitted simp: permitted_def allowed_edges_def)
qed

theorem lifecycle_forward_witness: "length ([evaluate_request] @ [approve_request]) \<le> 7"
  using lifecycle_forward [OF sample_lifecycle_run]
  by (simp add: evaluate_request_def approve_request_def)

end
