(* ===== verification/Breakers.thy ===== *)
theory Breakers
  imports Contracts_Records Stats
begin

text \<open>
  The circuit breakers of \<open>routing/breakers.py\<close>: one sliding window per deployment, at most
  64 of them, each closed, open or half open with a single probe. Every operation of
  \<open>CircuitBreakers\<close> runs under its lock, so each is one function on the state; the clock
  reading it makes is an argument (\<open>clk\<close>). \<open>gauges\<close> is what \<open>_publish\<close> reports.
\<close>

section \<open>State\<close>

datatype breaker_state = Closed | Open | HalfOpen

record sample =
  sm_at :: flt
  sm_error :: bool
  sm_validation_failure :: bool
  sm_latency_ms :: flt

record window =
  samples :: "sample list"
  state :: breaker_state
  opened_at :: flt
  probing :: bool

record breakers =
  windows :: "(ident \<times> window) list"
  gauges :: "(ident \<times> nat) list"

definition new_window :: window where
  "new_window = \<lparr>samples = [], state = Closed, opened_at = 0, probing = False\<rparr>"

definition no_breakers :: breakers where
  "no_breakers = \<lparr>windows = [], gauges = []\<rparr>"

text \<open>\<open>deque(maxlen=1000).append\<close> discards from the left.\<close>

definition push_sample :: "sample \<Rightarrow> sample list \<Rightarrow> sample list" where
  "push_sample s xs = (let ys = xs @ [s] in drop (length ys - 1000) ys)"

section \<open>Operations\<close>

text \<open>\<open>_window\<close>: the deployment's window, created when there is room for it.\<close>

definition window_of :: "breakers \<Rightarrow> ident \<Rightarrow> (window \<times> breakers) option" where
  "window_of b d =
     (case map_of (windows b) d of
        Some w \<Rightarrow> Some (w, b)
      | None \<Rightarrow> if length (windows b) \<ge> 64 then None
                else Some (new_window, b\<lparr>windows := dict_put d new_window (windows b)\<rparr>))"

definition store :: "breakers \<Rightarrow> ident \<Rightarrow> window \<Rightarrow> breakers" where
  "store b d w = b\<lparr>windows := dict_put d w (windows b)\<rparr>"

fun gauge_value :: "breaker_state \<Rightarrow> nat" where
  "gauge_value Closed = 0"
| "gauge_value Open = 1"
| "gauge_value HalfOpen = 2"

definition publish :: "breakers \<Rightarrow> ident \<Rightarrow> window \<Rightarrow> breakers" where
  "publish b d w = b\<lparr>gauges := dict_put d (gauge_value (state w)) (gauges b)\<rparr>"

definition advance :: "flt \<Rightarrow> breaker_thresholds \<Rightarrow> window \<Rightarrow> window" where
  "advance clk t w =
     (if state w = Open \<and> clk - opened_at w \<ge> bt_cooldown_seconds t then w\<lparr>state := HalfOpen\<rparr> else w)"

definition available :: "breakers \<Rightarrow> ident \<Rightarrow> breaker_thresholds \<Rightarrow> flt \<Rightarrow> bool \<times> breakers" where
  "available b d t clk =
     (case window_of b d of
        None \<Rightarrow> (False, b)
      | Some (w, b') \<Rightarrow>
          let w' = advance clk t w
          in (state w' \<noteq> Open \<and> \<not> probing w', publish (store b' d w') d w'))"

definition acquire :: "breakers \<Rightarrow> ident \<Rightarrow> breaker_thresholds \<Rightarrow> flt \<Rightarrow> bool \<times> breakers" where
  "acquire b d t clk =
     (case window_of b d of
        None \<Rightarrow> (False, b)
      | Some (w, b') \<Rightarrow>
          let w' = advance clk t w
          in if state w' = Open \<or> probing w' then (False, store b' d w')
             else let w'' = (if state w' = HalfOpen then w'\<lparr>probing := True\<rparr> else w')
                  in (True, publish (store b' d w'') d w''))"

text \<open>The percentile of a window that is not empty; it is only read on such a window.\<close>

definition p95 :: "sample list \<Rightarrow> flt" where
  "p95 xs = (case percentile (map sm_latency_ms xs) (95 / 100) of Inr p \<Rightarrow> p | Inl _ \<Rightarrow> 0)"

definition rate :: "(sample \<Rightarrow> bool) \<Rightarrow> sample list \<Rightarrow> flt" where
  "rate f xs = of_nat (length (filter f xs)) / of_nat (length xs)"

definition trips :: "breaker_thresholds \<Rightarrow> sample list \<Rightarrow> bool" where
  "trips t xs =
     (length xs \<ge> bt_minimum_samples t \<and>
      (rate sm_error xs \<ge> bt_error_rate t \<or>
       rate sm_validation_failure xs \<ge> bt_validation_failure_rate t \<or>
       p95 xs > bt_p95_latency_ms t))"

definition observe_window :: "breaker_thresholds \<Rightarrow> sample \<Rightarrow> window \<Rightarrow> window" where
  "observe_window t s w =
     (case state w of
        HalfOpen \<Rightarrow>
          let bad = (sm_error s \<or> sm_validation_failure s \<or> sm_latency_ms s > bt_p95_latency_ms t)
          in w\<lparr>probing := False, state := (if bad then Open else Closed), opened_at := sm_at s,
               samples := []\<rparr>
      | Closed \<Rightarrow>
          let xs = dropWhile (\<lambda>x. sm_at x < sm_at s - bt_window_seconds t) (push_sample s (samples w))
          in if trips t xs then w\<lparr>samples := xs, state := Open, opened_at := sm_at s\<rparr>
             else w\<lparr>samples := xs\<rparr>
      | Open \<Rightarrow> w)"

definition record_outcome :: "breakers \<Rightarrow> ident \<Rightarrow> breaker_thresholds \<Rightarrow> sample \<Rightarrow> breakers" where
  "record_outcome b d t s =
     (case window_of b d of
        None \<Rightarrow> b
      | Some (w, b') \<Rightarrow> let w' = observe_window t s w in publish (store b' d w') d w')"

definition states :: "breakers \<Rightarrow> (ident \<times> breaker_state) list" where
  "states b = map (\<lambda>(d, w). (d, state w)) (windows b)"

lemmas breaker_op_defs = available_def acquire_def record_outcome_def window_of_def store_def
  publish_def Let_def

section \<open>Invariant\<close>

definition window_inv :: "window \<Rightarrow> bool" where
  "window_inv w \<longleftrightarrow> length (samples w) \<le> 1000 \<and> (probing w \<longrightarrow> state w = HalfOpen)"

definition breakers_inv :: "breakers \<Rightarrow> bool" where
  "breakers_inv b \<longleftrightarrow>
     distinct (map fst (windows b)) \<and> length (windows b) \<le> 64 \<and>
     (\<forall>d w. map_of (windows b) d = Some w \<longrightarrow> window_inv w) \<and>
     set (map fst (gauges b)) \<subseteq> set (map fst (windows b))"

datatype breaker_event =
    AvailableEvent ident breaker_thresholds flt
  | AcquireEvent ident breaker_thresholds flt
  | RecordEvent ident breaker_thresholds sample

fun breaker_step :: "breakers \<Rightarrow> breaker_event \<Rightarrow> breakers" where
  "breaker_step b (AvailableEvent d t clk) = snd (available b d t clk)"
| "breaker_step b (AcquireEvent d t clk) = snd (acquire b d t clk)"
| "breaker_step b (RecordEvent d t s) = record_outcome b d t s"

definition breaker_run :: "breakers \<Rightarrow> breaker_event list \<Rightarrow> breakers" where
  "breaker_run = foldl breaker_step"

lemma window_inv_new: "window_inv new_window"
  by (simp add: window_inv_def new_window_def)

lemma window_inv_advance: "window_inv w \<Longrightarrow> window_inv (advance clk t w)"
  by (auto simp: window_inv_def advance_def)

lemma length_push_sample: "length xs \<le> 1000 \<Longrightarrow> length (push_sample s xs) \<le> 1000"
  by (simp add: push_sample_def Let_def)

lemma window_inv_observe: "window_inv w \<Longrightarrow> window_inv (observe_window t s w)"
  using length_push_sample [of "samples w" s]
    length_dropWhile_le [of "\<lambda>x. sm_at x < sm_at s - bt_window_seconds t" "push_sample s (samples w)"]
  by (cases "state w") (auto simp: window_inv_def observe_window_def Let_def)

lemma window_of_store:
  assumes "window_of b d = Some (w, b')"
  shows "windows (store b' d w') = dict_put d w' (windows b)"
    and "gauges (store b' d w') = gauges b"
    and "d \<notin> fst ` set (windows b) \<Longrightarrow> length (windows b) < 64"
    and "map_of (windows b) d = Some w \<or> map_of (windows b) d = None \<and> w = new_window"
proof -
  have twice: "dict_put d v' (dict_put d v ws) = dict_put d v' ws" for v v' and ws :: "(ident \<times> window) list"
    by (induction d v ws rule: dict_put.induct) auto
  show "windows (store b' d w') = dict_put d w' (windows b)"
    and "gauges (store b' d w') = gauges b"
    and "map_of (windows b) d = Some w \<or> map_of (windows b) d = None \<and> w = new_window"
    using assms by (auto simp: window_of_def store_def twice split: option.splits if_splits)
  show "length (windows b) < 64" if "d \<notin> fst ` set (windows b)"
    using assms that
    by (auto simp: window_of_def image_iff split: option.splits if_splits dest!: map_of_SomeD)
qed

lemma breakers_inv_store:
  assumes "breakers_inv b" and "window_of b d = Some (w, b')" and "window_inv w'"
  shows "breakers_inv (store b' d w')" and "breakers_inv (publish (store b' d w') d w')"
proof -
  note st = window_of_store [OF assms(2)]
  have len: "length (dict_put d w' (windows b)) \<le> 64"
    using assms(1) st(3) by (auto simp: length_dict_put breakers_inv_def)
  show "breakers_inv (store b' d w')" "breakers_inv (publish (store b' d w') d w')"
    using assms(1,3) st(1,2) [of w'] len
    by (auto simp: breakers_inv_def publish_def distinct_dict_put keys_dict_put split: if_splits)
qed

lemma window_of_inv: "breakers_inv b \<Longrightarrow> window_of b d = Some (w, b') \<Longrightarrow> window_inv w"
  using window_of_store(4) [of b d w b'] by (auto simp: breakers_inv_def window_inv_new)

lemma breaker_step_inv: "breakers_inv b \<Longrightarrow> breakers_inv (breaker_step b e)"
proof (cases e)
  case (RecordEvent d t s)
  assume "breakers_inv b"
  then show ?thesis
    using RecordEvent window_of_inv [of b d] breakers_inv_store [of b d]
    by (auto simp: record_outcome_def Let_def window_inv_observe split: option.splits)
next
  case (AvailableEvent d t clk)
  assume "breakers_inv b"
  then show ?thesis
    using AvailableEvent window_of_inv [of b d] breakers_inv_store [of b d]
    by (auto simp: available_def Let_def window_inv_advance split: option.splits)
next
  case (AcquireEvent d t clk)
  assume inv: "breakers_inv b"
  have "window_inv (w\<lparr>probing := True\<rparr>)" if "window_inv w" "state w = HalfOpen" for w
    using that by (simp add: window_inv_def)
  with inv AcquireEvent window_of_inv [of b d] breakers_inv_store [of b d] show ?thesis
    by (auto simp: acquire_def Let_def window_inv_advance split: option.splits)
qed

lemma no_breakers_inv: "breakers_inv no_breakers"
  by (simp add: breakers_inv_def no_breakers_def)

section \<open>Reading one deployment's window\<close>

definition window_at :: "breakers \<Rightarrow> ident \<Rightarrow> window option" where
  "window_at b d = map_of (windows b) d"

lemma window_of_known: "window_at b d = Some w \<Longrightarrow> window_of b d = Some (w, b)"
  by (simp add: window_at_def window_of_def)

lemma window_at_store_publish [simp]:
  "window_at (store b d w) d' = (if d' = d then Some w else window_at b d')"
  "window_at (publish b d w) d' = window_at b d'"
  by (simp_all add: window_at_def store_def publish_def)

lemma window_at_window_of:
  "window_of b d = Some (w, b') \<Longrightarrow> d' \<noteq> d \<Longrightarrow> window_at b' d' = window_at b d'"
  by (auto simp: window_of_def window_at_def split: option.splits if_splits)

fun event_deployment :: "breaker_event \<Rightarrow> ident" where
  "event_deployment (AvailableEvent d t clk) = d"
| "event_deployment (AcquireEvent d t clk) = d"
| "event_deployment (RecordEvent d t s) = d"

lemma breaker_step_other: "event_deployment e \<noteq> d \<Longrightarrow> window_at (breaker_step b e) d = window_at b d"
  using window_at_window_of
  by (cases e) (auto simp: available_def acquire_def record_outcome_def Let_def split: option.splits prod.splits)

text \<open>What the two queries do to a window that is known.\<close>

definition advance_probe :: "flt \<Rightarrow> breaker_thresholds \<Rightarrow> window \<Rightarrow> window" where
  "advance_probe clk t w =
     (let w' = advance clk t w
      in if state w' = HalfOpen \<and> \<not> probing w' then w'\<lparr>probing := True\<rparr> else w')"

lemma acquire_known:
  assumes "window_at b d = Some w"
  shows "fst (acquire b d t clk) \<longleftrightarrow> state (advance clk t w) \<noteq> Open \<and> \<not> probing w"
    and "window_at (snd (acquire b d t clk)) d = Some (advance_probe clk t w)"
  using window_of_known [OF assms]
  by (auto simp: acquire_def Let_def advance_def advance_probe_def)

lemma available_known:
  assumes "window_at b d = Some w"
  shows "fst (available b d t clk) \<longleftrightarrow> state (advance clk t w) \<noteq> Open \<and> \<not> probing w"
    and "window_at (snd (available b d t clk)) d = Some (advance clk t w)"
  using window_of_known [OF assms] by (auto simp: available_def Let_def advance_def)

lemma record_known:
  "window_at b d = Some w \<Longrightarrow> window_at (record_outcome b d t s) d = Some (observe_window t s w)"
  using window_of_known [of b d w] by (simp add: record_outcome_def Let_def)

lemma probe_held:
  assumes "window_at b d = Some w" and "probing w" and "state w = HalfOpen"
    and "\<forall>e \<in> set es. \<forall>t s. e \<noteq> RecordEvent d t s"
  shows "\<exists>w'. window_at (breaker_run b es) d = Some w' \<and> probing w' \<and> state w' = HalfOpen"
  using assms
proof (induction es arbitrary: b w)
  case Nil
  then show ?case by (simp add: breaker_run_def)
next
  case (Cons e es)
  have "\<exists>w'. window_at (breaker_step b e) d = Some w' \<and> probing w' \<and> state w' = HalfOpen"
  proof (cases "event_deployment e = d")
    case False
    with Cons.prems show ?thesis by (simp add: breaker_step_other)
  next
    case True
    with Cons.prems show ?thesis
      by (cases e)
        (auto simp: acquire_known(2) available_known(2) advance_def advance_probe_def Let_def)
  qed
  with Cons.IH Cons.prems(4) show ?case by (auto simp: breaker_run_def)
qed

section \<open>Properties\<close>

text \<open>In every reachable state of the breakers there are at most 64 windows, one per
  deployment, each with at most 1000 samples, a probe is only ever outstanding in a half-open
  window, and only known deployments are published.\<close>

theorem breakers_invariant: "breakers_inv (breaker_run no_breakers es)"
proof -
  have "breakers_inv b \<Longrightarrow> breakers_inv (foldl breaker_step b es)" for b
    by (induction es arbitrary: b) (simp_all add: breaker_step_inv)
  then show ?thesis by (simp add: breaker_run_def no_breakers_inv)
qed

text \<open>A half-open window admits one probe: once \<open>acquire\<close> has granted a probe to a
  deployment, every later \<open>acquire\<close> and \<open>available\<close> for it is refused, at any time and
  whatever happens to other deployments, until an outcome is recorded for it.\<close>

theorem single_probe:
  assumes "window_at b d = Some w" and "state (advance clk t w) = HalfOpen"
    and "fst (acquire b d t clk)"
    and "\<forall>e \<in> set es. \<forall>t s. e \<noteq> RecordEvent d t s"
  shows "\<not> fst (acquire (breaker_run (snd (acquire b d t clk)) es) d t' clk') \<and>
    \<not> fst (available (breaker_run (snd (acquire b d t clk)) es) d t' clk')"
proof -
  have "window_at (snd (acquire b d t clk)) d = Some (advance_probe clk t w)"
    by (rule acquire_known(2) [OF assms(1)])
  moreover have "probing (advance_probe clk t w)" "state (advance_probe clk t w) = HalfOpen"
    using assms(2) by (auto simp: advance_probe_def Let_def)
  ultimately obtain w' where w': "window_at (breaker_run (snd (acquire b d t clk)) es) d = Some w'"
      and "probing w'"
    using probe_held assms(4) by meson
  then show ?thesis
    by (simp_all add: acquire_known(1) available_known(1))
qed

definition tripped_window :: window where
  "tripped_window = \<lparr>samples = [], state = Open, opened_at = 10, probing = False\<rparr>"

definition tripped :: breakers where
  "tripped = \<lparr>windows = [(''spec-1'', tripped_window)], gauges = []\<rparr>"

theorem single_probe_witness:
  "fst (acquire tripped ''spec-1'' default_breaker_thresholds 40) \<and>
   \<not> fst (acquire (breaker_run (snd (acquire tripped ''spec-1'' default_breaker_thresholds 40)) [])
          ''spec-1'' default_breaker_thresholds 1000)"
proof -
  have w: "window_at tripped ''spec-1'' = Some tripped_window"
    by (simp add: window_at_def tripped_def)
  have half: "state (advance 40 default_breaker_thresholds tripped_window) = HalfOpen"
    by (simp add: advance_def tripped_window_def default_breaker_thresholds_def)
  have granted: "fst (acquire tripped ''spec-1'' default_breaker_thresholds 40)"
    using half by (simp add: acquire_known(1) [OF w] tripped_window_def)
  show ?thesis
    using granted single_probe(1) [OF w half granted, of "[]"] by simp
qed

text \<open>An open window refuses every attempt before its cooldown has passed and leaves the
  window as it is; the first \<open>acquire\<close> after the cooldown is granted, as the probe.\<close>

theorem open_until_cooldown:
  assumes "window_at b d = Some w" and "state w = Open" and "\<not> probing w"
  shows "if clk - opened_at w < bt_cooldown_seconds t
    then \<not> fst (acquire b d t clk) \<and> window_at (snd (acquire b d t clk)) d = Some w
    else fst (acquire b d t clk) \<and>
      window_at (snd (acquire b d t clk)) d = Some (w\<lparr>state := HalfOpen, probing := True\<rparr>)"
  using assms
  by (auto simp: acquire_known [OF assms(1)] advance_probe_def advance_def Let_def)

theorem open_until_cooldown_witness:
  "\<not> fst (acquire tripped ''spec-1'' default_breaker_thresholds 39) \<and>
   fst (acquire tripped ''spec-1'' default_breaker_thresholds 40)"
proof -
  have w: "window_at tripped ''spec-1'' = Some tripped_window"
    by (simp add: window_at_def tripped_def)
  have known: "state tripped_window = Open" "\<not> probing tripped_window" "opened_at tripped_window = 10"
      "bt_cooldown_seconds default_breaker_thresholds = 30"
    by (simp_all add: tripped_window_def default_breaker_thresholds_def)
  show ?thesis
    using open_until_cooldown [OF w known(1,2), of 39 default_breaker_thresholds]
      open_until_cooldown [OF w known(1,2), of 40 default_breaker_thresholds]
    by (simp add: known)
qed

lemma observe_closed_length:
  assumes "state w = Closed" and "length (samples w) + 1 < bt_minimum_samples t"
  shows "state (observe_window t s w) = Closed"
    and "length (samples (observe_window t s w)) \<le> length (samples w) + 1"
proof -
  let ?xs = "dropWhile (\<lambda>x. sm_at x < sm_at s - bt_window_seconds t) (push_sample s (samples w))"
  have len: "length ?xs \<le> length (samples w) + 1"
    using length_dropWhile_le [of _ "push_sample s (samples w)"]
    by (rule order_trans) (simp add: push_sample_def Let_def)
  then have "\<not> trips t ?xs" using assms(2) by (simp add: trips_def)
  then show "state (observe_window t s w) = Closed"
    and "length (samples (observe_window t s w)) \<le> length (samples w) + 1"
    using assms(1) len by (simp_all add: observe_window_def Let_def)
qed

lemma few_samples_stay_closed:
  assumes "length ss < bt_minimum_samples t"
  shows "state (foldl (\<lambda>w s. observe_window t s w) new_window ss) = Closed"
proof -
  have "length (samples w) + length ss < bt_minimum_samples t \<Longrightarrow> state w = Closed \<Longrightarrow>
      state (foldl (\<lambda>w s. observe_window t s w) w ss) = Closed" for w
  proof (induction ss arbitrary: w)
    case (Cons s ss)
    then show ?case using observe_closed_length [of w t s] by simp
  qed simp
  then show ?thesis using assms by (simp add: new_window_def)
qed

lemma all_failed_trips:
  assumes closed: "state w = Closed" and xs: "xs = samples w @ [s]" and len: "length xs \<le> 1000"
    and all: "\<forall>x \<in> set xs. sm_error x \<and> sm_at s - bt_window_seconds t \<le> sm_at x"
    and enough: "bt_minimum_samples t \<le> length xs" and error_rate: "bt_error_rate t \<le> 1"
  shows "state (observe_window t s w) = Open"
proof -
  have push: "push_sample s (samples w) = xs"
    using len unfolding xs by (simp add: push_sample_def Let_def)
  have recent: "dropWhile (\<lambda>x. sm_at x < sm_at s - bt_window_seconds t) xs = xs"
  proof -
    have "xs \<noteq> []" using xs by simp
    then have "hd xs \<in> set xs" by simp
    then show ?thesis using all by (simp add: dropWhile_eq_self_iff not_less)
  qed
  have "filter sm_error xs = xs" using all by simp
  then have "rate sm_error xs = 1" using xs by (simp add: rate_def)
  then have "trips t xs" using enough error_rate by (simp add: trips_def)
  then show "state (observe_window t s w) = Open"
    using closed push recent by (simp add: observe_window_def Let_def)
qed

text \<open>A breaker does not trip on too little evidence: whatever the outcomes recorded for a
  fresh deployment are, it stays closed while there are fewer than the policy's minimum number
  of them; from the minimum on, a closed window whose outcomes all failed and that are all
  recent does trip.\<close>

theorem trip_threshold:
  assumes "bt_error_rate t \<le> 1"
  shows "(length ss < bt_minimum_samples t \<longrightarrow>
       state (foldl (\<lambda>w s. observe_window t s w) new_window ss) = Closed) \<and>
    (state w = Closed \<and> length (samples w) < 1000 \<and>
       bt_minimum_samples t \<le> Suc (length (samples w)) \<and>
       (\<forall>x \<in> set (samples w @ [s]). sm_error x \<and> sm_at s - bt_window_seconds t \<le> sm_at x)
     \<longrightarrow> state (observe_window t s w) = Open)"
  using few_samples_stay_closed [of ss t] all_failed_trips [OF _ refl _ _ _ assms, of w s] by simp

definition failed_sample :: sample where
  "failed_sample = \<lparr>sm_at = 1, sm_error = True, sm_validation_failure = False, sm_latency_ms = 3\<rparr>"

theorem trip_threshold_witness:
  "state (foldl (\<lambda>w s. observe_window default_breaker_thresholds s w) new_window
     (replicate 4 failed_sample)) = Closed \<and>
   state (observe_window default_breaker_thresholds failed_sample
     (new_window\<lparr>samples := replicate 4 failed_sample\<rparr>)) = Open"
  using trip_threshold [of default_breaker_thresholds "replicate 4 failed_sample"
      "new_window\<lparr>samples := replicate 4 failed_sample\<rparr>" failed_sample]
  by (simp add: default_breaker_thresholds_def new_window_def failed_sample_def)

end
