(* ===== verification/Providers.thy ===== *)
theory Providers
  imports Contracts_Records
begin

text \<open>
  The provider boundary of \<open>providers/__init__.py\<close>: the canonical request and result, the
  whitespace tokenizer, the rendered context and the deterministic local provider
  \<open>FakeProvider\<close>. \<open>token_ends\<close> lists where the matches of \<open>\S+\<close> end; the provider cuts its
  answer at the end of the last token it is allowed.
\<close>

section \<open>Tokens\<close>

fun token_ends_from :: "nat \<Rightarrow> bool \<Rightarrow> string \<Rightarrow> nat list" where
  "token_ends_from i inside [] = (if inside then [i] else [])"
| "token_ends_from i inside (c # cs) =
     (if is_space c
      then (if inside then i # token_ends_from (Suc i) False cs else token_ends_from (Suc i) False cs)
      else token_ends_from (Suc i) True cs)"

definition token_ends :: "string \<Rightarrow> nat list" where
  "token_ends s = token_ends_from 0 False s"

definition token_count :: "string \<Rightarrow> nat" where
  "token_count s = length (token_ends s)"

lemma token_ends_ge: "e \<in> set (token_ends_from i inside s) \<Longrightarrow> i \<le> e"
  by (induction i inside s rule: token_ends_from.induct) (auto split: if_splits)

lemma token_ends_take:
  "m < length (token_ends_from i inside s) \<Longrightarrow>
   token_ends_from i inside (take (token_ends_from i inside s ! m - i) s) =
     take (Suc m) (token_ends_from i inside s)"
proof (induction i inside s arbitrary: m rule: token_ends_from.induct)
  case (2 i inside c cs)
  let ?es = "\<lambda>b. token_ends_from (Suc i) b cs"
  have step: "token_ends_from (Suc i) b (take (?es b ! k - Suc i) cs) = take (Suc k) (?es b) \<and>
      Suc i \<le> ?es b ! k"
    if "k < length (?es b)" "b = (\<not> is_space c)" for b k
    using 2 that token_ends_ge [of "?es b ! k" "Suc i" b cs] by (cases "is_space c"; cases inside) auto
  show ?case
  proof (cases "is_space c \<and> inside")
    case True
    show ?thesis
    proof (cases m)
      case (Suc k)
      with True 2(4) have k: "k < length (?es False)" by simp
      with step [of k False] True obtain d where "?es False ! k - i = Suc d" "?es False ! k - Suc i = d"
        by (metis Suc_diff_Suc Suc_le_lessD)
      with True Suc step [OF k] show ?thesis by simp
    qed (use True in simp)
  next
    case False
    let ?b = "\<not> is_space c"
    have eq: "token_ends_from i inside (c # cs) = ?es ?b"
      using False by auto
    with 2(4) have m: "m < length (?es ?b)" by simp
    with step [OF m] obtain d where "?es ?b ! m - i = Suc d" "?es ?b ! m - Suc i = d"
      by (metis Suc_diff_Suc Suc_le_lessD)
    with False step [OF m] eq show ?thesis by auto
  qed
qed (simp split: if_splits)

lemma token_count_take:
  "m < token_count s \<Longrightarrow> token_count (take (token_ends s ! m) s) = Suc m"
  using token_ends_take [of m 0 False s] by (simp add: token_count_def token_ends_def)

section \<open>Requests and results\<close>

record provider_request =
  pr_messages :: "message list"
  pr_context :: "chunk list"
  pr_response_format :: response_format
  pr_max_output_tokens :: int
  pr_application_id :: string
  pr_deadline_ms :: flt
  pr_temperature :: flt

definition input_tokens :: "provider_request \<Rightarrow> nat" where
  "input_tokens r =
     sum_list (map (\<lambda>m. token_count (content_of m)) (pr_messages r)) +
     sum_list (map (\<lambda>c. token_count (ck_content c)) (pr_context r))"

record provider_result =
  ps_content :: string
  ps_citations :: "citation list"
  ps_usage :: usage
  ps_finish_reason :: finish_reason
  ps_latency_ms :: flt
  ps_tool_calls :: "tool_call list"

definition citation_mark :: "chunk \<Rightarrow> string" where
  "citation_mark c = ''['' @ ck_document_id c @ ''/'' @ ck_chunk_id c @ '']''"

definition render_context :: "chunk list \<Rightarrow> string" where
  "render_context cs = join '' '' (map (\<lambda>c. ck_content c @ '' '' @ citation_mark c) cs)"

fun contains :: "string \<Rightarrow> string \<Rightarrow> bool" where
  "contains p [] = (p = [])"
| "contains p (c # cs) = (starts_with p (c # cs) \<or> contains p cs)"

section \<open>The local provider\<close>

datatype fake_failure = FailError | FailDeadline

definition fake_content :: "provider_request \<Rightarrow> string" where
  "fake_content r =
     (let text = ''SYNTHETIC ANSWER: '' @
            (if pr_context r \<noteq> [] then render_context (pr_context r) else ''No context supplied.'')
      in if rf_type (pr_response_format r) = JsonObjectFormat
         then ''{'' @ quote ''answer'' @ '': '' @ quote text @ ''}'' else text)"

definition truncated :: "string \<Rightarrow> int \<Rightarrow> string \<times> finish_reason" where
  "truncated content limit =
     (let ends = token_ends content
      in if int (length ends) > limit then (take (ends ! nat (limit - 1)) content, Length)
         else (content, Stop))"

definition fake_generate :: "fake_failure option \<Rightarrow> provider_request \<Rightarrow> provider_result" where
  "fake_generate failure r =
     (let (cut, finish) = truncated (fake_content r) (pr_max_output_tokens r);
          (content, finish') =
            (case failure of
               None \<Rightarrow> (cut, finish)
             | Some FailError \<Rightarrow> ([], ErrorFinish)
             | Some FailDeadline \<Rightarrow> ([], DeadlineExceeded))
      in \<lparr>ps_content = content,
          ps_citations = map (\<lambda>c. \<lparr>ci_document_id = ck_document_id c, ci_chunk_id = ck_chunk_id c\<rparr>)
            (filter (\<lambda>c. contains (citation_mark c) content) (pr_context r)),
          ps_usage = \<lparr>us_input_tokens = int (input_tokens r),
            us_output_tokens = int (token_count content), us_cached_input_tokens = None,
            us_reasoning_tokens = None, us_source = LocallyEstimated,
            us_tokenizer = ''fake-whitespace-v1''\<rparr>,
          ps_finish_reason = finish', ps_latency_ms = 0, ps_tool_calls = []\<rparr>)"

lemma truncated_tokens:
  assumes "1 \<le> limit"
  shows "int (token_count (fst (truncated content limit))) \<le> limit"
    and "snd (truncated content limit) = Length \<longleftrightarrow> limit < int (token_count content)"
    and "\<exists>rest. content = fst (truncated content limit) @ rest"
proof -
  show "int (token_count (fst (truncated content limit))) \<le> limit"
    using assms token_count_take [of "nat (limit - 1)" content]
    by (auto simp: truncated_def Let_def token_count_def)
  show "snd (truncated content limit) = Length \<longleftrightarrow> limit < int (token_count content)"
    by (simp add: truncated_def Let_def token_count_def)
  show "\<exists>rest. content = fst (truncated content limit) @ rest"
    by (auto simp: truncated_def Let_def) (metis append_take_drop_id)
qed

section \<open>Properties\<close>

text \<open>The local provider keeps its contract: it never emits more tokens than asked for,
  reports its own token counts truthfully, cites only chunks it was supplied with, and finishes
  with \<open>length\<close> exactly when the full answer was longer than the limit.\<close>

theorem fake_provider_contract:
  assumes "1 \<le> pr_max_output_tokens r"
  shows "us_output_tokens (ps_usage (fake_generate f r)) \<le> pr_max_output_tokens r \<and>
    us_output_tokens (ps_usage (fake_generate f r)) = int (token_count (ps_content (fake_generate f r))) \<and>
    us_input_tokens (ps_usage (fake_generate f r)) = int (input_tokens r) \<and>
    (\<forall>ct \<in> set (ps_citations (fake_generate f r)).
      \<exists>c \<in> set (pr_context r). ci_document_id ct = ck_document_id c \<and> ci_chunk_id ct = ck_chunk_id c) \<and>
    (ps_finish_reason (fake_generate None r) = Length \<longleftrightarrow>
      pr_max_output_tokens r < int (token_count (fake_content r)))"
proof (intro conjI ballI)
  note t = truncated_tokens [OF assms, of "fake_content r"]
  have empty: "token_count [] = 0" by (simp add: token_count_def token_ends_def)
  show "us_output_tokens (ps_usage (fake_generate f r)) \<le> pr_max_output_tokens r"
    using t(1) assms
    by (auto simp: fake_generate_def Let_def empty split: prod.splits option.splits fake_failure.splits)
  show "us_output_tokens (ps_usage (fake_generate f r)) = int (token_count (ps_content (fake_generate f r)))"
    and "us_input_tokens (ps_usage (fake_generate f r)) = int (input_tokens r)"
    by (auto simp: fake_generate_def Let_def split: prod.splits)
  show "\<exists>c \<in> set (pr_context r). ci_document_id ct = ck_document_id c \<and> ci_chunk_id ct = ck_chunk_id c"
    if "ct \<in> set (ps_citations (fake_generate f r))" for ct
    using that by (auto simp: fake_generate_def Let_def split: prod.splits)
  show "ps_finish_reason (fake_generate None r) = Length \<longleftrightarrow>
      pr_max_output_tokens r < int (token_count (fake_content r))"
    using t(2)
    by (cases "truncated (fake_content r) (pr_max_output_tokens r)") (simp add: fake_generate_def Let_def)
qed

definition sample_provider_request :: provider_request where
  "sample_provider_request =
     \<lparr>pr_messages = [\<lparr>role_of = User, content_of = ''hello there''\<rparr>], pr_context = [],
      pr_response_format = \<lparr>rf_type = TextFormat, rf_schema = None\<rparr>, pr_max_output_tokens = 3,
      pr_application_id = ''app'', pr_deadline_ms = 5000, pr_temperature = 0\<rparr>"

theorem fake_provider_contract_witness:
  "us_output_tokens (ps_usage (fake_generate None sample_provider_request)) \<le> 3"
  using fake_provider_contract [of sample_provider_request None]
  by (simp add: sample_provider_request_def)

end
