(* ===== verification/Pricing.thy ===== *)
theory Pricing
  imports Providers
begin

text \<open>
  Prices and the foundation router of \<open>routing/__init__.py\<close>: integer cost estimates rounded
  up to a micro, deployments, and the single foundation candidate with its residency, consent
  and budget constraints. Identifiers and latencies the code draws are arguments.
\<close>

record price_list =
  pl_version :: string
  pl_input_micros_per_1000_tokens :: int
  pl_output_micros_per_1000_tokens :: int

definition price_list_fields :: "price_list \<Rightarrow> bool" where
  "price_list_fields p =
     (0 \<le> pl_input_micros_per_1000_tokens p \<and> 0 \<le> pl_output_micros_per_1000_tokens p)"

definition estimate :: "price_list \<Rightarrow> int \<Rightarrow> int \<Rightarrow> micros" where
  "estimate p inputs outputs =
     (inputs * pl_input_micros_per_1000_tokens p + outputs * pl_output_micros_per_1000_tokens p + 999)
       div 1000"

record deployment =
  dp_model_deployment_id :: string
  dp_model_provider :: string
  dp_model_id :: string
  dp_model_version :: string
  dp_processing_region :: string
  dp_price_list :: price_list

record route_selection =
  rx_decision :: route_decision
  rx_deployment :: deployment
  rx_features :: "routing_features option"
  rx_request :: "provider_request option"
  rx_policy :: "policy_decision option"

definition request_cost :: "deployment \<Rightarrow> provider_request \<Rightarrow> micros" where
  "request_cost d r = estimate (dp_price_list d) (int (input_tokens r)) (pr_max_output_tokens r)"

definition foundation_reasons ::
    "deployment \<Rightarrow> provider_request \<Rightarrow> routing_options \<Rightarrow> policy_decision \<Rightarrow> string list" where
  "foundation_reasons d r options policy =
     (if pd_processing_allowed policy then [] else [''processing_denied'']) @
     (if dp_processing_region d = pd_residency policy then [] else [''residency_mismatch'']) @
     (if request_cost d r > ro_max_cost_micros options then [''cost_limit_exceeded''] else [])"

definition foundation_route ::
    "deployment \<Rightarrow> provider_request \<Rightarrow> routing_options \<Rightarrow> policy_decision \<Rightarrow> string \<Rightarrow> string \<Rightarrow>
     flt \<Rightarrow> route_selection" where
  "foundation_route d r options policy interaction_id decision_id latency_ms =
     (let reasons = foundation_reasons d r options policy;
          cand = \<lparr>cd_model_deployment_id = dp_model_deployment_id d, cd_eligible = (reasons = []),
            cd_processing_region = dp_processing_region d,
            cd_estimated_cost_micros = request_cost d r,
            cd_price_list_version = pl_version (dp_price_list d), cd_estimated_latency_ms = None,
            cd_predicted_quality = None, cd_confidence = None, cd_ood_score = None,
            cd_reason_codes = (if reasons = [] then [''foundation_only''] else reasons)\<rparr>
      in \<lparr>rx_decision =
            \<lparr>rd_route_decision_id = decision_id, rd_interaction_id = interaction_id,
             rd_router_version = ''foundation-only-1'', rd_route_policy_id = None,
             rd_fallback_reasons = [], rd_candidates = [cand],
             rd_selected_model_deployment_id =
               (if reasons = [] then Some (dp_model_deployment_id d) else None),
             rd_fallback_deployment_ids = [], rd_decision_latency_ms = latency_ms,
             rd_policy_constraints = [''processing_allowed'', ''residency'', ''max_cost_micros''],
             rd_response_schema_name = None, rd_response_schema_sha256 = None\<rparr>,
          rx_deployment = d, rx_features = None, rx_request = None, rx_policy = None\<rparr>)"

lemma estimate_eq_ceil_div:
  "estimate p i n =
     ceil_div (i * pl_input_micros_per_1000_tokens p + n * pl_output_micros_per_1000_tokens p) 1000"
  by (simp add: estimate_def ceil_div_def)

lemma estimate_nonneg: "price_list_fields p \<Longrightarrow> 0 \<le> i \<Longrightarrow> 0 \<le> n \<Longrightarrow> 0 \<le> estimate p i n"
  unfolding estimate_def price_list_fields_def
  by (subst pos_imp_zdiv_nonneg_iff) (auto intro!: add_nonneg_nonneg)

lemma estimate_mono:
  assumes "price_list_fields p" and "i \<le> i'" and "n \<le> n'"
  shows "estimate p i n \<le> estimate p i' n'"
  unfolding estimate_eq_ceil_div using assms
  by (intro ceil_div_mono add_mono mult_right_mono) (simp_all add: price_list_fields_def)

text \<open>The cost estimate never undercharges and overcharges by less than one micro: it is
  the least integer number of micros that covers the exact price, it grows with both token
  counts, and splitting a request never makes the estimate smaller than the whole.\<close>

theorem estimate_exact_ceiling:
  assumes "price_list_fields p" and "0 \<le> i" and "0 \<le> n"
  defines "exact \<equiv> i * pl_input_micros_per_1000_tokens p + n * pl_output_micros_per_1000_tokens p"
  shows "exact \<le> 1000 * estimate p i n \<and> 1000 * estimate p i n < exact + 1000 \<and>
    (\<forall>m. exact \<le> 1000 * m \<longrightarrow> estimate p i n \<le> m) \<and>
    (i \<le> i' \<and> n \<le> n' \<longrightarrow> estimate p i n \<le> estimate p i' n') \<and>
    estimate p (i + i') (n + n') \<le> estimate p i n + estimate p i' n'"
proof (intro conjI allI impI)
  note b = ceil_div_bounds [of 1000]
  show "exact \<le> 1000 * estimate p i n" "1000 * estimate p i n < exact + 1000"
    using b(1,2) [of exact] unfolding exact_def estimate_eq_ceil_div by simp_all
  show "estimate p i n \<le> m" if "exact \<le> 1000 * m" for m
    using that ceil_div_least [of 1000 exact m] unfolding exact_def estimate_eq_ceil_div by simp
  show "estimate p i n \<le> estimate p i' n'" if "i \<le> i' \<and> n \<le> n'"
    using that by (auto intro: estimate_mono [OF assms(1)])
  show "estimate p (i + i') (n + n') \<le> estimate p i n + estimate p i' n'"
  proof -
    let ?c = "\<lambda>i n. i * pl_input_micros_per_1000_tokens p + n * pl_output_micros_per_1000_tokens p"
    have "?c (i + i') (n + n') = ?c i n + ?c i' n'" by (simp add: algebra_simps)
    also have "\<dots> \<le> (estimate p i n + estimate p i' n') * 1000"
      using b(1) [of "?c i n"] b(1) [of "?c i' n'"] unfolding estimate_eq_ceil_div by simp
    finally show ?thesis
      using ceil_div_least [of 1000] unfolding estimate_eq_ceil_div by simp
  qed
qed

definition sample_price_list :: price_list where
  "sample_price_list = \<lparr>pl_version = ''v1'', pl_input_micros_per_1000_tokens = 1000,
     pl_output_micros_per_1000_tokens = 2000\<rparr>"

theorem estimate_exact_ceiling_witness:
  "7 * 1000 + 3 * 2000 \<le> 1000 * estimate sample_price_list 7 3 \<and> estimate sample_price_list 7 3 = 13"
  using estimate_exact_ceiling [of sample_price_list 7 3]
  by (simp add: sample_price_list_def price_list_fields_def estimate_def)

text \<open>The foundation router selects its deployment exactly when processing is allowed, the
  deployment is in the tenant's region and the estimated cost is within the caller's limit; a
  refused candidate names every constraint it violates and is never selected.\<close>

theorem foundation_route_hard_constraints:
  "rd_selected_model_deployment_id (rx_decision (foundation_route d r options policy iid did lat)) =
     (if pd_processing_allowed policy \<and> dp_processing_region d = pd_residency policy \<and>
         request_cost d r \<le> ro_max_cost_micros options
      then Some (dp_model_deployment_id d) else None) \<and>
   (\<exists>c. rd_candidates (rx_decision (foundation_route d r options policy iid did lat)) = [c] \<and>
      (cd_eligible c \<longleftrightarrow>
         rd_selected_model_deployment_id (rx_decision (foundation_route d r options policy iid did lat)) \<noteq> None) \<and>
      (''processing_denied'' \<in> set (cd_reason_codes c) \<longleftrightarrow> \<not> pd_processing_allowed policy) \<and>
      (''residency_mismatch'' \<in> set (cd_reason_codes c) \<longleftrightarrow>
         dp_processing_region d \<noteq> pd_residency policy) \<and>
      (''cost_limit_exceeded'' \<in> set (cd_reason_codes c) \<longleftrightarrow>
         request_cost d r > ro_max_cost_micros options))"
  by (auto simp: foundation_route_def foundation_reasons_def Let_def)

end
