(* ===== verification/Tasks.thy ===== *)
theory Tasks
  imports Contracts_Records "HOL-Library.Multiset"
begin

text \<open>
  The task classifier of \<open>routing/tasks.py\<close>: versioned rules over the authenticated
  application and the name of the response schema.
\<close>

record task_rule =
  tl_application_id :: ident
  tl_schema_name :: "ident option"
  tl_label :: ident
  tl_language :: ident
  tl_risk_tier :: risk_tier

definition rule_key :: "task_rule \<Rightarrow> ident \<times> ident option" where
  "rule_key r = (tl_application_id r, tl_schema_name r)"

definition unique_rules :: "task_rule list \<Rightarrow> task_rule list result" where
  "unique_rules rs =
     raise_first [(length (remdups (map rule_key rs)) \<noteq> length rs, ''duplicate_task_rule'')] rs"

definition request_schema :: "inference_request \<Rightarrow> ident option" where
  "request_schema q = map_option schema_name (rf_schema (rq_response_format q))"

definition rule_matches :: "inference_request \<Rightarrow> task_rule \<Rightarrow> bool" where
  "rule_matches q r =
     (tl_application_id r = rq_application_id q \<and>
      (tl_schema_name r = None \<or> request_schema q \<noteq> None \<and> tl_schema_name r = request_schema q))"

definition task_of_rule :: "task_rule \<Rightarrow> task" where
  "task_of_rule r =
     \<lparr>tk_label = tl_label r, tk_language = tl_language r, tk_risk_tier = tl_risk_tier r,
      tk_classifier_version = ''rules-1'', tk_confidence = 1,
      tk_reason_codes = [''application_task_map'']\<rparr>"

definition placeholder_task :: "inference_request \<Rightarrow> task" where
  "placeholder_task q =
     \<lparr>tk_label = (if rag_enabled (rq_rag q) then ''question_answering'' else ''general''),
      tk_language = ''en'', tk_risk_tier = MediumRisk, tk_classifier_version = ''placeholder-rag-flag-1'',
      tk_confidence = 1 / 2, tk_reason_codes = [''rag_flag_only'']\<rparr>"

definition classify :: "task_rule list \<Rightarrow> inference_request \<Rightarrow> task" where
  "classify rs q =
     (case max_by (\<lambda>r. tl_schema_name r \<noteq> None) (filter (rule_matches q) rs) of
        Some r \<Rightarrow> task_of_rule r
      | None \<Rightarrow> placeholder_task q)"

lemma unique_rules_iff: "unique_rules rs = Inr rs' \<longleftrightarrow> rs' = rs \<and> distinct (map rule_key rs)"
proof -
  have "length (remdups (map rule_key rs)) = length rs \<longleftrightarrow> distinct (map rule_key rs)"
    using length_remdups_eq [of "map rule_key rs"] by (metis length_map remdups_id_iff_distinct)
  then show ?thesis by (auto simp: unique_rules_def)
qed

lemma distinct_keys_eq:
  "distinct (map rule_key rs) \<Longrightarrow> r \<in> set rs \<Longrightarrow> r' \<in> set rs \<Longrightarrow> rule_key r = rule_key r' \<Longrightarrow> r = r'"
  by (auto simp: distinct_map inj_on_def)

text \<open>The exact rule wins, then the application's general rule, then the placeholder.\<close>

lemma classify_cases:
  assumes "distinct (map rule_key rs)"
  shows "r \<in> set rs \<Longrightarrow> tl_application_id r = rq_application_id q \<Longrightarrow> tl_schema_name r = request_schema q \<Longrightarrow>
      classify rs q = task_of_rule r"
    and "r \<in> set rs \<Longrightarrow> tl_application_id r = rq_application_id q \<Longrightarrow> tl_schema_name r = None \<Longrightarrow>
      \<forall>r' \<in> set rs. rule_key r' \<noteq> (rq_application_id q, request_schema q) \<Longrightarrow>
      classify rs q = task_of_rule r"
    and "\<forall>r \<in> set rs. tl_application_id r = rq_application_id q \<longrightarrow>
      tl_schema_name r \<noteq> None \<and> tl_schema_name r \<noteq> request_schema q \<Longrightarrow> classify rs q = placeholder_task q"
proof -
  let ?ms = "filter (rule_matches q) rs"
  have pick: "classify rs q = task_of_rule r"
    if "r \<in> set ?ms" and "\<And>x. x \<in> set ?ms \<Longrightarrow> (tl_schema_name r \<noteq> None) \<le> (tl_schema_name x \<noteq> None) \<Longrightarrow>
      rule_key x = rule_key r" for r
  proof -
    from that(1) have "?ms \<noteq> []" by fastforce
    then have "max_by (\<lambda>r. tl_schema_name r \<noteq> None) ?ms \<noteq> None" unfolding max_by_None_iff .
    then obtain x where x: "max_by (\<lambda>r. tl_schema_name r \<noteq> None) ?ms = Some x" by blast
    note best = max_by_Some [OF x]
    have "(tl_schema_name r \<noteq> None) \<le> (tl_schema_name x \<noteq> None)"
      using best that(1) by (simp only: Ball_def)
    then have "rule_key x = rule_key r" using that(2) best by (simp only:)
    then have "x = r" using distinct_keys_eq [OF assms, of x r] best that(1) by simp
    with x show ?thesis by (simp add: classify_def)
  qed
  show "classify rs q = task_of_rule r"
    if "r \<in> set rs" "tl_application_id r = rq_application_id q" "tl_schema_name r = request_schema q"
    using that by (intro pick) (auto simp: rule_matches_def rule_key_def)
  show "classify rs q = task_of_rule r"
    if "r \<in> set rs" "tl_application_id r = rq_application_id q" "tl_schema_name r = None"
      "\<forall>r' \<in> set rs. rule_key r' \<noteq> (rq_application_id q, request_schema q)"
    using that by (intro pick) (auto simp: rule_matches_def rule_key_def)
  show "classify rs q = placeholder_task q"
    if "\<forall>r \<in> set rs. tl_application_id r = rq_application_id q \<longrightarrow>
      tl_schema_name r \<noteq> None \<and> tl_schema_name r \<noteq> request_schema q"
  proof -
    have "?ms = []" using that by (auto simp: filter_empty_conv rule_matches_def)
    then show ?thesis by (simp add: classify_def)
  qed
qed

text \<open>The classification is determined by the rules as a set: accepted rules have no two of
  the same application and schema, the rule for exactly the request's application and schema
  decides, else the application's rule without a schema, else the placeholder that says it only
  looked at the retrieval flag; the order of the rules in the file is irrelevant.\<close>

theorem classify_rules:
  assumes "unique_rules rs = Inr rs'" and "unique_rules ps = Inr ps'" and "set ps = set rs"
  shows "classify ps q = classify rs q \<and>
    (\<forall>r \<in> set rs. rule_key r = (rq_application_id q, request_schema q) \<longrightarrow> classify rs q = task_of_rule r) \<and>
    ((\<forall>r \<in> set rs. rule_key r \<noteq> (rq_application_id q, request_schema q)) \<longrightarrow>
       (\<forall>r \<in> set rs. rule_key r = (rq_application_id q, None) \<longrightarrow> classify rs q = task_of_rule r) \<and>
       ((\<forall>r \<in> set rs. rule_key r \<noteq> (rq_application_id q, None)) \<longrightarrow> classify rs q = placeholder_task q))"
proof -
  have d: "distinct (map rule_key rs)" "distinct (map rule_key ps)"
    using assms(1,2) by (simp_all add: unique_rules_iff)
  note key = rule_key_def prod.inject
  have exact: "classify xs q = task_of_rule r"
    if "distinct (map rule_key xs)" "r \<in> set xs" "rule_key r = (rq_application_id q, request_schema q)" for xs r
    using classify_cases(1) [OF that(1,2), of q] that(3) by (simp add: key)
  have general: "classify xs q = task_of_rule r"
    if "distinct (map rule_key xs)" "r \<in> set xs" "rule_key r = (rq_application_id q, None)"
      "\<forall>r \<in> set xs. rule_key r \<noteq> (rq_application_id q, request_schema q)" for xs r
    using classify_cases(2) [OF that(1,2), of q] that(3,4) by (simp add: key)
  have none: "classify xs q = placeholder_task q"
    if "distinct (map rule_key xs)" "\<forall>r \<in> set xs. rule_key r \<noteq> (rq_application_id q, request_schema q)"
      "\<forall>r \<in> set xs. rule_key r \<noteq> (rq_application_id q, None)" for xs
    using classify_cases(3) [OF that(1), of q] that(2,3) by (simp add: key)
  have "classify ps q = classify rs q"
  proof (cases "\<exists>r \<in> set rs. rule_key r = (rq_application_id q, request_schema q)")
    case True
    then show ?thesis using exact d assms(3) by metis
  next
    case False
    then show ?thesis
      using general [of rs] general [of ps] none [of rs] none [of ps] d assms(3) by metis
  qed
  then show ?thesis using exact [OF d(1)] general [OF d(1)] none [OF d(1)] by blast
qed

definition sample_rules :: "task_rule list" where
  "sample_rules =
     [\<lparr>tl_application_id = ''app'', tl_schema_name = None, tl_label = ''general'', tl_language = ''en'',
       tl_risk_tier = LowRisk\<rparr>,
      \<lparr>tl_application_id = ''app'', tl_schema_name = Some ''s1'', tl_label = ''extraction'',
       tl_language = ''en'', tl_risk_tier = HighRisk\<rparr>]"

theorem classify_rules_witness:
  "classify (rev sample_rules) sample_request = classify sample_rules sample_request \<and>
   tk_label (classify sample_rules sample_request) = ''general''"
proof -
  have u: "unique_rules sample_rules = Inr sample_rules"
      "unique_rules (rev sample_rules) = Inr (rev sample_rules)"
    by (simp_all add: unique_rules_def sample_rules_def rule_key_def)
  have s: "set (rev sample_rules) = set sample_rules" by simp
  show ?thesis
    using classify_rules [OF u(1,2) s, of sample_request]
    by (simp add: sample_rules_def rule_key_def sample_request_def request_schema_def task_of_rule_def)
qed

end
