(* ===== verification/Events.thy ===== *)
theory Events
  imports Contracts_Evaluation
begin

text \<open>
  The event sinks of \<open>events/__init__.py\<close>. \<open>event_sink\<close> is the contract of the protocol
  \<open>EventSink\<close> ("return only after accepting the event; raise on rejection; deduplicate by
  event_id") over the list of events a sink has accepted; the in-memory sink is the model's
  provider of it. Every method of the sink runs under its lock and is one function.
\<close>

section \<open>The contract of a sink\<close>

abbreviation event_ids :: "event list \<Rightarrow> string set" where
  "event_ids es \<equiv> en_event_id ` set es"

locale event_sink =
  fixes emit :: "'s \<Rightarrow> event \<Rightarrow> unit result \<times> 's"
    and accepted :: "'s \<Rightarrow> event list"
    and sink_ok :: "'s \<Rightarrow> bool"
  assumes emit_accepts: "sink_ok s \<Longrightarrow> emit s e = (Inr u, s') \<Longrightarrow>
      sink_ok s' \<and>
      accepted s' = (if en_event_id e \<in> event_ids (accepted s) then accepted s else accepted s @ [e])"
    and emit_rejects: "sink_ok s \<Longrightarrow> emit s e = (Inl x, s') \<Longrightarrow> sink_ok s' \<and> accepted s' = accepted s"
begin

lemma emit_cases:
  assumes "sink_ok s" and "emit s e = (ack, s')"
  shows "sink_ok s'" and "ack = Inr u \<Longrightarrow> en_event_id e \<in> event_ids (accepted s')"
    and "accepted s' = accepted s \<or> accepted s' = accepted s @ [e] \<and> en_event_id e \<notin> event_ids (accepted s)"
proof -
  have "sink_ok s' \<and> (ack = Inr u \<longrightarrow> en_event_id e \<in> event_ids (accepted s')) \<and>
     (accepted s' = accepted s \<or> accepted s' = accepted s @ [e] \<and> en_event_id e \<notin> event_ids (accepted s))"
  proof (cases ack)
    case (Inl x)
    then show ?thesis using emit_rejects [of s e x s'] assms by simp
  next
    case (Inr v)
    then show ?thesis using emit_accepts [of s e v s'] assms by (simp split: if_splits)
  qed
  then show "sink_ok s'" and "ack = Inr u \<Longrightarrow> en_event_id e \<in> event_ids (accepted s')"
    and "accepted s' = accepted s \<or> accepted s' = accepted s @ [e] \<and> en_event_id e \<notin> event_ids (accepted s)"
    by simp_all
qed

lemma emit_distinct:
  assumes "sink_ok s" and "emit s e = (ack, s')" and "distinct (map en_event_id (accepted s))"
  shows "distinct (map en_event_id (accepted s'))"
  using emit_cases(3) [OF assms(1,2)] assms(3) by auto

end

section \<open>The in-memory sink\<close>

record sink =
  sk_capacity :: nat
  sk_events :: "(string \<times> event) list"
  sk_dropped :: nat

definition sink_new :: "int \<Rightarrow> sink result" where
  "sink_new capacity =
     (if capacity < 1 then Inl (ValueError ''invalid_event_capacity'')
      else Inr \<lparr>sk_capacity = nat capacity, sk_events = [], sk_dropped = 0\<rparr>)"

definition sink_emit :: "sink \<Rightarrow> event \<Rightarrow> unit result \<times> sink" where
  "sink_emit s e =
     (if map_of (sk_events s) (en_event_id e) \<noteq> None then (Inr (), s)
      else if length (sk_events s) \<ge> sk_capacity s then
        (Inl (RuntimeError ''event_sink_full''), s\<lparr>sk_dropped := sk_dropped s + 1\<rparr>)
      else (Inr (), s\<lparr>sk_events := dict_put (en_event_id e) e (sk_events s)\<rparr>))"

definition sink_events :: "sink \<Rightarrow> event list" where
  "sink_events s = map snd (sk_events s)"

definition events_for_trace :: "sink \<Rightarrow> string \<Rightarrow> event list" where
  "events_for_trace s trace = filter (\<lambda>e. en_trace_id e = trace) (map snd (sk_events s))"

definition sink_inv :: "sink \<Rightarrow> bool" where
  "sink_inv s \<longleftrightarrow> length (sk_events s) \<le> sk_capacity s \<and> distinct (map fst (sk_events s)) \<and>
     (\<forall>(k, e) \<in> set (sk_events s). en_event_id e = k)"

lemma dict_put_fresh: "map_of d k = None \<Longrightarrow> dict_put k v d = d @ [(k, v)]"
  by (induction k v d rule: dict_put.induct) (auto split: if_splits)

lemma sink_keys: "sink_inv s \<Longrightarrow> map en_event_id (sink_events s) = map fst (sk_events s)"
  by (auto simp: sink_inv_def sink_events_def)

lemma sink_known:
  "sink_inv s \<Longrightarrow> map_of (sk_events s) k \<noteq> None \<longleftrightarrow> k \<in> event_ids (sink_events s)"
  using sink_keys [of s] by (metis list.set_map map_of_eq_None_iff)

lemma sink_emit_fresh:
  assumes "sink_inv s" and "en_event_id e \<notin> event_ids (sink_events s)"
  shows "sink_emit s e =
    (if length (sk_events s) < sk_capacity s
     then (Inr (), s\<lparr>sk_events := sk_events s @ [(en_event_id e, e)]\<rparr>)
     else (Inl (RuntimeError ''event_sink_full''), s\<lparr>sk_dropped := sk_dropped s + 1\<rparr>))"
proof -
  have "map_of (sk_events s) (en_event_id e) = None" using sink_known [OF assms(1)] assms(2) by blast
  then show ?thesis by (simp add: sink_emit_def dict_put_fresh)
qed

lemma sink_emit_inv:
  assumes "sink_inv s"
  shows "sink_inv (snd (sink_emit s e))"
proof (cases "map_of (sk_events s) (en_event_id e)")
  case None
  then have "en_event_id e \<notin> fst ` set (sk_events s)" by (simp add: map_of_eq_None_iff)
  with None assms show ?thesis by (auto simp: sink_emit_def sink_inv_def dict_put_fresh)
qed (simp add: sink_emit_def assms)

interpretation memory_sink: event_sink sink_emit sink_events sink_inv
proof
  fix s :: sink and e u s'
  assume inv: "sink_inv s" and run: "sink_emit s e = (Inr u, s')"
  have "sink_inv s'" using sink_emit_inv [OF inv, of e] run by simp
  moreover have "sink_events s' =
      (if en_event_id e \<in> event_ids (sink_events s) then sink_events s else sink_events s @ [e])"
  proof (cases "en_event_id e \<in> event_ids (sink_events s)")
    case True
    then show ?thesis using run sink_known [OF inv] by (auto simp: sink_emit_def)
  next
    case False
    then show ?thesis
      using run sink_emit_fresh [OF inv False] by (auto simp: sink_events_def split: if_splits)
  qed
  ultimately show "sink_inv s' \<and> sink_events s' =
      (if en_event_id e \<in> event_ids (sink_events s) then sink_events s else sink_events s @ [e])" ..
next
  fix s :: sink and e x s'
  assume inv: "sink_inv s" and run: "sink_emit s e = (Inl x, s')"
  show "sink_inv s' \<and> sink_events s' = sink_events s"
    using sink_emit_inv [OF inv, of e] run by (auto simp: sink_emit_def sink_events_def split: if_splits)
qed

section \<open>Properties\<close>

text \<open>The in-memory sink is idempotent, bounded and honest: whatever is emitted to a fresh
  sink, it holds at most its capacity of events, each identifier once and in the order of
  acceptance; emitting an event that was acknowledged again changes nothing; and an event is
  refused only when the sink is full, which is counted.\<close>

theorem sink_contract:
  assumes "sink_new capacity = Inr s0" and "s = foldl (\<lambda>s e. snd (sink_emit s e)) s0 es"
  shows "length (sink_events s) \<le> nat capacity \<and> distinct (map en_event_id (sink_events s)) \<and>
    set (sink_events s) \<subseteq> set es \<and>
    (fst (sink_emit s e) = Inr () \<longrightarrow>
       sink_emit (snd (sink_emit s e)) e = (Inr (), snd (sink_emit s e))) \<and>
    (fst (sink_emit s e) \<noteq> Inr () \<longrightarrow>
       length (sink_events s) = nat capacity \<and> sk_dropped (snd (sink_emit s e)) = Suc (sk_dropped s))"
proof -
  have start: "sink_inv s0" "sk_capacity s0 = nat capacity" "sink_events s0 = []"
    using assms(1) by (auto simp: sink_new_def sink_inv_def sink_events_def split: if_splits)
  have "sink_inv (foldl (\<lambda>s e. snd (sink_emit s e)) s0 es) \<and>
      sk_capacity (foldl (\<lambda>s e. snd (sink_emit s e)) s0 es) = nat capacity \<and>
      set (sink_events (foldl (\<lambda>s e. snd (sink_emit s e)) s0 es)) \<subseteq> set es"
  proof (induction es rule: rev_induct)
    case (snoc e es)
    let ?s = "foldl (\<lambda>s e. snd (sink_emit s e)) s0 es"
    have "sk_capacity (snd (sink_emit ?s e)) = sk_capacity ?s"
      by (simp add: sink_emit_def)
    moreover have "set (sink_events (snd (sink_emit ?s e))) \<subseteq> insert e (set (sink_events ?s))"
      using memory_sink.emit_cases(3) [of ?s e "fst (sink_emit ?s e)" "snd (sink_emit ?s e)"] snoc.IH
      by auto
    ultimately show ?case using snoc.IH sink_emit_inv by auto
  qed (simp add: start)
  then have inv: "sink_inv s" and cap: "sk_capacity s = nat capacity" and sub: "set (sink_events s) \<subseteq> set es"
    using assms(2) by simp_all
  have bounded: "length (sink_events s) \<le> nat capacity"
    using inv cap by (simp add: sink_inv_def sink_events_def)
  have unique: "distinct (map en_event_id (sink_events s))"
    unfolding sink_keys [OF inv] using inv by (simp add: sink_inv_def)
  have again: "sink_emit (snd (sink_emit s e)) e = (Inr (), snd (sink_emit s e))"
    if "fst (sink_emit s e) = Inr ()"
  proof -
    have "en_event_id e \<in> event_ids (sink_events (snd (sink_emit s e)))"
      using memory_sink.emit_cases(2) [OF inv, of e "fst (sink_emit s e)" "snd (sink_emit s e)" "()"] that
      by (metis surjective_pairing)
    then show ?thesis
      using sink_known [OF sink_emit_inv [OF inv]] by (auto simp: sink_emit_def)
  qed
  have full: "length (sink_events s) = nat capacity \<and> sk_dropped (snd (sink_emit s e)) = Suc (sk_dropped s)"
    if "fst (sink_emit s e) \<noteq> Inr ()"
    using that bounded cap by (auto simp: sink_emit_def sink_events_def split: if_splits)
  show ?thesis using bounded unique sub again full by blast
qed

definition sample_event :: "string \<Rightarrow> event" where
  "sample_event i = \<lparr>en_event_id = i, en_event_type = InteractionStarted, en_occurred_at = 5,
     en_producer = Gateway, en_tenant_id = ''t1'', en_trace_id = ''trace'',
     en_schema_version = ''1.0'',
     en_data = StartedData \<lparr>st_interaction_id = ''i1'', st_application_id = ''app'',
       st_policy_version = ''p1''\<rparr>\<rparr>"

theorem sink_contract_witness:
  "\<exists>s0 s. sink_new 2 = Inr s0 \<and>
     s = foldl (\<lambda>s e. snd (sink_emit s e)) s0 (map sample_event [''a'', ''b'', ''a'']) \<and>
     length (sink_events s) = 2 \<and> distinct (map en_event_id (sink_events s))"
proof -
  let ?s0 = "\<lparr>sk_capacity = 2, sk_events = [], sk_dropped = 0\<rparr>"
  let ?es = "map sample_event [''a'', ''b'', ''a'']"
  have new: "sink_new 2 = Inr ?s0" by (simp add: sink_new_def)
  have "length (sink_events (foldl (\<lambda>s e. snd (sink_emit s e)) ?s0 ?es)) = 2"
    by (simp add: sink_emit_def sample_event_def sink_events_def)
  then show ?thesis using sink_contract [OF new refl, of ?es] new by blast
qed

end
