(* ===== verification/Outbox.thy ===== *)
theory Outbox
  imports Events
begin

text \<open>
  The transactional outbox: the SQLite table and its operations (\<open>storage/outbox.py\<close>) and the
  at-least-once dispatcher (\<open>events/outbox.py\<close>). The JSON codec of events is a parameter:
  \<open>dump\<close> writes an envelope of some type \<open>'e\<close>, \<open>load\<close> parses one or raises. Instants are
  compared as integers, as the UTC texts that \<open>timestamp\<close> writes are ordered. One iteration
  of \<open>dispatch_once\<close> is \<open>dispatch_row\<close>; the readings of the clock and of the random
  generator it makes are a record per iteration.
\<close>

section \<open>The table\<close>

datatype row_state = PendingRow | DeliveredRow | DeadRow

datatype row_error = SinkUnavailable | InvalidEvent

record 'e outbox_item =
  ot_event_id :: string
  ot_tenant_id :: string
  ot_trace_id :: string
  ot_interaction_id :: "string option"
  ot_event_type :: event_type
  ot_envelope :: 'e
  ot_attempts :: nat

record 'e outbox_row = "'e outbox_item" +
  ox_sequence :: nat
  ox_next_attempt_at :: instant
  ox_state :: row_state
  ox_last_error :: "row_error option"

record 'e outbox_db =
  ob_rows :: "'e outbox_row list"
  ob_in_transaction :: bool

record outbox_stats =
  os_pending :: nat
  os_dead :: nat
  os_lag_seconds :: flt

text \<open>\<open>interaction_key\<close>: the interaction an event belongs to.\<close>

fun interaction_key :: "event_data \<Rightarrow> string option" where
  "interaction_key (DeletionData d) =
     (if dr_scope d = InteractionScope then Some (dr_target_id d) else None)"
| "interaction_key (StartedData d) = Some (st_interaction_id d)"
| "interaction_key (RetrievalData d) = Some (rr_interaction_id d)"
| "interaction_key (RouteData d) = Some (rd_interaction_id d)"
| "interaction_key (AttemptData d) = Some (ga_interaction_id d)"
| "interaction_key (InteractionData d) = Some (ia_interaction_id d)"
| "interaction_key (FeedbackData d) = Some (fb_interaction_id d)"
| "interaction_key (DatasetData d) = None"
| "interaction_key (TrainingData d) = None"
| "interaction_key (EvaluationData d) = None"
| "interaction_key (DeploymentData d) = None"

definition optional_events :: "event_type list" where
  "optional_events = [InteractionStarted, RetrievalCompleted, RouteDecided]"

section \<open>Operations on the table\<close>

definition pending_rows :: "'e outbox_row list \<Rightarrow> 'e outbox_row list" where
  "pending_rows rs = filter (\<lambda>r. ox_state r = PendingRow) rs"

definition next_sequence :: "'e outbox_row list \<Rightarrow> nat" where
  "next_sequence rs = Suc (foldr (\<lambda>r m. max (ox_sequence r) m) rs 0)"

definition new_row :: "(event \<Rightarrow> 'e) \<Rightarrow> 'e outbox_row list \<Rightarrow> event \<Rightarrow> 'e outbox_row" where
  "new_row dump rs e =
     \<lparr>ot_event_id = en_event_id e, ot_tenant_id = en_tenant_id e, ot_trace_id = en_trace_id e,
      ot_interaction_id = interaction_key (en_data e), ot_event_type = en_event_type e,
      ot_envelope = dump e, ot_attempts = 0, ox_sequence = next_sequence rs,
      ox_next_attempt_at = en_occurred_at e, ox_state = PendingRow, ox_last_error = None\<rparr>"

text \<open>The loop of \<open>enqueue\<close>: the rows, the pending count and the number dropped so far.\<close>

fun enqueue_loop :: "(event \<Rightarrow> 'e) \<Rightarrow> nat \<Rightarrow> event list \<Rightarrow> 'e outbox_row list \<Rightarrow> nat \<Rightarrow> nat \<Rightarrow>
    'e outbox_row list \<times> nat" where
  "enqueue_loop dump limit [] rs n dropped = (rs, dropped)"
| "enqueue_loop dump limit (e # es) rs n dropped =
     (if list_ex (\<lambda>r. ot_event_id r = en_event_id e) rs then enqueue_loop dump limit es rs n dropped
      else if n \<ge> limit \<and> en_event_type e \<in> set optional_events
        then enqueue_loop dump limit es rs n (Suc dropped)
      else enqueue_loop dump limit es (rs @ [new_row dump rs e]) (Suc n) dropped)"

definition enqueue :: "(event \<Rightarrow> 'e) \<Rightarrow> 'e outbox_db \<Rightarrow> event list \<Rightarrow> nat \<Rightarrow> nat result \<times> 'e outbox_db" where
  "enqueue dump db es limit =
     (if \<not> ob_in_transaction db then (Inl (StorageError ''storage_transaction_required''), db)
      else let (rs, dropped) = enqueue_loop dump limit es (ob_rows db) (length (pending_rows (ob_rows db))) 0
           in (Inr dropped, db\<lparr>ob_rows := rs\<rparr>))"

text \<open>SQL equality: a null interaction is not equal to anything.\<close>

definition same_interaction :: "'e outbox_row \<Rightarrow> 'e outbox_row \<Rightarrow> bool" where
  "same_interaction r q = (ot_tenant_id r = ot_tenant_id q \<and> ot_interaction_id r \<noteq> None \<and>
     ot_interaction_id r = ot_interaction_id q)"

definition due :: "'e outbox_row list \<Rightarrow> instant \<Rightarrow> 'e outbox_row \<Rightarrow> bool" where
  "due rs t r = (ox_state r = PendingRow \<and> ox_next_attempt_at r \<le> t \<and>
     \<not> list_ex (\<lambda>q. same_interaction q r \<and> ox_state q = PendingRow \<and> ox_sequence q < ox_sequence r) rs)"

definition next_due :: "'e outbox_db \<Rightarrow> instant \<Rightarrow> 'e outbox_item option" where
  "next_due db t =
     map_option outbox_item.truncate
       (min_by (\<lambda>r. (ox_next_attempt_at r, ox_sequence r)) (filter (due (ob_rows db) t) (ob_rows db)))"

definition finish_row :: "string \<Rightarrow> row_state \<Rightarrow> nat \<Rightarrow> instant \<Rightarrow> row_error option \<Rightarrow>
    'e outbox_row \<Rightarrow> 'e outbox_row" where
  "finish_row i st n t err r =
     (if ot_event_id r = i \<and> ox_state r = PendingRow
      then r\<lparr>ot_attempts := n, ox_next_attempt_at := t, ox_state := st, ox_last_error := err\<rparr> else r)"

definition outbox_finish :: "'e outbox_db \<Rightarrow> string \<Rightarrow> row_state \<Rightarrow> nat \<Rightarrow> instant \<Rightarrow> row_error option \<Rightarrow>
    'e outbox_db" where
  "outbox_finish db i st n t err = db\<lparr>ob_rows := map (finish_row i st n t err) (ob_rows db)\<rparr>"

definition outbox_stats_at :: "'e outbox_db \<Rightarrow> instant \<Rightarrow> outbox_stats" where
  "outbox_stats_at db t =
     (let ps = pending_rows (ob_rows db)
      in \<lparr>os_pending = length ps, os_dead = length (filter (\<lambda>r. ox_state r = DeadRow) (ob_rows db)),
          os_lag_seconds = (case ps of [] \<Rightarrow> 0
             | r # _ \<Rightarrow> max 0 (of_int (t - foldr (\<lambda>q m. min (ox_next_attempt_at q) m) ps
                                              (ox_next_attempt_at r)) / 1000000))\<rparr>)"

definition dead_letters :: "'e outbox_db \<Rightarrow> string \<Rightarrow> (string \<times> event_type \<times> row_error option) list" where
  "dead_letters db tenant =
     map (\<lambda>r. (ot_event_id r, ot_event_type r, ox_last_error r))
       (sort_key ox_sequence
         (filter (\<lambda>r. ot_tenant_id r = tenant \<and> ox_state r = DeadRow) (ob_rows db)))"

definition redeliver :: "'e outbox_db \<Rightarrow> string \<Rightarrow> instant \<Rightarrow> bool \<times> 'e outbox_db" where
  "redeliver db i t =
     (let hit = (\<lambda>r. ot_event_id r = i \<and> ox_state r = DeadRow)
      in (length (filter hit (ob_rows db)) = 1,
          db\<lparr>ob_rows := map (\<lambda>r. if hit r
                then r\<lparr>ot_attempts := 0, ox_next_attempt_at := t, ox_state := PendingRow,
                       ox_last_error := None\<rparr> else r) (ob_rows db)\<rparr>))"

section \<open>Backoff\<close>

record backoff =
  bo_base :: flt
  bo_cap :: flt
  bo_max_attempts :: int

definition default_backoff :: backoff where
  "default_backoff = \<lparr>bo_base = 1 / 10, bo_cap = 30, bo_max_attempts = 8\<rparr>"

definition backoff_new :: "backoff \<Rightarrow> backoff result" where
  "backoff_new b = raise_first
     [(\<not> (0 < bo_base b \<and> bo_base b \<le> bo_cap b) \<or> bo_max_attempts b < 1, ''invalid_outbox_backoff'')] b"

definition delay :: "backoff \<Rightarrow> nat \<Rightarrow> flt \<Rightarrow> flt" where
  "delay b attempts jitter =
     min (bo_cap b) (bo_base b * 2 ^ min (attempts - 1) 30) * (1 / 2 + 1 / 2 * jitter)"

section \<open>The dispatcher\<close>

record reading =
  rd_claim :: instant
  rd_finish :: instant
  rd_jitter :: flt

datatype dispatch_metric = DeadLetter | OutboxRetried | OutboxDelivered

definition load_item :: "('e \<Rightarrow> event result) \<Rightarrow> 'e outbox_item \<Rightarrow> event option" where
  "load_item load it =
     (case load (ot_envelope it) of
        Inl _ \<Rightarrow> None
      | Inr e \<Rightarrow>
          if en_event_id e \<noteq> ot_event_id it \<or> en_tenant_id e \<noteq> ot_tenant_id it \<or>
             en_trace_id e \<noteq> ot_trace_id it \<or> en_event_type e \<noteq> ot_event_type it \<or>
             interaction_key (en_data e) \<noteq> ot_interaction_id it
          then None else Some e)"

text \<open>What one claimed row becomes: its new state, when it is due again, its error and what is
  counted. An exception that \<open>except Exception\<close> does not catch leaves the loop.\<close>

definition outcome_of :: "backoff \<Rightarrow> reading \<Rightarrow> nat \<Rightarrow> unit result \<Rightarrow>
    row_state \<times> instant \<times> row_error option \<times> dispatch_metric" where
  "outcome_of b rd n acknowledged =
     (case acknowledged of
        Inr _ \<Rightarrow> (DeliveredRow, rd_finish rd, None, OutboxDelivered)
      | Inl _ \<Rightarrow>
          if int n \<ge> bo_max_attempts b then (DeadRow, rd_finish rd, Some SinkUnavailable, DeadLetter)
          else (PendingRow, rd_finish rd + seconds (delay b n (rd_jitter rd)), Some SinkUnavailable,
                OutboxRetried))"

definition dispatch_row ::
    "('w \<Rightarrow> instant \<Rightarrow> 'e outbox_item option) \<Rightarrow>
     ('w \<Rightarrow> string \<Rightarrow> row_state \<Rightarrow> nat \<Rightarrow> instant \<Rightarrow> row_error option \<Rightarrow> 'w) \<Rightarrow>
     ('s \<Rightarrow> event \<Rightarrow> unit result \<times> 's) \<Rightarrow> ('e \<Rightarrow> event result) \<Rightarrow> backoff \<Rightarrow> reading \<Rightarrow>
     'w \<times> 's \<times> dispatch_metric list \<Rightarrow> (bool result) \<times> 'w \<times> 's \<times> dispatch_metric list" where
  "dispatch_row claim finish emit load b rd world =
     (let (w, s, ms) = world in
      case claim w (rd_claim rd) of
        None \<Rightarrow> (Inr False, w, s, ms)
      | Some it \<Rightarrow>
          let n = ot_attempts it + 1 in
          case load_item load it of
            None \<Rightarrow>
              (Inr True, finish w (ot_event_id it) DeadRow n (rd_finish rd) (Some InvalidEvent), s,
               ms @ [DeadLetter])
          | Some e \<Rightarrow>
              let (ack, s') = emit s e in
              if \<not> is_ok ack \<and> \<not> (case ack of Inl x \<Rightarrow> is_exception x | Inr _ \<Rightarrow> True)
              then (Inl (case ack of Inl x \<Rightarrow> x | Inr _ \<Rightarrow> OtherException), w, s', ms)
              else let (st, t, err, m) = outcome_of b rd n ack
                   in (Inr True, finish w (ot_event_id it) st n t err, s', ms @ [m]))"

fun dispatch_loop ::
    "('w \<Rightarrow> instant \<Rightarrow> 'e outbox_item option) \<Rightarrow>
     ('w \<Rightarrow> string \<Rightarrow> row_state \<Rightarrow> nat \<Rightarrow> instant \<Rightarrow> row_error option \<Rightarrow> 'w) \<Rightarrow>
     ('s \<Rightarrow> event \<Rightarrow> unit result \<times> 's) \<Rightarrow> ('e \<Rightarrow> event result) \<Rightarrow> backoff \<Rightarrow> (nat \<Rightarrow> reading) \<Rightarrow>
     nat \<Rightarrow> nat \<Rightarrow> 'w \<times> 's \<times> dispatch_metric list \<Rightarrow>
     nat result \<times> 'w \<times> 's \<times> dispatch_metric list" where
  "dispatch_loop claim finish emit load b rds 0 processed world = (Inr processed, world)"
| "dispatch_loop claim finish emit load b rds (Suc limit) processed world =
     (case dispatch_row claim finish emit load b (rds processed) world of
        (Inl x, world') \<Rightarrow> (Inl x, world')
      | (Inr False, world') \<Rightarrow> (Inr processed, world')
      | (Inr True, world') \<Rightarrow>
          dispatch_loop claim finish emit load b rds limit (Suc processed) world')"

text \<open>\<open>dispatch_once\<close>: the loop, then the gauges of the store.\<close>

definition dispatch_once ::
    "('w \<Rightarrow> instant \<Rightarrow> 'e outbox_item option) \<Rightarrow>
     ('w \<Rightarrow> string \<Rightarrow> row_state \<Rightarrow> nat \<Rightarrow> instant \<Rightarrow> row_error option \<Rightarrow> 'w) \<Rightarrow>
     ('w \<Rightarrow> instant \<Rightarrow> outbox_stats) \<Rightarrow>
     ('s \<Rightarrow> event \<Rightarrow> unit result \<times> 's) \<Rightarrow> ('e \<Rightarrow> event result) \<Rightarrow> backoff \<Rightarrow> (nat \<Rightarrow> reading) \<Rightarrow>
     instant \<Rightarrow> nat \<Rightarrow> 'w \<times> 's \<times> dispatch_metric list \<Rightarrow>
     (nat \<times> outbox_stats) result \<times> 'w \<times> 's \<times> dispatch_metric list" where
  "dispatch_once claim finish stats emit load b rds refresh_at limit world =
     (case dispatch_loop claim finish emit load b rds limit 0 world of
        (Inl x, world') \<Rightarrow> (Inl x, world')
      | (Inr n, (w, rest)) \<Rightarrow> (Inr (n, stats w refresh_at), (w, rest)))"

section \<open>The contract of a store and the dispatcher over it\<close>

locale outbox_store =
  fixes claim :: "'w \<Rightarrow> instant \<Rightarrow> 'e outbox_item option"
    and finish :: "'w \<Rightarrow> string \<Rightarrow> row_state \<Rightarrow> nat \<Rightarrow> instant \<Rightarrow> row_error option \<Rightarrow> 'w"
    and rows :: "'w \<Rightarrow> 'e outbox_row list"
  assumes claim_due: "claim w t = Some it \<Longrightarrow>
      \<exists>r \<in> set (rows w). due (rows w) t r \<and> outbox_item.truncate r = it"
    and claim_none: "claim w t = None \<Longrightarrow> r \<in> set (rows w) \<Longrightarrow> \<not> due (rows w) t r"
    and finish_rows: "rows (finish w i st n t err) = map (finish_row i st n t err) (rows w)"

text \<open>
  What a run may do to the table: nothing appears or disappears, identities and positions stay,
  and a row that has left \<open>pending\<close> is never touched again. \<open>delivered_ok\<close> is the
  at-least-once promise, \<open>attempts_ok\<close> the retry bound.
\<close>

definition same_row :: "'e outbox_row \<Rightarrow> 'e outbox_row \<Rightarrow> bool" where
  "same_row r q \<longleftrightarrow> ot_event_id q = ot_event_id r \<and> ox_sequence q = ox_sequence r \<and>
     ot_tenant_id q = ot_tenant_id r \<and> ot_envelope q = ot_envelope r \<and>
     ot_attempts r \<le> ot_attempts q \<and> (ox_state r \<noteq> PendingRow \<longrightarrow> q = r)"

definition delivered_ok :: "'e outbox_row list \<Rightarrow> event list \<Rightarrow> bool" where
  "delivered_ok rs es \<longleftrightarrow>
     (\<forall>r \<in> set rs. ox_state r = DeliveredRow \<longrightarrow> ot_event_id r \<in> event_ids es)"

definition attempts_ok :: "backoff \<Rightarrow> 'e outbox_row list \<Rightarrow> bool" where
  "attempts_ok b rs \<longleftrightarrow>
     (\<forall>r \<in> set rs. int (ot_attempts r) \<le> bo_max_attempts b \<and>
        (ox_state r = PendingRow \<longrightarrow> int (ot_attempts r) < bo_max_attempts b))"

lemma same_row_refl [simp]: "same_row r r"
  by (simp add: same_row_def)

lemma same_row_trans: "same_row r q \<Longrightarrow> same_row q p \<Longrightarrow> same_row r p"
  by (auto simp: same_row_def)

lemma same_rows_trans: "list_all2 same_row rs qs \<Longrightarrow> list_all2 same_row qs ps \<Longrightarrow> list_all2 same_row rs ps"
  by (rule list_all2_trans [where ?P1.0 = same_row and ?P2.0 = same_row]) (auto intro: same_row_trans)

lemma delivered_ok_mono: "delivered_ok rs es \<Longrightarrow> set es \<subseteq> set es' \<Longrightarrow> delivered_ok rs es'"
  by (auto simp: delivered_ok_def)

lemma item_fields [simp]:
  "ot_event_id (outbox_item.truncate r) = ot_event_id r"
  "ot_attempts (outbox_item.truncate r) = ot_attempts r"
  "ot_envelope (outbox_item.truncate r) = ot_envelope r"
  by (simp_all add: outbox_item.truncate_def)

lemma finish_row_fields [simp]:
  "ot_event_id (finish_row i st n t err r) = ot_event_id r"
  "ox_sequence (finish_row i st n t err r) = ox_sequence r"
  by (simp_all add: finish_row_def)

text \<open>A table whose events are distinct: the row that was claimed is the only one that changes.\<close>

lemma finish_rows_step:
  assumes "distinct (map ot_event_id rs)" and "r \<in> set rs" and "ox_state r = PendingRow"
    and "q \<in> set rs"
  shows "finish_row (ot_event_id r) st n t err q =
    (if q = r then r\<lparr>ot_attempts := n, ox_next_attempt_at := t, ox_state := st, ox_last_error := err\<rparr>
     else q)"
  using assms by (auto simp: finish_row_def distinct_map inj_on_def)

lemma finish_rows_same:
  assumes "distinct (map ot_event_id rs)" and "r \<in> set rs" and "ox_state r = PendingRow"
    and "ot_attempts r \<le> n"
  shows "list_all2 same_row rs (map (finish_row (ot_event_id r) st n t err) rs)"
  unfolding list_all2_map2
proof (rule list_all2_same [THEN iffD2], rule)
  fix q assume "q \<in> set rs"
  then show "same_row q (finish_row (ot_event_id r) st n t err q)"
    using finish_rows_step [OF assms(1-3)] assms(3,4) by (simp add: same_row_def)
qed

lemma finish_rows_pending:
  assumes "distinct (map ot_event_id rs)" and "r \<in> set rs" and "ox_state r = PendingRow"
    and "st \<noteq> PendingRow"
  shows "Suc (length (pending_rows (map (finish_row (ot_event_id r) st n t err) rs))) =
    length (pending_rows rs)"
proof -
  let ?f = "finish_row (ot_event_id r) st n t err"
  have "filter (\<lambda>q. ox_state q = PendingRow) (map ?f rs) =
      map ?f (filter (\<lambda>q. ox_state (?f q) = PendingRow) rs)"
    by (simp add: filter_map comp_def)
  also have "filter (\<lambda>q. ox_state (?f q) = PendingRow) rs = filter (\<lambda>q. q \<noteq> r) (pending_rows rs)"
    unfolding pending_rows_def filter_filter
    using finish_rows_step [OF assms(1-3)] assms(4) by (intro filter_cong) auto
  also have "\<dots> = remove1 r (pending_rows rs)"
  proof -
    have "distinct (pending_rows rs)" using assms(1) by (simp add: pending_rows_def distinct_map)
    then show ?thesis
      by (simp add: distinct_remove1_removeAll removeAll_filter_not_eq) (rule filter_cong, auto)
  qed
  finally have "length (pending_rows (map ?f rs)) = length (remove1 r (pending_rows rs))"
    by (simp add: pending_rows_def)
  moreover have "r \<in> set (pending_rows rs)" using assms(2,3) by (simp add: pending_rows_def)
  moreover from this have "0 < length (pending_rows rs)" by (rule length_pos_if_in_set)
  ultimately show ?thesis by (simp add: length_remove1)
qed

locale dispatcher =
  event_sink emit accepted sink_ok + outbox_store claim finish rows
  for emit :: "'s \<Rightarrow> event \<Rightarrow> unit result \<times> 's"
    and accepted :: "'s \<Rightarrow> event list"
    and sink_ok :: "'s \<Rightarrow> bool"
    and claim :: "'w \<Rightarrow> instant \<Rightarrow> 'e outbox_item option"
    and finish :: "'w \<Rightarrow> string \<Rightarrow> row_state \<Rightarrow> nat \<Rightarrow> instant \<Rightarrow> row_error option \<Rightarrow> 'w"
    and rows :: "'w \<Rightarrow> 'e outbox_row list" +
  fixes load :: "'e \<Rightarrow> event result"
    and b :: backoff
begin

text \<open>The two ways an iteration ends: without a row, or with one row finished.\<close>

lemma dispatch_row_cases:
  assumes "dispatch_row claim finish emit load b rd (w, s, ms) = (res, w', s', ms')"
    and "sink_ok s"
  obtains (stopped) "w' = w" "sink_ok s'" "set (accepted s) \<subseteq> set (accepted s')" "res \<noteq> Inr True"
  | (finished) r st t err where "r \<in> set (rows w)" "due (rows w) (rd_claim rd) r" "res = Inr True"
      "w' = finish w (ot_event_id r) st (ot_attempts r + 1) t err" "sink_ok s'"
      "set (accepted s) \<subseteq> set (accepted s')"
      "st = DeliveredRow \<Longrightarrow> ot_event_id r \<in> event_ids (accepted s')"
      "st = PendingRow \<Longrightarrow> int (ot_attempts r + 1) < bo_max_attempts b"
      "st = PendingRow \<Longrightarrow> \<exists>e. \<not> is_ok (fst (emit s e))"
proof (cases "claim w (rd_claim rd)")
  case None
  then show ?thesis using assms stopped by (auto simp: dispatch_row_def)
next
  case (Some it)
  from claim_due [OF this] obtain r where r: "r \<in> set (rows w)" "due (rows w) (rd_claim rd) r"
    and it: "it = outbox_item.truncate r" by auto
  show ?thesis
  proof (cases "load_item load it")
    case None
    then show ?thesis
      using assms Some r finished [of r DeadRow "rd_finish rd" "Some InvalidEvent"]
      by (auto simp: dispatch_row_def Let_def it)
  next
    case ev: (Some e)
    then have ident: "en_event_id e = ot_event_id r"
      by (auto simp: load_item_def it split: sum.splits if_splits)
    obtain ack s1 where em: "emit s e = (ack, s1)" by (cases "emit s e")
    note sink = emit_cases [OF assms(2) em]
    have grow: "set (accepted s) \<subseteq> set (accepted s1)" using sink(3) by auto
    show ?thesis
    proof (cases "\<not> is_ok ack \<and> \<not> (case ack of Inl x \<Rightarrow> is_exception x | Inr _ \<Rightarrow> True)")
      case True
      then show ?thesis
        using assms(1) Some ev em sink(1) grow stopped by (auto simp: dispatch_row_def Let_def)
    next
      case False
      obtain st t err m where oc: "outcome_of b rd (ot_attempts r + 1) ack = (st, t, err, m)"
        by (cases "outcome_of b rd (ot_attempts r + 1) ack")
      have "res = Inr True" "w' = finish w (ot_event_id r) st (ot_attempts r + 1) t err" "s' = s1"
        using assms(1) Some ev em False oc by (auto simp: dispatch_row_def Let_def it)
      moreover have "st = DeliveredRow \<Longrightarrow> en_event_id e \<in> event_ids (accepted s1)"
        using oc sink(2) [of "()"] by (auto simp: outcome_of_def split: sum.splits if_splits)
      moreover have "st = PendingRow \<Longrightarrow> int (ot_attempts r + 1) < bo_max_attempts b \<and> \<not> is_ok ack"
        using oc by (auto simp: outcome_of_def split: sum.splits if_splits)
      moreover have "st = PendingRow \<Longrightarrow> \<exists>e. \<not> is_ok (fst (emit s e))"
        using calculation(5) em by (intro exI [of _ e]) simp
      ultimately show ?thesis
        using finished [of r st t err] r sink(1) grow ident by auto
    qed
  qed
qed

text \<open>Every iteration keeps the promise, the retry bound and the identity of the rows.\<close>

definition world_ok :: "'w \<Rightarrow> 's \<Rightarrow> bool" where
  "world_ok w s \<longleftrightarrow> sink_ok s \<and> distinct (map ot_event_id (rows w)) \<and>
     delivered_ok (rows w) (accepted s) \<and> attempts_ok b (rows w)"

lemma dispatch_row_ok:
  assumes "dispatch_row claim finish emit load b rd (w, s, ms) = (res, w', s', ms')"
    and "world_ok w s"
  shows "world_ok w' s' \<and> list_all2 same_row (rows w) (rows w')"
proof -
  have ok: "sink_ok s" "distinct (map ot_event_id (rows w))" "delivered_ok (rows w) (accepted s)"
      "attempts_ok b (rows w)"
    using assms(2) by (simp_all add: world_ok_def)
  show ?thesis
    using assms(1) ok(1)
  proof (cases rule: dispatch_row_cases)
    case stopped
    then show ?thesis
      using ok delivered_ok_mono by (auto simp: world_ok_def list_all2_refl)
  next
    case (finished r st t err)
    let ?n = "ot_attempts r + 1"
    have pend: "ox_state r = PendingRow" using finished(2) by (simp add: due_def)
    note step = finish_rows_step [OF ok(2) finished(1) pend, of _ st ?n t err]
    have rows': "rows w' = map (finish_row (ot_event_id r) st ?n t err) (rows w)"
      using finished(4) by (simp add: finish_rows)
    have "list_all2 same_row (rows w) (rows w')"
      unfolding rows' by (rule finish_rows_same [OF ok(2) finished(1) pend]) simp
    moreover have "distinct (map ot_event_id (rows w'))"
      using ok(2) unfolding rows' by (simp add: comp_def)
    moreover have "delivered_ok (rows w') (accepted s')"
      unfolding delivered_ok_def rows'
      using step ok(3) image_mono [OF finished(6), of en_event_id] finished(7)
      by (auto simp: delivered_ok_def)
    moreover have "attempts_ok b (rows w')"
      unfolding attempts_ok_def rows'
      using step ok(4) finished(1,8) pend by (fastforce simp: attempts_ok_def)
    ultimately show ?thesis using finished(5) by (simp add: world_ok_def)
  qed
qed

lemma dispatch_loop_ok:
  assumes "dispatch_loop claim finish emit load b rds limit n (w, s, ms) = (res, w', s', ms')"
    and "world_ok w s"
  shows "world_ok w' s' \<and> list_all2 same_row (rows w) (rows w')"
  using assms
proof (induction limit arbitrary: n w s ms)
  case 0
  then show ?case by (simp add: list_all2_refl)
next
  case (Suc limit)
  obtain r w1 s1 ms1 where row: "dispatch_row claim finish emit load b (rds n) (w, s, ms) = (r, w1, s1, ms1)"
    by (cases "dispatch_row claim finish emit load b (rds n) (w, s, ms)")
  note ok1 = dispatch_row_ok [OF row Suc.prems(2)]
  show ?case
  proof (cases "r = Inr True")
    case True
    then have "dispatch_loop claim finish emit load b rds limit (Suc n) (w1, s1, ms1) = (res, w', s', ms')"
      using Suc.prems(1) row by simp
    with Suc.IH ok1 show ?thesis by (blast intro: same_rows_trans)
  next
    case False
    then have "w' = w1 \<and> s' = s1"
      using Suc.prems(1) row by (auto split: sum.splits bool.splits)
    then show ?thesis using ok1 by simp
  qed
qed

text \<open>When every pending row is due, one of them can be claimed: the earliest.\<close>

lemma claim_progress:
  assumes "\<forall>r \<in> set (pending_rows (rows w)). ox_next_attempt_at r \<le> t" and "pending_rows (rows w) \<noteq> []"
  shows "claim w t \<noteq> None"
proof
  assume none: "claim w t = None"
  obtain r where r: "min_by ox_sequence (pending_rows (rows w)) = Some r"
    using assms(2) by (cases "min_by ox_sequence (pending_rows (rows w))") (simp_all add: min_by_None_iff)
  then have "r \<in> set (pending_rows (rows w))"
    and least: "\<forall>q \<in> set (pending_rows (rows w)). ox_sequence r \<le> ox_sequence q"
    using min_by_Some [OF r] by simp_all
  then have "r \<in> set (rows w)" "due (rows w) t r"
    using assms(1) by (simp_all add: due_def pending_rows_def list_ex_iff not_less)
  then show False using claim_none [OF none] by blast
qed

lemma dispatch_loop_drains:
  assumes "world_ok w s" and "\<And>s e. is_ok (fst (emit s e))"
    and "\<And>i r. r \<in> set (pending_rows (rows w)) \<Longrightarrow> ox_next_attempt_at r \<le> rd_claim (rds i)"
    and "length (pending_rows (rows w)) \<le> limit"
  shows "\<exists>w' s' ms'. dispatch_loop claim finish emit load b rds limit n (w, s, ms) =
      (Inr (n + length (pending_rows (rows w))), w', s', ms') \<and> pending_rows (rows w') = []"
  using assms(1,3,4)
proof (induction limit arbitrary: n w s ms)
  case 0
  then show ?case by simp
next
  case (Suc limit)
  obtain r w1 s1 ms1 where row: "dispatch_row claim finish emit load b (rds n) (w, s, ms) = (r, w1, s1, ms1)"
    by (cases "dispatch_row claim finish emit load b (rds n) (w, s, ms)")
  have ok: "sink_ok s" "distinct (map ot_event_id (rows w))" using Suc.prems(1) by (simp_all add: world_ok_def)
  show ?case
  proof (cases "pending_rows (rows w) = []")
    case True
    then have "claim w (rd_claim (rds n)) = None"
      using claim_due [of w "rd_claim (rds n)"]
      by (cases "claim w (rd_claim (rds n))") (auto simp: due_def pending_rows_def filter_empty_conv)
    with True show ?thesis by (auto simp: dispatch_row_def)
  next
    case False
    then obtain it where it: "claim w (rd_claim (rds n)) = Some it"
      using claim_progress Suc.prems(2) by blast
    have "r = Inr True"
    proof (cases "load_item load it")
      case None
      then show ?thesis using row it by (simp add: dispatch_row_def Let_def)
    next
      case (Some e)
      obtain ack s2 where em: "emit s e = (ack, s2)" by (cases "emit s e")
      then have "is_ok ack" using assms(2) [of s e] by simp
      then show ?thesis
        using row it Some em by (simp add: dispatch_row_def Let_def split: prod.splits)
    qed
    show ?thesis
      using row ok(1)
    proof (cases rule: dispatch_row_cases)
      case stopped
      with \<open>r = Inr True\<close> show ?thesis by simp
    next
      case (finished q st t err)
      have pend: "ox_state q = PendingRow" using finished(2) by (simp add: due_def)
      have st: "st \<noteq> PendingRow" using finished(9) assms(2) by blast
      have rows1: "rows w1 = map (finish_row (ot_event_id q) st (ot_attempts q + 1) t err) (rows w)"
        using finished(4) by (simp add: finish_rows)
      have fewer: "Suc (length (pending_rows (rows w1))) = length (pending_rows (rows w))"
        unfolding rows1 by (rule finish_rows_pending [OF ok(2) finished(1) pend st])
      have "x \<in> set (pending_rows (rows w))" if "x \<in> set (pending_rows (rows w1))" for x
        using that st unfolding rows1 by (auto simp: pending_rows_def finish_row_def split: if_splits)
      then have "\<And>i r. r \<in> set (pending_rows (rows w1)) \<Longrightarrow> ox_next_attempt_at r \<le> rd_claim (rds i)"
        using Suc.prems(2) by blast
      moreover have "world_ok w1 s1" using dispatch_row_ok [OF row Suc.prems(1)] by simp
      moreover have "length (pending_rows (rows w1)) \<le> limit" using fewer Suc.prems(3) by simp
      ultimately obtain w' s' ms' where
          "dispatch_loop claim finish emit load b rds limit (Suc n) (w1, s1, ms1) =
             (Inr (Suc n + length (pending_rows (rows w1))), w', s', ms')"
          "pending_rows (rows w') = []"
        using Suc.IH by blast
      then show ?thesis using row \<open>r = Inr True\<close> fewer [symmetric] by auto
    qed
  qed
qed

end

section \<open>The SQLite store provides the contract\<close>

lemma min_by_due:
  assumes "min_by (\<lambda>r. (ox_next_attempt_at r, ox_sequence r)) (filter (due rs t) rs) = Some r"
  shows "r \<in> set rs" and "due rs t r"
    and "q \<in> set rs \<Longrightarrow> due rs t q \<Longrightarrow>
      (ox_next_attempt_at r, ox_sequence r) \<le> (ox_next_attempt_at q, ox_sequence q)"
  using min_by_Some [OF assms] by simp_all

interpretation sqlite_outbox: outbox_store next_due outbox_finish ob_rows
proof
  fix db :: "'e outbox_db" and t it
  assume "next_due db t = Some it"
  then obtain r where r: "min_by (\<lambda>r. (ox_next_attempt_at r, ox_sequence r))
      (filter (due (ob_rows db) t) (ob_rows db)) = Some r" and it: "it = outbox_item.truncate r"
    by (auto simp: next_due_def)
  show "\<exists>r \<in> set (ob_rows db). due (ob_rows db) t r \<and> outbox_item.truncate r = it"
    using min_by_due(1,2) [OF r] it by blast
next
  fix db :: "'e outbox_db" and t r
  assume "next_due db t = None" and "r \<in> set (ob_rows db)"
  then show "\<not> due (ob_rows db) t r"
    by (simp add: next_due_def min_by_None_iff filter_empty_conv)
qed (simp add: outbox_finish_def)

interpretation memory_dispatcher:
    dispatcher sink_emit sink_events sink_inv next_due outbox_finish ob_rows load b for load b
  by unfold_locales

section \<open>Properties\<close>

text \<open>C15. At-least-once delivery: starting from a table of distinct events in which every
  delivered row has been accepted by the sink, a run of the dispatcher over the SQLite store and
  the in-memory sink loses, invents and renames no row, never touches a row that is delivered or
  dead, marks a row delivered only when the sink holds its event, and gives up on a row after at
  most the configured number of attempts.\<close>

theorem outbox_at_least_once:
  assumes "dispatch_loop next_due outbox_finish sink_emit load b rds limit 0 (db, s, ms) = (res, db', s', ms')"
    and "sink_inv s" and "distinct (map ot_event_id (ob_rows db))"
    and "delivered_ok (ob_rows db) (sink_events s)" and "attempts_ok b (ob_rows db)"
  shows "list_all2 same_row (ob_rows db) (ob_rows db') \<and>
    delivered_ok (ob_rows db') (sink_events s') \<and> attempts_ok b (ob_rows db') \<and> sink_inv s'"
proof -
  have "memory_dispatcher.world_ok b db s"
    using assms(2-5) by (simp add: memory_dispatcher.world_ok_def)
  from memory_dispatcher.dispatch_loop_ok [OF assms(1) this] show ?thesis
    by (simp add: memory_dispatcher.world_ok_def)
qed

definition queued :: "event outbox_db" where
  "queued = snd (enqueue (\<lambda>e. e) \<lparr>ob_rows = [], ob_in_transaction = True\<rparr>
     [sample_event ''a'', sample_event ''b''] 10)"

definition fresh_sink :: sink where
  "fresh_sink = \<lparr>sk_capacity = 1, sk_events = [], sk_dropped = 0\<rparr>"

definition clock_at :: "instant \<Rightarrow> nat \<Rightarrow> reading" where
  "clock_at t i = \<lparr>rd_claim = t, rd_finish = t, rd_jitter = 0\<rparr>"

lemma queued_rows: "map ot_event_id (ob_rows queued) = [''a'', ''b'']"
    "\<forall>r \<in> set (ob_rows queued). ox_state r = PendingRow \<and> ot_attempts r = 0 \<and> ox_next_attempt_at r = 5"
  by (simp_all add: queued_def enqueue_def new_row_def next_sequence_def pending_rows_def
      optional_events_def sample_event_def)

theorem outbox_at_least_once_witness:
  "\<exists>res db' s' ms'.
     dispatch_loop next_due outbox_finish sink_emit Inr default_backoff (clock_at 9) 2 0
       (queued, fresh_sink, []) = (res, db', s', ms') \<and>
     list_all2 same_row (ob_rows queued) (ob_rows db') \<and> delivered_ok (ob_rows db') (sink_events s')"
proof -
  obtain res db' s' ms' where run:
      "dispatch_loop next_due outbox_finish sink_emit Inr default_backoff (clock_at 9) 2 0
         (queued, fresh_sink, []) = (res, db', s', ms')"
    by (metis prod_cases4)
  have "sink_inv fresh_sink" by (simp add: sink_inv_def fresh_sink_def)
  moreover have "distinct (map ot_event_id (ob_rows queued))" by (simp add: queued_rows)
  moreover have "delivered_ok (ob_rows queued) (sink_events fresh_sink)"
    using queued_rows(2) by (auto simp: delivered_ok_def)
  moreover have "attempts_ok default_backoff (ob_rows queued)"
    using queued_rows(2) by (auto simp: attempts_ok_def default_backoff_def)
  ultimately show ?thesis using outbox_at_least_once [OF run] run by blast
qed

text \<open>The dispatcher drains the outbox: when every pending row is due and the sink accepts
  what it is given, one call with a limit of at least the number of pending rows processes
  exactly that many rows and leaves none pending; a row whose envelope cannot be read does not
  block the others.\<close>

theorem dispatch_drains:
  assumes "event_sink emit accepted ok" and "ok s" and "\<And>s e. is_ok (fst (emit s e))"
    and "distinct (map ot_event_id (ob_rows db))" and "delivered_ok (ob_rows db) (accepted s)"
    and "attempts_ok b (ob_rows db)"
    and "\<And>i r. r \<in> set (pending_rows (ob_rows db)) \<Longrightarrow> ox_next_attempt_at r \<le> rd_claim (rds i)"
    and "length (pending_rows (ob_rows db)) \<le> limit"
  shows "\<exists>db' s' ms'. dispatch_loop next_due outbox_finish emit load b rds limit 0 (db, s, ms) =
      (Inr (length (pending_rows (ob_rows db))), db', s', ms') \<and> pending_rows (ob_rows db') = []"
proof -
  have d: "dispatcher emit accepted ok next_due outbox_finish ob_rows"
    by (intro dispatcher.intro assms(1) sqlite_outbox.outbox_store_axioms)
  have "dispatcher.world_ok accepted ok ob_rows b db s"
    unfolding dispatcher.world_ok_def [OF d] using assms(2,4-6) by simp
  from dispatcher.dispatch_loop_drains [OF d this assms(3,7,8), where i2 = "\<lambda>i. i" and load = load and n = 0]
  show ?thesis by simp
qed

definition list_sink :: "event list \<Rightarrow> event \<Rightarrow> unit result \<times> event list" where
  "list_sink s e = (Inr (), if en_event_id e \<in> event_ids s then s else s @ [e])"

lemma list_sink: "event_sink list_sink (\<lambda>s. s) (\<lambda>s. True)"
  by unfold_locales (auto simp: list_sink_def)

theorem dispatch_drains_witness:
  "\<exists>db' s' ms'. dispatch_loop next_due outbox_finish list_sink Inr default_backoff (clock_at 9) 5 0
      (queued, [], []) = (Inr 2, db', s', ms') \<and> pending_rows (ob_rows db') = []"
proof -
  have two: "length (ob_rows queued) = 2" using queued_rows(1) by (metis length_Cons length_map list.size(3) numeral_2_eq_2)
  have all: "pending_rows (ob_rows queued) = ob_rows queued"
    using queued_rows(2) by (simp add: pending_rows_def)
  have "\<exists>db' s' ms'. dispatch_loop next_due outbox_finish list_sink Inr default_backoff (clock_at 9) 5 0
      (queued, [], []) = (Inr (length (pending_rows (ob_rows queued))), db', s', ms') \<and>
      pending_rows (ob_rows db') = []"
  proof (rule dispatch_drains [OF list_sink])
    show "distinct (map ot_event_id (ob_rows queued))" by (simp add: queued_rows)
    show "delivered_ok (ob_rows queued) []" using queued_rows(2) by (auto simp: delivered_ok_def)
    show "attempts_ok default_backoff (ob_rows queued)"
      using queued_rows(2) by (auto simp: attempts_ok_def default_backoff_def)
    show "\<And>i r. r \<in> set (pending_rows (ob_rows queued)) \<Longrightarrow> ox_next_attempt_at r \<le> rd_claim (clock_at 9 i)"
      using queued_rows(2) by (simp add: all clock_at_def)
  qed (simp_all add: list_sink_def all two)
  then show ?thesis by (simp add: all two)
qed

text \<open>Events of one interaction are handled in order: the row an iteration works on is due,
  no earlier row of the same interaction is still pending, no due row comes before it, and no
  other row is touched.\<close>

theorem dispatch_order:
  assumes "dispatch_row next_due outbox_finish emit load b rd (db, s, ms) = (Inr True, db', s', ms')"
  shows "\<exists>r \<in> set (ob_rows db). \<exists>st n t err.
    ox_state r = PendingRow \<and> ox_next_attempt_at r \<le> rd_claim rd \<and>
    (\<forall>q \<in> set (ob_rows db). same_interaction q r \<and> ox_sequence q < ox_sequence r \<longrightarrow>
       ox_state q \<noteq> PendingRow) \<and>
    (\<forall>q \<in> set (ob_rows db). due (ob_rows db) (rd_claim rd) q \<longrightarrow>
       (ox_next_attempt_at r, ox_sequence r) \<le> (ox_next_attempt_at q, ox_sequence q)) \<and>
    ob_rows db' = map (finish_row (ot_event_id r) st n t err) (ob_rows db)"
proof -
  obtain it where it: "next_due db (rd_claim rd) = Some it"
    using assms by (cases "next_due db (rd_claim rd)") (simp_all add: dispatch_row_def)
  then obtain r where r: "min_by (\<lambda>r. (ox_next_attempt_at r, ox_sequence r))
      (filter (due (ob_rows db) (rd_claim rd)) (ob_rows db)) = Some r"
    and eq: "it = outbox_item.truncate r"
    by (auto simp: next_due_def)
  have "\<exists>st n t err. db' = outbox_finish db (ot_event_id r) st n t err"
    using assms it eq
    by (auto simp: dispatch_row_def Let_def split: option.splits prod.splits if_splits)
  then obtain st n t err where "db' = outbox_finish db (ot_event_id r) st n t err" by blast
  then have db': "ob_rows db' = map (finish_row (ot_event_id r) st n t err) (ob_rows db)"
    by (simp add: outbox_finish_def)
  note least = min_by_due [OF r]
  have "ox_state r = PendingRow" "ox_next_attempt_at r \<le> rd_claim rd"
    "\<forall>q \<in> set (ob_rows db). same_interaction q r \<and> ox_sequence q < ox_sequence r \<longrightarrow> ox_state q \<noteq> PendingRow"
    using least(2) by (auto simp: due_def list_ex_iff)
  moreover have "\<forall>q \<in> set (ob_rows db). due (ob_rows db) (rd_claim rd) q \<longrightarrow>
       (ox_next_attempt_at r, ox_sequence r) \<le> (ox_next_attempt_at q, ox_sequence q)"
    using least(3) by blast
  ultimately show ?thesis using least(1) db' by blast
qed

theorem dispatch_order_witness:
  "\<exists>db' s' ms'. dispatch_row next_due outbox_finish list_sink Inr default_backoff (clock_at 9 0)
      (queued, [], []) = (Inr True, db', s', ms') \<and>
    (\<exists>r \<in> set (ob_rows queued). \<exists>st n t err.
       ox_state r = PendingRow \<and> ob_rows db' = map (finish_row (ot_event_id r) st n t err) (ob_rows queued))"
proof -
  let ?run = "dispatch_row next_due outbox_finish list_sink Inr default_backoff (clock_at 9 0) (queued, [], [])"
  obtain db' s' ms' where run: "?run = (Inr True, db', s', ms')"
    by (simp add: dispatch_row_def queued_def enqueue_def new_row_def next_sequence_def pending_rows_def
        optional_events_def sample_event_def next_due_def due_def same_interaction_def clock_at_def
        list_sink_def load_item_def outcome_of_def outbox_item.truncate_def)
  show ?thesis using dispatch_order [OF run] run by blast
qed

text \<open>What the loop of \<open>enqueue\<close> does.\<close>

lemma next_sequence_greater: "r \<in> set rs \<Longrightarrow> ox_sequence r < next_sequence rs"
proof -
  have "r \<in> set rs \<Longrightarrow> ox_sequence r \<le> foldr (\<lambda>r m. max (ox_sequence r) m) rs 0"
    by (induction rs) auto
  then show "r \<in> set rs \<Longrightarrow> ox_sequence r < next_sequence rs" by (simp add: next_sequence_def)
qed

lemma enqueue_loop_contract:
  assumes "enqueue_loop dump limit es rs n dropped = (rs', dropped')"
    and "n = length (pending_rows rs)"
  shows "(\<exists>new. rs' = rs @ new \<and> (\<forall>r \<in> set new. ox_state r = PendingRow)) \<and>
    (\<forall>e \<in> set es. en_event_type e \<notin> set optional_events \<longrightarrow> en_event_id e \<in> ot_event_id ` set rs') \<and>
    (distinct (map ot_event_id rs) \<longrightarrow> distinct (map ot_event_id rs')) \<and>
    (sorted_wrt (<) (map ox_sequence rs) \<longrightarrow> sorted_wrt (<) (map ox_sequence rs')) \<and>
    dropped \<le> dropped' \<and> (dropped < dropped' \<longrightarrow> limit \<le> length (pending_rows rs')) \<and>
    dropped' \<le> dropped + length (filter (\<lambda>e. en_event_type e \<in> set optional_events) es)"
  using assms
proof (induction es arbitrary: rs n dropped)
  case Nil
  then show ?case by simp
next
  case (Cons e es)
  show ?case
  proof (cases "list_ex (\<lambda>r. ot_event_id r = en_event_id e) rs")
    case True
    then obtain q where q: "q \<in> set rs" "ot_event_id q = en_event_id e" by (auto simp: list_ex_iff)
    then have known: "en_event_id e \<in> ot_event_id ` set rs" using imageI [OF q(1), of ot_event_id] by simp
    have "enqueue_loop dump limit es rs n dropped = (rs', dropped')" using Cons.prems(1) True by simp
    note ih = Cons.IH [OF this Cons.prems(2)]
    then have "en_event_id e \<in> ot_event_id ` set rs'" using known by auto
    with ih show ?thesis by auto
  next
    case fresh: False
    show ?thesis
    proof (cases "n \<ge> limit \<and> en_event_type e \<in> set optional_events")
      case True
      then have "enqueue_loop dump limit es rs n (Suc dropped) = (rs', dropped')"
        using Cons.prems(1) fresh by simp
      note ih = Cons.IH [OF this Cons.prems(2)]
      then have "length (pending_rows rs) \<le> length (pending_rows rs')"
        by (auto simp: pending_rows_def)
      then have "limit \<le> length (pending_rows rs')" using True Cons.prems(2) by simp
      with ih True show ?thesis by auto
    next
      case False
      let ?rs = "rs @ [new_row dump rs e]"
      have "Suc n = length (pending_rows ?rs)"
        using Cons.prems(2) by (simp add: pending_rows_def new_row_def)
      note ih = Cons.IH [OF _ this, of dropped]
      have run: "enqueue_loop dump limit es ?rs (Suc n) dropped = (rs', dropped')"
        using Cons.prems(1) fresh False by simp
      have "distinct (map ot_event_id rs) \<longrightarrow> distinct (map ot_event_id ?rs)"
        using fresh by (auto simp: new_row_def list_ex_iff)
      moreover have "sorted_wrt (<) (map ox_sequence rs) \<longrightarrow> sorted_wrt (<) (map ox_sequence ?rs)"
        using next_sequence_greater by (auto simp: sorted_wrt_append new_row_def)
      ultimately show ?thesis using ih [OF run] by (auto simp: new_row_def)
    qed
  qed
qed

text \<open>Enqueueing is all or nothing for what matters: outside a transaction nothing is
  written; inside one the rows already there stay as they are, every event that is not optional
  is in the table afterwards, an event is stored once, rows are in strictly increasing sequence,
  and only optional events are dropped, and only when the pending limit is reached.\<close>

theorem enqueue_contract:
  assumes "enqueue dump db es limit = (res, db')"
  shows "(\<not> ob_in_transaction db \<longrightarrow> res = Inl (StorageError ''storage_transaction_required'') \<and> db' = db) \<and>
    (ob_in_transaction db \<longrightarrow> (\<exists>d new. res = Inr d \<and> ob_rows db' = ob_rows db @ new \<and>
       (\<forall>r \<in> set new. ox_state r = PendingRow) \<and>
       (\<forall>e \<in> set es. en_event_type e \<notin> set optional_events \<longrightarrow>
          en_event_id e \<in> ot_event_id ` set (ob_rows db')) \<and>
       (distinct (map ot_event_id (ob_rows db)) \<longrightarrow> distinct (map ot_event_id (ob_rows db'))) \<and>
       (sorted_wrt (<) (map ox_sequence (ob_rows db)) \<longrightarrow> sorted_wrt (<) (map ox_sequence (ob_rows db'))) \<and>
       d \<le> length (filter (\<lambda>e. en_event_type e \<in> set optional_events) es) \<and>
       (0 < d \<longrightarrow> limit \<le> length (pending_rows (ob_rows db')))))"
proof (cases "ob_in_transaction db")
  case True
  obtain rs d where run: "enqueue_loop dump limit es (ob_rows db) (length (pending_rows (ob_rows db))) 0 = (rs, d)"
    by (cases "enqueue_loop dump limit es (ob_rows db) (length (pending_rows (ob_rows db))) 0")
  then have "res = Inr d" "ob_rows db' = rs" using assms True by (auto simp: enqueue_def)
  with enqueue_loop_contract [OF run refl] True show ?thesis by auto
qed (use assms in \<open>auto simp: enqueue_def\<close>)

theorem enqueue_contract_witness:
  "\<exists>d db'. enqueue (\<lambda>e. e) \<lparr>ob_rows = [], ob_in_transaction = True\<rparr> [sample_event ''a'', sample_event ''b''] 1 =
     (Inr d, db') \<and> 0 < d \<and> 1 \<le> length (pending_rows (ob_rows db'))"
proof -
  let ?db = "\<lparr>ob_rows = [], ob_in_transaction = True\<rparr>"
  obtain d db' where run: "enqueue (\<lambda>e. e) ?db [sample_event ''a'', sample_event ''b''] 1 = (Inr d, db')" and "0 < d"
    by (simp add: enqueue_def pending_rows_def optional_events_def sample_event_def new_row_def)
  with enqueue_contract [OF run] show ?thesis by auto
qed

text \<open>Retries back off exponentially and stay within the cap: with a jitter in the unit
  interval the delay is positive, at least half and at most the whole of a ceiling that doubles
  with every attempt up to the cap; the retry is never scheduled before the failure.\<close>

theorem backoff_bounds:
  assumes "backoff_new b = Inr b'" and "1 \<le> n" and "0 \<le> j" and "j \<le> 1"
  defines "bound \<equiv> min (bo_cap b) (bo_base b * 2 ^ min (n - 1) 30)"
  shows "0 < delay b n j \<and> bound / 2 \<le> delay b n j \<and> delay b n j \<le> bound \<and> bound \<le> bo_cap b \<and>
    delay b n 0 \<le> delay b (Suc n) 0 \<and> 0 \<le> seconds (delay b n j)"
proof -
  have base: "0 < bo_base b" "bo_base b \<le> bo_cap b"
    using assms(1) by (auto simp: backoff_new_def split: if_splits)
  then have pos: "0 < bound" unfolding bound_def by (simp add: min_def)
  have eq: "delay b n j = bound * (1 / 2 + 1 / 2 * j)" by (simp add: delay_def bound_def)
  have lower: "bound / 2 \<le> delay b n j"
    using pos assms(3) unfolding eq by (simp add: field_simps)
  have upper: "delay b n j \<le> bound"
    using mult_left_mono [of "1 / 2 + 1 / 2 * j" 1 bound] pos assms(4) unfolding eq by simp
  have "(2::rat) ^ min (n - 1) 30 \<le> 2 ^ min n 30" by (rule power_increasing) simp_all
  then have "bo_base b * 2 ^ min (n - 1) 30 \<le> bo_base b * 2 ^ min n 30"
    using base(1) by (intro mult_left_mono) simp_all
  then have "delay b n 0 \<le> delay b (Suc n) 0"
    unfolding delay_def by (intro mult_right_mono min.mono) simp_all
  moreover have "0 \<le> seconds (delay b n j)"
    unfolding seconds_def using pos lower by (intro round_half_even_ge) simp
  moreover have "0 < delay b n j" using pos lower by simp
  moreover have "bound \<le> bo_cap b" by (simp add: bound_def)
  ultimately show ?thesis using lower upper by simp
qed

theorem backoff_bounds_witness:
  "0 < delay default_backoff 3 (1 / 2) \<and> delay default_backoff 3 (1 / 2) \<le> 30"
  using backoff_bounds [of default_backoff default_backoff 3 "1 / 2"]
  by (simp add: backoff_new_def default_backoff_def)

end
