(* ===== verification/Chain.thy ===== *)
theory Chain
  imports Breakers Pricing
begin

text \<open>
  The bounded chain of attempts of \<open>routing/chain.py\<close>: the admission of a candidate
  (\<open>rejection\<close>), one attempt (\<open>execute_attempt\<close>) and the loop over the plan (\<open>run_chain\<close>).
  A provider is a function from the request it is handed to a result or an exception, the
  cut-off by \<open>asyncio.timeout\<close> included; a candidate is called at most once in a run. The
  readings of the clocks are indexed by the position of the candidate and the point of the code
  that reads. The breakers are parameters of the loop, with the contract \<open>circuit_breaker\<close>,
  which the model of \<open>routing/breakers.py\<close> provides. Counters are kept as a list.
\<close>

section \<open>Plans\<close>

record execution_candidate =
  xc_deployment :: deployment
  xc_provider :: "provider_request \<Rightarrow> provider_result result"
  xc_estimated_latency_ms :: flt
  xc_specialist :: bool
  xc_quality :: flt
  xc_confidence :: flt
  xc_ood_score :: flt
  xc_rejection_reason :: "string option"
  xc_context_limit :: int
  xc_has_estimate :: bool

definition execution_candidate_default ::
    "deployment \<Rightarrow> (provider_request \<Rightarrow> provider_result result) \<Rightarrow> execution_candidate" where
  "execution_candidate_default d p =
     \<lparr>xc_deployment = d, xc_provider = p, xc_estimated_latency_ms = 1, xc_specialist = False,
      xc_quality = 1, xc_confidence = 1, xc_ood_score = 0, xc_rejection_reason = None,
      xc_context_limit = 1000000, xc_has_estimate = True\<rparr>"

record chain_plan =
  cp_candidates :: "execution_candidate list"
  cp_policy :: route_policy
  cp_allow_live_specialists :: bool
  cp_fallback_reason :: "string option"
  cp_considered :: "execution_candidate list"

fun reason_text :: "fallback_reason \<Rightarrow> string" where
  "reason_text ValidationFailure = ''validation_failure''"
| "reason_text EndpointError = ''endpoint_error''"
| "reason_text DeadlineRisk = ''deadline_risk''"
| "reason_text PolicyUncertainty = ''policy_uncertainty''"
| "reason_text UnsupportedTool = ''unsupported_tool''"
| "reason_text LowConfidence = ''low_confidence''"
| "reason_text OutOfDistribution = ''out_of_distribution''"
| "reason_text LowQuality = ''low_quality''"
| "reason_text CircuitOpen = ''circuit_open''"
| "reason_text LiveSpecialistsDisabled = ''live_specialists_disabled''"
| "reason_text NotCheapest = ''not_cheapest''"

definition rejection ::
    "execution_candidate \<Rightarrow> chain_plan \<Rightarrow> provider_request \<Rightarrow> routing_options \<Rightarrow> policy_decision \<Rightarrow>
     micros \<Rightarrow> string option" where
  "rejection c plan r options policy spent =
     (if xc_rejection_reason c \<noteq> None then xc_rejection_reason c
      else if int (input_tokens r) + pr_max_output_tokens r > xc_context_limit c
        then Some ''context_length''
      else if dp_processing_region (xc_deployment c) \<noteq> pd_residency policy \<or>
          \<not> pd_processing_allowed policy
        then Some ''policy_uncertainty''
      else if request_cost (xc_deployment c) r + spent > ro_max_cost_micros options
        then Some ''policy_uncertainty''
      else if xc_specialist c then
        (if \<not> cp_allow_live_specialists plan then Some ''live_specialists_disabled''
         else if xc_ood_score c > po_ood_threshold_max (cp_policy plan) then Some ''out_of_distribution''
         else if xc_quality c < po_quality_threshold (cp_policy plan) then Some ''low_quality''
         else if xc_confidence c < po_router_confidence_threshold (cp_policy plan)
           then Some ''low_confidence''
         else None)
      else None)"

section \<open>One attempt\<close>

type_synonym metric = "string \<times> string"

datatype clock_point =
  AtAdmission | AtRemaining | AtStarted | AtValidated | AtEnded | AtAcquire | AtRecord

type_synonym clocks = "nat \<Rightarrow> clock_point \<Rightarrow> flt"

definition new_attempt ::
    "execution_candidate \<Rightarrow> provider_request \<Rightarrow> string \<Rightarrow> string \<Rightarrow> nat \<Rightarrow> string option \<Rightarrow> bool \<Rightarrow>
     generation_attempt" where
  "new_attempt c r attempt_id interaction_id number reason shadow =
     (let d = xc_deployment c in
      \<lparr>ga_attempt_id = attempt_id, ga_interaction_id = interaction_id, ga_attempt_number = number,
       ga_shadow = shadow, ga_model_provider = dp_model_provider d, ga_model_id = dp_model_id d,
       ga_model_version = dp_model_version d, ga_deployment_id = dp_model_deployment_id d,
       ga_adapter_id = (if xc_specialist c then Some (dp_model_deployment_id d) else None),
       ga_request_parameters = Some \<lparr>rqp_temperature = Some (pr_temperature r),
         rqp_max_output_tokens = pr_max_output_tokens r, rqp_seed = None\<rparr>,
       ga_usage = None, ga_tool_calls = [], ga_output_ref = None, ga_output_hash = None,
       ga_total_latency_ms = 0, ga_estimated_cost_micros = None,
       ga_price_list_version = Some (pl_version (dp_price_list d)), ga_finish_reason = ErrorFinish,
       ga_validation = None, ga_fallback_reason = reason, ga_error_code = None\<rparr>)"

text \<open>The \<open>except\<close> clauses.\<close>

fun attempt_error :: "exc \<Rightarrow> generation_attempt \<Rightarrow> string \<times> generation_attempt" where
  "attempt_error (ProviderError ec) a =
     (ec, if ec = ''provider_timeout'' then a\<lparr>ga_finish_reason := DeadlineExceeded\<rparr> else a)"
| "attempt_error TimeoutError a =
     (''provider_deadline_exceeded'', a\<lparr>ga_finish_reason := DeadlineExceeded\<rparr>)"
| "attempt_error CancelledError a = (''request_cancelled'', a\<lparr>ga_finish_reason := Cancelled\<rparr>)"
| "attempt_error _ a = (''provider_failed'', a)"

definition with_usage :: "execution_candidate \<Rightarrow> provider_result \<Rightarrow> generation_attempt \<Rightarrow> generation_attempt" where
  "with_usage c res a =
     a\<lparr>ga_usage := Some (ps_usage res), ga_tool_calls := ps_tool_calls res,
       ga_finish_reason := ps_finish_reason res,
       ga_estimated_cost_micros := Some (estimate (dp_price_list (xc_deployment c))
         (us_input_tokens (ps_usage res)) (us_output_tokens (ps_usage res)))\<rparr>"

definition advisory_metrics :: "validation \<Rightarrow> metric list" where
  "advisory_metrics v =
     map (\<lambda>k. (''validation_advisory_failures'', vc_name k))
       (filter (\<lambda>k. vc_severity k = Advisory \<and> \<not> vc_passed k) (va_checks v))"

text \<open>The body of the \<open>try\<close> after the provider has answered.\<close>

definition judge_result ::
    "(provider_request \<Rightarrow> provider_result \<Rightarrow> validation result) \<Rightarrow> provider_request \<Rightarrow>
     provider_result \<Rightarrow> bool \<Rightarrow> generation_attempt \<Rightarrow>
     string option \<times> generation_attempt \<times> metric list" where
  "judge_result validate r res late a =
     (if ps_finish_reason res = DeadlineExceeded then (Some ''provider_deadline_exceeded'', a, [])
      else if ps_finish_reason res \<notin> {Stop, Length, ContentFilter} then (Some ''provider_failed'', a, [])
      else case validate r res of
        Inl x \<Rightarrow> (let (ec, a') = attempt_error x a in (Some ec, a', []))
      | Inr v \<Rightarrow>
          let a1 = a\<lparr>ga_validation := Some v\<rparr>;
              ec = (if va_passed v then None else Some ''validation_failed'')
          in if late
             then (Some ''provider_deadline_exceeded'', a1\<lparr>ga_finish_reason := DeadlineExceeded\<rparr>,
                   advisory_metrics v)
             else (ec, a1, advisory_metrics v))"

definition execute_attempt ::
    "execution_candidate \<Rightarrow> provider_request \<Rightarrow>
     (provider_request \<Rightarrow> provider_result \<Rightarrow> validation result) \<Rightarrow> (clock_point \<Rightarrow> flt) \<Rightarrow> flt \<Rightarrow>
     generation_attempt \<Rightarrow> provider_result option \<times> generation_attempt \<times> metric list" where
  "execute_attempt c r validate clk remaining a =
     (let late = (clk AtValidated - clk AtStarted \<ge> remaining);
          (res, ec, a', ms) =
            (case xc_provider c (r\<lparr>pr_deadline_ms := min (pr_deadline_ms r) (remaining * 1000)\<rparr>) of
               Inl x \<Rightarrow> (let (ec, a1) = attempt_error x a in (None, Some ec, a1, []))
             | Inr res \<Rightarrow> (Some res, judge_result validate r res late (with_usage c res a)))
      in (res, a'\<lparr>ga_error_code := ec,
                  ga_total_latency_ms := (clk AtEnded - clk AtStarted) * 1000\<rparr>, ms))"

section \<open>The chain\<close>

record 'b chain_state =
  cs_visited :: "ident list"
  cs_reason :: "string option"
  cs_spent :: micros
  cs_error :: exc
  cs_attempts :: "generation_attempt list"
  cs_breakers :: 'b
  cs_metrics :: "metric list"

datatype chain_flow = NextCandidate | BreakLoop | ReturnResult provider_result generation_attempt | RaiseCancelled

definition truthy :: "string option \<Rightarrow> bool" where
  "truthy x = (case x of None \<Rightarrow> False | Some s \<Rightarrow> s \<noteq> [])"

definition breaker_errors :: "string list" where
  "breaker_errors =
     [''provider_failed'', ''provider_deadline_exceeded'', ''request_cancelled'', ''provider_timeout'',
      ''provider_rate_limited'', ''provider_unavailable'', ''provider_invalid_response'']"

definition attempt_sample :: "flt \<Rightarrow> generation_attempt \<Rightarrow> sample" where
  "attempt_sample clk a =
     \<lparr>sm_at = clk,
      sm_error = (case ga_error_code a of None \<Rightarrow> False | Some ec \<Rightarrow> ec \<in> set breaker_errors),
      sm_validation_failure = (case ga_validation a of None \<Rightarrow> False | Some v \<Rightarrow> \<not> va_passed v),
      sm_latency_ms = ga_total_latency_ms a\<rparr>"

definition error_status :: "string option \<Rightarrow> int" where
  "error_status ec =
     (if ec = Some ''provider_deadline_exceeded'' \<or> ec = Some ''provider_timeout'' then 504
      else if ec = Some ''provider_rate_limited'' \<or> ec = Some ''provider_unavailable'' then 503
      else 502)"

definition attempt_failure :: "generation_attempt \<Rightarrow> exc" where
  "attempt_failure a =
     GatewayError (error_status (ga_error_code a))
       (if truthy (ga_error_code a) then the (ga_error_code a) else ''provider_failed'')"

definition failure_reason :: "generation_attempt \<Rightarrow> string" where
  "failure_reason a =
     (if (case ga_validation a of None \<Rightarrow> False
          | Some v \<Rightarrow> list_ex (\<lambda>k. vc_name k = ''tool_allowlist'' \<and> \<not> vc_passed k) (va_checks v))
      then ''unsupported_tool''
      else if ga_error_code a = Some ''validation_failed'' then ''validation_failure''
      else if ga_error_code a = Some ''provider_deadline_exceeded'' \<or>
          ga_error_code a = Some ''provider_timeout'' then ''deadline_risk''
      else ''endpoint_error'')"

definition is_hard_fallback :: "chain_plan \<Rightarrow> string \<Rightarrow> bool" where
  "is_hard_fallback plan reason =
     (reason \<in> set (map reason_text (po_hard_fallback_on (cp_policy plan))))"

text \<open>What the loop needs to know of its environment.\<close>

record 'b chain_env =
  cx_request :: provider_request
  cx_options :: routing_options
  cx_policy :: policy_decision
  cx_interaction_id :: string
  cx_deadline :: flt
  cx_validate :: "provider_request \<Rightarrow> provider_result \<Rightarrow> validation result"
  cx_clocks :: clocks
  cx_ids :: "nat \<Rightarrow> string"
  cx_acquire :: "'b \<Rightarrow> ident \<Rightarrow> breaker_thresholds \<Rightarrow> flt \<Rightarrow> bool \<times> 'b"
  cx_record :: "'b \<Rightarrow> ident \<Rightarrow> breaker_thresholds \<Rightarrow> sample \<Rightarrow> 'b"

text \<open>Admission: the reason to skip a candidate, the error to remember and the breakers.\<close>

definition admission ::
    "chain_plan \<Rightarrow> 'b chain_env \<Rightarrow> nat \<Rightarrow> execution_candidate \<Rightarrow> 'b chain_state \<Rightarrow>
     string option \<times> exc \<times> 'b" where
  "admission plan env i c st =
     (case rejection c plan (cx_request env) (cx_options env) (cx_policy env) (cs_spent st) of
        Some skip \<Rightarrow> (Some skip, cs_error st, cs_breakers st)
      | None \<Rightarrow>
          if (cx_deadline env - cx_clocks env i AtAdmission) * 1000 \<le> xc_estimated_latency_ms c
          then (Some ''deadline_risk'', GatewayError 504 ''provider_deadline_exceeded'', cs_breakers st)
          else let (granted, b) = cx_acquire env (cs_breakers st)
                     (dp_model_deployment_id (xc_deployment c)) (po_breaker (cp_policy plan))
                     (cx_clocks env i AtAcquire)
               in (if granted then None else Some ''circuit_open'', cs_error st, b))"

text \<open>The attempt, its bookkeeping and what follows from its outcome.\<close>

definition attempt_step ::
    "chain_plan \<Rightarrow> 'b chain_env \<Rightarrow> nat \<Rightarrow> execution_candidate \<Rightarrow> 'b chain_state \<Rightarrow>
     chain_flow \<times> 'b chain_state" where
  "attempt_step plan env i c st =
     (let name = dp_model_deployment_id (xc_deployment c);
          (res, a, ms) = execute_attempt c (cx_request env) (cx_validate env) (cx_clocks env i)
            (max 0 (cx_deadline env - cx_clocks env i AtRemaining))
            (new_attempt c (cx_request env) (cx_ids env i) (cx_interaction_id env)
               (length (cs_attempts st) + 1) (cs_reason st) False);
          st1 = st\<lparr>cs_attempts := cs_attempts st @ [a],
                   cs_breakers := cx_record env (cs_breakers st) name (po_breaker (cp_policy plan))
                     (attempt_sample (cx_clocks env i AtRecord) a),
                   cs_spent := cs_spent st + (case ga_estimated_cost_micros a of None \<Rightarrow> 0 | Some n \<Rightarrow> n),
                   cs_metrics := cs_metrics st @ ms @ [(''route_distribution'', name)]\<rparr>
      in case (ga_error_code a, res) of
           (None, Some r) \<Rightarrow>
             (ReturnResult r a,
              if length (cs_attempts st1) = 1
              then st1\<lparr>cs_metrics := cs_metrics st1 @ [(''fallback_free_attempts'', '''')]\<rparr> else st1)
         | _ \<Rightarrow>
             if ga_error_code a = Some ''request_cancelled'' then (RaiseCancelled, st1)
             else let reason = failure_reason a;
                      st2 = st1\<lparr>cs_error := attempt_failure a, cs_reason := Some reason,
                                cs_metrics := cs_metrics st1 @ [(''fallback_reasons'', reason)]\<rparr>
                  in (if is_hard_fallback plan reason then NextCandidate else BreakLoop, st2))"

definition chain_step ::
    "chain_plan \<Rightarrow> 'b chain_env \<Rightarrow> nat \<Rightarrow> execution_candidate \<Rightarrow> 'b chain_state \<Rightarrow>
     chain_flow \<times> 'b chain_state" where
  "chain_step plan env i c st =
     (let name = dp_model_deployment_id (xc_deployment c) in
      if name \<in> set (cs_visited st) then (NextCandidate, st)
      else let st0 = st\<lparr>cs_visited := name # cs_visited st\<rparr> in
      if length (cs_attempts st0) \<ge> po_max_attempts (cp_policy plan) then (BreakLoop, st0)
      else let (skip, err, b) = admission plan env i c st0;
               st1 = st0\<lparr>cs_error := err, cs_breakers := b\<rparr>
           in if truthy skip
              then (if skip = Some ''deadline_risk'' \<and> \<not> is_hard_fallback plan ''deadline_risk''
                    then BreakLoop else NextCandidate,
                    st1\<lparr>cs_reason := skip,
                        cs_metrics := cs_metrics st1 @ [(''fallback_reasons'', the skip)]\<rparr>)
              else attempt_step plan env i c st1)"

fun chain_loop ::
    "chain_plan \<Rightarrow> 'b chain_env \<Rightarrow> nat \<Rightarrow> execution_candidate list \<Rightarrow> 'b chain_state \<Rightarrow>
     chain_flow \<times> 'b chain_state" where
  "chain_loop plan env i [] st = (BreakLoop, st)"
| "chain_loop plan env i (c # cs) st =
     (case chain_step plan env i c st of
        (NextCandidate, st') \<Rightarrow> chain_loop plan env (Suc i) cs st'
      | (flow, st') \<Rightarrow> (flow, st'))"

definition chain_start :: "chain_plan \<Rightarrow> generation_attempt list \<Rightarrow> 'b \<Rightarrow> 'b chain_state" where
  "chain_start plan attempts b =
     \<lparr>cs_visited = [], cs_reason = cp_fallback_reason plan, cs_spent = 0,
      cs_error = GatewayError 503 ''no_healthy_deployment'', cs_attempts = attempts,
      cs_breakers = b,
      cs_metrics = (if truthy (cp_fallback_reason plan)
                    then [(''fallback_reasons'', the (cp_fallback_reason plan))] else [])\<rparr>"

definition run_chain ::
    "chain_plan \<Rightarrow> 'b chain_env \<Rightarrow> generation_attempt list \<Rightarrow> 'b \<Rightarrow>
     (provider_result \<times> generation_attempt) result \<times> 'b chain_state" where
  "run_chain plan env attempts b =
     (let (flow, st) = chain_loop plan env 0 (cp_candidates plan) (chain_start plan attempts b)
      in (case flow of
            ReturnResult r a \<Rightarrow> Inr (r, a)
          | RaiseCancelled \<Rightarrow> Inl CancelledError
          | _ \<Rightarrow> Inl (cs_error st), st))"

section \<open>What an attempt reports\<close>

abbreviation attempt_cost :: "generation_attempt \<Rightarrow> micros" where
  "attempt_cost a \<equiv> (case ga_estimated_cost_micros a of None \<Rightarrow> 0 | Some n \<Rightarrow> n)"

lemma attempt_error_fields:
  "ga_attempt_number (snd (attempt_error x a)) = ga_attempt_number a"
  "ga_deployment_id (snd (attempt_error x a)) = ga_deployment_id a"
  "ga_estimated_cost_micros (snd (attempt_error x a)) = ga_estimated_cost_micros a"
  by (cases x; simp)+

lemma judge_result_fields:
  assumes "judge_result validate r res late a = (ec, a', ms)"
  shows "ga_attempt_number a' = ga_attempt_number a" and "ga_deployment_id a' = ga_deployment_id a"
    and "ga_estimated_cost_micros a' = ga_estimated_cost_micros a"
    and "ec = None \<Longrightarrow> \<exists>v. validate r res = Inr v \<and> ga_validation a' = Some v \<and> va_passed v \<and>
      ga_finish_reason a' = ga_finish_reason a \<and> ps_finish_reason res \<in> {Stop, Length, ContentFilter} \<and> \<not> late"
  using assms attempt_error_fields
  by (auto simp: judge_result_def Let_def split: if_splits sum.splits prod.splits)
    (metis snd_conv)+

lemma execute_attempt_fields:
  assumes "execute_attempt c r validate clk remaining a = (res, a', ms)"
    and "ga_estimated_cost_micros a = None"
  shows "ga_attempt_number a' = ga_attempt_number a" and "ga_deployment_id a' = ga_deployment_id a"
    and "attempt_cost a' = (case res of None \<Rightarrow> 0 | Some p \<Rightarrow>
      estimate (dp_price_list (xc_deployment c)) (us_input_tokens (ps_usage p)) (us_output_tokens (ps_usage p)))"
    and "res = Some p \<Longrightarrow> \<exists>q. xc_provider c q = Inr p"
    and "ga_error_code a' = None \<Longrightarrow> \<exists>p v. res = Some p \<and> validate r p = Inr v \<and>
      ga_validation a' = Some v \<and> va_passed v \<and> ga_finish_reason a' = ps_finish_reason p \<and>
      ps_finish_reason p \<in> {Stop, Length, ContentFilter} \<and> clk AtValidated - clk AtStarted < remaining"
proof -
  let ?call = "xc_provider c (r\<lparr>pr_deadline_ms := min (pr_deadline_ms r) (remaining * 1000)\<rparr>)"
  let ?late = "clk AtValidated - clk AtStarted \<ge> remaining"
  have "ga_attempt_number a' = ga_attempt_number a \<and> ga_deployment_id a' = ga_deployment_id a \<and>
    attempt_cost a' = (case res of None \<Rightarrow> 0 | Some p \<Rightarrow>
      estimate (dp_price_list (xc_deployment c)) (us_input_tokens (ps_usage p)) (us_output_tokens (ps_usage p))) \<and>
    (res = Some p \<longrightarrow> (\<exists>q. xc_provider c q = Inr p)) \<and>
    (ga_error_code a' = None \<longrightarrow> (\<exists>p v. res = Some p \<and> validate r p = Inr v \<and>
      ga_validation a' = Some v \<and> va_passed v \<and> ga_finish_reason a' = ps_finish_reason p \<and>
      ps_finish_reason p \<in> {Stop, Length, ContentFilter} \<and> clk AtValidated - clk AtStarted < remaining))"
  proof (cases ?call)
    case (Inl x)
    then show ?thesis
      using assms attempt_error_fields [of x a]
      by (cases "attempt_error x a") (auto simp: execute_attempt_def Let_def)
  next
    case (Inr pres)
    obtain ec a1 ms1 where j: "judge_result validate r pres ?late (with_usage c pres a) = (ec, a1, ms1)"
      by (metis prod_cases3)
    note f = judge_result_fields [OF j]
    have "res = Some pres" "a' = a1\<lparr>ga_error_code := ec, ga_total_latency_ms := (clk AtEnded - clk AtStarted) * 1000\<rparr>"
      using assms(1) Inr j by (auto simp: execute_attempt_def Let_def)
    then show ?thesis
      using f Inr by (auto simp: with_usage_def not_le)
  qed
  then show "ga_attempt_number a' = ga_attempt_number a" and "ga_deployment_id a' = ga_deployment_id a"
    and "attempt_cost a' = (case res of None \<Rightarrow> 0 | Some p \<Rightarrow>
      estimate (dp_price_list (xc_deployment c)) (us_input_tokens (ps_usage p)) (us_output_tokens (ps_usage p)))"
    and "res = Some p \<Longrightarrow> \<exists>q. xc_provider c q = Inr p"
    and "ga_error_code a' = None \<Longrightarrow> \<exists>p v. res = Some p \<and> validate r p = Inr v \<and>
      ga_validation a' = Some v \<and> va_passed v \<and> ga_finish_reason a' = ps_finish_reason p \<and>
      ps_finish_reason p \<in> {Stop, Length, ContentFilter} \<and> clk AtValidated - clk AtStarted < remaining"
    by blast+
qed

lemma new_attempt_fields [simp]:
  "ga_attempt_number (new_attempt c r aid iid n reason sh) = n"
  "ga_deployment_id (new_attempt c r aid iid n reason sh) = dp_model_deployment_id (xc_deployment c)"
  "ga_estimated_cost_micros (new_attempt c r aid iid n reason sh) = None"
  by (simp_all add: new_attempt_def Let_def)

section \<open>One step of the chain\<close>

definition admissible ::
    "chain_plan \<Rightarrow> provider_request \<Rightarrow> routing_options \<Rightarrow> policy_decision \<Rightarrow> execution_candidate \<Rightarrow> bool" where
  "admissible plan r options policy c \<longleftrightarrow>
     xc_rejection_reason c = None \<and> int (input_tokens r) + pr_max_output_tokens r \<le> xc_context_limit c \<and>
     dp_processing_region (xc_deployment c) = pd_residency policy \<and> pd_processing_allowed policy \<and>
     (xc_specialist c \<longrightarrow> cp_allow_live_specialists plan \<and>
        xc_ood_score c \<le> po_ood_threshold_max (cp_policy plan) \<and>
        po_quality_threshold (cp_policy plan) \<le> xc_quality c \<and>
        po_router_confidence_threshold (cp_policy plan) \<le> xc_confidence c)"

lemma rejection_None_iff:
  "rejection c plan r options policy spent = None \<longleftrightarrow>
     admissible plan r options policy c \<and> request_cost (xc_deployment c) r + spent \<le> ro_max_cost_micros options"
  by (auto simp: rejection_def admissible_def)

lemma rejection_truthy: "xc_rejection_reason c \<noteq> Some [] \<Longrightarrow> rejection c plan r options policy spent \<noteq> Some []"
  by (auto simp: rejection_def split: if_splits)

text \<open>A candidate that is not attempted leaves attempts and spend alone; one that is attempted
  was admitted, and adds exactly one attempt.\<close>

lemma chain_step_cases:
  assumes "chain_step plan env i c st = (flow, st')" and "xc_rejection_reason c \<noteq> Some []"
  obtains (skipped) "cs_attempts st' = cs_attempts st" "cs_spent st' = cs_spent st"
      "set (cs_visited st) \<subseteq> set (cs_visited st')" "flow = NextCandidate \<or> flow = BreakLoop"
      "cs_error st' = cs_error st \<or> cs_error st' = GatewayError 504 ''provider_deadline_exceeded''"
  | (attempted) a res where "dp_model_deployment_id (xc_deployment c) \<notin> set (cs_visited st)"
      "length (cs_attempts st) < po_max_attempts (cp_policy plan)"
      "admissible plan (cx_request env) (cx_options env) (cx_policy env) c"
      "request_cost (xc_deployment c) (cx_request env) + cs_spent st \<le> ro_max_cost_micros (cx_options env)"
      "cs_attempts st' = cs_attempts st @ [a]" "cs_spent st' = cs_spent st + attempt_cost a"
      "cs_visited st' = dp_model_deployment_id (xc_deployment c) # cs_visited st"
      "ga_deployment_id a = dp_model_deployment_id (xc_deployment c)"
      "ga_attempt_number a = Suc (length (cs_attempts st))"
      "attempt_cost a = (case res of None \<Rightarrow> 0 | Some p \<Rightarrow>
         estimate (dp_price_list (xc_deployment c)) (us_input_tokens (ps_usage p)) (us_output_tokens (ps_usage p)))"
      "\<And>p. res = Some p \<Longrightarrow> \<exists>q. xc_provider c q = Inr p"
      "\<And>p b. flow = ReturnResult p b \<Longrightarrow> b = a \<and> ga_error_code a = None \<and> res = Some p \<and>
         (\<exists>v. cx_validate env (cx_request env) p = Inr v \<and> ga_validation a = Some v \<and> va_passed v) \<and>
         ps_finish_reason p \<in> {Stop, Length, ContentFilter}"
      "\<forall>p b. flow \<noteq> ReturnResult p b \<Longrightarrow> ga_error_code a \<noteq> None"
      "flow = NextCandidate \<or> flow = BreakLoop \<Longrightarrow> cs_error st' = attempt_failure a"
      "flow = RaiseCancelled \<Longrightarrow> ga_error_code a = Some ''request_cancelled''"
proof -
  let ?name = "dp_model_deployment_id (xc_deployment c)"
  let ?st0 = "st\<lparr>cs_visited := ?name # cs_visited st\<rparr>"
  show thesis
  proof (cases "?name \<in> set (cs_visited st) \<or> length (cs_attempts st) \<ge> po_max_attempts (cp_policy plan)")
    case True
    then show ?thesis using assms(1) skipped by (auto simp: chain_step_def Let_def subset_insertI split: if_splits)
  next
    case False
    obtain skip err b where adm: "admission plan env i c ?st0 = (skip, err, b)"
      by (metis prod_cases3)
    let ?st1 = "?st0\<lparr>cs_error := err, cs_breakers := b\<rparr>"
    have err: "err = cs_error st \<or> err = GatewayError 504 ''provider_deadline_exceeded''"
      using adm by (auto simp: admission_def Let_def split: option.splits if_splits prod.splits)
    show ?thesis
    proof (cases "truthy skip")
      case True
      then show ?thesis
        using assms(1) False adm err skipped by (auto simp: chain_step_def Let_def subset_insertI)
    next
      case not_skipped: False
      have rej: "rejection c plan (cx_request env) (cx_options env) (cx_policy env) (cs_spent st) = None"
        using adm not_skipped rejection_truthy [OF assms(2)]
        by (auto simp: admission_def truthy_def split: option.splits)
      let ?a0 = "new_attempt c (cx_request env) (cx_ids env i) (cx_interaction_id env)
         (length (cs_attempts st) + 1) (cs_reason st) False"
      obtain res a ms where ex: "execute_attempt c (cx_request env) (cx_validate env) (cx_clocks env i)
          (max 0 (cx_deadline env - cx_clocks env i AtRemaining)) ?a0 = (res, a, ms)"
        by (metis prod_cases3)
      note f = execute_attempt_fields [OF ex new_attempt_fields(3)]
      have run: "attempt_step plan env i c ?st1 = (flow, st')"
        using assms(1) False adm not_skipped by (simp add: chain_step_def Let_def)
      have fields: "cs_attempts st' = cs_attempts st @ [a]" "cs_spent st' = cs_spent st + attempt_cost a"
          "cs_visited st' = ?name # cs_visited st"
        using run ex by (auto simp: attempt_step_def Let_def split: option.splits if_splits)
      have ret: "b = a \<and> ga_error_code a = None \<and> res = Some p" if "flow = ReturnResult p b" for p b
        using run ex that by (auto simp: attempt_step_def Let_def split: option.splits if_splits)
      have noret: "ga_error_code a \<noteq> None" if "\<forall>p b. flow \<noteq> ReturnResult p b"
        using run ex that f(5) by (auto simp: attempt_step_def Let_def split: option.splits if_splits)
      have err': "cs_error st' = attempt_failure a" if "flow = NextCandidate \<or> flow = BreakLoop"
        using run ex that by (auto simp: attempt_step_def Let_def split: option.splits if_splits)
      have cancelled: "ga_error_code a = Some ''request_cancelled''" if "flow = RaiseCancelled"
        using run ex that by (auto simp: attempt_step_def Let_def split: option.splits if_splits)
      have good: "(\<exists>v. cx_validate env (cx_request env) p = Inr v \<and> ga_validation a = Some v \<and> va_passed v) \<and>
         ps_finish_reason p \<in> {Stop, Length, ContentFilter}" if "flow = ReturnResult p b" for p b
        using ret [OF that] f(5) by auto
      have ret': "b = a \<and> ga_error_code a = None \<and> res = Some p \<and>
         (\<exists>v. cx_validate env (cx_request env) p = Inr v \<and> ga_validation a = Some v \<and> va_passed v) \<and>
         ps_finish_reason p \<in> {Stop, Length, ContentFilter}" if "flow = ReturnResult p b" for p b
        using ret [OF that] good [OF that] by blast
      show ?thesis
      proof (rule attempted [of a res])
        show "\<And>p b. flow = ReturnResult p b \<Longrightarrow> b = a \<and> ga_error_code a = None \<and> res = Some p \<and>
         (\<exists>v. cx_validate env (cx_request env) p = Inr v \<and> ga_validation a = Some v \<and> va_passed v) \<and>
         ps_finish_reason p \<in> {Stop, Length, ContentFilter}" by (rule ret')
      qed (use False rej f(1-4) fields noret err' cancelled in \<open>simp_all add: rejection_None_iff\<close>)
    qed
  qed
qed

section \<open>The whole chain\<close>

text \<open>The invariant of the loop over the attempts \<open>new\<close> made by this run.\<close>

definition chain_inv ::
    "chain_plan \<Rightarrow> 'b chain_env \<Rightarrow> generation_attempt list \<Rightarrow> generation_attempt list \<Rightarrow>
     'b chain_state \<Rightarrow> bool" where
  "chain_inv plan env before new st \<longleftrightarrow>
     cs_attempts st = before @ new \<and>
     (new = [] \<or> length (before @ new) \<le> po_max_attempts (cp_policy plan)) \<and>
     distinct (map ga_deployment_id new) \<and> set (map ga_deployment_id new) \<subseteq> set (cs_visited st) \<and>
     map ga_attempt_number new = map (\<lambda>k. length before + k) [1..<Suc (length new)] \<and>
     cs_spent st = sum_list (map attempt_cost new) \<and>
     (\<forall>a \<in> set new. \<exists>c \<in> set (cp_candidates plan).
        ga_deployment_id a = dp_model_deployment_id (xc_deployment c) \<and>
        admissible plan (cx_request env) (cx_options env) (cx_policy env) c)"

definition gateway_failure :: "exc \<Rightarrow> bool" where
  "gateway_failure x \<longleftrightarrow> (\<exists>ec. x = GatewayError 502 ec \<or> x = GatewayError 503 ec \<or> x = GatewayError 504 ec)"

lemma attempt_failure_gateway: "gateway_failure (attempt_failure a)"
  by (simp add: attempt_failure_def error_status_def gateway_failure_def)

lemma chain_inv_attempt:
  assumes "chain_inv plan env before new st" and "c \<in> set (cp_candidates plan)"
    and "dp_model_deployment_id (xc_deployment c) \<notin> set (cs_visited st)"
    and "length (cs_attempts st) < po_max_attempts (cp_policy plan)"
    and "admissible plan (cx_request env) (cx_options env) (cx_policy env) c"
    and "cs_attempts st' = cs_attempts st @ [a]" and "cs_spent st' = cs_spent st + attempt_cost a"
    and "cs_visited st' = dp_model_deployment_id (xc_deployment c) # cs_visited st"
    and "ga_deployment_id a = dp_model_deployment_id (xc_deployment c)"
    and "ga_attempt_number a = Suc (length (cs_attempts st))"
  shows "chain_inv plan env before (new @ [a]) st'"
  using assms by (auto simp: chain_inv_def)

text \<open>What one step gives for the attempts, the result and the error of the loop.\<close>

definition chain_goal ::
    "chain_plan \<Rightarrow> 'b chain_env \<Rightarrow> generation_attempt list \<Rightarrow> chain_flow \<Rightarrow> 'b chain_state \<Rightarrow> bool" where
  "chain_goal plan env before flow st \<longleftrightarrow>
     (\<exists>new. chain_inv plan env before new st \<and>
        (case flow of
           ReturnResult p a \<Rightarrow> (\<exists>failed. new = failed @ [a] \<and> (\<forall>x \<in> set failed. ga_error_code x \<noteq> None)) \<and>
             ga_error_code a = None \<and>
             (\<exists>v. cx_validate env (cx_request env) p = Inr v \<and> ga_validation a = Some v \<and> va_passed v) \<and>
             ps_finish_reason p \<in> {Stop, Length, ContentFilter}
         | RaiseCancelled \<Rightarrow> \<exists>a. new \<noteq> [] \<and> a = last new \<and> ga_error_code a = Some ''request_cancelled''
         | _ \<Rightarrow> (\<forall>x \<in> set new. ga_error_code x \<noteq> None) \<and> gateway_failure (cs_error st)))"

lemma chain_step_goal:
  assumes "chain_step plan env i c st = (flow, st')" and "xc_rejection_reason c \<noteq> Some []"
    and "c \<in> set (cp_candidates plan)" and "chain_goal plan env before NextCandidate st"
  shows "chain_goal plan env before flow st'"
proof -
  from assms(4) obtain new where inv: "chain_inv plan env before new st"
    and failed: "\<forall>x \<in> set new. ga_error_code x \<noteq> None" and err: "gateway_failure (cs_error st)"
    by (auto simp: chain_goal_def)
  show ?thesis
    using assms(1,2)
  proof (cases rule: chain_step_cases)
    case skipped
    then have "chain_inv plan env before new st'" using inv by (auto simp: chain_inv_def)
    moreover have "gateway_failure (cs_error st')" using skipped(5) err by (auto simp: gateway_failure_def)
    ultimately show ?thesis using skipped(4) failed by (auto simp: chain_goal_def)
  next
    case (attempted a res)
    note inv' = chain_inv_attempt [OF inv assms(3) attempted(1-3,5-9)]
    show ?thesis
    proof (cases flow)
      case (ReturnResult p b)
      then show ?thesis
        unfolding chain_goal_def
        by (intro exI [of _ "new @ [a]"]) (use inv' attempted(12) [OF ReturnResult] failed in auto)
    next
      case RaiseCancelled
      then show ?thesis using inv' attempted(15) by (auto simp: chain_goal_def intro!: exI [of _ "new @ [a]"])
    next
      case NextCandidate
      then show ?thesis
        using inv' attempted(13,14) failed attempt_failure_gateway
        by (auto simp: chain_goal_def intro!: exI [of _ "new @ [a]"])
    next
      case BreakLoop
      then show ?thesis
        using inv' attempted(13,14) failed attempt_failure_gateway
        by (auto simp: chain_goal_def intro!: exI [of _ "new @ [a]"])
    qed
  qed
qed

lemma chain_goal_break:
  "chain_goal plan env before NextCandidate st \<Longrightarrow> chain_goal plan env before BreakLoop st"
  by (simp add: chain_goal_def)

lemma chain_loop_goal:
  assumes "chain_loop plan env i cs st = (flow, st')" and "\<forall>c \<in> set cs. xc_rejection_reason c \<noteq> Some []"
    and "set cs \<subseteq> set (cp_candidates plan)" and "chain_goal plan env before NextCandidate st"
  shows "chain_goal plan env before flow st' \<and> flow \<noteq> NextCandidate"
  using assms
proof (induction plan env i cs st arbitrary: flow rule: chain_loop.induct)
  case (1 plan env i st)
  then show ?case using chain_goal_break by auto
next
  case (2 plan env i c cs st)
  obtain fl st1 where step: "chain_step plan env i c st = (fl, st1)" by fastforce
  have goal: "chain_goal plan env before fl st1"
    using chain_step_goal [OF step] 2(3-5) by simp
  show ?case
  proof (cases "fl = NextCandidate")
    case True
    have "chain_loop plan env (Suc i) cs st1 = (flow, st')" using 2(2) step True by simp
    then show ?thesis
      using 2(1) [OF step [symmetric], of flow] True 2(3,4) goal by simp
  next
    case False
    then have "flow = fl" "st' = st1" using 2(2) step by (auto split: chain_flow.splits)
    then show ?thesis using goal False by simp
  qed
qed

lemma chain_start_goal: "chain_goal plan env before NextCandidate (chain_start plan before b)"
  by (auto simp: chain_goal_def chain_inv_def chain_start_def gateway_failure_def intro!: exI [of _ "[]"])

text \<open>Spending: providers that report no more tokens than they were given keep every attempt
  within its estimate, so the chain within the caller's limit.\<close>

definition honest_usage :: "chain_plan \<Rightarrow> provider_request \<Rightarrow> bool" where
  "honest_usage plan r \<longleftrightarrow>
     (\<forall>c \<in> set (cp_candidates plan). price_list_fields (dp_price_list (xc_deployment c)) \<and>
        (\<forall>q p. xc_provider c q = Inr p \<longrightarrow>
           0 \<le> us_input_tokens (ps_usage p) \<and> us_input_tokens (ps_usage p) \<le> int (input_tokens r) \<and>
           0 \<le> us_output_tokens (ps_usage p) \<and> us_output_tokens (ps_usage p) \<le> pr_max_output_tokens r))"

lemma chain_step_spent:
  assumes "chain_step plan env i c st = (flow, st')" and "xc_rejection_reason c \<noteq> Some []"
    and "c \<in> set (cp_candidates plan)" and "honest_usage plan (cx_request env)"
    and "0 \<le> cs_spent st" and "cs_spent st \<le> limit" and "ro_max_cost_micros (cx_options env) \<le> limit"
  shows "0 \<le> cs_spent st' \<and> cs_spent st' \<le> limit"
  using assms(1,2)
proof (cases rule: chain_step_cases)
  case skipped
  then show ?thesis using assms(5,6) by simp
next
  case (attempted a res)
  have honest: "price_list_fields (dp_price_list (xc_deployment c))"
      "\<And>q p. xc_provider c q = Inr p \<Longrightarrow>
         0 \<le> us_input_tokens (ps_usage p) \<and> us_input_tokens (ps_usage p) \<le> int (input_tokens (cx_request env)) \<and>
         0 \<le> us_output_tokens (ps_usage p) \<and> us_output_tokens (ps_usage p) \<le> pr_max_output_tokens (cx_request env)"
    using assms(3,4) by (auto simp: honest_usage_def)
  show ?thesis
  proof (cases res)
    case None
    then show ?thesis using attempted(6,10) assms(5,6) by simp
  next
    case (Some p)
    from attempted(11) [OF Some] obtain q where q: "xc_provider c q = Inr p" ..
    note h = honest(2) [OF q]
    have "attempt_cost a = estimate (dp_price_list (xc_deployment c)) (us_input_tokens (ps_usage p))
        (us_output_tokens (ps_usage p))"
      using attempted(10) Some by simp
    moreover have "0 \<le> \<dots>" using h honest(1) by (intro estimate_nonneg) simp_all
    moreover have "estimate (dp_price_list (xc_deployment c)) (us_input_tokens (ps_usage p))
        (us_output_tokens (ps_usage p)) \<le> request_cost (xc_deployment c) (cx_request env)"
      unfolding request_cost_def using h honest(1) by (intro estimate_mono) simp_all
    ultimately show ?thesis using attempted(4,6) assms(5,7) by linarith
  qed
qed

lemma chain_loop_spent:
  assumes "chain_loop plan env i cs st = (flow, st')" and "\<forall>c \<in> set cs. xc_rejection_reason c \<noteq> Some []"
    and "set cs \<subseteq> set (cp_candidates plan)" and "honest_usage plan (cx_request env)"
    and "0 \<le> cs_spent st" and "cs_spent st \<le> limit" and "ro_max_cost_micros (cx_options env) \<le> limit"
  shows "0 \<le> cs_spent st' \<and> cs_spent st' \<le> limit"
  using assms
proof (induction plan env i cs st arbitrary: flow rule: chain_loop.induct)
  case (2 plan env i c cs st)
  obtain fl st1 where step: "chain_step plan env i c st = (fl, st1)" by fastforce
  have spent: "0 \<le> cs_spent st1 \<and> cs_spent st1 \<le> limit"
    by (rule chain_step_spent [OF step]) (use 2 in simp_all)
  show ?case
  proof (cases "fl = NextCandidate")
    case True
    have "chain_loop plan env (Suc i) cs st1 = (flow, st')" using 2(2) step True by simp
    then show ?thesis using 2(1) [OF step [symmetric], of flow] True 2(3-5,8) spent by simp
  next
    case False
    then have "st' = st1" using 2(2) step by (auto split: chain_flow.splits)
    then show ?thesis using spent by simp
  qed
qed auto

section \<open>The breakers of a chain\<close>

text \<open>
  What the chain relies on: \<open>busy\<close> are the deployments with an outstanding probe. A busy
  deployment is refused, a grant makes at most its own deployment busy, and recording an outcome
  ends the deployment's probe.
\<close>

locale circuit_breaker =
  fixes acquire_op :: "'b \<Rightarrow> ident \<Rightarrow> breaker_thresholds \<Rightarrow> flt \<Rightarrow> bool \<times> 'b"
    and record_op :: "'b \<Rightarrow> ident \<Rightarrow> breaker_thresholds \<Rightarrow> sample \<Rightarrow> 'b"
    and busy :: "'b \<Rightarrow> ident set"
    and breaker_ok :: "'b \<Rightarrow> bool"
  assumes acquire_sound: "breaker_ok b \<Longrightarrow> acquire_op b d t k = (granted, b') \<Longrightarrow>
      breaker_ok b' \<and> busy b' \<subseteq> (if granted then insert d (busy b) else busy b)"
    and acquire_busy: "breaker_ok b \<Longrightarrow> d \<in> busy b \<Longrightarrow> \<not> fst (acquire_op b d t k)"
    and record_sound: "breaker_ok b \<Longrightarrow>
      breaker_ok (record_op b d t s) \<and> busy (record_op b d t s) \<subseteq> busy b - {d}"
begin

lemma chain_step_breakers:
  assumes "chain_step plan env i c st = (flow, st')" and "xc_rejection_reason c \<noteq> Some []"
    and "cx_acquire env = acquire_op" and "cx_record env = record_op" and "breaker_ok (cs_breakers st)"
  shows "breaker_ok (cs_breakers st') \<and> busy (cs_breakers st') \<subseteq> busy (cs_breakers st)"
proof -
  let ?name = "dp_model_deployment_id (xc_deployment c)"
  let ?st0 = "st\<lparr>cs_visited := ?name # cs_visited st\<rparr>"
  show ?thesis
  proof (cases "?name \<in> set (cs_visited st) \<or> length (cs_attempts st) \<ge> po_max_attempts (cp_policy plan)")
    case True
    then show ?thesis using assms(1,5) by (auto simp: chain_step_def Let_def split: if_splits)
  next
    case False
    obtain skip err b where adm: "admission plan env i c ?st0 = (skip, err, b)"
      by (metis prod_cases3)
    have b: "breaker_ok b" "busy b \<subseteq> (if truthy skip then busy (cs_breakers st) else insert ?name (busy (cs_breakers st)))"
      using adm assms(3,5) acquire_sound
        [of "cs_breakers st" ?name "po_breaker (cp_policy plan)" "cx_clocks env i AtAcquire"]
      by (auto simp: admission_def truthy_def Let_def split: option.splits if_splits prod.splits)
    show ?thesis
    proof (cases "truthy skip")
      case True
      then show ?thesis using assms(1) False adm b by (auto simp: chain_step_def Let_def)
    next
      case not_skipped: False
      let ?st1 = "?st0\<lparr>cs_error := err, cs_breakers := b\<rparr>"
      have "attempt_step plan env i c ?st1 = (flow, st')"
        using assms(1) False adm not_skipped by (simp add: chain_step_def Let_def)
      then obtain s where "cs_breakers st' = record_op b ?name (po_breaker (cp_policy plan)) s"
        using assms(4) by (auto simp: attempt_step_def Let_def split: prod.splits option.splits if_splits)
      then show ?thesis
        using record_sound [OF b(1), of ?name "po_breaker (cp_policy plan)" s] b(2) not_skipped by auto
    qed
  qed
qed

lemma chain_loop_breakers:
  assumes "chain_loop plan env i cs st = (flow, st')" and "\<forall>c \<in> set cs. xc_rejection_reason c \<noteq> Some []"
    and "cx_acquire env = acquire_op" and "cx_record env = record_op" and "breaker_ok (cs_breakers st)"
  shows "breaker_ok (cs_breakers st') \<and> busy (cs_breakers st') \<subseteq> busy (cs_breakers st)"
  using assms
proof (induction cs arbitrary: i st flow)
  case (Cons c cs)
  obtain fl st1 where step: "chain_step plan env i c st = (fl, st1)" by fastforce
  have ok: "breaker_ok (cs_breakers st1) \<and> busy (cs_breakers st1) \<subseteq> busy (cs_breakers st)"
    using chain_step_breakers [OF step] Cons.prems(2-5) by simp
  show ?case
  proof (cases "fl = NextCandidate")
    case True
    have "chain_loop plan env (Suc i) cs st1 = (flow, st')" using Cons.prems(1) step True by simp
    then show ?thesis using Cons.IH [of "Suc i" st1 flow] Cons.prems(2-4) ok by auto
  next
    case False
    then have "st' = st1" using Cons.prems(1) step by (auto split: chain_flow.splits)
    then show ?thesis using ok by simp
  qed
qed simp

end

definition probing_deployments :: "breakers \<Rightarrow> ident set" where
  "probing_deployments b = {d. \<exists>w. window_at b d = Some w \<and> probing w}"

lemma probing_store:
  assumes "window_of b d = Some (w, b')"
  shows "probing_deployments (store b' d w') = (if probing w' then insert d (probing_deployments b)
      else probing_deployments b - {d})"
    and "probing_deployments (publish (store b' d w') d w') = probing_deployments (store b' d w')"
proof -
  have "window_at b' d' = window_at b d'" if "d' \<noteq> d" for d'
    by (rule window_at_window_of [OF assms that])
  then show "probing_deployments (store b' d w') = (if probing w' then insert d (probing_deployments b)
      else probing_deployments b - {d})"
    by (auto simp: probing_deployments_def)
  show "probing_deployments (publish (store b' d w') d w') = probing_deployments (store b' d w')"
    by (auto simp: probing_deployments_def)
qed

lemma probing_window:
  assumes "breakers_inv b" and "window_of b d = Some (w, b')"
  shows "probing w \<longleftrightarrow> d \<in> probing_deployments b"
  using window_of_store(4) [OF assms(2)]
  by (auto simp: probing_deployments_def window_at_def new_window_def)

lemma probing_observe: "window_inv w \<Longrightarrow> \<not> probing (observe_window t s w)"
  by (cases "state w") (auto simp: window_inv_def observe_window_def Let_def)

interpretation platform_breakers: circuit_breaker acquire record_outcome probing_deployments breakers_inv
proof
  fix b d t k granted b'
  assume inv: "breakers_inv b" and run: "acquire b d t k = (granted, b')"
  have "breakers_inv b'" using breaker_step_inv [OF inv, of "AcquireEvent d t k"] run by simp
  moreover have "probing_deployments b' \<subseteq>
      (if granted then insert d (probing_deployments b) else probing_deployments b)"
  proof (cases "window_of b d")
    case None
    then show ?thesis using run by (auto simp: acquire_def)
  next
    case (Some wb)
    then obtain w b1 where w: "window_of b d = Some (w, b1)" by (cases wb) auto
    show ?thesis
      using run probing_store [OF w] probing_window [OF inv w]
      by (auto simp: acquire_def w Let_def advance_def split: if_splits)
  qed
  ultimately show "breakers_inv b' \<and> probing_deployments b' \<subseteq>
      (if granted then insert d (probing_deployments b) else probing_deployments b)" ..
next
  fix b d t k
  assume "breakers_inv b" and "d \<in> probing_deployments b"
  then show "\<not> fst (acquire b d t k)"
    by (auto simp: probing_deployments_def acquire_known(1))
next
  fix b d t s
  assume inv: "breakers_inv b"
  have "probing_deployments (record_outcome b d t s) \<subseteq> probing_deployments b - {d}"
  proof (cases "window_of b d")
    case None
    then have "window_at b d = None" by (auto simp: window_of_def window_at_def split: option.splits)
    with None show ?thesis by (auto simp: record_outcome_def probing_deployments_def)
  next
    case (Some wb)
    then obtain w b1 where w: "window_of b d = Some (w, b1)" by (cases wb) auto
    show ?thesis
      using probing_store [OF w] probing_observe [OF window_of_inv [OF inv w]]
      by (auto simp: record_outcome_def w Let_def)
  qed
  then show "breakers_inv (record_outcome b d t s) \<and>
      probing_deployments (record_outcome b d t s) \<subseteq> probing_deployments b - {d}"
    using breaker_step_inv [OF inv, of "RecordEvent d t s"] by simp
qed

section \<open>Falling back\<close>















section \<open>Properties\<close>

definition coded :: "chain_plan \<Rightarrow> bool" where
  "coded plan \<longleftrightarrow> (\<forall>c \<in> set (cp_candidates plan). xc_rejection_reason c \<noteq> Some [])"

lemma run_chain_goal:
  assumes "run_chain plan env before b = (res, st)" and "coded plan"
  shows "\<exists>flow. chain_goal plan env before flow st \<and>
    res = (case flow of ReturnResult p a \<Rightarrow> Inr (p, a) | RaiseCancelled \<Rightarrow> Inl CancelledError
             | _ \<Rightarrow> Inl (cs_error st)) \<and> flow \<noteq> NextCandidate"
proof -
  obtain flow st' where loop: "chain_loop plan env 0 (cp_candidates plan) (chain_start plan before b) = (flow, st')"
    by fastforce
  have "st' = st" "res = (case flow of ReturnResult p a \<Rightarrow> Inr (p, a) | RaiseCancelled \<Rightarrow> Inl CancelledError
             | _ \<Rightarrow> Inl (cs_error st))"
    using assms(1) loop by (auto simp: run_chain_def)
  then show ?thesis
    using chain_loop_goal [OF loop _ subset_refl chain_start_goal] assms(2) by (auto simp: coded_def)
qed

text \<open>C18. The attempts of a run are bounded and accounted for: they are appended to the ones
  made before, together never exceed the policy's maximum, no deployment is attempted twice, they
  are numbered consecutively, their estimated costs add up to the spend, and each was made on a
  candidate of the plan that satisfies every hard constraint: region, permission to process,
  context window, and for a specialist the policy's permission and thresholds.\<close>

theorem chain_attempts_admitted:
  assumes "run_chain plan env before b = (res, st)" and "coded plan"
  shows "\<exists>new. cs_attempts st = before @ new \<and>
    (new = [] \<or> length (cs_attempts st) \<le> po_max_attempts (cp_policy plan)) \<and>
    distinct (map ga_deployment_id new) \<and>
    map ga_attempt_number new = map (\<lambda>k. length before + k) [1..<Suc (length new)] \<and>
    cs_spent st = sum_list (map attempt_cost new) \<and>
    (\<forall>a \<in> set new. \<exists>c \<in> set (cp_candidates plan).
       ga_deployment_id a = dp_model_deployment_id (xc_deployment c) \<and>
       admissible plan (cx_request env) (cx_options env) (cx_policy env) c)"
proof -
  from run_chain_goal [OF assms] obtain new where "chain_inv plan env before new st"
    by (auto simp: chain_goal_def)
  then show ?thesis by (intro exI [of _ new]) (simp add: chain_inv_def)
qed

text \<open>What a run returns was checked: a result comes with the last attempt, which has no
  error, ended normally and passed validation in time, after failed attempts only; otherwise the
  run raises a cancellation, exactly when its last attempt was cancelled, or a gateway error with
  status 502, 503 or 504, and then every attempt made failed.\<close>

theorem chain_outcome:
  assumes "run_chain plan env before b = (res, st)" and "coded plan"
  shows "\<exists>new. cs_attempts st = before @ new \<and>
    (case res of
       Inr (p, a) \<Rightarrow> new \<noteq> [] \<and> a = last new \<and> ga_error_code a = None \<and>
         ps_finish_reason p \<in> {Stop, Length, ContentFilter} \<and>
         (\<exists>v. cx_validate env (cx_request env) p = Inr v \<and> va_passed v \<and> ga_validation a = Some v) \<and>
         (\<forall>x \<in> set (butlast new). ga_error_code x \<noteq> None)
     | Inl x \<Rightarrow>
         x = CancelledError \<and> new \<noteq> [] \<and> ga_error_code (last new) = Some ''request_cancelled'' \<or>
         gateway_failure x \<and> (\<forall>x \<in> set new. ga_error_code x \<noteq> None))"
proof -
  from run_chain_goal [OF assms] obtain flow where goal: "chain_goal plan env before flow st"
    and res: "res = (case flow of ReturnResult p a \<Rightarrow> Inr (p, a) | RaiseCancelled \<Rightarrow> Inl CancelledError
             | _ \<Rightarrow> Inl (cs_error st))" by blast
  from goal obtain new where inv: "cs_attempts st = before @ new"
    by (auto simp: chain_goal_def chain_inv_def)
  show ?thesis
  proof (cases flow)
    case (ReturnResult p a)
    then show ?thesis using goal res by (auto simp: chain_goal_def chain_inv_def)
  qed (use goal res in \<open>auto simp: chain_goal_def chain_inv_def\<close>)
qed

text \<open>C36. The chain keeps to the caller's budget: as long as providers report no more tokens
  than the request allows, the estimated cost of all attempts of a run together is within
  \<open>max_cost_micros\<close>, however many of them fail.\<close>

theorem chain_budget:
  assumes "run_chain plan env before b = (res, st)" and "coded plan"
    and "honest_usage plan (cx_request env)" and "0 \<le> ro_max_cost_micros (cx_options env)"
  shows "0 \<le> cs_spent st \<and> cs_spent st \<le> ro_max_cost_micros (cx_options env)"
proof -
  obtain flow where loop: "chain_loop plan env 0 (cp_candidates plan) (chain_start plan before b) = (flow, st)"
    using assms(1) by (auto simp: run_chain_def split: prod.splits)
  have "0 \<le> cs_spent (chain_start plan before b)" "cs_spent (chain_start plan before b) \<le> ro_max_cost_micros (cx_options env)"
    using assms(4) by (simp_all add: chain_start_def)
  from chain_loop_spent [OF loop _ subset_refl assms(3) this order_refl] assms(2) show ?thesis
    by (simp add: coded_def)
qed

text \<open>A run leaks no probe: over the platform's breakers it keeps their invariant, and every
  deployment with an outstanding probe afterwards already had one before; a deployment that the
  run probed has had its outcome recorded, whatever the run ended with.\<close>

theorem chain_releases_probes:
  assumes "run_chain plan env before b = (res, st)" and "coded plan"
    and "cx_acquire env = acquire" and "cx_record env = record_outcome" and "breakers_inv b"
  shows "breakers_inv (cs_breakers st) \<and> probing_deployments (cs_breakers st) \<subseteq> probing_deployments b"
proof -
  obtain flow where loop: "chain_loop plan env 0 (cp_candidates plan) (chain_start plan before b) = (flow, st)"
    using assms(1) by (auto simp: run_chain_def split: prod.splits)
  have "cs_breakers (chain_start plan before b) = b" by (simp add: chain_start_def)
  then show ?thesis
    using platform_breakers.chain_loop_breakers [OF loop _ assms(3,4)] assms(2,5) by (simp add: coded_def)
qed


section \<open>A run\<close>

text \<open>A specialist whose endpoint times out, then the foundation with the local provider.\<close>

definition sample_deployment :: "ident \<Rightarrow> deployment" where
  "sample_deployment i =
     \<lparr>dp_model_deployment_id = i, dp_model_provider = ''fake'', dp_model_id = ''m'',
      dp_model_version = ''1'', dp_processing_region = ''local'',
      dp_price_list = \<lparr>pl_version = ''v1'', pl_input_micros_per_1000_tokens = 1000,
        pl_output_micros_per_1000_tokens = 2000\<rparr>\<rparr>"

definition sample_specialist :: execution_candidate where
  "sample_specialist =
     (execution_candidate_default (sample_deployment ''spec'') (\<lambda>_. Inl (ProviderError ''provider_timeout'')))
       \<lparr>xc_specialist := True\<rparr>"

definition sample_foundation :: execution_candidate where
  "sample_foundation =
     execution_candidate_default (sample_deployment ''base'') (\<lambda>_. Inr (fake_generate None sample_provider_request))"

definition sample_plan :: chain_plan where
  "sample_plan =
     \<lparr>cp_candidates = [sample_specialist] @ [sample_foundation],
      cp_policy = default_route_policy ''p1'' ''base'', cp_allow_live_specialists = True,
      cp_fallback_reason = None, cp_considered = []\<rparr>"

definition passed_validation :: validation where
  "passed_validation = \<lparr>va_validator_version = ''v'', va_passed = True, va_checks = []\<rparr>"

definition sample_env :: "breakers chain_env" where
  "sample_env =
     \<lparr>cx_request = sample_provider_request,
      cx_options = \<lparr>ro_mode = AutoMode, ro_max_cost_micros = 100, ro_deadline_ms = 5000\<rparr>,
      cx_policy = policy_decision_default ''p'' 60, cx_interaction_id = ''i1'', cx_deadline = 10,
      cx_validate = (\<lambda>_ _. Inr passed_validation), cx_clocks = (\<lambda>_ _. 0), cx_ids = (\<lambda>_. ''a''),
      cx_acquire = acquire, cx_record = record_outcome\<rparr>"

definition warm_breakers :: breakers where
  "warm_breakers = \<lparr>windows = [(''base'', new_window)], gauges = []\<rparr>"

lemma sample_coded: "coded sample_plan"
  by (simp add: coded_def sample_plan_def sample_specialist_def sample_foundation_def
      execution_candidate_default_def)

lemma sample_input_tokens: "input_tokens sample_provider_request = 2"
  by (simp add: input_tokens_def sample_provider_request_def token_count_def token_ends_def is_space_def code_def)

lemma sample_max: "pr_max_output_tokens sample_provider_request = 3"
  by (simp add: sample_provider_request_def)

lemma sample_answer:
  "us_input_tokens (ps_usage (fake_generate None sample_provider_request)) = 2"
  "0 \<le> us_output_tokens (ps_usage (fake_generate None sample_provider_request))"
  "us_output_tokens (ps_usage (fake_generate None sample_provider_request)) \<le> 3"
  "ps_finish_reason (fake_generate None sample_provider_request) \<in> {Stop, Length, ContentFilter}"
proof -
  have f: "1 \<le> pr_max_output_tokens sample_provider_request" "pr_max_output_tokens sample_provider_request = 3"
    by (simp_all add: sample_provider_request_def)
  have t: "int (token_count (fst (truncated (fake_content sample_provider_request) 3))) \<le> 3"
    using truncated_tokens(1) [of 3 "fake_content sample_provider_request"] by simp
  obtain cut fin where tr: "truncated (fake_content sample_provider_request) 3 = (cut, fin)" by fastforce
  have "fin \<in> {Stop, Length}"
    using tr by (auto simp: truncated_def Let_def split: if_splits)
  then show "us_input_tokens (ps_usage (fake_generate None sample_provider_request)) = 2"
    "0 \<le> us_output_tokens (ps_usage (fake_generate None sample_provider_request))"
    "us_output_tokens (ps_usage (fake_generate None sample_provider_request)) \<le> 3"
    "ps_finish_reason (fake_generate None sample_provider_request) \<in> {Stop, Length, ContentFilter}"
    using t by (auto simp: fake_generate_def Let_def f(2) tr sample_input_tokens)
qed

lemma sample_honest: "honest_usage sample_plan (cx_request sample_env)"
  using sample_answer
  by (simp add: honest_usage_def sample_plan_def sample_specialist_def sample_foundation_def
      execution_candidate_default_def sample_env_def sample_input_tokens sample_deployment_def
      price_list_fields_def sample_max)

lemma sample_budget: "0 \<le> ro_max_cost_micros (cx_options sample_env)"
  by (simp add: sample_env_def)

lemma sample_breakers: "cx_acquire sample_env = acquire" "cx_record sample_env = record_outcome"
  by (simp_all add: sample_env_def)

lemma sample_run: "\<exists>res st. run_chain sample_plan sample_env [] warm_breakers = (res, st)"
  by fastforce


theorem chain_attempts_admitted_witness:
  "\<exists>res st new. run_chain sample_plan sample_env [] warm_breakers = (res, st) \<and>
     cs_attempts st = new \<and> distinct (map ga_deployment_id new) \<and> cs_spent st = sum_list (map attempt_cost new)"
proof -
  obtain res st where run: "run_chain sample_plan sample_env [] warm_breakers = (res, st)"
    using sample_run by blast
  show ?thesis using chain_attempts_admitted [OF run sample_coded] run by auto
qed

theorem chain_outcome_witness:
  "\<exists>res st. run_chain sample_plan sample_env [] warm_breakers = (res, st) \<and>
     (case res of Inr (p, a) \<Rightarrow> ga_error_code a = None | Inl x \<Rightarrow> x = CancelledError \<or> gateway_failure x)"
proof -
  obtain res st where run: "run_chain sample_plan sample_env [] warm_breakers = (res, st)"
    using sample_run by blast
  show ?thesis using chain_outcome [OF run sample_coded] run by (auto split: sum.splits)
qed

theorem chain_budget_witness:
  "\<exists>res st. run_chain sample_plan sample_env [] warm_breakers = (res, st) \<and> 0 \<le> cs_spent st \<and> cs_spent st \<le> 100"
proof -
  obtain res st where run: "run_chain sample_plan sample_env [] warm_breakers = (res, st)"
    using sample_run by blast
  show ?thesis
    using chain_budget [OF run sample_coded sample_honest sample_budget] run by (simp add: sample_env_def)
qed

theorem chain_releases_probes_witness:
  "\<exists>res st. run_chain sample_plan sample_env [] warm_breakers = (res, st) \<and>
     probing_deployments (cs_breakers st) = {}"
proof -
  obtain res st where run: "run_chain sample_plan sample_env [] warm_breakers = (res, st)"
    using sample_run by blast
  have "breakers_inv warm_breakers" "probing_deployments warm_breakers = {}"
    by (auto simp: breakers_inv_def warm_breakers_def window_inv_new probing_deployments_def window_at_def
        new_window_def window_inv_def split: if_splits)
  then show ?thesis
    using chain_releases_probes [OF run sample_coded sample_breakers] run by auto
qed

end
