(* ===== verification/Signing.thy ===== *)
theory Signing
  imports Contracts_Datasets
begin

text \<open>
  The purpose-bound signatures of \<open>signing/__init__.py\<close>. The Ed25519 primitives and base64
  belong to third-party code and are parameters: \<open>sign_bytes\<close> of a private key,
  \<open>verify_bytes\<close> of a public key and \<open>decode\<close>. The message that is signed is the JSON list
  of the version, the purpose, the key and the payload; the lemmas show that the encoding is
  unambiguous, so a signature cannot be moved to another purpose, key or payload. Characters
  are code points below 256.
\<close>

section \<open>JSON lists of strings\<close>

text \<open>\<open>json.dumps\<close> with its default \<open>ensure_ascii\<close>.\<close>

definition escape_ascii :: "char \<Rightarrow> string" where
  "escape_ascii c =
     (let n = code c in
      if n = 34 then [CHR 0x5C, CHR 0x22]
      else if n = 92 then [CHR 0x5C, CHR 0x5C]
      else if n = 10 then [CHR 0x5C, CHR ''n'']
      else if n = 13 then [CHR 0x5C, CHR ''r'']
      else if n = 9 then [CHR 0x5C, CHR ''t'']
      else if n = 8 then [CHR 0x5C, CHR ''b'']
      else if n = 12 then [CHR 0x5C, CHR ''f'']
      else if n < 32 \<or> 127 \<le> n then
        [CHR 0x5C, CHR ''u'', CHR ''0'', CHR ''0'', digit_char (n div 16), digit_char (n mod 16)]
      else [c])"

definition quote_ascii :: "string \<Rightarrow> string" where
  "quote_ascii s = CHR 0x22 # concat (map escape_ascii s) @ [CHR 0x22]"

definition dumps_strings :: "string \<Rightarrow> string list \<Rightarrow> string" where
  "dumps_strings sep xs = ''['' @ join sep (map quote_ascii xs) @ '']''"

text \<open>Reading one escaped character back.\<close>

definition hex_value :: "char \<Rightarrow> nat" where
  "hex_value c = (if code c < 58 then code c - 48 else code c - 87)"

fun read_escape :: "string \<Rightarrow> (char \<times> string) option" where
  "read_escape (b # k # rest) =
     (if b \<noteq> CHR 0x5C then Some (b, k # rest)
      else if k = CHR ''u'' then (case rest of
          z # y # h # l # u \<Rightarrow> Some (char_of (16 * hex_value h + hex_value l), u) | _ \<Rightarrow> None)
      else Some (if k = CHR ''n'' then CHR 0x0A else if k = CHR ''r'' then CHR 0x0D
                 else if k = CHR ''t'' then CHR 0x09 else if k = CHR ''b'' then CHR 0x08
                 else if k = CHR ''f'' then CHR 0x0C else k, rest))"
| "read_escape _ = None"

lemma hex_value_digit: "n < 16 \<Longrightarrow> hex_value (digit_char n) = n"
  by (simp add: hex_value_def code_digit_char)

lemma code_char: "code (char_of n) = n mod 256"
  by (simp add: code_def)

lemma char_of_code: "char_of (code c) = c"
  by (simp add: code_def)

lemma code_less: "code c < 256"
  by (metis char_of_code code_char mod_less_divisor zero_less_numeral)

lemma char_eqI: "code c = code d \<Longrightarrow> c = d"
  by (metis char_of_code)

lemma char_of_specials:
  "char_of (34 :: nat) = CHR 0x22" "char_of (92 :: nat) = CHR 0x5C" "char_of (10 :: nat) = CHR 0x0A"
  "char_of (13 :: nat) = CHR 0x0D" "char_of (9 :: nat) = CHR 0x09" "char_of (8 :: nat) = CHR 0x08"
  "char_of (12 :: nat) = CHR 0x0C"
  by (simp_all add: char_of_def bit_Suc_0_iff)

lemma read_escape_ascii: "read_escape (escape_ascii c @ k # v) = Some (c, k # v)"
proof -
  have c: "c = char_of (code c)" by (simp add: char_of_code)
  consider "code c \<in> {34, 92, 10, 13, 9, 8, 12}" | "code c \<notin> {34, 92, 10, 13, 9, 8, 12}" "code c < 32 \<or> 127 \<le> code c"
    | "code c \<notin> {34, 92, 10, 13, 9, 8, 12}" "\<not> (code c < 32 \<or> 127 \<le> code c)" by blast
  then show ?thesis
  proof cases
    case 1
    then have "c \<in> {CHR 0x22, CHR 0x5C, CHR 0x0A, CHR 0x0D, CHR 0x09, CHR 0x08, CHR 0x0C}"
      by (metis (no_types, lifting) c insert_iff singleton_iff char_of_specials)
    then show ?thesis by (auto simp: escape_ascii_def Let_def code_def)
  next
    case 2
    have "code c div 16 < 16" using code_less [of c] by (simp add: less_mult_imp_div_less)
    then have "char_of (16 * hex_value (digit_char (code c div 16)) + hex_value (digit_char (code c mod 16))) = c"
      by (simp add: hex_value_digit char_of_code)
    moreover have "escape_ascii c =
        [CHR 0x5C, CHR ''u'', CHR ''0'', CHR ''0'', digit_char (code c div 16), digit_char (code c mod 16)]"
      using 2 by (simp add: escape_ascii_def Let_def)
    ultimately show ?thesis by simp
  next
    case 3
    then have "escape_ascii c = [c]" by (simp add: escape_ascii_def Let_def)
    moreover have "c \<noteq> CHR 0x5C" using 3 by (auto simp: code_def)
    ultimately show ?thesis by simp
  qed
qed

lemma escape_ascii_head: "\<exists>h t. escape_ascii c = h # t \<and> h \<noteq> CHR 0x22"
  by (auto simp: escape_ascii_def Let_def code_def)

lemma read_quoted: "read_escape (concat (map escape_ascii (c # cs)) @ CHR 0x22 # x) =
    Some (c, concat (map escape_ascii cs) @ CHR 0x22 # x)"
proof -
  obtain k v where "concat (map escape_ascii cs) @ CHR 0x22 # x = k # v"
    by (cases "concat (map escape_ascii cs) @ CHR 0x22 # x") simp
  then show ?thesis using read_escape_ascii [of c k v] by simp
qed

lemma quoted_head: "concat (map escape_ascii (c # cs)) @ r \<noteq> CHR 0x22 # y"
proof -
  obtain h u where "escape_ascii c = h # u" "h \<noteq> CHR 0x22" using escape_ascii_head by blast
  then show ?thesis by simp
qed

lemma quoted_body:
  "concat (map escape_ascii s) @ CHR 0x22 # x = concat (map escape_ascii t) @ CHR 0x22 # y \<Longrightarrow>
     s = t \<and> x = y"
proof (induction s arbitrary: t)
  case Nil
  then show ?case using quoted_head [of _ _ "CHR 0x22 # y" x] by (cases t) (simp, metis append_Nil concat.simps(1) list.simps(8))
next
  case (Cons c cs)
  show ?case
  proof (cases t)
    case Nil
    then show ?thesis using Cons.prems quoted_head [of c cs "CHR 0x22 # x" y] by simp
  next
    case t: (Cons d ds)
    have "Some (c, concat (map escape_ascii cs) @ CHR 0x22 # x) = Some (d, concat (map escape_ascii ds) @ CHR 0x22 # y)"
      using Cons.prems read_quoted t by metis
    then show ?thesis using Cons.IH [of ds] t by simp
  qed
qed

lemma quote_ascii_inj: "quote_ascii s @ x = quote_ascii t @ y \<Longrightarrow> s = t \<and> x = y"
  using quoted_body [of s x t y] by (simp add: quote_ascii_def)

lemma dumps_strings_inj:
  assumes "dumps_strings sep xs = dumps_strings sep ys" and "length xs = length ys"
  shows "xs = ys"
proof -
  have "join sep (map quote_ascii xs) @ u = join sep (map quote_ascii ys) @ u \<Longrightarrow> length xs = length ys \<Longrightarrow> xs = ys" for u
  proof (induction xs arbitrary: ys u)
    case (Cons a xs)
    then obtain b zs where ys: "ys = b # zs" "length xs = length zs" by (cases ys) (use Cons.prems(2) in auto)
    show ?case
    proof (cases "xs = []")
      case True
      then show ?thesis using Cons.prems(1) ys quote_ascii_inj [of a u b u] by simp
    next
      case False
      then have ne: "map quote_ascii xs \<noteq> []" "map quote_ascii zs \<noteq> []" using ys(2) by auto
      then have "join sep (map quote_ascii (a # xs)) = quote_ascii a @ sep @ join sep (map quote_ascii xs)"
          "join sep (map quote_ascii (b # zs)) = quote_ascii b @ sep @ join sep (map quote_ascii zs)"
        by (metis join.simps(3) list.map(2) neq_Nil_conv)+
      then have "quote_ascii a @ (sep @ join sep (map quote_ascii xs) @ u) =
          quote_ascii b @ (sep @ join sep (map quote_ascii zs) @ u)"
        using Cons.prems(1) ys(1) by simp
      from quote_ascii_inj [OF this] show ?thesis using Cons.IH [where ys = zs and u = u] ys by simp
    qed
  qed simp
  from this [of "[CHR 0x5D]"] show ?thesis using assms by (simp add: dumps_strings_def)
qed

section \<open>Signatures\<close>

definition signing_version :: string where
  "signing_version = ''ed25519-v1''"

definition signing_message :: "string \<Rightarrow> string \<Rightarrow> string \<Rightarrow> string" where
  "signing_message purpose payload key_id =
     dumps_strings '','' [signing_version, purpose, key_id, payload]"

record signer =
  sg_key_id :: string
  sg_sign :: "string \<Rightarrow> string"

definition sign_record :: "('a signed_record_scheme) \<Rightarrow> signer \<Rightarrow> string \<Rightarrow> string \<Rightarrow> 'a signed_record_scheme" where
  "sign_record r s purpose payload =
     r\<lparr>sr_signature := Some (sg_sign s (signing_message purpose payload (sg_key_id s))),
       sr_signature_key_id := Some (sg_key_id s), sr_signature_version := Some signing_version\<rparr>"

text \<open>The verifier: public keys by identifier, with the primitives of the library.\<close>

record 'k verifier =
  vf_keys :: "(string \<times> 'k) list"
  vf_verify :: "'k \<Rightarrow> string \<Rightarrow> string \<Rightarrow> bool"
  vf_decode :: "string \<Rightarrow> string option"

definition verify :: "'k verifier \<Rightarrow> string \<Rightarrow> string \<Rightarrow> string \<Rightarrow> string \<Rightarrow> unit result" where
  "verify v payload signature key_id version =
     (if version \<noteq> signing_version then Inl (ValueError ''signature_verification_failed'')
      else case map_of (vf_keys v) key_id of
        None \<Rightarrow> Inl (ValueError ''signature_verification_failed'')
      | Some k \<Rightarrow> (case vf_decode v signature of
          None \<Rightarrow> Inl (ValueError ''signature_verification_failed'')
        | Some raw \<Rightarrow> guardE (vf_verify v k raw payload) (ValueError ''signature_verification_failed'')))"

definition verify_record ::
    "'a signed_record_scheme \<Rightarrow> 'k verifier option \<Rightarrow> string \<Rightarrow> string \<Rightarrow> unit result" where
  "verify_record r verifier purpose payload =
     (case (verifier, sr_signature r, sr_signature_key_id r) of
        (Some v, Some sig, Some key_id) \<Rightarrow>
          if sig = [] \<or> key_id = [] then Inl (ValueError ''signature_verification_failed'')
          else verify v (signing_message purpose payload key_id) sig key_id
            (case sr_signature_version r of None \<Rightarrow> [] | Some w \<Rightarrow> w)
      | _ \<Rightarrow> Inl (ValueError ''signature_verification_failed''))"

definition signed :: "'a signed_record_scheme \<Rightarrow> bool" where
  "signed r = (sr_signature r \<noteq> None \<or> sr_signature_key_id r \<noteq> None \<or> sr_signature_version r \<noteq> None)"

section \<open>Key rotation\<close>

datatype key_status = ActiveKey | VerifyOnly

record 'k key_ring =
  kr_keys :: "(string \<times> key_status \<times> 'k) list"
  kr_active :: "string option"

definition rotate :: "bool \<Rightarrow> 'k key_ring option \<Rightarrow> string \<Rightarrow> 'k \<Rightarrow> 'k key_ring result" where
  "rotate private_exists ring key_id public_key =
     bindE (if valid_identifier key_id then Inr () else Inl (ValueError field_error)) (\<lambda>_.
       let keys = (case ring of None \<Rightarrow> [] | Some r \<Rightarrow> kr_keys r) in
       if map_of keys key_id \<noteq> None \<or> private_exists then Inl (ValueError ''signing_key_exists'')
       else Inr \<lparr>kr_keys = dict_put key_id (ActiveKey, public_key)
                   (map (\<lambda>(i, _, k). (i, VerifyOnly, k)) keys),
                 kr_active = Some key_id\<rparr>)"

section \<open>Properties\<close>

lemma signing_message_inj:
  "signing_message p x k = signing_message p' x' k' \<Longrightarrow> p = p' \<and> x = x' \<and> k = k'"
  unfolding signing_message_def by (auto dest!: dumps_strings_inj)

text \<open>What the scheme promises for the key \<open>pk\<close> of a signer.\<close>

lemma verify_sign_record:
  fixes v :: "'k verifier" and raw :: "string \<Rightarrow> string" and pk :: 'k
  assumes "\<And>m m'. vf_verify v pk (raw (sg_sign s m)) m' \<longleftrightarrow> m' = m"
    and "\<And>m. vf_decode v (sg_sign s m) = Some (raw (sg_sign s m)) \<and> sg_sign s m \<noteq> []"
    and "map_of (vf_keys v) (sg_key_id s) = Some pk" and "sg_key_id s \<noteq> []"
  shows "verify_record (sign_record r s purpose payload) (Some v) purpose' payload' = Inr () \<longleftrightarrow>
    purpose' = purpose \<and> payload' = payload"
proof -
  have "verify_record (sign_record r s purpose payload) (Some v) purpose' payload' = Inr () \<longleftrightarrow>
      signing_message purpose' payload' (sg_key_id s) = signing_message purpose payload (sg_key_id s)"
    using assms by (simp add: verify_record_def sign_record_def verify_def)
  also have "\<dots> \<longleftrightarrow> purpose' = purpose \<and> payload' = payload"
    using signing_message_inj by blast
  finally show ?thesis .
qed

text \<open>A signature is bound to what was signed. With a scheme that accepts exactly the
  signatures of the key's owner on the very same bytes, a record signed for a purpose and payload
  verifies for that purpose and payload, and for no other purpose or payload; a record with any
  part of the signature missing never verifies, and every record that carries a part of one counts
  as signed, so it is never accepted on a legacy code instead.\<close>

theorem signature_binds:
  fixes v :: "'k verifier" and raw :: "string \<Rightarrow> string" and pk :: 'k
  assumes "\<And>m m'. vf_verify v pk (raw (sg_sign s m)) m' \<longleftrightarrow> m' = m"
    and "\<And>m. vf_decode v (sg_sign s m) = Some (raw (sg_sign s m)) \<and> sg_sign s m \<noteq> []"
    and "map_of (vf_keys v) (sg_key_id s) = Some pk" and "sg_key_id s \<noteq> []"
  shows "(verify_record (sign_record r s purpose payload) (Some v) purpose' payload' = Inr () \<longleftrightarrow>
       purpose' = purpose \<and> payload' = payload) \<and>
    signed (sign_record r s purpose payload) \<and>
    (\<forall>q w p x. sr_signature q = None \<or> sr_signature_key_id q = None \<or> sr_signature_version q = None \<longrightarrow>
       verify_record q w p x \<noteq> Inr ())"
proof -
  have "verify_record (sign_record r s purpose payload) (Some v) purpose' payload' = Inr () \<longleftrightarrow>
      purpose' = purpose \<and> payload' = payload"
    by (rule verify_sign_record) (use assms in simp_all)
  moreover have "verify_record q w p x \<noteq> Inr ()"
    if "sr_signature q = None \<or> sr_signature_key_id q = None \<or> sr_signature_version q = None"
    for q w p x
    using that by (auto simp: verify_record_def verify_def signing_version_def split: option.splits)
  moreover have "signed (sign_record r s purpose payload)" by (simp add: signed_def sign_record_def)
  ultimately show ?thesis by blast
qed

definition echo_signer :: signer where
  "echo_signer = \<lparr>sg_key_id = ''k1'', sg_sign = (\<lambda>m. ''s'' @ m)\<rparr>"

definition echo_verifier :: "unit verifier" where
  "echo_verifier = \<lparr>vf_keys = [(''k1'', ())], vf_verify = (\<lambda>_ raw m. raw = ''s'' @ m), vf_decode = Some\<rparr>"

theorem signature_binds_witness:
  "verify_record (sign_record \<lparr>sr_signature = None, sr_signature_key_id = None, sr_signature_version = None\<rparr>
     echo_signer ''report'' ''x'') (Some echo_verifier) ''manifest'' ''x'' \<noteq> Inr ()"
proof -
  have "vf_verify echo_verifier () (sg_sign echo_signer m) m' \<longleftrightarrow> m' = m" for m m'
    by (auto simp: echo_signer_def echo_verifier_def)
  moreover have "vf_decode echo_verifier (sg_sign echo_signer m) = Some (sg_sign echo_signer m) \<and>
      sg_sign echo_signer m \<noteq> []" for m
    by (simp add: echo_signer_def echo_verifier_def)
  moreover have "map_of (vf_keys echo_verifier) (sg_key_id echo_signer) = Some ()" "sg_key_id echo_signer \<noteq> []"
    by (simp_all add: echo_signer_def echo_verifier_def)
  ultimately show ?thesis
    using signature_binds [where raw = "\<lambda>x. x" and r = "\<lparr>sr_signature = None, sr_signature_key_id = None, sr_signature_version = None\<rparr>" and s = echo_signer and v = echo_verifier and pk = "()"
        and purpose = "''report''" and payload = "''x''" and purpose' = "''manifest''" and payload' = "''x''", THEN conjunct1]
    by simp
qed

text \<open>Rotation keeps every old key for verification and never replaces one: it succeeds
  exactly for a fresh, well-formed identifier with no private key in the way; then the new key is
  the only active one and the ring's pointer names it, and every old key is still there under its
  identifier, as verify-only.\<close>

theorem rotate_keeps_keys:
  "(is_ok (rotate private_exists ring key_id pk) \<longleftrightarrow>
      valid_identifier key_id \<and> \<not> private_exists \<and>
      key_id \<notin> fst ` set (case ring of None \<Rightarrow> [] | Some r \<Rightarrow> kr_keys r)) \<and>
   (case rotate private_exists ring key_id pk of
      Inl _ \<Rightarrow> True
    | Inr ring' \<Rightarrow> kr_active ring' = Some key_id \<and>
        map_of (kr_keys ring') key_id = Some (ActiveKey, pk) \<and>
        kr_keys ring' = map (\<lambda>(i, _, k). (i, VerifyOnly, k)) (case ring of None \<Rightarrow> [] | Some r \<Rightarrow> kr_keys r)
          @ [(key_id, ActiveKey, pk)])"
proof -
  define keys where "keys = (case ring of None \<Rightarrow> [] | Some r \<Rightarrow> kr_keys r)"
  let ?old = "map (\<lambda>(i, _, k). (i, VerifyOnly, k)) keys"
  have known: "map_of keys key_id = None \<longleftrightarrow> key_id \<notin> fst ` set keys"
    by (rule map_of_eq_None_iff)
  have rot: "rotate private_exists ring key_id pk =
      (if \<not> valid_identifier key_id then Inl (ValueError field_error)
       else if key_id \<in> fst ` set keys \<or> private_exists then Inl (ValueError ''signing_key_exists'')
       else Inr \<lparr>kr_keys = dict_put key_id (ActiveKey, pk) ?old, kr_active = Some key_id\<rparr>)"
    unfolding rotate_def keys_def [symmetric] using known by (cases "map_of keys key_id") simp_all
  have put: "dict_put key_id x d = d @ [(key_id, x)]" if "key_id \<notin> fst ` set d"
    for x and d :: "(string \<times> key_status \<times> 'a) list"
    using that by (induction key_id x d rule: dict_put.induct) auto
  have fsts: "fst ` set ?old = fst ` set keys" by (auto simp: image_image split_beta)
  have look: "map_of (dict_put key_id (ActiveKey, pk) ?old) key_id = Some (ActiveKey, pk)"
    by (simp add: map_of_dict_put)
  show ?thesis
  proof (cases "valid_identifier key_id \<and> key_id \<notin> fst ` set keys \<and> \<not> private_exists")
    case True
    then have "rotate private_exists ring key_id pk = Inr \<lparr>kr_keys = ?old @ [(key_id, ActiveKey, pk)], kr_active = Some key_id\<rparr>"
      using rot put [of ?old "(ActiveKey, pk)"] fsts by simp
    moreover have "map_of (?old @ [(key_id, ActiveKey, pk)]) key_id = Some (ActiveKey, pk)"
      using look put [of ?old "(ActiveKey, pk)"] fsts True by (metis (no_types, lifting))
    ultimately show ?thesis unfolding keys_def [symmetric] using True by simp
  next
    case False
    then show ?thesis unfolding keys_def [symmetric] by (auto simp: rot)
  qed
qed

end
