(* ===== verification/Text.thy ===== *)
theory Text
  imports Prelude
begin

text \<open>
  The text measures the program's heuristics share: the words \<open>re.findall(r"\w+", text.casefold())\<close>
  and the runs of consecutive words (\<open>words\<close> and \<open>grams\<close> of \<open>validation/__init__.py\<close>,
  \<open>shingles\<close> of \<open>datasets/curation.py\<close>). Characters are ASCII, where case folding is lower case
  and the NFKC normalisation is the identity. A set of runs is a HOL set; every set here is the
  set of a list.
\<close>

definition casefold :: "string \<Rightarrow> string" where
  "casefold s = map to_lower s"

text \<open>The maximal runs of word characters; \<open>w\<close> is the run that is being read, reversed.\<close>

fun words_from :: "string \<Rightarrow> string \<Rightarrow> string list" where
  "words_from w [] = (if w = [] then [] else [rev w])"
| "words_from w (c # cs) =
     (if is_word_char c then words_from (c # w) cs
      else if w = [] then words_from [] cs else rev w # words_from [] cs)"

definition find_words :: "string \<Rightarrow> string list" where
  "find_words s = words_from [] s"

definition text_words :: "string \<Rightarrow> string list" where
  "text_words s = find_words (casefold s)"

text \<open>The runs of \<open>n\<close> consecutive words, by their starting position.\<close>

definition windows :: "nat \<Rightarrow> string list \<Rightarrow> string list list" where
  "windows n ws = map (\<lambda>i. take n (drop i ws)) [0..<Suc (length ws) - n]"

definition grams :: "string \<Rightarrow> string list set" where
  "grams s = set (windows 5 (text_words s))"

definition shingles :: "string \<Rightarrow> string list set" where
  "shingles s = (let ws = text_words s in set (windows (min 5 (length ws)) ws))"

text \<open>\<open>Counter[key] += 1\<close>.\<close>

definition count_up :: "'k \<Rightarrow> ('k \<times> nat) list \<Rightarrow> ('k \<times> nat) list" where
  "count_up k c = dict_put k (Suc (case map_of c k of None \<Rightarrow> 0 | Some n \<Rightarrow> n)) c"

definition counter_total :: "('k \<times> nat) list \<Rightarrow> nat" where
  "counter_total c = sum_list (map snd c)"

section \<open>Lemmas\<close>

lemma finite_shingles [simp]: "finite (shingles s)"
  by (simp add: shingles_def Let_def)

lemma finite_grams [simp]: "finite (grams s)"
  by (simp add: grams_def)

lemma window_length: "v \<in> set (windows n ws) \<Longrightarrow> length v = n"
  by (auto simp: windows_def)

lemma windows_empty_iff: "windows n ws = [] \<longleftrightarrow> length ws < n"
  by (auto simp: windows_def)

text \<open>Every text has a shingle; only a text without words has the empty one.\<close>

lemma shingles_nonempty: "shingles s \<noteq> {}"
  by (simp add: shingles_def Let_def windows_empty_iff)

lemma counter_total_count_up: "counter_total (count_up k c) = Suc (counter_total c)"
  unfolding count_up_def counter_total_def
proof (induction c)
  case (Cons e c)
  then show ?case
    by (cases e; cases "fst e = k") (auto split: option.splits)
qed simp

end
