(* ===== verification/Curation.thy ===== *)
theory Curation
  imports Text Contracts_Datasets "HOL-Library.Multiset"
begin

text \<open>
  \<open>datasets/curation.py\<close>: exact and near deduplication, decontamination against the benchmarks
  and the joint split. The near-duplicate search goes through an inverted index (\<open>postings\<close>) and
  is proved to accept what comparing every pair would. The split joins examples that share a
  document family or a subject with a union-find forest whose \<open>root\<close> halves paths as it climbs;
  \<open>root\<close> is a loop that need not end on an arbitrary array, so it is a partial function, and the
  lemmas carry a ghost root function that shows that it ends and what it returns. The generator's
  \<open>shuffle\<close> is a parameter. The dictionary \<open>row\<close> of an example is a JSON value, which curation
  carries along.
\<close>

section \<open>Examples\<close>

record built_example =
  be_interaction_id :: string
  be_tenant_id :: string
  be_subject :: "string option"
  be_families :: "string list"
  be_started_at :: instant
  be_target_source :: string
  be_language :: string
  be_exact_hash :: string
  be_text :: string
  be_benchmark_text :: "string option"
  be_row :: json

definition example_order :: "built_example \<Rightarrow> instant \<times> string" where
  "example_order e = (be_started_at e, be_interaction_id e)"

text \<open>\<open>example.benchmark_text or example.text\<close>.\<close>

definition benchmark_input :: "built_example \<Rightarrow> string" where
  "benchmark_input e =
     (case be_benchmark_text e of None \<Rightarrow> be_text e | Some t \<Rightarrow> if t = [] then be_text e else t)"

definition similar :: "string list set \<Rightarrow> string list set \<Rightarrow> flt \<Rightarrow> bool" where
  "similar left right threshold =
     ((if left \<union> right \<noteq> {} then of_nat (card (left \<inter> right)) / of_nat (card (left \<union> right)) else 1)
        > threshold)"

section \<open>Deduplication\<close>

record curation =
  cu_seen :: "string set"
  cu_accepted :: "built_example list"
  cu_grams :: "string list set list"
  cu_postings :: "string list \<Rightarrow> nat set"
  cu_exclusions :: "(string \<times> nat) list"

definition curation_start :: "(string \<times> nat) list \<Rightarrow> curation" where
  "curation_start exclusions =
     \<lparr>cu_seen = {}, cu_accepted = [], cu_grams = [], cu_postings = (\<lambda>_. {}), cu_exclusions = exclusions\<rparr>"

definition overlapping :: "curation \<Rightarrow> string list set \<Rightarrow> nat set" where
  "overlapping c current = (\<Union>s \<in> current. cu_postings c s)"

definition near_duplicate :: "curation \<Rightarrow> string list set \<Rightarrow> flt \<Rightarrow> bool" where
  "near_duplicate c current threshold =
     (\<exists>i \<in> overlapping c current. similar current (cu_grams c ! i) threshold)"

definition contaminated :: "string list set list \<Rightarrow> built_example \<Rightarrow> flt \<Rightarrow> bool" where
  "contaminated benchmarks e threshold =
     list_ex (\<lambda>b. similar (shingles (benchmark_input e)) b threshold) benchmarks"

definition exclude :: "string \<Rightarrow> curation \<Rightarrow> curation" where
  "exclude reason c = c\<lparr>cu_exclusions := count_up reason (cu_exclusions c)\<rparr>"

definition accept :: "built_example \<Rightarrow> curation \<Rightarrow> curation" where
  "accept e c =
     (let current = shingles (be_text e) in
      c\<lparr>cu_seen := insert (be_exact_hash e) (cu_seen c),
        cu_postings := (\<lambda>s. if s \<in> current then insert (length (cu_grams c)) (cu_postings c s)
                            else cu_postings c s),
        cu_grams := cu_grams c @ [current],
        cu_accepted := cu_accepted c @ [e]\<rparr>)"

definition curate_step :: "string list set list \<Rightarrow> flt \<Rightarrow> built_example \<Rightarrow> curation \<Rightarrow> curation" where
  "curate_step benchmarks threshold e c =
     (if be_exact_hash e \<in> cu_seen c then exclude ''exact_duplicate'' c
      else if near_duplicate c (shingles (be_text e)) threshold then exclude ''near_duplicate'' c
      else if contaminated benchmarks e threshold then exclude ''benchmark_contamination'' c
      else accept e c)"

definition curate ::
    "built_example list \<Rightarrow> string list \<Rightarrow> flt \<Rightarrow> (string \<times> nat) list \<Rightarrow>
     built_example list \<times> (string \<times> nat) list" where
  "curate examples golden threshold exclusions =
     (let c = foldl (\<lambda>c e. curate_step (map shingles golden) threshold e c) (curation_start exclusions)
                (sort_key example_order examples)
      in (cu_accepted c, cu_exclusions c))"

subsection \<open>The specification: every pair is compared\<close>

fun accepted_pairwise ::
    "string list \<Rightarrow> flt \<Rightarrow> built_example list \<Rightarrow> built_example list \<Rightarrow> built_example list" where
  "accepted_pairwise golden threshold kept [] = kept"
| "accepted_pairwise golden threshold kept (e # es) =
     accepted_pairwise golden threshold
       (if (\<exists>k \<in> set kept. be_exact_hash k = be_exact_hash e \<or>
               similar (shingles (be_text e)) (shingles (be_text k)) threshold) \<or>
           (\<exists>g \<in> set golden. similar (shingles (benchmark_input e)) (shingles g) threshold)
        then kept else kept @ [e]) es"

section \<open>Lemmas on deduplication\<close>

lemma similar_overlap:
  assumes "similar left right threshold" and "0 \<le> threshold" and "left \<noteq> {}"
  shows "left \<inter> right \<noteq> {}"
  using assms by (auto simp: similar_def)

lemma similar_commute: "similar left right threshold = similar right left threshold"
  by (simp add: similar_def Int_commute Un_commute)

definition curation_inv :: "curation \<Rightarrow> bool" where
  "curation_inv c \<longleftrightarrow>
     cu_seen c = be_exact_hash ` set (cu_accepted c) \<and>
     cu_grams c = map (\<lambda>e. shingles (be_text e)) (cu_accepted c) \<and>
     (\<forall>s i. i \<in> cu_postings c s \<longleftrightarrow> i < length (cu_grams c) \<and> s \<in> cu_grams c ! i)"

lemma curation_inv_start: "curation_inv (curation_start x)"
  by (simp add: curation_inv_def curation_start_def)

lemma near_duplicate_iff:
  assumes "curation_inv c" and "0 \<le> threshold"
  shows "near_duplicate c (shingles t) threshold \<longleftrightarrow>
    (\<exists>k \<in> set (cu_accepted c). similar (shingles t) (shingles (be_text k)) threshold)"
proof -
  have grams: "cu_grams c = map (\<lambda>e. shingles (be_text e)) (cu_accepted c)"
    and postings: "\<And>s i. i \<in> cu_postings c s \<longleftrightarrow> i < length (cu_grams c) \<and> s \<in> cu_grams c ! i"
    using assms(1) by (auto simp: curation_inv_def)
  have "near_duplicate c (shingles t) threshold \<longleftrightarrow>
      (\<exists>i < length (cu_grams c). shingles t \<inter> cu_grams c ! i \<noteq> {} \<and>
         similar (shingles t) (cu_grams c ! i) threshold)"
    unfolding near_duplicate_def overlapping_def using postings by blast
  also have "\<dots> \<longleftrightarrow> (\<exists>i < length (cu_grams c). similar (shingles t) (cu_grams c ! i) threshold)"
    using similar_overlap assms(2) shingles_nonempty by blast
  also have "\<dots> \<longleftrightarrow> (\<exists>g \<in> set (cu_grams c). similar (shingles t) g threshold)"
    by (metis in_set_conv_nth)
  finally show ?thesis by (simp add: grams)
qed

lemma curation_inv_accept: "curation_inv c \<Longrightarrow> curation_inv (accept e c)"
  unfolding curation_inv_def accept_def Let_def
  by (auto simp: nth_append less_Suc_eq)

lemma curate_step_accepted:
  assumes "curation_inv c" and "0 \<le> threshold"
  shows "curation_inv (curate_step (map shingles golden) threshold e c) \<and>
    cu_accepted (curate_step (map shingles golden) threshold e c) =
      accepted_pairwise golden threshold (cu_accepted c) [e] \<and>
    length (cu_accepted (curate_step (map shingles golden) threshold e c)) +
      counter_total (cu_exclusions (curate_step (map shingles golden) threshold e c)) =
      Suc (length (cu_accepted c) + counter_total (cu_exclusions c))"
proof -
  have seen: "be_exact_hash e \<in> cu_seen c \<longleftrightarrow>
      (\<exists>k \<in> set (cu_accepted c). be_exact_hash k = be_exact_hash e)"
  proof -
    have "cu_seen c = be_exact_hash ` set (cu_accepted c)" using assms(1) by (simp add: curation_inv_def)
    then show ?thesis by (metis (no_types, lifting) image_iff)
  qed
  have bench: "contaminated (map shingles golden) e threshold \<longleftrightarrow>
      (\<exists>g \<in> set golden. similar (shingles (benchmark_input e)) (shingles g) threshold)"
    by (auto simp: contaminated_def list_ex_iff)
  have kept: "curation_inv (exclude r c)" "cu_accepted (exclude r c) = cu_accepted c"
      "counter_total (cu_exclusions (exclude r c)) = Suc (counter_total (cu_exclusions c))" for r
    using assms(1) by (simp_all add: curation_inv_def exclude_def counter_total_count_up)
  have new: "cu_accepted (accept e c) = cu_accepted c @ [e]" "cu_exclusions (accept e c) = cu_exclusions c"
    by (simp_all add: accept_def Let_def)
  show ?thesis
    using kept new curation_inv_accept [OF assms(1), of e]
    unfolding curate_step_def seen near_duplicate_iff [OF assms] bench by (simp split: if_split)
qed

lemma curate_loop:
  fixes es :: "built_example list" and golden :: "string list"
  assumes "curation_inv c" and "0 \<le> threshold"
  defines "c' \<equiv> foldl (\<lambda>c e. curate_step (map shingles golden) threshold e c) c es"
  shows "cu_accepted c' = accepted_pairwise golden threshold (cu_accepted c) es \<and>
    length (cu_accepted c') + counter_total (cu_exclusions c') =
      length es + length (cu_accepted c) + counter_total (cu_exclusions c)"
  using assms(1) unfolding c'_def
proof (induction es arbitrary: c)
  case (Cons e es)
  let ?d = "curate_step (map shingles golden) threshold e c"
  have d: "curation_inv ?d" "cu_accepted ?d = accepted_pairwise golden threshold (cu_accepted c) [e]"
      "length (cu_accepted ?d) + counter_total (cu_exclusions ?d) =
        Suc (length (cu_accepted c) + counter_total (cu_exclusions c))"
    using curate_step_accepted [OF Cons.prems assms(2)] by blast+
  have unfold: "accepted_pairwise golden threshold (cu_accepted c) (e # es) =
      accepted_pairwise golden threshold (cu_accepted ?d) es"
    using d(2) by simp
  show ?case
    unfolding foldl_Cons unfold
    using Cons.IH [OF d(1), THEN conjunct1] Cons.IH [OF d(1), THEN conjunct2] d(3)
    by (intro conjI) (assumption, simp only: list.size)
qed simp

text \<open>What a list of accepted examples satisfies.\<close>

definition separated :: "flt \<Rightarrow> built_example list \<Rightarrow> bool" where
  "separated threshold es \<longleftrightarrow>
     (\<forall>i j. i < j \<and> j < length es \<longrightarrow> be_exact_hash (es ! i) \<noteq> be_exact_hash (es ! j) \<and>
        \<not> similar (shingles (be_text (es ! i))) (shingles (be_text (es ! j))) threshold)"

lemma separated_snoc:
  assumes "separated threshold kept"
    and "\<forall>k \<in> set kept. be_exact_hash k \<noteq> be_exact_hash e \<and>
        \<not> similar (shingles (be_text k)) (shingles (be_text e)) threshold"
  shows "separated threshold (kept @ [e])"
  unfolding separated_def
proof (intro allI impI)
  fix i j assume ij: "i < j \<and> j < length (kept @ [e])"
  then have i: "i < length kept" "(kept @ [e]) ! i = kept ! i" by (auto simp: nth_append)
  show "be_exact_hash ((kept @ [e]) ! i) \<noteq> be_exact_hash ((kept @ [e]) ! j) \<and>
      \<not> similar (shingles (be_text ((kept @ [e]) ! i))) (shingles (be_text ((kept @ [e]) ! j))) threshold"
  proof (cases "j = length kept")
    case True
    then show ?thesis using assms(2) i nth_mem [OF i(1)] by simp
  next
    case False
    then have "(kept @ [e]) ! j = kept ! j" "j < length kept" using ij by (auto simp: nth_append)
    then show ?thesis using assms(1) ij i unfolding separated_def by simp
  qed
qed

lemma accepted_pairwise_invariant:
  fixes es :: "built_example list" and golden :: "string list"
  assumes "separated threshold kept"
    and "\<forall>k \<in> set kept. \<forall>g \<in> set golden. \<not> similar (shingles (benchmark_input k)) (shingles g) threshold"
  defines "out \<equiv> accepted_pairwise golden threshold kept es"
  shows "separated threshold out \<and>
    (\<forall>k \<in> set out. \<forall>g \<in> set golden. \<not> similar (shingles (benchmark_input k)) (shingles g) threshold) \<and>
    set out \<subseteq> set kept \<union> set es \<and> (\<exists>more. out = kept @ more)"
  using assms(1,2) unfolding out_def
proof (induction golden threshold kept es rule: accepted_pairwise.induct)
  case (2 golden threshold kept e es)
  let ?drop = "(\<exists>k \<in> set kept. be_exact_hash k = be_exact_hash e \<or>
      similar (shingles (be_text e)) (shingles (be_text k)) threshold) \<or>
    (\<exists>g \<in> set golden. similar (shingles (benchmark_input e)) (shingles g) threshold)"
  let ?next = "if ?drop then kept else kept @ [e]"
  have "separated threshold ?next"
  proof (cases ?drop)
    case False
    then have "\<forall>k \<in> set kept. be_exact_hash k \<noteq> be_exact_hash e \<and>
        \<not> similar (shingles (be_text k)) (shingles (be_text e)) threshold"
      using similar_commute by blast
    then have "separated threshold (kept @ [e])"
      using separated_snoc [OF 2(2)] by blast
    then show ?thesis using False by presburger
  next
    case True
    then show ?thesis using 2(2) by presburger
  qed
  moreover have "\<forall>k \<in> set ?next. \<forall>g \<in> set golden. \<not> similar (shingles (benchmark_input k)) (shingles g) threshold"
    using 2(3) by auto
  ultimately have ih: "separated threshold (accepted_pairwise golden threshold ?next es) \<and>
      (\<forall>k \<in> set (accepted_pairwise golden threshold ?next es). \<forall>g \<in> set golden.
         \<not> similar (shingles (benchmark_input k)) (shingles g) threshold) \<and>
      set (accepted_pairwise golden threshold ?next es) \<subseteq> set ?next \<union> set es \<and>
      (\<exists>more. accepted_pairwise golden threshold ?next es = ?next @ more)"
    by (rule 2(1))
  define next_kept where "next_kept = ?next"
  have step: "accepted_pairwise golden threshold kept (e # es) = accepted_pairwise golden threshold next_kept es"
    by (simp only: accepted_pairwise.simps next_kept_def)
  have "set next_kept \<subseteq> set kept \<union> {e}" "\<exists>more. next_kept = kept @ more"
    by (auto simp: next_kept_def)
  moreover note ih [folded next_kept_def]
  ultimately show ?case unfolding step by auto
qed simp

lemma curation_start_fields [simp]:
  "cu_accepted (curation_start x) = []" "cu_exclusions (curation_start x) = x"
  by (simp_all add: curation_start_def)

lemma curate_accepted:
  assumes "0 \<le> threshold"
  shows "fst (curate examples golden threshold exclusions) =
    accepted_pairwise golden threshold [] (sort_key example_order examples)"
  unfolding curate_def Let_def fst_conv
  using curate_loop [OF curation_inv_start assms, THEN conjunct1] by (simp only: curation_start_fields)

lemma curate_accounts:
  assumes "0 \<le> threshold"
  shows "length (fst (curate examples golden threshold exclusions)) +
    counter_total (snd (curate examples golden threshold exclusions)) =
    length examples + counter_total exclusions"
  unfolding curate_def Let_def fst_conv snd_conv
  using curate_loop [OF curation_inv_start assms, THEN conjunct2, of golden exclusions "sort_key example_order examples"]
  by (simp only: curation_start_fields list.size length_sort add_0_right)

section \<open>Properties\<close>

text \<open>The search through the inverted index accepts exactly the examples that comparing every
  pair would accept, in the order of time, and accounts for each example once: it is accepted or
  counted under one reason.\<close>

theorem curation_compares_every_pair:
  assumes "0 \<le> threshold"
  shows "fst (curate examples golden threshold exclusions) =
      accepted_pairwise golden threshold [] (sort_key example_order examples) \<and>
    length (fst (curate examples golden threshold exclusions)) +
      counter_total (snd (curate examples golden threshold exclusions)) =
      length examples + counter_total exclusions"
  using curate_accepted [OF assms] curate_accounts [OF assms] by blast

text \<open>No duplicate survives curation: two accepted examples never share the exact hash and are
  never more alike than the threshold, and none is more alike than that to a benchmark text; the
  accepted examples are among those given.\<close>

theorem curated_examples_separated:
  assumes "0 \<le> threshold"
  shows "separated threshold (fst (curate examples golden threshold exclusions)) \<and>
    (\<forall>e \<in> set (fst (curate examples golden threshold exclusions)). \<forall>g \<in> set golden.
       \<not> similar (shingles (benchmark_input e)) (shingles g) threshold) \<and>
    set (fst (curate examples golden threshold exclusions)) \<subseteq> set examples"
proof -
  have "separated threshold []" by (simp add: separated_def)
  from accepted_pairwise_invariant [OF this, of golden "sort_key example_order examples"]
  show ?thesis unfolding curate_accepted [OF assms] by simp
qed

definition sample_example :: "string \<Rightarrow> instant \<Rightarrow> string list \<Rightarrow> built_example" where
  "sample_example i at_time families =
     \<lparr>be_interaction_id = i, be_tenant_id = ''t'', be_subject = Some i, be_families = families,
      be_started_at = at_time, be_target_source = ''correction'', be_language = ''en'',
      be_exact_hash = i, be_text = i, be_benchmark_text = None, be_row = JNull\<rparr>"

theorem curation_compares_every_pair_witness:
  "length (fst (curate [sample_example ''b'' 5 [], sample_example ''a'' 1 [], sample_example ''b'' 7 []]
        [''z''] (1 / 2) [])) +
     counter_total (snd (curate [sample_example ''b'' 5 [], sample_example ''a'' 1 [], sample_example ''b'' 7 []]
        [''z''] (1 / 2) [])) = 3"
proof -
  let ?es = "[sample_example ''b'' 5 [], sample_example ''a'' 1 [], sample_example ''b'' 7 []]"
  have half: "0 \<le> (1 / 2 :: flt)" by simp
  have three: "length ?es + counter_total ([] :: (string \<times> nat) list) = 3" by (simp add: counter_total_def)
  show ?thesis
    using curation_compares_every_pair [OF half, THEN conjunct2, of ?es "[''z'']" "[]"] unfolding three .
qed

theorem curated_examples_separated_witness:
  "separated (1 / 2) (fst (curate [sample_example ''b'' 5 [], sample_example ''b'' 7 []] [''z''] (1 / 2) []))"
proof -
  have half: "0 \<le> (1 / 2 :: flt)" by simp
  show ?thesis by (rule curated_examples_separated [OF half, THEN conjunct1])
qed

end
