(* ===== verification/Splitting.thy ===== *)
theory Splitting
  imports Curation
begin

text \<open>
  The joint split of \<open>datasets/curation.py\<close>: examples that share a document family or a subject
  are joined in a union-find forest and always land in the same split. \<open>root\<close> halves paths as it
  climbs; it is a loop that need not end on an arbitrary array, so it is a partial function, and
  a ghost root function shows that it ends and what it returns. The generator's \<open>shuffle\<close> is a
  parameter.
\<close>

section \<open>The forest\<close>

datatype group_key = FamilyOf string | SubjectOf string

definition keys_of :: "built_example \<Rightarrow> group_key list" where
  "keys_of e = map FamilyOf (be_families e) @
     (case be_subject e of None \<Rightarrow> [] | Some s \<Rightarrow> [SubjectOf s])"

partial_function (option) root :: "nat list \<Rightarrow> nat \<Rightarrow> (nat \<times> nat list) option" where
  "root p i = (if p ! i = i then Some (i, p) else root (p[i := p ! (p ! i)]) (p ! (p ! i)))"

type_synonym linking = "nat list \<times> (group_key \<times> nat) list"

definition link_key :: "nat \<Rightarrow> group_key \<Rightarrow> linking \<Rightarrow> linking option" where
  "link_key index key st =
     (case map_of (snd st) key of
        None \<Rightarrow> Some (fst st, dict_put key index (snd st))
      | Some j \<Rightarrow>
          Option.bind (root (fst st) j) (\<lambda>(b, p).
          Option.bind (root p index) (\<lambda>(a, p).
          Some (p[a := b], dict_put key index (snd st)))))"

fun link_keys :: "nat \<Rightarrow> group_key list \<Rightarrow> linking \<Rightarrow> linking option" where
  "link_keys index [] st = Some st"
| "link_keys index (k # ks) st = Option.bind (link_key index k st) (link_keys index ks)"

fun link_all :: "nat \<Rightarrow> built_example list \<Rightarrow> linking \<Rightarrow> linking option" where
  "link_all index [] st = Some st"
| "link_all index (e # es) st =
     Option.bind (link_keys index (keys_of e) st) (link_all (Suc index) es)"

text \<open>\<open>groups.setdefault(root(index), []).append(example)\<close>.\<close>

definition add_to_group :: "nat \<Rightarrow> 'a \<Rightarrow> (nat \<times> 'a list) list \<Rightarrow> (nat \<times> 'a list) list" where
  "add_to_group r e groups =
     dict_put r ((case map_of groups r of None \<Rightarrow> [] | Some g \<Rightarrow> g) @ [e]) groups"

fun group_all :: "nat \<Rightarrow> 'a list \<Rightarrow> nat list \<Rightarrow> (nat \<times> 'a list) list \<Rightarrow> (nat \<times> 'a list) list option" where
  "group_all index [] p groups = Some groups"
| "group_all index (e # es) p groups =
     Option.bind (root p index) (\<lambda>(r, p). group_all (Suc index) es p (add_to_group r e groups))"

section \<open>The split\<close>

definition split_of_time :: "time_split \<Rightarrow> built_example list \<Rightarrow> split" where
  "split_of_time t members =
     (let latest = Max (set (map be_started_at members)) in
      if latest < ts_train_end t then TrainSplit
      else if latest < ts_validation_end t then ValidationSplit else TestSplit)"

definition split_of_fraction :: "nat \<Rightarrow> nat \<Rightarrow> split" where
  "split_of_fraction assigned examples_len =
     (let fraction = of_nat assigned / of_nat (max 1 examples_len) :: flt in
      if fraction < 8 / 10 then TrainSplit else if fraction < 9 / 10 then ValidationSplit else TestSplit)"

type_synonym partition = "split \<Rightarrow> built_example list"

fun assign :: "time_split option \<Rightarrow> nat \<Rightarrow> nat \<Rightarrow> built_example list list \<Rightarrow> partition \<Rightarrow> partition" where
  "assign time examples_len assigned [] result = result"
| "assign time examples_len assigned (g # gs) result =
     (let s = (case time of Some t \<Rightarrow> split_of_time t g | None \<Rightarrow> split_of_fraction assigned examples_len) in
      assign time examples_len (assigned + length g) gs (result(s := result s @ g)))"

definition split_examples ::
    "(int \<Rightarrow> built_example list list \<Rightarrow> built_example list list) \<Rightarrow> built_example list \<Rightarrow>
     dataset_specification \<Rightarrow> partition option" where
  "split_examples shuffle examples spec =
     (let ordered = sort_key example_order examples in
      Option.bind (link_all 0 ordered ([0..<length ordered], [])) (\<lambda>(parents, _).
      Option.bind (group_all 0 ordered parents []) (\<lambda>groups.
      let components = shuffle (ds_seed spec) (map snd groups);
          result = assign (ds_time_split spec) (length ordered) 0 components (\<lambda>_. [])
      in Some (\<lambda>s. sort_key example_order (result s)))))"

section \<open>Lemmas on the forest\<close>

text \<open>\<open>forest p n f\<close>: the array \<open>p\<close> is a forest over the first \<open>n\<close> numbers and \<open>f\<close> names the
  root of each; \<open>d\<close> decreases on the way up.\<close>

definition forest :: "nat list \<Rightarrow> nat \<Rightarrow> (nat \<Rightarrow> nat) \<Rightarrow> bool" where
  "forest p n f \<longleftrightarrow> length p = n \<and>
     (\<exists>d :: nat \<Rightarrow> nat. \<forall>i < n. p ! i < n \<and> (p ! i \<noteq> i \<longrightarrow> d (p ! i) < d i)) \<and>
     (\<forall>i < n. f i < n \<and> f (p ! i) = f i \<and> p ! (f i) = f i \<and> (p ! i = i \<longrightarrow> f i = i))"

lemma forest_init: "forest [0..<n] n (\<lambda>i. i)"
  by (simp add: forest_def)

lemma forest_halve:
  assumes "forest p n f" and i: "i < n" "p ! i \<noteq> i"
  shows "forest (p[i := p ! (p ! i)]) n f"
proof -
  obtain d :: "nat \<Rightarrow> nat" where len: "length p = n"
    and d: "\<And>j. j < n \<Longrightarrow> p ! j < n" "\<And>j. j < n \<Longrightarrow> p ! j \<noteq> j \<Longrightarrow> d (p ! j) < d j"
    and f: "\<And>j. j < n \<Longrightarrow> f j < n \<and> f (p ! j) = f j \<and> p ! (f j) = f j \<and> (p ! j = j \<longrightarrow> f j = j)"
    using assms(1) unfolding forest_def by blast
  let ?q = "p[i := p ! (p ! i)]"
  have up: "p ! (p ! i) < n" "d (p ! (p ! i)) < d i" "p ! (p ! i) \<noteq> i"
    using d(1) [OF d(1) [OF i(1)]] d(2) [OF i] d(2) [OF d(1) [OF i(1)]]
    by (simp, metis less_trans, metis less_irrefl less_trans)
  have q: "?q ! j = (if j = i then p ! (p ! i) else p ! j)" if "j < n" for j
    using that len i(1) by simp
  have "?q ! j < n \<and> (?q ! j \<noteq> j \<longrightarrow> d (?q ! j) < d j)" if "j < n" for j
    using that up d by (simp add: q)
  moreover have "f j < n \<and> f (?q ! j) = f j \<and> ?q ! (f j) = f j \<and> (?q ! j = j \<longrightarrow> f j = j)"
    if "j < n" for j
  proof -
    have "f (p ! (p ! i)) = f i" using f [OF i(1)] f [OF d(1) [OF i(1)]] by simp
    moreover have "f j \<noteq> i" using f [OF that] i(2) by metis
    ultimately show ?thesis using f [OF that] up(3) q [of "f j"] q [OF that] by (cases "j = i") auto
  qed
  ultimately show ?thesis using len unfolding forest_def by auto
qed

lemma root_forest:
  assumes "forest p n f" and "i < n"
  shows "\<exists>q. root p i = Some (f i, q) \<and> forest q n f"
proof -
  obtain d :: "nat \<Rightarrow> nat" where d: "\<And>j. j < n \<Longrightarrow> p ! j < n \<and> (p ! j \<noteq> j \<longrightarrow> d (p ! j) < d j)"
    using assms(1) unfolding forest_def by blast
  show ?thesis using assms d
  proof (induction "d i" arbitrary: p i rule: less_induct)
    case less
    show ?case
    proof (cases "p ! i = i")
      case True
      then have "f i = i" using less.prems(1,2) unfolding forest_def by blast
      then show ?thesis using True less.prems(1) by (subst root.simps) simp
    next
      case False
      let ?j = "p ! (p ! i)" and ?q = "p[i := p ! (p ! i)]"
      have len: "length p = n" using less.prems(1) by (simp add: forest_def)
      have j: "?j < n" "d ?j < d i" "d ?j < d i"
        using less.prems(3) [OF less.prems(2)] less.prems(3) [of "p ! i"] False
        by (simp, metis less_trans, metis less_trans)
      have q: "forest ?q n f" by (rule forest_halve [OF less.prems(1,2) False])
      have dq: "?q ! k < n \<and> (?q ! k \<noteq> k \<longrightarrow> d (?q ! k) < d k)" if "k < n" for k
        using less.prems(3) [OF that] j len less.prems(2) that by (cases "k = i") simp_all
      have "\<exists>r. root ?q ?j = Some (f ?j, r) \<and> forest r n f"
        by (rule less.hyps [OF j(2) q j(1) dq])
      moreover have "f ?j = f i"
        using less.prems(1,2) less.prems(3) [OF less.prems(2)] unfolding forest_def by metis
      ultimately show ?thesis using False by (subst root.simps) simp
    qed
  qed
qed

text \<open>Linking a root below another one merges their trees.\<close>

definition merged :: "nat \<Rightarrow> nat \<Rightarrow> (nat \<Rightarrow> nat) \<Rightarrow> nat \<Rightarrow> nat" where
  "merged a b f i = (if f i = a then b else f i)"

lemma forest_link:
  assumes "forest p n f" and a: "a < n" "p ! a = a" and b: "b < n" "p ! b = b"
  shows "forest (p[a := b]) n (merged a b f)"
proof -
  obtain d :: "nat \<Rightarrow> nat" where len: "length p = n"
    and d: "\<And>j. j < n \<Longrightarrow> p ! j < n" "\<And>j. j < n \<Longrightarrow> p ! j \<noteq> j \<Longrightarrow> d (p ! j) < d j"
    and f: "\<And>j. j < n \<Longrightarrow> f j < n \<and> f (p ! j) = f j \<and> p ! (f j) = f j \<and> (p ! j = j \<longrightarrow> f j = j)"
    using assms(1) unfolding forest_def by blast
  let ?q = "p[a := b]" and ?e = "\<lambda>j. d j + (if f j = a then Suc (d b) else 0)"
  have q: "?q ! j = (if j = a then b else p ! j)" if "j < n" for j
    using that len a(1) by simp
  have fab: "f a = a" "f b = b" using f a b by blast+
  show ?thesis
  proof (cases "a = b")
    case True
    then have "?q = p" "merged a b f = f"
      using a(2) list_update_id [of p a] by (simp_all add: merged_def fun_eq_iff)
    then show ?thesis using assms(1) by simp
  next
    case False
    have up: "?q ! j < n \<and> (?q ! j \<noteq> j \<longrightarrow> ?e (?q ! j) < ?e j)" if "j < n" for j
      using d [OF that] f [OF that] b(1) fab False that by (cases "j = a") (simp_all add: q)
    have roots: "merged a b f j < n \<and> merged a b f (?q ! j) = merged a b f j \<and>
        ?q ! (merged a b f j) = merged a b f j \<and> (?q ! j = j \<longrightarrow> merged a b f j = j)" if "j < n" for j
      using f [OF that] b fab False q [OF that] q [OF b(1)] q [of "f j"]
      by (cases "j = a") (auto simp: merged_def)
    have all: "\<forall>j < n. ?q ! j < n \<and> (?q ! j \<noteq> j \<longrightarrow> ?e (?q ! j) < ?e j)"
        "\<forall>j < n. merged a b f j < n \<and> merged a b f (?q ! j) = merged a b f j \<and>
          ?q ! (merged a b f j) = merged a b f j \<and> (?q ! j = j \<longrightarrow> merged a b f j = j)"
      by (intro allI impI, rule up, assumption, intro allI impI, rule roots, assumption)
    show ?thesis unfolding forest_def length_list_update
      by (intro conjI exI [of _ ?e]) (rule len, rule all(1), rule all(2))
  qed
qed

section \<open>Lemmas on linking\<close>

text \<open>\<open>linked st n f d\<close>: for the pairs \<open>d\<close> of an example and one of its keys that were linked, the
  table \<open>seen\<close> leads to an example of the same tree.\<close>

definition linked :: "linking \<Rightarrow> nat \<Rightarrow> (nat \<Rightarrow> nat) \<Rightarrow> (nat \<times> group_key) set \<Rightarrow> bool" where
  "linked st n f d \<longleftrightarrow> forest (fst st) n f \<and>
     (\<forall>i k. (i, k) \<in> d \<longrightarrow> (\<exists>j. map_of (snd st) k = Some j \<and> f i = f j)) \<and>
     (\<forall>k j. map_of (snd st) k = Some j \<longrightarrow> j < n)"

lemma link_key_linked:
  assumes "linked st n f d" and "index < n"
  shows "\<exists>st' g. link_key index key st = Some st' \<and> linked st' n g (insert (index, key) d)"
proof (cases "map_of (snd st) key")
  case None
  then have fresh: "(i, key) \<notin> d" for i using assms(1) unfolding linked_def by force
  have "linked (fst st, dict_put key index (snd st)) n f (insert (index, key) d)"
    unfolding linked_def
  proof (intro conjI allI impI)
    show "forest (fst (fst st, dict_put key index (snd st))) n f"
      using assms(1) by (simp add: linked_def)
  next
    fix i k assume "(i, k) \<in> insert (index, key) d"
    then show "\<exists>j. map_of (snd (fst st, dict_put key index (snd st))) k = Some j \<and> f i = f j"
      using assms(1) fresh unfolding linked_def by (cases "k = key") auto
  next
    fix k j assume "map_of (snd (fst st, dict_put key index (snd st))) k = Some j"
    then show "j < n" using assms unfolding linked_def by (auto split: if_splits)
  qed
  then show ?thesis using None by (auto simp: link_key_def)
next
  case (Some j)
  have p: "forest (fst st) n f" and j: "j < n"
    and seen: "\<And>i k. (i, k) \<in> d \<Longrightarrow> \<exists>j. map_of (snd st) k = Some j \<and> f i = f j"
    and small: "\<And>k j. map_of (snd st) k = Some j \<Longrightarrow> j < n"
    using assms(1) Some unfolding linked_def by blast+
  obtain q where q: "root (fst st) j = Some (f j, q)" "forest q n f" using root_forest [OF p j] by blast
  obtain r where r: "root q index = Some (f index, r)" "forest r n f"
    using root_forest [OF q(2) assms(2)] by blast
  let ?g = "merged (f index) (f j) f"
  have roots: "f index < n" "r ! f index = f index" "f j < n" "r ! f j = f j"
    using r(2) assms(2) j unfolding forest_def by blast+
  have link: "link_key index key st = Some (r[f index := f j], dict_put key index (snd st))"
    using Some q(1) r(1) by (simp add: link_key_def)
  have "\<exists>j'. map_of (dict_put key index (snd st)) k = Some j' \<and> ?g i = ?g j'"
    if ik: "(i, k) \<in> insert (index, key) d" for i k
  proof (cases "k = key")
    case True
    have "f i = f index \<or> f i = f j" using ik seen [of i k] True Some by auto
    then show ?thesis using True by (auto simp: merged_def)
  next
    case False
    then obtain j' where "map_of (snd st) k = Some j'" "f i = f j'" using ik seen [of i k] by auto
    then show ?thesis using False by (simp add: merged_def)
  qed
  then have "linked (r[f index := f j], dict_put key index (snd st)) n ?g (insert (index, key) d)"
    unfolding linked_def using forest_link [OF r(2) roots] small assms(2) by auto
  then show ?thesis using link by blast
qed

lemma link_keys_linked:
  assumes "linked st n f d" and "index < n"
  shows "\<exists>st' g. link_keys index ks st = Some st' \<and> linked st' n g (d \<union> {index} \<times> set ks)"
  using assms(1)
proof (induction ks arbitrary: st f d)
  case (Cons k ks)
  obtain st1 g where st1: "link_key index k st = Some st1" "linked st1 n g (insert (index, k) d)"
    using link_key_linked [OF Cons.prems assms(2)] by blast
  from Cons.IH [OF st1(2)] obtain st2 h where
    "link_keys index ks st1 = Some st2" "linked st2 n h (insert (index, k) d \<union> {index} \<times> set ks)" by blast
  moreover have "insert (index, k) d \<union> {index} \<times> set ks = d \<union> {index} \<times> set (k # ks)" by auto
  ultimately show ?case using st1(1) by auto
qed auto

lemma link_all_linked:
  assumes "linked st n f d" and "index + length es \<le> n"
  shows "\<exists>st' g. link_all index es st = Some st' \<and>
    linked st' n g (d \<union> {(index + m, k) | m k. m < length es \<and> k \<in> set (keys_of (es ! m))})"
  using assms
proof (induction es arbitrary: index st f d)
  case (Cons e es)
  have index: "index < n" "Suc index + length es \<le> n" using Cons.prems(2) by simp_all
  obtain st1 g where st1: "link_keys index (keys_of e) st = Some st1"
      "linked st1 n g (d \<union> {index} \<times> set (keys_of e))"
    using link_keys_linked [OF Cons.prems(1) index(1)] by blast
  let ?rest = "{(Suc index + m, k) | m k. m < length es \<and> k \<in> set (keys_of (es ! m))}"
  obtain st2 h where st2: "link_all (Suc index) es st1 = Some st2"
      "linked st2 n h ((d \<union> {index} \<times> set (keys_of e)) \<union> ?rest)"
    using Cons.IH [OF st1(2) index(2)] by blast
  have pairs: "{(index + m, k) | m k. m < length (e # es) \<and> k \<in> set (keys_of ((e # es) ! m))} =
      {index} \<times> set (keys_of e) \<union> ?rest"
  proof (intro equalityI subsetI)
    fix x assume "x \<in> {(index + m, k) | m k. m < length (e # es) \<and> k \<in> set (keys_of ((e # es) ! m))}"
    then obtain m k where "x = (index + m, k)" "m < length (e # es)" "k \<in> set (keys_of ((e # es) ! m))" by blast
    then show "x \<in> {index} \<times> set (keys_of e) \<union> ?rest" by (cases m) auto
  next
    fix x assume "x \<in> {index} \<times> set (keys_of e) \<union> ?rest"
    then show "x \<in> {(index + m, k) | m k. m < length (e # es) \<and> k \<in> set (keys_of ((e # es) ! m))}"
    proof
      assume "x \<in> {index} \<times> set (keys_of e)"
      then obtain k where "x = (index, k)" "k \<in> set (keys_of e)" by blast
      then have "x = (index + 0, k) \<and> 0 < length (e # es) \<and> k \<in> set (keys_of ((e # es) ! 0))" by simp
      then show ?thesis by blast
    next
      assume "x \<in> ?rest"
      then obtain m k where "x = (Suc index + m, k)" "m < length es" "k \<in> set (keys_of (es ! m))" by blast
      then have "x = (index + Suc m, k) \<and> Suc m < length (e # es) \<and> k \<in> set (keys_of ((e # es) ! Suc m))"
        by simp
      then show ?thesis by blast
    qed
  qed
  have "link_all index (e # es) st = Some st2" using st1(1) st2(1) by simp
  moreover have "linked st2 n h (d \<union> ({index} \<times> set (keys_of e) \<union> ?rest))"
    using st2(2) by (simp only: Un_assoc)
  ultimately show ?case unfolding pairs by blast
qed auto

section \<open>Lemmas on groups\<close>

fun group_by_root :: "(nat \<Rightarrow> nat) \<Rightarrow> nat \<Rightarrow> 'a list \<Rightarrow> (nat \<times> 'a list) list \<Rightarrow> (nat \<times> 'a list) list" where
  "group_by_root f index [] groups = groups"
| "group_by_root f index (e # es) groups =
     group_by_root f (Suc index) es (add_to_group (f index) e groups)"

lemma group_all_eq:
  assumes "forest p n f" and "index + length es \<le> n"
  shows "group_all index es p groups = Some (group_by_root f index es groups)"
  using assms
proof (induction es arbitrary: index p groups)
  case (Cons e es)
  then obtain q where "root p index = Some (f index, q)" "forest q n f"
    using root_forest [of p n f index] by auto
  then show ?case using Cons by simp
qed simp

lemma add_to_group_mset:
  "mset (concat (map snd (add_to_group r e groups))) = add_mset e (mset (concat (map snd groups)))"
  unfolding add_to_group_def by (induction groups) (auto split: option.splits)

lemma add_to_group_distinct:
  "distinct (map fst groups) \<Longrightarrow> distinct (map fst (add_to_group r e groups))"
  unfolding add_to_group_def by (rule distinct_dict_put)

lemma add_to_group_members:
  assumes "(s, c) \<in> set (add_to_group r e groups)" and "x \<in> set c" and "distinct (map fst groups)"
  shows "(s = r \<and> x = e) \<or> (\<exists>c'. (s, c') \<in> set groups \<and> x \<in> set c')"
proof -
  have "map_of (add_to_group r e groups) s = Some c"
    using assms(1) add_to_group_distinct [OF assms(3)] by (simp add: map_of_eq_Some_iff)
  then show ?thesis
    using assms(2) by (auto simp: add_to_group_def split: if_splits option.splits dest: map_of_SomeD)
qed

lemma group_by_root_spec:
  assumes "distinct (map fst groups)"
  shows "distinct (map fst (group_by_root f index es groups)) \<and>
    mset (concat (map snd (group_by_root f index es groups))) = mset es + mset (concat (map snd groups)) \<and>
    (\<forall>r c x. (r, c) \<in> set (group_by_root f index es groups) \<and> x \<in> set c \<longrightarrow>
       (\<exists>m < length es. x = es ! m \<and> r = f (index + m)) \<or> (\<exists>c'. (r, c') \<in> set groups \<and> x \<in> set c'))"
  using assms
proof (induction es arbitrary: index groups)
  case (Cons e es)
  let ?g = "add_to_group (f index) e groups"
  note ih = Cons.IH [OF add_to_group_distinct [OF Cons.prems, of "f index" e], of "Suc index"]
  have members: "(\<exists>m < length (e # es). x = (e # es) ! m \<and> r = f (index + m)) \<or>
      (\<exists>c'. (r, c') \<in> set groups \<and> x \<in> set c')"
    if rc: "(r, c) \<in> set (group_by_root f (Suc index) es ?g)" "x \<in> set c" for r c x
  proof -
    consider m where "m < length es" "x = es ! m" "r = f (Suc index + m)"
      | c' where "(r, c') \<in> set ?g" "x \<in> set c'"
      using ih rc by blast
    then show ?thesis
    proof cases
      case 1
      then have "Suc m < length (e # es) \<and> x = (e # es) ! Suc m \<and> r = f (index + Suc m)" by simp
      then show ?thesis by blast
    next
      case 2
      have "(r = f index \<and> x = e) \<or> (\<exists>c'. (r, c') \<in> set groups \<and> x \<in> set c')"
        by (rule add_to_group_members [OF 2 Cons.prems])
      moreover have "\<exists>m < length (e # es). x = (e # es) ! m \<and> r = f (index + m)"
        if "r = f index \<and> x = e"
        by (rule exI [of _ 0]) (use that in simp)
      ultimately show ?thesis by blast
    qed
  qed
  have "distinct (map fst (group_by_root f (Suc index) es ?g))"
      "mset (concat (map snd (group_by_root f (Suc index) es ?g))) =
        mset (e # es) + mset (concat (map snd groups))"
    using ih by (blast, simp add: add_to_group_mset)
  then show ?case unfolding group_by_root.simps
    by (intro conjI allI impI) (assumption, assumption, elim conjE, rule members)
qed auto

section \<open>Lemmas on the assignment\<close>

lemma filter_unique:
  assumes "length (filter P xs) \<le> 1" and "a \<in> set xs" "P a" and "b \<in> set xs" "P b"
  shows "a = b"
proof -
  have "a \<in> set (filter P xs)" "b \<in> set (filter P xs)" using assms by simp_all
  then show ?thesis using assms(1) by (cases "filter P xs"; cases "tl (filter P xs)") auto
qed

lemma filter_one_key:
  assumes "distinct (map fst xs)" and "\<forall>e \<in> set xs. P e \<longrightarrow> fst e = r"
  shows "length (filter P xs) \<le> 1"
  using assms
proof (induction xs)
  case (Cons x xs)
  show ?case
  proof (cases "P x")
    case True
    have "\<not> P e" if "e \<in> set xs" for e
      using Cons.prems True that by (metis imageI list.set_intros distinct.simps(2) list.simps(9) set_map)
    then show ?thesis using True by (simp add: filter_empty_conv)
  qed (use Cons in simp)
qed simp

lemma filter_length_perm: "mset xs = mset ys \<Longrightarrow> length (filter P xs) = length (filter P ys)"
  by (metis mset_filter size_mset)

lemma assign_parts:
  "\<exists>ss. length ss = length gs \<and>
     (\<forall>s. assign time m a gs result s = result s @ concat (map fst (filter (\<lambda>x. snd x = s) (zip gs ss)))) \<and>
     (\<forall>t. time = Some t \<longrightarrow> (\<forall>x \<in> set (zip gs ss). snd x = split_of_time t (fst x)))"
proof (induction gs arbitrary: a result)
  case (Cons g gs)
  define s where "s = (case time of Some t \<Rightarrow> split_of_time t g | None \<Rightarrow> split_of_fraction a m)"
  obtain ss where ss: "length ss = length gs"
      "\<forall>u. assign time m (a + length g) gs (result(s := result s @ g)) u =
        (result(s := result s @ g)) u @ concat (map fst (filter (\<lambda>x. snd x = u) (zip gs ss)))"
      "\<forall>t. time = Some t \<longrightarrow> (\<forall>x \<in> set (zip gs ss). snd x = split_of_time t (fst x))"
    using Cons.IH [of "a + length g" "result(s := result s @ g)"] by blast
  have "assign time m a (g # gs) result = assign time m (a + length g) gs (result(s := result s @ g))"
    by (simp add: s_def Let_def)
  then have "length (s # ss) = length (g # gs) \<and>
     (\<forall>u. assign time m a (g # gs) result u =
        result u @ concat (map fst (filter (\<lambda>x. snd x = u) (zip (g # gs) (s # ss))))) \<and>
     (\<forall>t. time = Some t \<longrightarrow> (\<forall>x \<in> set (zip (g # gs) (s # ss)). snd x = split_of_time t (fst x)))"
    using ss by (auto simp: s_def)
  then show ?case by blast
qed simp

definition whole :: "partition \<Rightarrow> built_example multiset" where
  "whole r = mset (r TrainSplit) + mset (r ValidationSplit) + mset (r TestSplit)"

lemma assign_whole: "whole (assign time m a gs result) = whole result + mset (concat gs)"
proof (induction gs arbitrary: a result)
  case (Cons g gs)
  define s where "s = (case time of Some t \<Rightarrow> split_of_time t g | None \<Rightarrow> split_of_fraction a m)"
  have "assign time m a (g # gs) result = assign time m (a + length g) gs (result(s := result s @ g))"
    by (simp add: s_def Let_def)
  moreover have "whole (result(s := result s @ g)) = whole result + mset g"
    by (cases s) (simp_all add: whole_def)
  ultimately show ?case
    using Cons.IH [of "a + length g" "result(s := result s @ g)"]
    by (simp only: concat.simps mset_append add.assoc)
qed simp

section \<open>The split as a whole\<close>

text \<open>The documented behaviour of \<open>random.shuffle\<close>.\<close>

definition permutes_groups :: "(int \<Rightarrow> built_example list list \<Rightarrow> built_example list list) \<Rightarrow> bool" where
  "permutes_groups shuffle \<longleftrightarrow> (\<forall>s gs. mset (shuffle s gs) = mset gs)"

text \<open>What the two loops hand over to the assignment.\<close>

lemma components_spec:
  assumes "permutes_groups shuffle"
  shows "\<exists>comps. mset (concat comps) = mset examples \<and>
    (\<forall>k. length (filter (\<lambda>c. \<exists>x \<in> set c. k \<in> set (keys_of x)) comps) \<le> 1) \<and>
    split_examples shuffle examples spec =
      Some (\<lambda>s. sort_key example_order (assign (ds_time_split spec) (length examples) 0 comps (\<lambda>_. []) s))"
proof -
  have perm: "mset (shuffle s gs) = mset gs" for s gs using assms by (simp add: permutes_groups_def)
  define ordered where "ordered = sort_key example_order examples"
  let ?n = "length ordered"
  have "linked ([0..<?n], []) ?n (\<lambda>i. i) {}" using forest_init by (simp add: linked_def)
  from link_all_linked [OF this, of 0 ordered]
  obtain st f where st: "link_all 0 ordered ([0..<?n], []) = Some st"
    "linked st ?n f {(m, k) | m k. m < ?n \<and> k \<in> set (keys_of (ordered ! m))}"
    by auto
  obtain p seen where p: "st = (p, seen)" by (cases st)
  have f: "forest p ?n f" using st(2) p by (simp add: linked_def)
  have same: "f i = f j" if "i < ?n" "j < ?n" "k \<in> set (keys_of (ordered ! i))" "k \<in> set (keys_of (ordered ! j))"
    for i j k
  proof -
    have "(i, k) \<in> {(m, k) | m k. m < ?n \<and> k \<in> set (keys_of (ordered ! m))}"
        "(j, k) \<in> {(m, k) | m k. m < ?n \<and> k \<in> set (keys_of (ordered ! m))}" using that by blast+
    then show ?thesis using st(2) unfolding linked_def by (metis (no_types, lifting) option.inject)
  qed
  define groups where "groups = group_by_root f 0 ordered []"
  have groups: "group_all 0 ordered p [] = Some groups"
    unfolding groups_def by (rule group_all_eq [OF f]) simp
  have spec: "distinct (map fst groups)" "mset (concat (map snd groups)) = mset ordered"
    and members: "\<And>r c x. (r, c) \<in> set groups \<Longrightarrow> x \<in> set c \<Longrightarrow> \<exists>m < ?n. x = ordered ! m \<and> r = f m"
    using group_by_root_spec [of "[]" f 0 ordered] unfolding groups_def by auto
  let ?comps = "shuffle (ds_seed spec) (map snd groups)"
  have "length (filter (\<lambda>c. \<exists>x \<in> set c. k \<in> set (keys_of x)) ?comps) \<le> 1" for k
  proof -
    let ?P = "\<lambda>e. \<exists>x \<in> set (snd e). k \<in> set (keys_of x)"
    have eq: "fst e = fst e'" if ee: "e \<in> set groups" "?P e" "e' \<in> set groups" "?P e'" for e e'
    proof -
      obtain x y where x: "x \<in> set (snd e)" "k \<in> set (keys_of x)" and y: "y \<in> set (snd e')" "k \<in> set (keys_of y)"
        using ee by blast
      have "(fst e, snd e) \<in> set groups" "(fst e', snd e') \<in> set groups" using ee by simp_all
      then obtain i j where "i < ?n" "x = ordered ! i" "fst e = f i" "j < ?n" "y = ordered ! j" "fst e' = f j"
        using members x(1) y(1) by blast
      then show ?thesis using same [of i j k] x(2) y(2) by simp
    qed
    have "\<exists>r. \<forall>e \<in> set groups. ?P e \<longrightarrow> fst e = r" using eq by metis
    then obtain r where "\<forall>e \<in> set groups. ?P e \<longrightarrow> fst e = r" by blast
    from filter_one_key [OF spec(1) this] have "length (filter ?P groups) \<le> 1" .
    moreover have "length (filter (\<lambda>c. \<exists>x \<in> set c. k \<in> set (keys_of x)) (map snd groups)) = length (filter ?P groups)"
      by (simp add: filter_map comp_def)
    ultimately show ?thesis using filter_length_perm [OF perm] by metis
  qed
  moreover have "mset (concat ?comps) = mset examples"
  proof -
    have "mset (concat ?comps) = mset (concat (map snd groups))"
      using perm by (metis mset_concat mset_map sum_mset_sum_list)
    then show ?thesis using spec(2) by (simp add: ordered_def)
  qed
  moreover have "split_examples shuffle examples spec =
      Some (\<lambda>s. sort_key example_order (assign (ds_time_split spec) (length examples) 0 ?comps (\<lambda>_. []) s))"
    unfolding split_examples_def ordered_def [symmetric] Let_def st(1) p
    by (simp add: groups) (simp add: ordered_def)
  ultimately show ?thesis by blast
qed

text \<open>Two elements with a common key go to the same split.\<close>

lemma assign_joint:
  assumes "length (filter (\<lambda>c. \<exists>x \<in> set c. k \<in> set (keys_of x)) comps) \<le> 1"
    and "x \<in> set (assign time m a comps (\<lambda>_. []) s)" and "k \<in> set (keys_of x)"
    and "y \<in> set (assign time m a comps (\<lambda>_. []) t)" and "k \<in> set (keys_of y)"
  shows "s = t"
proof -
  let ?P = "\<lambda>c. \<exists>x \<in> set c. k \<in> set (keys_of x)"
  obtain ss where ss: "length ss = length comps"
    "\<And>s. assign time m a comps (\<lambda>_. []) s = concat (map fst (filter (\<lambda>x. snd x = s) (zip comps ss)))"
    using assign_parts [of comps time m a "\<lambda>_. []"] by auto
  have "filter ?P comps = map fst (filter (\<lambda>e. ?P (fst e)) (zip comps ss))"
    using filter_map [of ?P fst "zip comps ss"] ss(1) by (simp add: comp_def)
  then have one: "length (filter (\<lambda>e. ?P (fst e)) (zip comps ss)) \<le> 1" using assms(1) by simp
  obtain c d where "(c, s) \<in> set (zip comps ss)" "x \<in> set c" "(d, t) \<in> set (zip comps ss)" "y \<in> set d"
    using assms(2,4) unfolding ss(2) by auto
  then show ?thesis using filter_unique [OF one, of "(c, s)" "(d, t)"] assms(3,5) by auto
qed

lemma split_of_time_early:
  assumes "x \<in> set c"
  shows "split_of_time t c = TrainSplit \<Longrightarrow> be_started_at x < ts_train_end t"
    and "split_of_time t c = ValidationSplit \<Longrightarrow> be_started_at x < ts_validation_end t"
proof -
  have "be_started_at x \<le> Max (set (map be_started_at c))" using assms by (intro Max_ge) auto
  then show "split_of_time t c = TrainSplit \<Longrightarrow> be_started_at x < ts_train_end t"
    and "split_of_time t c = ValidationSplit \<Longrightarrow> be_started_at x < ts_validation_end t"
    by (auto simp: split_of_time_def Let_def split: if_splits)
qed

section \<open>Properties\<close>

text \<open>C26. The split always returns, and it neither loses nor repeats an example: the three parts
  together hold exactly the examples that were given, each part in the order of time.\<close>

theorem split_returns_partition:
  assumes "permutes_groups shuffle"
  shows "\<exists>r. split_examples shuffle examples spec = Some r \<and> whole r = mset examples \<and>
    (\<forall>s. sorted (map example_order (r s)))"
proof -
  obtain comps where comps: "mset (concat comps) = mset examples" "split_examples shuffle examples spec =
      Some (\<lambda>s. sort_key example_order (assign (ds_time_split spec) (length examples) 0 comps (\<lambda>_. []) s))"
    using components_spec [OF assms] by blast
  have "whole (assign (ds_time_split spec) (length examples) 0 comps (\<lambda>_. [])) = mset examples"
    using assign_whole comps(1) by (simp add: whole_def)
  then show ?thesis using comps(2) by (simp add: whole_def)
qed

text \<open>C14. No document family and no subject crosses a split: two examples that share one are in
  the same part, whatever the permutation drawn; and with cut-off times every training example is
  older than the first cut-off and every validation example older than the second, even when its
  family reaches further.\<close>

theorem split_never_leaks:
  assumes "permutes_groups shuffle"
    and "split_examples shuffle examples spec = Some r"
  shows "(\<forall>s t x y k. x \<in> set (r s) \<and> y \<in> set (r t) \<and> k \<in> set (keys_of x) \<and> k \<in> set (keys_of y) \<longrightarrow> s = t) \<and>
    (\<forall>t. ds_time_split spec = Some t \<longrightarrow>
       (\<forall>x \<in> set (r TrainSplit). be_started_at x < ts_train_end t) \<and>
       (\<forall>x \<in> set (r ValidationSplit). be_started_at x < ts_validation_end t))"
proof -
  obtain comps where
    one: "\<And>k. length (filter (\<lambda>c. \<exists>x \<in> set c. k \<in> set (keys_of x)) comps) \<le> 1"
    and eq: "split_examples shuffle examples spec =
      Some (\<lambda>s. sort_key example_order (assign (ds_time_split spec) (length examples) 0 comps (\<lambda>_. []) s))"
    using components_spec [OF assms(1)] by blast
  let ?a = "assign (ds_time_split spec) (length examples) 0 comps (\<lambda>_. [])"
  have r: "set (r s) = set (?a s)" for s using eq assms(2) by auto
  have timed: "(\<forall>x \<in> set (r TrainSplit). be_started_at x < ts_train_end t) \<and>
       (\<forall>x \<in> set (r ValidationSplit). be_started_at x < ts_validation_end t)"
    if t: "ds_time_split spec = Some t" for t
  proof -
    obtain ss where ss: "\<And>s. ?a s = concat (map fst (filter (\<lambda>x. snd x = s) (zip comps ss)))"
      "\<And>x. x \<in> set (zip comps ss) \<Longrightarrow> snd x = split_of_time t (fst x)"
      using assign_parts [of comps "ds_time_split spec" "length examples" 0 "\<lambda>_. []"] t by auto
    have group: "\<exists>c. x \<in> set c \<and> split_of_time t c = s" if "x \<in> set (r s)" for x s
      using that ss(2) unfolding r ss(1) by fastforce
    show ?thesis using group split_of_time_early by blast
  qed
  show ?thesis using assign_joint [OF one] timed unfolding r by blast
qed

text \<open>Two examples joined by a family, and a third that stands alone.\<close>

definition sample_examples :: "built_example list" where
  "sample_examples = [sample_example ''b'' 5 [''f'', ''g''], sample_example ''a'' 1 [''g''], sample_example ''c'' 3 []]"

lemma same_order_permutes: "permutes_groups (\<lambda>_ gs. gs)"
  by (simp add: permutes_groups_def)

lemma sample_split:
  "\<exists>r s t. split_examples (\<lambda>_ gs. gs) sample_examples sample_dataset_specification = Some r \<and>
     sample_example ''b'' 5 [''f'', ''g''] \<in> set (r s) \<and> sample_example ''a'' 1 [''g''] \<in> set (r t)"
proof -
  obtain comps where comps: "mset (concat comps) = mset sample_examples"
    "split_examples (\<lambda>_ gs. gs) sample_examples sample_dataset_specification =
      Some (\<lambda>s. sort_key example_order
        (assign (ds_time_split sample_dataset_specification) (length sample_examples) 0 comps (\<lambda>_. []) s))"
    using components_spec [OF same_order_permutes] by blast
  let ?a = "assign (ds_time_split sample_dataset_specification) (length sample_examples) 0 comps (\<lambda>_. [])"
  have "whole ?a = mset sample_examples" using assign_whole comps(1) by (simp add: whole_def)
  then have "\<exists>s. x \<in> set (?a s)" if "x \<in># mset sample_examples" for x
    using that by (metis Un_iff set_mset_mset set_mset_union whole_def)
  moreover have "sample_example ''b'' 5 [''f'', ''g''] \<in># mset sample_examples"
      "sample_example ''a'' 1 [''g''] \<in># mset sample_examples"
    by (simp_all add: sample_examples_def)
  ultimately show ?thesis using comps(2) by fastforce
qed

theorem split_returns_partition_witness:
  "\<exists>r. split_examples (\<lambda>_ gs. gs) sample_examples sample_dataset_specification = Some r \<and> size (whole r) = 3"
proof -
  obtain r where "split_examples (\<lambda>_ gs. gs) sample_examples sample_dataset_specification = Some r"
      "whole r = mset sample_examples"
    using split_returns_partition [OF same_order_permutes] by blast
  then show ?thesis by (simp add: sample_examples_def)
qed

theorem split_never_leaks_witness:
  "\<exists>r s. split_examples (\<lambda>_ gs. gs) sample_examples sample_dataset_specification = Some r \<and>
     sample_example ''b'' 5 [''f'', ''g''] \<in> set (r s) \<and> sample_example ''a'' 1 [''g''] \<in> set (r s)"
proof -
  obtain r s t where r: "split_examples (\<lambda>_ gs. gs) sample_examples sample_dataset_specification = Some r"
      "sample_example ''b'' 5 [''f'', ''g''] \<in> set (r s)" "sample_example ''a'' 1 [''g''] \<in> set (r t)"
    using sample_split by blast
  have "FamilyOf ''g'' \<in> set (keys_of (sample_example ''b'' 5 [''f'', ''g'']))"
      "FamilyOf ''g'' \<in> set (keys_of (sample_example ''a'' 1 [''g'']))"
    by (simp_all add: keys_of_def sample_example_def)
  then have "s = t" using split_never_leaks [OF same_order_permutes r(1), THEN conjunct1] r(2,3) by blast
  then show ?thesis using r by blast
qed

end
