(* ===== verification/Storage.thy ===== *)
theory Storage
  imports Outbox
begin

text \<open>
  The tenant-scoped stores of \<open>storage/sqlite.py\<close> with the records of \<open>storage/__init__.py\<close>. A
  database is its committed tables and the tables of the open transaction, if there is one; every
  operation is a function from the database to a result and the database, so a transaction that
  raises leaves the committed tables as they were. A table is a list of rows in insertion order,
  with the primary, unique and foreign keys that the migrations declare: a violation is the
  exception of the driver. The column \<open>data\<close> holds the record itself (the JSON round trip of a
  contract is the contract), and instants are compared as integers, as the texts that
  \<open>timestamp\<close> writes are ordered.
\<close>

section \<open>Rows\<close>

datatype stored_record =
    RInteraction interaction
  | RStarted started
  | RRetrieval retrieval_run
  | RRoute route_decision
  | RAttempt generation_attempt
  | RFeedback feedback

datatype kind = KInteraction | KStarted | KRetrieval | KRoute | KAttempt | KFeedback

fun kind_of :: "stored_record \<Rightarrow> kind" where
  "kind_of (RInteraction _) = KInteraction"
| "kind_of (RStarted _) = KStarted"
| "kind_of (RRetrieval _) = KRetrieval"
| "kind_of (RRoute _) = KRoute"
| "kind_of (RAttempt _) = KAttempt"
| "kind_of (RFeedback _) = KFeedback"

fun record_id :: "stored_record \<Rightarrow> string" where
  "record_id (RInteraction i) = ia_interaction_id i"
| "record_id (RStarted s) = st_interaction_id s"
| "record_id (RRetrieval r) = rr_retrieval_run_id r"
| "record_id (RRoute d) = rd_route_decision_id d"
| "record_id (RAttempt a) = ga_attempt_id a"
| "record_id (RFeedback f) = fb_feedback_id f"

fun interaction_of :: "stored_record \<Rightarrow> string" where
  "interaction_of (RInteraction i) = ia_interaction_id i"
| "interaction_of (RStarted s) = st_interaction_id s"
| "interaction_of (RRetrieval r) = rr_interaction_id r"
| "interaction_of (RRoute d) = rd_interaction_id d"
| "interaction_of (RAttempt a) = ga_interaction_id a"
| "interaction_of (RFeedback f) = fb_interaction_id f"

datatype record_state = ActiveRecord | ExpiredRecord | DeletedRecord

record stored_row =
  sw_tenant :: string
  sw_record :: string
  sw_interaction :: string
  sw_data :: stored_record
  sw_expires :: instant
  sw_state :: record_state
  sw_subject :: "string option"
  sw_started :: "instant option"

record replay_record =
  rp_tenant :: string
  rp_application :: string
  rp_request :: string
  rp_interaction :: string
  rp_fingerprint :: string
  rp_response_ref :: string
  rp_reserved_at :: instant
  rp_expires_at :: instant

record encrypted_payload =
  ep_reference :: string
  ep_tenant :: string
  ep_interaction :: string
  ep_field :: string
  ep_nonce :: string
  ep_ciphertext :: string
  ep_key_version :: string
  ep_expires_at :: instant

record tables =
  tb_rows :: "stored_row list"
  tb_tombstones :: "((string \<times> string) \<times> deletion_request) list"
  tb_subjects :: "((string \<times> string) \<times> deletion_request) list"
  tb_replays :: "replay_record list"
  tb_payloads :: "encrypted_payload list"
  tb_manifests :: "((string \<times> string) \<times> dataset_manifest) list"
  tb_outbox :: "event outbox_row list"

definition empty_tables :: tables where
  "empty_tables = \<lparr>tb_rows = [], tb_tombstones = [], tb_subjects = [], tb_replays = [],
     tb_payloads = [], tb_manifests = [], tb_outbox = []\<rparr>"

record database =
  db_committed :: tables
  db_working :: "tables option"

section \<open>Operations that may raise\<close>

type_synonym 'a op = "database \<Rightarrow> 'a result \<times> database"

definition return_op :: "'a \<Rightarrow> 'a op" where
  "return_op x db = (Inr x, db)"

definition bind_op :: "'a op \<Rightarrow> ('a \<Rightarrow> 'b op) \<Rightarrow> 'b op" where
  "bind_op f g db = (case f db of (Inl e, db') \<Rightarrow> (Inl e, db') | (Inr x, db') \<Rightarrow> g x db')"

definition guard_op :: "bool \<Rightarrow> exc \<Rightarrow> unit op" where
  "guard_op b e db = (if b then Inr () else Inl e, db)"

fun each_op :: "('a \<Rightarrow> unit op) \<Rightarrow> 'a list \<Rightarrow> unit op" where
  "each_op f [] = return_op ()"
| "each_op f (x # xs) = bind_op (f x) (\<lambda>_. each_op f xs)"

definition tables_of :: "database \<Rightarrow> tables" where
  "tables_of db = (case db_working db of None \<Rightarrow> db_committed db | Some t \<Rightarrow> t)"

definition sql_read :: "(tables \<Rightarrow> 'a) \<Rightarrow> 'a op" where
  "sql_read f db = (Inr (f (tables_of db)), db)"

text \<open>Without an open transaction a statement commits by itself.\<close>

definition sql_write :: "(tables \<Rightarrow> tables) \<Rightarrow> unit op" where
  "sql_write f db =
     (Inr (), case db_working db of
        None \<Rightarrow> db\<lparr>db_committed := f (db_committed db)\<rparr>
      | Some t \<Rightarrow> db\<lparr>db_working := Some (f t)\<rparr>)"

definition require_transaction :: "unit op" where
  "require_transaction db =
     guard_op (db_working db \<noteq> None) (StorageError ''storage_transaction_required'') db"

text \<open>\<open>BEGIN\<close> inside a transaction raises, and the handler then rolls back the open one.\<close>

definition transaction :: "'a op \<Rightarrow> 'a op" where
  "transaction f db =
     (if db_working db \<noteq> None then (Inl OtherException, db\<lparr>db_working := None\<rparr>)
      else case f (db\<lparr>db_working := Some (db_committed db)\<rparr>) of
        (Inl e, db') \<Rightarrow> (Inl e, db'\<lparr>db_working := None\<rparr>)
      | (Inr x, db') \<Rightarrow> (Inr x, \<lparr>db_committed = tables_of db', db_working = None\<rparr>))"

section \<open>The metadata store\<close>

definition rows_at :: "tables \<Rightarrow> string \<Rightarrow> kind \<Rightarrow> string \<Rightarrow> stored_row option" where
  "rows_at tb tenant k i =
     find (\<lambda>r. sw_tenant r = tenant \<and> kind_of (sw_data r) = k \<and> sw_record r = i) (tb_rows tb)"

definition get_record :: "string \<Rightarrow> kind \<Rightarrow> string \<Rightarrow> stored_record option op" where
  "get_record tenant k i = sql_read (\<lambda>tb. map_option sw_data (rows_at tb tenant k i))"

definition state_at :: "string \<Rightarrow> string \<Rightarrow> record_state option op" where
  "state_at tenant i = sql_read (\<lambda>tb. map_option sw_state (rows_at tb tenant KInteraction i))"

definition expires_at :: "string \<Rightarrow> string \<Rightarrow> instant option op" where
  "expires_at tenant i = sql_read (\<lambda>tb. map_option sw_expires (rows_at tb tenant KInteraction i))"

definition get_tombstone :: "string \<Rightarrow> string \<Rightarrow> deletion_request option op" where
  "get_tombstone tenant i = sql_read (\<lambda>tb. map_of (tb_tombstones tb) (tenant, i))"

definition get_subject_tombstone :: "string \<Rightarrow> string \<Rightarrow> deletion_request option op" where
  "get_subject_tombstone tenant p = sql_read (\<lambda>tb. map_of (tb_subjects tb) (tenant, p))"

definition writable :: "string \<Rightarrow> string \<Rightarrow> unit op" where
  "writable tenant i =
     bind_op require_transaction (\<lambda>_.
     bind_op (get_tombstone tenant i) (\<lambda>d.
     bind_op (guard_op (d = None) (StorageError ''interaction_deleted'')) (\<lambda>_.
     bind_op (state_at tenant i) (\<lambda>s.
     guard_op (s = None \<or> s = Some ActiveRecord) (StorageError ''interaction_inactive'')))))"

text \<open>The keys of a table of records: the primary key, and the reference to the interaction.\<close>

definition record_keys :: "stored_row \<Rightarrow> tables \<Rightarrow> bool" where
  "record_keys r tb =
     (rows_at tb (sw_tenant r) (kind_of (sw_data r)) (sw_record r) = None \<and>
      (kind_of (sw_data r) = KInteraction \<or> rows_at tb (sw_tenant r) KInteraction (sw_interaction r) \<noteq> None))"

definition insert_record :: "stored_row \<Rightarrow> unit op" where
  "insert_record r =
     bind_op (sql_read (record_keys r)) (\<lambda>ok.
     bind_op (guard_op ok OtherException) (\<lambda>_.
     sql_write (\<lambda>tb. tb\<lparr>tb_rows := tb_rows tb @ [r]\<rparr>)))"

definition new_stored_row :: "string \<Rightarrow> stored_record \<Rightarrow> instant \<Rightarrow> stored_row" where
  "new_stored_row tenant r expires =
     \<lparr>sw_tenant = tenant, sw_record = record_id r, sw_interaction = interaction_of r, sw_data = r,
      sw_expires = expires, sw_state = ActiveRecord,
      sw_subject = (case r of RInteraction i \<Rightarrow> ia_subject i | _ \<Rightarrow> None),
      sw_started = (case r of RInteraction i \<Rightarrow> Some (ia_started_at i) | _ \<Rightarrow> None)\<rparr>"

definition put_record :: "string \<Rightarrow> stored_record \<Rightarrow> instant \<Rightarrow> unit op" where
  "put_record tenant r expires =
     bind_op (writable tenant (interaction_of r)) (\<lambda>_.
     bind_op (guard_op (case r of RInteraction i \<Rightarrow> ia_tenant_id i = tenant | _ \<Rightarrow> True)
                (StorageError ''tenant_mismatch'')) (\<lambda>_.
     bind_op (case new_stored_row tenant r expires of row \<Rightarrow>
                (case sw_subject row of
                   None \<Rightarrow> return_op ()
                 | Some p \<Rightarrow> bind_op (get_subject_tombstone tenant p) (\<lambda>d.
                     guard_op (d = None) (StorageError ''subject_deleted'')))) (\<lambda>_.
     insert_record (new_stored_row tenant r expires))))"

text \<open>\<open>UPDATE interactions SET data=?\<close>.\<close>

definition set_interaction :: "string \<Rightarrow> string \<Rightarrow> interaction \<Rightarrow> tables \<Rightarrow> tables" where
  "set_interaction tenant i new tb =
     tb\<lparr>tb_rows := map (\<lambda>r. if sw_tenant r = tenant \<and> kind_of (sw_data r) = KInteraction \<and> sw_record r = i
                            then r\<lparr>sw_data := RInteraction new\<rparr> else r) (tb_rows tb)\<rparr>"

definition add_shadow_cost :: "string \<Rightarrow> string \<Rightarrow> micros \<Rightarrow> unit op" where
  "add_shadow_cost tenant i cost =
     bind_op (writable tenant i) (\<lambda>_.
     bind_op (get_record tenant KInteraction i) (\<lambda>found.
     (case found of
        Some (RInteraction x) \<Rightarrow>
          sql_write (set_interaction tenant i (x\<lparr>ia_shadow_cost_micros := ia_shadow_cost_micros x + cost\<rparr>))
      | _ \<Rightarrow> return_op ())))"

definition append_feedback :: "string \<Rightarrow> interaction \<Rightarrow> string \<Rightarrow> unit op" where
  "append_feedback tenant x feedback_id =
     bind_op (writable tenant (ia_interaction_id x)) (\<lambda>_.
     sql_write (set_interaction tenant (ia_interaction_id x)
       (x\<lparr>ia_feedback_ids := ia_feedback_ids x @ [feedback_id]\<rparr>)))"

fun interactions_in :: "stored_row list \<Rightarrow> interaction list" where
  "interactions_in [] = []"
| "interactions_in (r # rs) =
     (case sw_data r of RInteraction i \<Rightarrow> i # interactions_in rs | _ \<Rightarrow> interactions_in rs)"

definition for_subject :: "string \<Rightarrow> string \<Rightarrow> interaction list op" where
  "for_subject tenant p = sql_read (\<lambda>tb. interactions_in
     (filter (\<lambda>r. sw_tenant r = tenant \<and> sw_subject r = Some p \<and> sw_state r \<noteq> DeletedRecord) (tb_rows tb)))"

definition is_expired :: "string \<Rightarrow> instant \<Rightarrow> stored_row \<Rightarrow> bool" where
  "is_expired tenant t r = (sw_tenant r = tenant \<and> sw_expires r \<le> t \<and> sw_state r = ActiveRecord)"

definition expired :: "string \<Rightarrow> instant \<Rightarrow> interaction list op" where
  "expired tenant t = sql_read (\<lambda>tb. interactions_in (filter (is_expired tenant t) (tb_rows tb)))"

definition in_window :: "string \<Rightarrow> instant \<Rightarrow> instant \<Rightarrow> interaction list op" where
  "in_window tenant start stop = sql_read (\<lambda>tb. interactions_in
     (sort_key (\<lambda>r. (sw_started r, sw_record r))
       (filter (\<lambda>r. sw_tenant r = tenant \<and>
          (case sw_started r of None \<Rightarrow> False | Some s \<Rightarrow> start \<le> s \<and> s < stop)) (tb_rows tb))))"

subsection \<open>Clearing references\<close>

text \<open>The fields of the stored contracts whose names end in \<open>_ref\<close>.\<close>

fun clear_record :: "stored_record \<Rightarrow> stored_record" where
  "clear_record (RInteraction i) = RInteraction (i\<lparr>ia_input :=
     (ia_input i)\<lparr>is_messages_ref := None, is_response_format_ref := None\<rparr>\<rparr>)"
| "clear_record (RStarted s) = RStarted s"
| "clear_record (RRetrieval r) = RRetrieval (r\<lparr>rr_query_ref := None,
     rr_candidates := map (\<lambda>c. c\<lparr>ce_content_ref := None\<rparr>) (rr_candidates r)\<rparr>)"
| "clear_record (RRoute d) = RRoute d"
| "clear_record (RAttempt a) = RAttempt (a\<lparr>ga_output_ref := None,
     ga_tool_calls := map (\<lambda>c. c\<lparr>tc_arguments_ref := None, tc_result_ref := None\<rparr>) (ga_tool_calls a)\<rparr>)"
| "clear_record (RFeedback f) = RFeedback (f\<lparr>fb_comment_ref := None, fb_correction_ref := None\<rparr>)"

definition clear_row :: "string \<Rightarrow> string \<Rightarrow> record_state \<Rightarrow> stored_row \<Rightarrow> stored_row" where
  "clear_row tenant i s r =
     (if sw_tenant r = tenant \<and> sw_interaction r = i
      then r\<lparr>sw_data := clear_record (sw_data r), sw_state := s\<rparr> else r)"

definition clear_refs :: "string \<Rightarrow> string \<Rightarrow> record_state \<Rightarrow> unit op" where
  "clear_refs tenant i s =
     bind_op require_transaction (\<lambda>_.
     sql_write (\<lambda>tb. tb\<lparr>tb_rows := map (clear_row tenant i s) (tb_rows tb),
       tb_replays := filter (\<lambda>p. \<not> (rp_tenant p = tenant \<and> rp_interaction p = i)) (tb_replays tb)\<rparr>))"

subsection \<open>Tombstones\<close>

text \<open>\<open>INSERT OR IGNORE\<close>: the first tombstone stays.\<close>

definition put_once :: "'k \<Rightarrow> 'v \<Rightarrow> ('k \<times> 'v) list \<Rightarrow> ('k \<times> 'v) list" where
  "put_once k v d = (if map_of d k = None then d @ [(k, v)] else d)"

definition tombstone :: "string \<Rightarrow> string \<Rightarrow> deletion_request \<Rightarrow> unit op" where
  "tombstone tenant i d =
     bind_op require_transaction (\<lambda>_.
     sql_write (\<lambda>tb. tb\<lparr>tb_tombstones := put_once (tenant, i) d (tb_tombstones tb)\<rparr>))"

definition tombstone_subject :: "string \<Rightarrow> deletion_request \<Rightarrow> unit op" where
  "tombstone_subject tenant d =
     bind_op require_transaction (\<lambda>_.
     bind_op (guard_op (dr_scope d = SubjectScope) (StorageError ''invalid_deletion_scope'')) (\<lambda>_.
     sql_write (\<lambda>tb. tb\<lparr>tb_subjects := put_once (tenant, dr_target_id d) d (tb_subjects tb)\<rparr>)))"

section \<open>Payloads\<close>

definition payload_keys :: "encrypted_payload \<Rightarrow> tables \<Rightarrow> bool" where
  "payload_keys p tb =
     (\<not> list_ex (\<lambda>q. ep_tenant q = ep_tenant p \<and> ep_reference q = ep_reference p \<or>
          ep_key_version q = ep_key_version p \<and> ep_nonce q = ep_nonce p) (tb_payloads tb) \<and>
      rows_at tb (ep_tenant p) KInteraction (ep_interaction p) \<noteq> None)"

definition put_payload :: "encrypted_payload \<Rightarrow> unit op" where
  "put_payload p =
     bind_op (writable (ep_tenant p) (ep_interaction p)) (\<lambda>_.
     bind_op (sql_read (payload_keys p)) (\<lambda>ok.
     bind_op (guard_op ok OtherException) (\<lambda>_.
     sql_write (\<lambda>tb. tb\<lparr>tb_payloads := tb_payloads tb @ [p]\<rparr>))))"

definition get_payload :: "string \<Rightarrow> string \<Rightarrow> instant \<Rightarrow> encrypted_payload option op" where
  "get_payload tenant ref t = sql_read (\<lambda>tb.
     find (\<lambda>p. ep_tenant p = tenant \<and> ep_reference p = ref \<and> ep_expires_at p > t) (tb_payloads tb))"

text \<open>A payload that a replay entry references cannot be deleted.\<close>

definition delete_payloads :: "(encrypted_payload \<Rightarrow> bool) \<Rightarrow> unit op" where
  "delete_payloads P =
     bind_op (sql_read (\<lambda>tb. \<not> list_ex (\<lambda>p. P p \<and>
        list_ex (\<lambda>q. rp_tenant q = ep_tenant p \<and> rp_response_ref q = ep_reference p) (tb_replays tb))
        (tb_payloads tb))) (\<lambda>ok.
     bind_op (guard_op ok OtherException) (\<lambda>_.
     sql_write (\<lambda>tb. tb\<lparr>tb_payloads := filter (\<lambda>p. \<not> P p) (tb_payloads tb)\<rparr>)))"

definition delete_interaction :: "string \<Rightarrow> string \<Rightarrow> unit op" where
  "delete_interaction tenant i =
     bind_op require_transaction (\<lambda>_.
     delete_payloads (\<lambda>p. ep_tenant p = tenant \<and> ep_interaction p = i))"

section \<open>Replay entries\<close>

definition same_request :: "string \<Rightarrow> string \<Rightarrow> string \<Rightarrow> replay_record \<Rightarrow> bool" where
  "same_request tenant app req p = (rp_tenant p = tenant \<and> rp_application p = app \<and> rp_request p = req)"

definition replay_keys :: "replay_record \<Rightarrow> tables \<Rightarrow> bool" where
  "replay_keys p tb =
     (\<not> list_ex (same_request (rp_tenant p) (rp_application p) (rp_request p)) (tb_replays tb) \<and>
      rows_at tb (rp_tenant p) KInteraction (rp_interaction p) \<noteq> None \<and>
      list_ex (\<lambda>q. ep_tenant q = rp_tenant p \<and> ep_reference q = rp_response_ref p) (tb_payloads tb))"

definition replay_order :: "replay_record \<Rightarrow> instant \<times> string \<times> string" where
  "replay_order p = (rp_reserved_at p, rp_application p, rp_request p)"

text \<open>The entries of a tenant beyond the capacity, newest first.\<close>

definition evicted :: "tables \<Rightarrow> string \<Rightarrow> nat \<Rightarrow> replay_record list" where
  "evicted tb tenant capacity =
     drop capacity (rev (sort_key replay_order (filter (\<lambda>p. rp_tenant p = tenant) (tb_replays tb))))"

definition delete_response :: "string \<Rightarrow> string \<Rightarrow> unit op" where
  "delete_response tenant ref = delete_payloads (\<lambda>q. ep_tenant q = tenant \<and> ep_reference q = ref)"

definition put_replay :: "replay_record \<Rightarrow> int \<Rightarrow> unit op" where
  "put_replay p capacity =
     bind_op (guard_op (1 \<le> capacity) (StorageError ''invalid_replay_capacity'')) (\<lambda>_.
     bind_op (writable (rp_tenant p) (rp_interaction p)) (\<lambda>_.
     bind_op (sql_read (replay_keys p)) (\<lambda>ok.
     bind_op (guard_op ok OtherException) (\<lambda>_.
     bind_op (sql_write (\<lambda>tb. tb\<lparr>tb_replays := tb_replays tb @ [p]\<rparr>)) (\<lambda>_.
     bind_op (sql_read (\<lambda>tb. evicted tb (rp_tenant p) (nat capacity))) (\<lambda>old.
     bind_op (sql_write (\<lambda>tb. tb\<lparr>tb_replays := filter (\<lambda>q. q \<notin> set old) (tb_replays tb)\<rparr>)) (\<lambda>_.
     each_op (\<lambda>q. delete_response (rp_tenant p) (rp_response_ref q)) old)))))))"

definition get_replay :: "string \<Rightarrow> string \<Rightarrow> string \<Rightarrow> instant \<Rightarrow> replay_record option op" where
  "get_replay tenant app req t = sql_read (\<lambda>tb.
     find (\<lambda>p. same_request tenant app req p \<and> rp_expires_at p > t) (tb_replays tb))"

definition delete_replay :: "string \<Rightarrow> string \<Rightarrow> string \<Rightarrow> unit op" where
  "delete_replay tenant app req =
     bind_op require_transaction (\<lambda>_.
     bind_op (sql_read (\<lambda>tb. find (same_request tenant app req) (tb_replays tb))) (\<lambda>found.
     bind_op (sql_write (\<lambda>tb. tb\<lparr>tb_replays :=
        filter (\<lambda>p. \<not> same_request tenant app req p) (tb_replays tb)\<rparr>)) (\<lambda>_.
     (case found of None \<Rightarrow> return_op () | Some p \<Rightarrow> delete_response tenant (rp_response_ref p)))))"

definition expire_replays :: "string \<Rightarrow> instant \<Rightarrow> unit op" where
  "expire_replays tenant t =
     bind_op (sql_read (\<lambda>tb. filter (\<lambda>p. rp_tenant p = tenant \<and> rp_expires_at p \<le> t) (tb_replays tb)))
       (each_op (\<lambda>p. delete_replay tenant (rp_application p) (rp_request p)))"

section \<open>Dataset manifests and the outbox\<close>

definition put_manifest :: "dataset_manifest \<Rightarrow> unit op" where
  "put_manifest m =
     bind_op require_transaction (\<lambda>_.
     bind_op (sql_read (\<lambda>tb. map_of (tb_manifests tb) (dm_dataset_id m, dm_version m) = None)) (\<lambda>ok.
     bind_op (guard_op ok OtherException) (\<lambda>_.
     sql_write (\<lambda>tb. tb\<lparr>tb_manifests := tb_manifests tb @ [((dm_dataset_id m, dm_version m), m)]\<rparr>))))"

definition approve_manifest :: "dataset_manifest \<Rightarrow> unit op" where
  "approve_manifest m =
     bind_op require_transaction (\<lambda>_.
     sql_write (\<lambda>tb. tb\<lparr>tb_manifests := map (\<lambda>(k, v).
        (k, if k = (dm_dataset_id m, dm_version m) then m else v)) (tb_manifests tb)\<rparr>))"

definition get_manifest :: "string \<Rightarrow> string \<Rightarrow> dataset_manifest option op" where
  "get_manifest dataset version = sql_read (\<lambda>tb. map_of (tb_manifests tb) (dataset, version))"

text \<open>The outbox shares the connection, so its inserts commit with the records.\<close>

definition enqueue_events :: "event list \<Rightarrow> nat \<Rightarrow> nat op" where
  "enqueue_events es limit db =
     (case enqueue (\<lambda>e. e) \<lparr>ob_rows = tb_outbox (tables_of db), ob_in_transaction = (db_working db \<noteq> None)\<rparr> es limit of
        (Inl e, _) \<Rightarrow> (Inl e, db)
      | (Inr n, box) \<Rightarrow> (Inr n, snd (sql_write (\<lambda>tb. tb\<lparr>tb_outbox := ob_rows box\<rparr>) db)))"

section \<open>The retention sweep\<close>

definition sweep :: "string \<Rightarrow> instant \<Rightarrow> nat op" where
  "sweep tenant t =
     transaction (bind_op (expired tenant t) (\<lambda>old.
       bind_op (each_op (\<lambda>i.
         bind_op (clear_refs tenant (ia_interaction_id i) ExpiredRecord) (\<lambda>_.
           delete_interaction tenant (ia_interaction_id i))) old) (\<lambda>_.
       bind_op (expire_replays tenant t) (\<lambda>_. return_op (length old)))))"

end
