(* ===== verification/Storage_Logic.thy ===== *)
theory Storage_Logic
  imports Storage
begin

text \<open>
  A small program logic for the operations of \<open>Storage\<close> inside a transaction. \<open>triple P f Q E\<close>
  says that from tables that satisfy \<open>P\<close> the operation either returns \<open>x\<close> with tables that
  satisfy \<open>Q x\<close> or raises with tables that satisfy \<open>E\<close>, and never touches the committed tables.
  The rules follow the structure of the operations; \<open>op_rules\<close> collects those for the primitive
  ones.
\<close>

definition triple ::
    "(tables \<Rightarrow> bool) \<Rightarrow> 'a op \<Rightarrow> ('a \<Rightarrow> tables \<Rightarrow> bool) \<Rightarrow> (tables \<Rightarrow> bool) \<Rightarrow> bool" where
  "triple P f Q E \<longleftrightarrow>
     (\<forall>(db :: database) tb. db_working db = Some tb \<and> P tb \<longrightarrow>
        (\<exists>r tb'. f db = (r, db\<lparr>db_working := Some tb'\<rparr>) \<and>
           (case r of Inl _ \<Rightarrow> E tb' | Inr x \<Rightarrow> Q x tb')))"

lemma tripleI:
  assumes "\<And>(db :: database) tb. db_working db = Some tb \<Longrightarrow> P tb \<Longrightarrow>
    \<exists>r tb'. f db = (r, db\<lparr>db_working := Some tb'\<rparr>) \<and> (case r of Inl _ \<Rightarrow> E tb' | Inr x \<Rightarrow> Q x tb')"
  shows "triple P f Q E"
  using assms unfolding triple_def by blast

lemma tripleD:
  fixes db :: database
  assumes "triple P f Q E" and "db_working db = Some tb" and "P tb"
  obtains e tb' where "f db = (Inl e, db\<lparr>db_working := Some tb'\<rparr>)" "E tb'"
    | x tb' where "f db = (Inr x, db\<lparr>db_working := Some tb'\<rparr>)" "Q x tb'"
proof -
  obtain r tb' where r: "f db = (r, db\<lparr>db_working := Some tb'\<rparr>)"
      "case r of Inl _ \<Rightarrow> E tb' | Inr x \<Rightarrow> Q x tb'"
    using assms unfolding triple_def by blast
  show ?thesis using r that by (cases r) auto
qed

lemma triple_conseq:
  assumes "triple P f Q E" and "\<And>tb. P' tb \<Longrightarrow> P tb" and "\<And>x tb. Q x tb \<Longrightarrow> Q' x tb"
    and "\<And>tb. E tb \<Longrightarrow> E' tb"
  shows "triple P' f Q' E'"
proof (rule tripleI)
  fix db :: database and tb assume db: "db_working db = Some tb" "P' tb"
  from tripleD [OF assms(1) db(1) assms(2) [OF db(2)]]
  show "\<exists>r tb'. f db = (r, db\<lparr>db_working := Some tb'\<rparr>) \<and> (case r of Inl _ \<Rightarrow> E' tb' | Inr x \<Rightarrow> Q' x tb')"
    by cases (use assms(3,4) in \<open>fastforce+\<close>)
qed

lemma triple_same:
  assumes "\<And>(db :: database) tb. db_working db = Some tb \<Longrightarrow> P tb \<Longrightarrow>
    \<exists>r. f db = (r, db) \<and> (case r of Inl _ \<Rightarrow> E tb | Inr x \<Rightarrow> Q x tb)"
  shows "triple P f Q E"
proof (rule tripleI)
  fix db :: database and tb assume db: "db_working db = Some tb" "P tb"
  then have "db = db\<lparr>db_working := Some tb\<rparr>" by (cases db) simp
  then show "\<exists>r tb'. f db = (r, db\<lparr>db_working := Some tb'\<rparr>) \<and> (case r of Inl _ \<Rightarrow> E tb' | Inr x \<Rightarrow> Q x tb')"
    using assms [OF db] by metis
qed

lemma triple_return: "(\<And>tb. P tb \<Longrightarrow> Q x tb) \<Longrightarrow> triple P (return_op x) Q E"
  by (rule triple_same) (simp add: return_op_def)

lemma triple_bind:
  assumes "triple P f R E" and "\<And>x. triple (R x) (g x) Q E"
  shows "triple P (bind_op f g) Q E"
proof (rule tripleI)
  fix db :: database and tb assume db: "db_working db = Some tb" "P tb"
  from tripleD [OF assms(1) db]
  show "\<exists>r tb'. bind_op f g db = (r, db\<lparr>db_working := Some tb'\<rparr>) \<and> (case r of Inl _ \<Rightarrow> E tb' | Inr x \<Rightarrow> Q x tb')"
  proof cases
    case (2 x tb')
    have "db_working (db\<lparr>db_working := Some tb'\<rparr>) = Some tb'" by simp
    from tripleD [OF assms(2) this 2(2)] show ?thesis
      by cases (auto simp: bind_op_def 2(1))
  qed (auto simp: bind_op_def)
qed

lemma triple_guard:
  assumes "\<And>tb. P tb \<Longrightarrow> b \<Longrightarrow> Q () tb" and "\<And>tb. P tb \<Longrightarrow> \<not> b \<Longrightarrow> E tb"
  shows "triple P (guard_op b e) Q E"
  by (rule triple_same) (use assms in \<open>auto simp: guard_op_def\<close>)

lemma triple_read: "(\<And>tb. P tb \<Longrightarrow> Q (f tb) tb) \<Longrightarrow> triple P (sql_read f) Q E"
  by (rule triple_same) (auto simp: sql_read_def tables_of_def)

lemma triple_write: "(\<And>tb. P tb \<Longrightarrow> Q () (f tb)) \<Longrightarrow> triple P (sql_write f) Q E"
  by (rule tripleI) (auto simp: sql_write_def)

lemma triple_require: "(\<And>tb. P tb \<Longrightarrow> Q () tb) \<Longrightarrow> triple P require_transaction Q E"
  by (rule triple_same) (auto simp: require_transaction_def guard_op_def)

lemma triple_each:
  assumes "\<And>x. x \<in> set xs \<Longrightarrow> triple P (f x) (\<lambda>_. P) E"
  shows "triple P (each_op f xs) (\<lambda>_. P) E"
  using assms
proof (induction xs)
  case (Cons x xs)
  have "triple P (f x) (\<lambda>_. P) E" "triple P (each_op f xs) (\<lambda>_. P) E" using Cons by simp_all
  then show ?case by (simp only: each_op.simps) (rule triple_bind)
qed (simp add: triple_return)

lemmas op_rules = triple_return triple_guard triple_read triple_write triple_require

text \<open>A condition known beforehand.\<close>

lemma triple_pre: "(c \<Longrightarrow> triple P f Q E) \<Longrightarrow> triple (\<lambda>tb. c \<and> P tb) f Q E"
  unfolding triple_def by blast

lemma triple_conj:
  assumes "triple P f Q E" and "triple P' f Q' E'"
  shows "triple (\<lambda>tb. P tb \<and> P' tb) f (\<lambda>x tb. Q x tb \<and> Q' x tb) (\<lambda>tb. E tb \<and> E' tb)"
proof (rule tripleI)
  fix db :: database and tb assume db: "db_working db = Some tb" "P tb \<and> P' tb"
  obtain r tb' where r: "f db = (r, db\<lparr>db_working := Some tb'\<rparr>)"
      "case r of Inl _ \<Rightarrow> E tb' | Inr x \<Rightarrow> Q x tb'"
    using assms(1) db unfolding triple_def by blast
  obtain s tb2 where s: "f db = (s, db\<lparr>db_working := Some tb2\<rparr>)"
      "case s of Inl _ \<Rightarrow> E' tb2 | Inr x \<Rightarrow> Q' x tb2"
    using assms(2) db unfolding triple_def by blast
  have "s = r" "tb2 = tb'" using r(1) s(1) by (simp_all) (metis database.select_convs(2) database.surjective database.update_convs(2) option.inject)
  then show "\<exists>r tb'. f db = (r, db\<lparr>db_working := Some tb'\<rparr>) \<and>
      (case r of Inl _ \<Rightarrow> E tb' \<and> E' tb' | Inr x \<Rightarrow> Q x tb' \<and> Q' x tb')"
    using r s by (cases r) auto
qed

text \<open>A transaction commits or leaves no trace.\<close>

lemma transaction_rule:
  fixes db :: database
  assumes "triple P f Q E" and "db_working db = None" and "P (db_committed db)"
  obtains e where "transaction f db = (Inl e, db)"
    | x tb where "transaction f db = (Inr x, \<lparr>db_committed = tb, db_working = None\<rparr>)" "Q x tb"
proof -
  let ?db = "db\<lparr>db_working := Some (db_committed db)\<rparr>"
  have "db_working ?db = Some (db_committed db)" by simp
  from tripleD [OF assms(1) this assms(3)] show ?thesis
  proof cases
    case (1 e tb')
    then have "transaction f db = (Inl e, db)" using assms(2) by (simp add: transaction_def)
    then show ?thesis using that by blast
  next
    case (2 x tb')
    then have "transaction f db = (Inr x, \<lparr>db_committed = tb', db_working = None\<rparr>)"
      using assms(2) by (simp add: transaction_def tables_of_def)
    then show ?thesis using that 2(2) by blast
  qed
qed

text \<open>An operation that cannot raise.\<close>

lemma transaction_total:
  fixes db :: database
  assumes "triple P f Q (\<lambda>_. False)" and "db_working db = None" and "P (db_committed db)"
  shows "\<exists>x tb. transaction f db = (Inr x, \<lparr>db_committed = tb, db_working = None\<rparr>) \<and> Q x tb"
proof -
  let ?db = "db\<lparr>db_working := Some (db_committed db)\<rparr>"
  have "db_working ?db = Some (db_committed db)" by simp
  from tripleD [OF assms(1) this assms(3)] show ?thesis
    by cases (use assms(2) in \<open>auto simp: transaction_def tables_of_def\<close>)
qed

section \<open>The calls of the stores\<close>

datatype store_call =
    PutRecord string stored_record instant
  | PutPayload encrypted_payload
  | PutReplay replay_record int
  | DeleteReplay string string string
  | ExpireReplays string instant
  | AddShadowCost string string micros
  | AppendFeedback string interaction string
  | ClearRefs string string record_state
  | Tombstone string string deletion_request
  | TombstoneSubject string deletion_request
  | DeletePayloads string string
  | PutManifest dataset_manifest
  | ApproveManifest dataset_manifest

fun perform :: "store_call \<Rightarrow> unit op" where
  "perform (PutRecord t r e) = put_record t r e"
| "perform (PutPayload p) = put_payload p"
| "perform (PutReplay p n) = put_replay p n"
| "perform (DeleteReplay t a q) = delete_replay t a q"
| "perform (ExpireReplays t at_time) = expire_replays t at_time"
| "perform (AddShadowCost t i c) = add_shadow_cost t i c"
| "perform (AppendFeedback t x f) = append_feedback t x f"
| "perform (ClearRefs t i s) = clear_refs t i s"
| "perform (Tombstone t i d) = tombstone t i d"
| "perform (TombstoneSubject t d) = tombstone_subject t d"
| "perform (DeletePayloads t i) = delete_interaction t i"
| "perform (PutManifest m) = put_manifest m"
| "perform (ApproveManifest m) = approve_manifest m"

text \<open>A run is a sequence of transactions, each a sequence of calls.\<close>

fun run_store :: "store_call list list \<Rightarrow> database \<Rightarrow> database" where
  "run_store [] db = db"
| "run_store (cs # txs) db = run_store txs (snd (transaction (each_op perform cs) db))"

lemma run_store_invariant:
  assumes "\<And>c. triple P (perform c) (\<lambda>_. P) (\<lambda>_. True)"
    and "db_working db = None" and "P (db_committed db)"
  shows "db_working (run_store txs db) = None \<and> P (db_committed (run_store txs db))"
  using assms(2,3)
proof (induction txs arbitrary: db)
  case (Cons cs txs)
  have "triple P (each_op perform cs) (\<lambda>_. P) (\<lambda>_. True)" by (rule triple_each) (rule assms(1))
  from transaction_rule [OF this Cons.prems] show ?case
    by cases (use Cons in auto)
qed simp

section \<open>What the operations preserve\<close>

text \<open>The effect of the primitive operations, generically in the assertion.\<close>

lemma triple_writable:
  assumes "\<And>tb. P tb \<Longrightarrow> map_of (tb_tombstones tb) (t, i) = None \<Longrightarrow>
      (map_option sw_state (rows_at tb t KInteraction i) \<in> {None, Some ActiveRecord}) \<Longrightarrow> Q () tb"
    and "\<And>tb. P tb \<Longrightarrow> E tb"
  shows "triple P (writable t i) Q E"
  unfolding writable_def get_tombstone_def state_at_def
  by (rule triple_bind, rule triple_require, assumption,
      rule triple_bind [where R = "\<lambda>d tb. P tb \<and> d = map_of (tb_tombstones tb) (t, i)"], rule triple_read, simp,
      rule triple_bind [where R = "\<lambda>_ tb. P tb \<and> map_of (tb_tombstones tb) (t, i) = None"],
      rule triple_guard, simp, use assms(2) in blast,
      rule triple_bind [where R = "\<lambda>s tb. P tb \<and> map_of (tb_tombstones tb) (t, i) = None \<and>
        s = map_option sw_state (rows_at tb t KInteraction i)"], rule triple_read, simp,
      rule triple_guard, use assms(1) in auto, use assms(2) in blast)

lemma triple_checked_write:
  assumes "\<And>tb. P tb \<Longrightarrow> c tb \<Longrightarrow> Q () (f tb)" and "\<And>tb. P tb \<Longrightarrow> \<not> c tb \<Longrightarrow> E tb"
  shows "triple P (bind_op (sql_read c) (\<lambda>ok. bind_op (guard_op ok e) (\<lambda>_. sql_write f))) Q E"
  by (rule triple_bind [where R = "\<lambda>ok tb. P tb \<and> ok = c tb"], rule triple_read, simp,
      rule triple_bind [where R = "\<lambda>_ tb. P tb \<and> c tb"], rule triple_guard, simp, use assms(2) in blast,
      rule triple_write, use assms(1) in blast)

lemma triple_insert_record:
  assumes "\<And>tb. P tb \<Longrightarrow> record_keys r tb \<Longrightarrow> Q () (tb\<lparr>tb_rows := tb_rows tb @ [r]\<rparr>)"
    and "\<And>tb. P tb \<Longrightarrow> E tb"
  shows "triple P (insert_record r) Q E"
  unfolding insert_record_def by (rule triple_checked_write) (use assms in blast)+

definition referenced :: "tables \<Rightarrow> encrypted_payload \<Rightarrow> bool" where
  "referenced tb p = list_ex (\<lambda>q. rp_tenant q = ep_tenant p \<and> rp_response_ref q = ep_reference p) (tb_replays tb)"

lemma not_referenced:
  "(\<not> list_ex (\<lambda>p. D p \<and>
        list_ex (\<lambda>q. rp_tenant q = ep_tenant p \<and> rp_response_ref q = ep_reference p) (tb_replays tb))
        (tb_payloads tb)) = (\<forall>p \<in> set (tb_payloads tb). D p \<longrightarrow> \<not> referenced tb p)"
  by (auto simp: list_ex_iff referenced_def)

lemma triple_delete_payloads:
  assumes "\<And>tb. P tb \<Longrightarrow> \<forall>p \<in> set (tb_payloads tb). D p \<longrightarrow> \<not> referenced tb p \<Longrightarrow>
      Q () (tb\<lparr>tb_payloads := filter (\<lambda>p. \<not> D p) (tb_payloads tb)\<rparr>)"
    and "\<And>tb. P tb \<Longrightarrow> \<exists>p \<in> set (tb_payloads tb). D p \<and> referenced tb p \<Longrightarrow> E tb"
  shows "triple P (delete_payloads D) Q E"
  unfolding delete_payloads_def not_referenced
proof (rule triple_checked_write)
  fix tb assume "P tb" "\<forall>p \<in> set (tb_payloads tb). D p \<longrightarrow> \<not> referenced tb p"
  then show "Q () (tb\<lparr>tb_payloads := filter (\<lambda>p. \<not> D p) (tb_payloads tb)\<rparr>)" by (rule assms(1))
next
  fix tb assume "P tb" "\<not> (\<forall>p \<in> set (tb_payloads tb). D p \<longrightarrow> \<not> referenced tb p)"
  then show "E tb" using assms(2) by blast
qed

end
