(* ===== verification/Storage_Invariants.thy ===== *)
theory Storage_Invariants
  imports Storage_Logic
begin

text \<open>
  Invariants of the stores: the keys the migrations declare hold in every state a sequence of
  calls can reach, and an interaction that was erased stays erased. Both are proved for the
  changes a call makes to the tables and carried through the calls with the rules of
  \<open>Storage_Logic\<close>.
\<close>

section \<open>The declared keys\<close>

definition row_key :: "stored_row \<Rightarrow> string \<times> kind \<times> string" where
  "row_key r = (sw_tenant r, kind_of (sw_data r), sw_record r)"

definition columns_agree :: "stored_row \<Rightarrow> bool" where
  "columns_agree r = (sw_record r = record_id (sw_data r) \<and> sw_interaction r = interaction_of (sw_data r))"

definition payload_key :: "encrypted_payload \<Rightarrow> string \<times> string" where
  "payload_key p = (ep_tenant p, ep_reference p)"

definition replay_key :: "replay_record \<Rightarrow> string \<times> string \<times> string" where
  "replay_key p = (rp_tenant p, rp_application p, rp_request p)"

definition known :: "stored_row list \<Rightarrow> string \<Rightarrow> string \<Rightarrow> bool" where
  "known rows t i \<longleftrightarrow> (t, KInteraction, i) \<in> row_key ` set rows"

definition rows_ok :: "stored_row list \<Rightarrow> bool" where
  "rows_ok rows \<longleftrightarrow> distinct (map row_key rows) \<and>
     (\<forall>r \<in> set rows. columns_agree r \<and>
        (kind_of (sw_data r) = KInteraction \<or> known rows (sw_tenant r) (sw_interaction r)))"

definition payloads_ok :: "stored_row list \<Rightarrow> encrypted_payload list \<Rightarrow> bool" where
  "payloads_ok rows ps \<longleftrightarrow> distinct (map payload_key ps) \<and>
     (\<forall>p \<in> set ps. known rows (ep_tenant p) (ep_interaction p))"

definition replays_ok :: "stored_row list \<Rightarrow> encrypted_payload list \<Rightarrow> replay_record list \<Rightarrow> bool" where
  "replays_ok rows ps qs \<longleftrightarrow> distinct (map replay_key qs) \<and>
     (\<forall>q \<in> set qs. known rows (rp_tenant q) (rp_interaction q) \<and>
        (rp_tenant q, rp_response_ref q) \<in> payload_key ` set ps)"

definition schema :: "tables \<Rightarrow> bool" where
  "schema tb \<longleftrightarrow> rows_ok (tb_rows tb) \<and> payloads_ok (tb_rows tb) (tb_payloads tb) \<and>
     replays_ok (tb_rows tb) (tb_payloads tb) (tb_replays tb)"

lemma rows_at_None: "rows_at tb t k i = None \<longleftrightarrow> (t, k, i) \<notin> row_key ` set (tb_rows tb)"
  by (auto simp: rows_at_def find_None_iff2 row_key_def image_iff)

lemma rows_at_known: "rows_at tb t KInteraction i \<noteq> None \<longleftrightarrow> known (tb_rows tb) t i"
  by (simp only: rows_at_None known_def not_not)

lemma kind_of_clear [simp]: "kind_of (clear_record d) = kind_of d"
  by (cases d) simp_all

lemma ids_of_clear [simp]: "record_id (clear_record d) = record_id d" "interaction_of (clear_record d) = interaction_of d"
  by (cases d; simp)+

text \<open>A change of the rows that keeps their keys.\<close>

definition same_keys :: "(stored_row \<Rightarrow> stored_row) \<Rightarrow> stored_row list \<Rightarrow> bool" where
  "same_keys f rs \<longleftrightarrow> (\<forall>r \<in> set rs. columns_agree r \<longrightarrow> row_key (f r) = row_key r \<and>
     sw_interaction (f r) = sw_interaction r \<and> columns_agree (f r))"

lemma clear_row_same_keys: "same_keys (clear_row t i s) rs"
  by (auto simp: same_keys_def clear_row_def row_key_def columns_agree_def)

lemma set_interaction_same_keys:
  "ia_interaction_id new = i \<Longrightarrow>
   same_keys (\<lambda>r. if sw_tenant r = t \<and> kind_of (sw_data r) = KInteraction \<and> sw_record r = i
                  then r\<lparr>sw_data := RInteraction new\<rparr> else r) rs"
proof -
  assume new: "ia_interaction_id new = i"
  have "interaction_of d = record_id d" if "kind_of d = KInteraction" for d using that by (cases d) auto
  then show ?thesis using new by (auto simp: same_keys_def row_key_def columns_agree_def)
qed

lemma map_rows_ok:
  assumes "rows_ok rows" and "same_keys f rows"
  shows "rows_ok (map f rows)" and "known (map f rows) = known rows"
proof -
  have f: "row_key (f r) = row_key r" "sw_interaction (f r) = sw_interaction r" "columns_agree (f r)"
    if "r \<in> set rows" for r
    using assms that unfolding same_keys_def rows_ok_def by blast+
  have keys: "map row_key (map f rows) = map row_key rows" using f(1) by simp
  then have "row_key ` set (map f rows) = row_key ` set rows" by (metis list.set_map)
  then show same: "known (map f rows) = known rows" unfolding known_def by simp
  have "columns_agree s \<and> (kind_of (sw_data s) = KInteraction \<or> known rows (sw_tenant s) (sw_interaction s))"
    if s: "s \<in> set (map f rows)" for s
  proof -
    obtain r where r: "r \<in> set rows" "s = f r" using s by auto
    have "kind_of (sw_data s) = kind_of (sw_data r)" "sw_tenant s = sw_tenant r"
      using f(1) [OF r(1)] r(2) by (simp_all add: row_key_def)
    moreover have "kind_of (sw_data r) = KInteraction \<or> known rows (sw_tenant r) (sw_interaction r)"
      using assms(1) r(1) unfolding rows_ok_def by blast
    ultimately show ?thesis using f(2,3) [OF r(1)] r(2) by simp
  qed
  moreover have "distinct (map row_key (map f rows))" unfolding keys using assms(1) by (simp add: rows_ok_def)
  ultimately show "rows_ok (map f rows)" unfolding rows_ok_def same by blast
qed

lemma schema_map_rows:
  assumes "schema tb" and "same_keys f (tb_rows tb)"
  shows "schema (tb\<lparr>tb_rows := map f (tb_rows tb)\<rparr>)"
proof -
  have ok: "rows_ok (map f (tb_rows tb))" "known (map f (tb_rows tb)) = known (tb_rows tb)"
    using map_rows_ok assms by (simp_all add: schema_def)
  then show ?thesis using assms(1) by (simp add: schema_def payloads_ok_def replays_ok_def)
qed

lemma known_snoc: "known rows t i \<Longrightarrow> known (rows @ [r]) t i"
  by (auto simp: known_def)

lemma schema_add_row:
  assumes "schema tb" and "record_keys r tb" and "columns_agree r"
  shows "schema (tb\<lparr>tb_rows := tb_rows tb @ [r]\<rparr>)"
proof -
  have fresh: "row_key r \<notin> row_key ` set (tb_rows tb)"
    and ref: "kind_of (sw_data r) = KInteraction \<or> known (tb_rows tb) (sw_tenant r) (sw_interaction r)"
    using assms(2) unfolding record_keys_def rows_at_None known_def by (auto simp: row_key_def [of r])
  have rows: "rows_ok (tb_rows tb)" using assms(1) by (simp add: schema_def)
  have "columns_agree s \<and> (kind_of (sw_data s) = KInteraction \<or>
      known (tb_rows tb @ [r]) (sw_tenant s) (sw_interaction s))" if "s \<in> set (tb_rows tb @ [r])" for s
  proof (cases "s = r")
    case True
    then show ?thesis using assms(3) ref known_snoc by blast
  next
    case False
    then have "s \<in> set (tb_rows tb)" using that by simp
    then show ?thesis using rows known_snoc unfolding rows_ok_def by blast
  qed
  moreover have "distinct (map row_key (tb_rows tb @ [r]))" using rows fresh by (simp add: rows_ok_def)
  ultimately have "rows_ok (tb_rows tb @ [r])" unfolding rows_ok_def by blast
  moreover have "payloads_ok (tb_rows tb @ [r]) (tb_payloads tb)"
      "replays_ok (tb_rows tb @ [r]) (tb_payloads tb) (tb_replays tb)"
    using assms(1) known_snoc unfolding schema_def payloads_ok_def replays_ok_def by blast+
  ultimately show ?thesis by (simp add: schema_def)
qed

lemma schema_add_payload:
  assumes "schema tb" and "payload_keys p tb"
  shows "schema (tb\<lparr>tb_payloads := tb_payloads tb @ [p]\<rparr>)"
proof -
  have "payload_key p \<notin> payload_key ` set (tb_payloads tb)"
    using assms(2) by (auto simp: payload_keys_def payload_key_def list_ex_iff)
  moreover have "known (tb_rows tb) (ep_tenant p) (ep_interaction p)"
    using assms(2) rows_at_known unfolding payload_keys_def by blast
  ultimately show ?thesis using assms(1) by (auto simp: schema_def payloads_ok_def replays_ok_def)
qed

lemma schema_filter_payloads:
  assumes "schema tb" and "\<forall>p \<in> set (tb_payloads tb). D p \<longrightarrow> \<not> referenced tb p"
  shows "schema (tb\<lparr>tb_payloads := filter (\<lambda>p. \<not> D p) (tb_payloads tb)\<rparr>)"
proof -
  have "(rp_tenant q, rp_response_ref q) \<in> payload_key ` set (filter (\<lambda>p. \<not> D p) (tb_payloads tb))"
    if q: "q \<in> set (tb_replays tb)" for q
  proof -
    have "(rp_tenant q, rp_response_ref q) \<in> payload_key ` set (tb_payloads tb)"
      using assms(1) q unfolding schema_def replays_ok_def by blast
    then obtain p where p: "p \<in> set (tb_payloads tb)" "(rp_tenant q, rp_response_ref q) = payload_key p"
      by (rule imageE)
    then have "referenced tb p" using q by (auto simp: referenced_def payload_key_def list_ex_iff)
    then have "\<not> D p" using assms(2) p(1) by blast
    then have "p \<in> set (filter (\<lambda>p. \<not> D p) (tb_payloads tb))" using p(1) by simp
    then show ?thesis unfolding p(2) by (rule imageI)
  qed
  moreover have "distinct (map payload_key (filter (\<lambda>p. \<not> D p) (tb_payloads tb)))"
    using assms(1) by (simp add: schema_def payloads_ok_def distinct_map_filter)
  ultimately show ?thesis using assms(1) by (simp add: schema_def payloads_ok_def replays_ok_def)
qed

lemma schema_add_replay:
  assumes "schema tb" and "replay_keys p tb"
  shows "schema (tb\<lparr>tb_replays := tb_replays tb @ [p]\<rparr>)"
proof -
  have "replay_key p \<notin> replay_key ` set (tb_replays tb)"
    using assms(2) by (auto simp: replay_keys_def replay_key_def same_request_def list_ex_iff)
  moreover obtain q where q: "q \<in> set (tb_payloads tb)" "ep_tenant q = rp_tenant p" "ep_reference q = rp_response_ref p"
    using assms(2) by (auto simp: replay_keys_def list_ex_iff)
  have "(rp_tenant p, rp_response_ref p) = payload_key q" using q by (simp add: payload_key_def)
  then have "(rp_tenant p, rp_response_ref p) \<in> payload_key ` set (tb_payloads tb)" using q(1) by (metis imageI)
  moreover have "known (tb_rows tb) (rp_tenant p) (rp_interaction p)"
    using assms(2) rows_at_known unfolding replay_keys_def by blast
  ultimately show ?thesis using assms(1) by (simp add: schema_def replays_ok_def)
qed

lemma schema_filter_replays:
  assumes "schema tb"
  shows "schema (tb\<lparr>tb_replays := filter F (tb_replays tb)\<rparr>)"
  using assms by (simp add: schema_def replays_ok_def distinct_map_filter)

lemma schema_other_tables:
  assumes "schema tb"
  shows "schema (tb\<lparr>tb_tombstones := a\<rparr>)" "schema (tb\<lparr>tb_subjects := b\<rparr>)"
    "schema (tb\<lparr>tb_manifests := c\<rparr>)" "schema (tb\<lparr>tb_outbox := d\<rparr>)"
  using assms by (simp_all add: schema_def)

lemma schema_empty: "schema empty_tables"
  by (simp add: schema_def rows_ok_def payloads_ok_def replays_ok_def empty_tables_def)

section \<open>Erased interactions\<close>

text \<open>No reference is left in a record that equals its cleared form.\<close>

definition erased :: "string \<Rightarrow> string \<Rightarrow> tables \<Rightarrow> bool" where
  "erased t i tb \<longleftrightarrow> map_of (tb_tombstones tb) (t, i) \<noteq> None \<and>
     (\<forall>p \<in> set (tb_payloads tb). \<not> (ep_tenant p = t \<and> ep_interaction p = i)) \<and>
     (\<forall>q \<in> set (tb_replays tb). \<not> (rp_tenant q = t \<and> rp_interaction q = i)) \<and>
     (\<forall>r \<in> set (tb_rows tb). sw_tenant r = t \<and> sw_interaction r = i \<longrightarrow> clear_record (sw_data r) = sw_data r)"

lemma clear_record_idem [simp]: "clear_record (clear_record d) = clear_record d"
  by (cases d) simp_all

lemma put_once_keeps: "map_of d k = Some y \<Longrightarrow> map_of (put_once k' v d) k = Some y"
  by (auto simp: put_once_def map_add_def split: option.splits)

lemma put_once_has: "map_of (put_once k v d) k \<noteq> None"
  by (auto simp: put_once_def map_add_def split: option.splits)

lemma erased_clear: "erased t i tb \<Longrightarrow> erased t i (tb\<lparr>tb_rows := map (clear_row u j s) (tb_rows tb),
    tb_replays := filter F (tb_replays tb)\<rparr>)"
  by (auto simp: erased_def clear_row_def)

lemma erased_set_interaction:
  assumes "erased t i tb" and "schema tb" and "(u, j) \<noteq> (t, i)"
  shows "erased t i (set_interaction u j new tb)"
proof -
  have same: "interaction_of d = record_id d" if "kind_of d = KInteraction" for d
    using that by (cases d) auto
  have "clear_record (sw_data s) = sw_data s"
    if s: "s \<in> set (tb_rows (set_interaction u j new tb))" "sw_tenant s = t" "sw_interaction s = i" for s
  proof -
    obtain r where r: "r \<in> set (tb_rows tb)"
      "s = (if sw_tenant r = u \<and> kind_of (sw_data r) = KInteraction \<and> sw_record r = j
            then r\<lparr>sw_data := RInteraction new\<rparr> else r)"
      using s(1) by (auto simp: set_interaction_def)
    have "columns_agree r" using assms(2) r(1) unfolding schema_def rows_ok_def by blast
    then have "\<not> (sw_tenant r = u \<and> kind_of (sw_data r) = KInteraction \<and> sw_record r = j)"
      using s r(2) assms(3) same by (auto simp: columns_agree_def)
    then have "s = r" using r(2) by (simp only: if_False)
    then show ?thesis using assms(1) r(1) s(2,3) unfolding erased_def by blast
  qed
  then show ?thesis using assms(1) unfolding erased_def by (auto simp: set_interaction_def)
qed

section \<open>The calls preserve the invariants\<close>

text \<open>The invariant carried through the calls: the keys, and one interaction that was erased.\<close>

definition settled :: "string \<Rightarrow> string \<Rightarrow> tables \<Rightarrow> bool" where
  "settled t i tb \<longleftrightarrow> schema tb \<and> erased t i tb"

definition store_change :: "(tables \<Rightarrow> bool) \<Rightarrow> bool" where
  "store_change P \<longleftrightarrow> P = schema \<or> (\<exists>t i. P = settled t i)"

lemma store_change_schema: "store_change P \<Longrightarrow> P tb \<Longrightarrow> schema tb"
  by (auto simp: store_change_def settled_def)

text \<open>A call that \<open>writable\<close> admits concerns another interaction than an erased one.\<close>

definition admits :: "(tables \<Rightarrow> bool) \<Rightarrow> string \<Rightarrow> string \<Rightarrow> bool" where
  "admits P t i \<longleftrightarrow> (\<forall>u j. P = settled u j \<longrightarrow> (t, i) \<noteq> (u, j))"

lemma writable_admits:
  assumes "store_change P"
  shows "triple P (writable t i) (\<lambda>_ tb. P tb \<and> admits P t i) P"
proof (rule triple_writable)
  fix tb assume tb: "P tb" "map_of (tb_tombstones tb) (t, i) = None"
  have "(t, i) \<noteq> (u, j)" if "P = settled u j" for u j
    using tb that by (auto simp: settled_def erased_def)
  then show "P tb \<and> admits P t i" using tb(1) by (auto simp: admits_def)
qed

lemma change_rows:
  assumes "store_change P" and "P tb" and "record_keys r tb" and "columns_agree r"
    and "admits P (sw_tenant r) (sw_interaction r)"
  shows "P (tb\<lparr>tb_rows := tb_rows tb @ [r]\<rparr>)"
  using assms schema_add_row unfolding store_change_def admits_def
  by (auto simp: settled_def erased_def)

lemma change_payloads:
  assumes "store_change P" and "P tb" and "payload_keys p tb" and "admits P (ep_tenant p) (ep_interaction p)"
  shows "P (tb\<lparr>tb_payloads := tb_payloads tb @ [p]\<rparr>)"
  using assms schema_add_payload unfolding store_change_def admits_def
  by (auto simp: settled_def erased_def)

lemma change_replays:
  assumes "store_change P" and "P tb" and "replay_keys p tb" and "admits P (rp_tenant p) (rp_interaction p)"
  shows "P (tb\<lparr>tb_replays := tb_replays tb @ [p]\<rparr>)"
  using assms schema_add_replay unfolding store_change_def admits_def
  by (auto simp: settled_def erased_def)

lemma change_filter_payloads:
  assumes "store_change P" and "P tb" and "\<forall>p \<in> set (tb_payloads tb). D p \<longrightarrow> \<not> referenced tb p"
  shows "P (tb\<lparr>tb_payloads := filter (\<lambda>p. \<not> D p) (tb_payloads tb)\<rparr>)"
  using assms schema_filter_payloads unfolding store_change_def
  by (auto simp: settled_def erased_def)

lemma change_filter_replays:
  assumes "store_change P" and "P tb"
  shows "P (tb\<lparr>tb_replays := filter F (tb_replays tb)\<rparr>)"
  using assms schema_filter_replays unfolding store_change_def
  by (auto simp: settled_def erased_def)

lemma change_set_interaction:
  assumes "store_change P" and "P tb" and "admits P t i" and "ia_interaction_id new = i"
  shows "P (set_interaction t i new tb)"
proof -
  have "schema tb" using assms(1,2) by (rule store_change_schema)
  then have ok: "schema (set_interaction t i new tb)"
    unfolding set_interaction_def by (rule schema_map_rows) (rule set_interaction_same_keys [OF assms(4)])
  show ?thesis
    using assms(1-3) ok erased_set_interaction unfolding store_change_def admits_def
    by (auto simp: settled_def)
qed

lemma change_clear:
  assumes "store_change P" and "P tb"
  shows "P (tb\<lparr>tb_rows := map (clear_row t i s) (tb_rows tb), tb_replays := filter F (tb_replays tb)\<rparr>)"
proof -
  have "schema tb" using assms by (rule store_change_schema)
  then have ok: "schema (tb\<lparr>tb_rows := map (clear_row t i s) (tb_rows tb), tb_replays := filter F (tb_replays tb)\<rparr>)"
    using schema_filter_replays [OF schema_map_rows [OF _ clear_row_same_keys]] by simp
  show ?thesis
    using assms ok erased_clear unfolding store_change_def by (auto simp: settled_def)
qed

lemma change_tombstones:
  assumes "store_change P" and "P tb"
  shows "P (tb\<lparr>tb_tombstones := put_once k d (tb_tombstones tb)\<rparr>)" "P (tb\<lparr>tb_subjects := b\<rparr>)"
    "P (tb\<lparr>tb_manifests := c\<rparr>)" "P (tb\<lparr>tb_outbox := e\<rparr>)"
  using assms schema_other_tables put_once_keeps unfolding store_change_def
  by (auto simp: settled_def erased_def put_once_keeps)

lemmas store_changes = change_rows change_payloads change_replays change_filter_payloads
  change_filter_replays change_set_interaction change_clear change_tombstones

lemma guard_keeps: "triple P (guard_op b e) (\<lambda>_. P) P"
  by (rule triple_guard)

lemma read_keeps: "triple P (sql_read f) (\<lambda>x tb. P tb \<and> x = f tb) E"
  by (rule triple_read) simp

lemma put_record_keeps:
  assumes "store_change P"
  shows "triple P (put_record t r e) (\<lambda>_. P) P"
  unfolding put_record_def
proof (rule triple_bind [OF writable_admits [OF assms]])
  let ?A = "\<lambda>tb. P tb \<and> admits P t (interaction_of r)"
  show "triple ?A (bind_op (guard_op (case r of RInteraction i \<Rightarrow> ia_tenant_id i = t | _ \<Rightarrow> True)
      (StorageError ''tenant_mismatch'')) (\<lambda>_. bind_op (case new_stored_row t r e of row \<Rightarrow>
        (case sw_subject row of None \<Rightarrow> return_op () | Some p \<Rightarrow> bind_op (get_subject_tombstone t p) (\<lambda>d.
           guard_op (d = None) (StorageError ''subject_deleted'')))) (\<lambda>_. insert_record (new_stored_row t r e))))
      (\<lambda>_. P) P" for u
  proof (rule triple_bind [where R = "\<lambda>_. ?A"])
    show "triple ?A (guard_op (case r of RInteraction i \<Rightarrow> ia_tenant_id i = t | _ \<Rightarrow> True)
        (StorageError ''tenant_mismatch'')) (\<lambda>_. ?A) P"
      by (rule triple_guard) blast+
    show "triple ?A (bind_op (case new_stored_row t r e of row \<Rightarrow>
        (case sw_subject row of None \<Rightarrow> return_op () | Some p \<Rightarrow> bind_op (get_subject_tombstone t p) (\<lambda>d.
           guard_op (d = None) (StorageError ''subject_deleted'')))) (\<lambda>_. insert_record (new_stored_row t r e)))
        (\<lambda>_. P) P" for u
    proof (rule triple_bind [where R = "\<lambda>_. ?A"])
      show "triple ?A (case new_stored_row t r e of row \<Rightarrow>
          (case sw_subject row of None \<Rightarrow> return_op () | Some p \<Rightarrow> bind_op (get_subject_tombstone t p) (\<lambda>d.
             guard_op (d = None) (StorageError ''subject_deleted'')))) (\<lambda>_. ?A) P"
        unfolding get_subject_tombstone_def
        by (cases "sw_subject (new_stored_row t r e)")
          (simp add: triple_return, simp, rule triple_bind [OF triple_read [where Q = "\<lambda>_. ?A"]],
            assumption, rule triple_guard, assumption, blast)
      show "triple ?A (insert_record (new_stored_row t r e)) (\<lambda>_. P) P" for u
      proof (rule triple_insert_record)
        fix tb assume "?A tb" "record_keys (new_stored_row t r e) tb"
        then show "P (tb\<lparr>tb_rows := tb_rows tb @ [new_stored_row t r e]\<rparr>)"
          by (intro change_rows [OF assms]) (simp_all add: new_stored_row_def columns_agree_def)
      qed blast
    qed
  qed
qed

lemma put_payload_keeps:
  assumes "store_change P"
  shows "triple P (put_payload p) (\<lambda>_. P) P"
  unfolding put_payload_def
  by (rule triple_bind [OF writable_admits [OF assms]], rule triple_checked_write)
    (use change_payloads [OF assms] in blast)+

lemma delete_payloads_keeps:
  assumes "store_change P"
  shows "triple P (delete_payloads D) (\<lambda>_. P) P"
  by (rule triple_delete_payloads) (use change_filter_payloads [OF assms] in blast)+

lemma delete_interaction_keeps:
  assumes "store_change P"
  shows "triple P (delete_interaction t i) (\<lambda>_. P) P"
  unfolding delete_interaction_def
  by (rule triple_bind [OF triple_require delete_payloads_keeps [OF assms]])

lemma put_replay_keeps:
  assumes "store_change P"
  shows "triple P (put_replay p n) (\<lambda>_. P) P"
  unfolding put_replay_def
proof (rule triple_bind [OF guard_keeps], rule triple_bind [OF writable_admits [OF assms]])
  let ?A = "\<lambda>tb. P tb \<and> admits P (rp_tenant p) (rp_interaction p)"
  show "triple ?A (bind_op (sql_read (replay_keys p)) (\<lambda>ok. bind_op (guard_op ok OtherException) (\<lambda>_.
      bind_op (sql_write (\<lambda>tb. tb\<lparr>tb_replays := tb_replays tb @ [p]\<rparr>)) (\<lambda>_.
      bind_op (sql_read (\<lambda>tb. evicted tb (rp_tenant p) (nat n))) (\<lambda>old.
      bind_op (sql_write (\<lambda>tb. tb\<lparr>tb_replays := filter (\<lambda>q. q \<notin> set old) (tb_replays tb)\<rparr>)) (\<lambda>_.
      each_op (\<lambda>q. delete_response (rp_tenant p) (rp_response_ref q)) old)))))) (\<lambda>_. P) P" for u
  proof (rule triple_bind [OF read_keeps], rule triple_bind [where R = "\<lambda>_ tb. ?A tb \<and> replay_keys p tb"])
    show "triple (\<lambda>tb. ?A tb \<and> ok = replay_keys p tb) (guard_op ok OtherException)
        (\<lambda>_ tb. ?A tb \<and> replay_keys p tb) P" for ok
      by (rule triple_guard) blast+
    show "triple (\<lambda>tb. ?A tb \<and> replay_keys p tb) (bind_op (sql_write (\<lambda>tb. tb\<lparr>tb_replays := tb_replays tb @ [p]\<rparr>)) (\<lambda>_.
        bind_op (sql_read (\<lambda>tb. evicted tb (rp_tenant p) (nat n))) (\<lambda>old.
        bind_op (sql_write (\<lambda>tb. tb\<lparr>tb_replays := filter (\<lambda>q. q \<notin> set old) (tb_replays tb)\<rparr>)) (\<lambda>_.
        each_op (\<lambda>q. delete_response (rp_tenant p) (rp_response_ref q)) old)))) (\<lambda>_. P) P" for u
      by (rule triple_bind [where R = "\<lambda>_. P"], rule triple_write, use change_replays [OF assms] in blast,
          rule triple_bind [OF triple_read [where Q = "\<lambda>_. P"]], assumption,
          rule triple_bind [where R = "\<lambda>_. P"], rule triple_write, rule change_filter_replays [OF assms], assumption,
          rule triple_each, unfold delete_response_def, rule delete_payloads_keeps [OF assms])
  qed
qed

lemma delete_replay_keeps:
  assumes "store_change P"
  shows "triple P (delete_replay t a r) (\<lambda>_. P) P"
  unfolding delete_replay_def delete_response_def
  by (rule triple_bind [OF triple_require], assumption, rule triple_bind [OF triple_read [where Q = "\<lambda>_. P"]], assumption,
      rule triple_bind [where R = "\<lambda>_. P"], rule triple_write, rule change_filter_replays [OF assms], assumption)
    (auto split: option.splits intro: triple_return delete_payloads_keeps [OF assms])

lemma expire_replays_keeps:
  assumes "store_change P"
  shows "triple P (expire_replays t e) (\<lambda>_. P) P"
  unfolding expire_replays_def
  by (rule triple_bind [OF triple_read [where Q = "\<lambda>_. P"]], assumption, rule triple_each,
      rule delete_replay_keeps [OF assms])

lemma add_shadow_cost_keeps:
  assumes "store_change P"
  shows "triple P (add_shadow_cost t i c) (\<lambda>_. P) P"
  unfolding add_shadow_cost_def get_record_def
proof (rule triple_bind [OF writable_admits [OF assms]], rule triple_bind [OF read_keeps])
  fix u found
  let ?A = "\<lambda>tb. (P tb \<and> admits P t i) \<and> found = map_option sw_data (rows_at tb t KInteraction i)"
  have id: "ia_interaction_id x = i" if a: "?A tb" "found = Some (RInteraction x)" for tb x
  proof -
    have "map_option sw_data (rows_at tb t KInteraction i) = Some (RInteraction x)" using a by simp
    then obtain r where "rows_at tb t KInteraction i = Some r" "sw_data r = RInteraction x" by (auto simp: map_option_eq_Some)
    then have "r \<in> set (tb_rows tb)" "sw_record r = i" "sw_data r = RInteraction x"
      by (auto simp: rows_at_def dest: find_Some_iff2)
    moreover have "schema tb" using a(1) store_change_schema [OF assms] by blast
    ultimately show ?thesis by (auto simp: schema_def rows_ok_def columns_agree_def)
  qed
  show "triple ?A (case found of Some (RInteraction x) \<Rightarrow>
      sql_write (set_interaction t i (x\<lparr>ia_shadow_cost_micros := ia_shadow_cost_micros x + c\<rparr>))
      | _ \<Rightarrow> return_op ()) (\<lambda>_. P) P"
  proof (cases "\<exists>x. found = Some (RInteraction x)")
    case True
    then obtain x where x: "found = Some (RInteraction x)" by blast
    have "P (set_interaction t i (x\<lparr>ia_shadow_cost_micros := ia_shadow_cost_micros x + c\<rparr>) tb)" if "?A tb" for tb
      using that id [OF that x] by (intro change_set_interaction [OF assms]) simp_all
    then show ?thesis using x by (simp add: triple_write)
  next
    case False
    then show ?thesis by (auto split: option.splits stored_record.splits intro!: triple_return)
  qed
qed

lemma append_feedback_keeps:
  assumes "store_change P"
  shows "triple P (append_feedback t x f) (\<lambda>_. P) P"
  unfolding append_feedback_def
  by (rule triple_bind [OF writable_admits [OF assms]], rule triple_write)
    (auto intro: change_set_interaction [OF assms])

lemma clear_refs_keeps:
  assumes "store_change P"
  shows "triple P (clear_refs t i s) (\<lambda>_. P) P"
  unfolding clear_refs_def
  by (rule triple_bind [OF triple_require], assumption, rule triple_write, rule change_clear [OF assms])

lemma tombstones_keep:
  assumes "store_change P"
  shows "triple P (tombstone t i d) (\<lambda>_. P) P" and "triple P (tombstone_subject t d) (\<lambda>_. P) P"
    and "triple P (put_manifest m) (\<lambda>_. P) P" and "triple P (approve_manifest m) (\<lambda>_. P) P"
proof -
  show "triple P (tombstone t i d) (\<lambda>_. P) P" unfolding tombstone_def
    by (rule triple_bind [OF triple_require], assumption, rule triple_write, rule change_tombstones [OF assms])
  show "triple P (tombstone_subject t d) (\<lambda>_. P) P" unfolding tombstone_subject_def
    by (rule triple_bind [OF triple_require], assumption, rule triple_bind [OF guard_keeps],
        rule triple_write, rule change_tombstones [OF assms])
  show "triple P (put_manifest m) (\<lambda>_. P) P" unfolding put_manifest_def
    by (rule triple_bind [OF triple_require], assumption, rule triple_checked_write)
      (auto intro: change_tombstones [OF assms])
  show "triple P (approve_manifest m) (\<lambda>_. P) P" unfolding approve_manifest_def
    by (rule triple_bind [OF triple_require], assumption, rule triple_write, rule change_tombstones [OF assms])
qed

lemmas calls_keep = put_record_keeps put_payload_keeps put_replay_keeps delete_replay_keeps
  expire_replays_keeps add_shadow_cost_keeps append_feedback_keeps clear_refs_keeps tombstones_keep
  delete_interaction_keeps

lemma perform_keeps: "store_change P \<Longrightarrow> triple P (perform c) (\<lambda>_. P) P"
  by (cases c) (simp_all add: calls_keep)

lemma store_change_intros: "store_change schema" "store_change (settled t i)"
  by (auto simp: store_change_def)

end
