(* ===== verification/Retention.thy ===== *)
theory Retention
  imports Storage_Invariants
begin

text \<open>
  What the stores promise their clients: a record that was put is read back, the replay entries
  of a tenant stay within their capacity, and the retention sweep of \<open>storage/retention.py\<close>
  always completes and leaves nothing of a tenant that has expired.
\<close>

section \<open>Reading back\<close>

lemma triple_put_record:
  assumes "\<And>tb. P tb \<Longrightarrow> record_keys (new_stored_row t r e) tb \<Longrightarrow>
      Q () (tb\<lparr>tb_rows := tb_rows tb @ [new_stored_row t r e]\<rparr>)"
    and "\<And>tb. P tb \<Longrightarrow> E tb"
  shows "triple P (put_record t r e) Q E"
proof -
  have w: "triple P (writable t (interaction_of r)) (\<lambda>_. P) E"
    by (rule triple_writable) (use assms(2) in blast)+
  have g: "triple P (guard_op b x) (\<lambda>_. P) E" for b x by (rule triple_guard) (use assms(2) in blast)+
  have s: "triple P (case new_stored_row t r e of row \<Rightarrow>
      (case sw_subject row of None \<Rightarrow> return_op () | Some p \<Rightarrow> bind_op (get_subject_tombstone t p) (\<lambda>d.
         guard_op (d = None) (StorageError ''subject_deleted'')))) (\<lambda>_. P) E"
    unfolding get_subject_tombstone_def
    by (cases "sw_subject (new_stored_row t r e)")
      (simp add: triple_return, simp, rule triple_bind [OF triple_read [where Q = "\<lambda>_. P"] g], assumption)
  show ?thesis unfolding put_record_def
    by (rule triple_bind [OF w], rule triple_bind [OF g], rule triple_bind [OF s],
        rule triple_insert_record) (use assms in blast)+
qed

lemma find_snoc:
  "find P (xs @ [x]) = (case find P xs of Some y \<Rightarrow> Some y | None \<Rightarrow> if P x then Some x else None)"
  by (induction xs) auto

lemma rows_at_snoc:
  "rows_at (tb\<lparr>tb_rows := tb_rows tb @ [r]\<rparr>) t k i =
     (case rows_at tb t k i of Some q \<Rightarrow> Some q
      | None \<Rightarrow> if row_key r = (t, k, i) then Some r else None)"
  by (auto simp: rows_at_def find_snoc row_key_def split: option.splits)

text \<open>Inside a transaction a record that was stored is read back as it was given, under its
  kind and identifier, for its tenant; whatever is read under any other tenant, kind or identifier
  is as before.\<close>

theorem put_then_get:
  assumes "db_working db = Some tb" and "put_record t r e db = (Inr (), db')"
  shows "fst (get_record t (kind_of r) (record_id r) db') = Inr (Some r) \<and>
    (\<forall>u k i. (u, k, i) \<noteq> (t, kind_of r, record_id r) \<longrightarrow>
       fst (get_record u k i db') = fst (get_record u k i db))"
proof -
  let ?row = "new_stored_row t r e"
  have "triple (\<lambda>x. x = tb) (put_record t r e)
      (\<lambda>_ x. x = tb\<lparr>tb_rows := tb_rows tb @ [?row]\<rparr> \<and> record_keys ?row tb) (\<lambda>_. True)"
    by (rule triple_put_record) auto
  from tripleD [OF this assms(1) refl] assms(2)
  have db': "db' = db\<lparr>db_working := Some (tb\<lparr>tb_rows := tb_rows tb @ [?row]\<rparr>)\<rparr>" "record_keys ?row tb"
    by auto
  have tables: "tables_of db' = tb\<lparr>tb_rows := tb_rows tb @ [?row]\<rparr>" "tables_of db = tb"
    using db'(1) assms(1) by (simp_all add: tables_of_def)
  have row: "row_key ?row = (t, kind_of r, record_id r)" "sw_data ?row = r"
    by (simp_all add: row_key_def new_stored_row_def)
  have "rows_at tb t (kind_of r) (record_id r) = None"
    using db'(2) row(1) by (simp add: record_keys_def row_key_def)
  then show ?thesis
    by (auto simp: get_record_def sql_read_def tables rows_at_snoc row split: option.splits)
qed

section \<open>The capacity of the replay entries\<close>

lemma kept_length: "length (filter (\<lambda>x. x \<notin> set (drop n xs)) xs) \<le> n"
proof -
  have "filter (\<lambda>x. x \<notin> set (drop n xs)) xs =
      filter (\<lambda>x. x \<notin> set (drop n xs)) (take n xs) @ filter (\<lambda>x. x \<notin> set (drop n xs)) (drop n xs)"
    by (metis append_take_drop_id filter_append)
  also have "filter (\<lambda>x. x \<notin> set (drop n xs)) (drop n xs) = []" by (simp add: filter_empty_conv)
  finally have "length (filter (\<lambda>x. x \<notin> set (drop n xs)) xs) =
      length (filter (\<lambda>x. x \<notin> set (drop n xs)) (take n xs))" by simp
  also have "\<dots> \<le> length (take n xs)" by (rule length_filter_le)
  also have "\<dots> \<le> n" by simp
  finally show ?thesis .
qed

lemma delete_response_replays:
  "triple (\<lambda>tb. tb_replays tb = qs) (each_op (\<lambda>q. delete_response t (f q)) old)
     (\<lambda>_ tb. tb_replays tb = qs) (\<lambda>_. True)"
  unfolding delete_response_def by (rule triple_each, rule triple_delete_payloads) simp_all

lemma put_replay_result:
  assumes "db_working db = Some tb" and "put_replay p n db = (Inr (), db')"
  shows "tb_replays (tables_of db') =
    filter (\<lambda>q. q \<notin> set (evicted (tb\<lparr>tb_replays := tb_replays tb @ [p]\<rparr>) (rp_tenant p) (nat n)))
      (tb_replays tb @ [p]) \<and> 1 \<le> n"
proof -
  let ?tb = "tb\<lparr>tb_replays := tb_replays tb @ [p]\<rparr>"
  let ?old = "evicted ?tb (rp_tenant p) (nat n)"
  let ?qs = "filter (\<lambda>q. q \<notin> set ?old) (tb_replays tb @ [p])"
  let ?T = "\<lambda>_ :: tables. True"
  have evict: "triple (\<lambda>x. x = ?tb) (bind_op (sql_write (\<lambda>tb. tb\<lparr>tb_replays := filter (\<lambda>q. q \<notin> set ?old) (tb_replays tb)\<rparr>))
      (\<lambda>_. each_op (\<lambda>q. delete_response (rp_tenant p) (rp_response_ref q)) ?old)) (\<lambda>_ x. tb_replays x = ?qs) ?T"
    by (rule triple_bind [OF triple_write delete_response_replays]) simp
  have choose: "triple (\<lambda>x. x = ?tb) (bind_op (sql_read (\<lambda>tb. evicted tb (rp_tenant p) (nat n))) (\<lambda>old.
      bind_op (sql_write (\<lambda>tb. tb\<lparr>tb_replays := filter (\<lambda>q. q \<notin> set old) (tb_replays tb)\<rparr>))
      (\<lambda>_. each_op (\<lambda>q. delete_response (rp_tenant p) (rp_response_ref q)) old))) (\<lambda>_ x. tb_replays x = ?qs) ?T"
  proof (rule triple_bind [where R = "\<lambda>old x. old = ?old \<and> x = ?tb"])
    show "triple (\<lambda>x. x = ?tb) (sql_read (\<lambda>tb. evicted tb (rp_tenant p) (nat n))) (\<lambda>old x. old = ?old \<and> x = ?tb) ?T"
      by (rule triple_read) (elim ssubst, intro conjI refl)
  qed (rule triple_pre, use evict in blast)
  have keep: "triple (\<lambda>x. x = tb) (guard_op c e) (\<lambda>_ x. x = tb) ?T" for c e
    by (rule triple_guard, assumption, rule TrueI)
  have w: "triple (\<lambda>x. x = tb) (writable (rp_tenant p) (rp_interaction p)) (\<lambda>_ x. x = tb) ?T"
    by (rule triple_writable, assumption, rule TrueI)
  have rest: "triple (\<lambda>x. x = tb) (bind_op (writable (rp_tenant p) (rp_interaction p)) (\<lambda>_.
      bind_op (sql_read (replay_keys p)) (\<lambda>ok. bind_op (guard_op ok OtherException) (\<lambda>_.
      bind_op (sql_write (\<lambda>tb. tb\<lparr>tb_replays := tb_replays tb @ [p]\<rparr>)) (\<lambda>_.
      bind_op (sql_read (\<lambda>tb. evicted tb (rp_tenant p) (nat n))) (\<lambda>old.
      bind_op (sql_write (\<lambda>tb. tb\<lparr>tb_replays := filter (\<lambda>q. q \<notin> set old) (tb_replays tb)\<rparr>)) (\<lambda>_.
      each_op (\<lambda>q. delete_response (rp_tenant p) (rp_response_ref q)) old))))))) (\<lambda>_ x. tb_replays x = ?qs) ?T"
    by (rule triple_bind [OF w], rule triple_bind [OF triple_read [where Q = "\<lambda>_ x. x = tb"]], assumption,
        rule triple_bind [OF keep], rule triple_bind [OF triple_write choose], elim ssubst, rule refl)
  have "triple (\<lambda>x. x = tb) (put_replay p n) (\<lambda>_ x. 1 \<le> n \<and> tb_replays x = ?qs) ?T"
    unfolding put_replay_def
  proof (rule triple_bind [where R = "\<lambda>_ x. 1 \<le> n \<and> x = tb"])
    show "triple (\<lambda>x. x = tb) (guard_op (1 \<le> n) (StorageError ''invalid_replay_capacity'')) (\<lambda>_ x. 1 \<le> n \<and> x = tb) ?T"
      by (rule triple_guard, intro conjI, assumption, assumption, rule TrueI)
  qed (rule triple_pre, rule triple_conseq [OF rest], assumption, intro conjI, assumption, assumption, rule TrueI)
  from tripleD [OF this assms(1) refl] show ?thesis
  proof cases
    case (1 e tb')
    then show ?thesis using assms(2) by simp
  next
    case (2 u tb')
    then have "tables_of db' = tb'" using assms(2) by (auto simp: tables_of_def)
    then show ?thesis using 2(2) by simp
  qed
qed

text \<open>Storing a replay entry keeps its tenant within the capacity, at once: afterwards the
  tenant has at most that many entries, no entry that was dropped is newer than one that was kept,
  and the entries of every other tenant are untouched.\<close>

theorem replay_capacity_kept:
  assumes "db_working db = Some tb" and "put_replay p n db = (Inr (), db')"
  shows "int (length (filter (\<lambda>q. rp_tenant q = rp_tenant p) (tb_replays (tables_of db')))) \<le> n \<and>
    (\<forall>q q'. q \<in> set (tb_replays tb @ [p]) \<and> q \<notin> set (tb_replays (tables_of db')) \<and>
       q' \<in> set (tb_replays (tables_of db')) \<and> rp_tenant q' = rp_tenant p \<longrightarrow> replay_order q \<le> replay_order q') \<and>
    filter (\<lambda>q. rp_tenant q \<noteq> rp_tenant p) (tb_replays (tables_of db')) =
      filter (\<lambda>q. rp_tenant q \<noteq> rp_tenant p) (tb_replays tb)"
proof -
  let ?all = "tb_replays tb @ [p]"
  let ?mine = "filter (\<lambda>q. rp_tenant q = rp_tenant p) ?all"
  let ?sorted = "rev (sort_key replay_order ?mine)"
  let ?old = "drop (nat n) ?sorted"
  have after: "tb_replays (tables_of db') = filter (\<lambda>q. q \<notin> set ?old) ?all" and n: "1 \<le> n"
    using put_replay_result [OF assms] by (simp_all add: evicted_def)
  have old: "set ?old \<subseteq> set ?mine" using set_drop_subset [of "nat n" ?sorted] by simp
  have "filter (\<lambda>q. rp_tenant q = rp_tenant p) (filter (\<lambda>q. q \<notin> set ?old) ?all) = filter (\<lambda>q. q \<notin> set ?old) ?mine"
    by (simp only: filter_filter conj_commute)
  moreover have "length (filter (\<lambda>q. q \<notin> set ?old) ?mine) = length (filter (\<lambda>q. q \<notin> set ?old) ?sorted)"
    by (metis (no_types, lifting) mset_filter mset_rev mset_sort size_mset)
  ultimately have "length (filter (\<lambda>q. rp_tenant q = rp_tenant p) (tb_replays (tables_of db'))) \<le> nat n"
    using kept_length [of "nat n" ?sorted] after by simp
  moreover have "replay_order q \<le> replay_order q'"
    if q: "q \<in> set ?all" "q \<notin> set (tb_replays (tables_of db'))"
      "q' \<in> set (tb_replays (tables_of db'))" "rp_tenant q' = rp_tenant p" for q q'
  proof -
    have "q \<in> set ?old" using q(1,2) unfolding after set_filter by blast
    moreover have "q' \<in> set ?all \<and> q' \<notin> set ?old" using q(3) unfolding after set_filter by blast
    then have "q' \<in> set ?sorted" "q' \<notin> set ?old" using q(4) by (simp_all only: set_rev set_sort set_filter mem_Collect_eq simp_thms)
    moreover have "set ?sorted = set (take (nat n) ?sorted) \<union> set ?old"
      by (metis append_take_drop_id set_append)
    ultimately have "q' \<in> set (take (nat n) ?sorted)" by blast
    moreover have "sorted_wrt (\<lambda>a b. replay_order a \<ge> replay_order b) (take (nat n) ?sorted @ ?old)"
    proof -
      have "sorted_wrt (\<lambda>a b. replay_order a \<le> replay_order b) (sort_key replay_order ?mine)"
        using sorted_sort_key [of replay_order ?mine] unfolding sorted_map .
      then show ?thesis unfolding append_take_drop_id sorted_wrt_rev .
    qed
    ultimately show ?thesis using \<open>q \<in> set ?old\<close> by (simp only: sorted_wrt_append)
  qed
  moreover have "filter (\<lambda>q. rp_tenant q \<noteq> rp_tenant p) (tb_replays (tables_of db')) =
      filter (\<lambda>q. rp_tenant q \<noteq> rp_tenant p) (tb_replays tb)"
  proof -
    have "rp_tenant q \<noteq> rp_tenant p \<and> q \<notin> set ?old \<longleftrightarrow> rp_tenant q \<noteq> rp_tenant p" for q
      using old by auto
    then show ?thesis unfolding after filter_filter by (simp add: conj_commute)
  qed
  ultimately show ?thesis using n by (auto simp: nat_le_iff le_nat_iff)
qed

section \<open>The sweep\<close>

text \<open>The gateway stores every response under a reference of its own, for the interaction that
  produced it.\<close>

definition own_responses :: "tables \<Rightarrow> bool" where
  "own_responses tb \<longleftrightarrow>
     distinct (map (\<lambda>q. (rp_tenant q, rp_response_ref q)) (tb_replays tb)) \<and>
     (\<forall>q \<in> set (tb_replays tb). \<forall>p \<in> set (tb_payloads tb).
        payload_key p = (rp_tenant q, rp_response_ref q) \<longrightarrow> ep_interaction p = rp_interaction q)"

text \<open>What the sweep leaves unchanged, relative to the tables it started from.\<close>

definition same_stored :: "stored_row \<Rightarrow> stored_row \<Rightarrow> bool" where
  "same_stored r q \<longleftrightarrow> row_key r = row_key q \<and> sw_interaction r = sw_interaction q \<and>
     sw_expires r = sw_expires q \<and> (sw_state r = sw_state q \<or> sw_state r = ExpiredRecord)"

definition rows_from :: "stored_row list \<Rightarrow> stored_row list \<Rightarrow> bool" where
  "rows_from old rows \<longleftrightarrow> (\<forall>r \<in> set rows. \<exists>q \<in> set old. same_stored r q)"

definition sweeping :: "tables \<Rightarrow> string \<Rightarrow> tables \<Rightarrow> bool" where
  "sweeping old t tb \<longleftrightarrow> own_responses tb \<and>
     rows_from (tb_rows old) (tb_rows tb) \<and>
     set (tb_replays tb) \<subseteq> set (tb_replays old) \<and>
     filter (\<lambda>r. sw_tenant r \<noteq> t) (tb_rows tb) = filter (\<lambda>r. sw_tenant r \<noteq> t) (tb_rows old) \<and>
     filter (\<lambda>q. rp_tenant q \<noteq> t) (tb_replays tb) = filter (\<lambda>q. rp_tenant q \<noteq> t) (tb_replays old) \<and>
     filter (\<lambda>p. ep_tenant p \<noteq> t) (tb_payloads tb) = filter (\<lambda>p. ep_tenant p \<noteq> t) (tb_payloads old)"

text \<open>An interaction of which only the cleared records are left.\<close>

definition row_emptied :: "string \<Rightarrow> string \<Rightarrow> stored_row \<Rightarrow> bool" where
  "row_emptied t i r \<longleftrightarrow> (sw_tenant r = t \<and> sw_interaction r = i \<longrightarrow>
     sw_state r = ExpiredRecord \<and> clear_record (sw_data r) = sw_data r)"

definition emptied :: "string \<Rightarrow> string \<Rightarrow> tables \<Rightarrow> bool" where
  "emptied t i tb \<longleftrightarrow>
     (\<forall>r \<in> set (tb_rows tb). row_emptied t i r) \<and>
     (\<forall>q \<in> set (tb_replays tb). \<not> (rp_tenant q = t \<and> rp_interaction q = i)) \<and>
     (\<forall>p \<in> set (tb_payloads tb). \<not> (ep_tenant p = t \<and> ep_interaction p = i))"

lemma triple_each_all:
  assumes "\<And>x D. x \<in> set xs \<Longrightarrow>
    triple (\<lambda>tb. I tb \<and> (\<forall>y \<in> D. C y tb)) (f x) (\<lambda>_ tb. I tb \<and> (\<forall>y \<in> insert x D. C y tb)) E"
  shows "triple (\<lambda>tb. I tb \<and> (\<forall>y \<in> D. C y tb)) (each_op f xs) (\<lambda>_ tb. I tb \<and> (\<forall>y \<in> D \<union> set xs. C y tb)) E"
  using assms
proof (induction xs arbitrary: D)
  case (Cons x xs)
  have "triple (\<lambda>tb. I tb \<and> (\<forall>y \<in> D. C y tb)) (f x) (\<lambda>_ tb. I tb \<and> (\<forall>y \<in> insert x D. C y tb)) E"
    using Cons.prems by simp
  moreover have "triple (\<lambda>tb. I tb \<and> (\<forall>y \<in> insert x D. C y tb)) (each_op f xs)
      (\<lambda>_ tb. I tb \<and> (\<forall>y \<in> insert x D \<union> set xs. C y tb)) E"
    by (rule Cons.IH) (use Cons.prems in simp)
  ultimately show ?case by (simp only: each_op.simps list.set Un_insert_right Un_insert_left) (rule triple_bind)
qed (simp add: triple_return)

lemma own_filter_payloads: "own_responses tb \<Longrightarrow> own_responses (tb\<lparr>tb_payloads := filter F (tb_payloads tb)\<rparr>)"
  by (auto simp: own_responses_def)

lemma own_filter_replays: "own_responses tb \<Longrightarrow> own_responses (tb\<lparr>tb_replays := filter F (tb_replays tb)\<rparr>)"
  by (auto simp: own_responses_def distinct_map_filter)

lemma own_rows: "own_responses (tb\<lparr>tb_rows := rs\<rparr>) = own_responses tb"
  by (simp add: own_responses_def)

text \<open>Clearing one interaction.\<close>

definition cleared :: "string \<Rightarrow> string \<Rightarrow> tables \<Rightarrow> tables" where
  "cleared t i tb = tb\<lparr>tb_rows := map (clear_row t i ExpiredRecord) (tb_rows tb),
     tb_replays := filter (\<lambda>p. \<not> (rp_tenant p = t \<and> rp_interaction p = i)) (tb_replays tb)\<rparr>"

lemma clear_row_same: "same_stored r q \<Longrightarrow> same_stored (clear_row t i ExpiredRecord r) q"
  by (auto simp: same_stored_def clear_row_def row_key_def)

lemma clear_row_other: "filter (\<lambda>r. sw_tenant r \<noteq> t) (map (clear_row t i s) rs) = filter (\<lambda>r. sw_tenant r \<noteq> t) rs"
  by (induction rs) (auto simp: clear_row_def)

lemma filter_other: "(\<And>x. P x \<Longrightarrow> F x) \<Longrightarrow> filter P (filter F xs) = filter P xs"
  by (induction xs) auto

lemma rows_from_clear:
  assumes "rows_from old rows"
  shows "rows_from old (map (clear_row t i ExpiredRecord) rows)"
  unfolding rows_from_def
proof
  fix r assume "r \<in> set (map (clear_row t i ExpiredRecord) rows)"
  then obtain s where s: "s \<in> set rows" "r = clear_row t i ExpiredRecord s" by auto
  then obtain q where "q \<in> set old" "same_stored s q" using assms unfolding rows_from_def by blast
  then show "\<exists>q \<in> set old. same_stored r q" using clear_row_same s(2) by blast
qed

lemma cleared_sweeping:
  assumes "sweeping old t tb"
  shows "sweeping old t (cleared t i tb)"
proof -
  have fields: "tb_rows (cleared t i tb) = map (clear_row t i ExpiredRecord) (tb_rows tb)"
      "tb_replays (cleared t i tb) = filter (\<lambda>p. \<not> (rp_tenant p = t \<and> rp_interaction p = i)) (tb_replays tb)"
      "tb_payloads (cleared t i tb) = tb_payloads tb"
    by (simp_all add: cleared_def)
  have "own_responses (cleared t i tb)"
    using own_filter_replays [of "tb\<lparr>tb_rows := map (clear_row t i ExpiredRecord) (tb_rows tb)\<rparr>"] own_rows [where tb = tb] assms
    unfolding cleared_def sweeping_def by simp
  moreover have "rows_from (tb_rows old) (tb_rows (cleared t i tb))"
    using rows_from_clear assms unfolding fields sweeping_def by blast
  moreover have "filter (\<lambda>q. rp_tenant q \<noteq> t) (tb_replays (cleared t i tb)) = filter (\<lambda>q. rp_tenant q \<noteq> t) (tb_replays tb)"
    unfolding fields by (rule filter_other) blast
  moreover have "filter (\<lambda>r. sw_tenant r \<noteq> t) (tb_rows (cleared t i tb)) = filter (\<lambda>r. sw_tenant r \<noteq> t) (tb_rows tb)"
    unfolding fields by (rule clear_row_other)
  moreover have "set (tb_replays (cleared t i tb)) \<subseteq> set (tb_replays old)"
    using assms unfolding fields sweeping_def by auto
  ultimately show ?thesis
    using assms unfolding sweeping_def fields(3) by simp
qed

lemma row_emptied_clear:
  "row_emptied t j r \<Longrightarrow> row_emptied t j (clear_row t i ExpiredRecord r)"
  "row_emptied t i (clear_row t i ExpiredRecord r)"
  by (auto simp: row_emptied_def clear_row_def)

lemma cleared_emptied:
  "emptied t j tb \<Longrightarrow> emptied t j (cleared t i tb)"
  using row_emptied_clear(1) by (auto simp: emptied_def cleared_def)

lemma sweep_one:
  "triple (\<lambda>tb. sweeping old t tb \<and> (\<forall>j \<in> D. emptied t j tb))
     (bind_op (clear_refs t i ExpiredRecord) (\<lambda>_. delete_interaction t i))
     (\<lambda>_ tb. sweeping old t tb \<and> (\<forall>j \<in> insert i D. emptied t j tb)) (\<lambda>_. False)"
proof (rule triple_bind)
  let ?R = "\<lambda>tb. (sweeping old t tb \<and> (\<forall>j \<in> D. emptied t j tb)) \<and>
      (\<forall>r \<in> set (tb_rows tb). row_emptied t i r) \<and>
      (\<forall>q \<in> set (tb_replays tb). \<not> (rp_tenant q = t \<and> rp_interaction q = i))"
  show "triple (\<lambda>tb. sweeping old t tb \<and> (\<forall>j \<in> D. emptied t j tb)) (clear_refs t i ExpiredRecord) (\<lambda>_. ?R) (\<lambda>_. False)"
    unfolding clear_refs_def
  proof (rule triple_bind [OF triple_require], assumption, rule triple_write)
    fix tb assume tb: "sweeping old t tb \<and> (\<forall>j \<in> D. emptied t j tb)"
    have "\<forall>r \<in> set (tb_rows (cleared t i tb)). row_emptied t i r"
      using row_emptied_clear(2) by (auto simp: cleared_def)
    moreover have "\<forall>q \<in> set (tb_replays (cleared t i tb)). \<not> (rp_tenant q = t \<and> rp_interaction q = i)"
      by (auto simp: cleared_def)
    ultimately have "?R (cleared t i tb)" using tb cleared_sweeping cleared_emptied by blast
    then show "?R (tb\<lparr>tb_rows := map (clear_row t i ExpiredRecord) (tb_rows tb),
        tb_replays := filter (\<lambda>p. \<not> (rp_tenant p = t \<and> rp_interaction p = i)) (tb_replays tb)\<rparr>)"
      unfolding cleared_def .
  qed
  show "triple ?R (delete_interaction t i)
      (\<lambda>_ tb. sweeping old t tb \<and> (\<forall>j \<in> insert i D. emptied t j tb)) (\<lambda>_. False)" for u
    unfolding delete_interaction_def
  proof (rule triple_bind [OF triple_require], assumption, rule triple_delete_payloads)
    fix tb assume R: "?R tb"
    let ?tb = "tb\<lparr>tb_payloads := filter (\<lambda>p. \<not> (ep_tenant p = t \<and> ep_interaction p = i)) (tb_payloads tb)\<rparr>"
    have "filter (\<lambda>p. ep_tenant p \<noteq> t) (filter (\<lambda>p. \<not> (ep_tenant p = t \<and> ep_interaction p = i)) (tb_payloads tb)) =
        filter (\<lambda>p. ep_tenant p \<noteq> t) (tb_payloads tb)"
      by (rule filter_other) blast
    then have "sweeping old t ?tb"
      using R own_filter_payloads [of tb "\<lambda>p. \<not> (ep_tenant p = t \<and> ep_interaction p = i)"]
      unfolding sweeping_def by simp
    moreover have "emptied t j ?tb" if "j \<in> insert i D" for j
      using R that unfolding emptied_def by auto
    ultimately show "sweeping old t ?tb \<and> (\<forall>j \<in> insert i D. emptied t j ?tb)" by blast
  next
    fix tb assume R: "?R tb" and bad: "\<exists>p \<in> set (tb_payloads tb). (ep_tenant p = t \<and> ep_interaction p = i) \<and> referenced tb p"
    then obtain p q where pq: "p \<in> set (tb_payloads tb)" "ep_tenant p = t" "ep_interaction p = i"
      "q \<in> set (tb_replays tb)" "rp_tenant q = ep_tenant p" "rp_response_ref q = ep_reference p"
      by (auto simp: referenced_def list_ex_iff)
    have "ep_interaction p = rp_interaction q"
      using R pq unfolding sweeping_def own_responses_def payload_key_def by metis
    then show False using R pq by metis
  qed
qed

text \<open>Removing one replay entry and its response.\<close>

definition forgotten :: "string \<Rightarrow> replay_record \<Rightarrow> tables \<Rightarrow> bool" where
  "forgotten t q tb \<longleftrightarrow> (\<forall>x \<in> set (tb_replays tb). \<not> same_request t (rp_application q) (rp_request q) x)"

lemma forget_one:
  "triple (\<lambda>tb. (sweeping old t tb \<and> (\<forall>j \<in> J. emptied t j tb)) \<and> (\<forall>x \<in> D. forgotten t x tb))
     (delete_replay t (rp_application q) (rp_request q))
     (\<lambda>_ tb. (sweeping old t tb \<and> (\<forall>j \<in> J. emptied t j tb)) \<and> (\<forall>x \<in> insert q D. forgotten t x tb)) (\<lambda>_. False)"
proof -
  let ?same = "same_request t (rp_application q) (rp_request q)"
  let ?I = "\<lambda>tb. (sweeping old t tb \<and> (\<forall>j \<in> J. emptied t j tb)) \<and> (\<forall>x \<in> D. forgotten t x tb)"
  let ?O = "\<lambda>tb. (sweeping old t tb \<and> (\<forall>j \<in> J. emptied t j tb)) \<and> (\<forall>x \<in> insert q D. forgotten t x tb)"
  have filtered: "?O (tb\<lparr>tb_replays := filter (\<lambda>p. \<not> ?same p) (tb_replays tb)\<rparr>)" if "?I tb" for tb
  proof -
    have "filter (\<lambda>q. rp_tenant q \<noteq> t) (filter (\<lambda>p. \<not> ?same p) (tb_replays tb)) = filter (\<lambda>q. rp_tenant q \<noteq> t) (tb_replays tb)"
      by (rule filter_other) (simp add: same_request_def)
    then have "sweeping old t (tb\<lparr>tb_replays := filter (\<lambda>p. \<not> ?same p) (tb_replays tb)\<rparr>)"
      using that own_filter_replays [of tb "\<lambda>p. \<not> ?same p"] unfolding sweeping_def by auto
    then show ?thesis using that by (auto simp: emptied_def forgotten_def)
  qed
  have discard: "triple (\<lambda>tb. ?O tb \<and> \<not> list_ex (\<lambda>x. rp_tenant x = t \<and> rp_response_ref x = ref) (tb_replays tb))
      (delete_response t ref) (\<lambda>_. ?O) (\<lambda>_. False)" for ref
    unfolding delete_response_def
  proof (rule triple_delete_payloads)
    fix tb assume a: "?O tb \<and> \<not> list_ex (\<lambda>x. rp_tenant x = t \<and> rp_response_ref x = ref) (tb_replays tb)"
    let ?tb = "tb\<lparr>tb_payloads := filter (\<lambda>p. \<not> (ep_tenant p = t \<and> ep_reference p = ref)) (tb_payloads tb)\<rparr>"
    have "filter (\<lambda>p. ep_tenant p \<noteq> t) (filter (\<lambda>p. \<not> (ep_tenant p = t \<and> ep_reference p = ref)) (tb_payloads tb)) =
        filter (\<lambda>p. ep_tenant p \<noteq> t) (tb_payloads tb)"
      by (rule filter_other) blast
    then have "sweeping old t ?tb"
      using a own_filter_payloads [of tb "\<lambda>p. \<not> (ep_tenant p = t \<and> ep_reference p = ref)"]
      unfolding sweeping_def by simp
    then show "?O ?tb" using a by (auto simp: emptied_def forgotten_def)
  next
    fix tb assume "?O tb \<and> \<not> list_ex (\<lambda>x. rp_tenant x = t \<and> rp_response_ref x = ref) (tb_replays tb)"
      and "\<exists>p \<in> set (tb_payloads tb). (ep_tenant p = t \<and> ep_reference p = ref) \<and> referenced tb p"
    then show False by (auto simp: referenced_def list_ex_iff)
  qed
  let ?R = "\<lambda>found tb. ?O tb \<and> (\<forall>p. found = Some p \<longrightarrow>
      \<not> list_ex (\<lambda>x. rp_tenant x = t \<and> rp_response_ref x = rp_response_ref p) (tb_replays tb))"
  have removal: "triple (\<lambda>tb. ?I tb \<and> found = find ?same (tb_replays tb))
      (sql_write (\<lambda>tb. tb\<lparr>tb_replays := filter (\<lambda>p. \<not> ?same p) (tb_replays tb)\<rparr>)) (\<lambda>_. ?R found) (\<lambda>_. False)" for found
  proof (rule triple_write)
    fix tb assume a: "?I tb \<and> found = find ?same (tb_replays tb)"
    have "\<not> list_ex (\<lambda>x. rp_tenant x = t \<and> rp_response_ref x = rp_response_ref p) (filter (\<lambda>p. \<not> ?same p) (tb_replays tb))"
      if "found = Some p" for p
    proof -
      have p: "p \<in> set (tb_replays tb)" "?same p" using a that by (metis find_Some_iff2)+
      have "inj_on (\<lambda>q. (rp_tenant q, rp_response_ref q)) (set (tb_replays tb))"
        using a unfolding sweeping_def own_responses_def distinct_map by blast
      then have "x = p" if "x \<in> set (tb_replays tb)" "rp_tenant x = t" "rp_response_ref x = rp_response_ref p" for x
        using that p unfolding inj_on_def same_request_def by simp
      then show ?thesis using p(2) by (auto simp: list_ex_iff)
    qed
    then show "?R found (tb\<lparr>tb_replays := filter (\<lambda>p. \<not> ?same p) (tb_replays tb)\<rparr>)"
      using filtered a by simp
  qed
  show ?thesis unfolding delete_replay_def
  proof (rule triple_bind [OF triple_require], assumption, rule triple_bind [OF read_keeps], rule triple_bind [OF removal])
    fix found u
    show "triple (?R found) (case found of None \<Rightarrow> return_op () | Some p \<Rightarrow> delete_response t (rp_response_ref p)) (\<lambda>_. ?O) (\<lambda>_. False)"
    proof (cases found)
      case None
      then show ?thesis by (simp add: triple_return)
    next
      case (Some p)
      show ?thesis unfolding Some option.case
        by (rule triple_conseq [OF discard]) auto
    qed
  qed
qed

section \<open>The sweep completes\<close>

lemma interactions_in_iff: "i \<in> set (interactions_in rs) \<longleftrightarrow> (\<exists>r \<in> set rs. sw_data r = RInteraction i)"
  by (induction rs) (auto split: stored_record.splits)

lemma delete_replay_subset:
  "triple (\<lambda>tb. set (tb_replays tb) \<subseteq> X) (delete_replay t a r) (\<lambda>_ tb. set (tb_replays tb) \<subseteq> X) (\<lambda>_. True)"
proof -
  have d: "triple (\<lambda>tb. set (tb_replays tb) \<subseteq> X) (delete_response t ref) (\<lambda>_ tb. set (tb_replays tb) \<subseteq> X) (\<lambda>_. True)" for ref
    unfolding delete_response_def by (rule triple_delete_payloads) simp_all
  show ?thesis unfolding delete_replay_def
  proof (rule triple_bind [OF triple_require], assumption,
      rule triple_bind [OF triple_read [where Q = "\<lambda>_ tb. set (tb_replays tb) \<subseteq> X"]], assumption,
      rule triple_bind [OF triple_write [where Q = "\<lambda>_ tb. set (tb_replays tb) \<subseteq> X"]])
    show "set (tb_replays (tb\<lparr>tb_replays := filter F (tb_replays tb)\<rparr>)) \<subseteq> X" if "set (tb_replays tb) \<subseteq> X" for tb F
      using that by auto
    show "triple (\<lambda>tb. set (tb_replays tb) \<subseteq> X)
        (case found of None \<Rightarrow> return_op () | Some p \<Rightarrow> delete_response t (rp_response_ref p))
        (\<lambda>_ tb. set (tb_replays tb) \<subseteq> X) (\<lambda>_. True)" for found
      using d by (cases found) (simp_all add: triple_return)
  qed
qed

lemma expire_replays_total:
  "triple (\<lambda>tb. sweeping old t tb \<and> (\<forall>j \<in> J. emptied t j tb)) (expire_replays t u)
     (\<lambda>_ tb. (sweeping old t tb \<and> (\<forall>j \<in> J. emptied t j tb)) \<and>
        (\<forall>q \<in> set (tb_replays tb). rp_tenant q = t \<longrightarrow> u < rp_expires_at q)) (\<lambda>_. False)"
  (is "triple ?S _ (\<lambda>_ tb. ?S tb \<and> ?fresh tb) _")
  unfolding expire_replays_def
proof (rule tripleI)
  fix db :: database and tb assume db: "db_working db = Some tb" "?S tb"
  let ?es = "filter (\<lambda>p. rp_tenant p = t \<and> rp_expires_at p \<le> u) (tb_replays tb)"
  let ?loop = "each_op (\<lambda>p. delete_replay t (rp_application p) (rp_request p)) ?es"
  have "triple (\<lambda>tb. ?S tb \<and> (\<forall>x \<in> {}. forgotten t x tb)) ?loop (\<lambda>_ tb. ?S tb \<and> (\<forall>x \<in> {} \<union> set ?es. forgotten t x tb)) (\<lambda>_. False)"
    by (rule triple_each_all) (rule forget_one)
  moreover have "triple (\<lambda>x. set (tb_replays x) \<subseteq> set (tb_replays tb)) ?loop (\<lambda>_ x. set (tb_replays x) \<subseteq> set (tb_replays tb)) (\<lambda>_. True)"
    by (rule triple_each) (rule delete_replay_subset)
  ultimately have both: "triple (\<lambda>x. (?S x \<and> (\<forall>x' \<in> {}. forgotten t x' x)) \<and> set (tb_replays x) \<subseteq> set (tb_replays tb)) ?loop
      (\<lambda>_ x. (?S x \<and> (\<forall>y \<in> {} \<union> set ?es. forgotten t y x)) \<and> set (tb_replays x) \<subseteq> set (tb_replays tb)) (\<lambda>x. False \<and> True)"
    by (rule triple_conj)
  have pre: "(?S tb \<and> (\<forall>x' \<in> {}. forgotten t x' tb)) \<and> set (tb_replays tb) \<subseteq> set (tb_replays tb)" using db(2) by blast
  have run: "bind_op (sql_read (\<lambda>tb. filter (\<lambda>p. rp_tenant p = t \<and> rp_expires_at p \<le> u) (tb_replays tb)))
      (each_op (\<lambda>p. delete_replay t (rp_application p) (rp_request p))) db = ?loop db"
    using db(1) by (simp add: bind_op_def sql_read_def tables_of_def)
  from tripleD [OF both db(1) pre]
  show "\<exists>r tb'. bind_op (sql_read (\<lambda>tb. filter (\<lambda>p. rp_tenant p = t \<and> rp_expires_at p \<le> u) (tb_replays tb)))
      (each_op (\<lambda>p. delete_replay t (rp_application p) (rp_request p))) db = (r, db\<lparr>db_working := Some tb'\<rparr>) \<and>
      (case r of Inl _ \<Rightarrow> False | Inr _ \<Rightarrow> ?S tb' \<and> ?fresh tb')"
  proof cases
    case (2 x tb')
    have "u < rp_expires_at q" if q: "q \<in> set (tb_replays tb')" "rp_tenant q = t" for q
    proof (rule ccontr)
      assume "\<not> u < rp_expires_at q"
      then have "q \<in> set ?es" using 2(2) q by auto
      then have "forgotten t q tb'" using 2(2) by blast
      then show False using q unfolding forgotten_def same_request_def by blast
    qed
    then show ?thesis using 2 run by auto
  qed simp
qed

definition due_for_sweep :: "string \<Rightarrow> instant \<Rightarrow> stored_row \<Rightarrow> bool" where
  "due_for_sweep t u r \<longleftrightarrow> kind_of (sw_data r) = KInteraction \<and> is_expired t u r"

lemma sweep_body:
  assumes "schema c" and "own_responses c"
  shows "triple (\<lambda>x. x = c)
     (bind_op (expired t u) (\<lambda>old.
       bind_op (each_op (\<lambda>i. bind_op (clear_refs t (ia_interaction_id i) ExpiredRecord) (\<lambda>_.
           delete_interaction t (ia_interaction_id i))) old) (\<lambda>_.
       bind_op (expire_replays t u) (\<lambda>_. return_op (length old)))))
     (\<lambda>_ tb. sweeping c t tb \<and> (\<forall>r \<in> set (tb_rows c). due_for_sweep t u r \<longrightarrow> emptied t (sw_record r) tb) \<and>
        (\<forall>q \<in> set (tb_replays tb). rp_tenant q = t \<longrightarrow> u < rp_expires_at q)) (\<lambda>_. False)"
proof -
  let ?old = "interactions_in (filter (is_expired t u) (tb_rows c))"
  let ?J = "ia_interaction_id ` set ?old"
  let ?S = "\<lambda>tb. sweeping c t tb \<and> (\<forall>j \<in> ?J. emptied t j tb)"
  have start: "sweeping c t c"
    using assms(2) by (auto simp: sweeping_def rows_from_def same_stored_def)
  have loop: "triple (\<lambda>tb. sweeping c t tb \<and> (\<forall>i \<in> ({} :: interaction set). emptied t (ia_interaction_id i) tb))
      (each_op (\<lambda>i. bind_op (clear_refs t (ia_interaction_id i) ExpiredRecord) (\<lambda>_. delete_interaction t (ia_interaction_id i))) ?old)
      (\<lambda>_ tb. sweeping c t tb \<and> (\<forall>i \<in> {} \<union> set ?old. emptied t (ia_interaction_id i) tb)) (\<lambda>_. False)"
  proof (rule triple_each_all [where I = "sweeping c t" and C = "\<lambda>i. emptied t (ia_interaction_id i)"])
    fix i and D :: "interaction set"
    show "triple (\<lambda>tb. sweeping c t tb \<and> (\<forall>y \<in> D. emptied t (ia_interaction_id y) tb))
        (bind_op (clear_refs t (ia_interaction_id i) ExpiredRecord) (\<lambda>_. delete_interaction t (ia_interaction_id i)))
        (\<lambda>_ tb. sweeping c t tb \<and> (\<forall>y \<in> insert i D. emptied t (ia_interaction_id y) tb)) (\<lambda>_. False)"
      by (rule triple_conseq [OF sweep_one [where D = "ia_interaction_id ` D"]]) auto
  qed
  have covered: "sw_record r \<in> ?J" if r: "r \<in> set (tb_rows c)" "due_for_sweep t u r" for r
  proof -
    obtain i where i: "sw_data r = RInteraction i" using r(2) by (cases "sw_data r") (auto simp: due_for_sweep_def)
    have "columns_agree r" using assms(1) r(1) unfolding schema_def rows_ok_def by blast
    then have "sw_record r = ia_interaction_id i" using i by (simp add: columns_agree_def)
    moreover have "i \<in> set ?old" using r i by (auto simp: interactions_in_iff due_for_sweep_def)
    ultimately show ?thesis by blast
  qed
  show ?thesis
  proof (rule triple_bind [where R = "\<lambda>old x. old = ?old \<and> x = c"])
    show "triple (\<lambda>x. x = c) (expired t u) (\<lambda>old x. old = ?old \<and> x = c) (\<lambda>_. False)"
      unfolding expired_def by (rule triple_read) simp
    fix old
    show "triple (\<lambda>x. old = ?old \<and> x = c) (bind_op (each_op (\<lambda>i. bind_op (clear_refs t (ia_interaction_id i) ExpiredRecord) (\<lambda>_.
           delete_interaction t (ia_interaction_id i))) old) (\<lambda>_. bind_op (expire_replays t u) (\<lambda>_. return_op (length old))))
        (\<lambda>_ tb. sweeping c t tb \<and> (\<forall>r \<in> set (tb_rows c). due_for_sweep t u r \<longrightarrow> emptied t (sw_record r) tb) \<and>
           (\<forall>q \<in> set (tb_replays tb). rp_tenant q = t \<longrightarrow> u < rp_expires_at q)) (\<lambda>_. False)"
    proof (rule triple_pre, rule triple_bind [where R = "\<lambda>_. ?S"])
      assume old: "old = ?old"
      show "triple (\<lambda>x. x = c) (each_op (\<lambda>i. bind_op (clear_refs t (ia_interaction_id i) ExpiredRecord) (\<lambda>_.
           delete_interaction t (ia_interaction_id i))) old) (\<lambda>_. ?S) (\<lambda>_. False)"
        unfolding old by (rule triple_conseq [OF loop]) (use start in auto)
    qed (rule triple_bind [OF expire_replays_total], rule triple_return, use covered in blast)
  qed
qed

text \<open>C17. The retention sweep always completes, and afterwards nothing of the tenant has outlived
  its time: no active interaction is expired; of an interaction that was, no payload and no replay
  entry is left and its records are marked and hold no reference; every replay entry of the tenant
  is still valid; and the rows, payloads and replay entries of the other tenants are as before.\<close>

theorem sweep_completes:
  assumes "db_working db = None" and "schema (db_committed db)" and "own_responses (db_committed db)"
  shows "\<exists>n tb. sweep t u db = (Inr n, \<lparr>db_committed = tb, db_working = None\<rparr>) \<and>
    (\<forall>r \<in> set (tb_rows tb). \<not> due_for_sweep t u r) \<and>
    (\<forall>r \<in> set (tb_rows (db_committed db)). due_for_sweep t u r \<longrightarrow> emptied t (sw_record r) tb) \<and>
    (\<forall>q \<in> set (tb_replays tb). rp_tenant q = t \<longrightarrow> u < rp_expires_at q) \<and>
    filter (\<lambda>r. sw_tenant r \<noteq> t) (tb_rows tb) = filter (\<lambda>r. sw_tenant r \<noteq> t) (tb_rows (db_committed db)) \<and>
    filter (\<lambda>p. ep_tenant p \<noteq> t) (tb_payloads tb) = filter (\<lambda>p. ep_tenant p \<noteq> t) (tb_payloads (db_committed db)) \<and>
    filter (\<lambda>q. rp_tenant q \<noteq> t) (tb_replays tb) = filter (\<lambda>q. rp_tenant q \<noteq> t) (tb_replays (db_committed db))"
proof -
  let ?c = "db_committed db"
  obtain n tb where run: "sweep t u db = (Inr n, \<lparr>db_committed = tb, db_working = None\<rparr>)"
    and post: "sweeping ?c t tb" "\<forall>r \<in> set (tb_rows ?c). due_for_sweep t u r \<longrightarrow> emptied t (sw_record r) tb"
      "\<forall>q \<in> set (tb_replays tb). rp_tenant q = t \<longrightarrow> u < rp_expires_at q"
    using transaction_total [OF sweep_body [OF assms(2,3)] assms(1) refl] unfolding sweep_def by blast
  have "\<not> due_for_sweep t u r" if r: "r \<in> set (tb_rows tb)" for r
  proof
    assume due: "due_for_sweep t u r"
    obtain q where q: "q \<in> set (tb_rows ?c)" "same_stored r q"
      using post(1) r unfolding sweeping_def rows_from_def by blast
    have "sw_state r = ActiveRecord" "sw_tenant r = t" using due by (auto simp: due_for_sweep_def is_expired_def)
    then have "due_for_sweep t u q" using due q(2)
      by (auto simp: due_for_sweep_def is_expired_def same_stored_def row_key_def)
    then have e: "emptied t (sw_record q) tb" using post(2) q(1) by blast
    obtain i where i: "sw_data q = RInteraction i"
      using \<open>due_for_sweep t u q\<close> by (cases "sw_data q") (auto simp: due_for_sweep_def)
    have "columns_agree q" using assms(2) q(1) unfolding schema_def rows_ok_def by blast
    then have "sw_interaction r = sw_record q" using i q(2) by (simp add: columns_agree_def same_stored_def)
    then have "row_emptied t (sw_record q) r \<and> sw_interaction r = sw_record q" using e r by (simp add: emptied_def)
    then show False using \<open>sw_state r = ActiveRecord\<close> \<open>sw_tenant r = t\<close> by (simp add: row_emptied_def)
  qed
  then show ?thesis using run post unfolding sweeping_def by blast
qed

text \<open>Deletion is permanent: once an interaction is erased (its tombstone is there, no payload
  and no replay entry is left and no record of it holds a reference), no later sequence of
  transactions of store calls brings back a payload, a replay entry or a reference, or removes the
  tombstone.\<close>

theorem erasure_is_permanent:
  assumes "schema (db_committed db)" and "erased t i (db_committed db)" and "db_working db = None"
  shows "erased t i (db_committed (run_store txs db))"
proof -
  have keeps: "triple (settled t i) (perform c) (\<lambda>_. settled t i) (\<lambda>_. True)" for c
    by (rule triple_conseq [OF perform_keeps [OF store_change_intros(2)]]) simp_all
  have "settled t i (db_committed db)" using assms(1,2) by (simp add: settled_def)
  from run_store_invariant [OF keeps assms(3) this, THEN conjunct2]
  show ?thesis by (simp add: settled_def)
qed

section \<open>A small database\<close>

definition stored_interaction :: interaction where
  "stored_interaction =
     \<lparr>ia_interaction_id = ''i'', ia_trace_id = ''tr'', ia_request_id = ''r'', ia_tenant_id = ''t'',
      ia_subject = None, ia_application_id = ''app'', ia_environment = Local, ia_started_at = 1,
      ia_completed_at = 2,
      ia_task = \<lparr>tk_label = ''chat'', tk_language = ''en'', tk_risk_tier = LowRisk,
        tk_classifier_version = ''c1'', tk_confidence = 1, tk_reason_codes = []\<rparr>,
      ia_policy = policy_decision_default ''p1'' 3600,
      ia_input = \<lparr>is_messages_ref = Some ''m'', is_response_format_ref = None, is_content_hash = None,
        is_token_count = 1, is_tokenizer = ''ws''\<rparr>,
      ia_retrieval_run_id = None, ia_route_decision_id = None, ia_generation_attempt_ids = [],
      ia_final_attempt_id = None, ia_feedback_ids = [], ia_total_cost_micros = 0,
      ia_shadow_cost_micros = 0, ia_status = Completed, ia_error_code = None\<rparr>"

definition stored_payload :: encrypted_payload where
  "stored_payload = \<lparr>ep_reference = ''x'', ep_tenant = ''t'', ep_interaction = ''i'', ep_field = ''replay'',
     ep_nonce = ''n'', ep_ciphertext = ''c'', ep_key_version = ''k'', ep_expires_at = 5\<rparr>"

definition stored_replay :: replay_record where
  "stored_replay = \<lparr>rp_tenant = ''t'', rp_application = ''app'', rp_request = ''r'', rp_interaction = ''i'',
     rp_fingerprint = ''f'', rp_response_ref = ''x'', rp_reserved_at = 1, rp_expires_at = 5\<rparr>"

definition stored_tables :: tables where
  "stored_tables = empty_tables\<lparr>tb_rows := [new_stored_row ''t'' (RInteraction stored_interaction) 5],
     tb_payloads := [stored_payload]\<rparr>"

definition deletion_of :: "string \<Rightarrow> deletion_request" where
  "deletion_of i = \<lparr>dr_deletion_request_id = ''d'', dr_scope = InteractionScope, dr_target_id = i,
     dr_requested_at = 3, dr_actor = None\<rparr>"

definition erased_tables :: tables where
  "erased_tables = empty_tables\<lparr>tb_rows := [new_stored_row ''t'' (clear_record (RInteraction stored_interaction)) 5],
     tb_tombstones := [((''t'', ''i''), deletion_of ''i'')]\<rparr>"

lemma stored_schema: "schema stored_tables" "schema erased_tables"
  by (simp_all add: schema_def rows_ok_def payloads_ok_def replays_ok_def known_def stored_tables_def
      erased_tables_def empty_tables_def columns_agree_def new_stored_row_def row_key_def
      stored_interaction_def stored_payload_def)

theorem sweep_completes_witness:
  "\<exists>n tb. sweep ''t'' 10 \<lparr>db_committed = stored_tables, db_working = None\<rparr> =
     (Inr n, \<lparr>db_committed = tb, db_working = None\<rparr>) \<and> emptied ''t'' ''i'' tb"
proof -
  let ?db = "\<lparr>db_committed = stored_tables, db_working = None\<rparr>"
  let ?row = "new_stored_row ''t'' (RInteraction stored_interaction) 5"
  have own: "own_responses (db_committed ?db)"
    by (simp add: own_responses_def stored_tables_def empty_tables_def)
  have row: "?row \<in> set (tb_rows (db_committed ?db))" "due_for_sweep ''t'' 10 ?row" "sw_record ?row = ''i''"
    by (simp_all add: stored_tables_def due_for_sweep_def is_expired_def new_stored_row_def stored_interaction_def)
  have "db_working ?db = None" "schema (db_committed ?db)" using stored_schema by simp_all
  from sweep_completes [OF this own, of "''t''" 10] show ?thesis using row by metis
qed

theorem erasure_is_permanent_witness:
  "erased ''t'' ''i'' (db_committed (run_store [[PutRecord ''t'' (RInteraction stored_interaction) 9], [PutPayload stored_payload]]
     \<lparr>db_committed = erased_tables, db_working = None\<rparr>))"
  by (rule erasure_is_permanent)
    (simp_all add: stored_schema, simp add: erased_def erased_tables_def empty_tables_def new_stored_row_def)

lemma put_stored_interaction:
  "\<exists>db'. put_record ''t'' (RInteraction stored_interaction) 5 \<lparr>db_committed = empty_tables, db_working = Some empty_tables\<rparr>
     = (Inr (), db')"
  by (simp add: put_record_def bind_op_def writable_def require_transaction_def guard_op_def get_tombstone_def
      state_at_def sql_read_def tables_of_def empty_tables_def rows_at_def new_stored_row_def
      stored_interaction_def return_op_def insert_record_def record_keys_def sql_write_def)

theorem put_then_get_witness:
  "\<exists>db'. put_record ''t'' (RInteraction stored_interaction) 5 \<lparr>db_committed = empty_tables, db_working = Some empty_tables\<rparr>
      = (Inr (), db') \<and>
    fst (get_record ''t'' KInteraction ''i'' db') = Inr (Some (RInteraction stored_interaction))"
proof -
  obtain db' where put: "put_record ''t'' (RInteraction stored_interaction) 5
      \<lparr>db_committed = empty_tables, db_working = Some empty_tables\<rparr> = (Inr (), db')"
    using put_stored_interaction by blast
  have working: "db_working \<lparr>db_committed = empty_tables, db_working = Some empty_tables\<rparr> = Some empty_tables" by simp
  have "record_id (RInteraction stored_interaction) = ''i''" by (simp add: stored_interaction_def)
  then show ?thesis using put_then_get [OF working put, THEN conjunct1] put by simp
qed

lemma put_stored_replay:
  "\<exists>db'. put_replay stored_replay 1 \<lparr>db_committed = empty_tables, db_working = Some stored_tables\<rparr> = (Inr (), db')"
  by (simp add: put_replay_def bind_op_def writable_def require_transaction_def guard_op_def get_tombstone_def
      state_at_def sql_read_def tables_of_def stored_tables_def empty_tables_def rows_at_def new_stored_row_def
      stored_interaction_def stored_replay_def stored_payload_def return_op_def replay_keys_def sql_write_def
      evicted_def same_request_def)

theorem replay_capacity_kept_witness:
  "\<exists>db'. put_replay stored_replay 1 \<lparr>db_committed = empty_tables, db_working = Some stored_tables\<rparr> = (Inr (), db') \<and>
     int (length (filter (\<lambda>q. rp_tenant q = ''t'') (tb_replays (tables_of db')))) \<le> 1"
proof -
  obtain db' where put: "put_replay stored_replay 1 \<lparr>db_committed = empty_tables, db_working = Some stored_tables\<rparr> = (Inr (), db')"
    using put_stored_replay by blast
  have working: "db_working \<lparr>db_committed = empty_tables, db_working = Some stored_tables\<rparr> = Some stored_tables" by simp
  have "rp_tenant stored_replay = ''t''" by (simp add: stored_replay_def)
  then show ?thesis using replay_capacity_kept [OF working put, THEN conjunct1] put by simp
qed

end
