(* ===== verification/Crypto.thy ===== *)
theory Crypto
  imports Storage
begin

text \<open>
  The payload cipher of \<open>storage/crypto.py\<close>. The authenticated cipher (AES-GCM) is third-party
  code and a parameter: its two operations take the key, the nonce, the text and the associated
  data. The identifier and the nonce that an encryption draws are arguments. A payload is bound to
  its tenant, its interaction and a field by the associated data, a text with separators that no
  part may contain.
\<close>

section \<open>Keys\<close>

record aead =
  ae_encrypt :: "string \<Rightarrow> string \<Rightarrow> string \<Rightarrow> string \<Rightarrow> string"
  ae_decrypt :: "string \<Rightarrow> string \<Rightarrow> string \<Rightarrow> string \<Rightarrow> string option"

record payload_cipher =
  ci_ciphers :: "(string \<times> string) list"
  ci_key_version :: string

definition cipher_new :: "(string \<times> string) list \<Rightarrow> string \<Rightarrow> payload_cipher result" where
  "cipher_new keys version =
     (if keys = [] \<or> list_ex (\<lambda>(v, k). v = [] \<or> length k \<noteq> 32) keys
      then Inl (ValueError ''invalid_payload_key'')
      else if map_of keys version = None then Inl (ValueError ''unknown_current_key_version'')
      else Inr \<lparr>ci_ciphers = keys, ci_key_version = version\<rparr>)"

text \<open>\<open>bytes.fromhex\<close>: pairs of digits, with white space allowed between the pairs.\<close>

definition hex_digit :: "char \<Rightarrow> nat option" where
  "hex_digit c =
     (if is_digit c then Some (code c - 48)
      else if 97 \<le> code c \<and> code c \<le> 102 then Some (code c - 87)
      else if 65 \<le> code c \<and> code c \<le> 70 then Some (code c - 55) else None)"

fun from_hex :: "string \<Rightarrow> string option" where
  "from_hex [] = Some []"
| "from_hex (c # s) =
     (if code c \<in> {9, 10, 11, 12, 13, 32} then from_hex s
      else case s of [] \<Rightarrow> None
        | d # s' \<Rightarrow> (case (hex_digit c, hex_digit d) of
            (Some a, Some b) \<Rightarrow> map_option (\<lambda>r. char_of (16 * a + b) # r) (from_hex s')
          | _ \<Rightarrow> None))"

text \<open>The parsed key file: keys in hexadecimal, and the current version if it is a string.\<close>

record keyring_config =
  kc_keys :: "(string \<times> string) list"
  kc_current_version :: "string option"

fun decode_keys :: "(string \<times> string) list \<Rightarrow> (string \<times> string) list option" where
  "decode_keys [] = Some []"
| "decode_keys ((v, h) # ks) =
     Option.bind (from_hex h) (\<lambda>k. map_option (\<lambda>r. (v, k) # r) (decode_keys ks))"

definition load_keyring :: "keyring_config \<Rightarrow> ((string \<times> string) list \<times> string) result" where
  "load_keyring config =
     (case (decode_keys (kc_keys config), kc_current_version config) of
        (Some keys, Some current) \<Rightarrow>
          if is_ok (cipher_new keys current) then Inr (keys, current)
          else Inl (StorageError ''invalid_payload_keyring'')
      | _ \<Rightarrow> Inl (StorageError ''invalid_payload_keyring''))"

section \<open>Encryption\<close>

definition payload_aad :: "string \<Rightarrow> string \<Rightarrow> string \<Rightarrow> string result" where
  "payload_aad tenant interaction f =
     (if list_ex (\<lambda>part. CHR ''|'' \<in> set part) [tenant, interaction, f]
      then Inl (StorageError ''invalid_payload_binding'')
      else Inr (tenant @ ''|'' @ interaction @ ''|'' @ f))"

definition aad_field :: "string option \<Rightarrow> string \<Rightarrow> string" where
  "aad_field g f = (case g of None \<Rightarrow> f | Some x \<Rightarrow> if x = [] then f else x)"

definition encrypt ::
    "aead \<Rightarrow> payload_cipher \<Rightarrow> string \<Rightarrow> string \<Rightarrow> string \<Rightarrow> string \<Rightarrow> string \<Rightarrow> string \<Rightarrow> instant \<Rightarrow>
     string option \<Rightarrow> encrypted_payload result" where
  "encrypt ae c reference nonce content tenant interaction f expires g =
     (case map_of (ci_ciphers c) (ci_key_version c) of
        None \<Rightarrow> Inl OtherException
      | Some key \<Rightarrow>
          bindE (payload_aad tenant interaction (aad_field g f)) (\<lambda>aad.
            Inr \<lparr>ep_reference = reference, ep_tenant = tenant, ep_interaction = interaction,
                 ep_field = f, ep_nonce = nonce, ep_ciphertext = ae_encrypt ae key nonce content aad,
                 ep_key_version = ci_key_version c, ep_expires_at = expires\<rparr>))"

definition decrypt ::
    "aead \<Rightarrow> payload_cipher \<Rightarrow> encrypted_payload \<Rightarrow> string \<Rightarrow> string \<Rightarrow> string \<Rightarrow> string option \<Rightarrow>
     string result" where
  "decrypt ae c p tenant interaction f g =
     (case map_of (ci_ciphers c) (ep_key_version p) of
        None \<Rightarrow> Inl (StorageError ''unknown_payload_key_version'')
      | Some key \<Rightarrow>
          if ep_field p \<noteq> f then Inl (StorageError ''payload_authentication_failed'')
          else bindE (payload_aad tenant interaction (aad_field g f)) (\<lambda>aad.
            case ae_decrypt ae key (ep_nonce p) (ep_ciphertext p) aad of
              None \<Rightarrow> Inl (StorageError ''payload_authentication_failed'')
            | Some content \<Rightarrow> Inr content))"

section \<open>The binding\<close>

lemma split_at_bar:
  assumes "CHR ''|'' \<notin> set x" and "CHR ''|'' \<notin> set y" and "x @ CHR ''|'' # u = y @ CHR ''|'' # v"
  shows "x = y \<and> u = v"
  using assms
proof (induction x arbitrary: y)
  case Nil
  then show ?case by (cases y) auto
next
  case (Cons a x)
  then show ?case by (cases y) auto
qed

lemma payload_aad_Inr:
  "payload_aad t i f = Inr a \<longleftrightarrow>
     CHR ''|'' \<notin> set t \<and> CHR ''|'' \<notin> set i \<and> CHR ''|'' \<notin> set f \<and> a = t @ ''|'' @ i @ ''|'' @ f"
  by (auto simp: payload_aad_def)

lemma payload_aad_inj:
  assumes "payload_aad t i f = Inr a" and "payload_aad t' i' f' = Inr a"
  shows "t = t' \<and> i = i' \<and> f = f'"
proof -
  have bars: "CHR ''|'' \<notin> set t" "CHR ''|'' \<notin> set t'" "CHR ''|'' \<notin> set i" "CHR ''|'' \<notin> set i'"
    and eq: "t @ CHR ''|'' # i @ CHR ''|'' # f = t' @ CHR ''|'' # i' @ CHR ''|'' # f'"
    using assms by (simp_all add: payload_aad_Inr)
  from split_at_bar [OF bars(1,2) eq] have t: "t = t'" and rest: "i @ CHR ''|'' # f = i' @ CHR ''|'' # f'"
    by simp_all
  from split_at_bar [OF bars(3,4) rest] t show ?thesis by simp
qed

lemma cipher_new_iff:
  "is_ok (cipher_new keys version) \<longleftrightarrow>
     (\<forall>(v, k) \<in> set keys. v \<noteq> [] \<and> length k = 32) \<and> version \<in> fst ` set keys"
  by (auto simp: cipher_new_def list_ex_iff map_of_eq_None_iff)

text \<open>C28. A payload is bound to its place. With a cipher whose decryption undoes its encryption and
  whose ciphertexts determine the key, nonce, text and associated data they were made of, a payload
  that was encrypted for a tenant, an interaction and a field is decrypted to the text that went in
  by every key ring that still has the key of its version, and by no call that names another
  tenant, interaction or field, whatever identifiers it uses.\<close>

theorem payload_binds:
  assumes "\<And>k n m a d. ae_decrypt ae k n d a = Some m \<longleftrightarrow> d = ae_encrypt ae k n m a"
    and "\<And>k n m a m' a'. ae_encrypt ae k n m a = ae_encrypt ae k n m' a' \<Longrightarrow> m = m' \<and> a = a'"
    and "encrypt ae c ref nonce content t i f expires None = Inr p"
    and "map_of (ci_ciphers d) (ci_key_version c) = map_of (ci_ciphers c) (ci_key_version c)"
  shows "decrypt ae d p t' i' f' None = Inr content' \<longleftrightarrow>
    t' = t \<and> i' = i \<and> f' = f \<and> content' = content"
proof -
  obtain key a where key: "map_of (ci_ciphers c) (ci_key_version c) = Some key"
    and a: "payload_aad t i f = Inr a"
    and p: "p = \<lparr>ep_reference = ref, ep_tenant = t, ep_interaction = i, ep_field = f, ep_nonce = nonce,
      ep_ciphertext = ae_encrypt ae key nonce content a, ep_key_version = ci_key_version c,
      ep_expires_at = expires\<rparr>"
    using assms(3) by (auto simp: encrypt_def aad_field_def bindE_Inr_iff split: option.splits)
  have "decrypt ae d p t' i' f' None = Inr content' \<longleftrightarrow>
      f' = f \<and> (\<exists>b. payload_aad t' i' f' = Inr b \<and>
        ae_decrypt ae key nonce (ae_encrypt ae key nonce content a) b = Some content')"
    using key assms(4)
    by (auto simp: decrypt_def p aad_field_def bindE_Inr_iff split: option.splits)
  also have "\<dots> \<longleftrightarrow> f' = f \<and> content' = content \<and> payload_aad t' i' f' = Inr a"
    using assms(1,2) by metis
  also have "\<dots> \<longleftrightarrow> t' = t \<and> i' = i \<and> f' = f \<and> content' = content"
    using payload_aad_inj [OF a] a by metis
  finally show ?thesis .
qed

text \<open>A cipher that writes its arguments down satisfies the hypotheses.\<close>

definition echo_aead :: aead where
  "echo_aead =
     \<lparr>ae_encrypt = (\<lambda>k n m a. replicate (length m) CHR ''x'' @ CHR ''y'' # m @ a),
      ae_decrypt = (\<lambda>k n d a.
        let l = length (takeWhile (\<lambda>c. c = CHR ''x'') d); m = take l (drop (Suc l) d)
        in if d = replicate (length m) CHR ''x'' @ CHR ''y'' # m @ a then Some m else None)\<rparr>"

lemma echo_length: "length (takeWhile (\<lambda>c. c = CHR ''x'') (replicate n CHR ''x'' @ CHR ''y'' # r)) = n"
  by (simp add: takeWhile_append)

lemma echo_decrypt: "ae_decrypt echo_aead k n d a = Some m \<longleftrightarrow> d = ae_encrypt echo_aead k n m a"
  unfolding echo_aead_def aead.simps Let_def by (auto simp: echo_length split: if_splits)

lemma echo_encrypt:
  assumes "ae_encrypt echo_aead k n m a = ae_encrypt echo_aead k n m' a'"
  shows "m = m' \<and> a = a'"
proof -
  have "length m = length m'"
    using arg_cong [OF assms, of "\<lambda>d. length (takeWhile (\<lambda>c. c = CHR ''x'') d)"]
    by (simp add: echo_aead_def echo_length)
  then show ?thesis using assms by (simp add: echo_aead_def)
qed

definition sample_cipher :: payload_cipher where
  "sample_cipher = \<lparr>ci_ciphers = [(''local-1'', replicate 32 CHR ''k'')], ci_key_version = ''local-1''\<rparr>"

theorem payload_binds_witness:
  "\<exists>p. encrypt echo_aead sample_cipher ''ref'' ''nonce'' ''hi'' ''t'' ''i'' ''output'' 5 None = Inr p \<and>
     decrypt echo_aead sample_cipher p ''t'' ''i'' ''output'' None = Inr ''hi'' \<and>
     decrypt echo_aead sample_cipher p ''u'' ''i'' ''output'' None \<noteq> Inr ''hi''"
proof -
  obtain p where p: "encrypt echo_aead sample_cipher ''ref'' ''nonce'' ''hi'' ''t'' ''i'' ''output'' 5 None = Inr p"
    by (simp add: encrypt_def sample_cipher_def payload_aad_def aad_field_def)
  have "decrypt echo_aead sample_cipher p t' i' f' None = Inr c \<longleftrightarrow>
      t' = ''t'' \<and> i' = ''i'' \<and> f' = ''output'' \<and> c = ''hi''" for t' i' f' c
    by (rule payload_binds [OF echo_decrypt _ p refl]) (rule echo_encrypt)
  then show ?thesis using p by simp
qed

end
