(* ===== verification/Identity.thy ===== *)
theory Identity
  imports Crypto Signing
begin

text \<open>
  The key ring of derived codes and the local API keys of \<open>gateway/identity.py\<close>. The hash
  functions are parameters: \<open>hash_functions\<close> holds HMAC and SHA-256, from bytes to bytes. The
  key ring derives one key for each purpose, so a code for one purpose says nothing about another;
  the authenticator takes tenant, applications and environment from its configuration and never
  from the caller.
\<close>

section \<open>Derived keys\<close>

record hash_functions =
  hf_hmac :: "string \<Rightarrow> string \<Rightarrow> string"
  hf_sha256 :: "string \<Rightarrow> string"

definition to_hex :: "string \<Rightarrow> string" where
  "to_hex s = concat (map (\<lambda>c. [digit_char (code c div 16), digit_char (code c mod 16)]) s)"

definition key_purposes :: "string list" where
  "key_purposes =
     [''subject-pseudonym-v1'', ''input-content-v1'', ''output-content-v1'', ''query-content-v1'',
      ''replay-fingerprint-v1'', ''dataset-example-v1'', ''dataset-manifest-v1'',
      ''evaluation-report-v1'', ''model-artifact-v1'']"

record 'k keyring =
  kg_signer :: "signer option"
  kg_verifier :: "'k verifier option"
  kg_legacy_mac_records :: bool
  kg_keys :: "(string \<times> string) list"

definition keyring_new ::
    "hash_functions \<Rightarrow> string \<Rightarrow> signer option \<Rightarrow> 'k verifier option \<Rightarrow> bool \<Rightarrow> 'k keyring" where
  "keyring_new hf secret s v legacy =
     \<lparr>kg_signer = s, kg_verifier = v, kg_legacy_mac_records = legacy,
      kg_keys = map (\<lambda>purpose. (purpose, hf_hmac hf secret purpose)) key_purposes\<rparr>"

definition require_signer :: "'k keyring \<Rightarrow> unit result" where
  "require_signer k =
     guardE (kg_verifier k = None \<or> kg_signer k \<noteq> None) (GatewayError 503 ''signing_key_required'')"

definition accepts_legacy_mac :: "'k keyring \<Rightarrow> bool" where
  "accepts_legacy_mac k = (kg_verifier k = None \<or> kg_legacy_mac_records k)"

text \<open>An unknown purpose is a \<open>KeyError\<close>.\<close>

definition keyed_hash :: "hash_functions \<Rightarrow> 'k keyring \<Rightarrow> string \<Rightarrow> string \<Rightarrow> string option" where
  "keyed_hash hf k purpose v = map_option (\<lambda>key. to_hex (hf_hmac hf key v)) (map_of (kg_keys k) purpose)"

definition purpose_hash :: "hash_functions \<Rightarrow> 'k keyring \<Rightarrow> string \<Rightarrow> string \<Rightarrow> string" where
  "purpose_hash hf k purpose v = the (keyed_hash hf k purpose v)"

definition pseudonym :: "hash_functions \<Rightarrow> 'k keyring \<Rightarrow> string \<Rightarrow> string \<Rightarrow> string" where
  "pseudonym hf k tenant subject =
     purpose_hash hf k ''subject-pseudonym-v1'' (dumps_strings '', '' [tenant, subject])"

datatype content_purpose = InputContent | OutputContent | QueryContent

fun purpose_name :: "content_purpose \<Rightarrow> string" where
  "purpose_name InputContent = ''input''"
| "purpose_name OutputContent = ''output''"
| "purpose_name QueryContent = ''query''"

definition content_hash :: "hash_functions \<Rightarrow> 'k keyring \<Rightarrow> string \<Rightarrow> content_purpose \<Rightarrow> string" where
  "content_hash hf k v p = purpose_hash hf k (purpose_name p @ ''-content-v1'') v"

definition fingerprint :: "hash_functions \<Rightarrow> 'k keyring \<Rightarrow> string \<Rightarrow> string" where
  "fingerprint hf k v = purpose_hash hf k ''replay-fingerprint-v1'' v"

definition dataset_hash :: "hash_functions \<Rightarrow> 'k keyring \<Rightarrow> string \<Rightarrow> string" where
  "dataset_hash hf k v = purpose_hash hf k ''dataset-example-v1'' v"

definition manifest_mac :: "hash_functions \<Rightarrow> 'k keyring \<Rightarrow> string \<Rightarrow> string" where
  "manifest_mac hf k v = purpose_hash hf k ''dataset-manifest-v1'' v"

definition report_mac :: "hash_functions \<Rightarrow> 'k keyring \<Rightarrow> string \<Rightarrow> string" where
  "report_mac hf k v = purpose_hash hf k ''evaluation-report-v1'' v"

definition artifact_mac :: "hash_functions \<Rightarrow> 'k keyring \<Rightarrow> string \<Rightarrow> string" where
  "artifact_mac hf k v = purpose_hash hf k ''model-artifact-v1'' v"

section \<open>Checkpoint seals\<close>

definition unsigned_record :: signed_record where
  "unsigned_record = \<lparr>sr_signature = None, sr_signature_key_id = None, sr_signature_version = None\<rparr>"

definition or_empty :: "string option \<Rightarrow> string" where
  "or_empty x = (case x of None \<Rightarrow> [] | Some s \<Rightarrow> s)"

definition checkpoint_seal :: "hash_functions \<Rightarrow> 'k keyring \<Rightarrow> string \<Rightarrow> (string \<times> string) list result" where
  "checkpoint_seal hf k payload =
     bindE (require_signer k) (\<lambda>_.
       case kg_signer k of
         None \<Rightarrow> Inr [(''mac'', artifact_mac hf k payload)]
       | Some s \<Rightarrow>
           let r = sign_record unsigned_record s ''training-checkpoint'' payload in
           Inr [(''signature'', or_empty (sr_signature r)),
                (''signature_key_id'', or_empty (sr_signature_key_id r)),
                (''signature_version'', or_empty (sr_signature_version r)),
                (''mac'', [])])"

text \<open>\<open>SignedRecord.model_validate\<close>: other keys of the seal are ignored.\<close>

definition record_of_seal :: "(string \<times> string) list \<Rightarrow> signed_record result" where
  "record_of_seal seal =
     (let r = \<lparr>sr_signature = map_of seal ''signature'',
               sr_signature_key_id = map_of seal ''signature_key_id'',
               sr_signature_version = map_of seal ''signature_version''\<rparr>
      in if signed_record_fields r \<and> map_of seal ''schema_version'' \<in> {None, Some ''1.0''} then Inr r
         else Inl (ValueError field_error))"

definition verify_checkpoint ::
    "hash_functions \<Rightarrow> 'k keyring \<Rightarrow> (string \<times> string) list \<Rightarrow> string \<Rightarrow> unit result" where
  "verify_checkpoint hf k seal payload =
     bindE (record_of_seal seal) (\<lambda>r.
       if signed r then verify_record r (kg_verifier k) ''training-checkpoint'' payload
       else guardE (accepts_legacy_mac k \<and> or_empty (map_of seal ''mac'') = artifact_mac hf k payload)
              (ValueError ''checkpoint_integrity_failed''))"

section \<open>API keys\<close>

datatype key_class = UserKey | OperatorKey

record identity =
  id_tenant_id :: string
  id_application_ids :: "string list"
  id_environment :: environment
  id_subject :: "string option"
  id_key_class :: key_class
  id_dataset_tenants :: "string list"
  id_capabilities :: "string list"

record key_identity =
  ki_key_sha256 :: "string option"
  ki_tenant_id :: ident
  ki_application_ids :: "ident list"
  ki_environment :: environment
  ki_key_class :: key_class
  ki_dataset_tenants :: "ident list"
  ki_capabilities :: "ident list"

definition key_identity_fields :: "key_identity \<Rightarrow> bool" where
  "key_identity_fields e =
     (opt_all (\<lambda>h. length h = 64 \<and> list_all is_hex_char h) (ki_key_sha256 e) \<and>
      valid_identifier (ki_tenant_id e) \<and> list_all valid_identifier (ki_application_ids e) \<and>
      list_all valid_identifier (ki_dataset_tenants e) \<and> list_all valid_identifier (ki_capabilities e))"

type_synonym authenticator = "(string \<times> key_identity) list"

definition authenticator_new ::
    "hash_functions \<Rightarrow> (string \<times> key_identity) list \<Rightarrow> authenticator result" where
  "authenticator_new hf keys =
     (if \<not> list_all (\<lambda>(_, e). key_identity_fields e) keys then Inl (ValueError field_error)
      else let entries = map (\<lambda>(key, e). (case ki_key_sha256 e of
                 None \<Rightarrow> to_hex (hf_sha256 hf key)
               | Some h \<Rightarrow> if h = [] then to_hex (hf_sha256 hf key) else h, e)) keys in
      if length (remdups (map fst entries)) \<noteq> length entries then Inl (ValueError ''duplicate_identity_key'')
      else Inr entries)"

text \<open>\<open>str.partition('' '')\<close>.\<close>

fun before_space :: "string \<Rightarrow> string" where
  "before_space [] = []"
| "before_space (c # s) = (if c = CHR '' '' then [] else c # before_space s)"

fun after_space :: "string \<Rightarrow> string" where
  "after_space [] = []"
| "after_space (c # s) = (if c = CHR '' '' then s else after_space s)"

text \<open>The scan looks at every entry; the last that matches decides.\<close>

fun scan_keys :: "bool \<Rightarrow> string \<Rightarrow> authenticator \<Rightarrow> key_identity option \<Rightarrow> key_identity option" where
  "scan_keys bearer presented [] found = found"
| "scan_keys bearer presented ((digest, e) # es) found =
     scan_keys bearer presented es (if presented = digest \<and> bearer then Some e else found)"

definition authenticate ::
    "hash_functions \<Rightarrow> 'k keyring \<Rightarrow> authenticator \<Rightarrow> string option \<Rightarrow> string option \<Rightarrow> identity result" where
  "authenticate hf k keys authorization subject =
     (let header = or_empty authorization; scheme = before_space header; key = after_space header;
          presented = to_hex (hf_sha256 hf key)
      in case scan_keys (map to_lower scheme = ''bearer'') presented keys None of
        None \<Rightarrow> Inl (GatewayError 401 ''unauthenticated'')
      | Some e \<Rightarrow> Inr
          \<lparr>id_tenant_id = ki_tenant_id e, id_application_ids = ki_application_ids e,
           id_environment = ki_environment e,
           id_subject = (if subject \<noteq> None \<or> ki_key_class e = OperatorKey
             then Some (pseudonym hf k (ki_tenant_id e) (case subject of Some s \<Rightarrow> s | None \<Rightarrow> key))
             else None),
           id_key_class = ki_key_class e, id_dataset_tenants = ki_dataset_tenants e,
           id_capabilities = ki_capabilities e\<rparr>)"

section \<open>Properties\<close>

subsection \<open>Hexadecimal digests\<close>

lemma to_hex_simps [simp]:
  "to_hex [] = []"
  "to_hex (c # s) = digit_char (code c div 16) # digit_char (code c mod 16) # to_hex s"
  by (simp_all add: to_hex_def)

lemma to_hex_inj: "to_hex s = to_hex t \<longleftrightarrow> s = t"
proof
  assume "to_hex s = to_hex t"
  then show "s = t"
  proof (induction s arbitrary: t)
    case Nil
    then show ?case by (cases t) simp_all
  next
    case (Cons c s)
    then obtain d u where t: "t = d # u" by (cases t) simp_all
    have small: "code c div 16 < 16" "code d div 16 < 16" "code c mod 16 < 16" "code d mod 16 < 16"
      using code_less [of c] code_less [of d] by simp_all
    have "digit_char (code c div 16) = digit_char (code d div 16)"
      "digit_char (code c mod 16) = digit_char (code d mod 16)" and rest: "to_hex s = to_hex u"
      using Cons.prems t by simp_all
    then have "code c div 16 = code d div 16" "code c mod 16 = code d mod 16"
      using small hex_value_digit by metis+
    then have "code c = code d" by (metis div_mult_mod_eq)
    then have "c = d" using char_of_code by metis
    then show ?case using Cons.IH [OF rest] t by simp
  qed
qed simp

subsection \<open>Authentication\<close>

lemma scan_keys_map_of:
  "scan_keys b p es found = (if b then case map_of (rev es) p of None \<Rightarrow> found | Some e \<Rightarrow> Some e else found)"
  by (induction b p es found rule: scan_keys.induct) (auto simp: map_add_def split: option.splits)

lemma authenticator_new_distinct: "authenticator_new hf cfg = Inr keys \<Longrightarrow> distinct (map fst keys)"
  unfolding authenticator_new_def Let_def
  by (auto split: if_splits simp: length_remdups_card_conv card_distinct)

lemma scan_distinct_keys:
  assumes "distinct (map fst es)"
  shows "scan_keys b p es None = (if b then map_of es p else None)"
proof -
  have "map_of (rev es) = map_of es"
    using assms by (subst map_of_inject_set) (simp_all add: rev_map [symmetric])
  then show ?thesis by (simp add: scan_keys_map_of split: option.splits)
qed

definition header_key :: "string option \<Rightarrow> string" where
  "header_key authorization = after_space (or_empty authorization)"

definition bearer_scheme :: "string option \<Rightarrow> bool" where
  "bearer_scheme authorization = (map to_lower (before_space (or_empty authorization)) = ''bearer'')"

definition granted :: "key_identity \<Rightarrow> identity \<Rightarrow> bool" where
  "granted e i \<longleftrightarrow> id_tenant_id i = ki_tenant_id e \<and> id_application_ids i = ki_application_ids e \<and>
     id_environment i = ki_environment e \<and> id_key_class i = ki_key_class e \<and>
     id_dataset_tenants i = ki_dataset_tenants e \<and> id_capabilities i = ki_capabilities e"

lemma authenticate_by_digest:
  assumes "distinct (map fst keys)"
  shows "case (if bearer_scheme a then map_of keys (to_hex (hf_sha256 hf (header_key a))) else None) of
      None \<Rightarrow> authenticate hf k keys a subject = Inl (GatewayError 401 ''unauthenticated'')
    | Some e \<Rightarrow> (\<exists>i. authenticate hf k keys a subject = Inr i \<and> granted e i \<and>
        id_subject i = (if subject \<noteq> None \<or> ki_key_class e = OperatorKey
          then Some (pseudonym hf k (ki_tenant_id e) (case subject of Some s \<Rightarrow> s | None \<Rightarrow> header_key a))
          else None))"
  unfolding authenticate_def Let_def
  by (simp add: scan_distinct_keys [OF assms] bearer_scheme_def header_key_def granted_def split: option.splits)

text \<open>C39. A caller is exactly who its key says: with an accepted configuration the gateway
  authenticates a request exactly when its header carries, under the bearer scheme, a key whose
  digest is configured; tenant, applications, environment, class and capabilities are then those
  of that entry, whatever subject the caller names, in whatever order the keys are configured; the
  subject is kept only under a pseudonym of that tenant; and every other request is refused with
  the one code 401.\<close>

theorem authenticate_exactly_configured:
  assumes "authenticator_new hf cfg = Inr keys"
  shows "(is_ok (authenticate hf k keys a subject) \<longleftrightarrow>
      bearer_scheme a \<and> to_hex (hf_sha256 hf (header_key a)) \<in> fst ` set keys) \<and>
    (\<forall>i. authenticate hf k keys a subject = Inr i \<longrightarrow>
      (\<exists>e. (to_hex (hf_sha256 hf (header_key a)), e) \<in> set keys \<and> granted e i \<and>
        (\<forall>p. id_subject i = Some p \<longrightarrow> (\<exists>s. p = pseudonym hf k (ki_tenant_id e) s)))) \<and>
    (\<forall>x. authenticate hf k keys a subject = Inl x \<longrightarrow> x = GatewayError 401 ''unauthenticated'') \<and>
    (\<forall>keys'. distinct (map fst keys') \<and> set keys' = set keys \<longrightarrow>
      authenticate hf k keys' a subject = authenticate hf k keys a subject)"
proof -
  let ?d = "to_hex (hf_sha256 hf (header_key a))"
  have dist: "distinct (map fst keys)" by (rule authenticator_new_distinct [OF assms])
  note by_digest = authenticate_by_digest [OF dist, where a = a and hf = hf and k = k and subject = subject]
  have order: "authenticate hf k keys' a subject = authenticate hf k keys a subject"
    if "distinct (map fst keys')" "set keys' = set keys" for keys'
  proof -
    have "map_of keys' = map_of keys" using that dist by (simp add: map_of_inject_set)
    then show ?thesis
      unfolding authenticate_def Let_def scan_distinct_keys [OF dist] scan_distinct_keys [OF that(1)] by simp
  qed
  show ?thesis
  proof (cases "if bearer_scheme a then map_of keys ?d else None")
    case None
    then have "\<not> (bearer_scheme a \<and> ?d \<in> fst ` set keys)" by (auto simp: map_of_eq_None_iff split: if_splits)
    then show ?thesis using by_digest None order by simp
  next
    case (Some e)
    then have e: "bearer_scheme a" "map_of keys ?d = Some e" by (simp_all split: if_splits)
    obtain i where i: "authenticate hf k keys a subject = Inr i" "granted e i"
        "id_subject i = (if subject \<noteq> None \<or> ki_key_class e = OperatorKey
          then Some (pseudonym hf k (ki_tenant_id e) (case subject of Some s \<Rightarrow> s | None \<Rightarrow> header_key a))
          else None)"
      using by_digest Some by auto
    have mem: "(?d, e) \<in> set keys" by (rule map_of_SomeD [OF e(2)])
    then have "?d \<in> fst ` set keys" by force
    moreover have "\<forall>p. id_subject i = Some p \<longrightarrow> (\<exists>s. p = pseudonym hf k (ki_tenant_id e) s)"
      unfolding i(3) by auto
    ultimately show ?thesis using i(1,2) e(1) mem order by auto
  qed
qed

text \<open>Pseudonyms of different tenants or subjects differ, if the code does not collide.\<close>

lemma known_purpose:
  "p \<in> set key_purposes \<Longrightarrow> keyed_hash hf (keyring_new hf secret s v legacy) p x =
     Some (to_hex (hf_hmac hf (hf_hmac hf secret p) x))"
  by (simp add: keyed_hash_def keyring_new_def map_of_map_restrict map_of_map_keys)

text \<open>A derived code stands for one purpose and one text: over a code without collisions, the
  codes of two of the declared purposes, or of two different texts, are different; so the
  pseudonyms of two tenants never meet, even for the same subject.\<close>

theorem purposes_separate:
  assumes "\<And>a b c d. hf_hmac hf a b = hf_hmac hf c d \<Longrightarrow> a = c \<and> b = d"
    and "k = keyring_new hf secret s v legacy"
    and "p \<in> set key_purposes" and "q \<in> set key_purposes"
  shows "(purpose_hash hf k p x = purpose_hash hf k q y \<longleftrightarrow> p = q \<and> x = y) \<and>
    (pseudonym hf k tenant subject = pseudonym hf k tenant' subject' \<longleftrightarrow>
       tenant = tenant' \<and> subject = subject')"
proof -
  have sep: "purpose_hash hf k p x = purpose_hash hf k q y \<longleftrightarrow> p = q \<and> x = y"
    if "p \<in> set key_purposes" "q \<in> set key_purposes" for p q x y
    unfolding assms(2) purpose_hash_def known_purpose [OF that(1)] known_purpose [OF that(2)]
    by (auto simp: to_hex_inj dest!: assms(1))
  have subj: "''subject-pseudonym-v1'' \<in> set key_purposes" by (simp add: key_purposes_def)
  have "dumps_strings '', '' [tenant, subject] = dumps_strings '', '' [tenant', subject'] \<longleftrightarrow>
      tenant = tenant' \<and> subject = subject'"
    using dumps_strings_inj by force
  then show ?thesis
    unfolding pseudonym_def sep [OF assms(3,4)] sep [OF subj subj] by simp
qed

subsection \<open>Checkpoint seals\<close>

text \<open>The scheme of the ring's signer: its verifier has the public key and accepts exactly what
  the signer signed.\<close>

definition trusted_signer :: "'k keyring \<Rightarrow> bool" where
  "trusted_signer k \<longleftrightarrow>
     (\<forall>s. kg_signer k = Some s \<longrightarrow> valid_identifier (sg_key_id s) \<and>
        (\<exists>v pk raw. kg_verifier k = Some v \<and> map_of (vf_keys v) (sg_key_id s) = Some pk \<and>
           (\<forall>m m'. vf_verify v pk (raw (sg_sign s m)) m' \<longleftrightarrow> m' = m) \<and>
           (\<forall>m. vf_decode v (sg_sign s m) = Some (raw (sg_sign s m)) \<and> sg_sign s m \<noteq> [])))"

text \<open>A checkpoint seal holds: what the key ring seals it also verifies, with a signature or
  with a code, and it verifies that seal for no other payload. A ring that verifies signatures but
  cannot make them seals nothing, with the one error 503.\<close>

theorem checkpoint_seal_holds:
  assumes "trusted_signer k"
    and "\<And>x y. artifact_mac hf k x = artifact_mac hf k y \<Longrightarrow> x = y"
  shows "(case checkpoint_seal hf k payload of
      Inl x \<Rightarrow> x = GatewayError 503 ''signing_key_required'' \<and> kg_verifier k \<noteq> None \<and> kg_signer k = None
    | Inr seal \<Rightarrow> (verify_checkpoint hf k seal payload' = Inr () \<longleftrightarrow> payload' = payload))"
proof (cases "kg_signer k")
  case None
  show ?thesis
  proof (cases "kg_verifier k = None")
    case True
    then show ?thesis using None assms(2)
      by (auto simp: checkpoint_seal_def require_signer_def verify_checkpoint_def record_of_seal_def signed_def
          signed_record_fields_def opt_all_def accepts_legacy_mac_def or_empty_def)
  next
    case False
    then have "checkpoint_seal hf k payload = Inl (GatewayError 503 ''signing_key_required'')"
      using None by (simp add: checkpoint_seal_def require_signer_def guardE_def)
    then show ?thesis using None False by simp
  qed
next
  case (Some s)
  then obtain v pk raw where s: "valid_identifier (sg_key_id s)" "kg_verifier k = Some v"
      "map_of (vf_keys v) (sg_key_id s) = Some pk"
      "\<And>m m'. vf_verify v pk (raw (sg_sign s m)) m' \<longleftrightarrow> m' = m"
      "\<And>m. vf_decode v (sg_sign s m) = Some (raw (sg_sign s m)) \<and> sg_sign s m \<noteq> []"
    using assms(1) unfolding trusted_signer_def by blast
  have id: "sg_key_id s \<noteq> []" using s(1) by (auto simp: valid_identifier_def)
  let ?r = "sign_record unsigned_record s ''training-checkpoint'' payload"
  have seal: "checkpoint_seal hf k payload = Inr [(''signature'', or_empty (sr_signature ?r)),
      (''signature_key_id'', or_empty (sr_signature_key_id ?r)),
      (''signature_version'', or_empty (sr_signature_version ?r)), (''mac'', [])]" (is "_ = Inr ?seal")
    using Some by (simp add: checkpoint_seal_def require_signer_def Let_def)
  have read: "record_of_seal ?seal = Inr ?r"
    using s(1) by (simp add: record_of_seal_def sign_record_def unsigned_record_def or_empty_def
        signed_record_fields_def opt_all_def signing_version_def)
  have "signed ?r" by (simp add: signed_def sign_record_def)
  then have "verify_checkpoint hf k ?seal payload' =
      verify_record ?r (Some v) ''training-checkpoint'' payload'"
    unfolding verify_checkpoint_def read using s(2) by simp
  then show ?thesis unfolding seal
    using verify_sign_record [where r = unsigned_record and s = s and v = v and purpose = "''training-checkpoint''"
        and payload = payload and payload' = payload', OF s(4,5,3) id] by simp
qed

section \<open>Witnesses\<close>

definition echo_hash :: hash_functions where
  "echo_hash = \<lparr>hf_hmac = (\<lambda>k m. replicate (length k) CHR ''x'' @ CHR ''y'' # k @ m), hf_sha256 = (\<lambda>x. x)\<rparr>"

definition sample_identity :: key_identity where
  "sample_identity = \<lparr>ki_key_sha256 = None, ki_tenant_id = ''t'', ki_application_ids = [''app''],
     ki_environment = Local, ki_key_class = UserKey, ki_dataset_tenants = [], ki_capabilities = []\<rparr>"

lemma echo_hmac_inj:
  assumes "hf_hmac echo_hash a b = hf_hmac echo_hash c d"
  shows "a = c \<and> b = d"
proof -
  have "length a = length c"
    using arg_cong [OF assms, of "\<lambda>d. length (takeWhile (\<lambda>c. c = CHR ''x'') d)"]
    by (simp add: echo_hash_def echo_length)
  then show ?thesis using assms by (simp add: echo_hash_def)
qed

definition sample_keyring :: "unit keyring" where
  "sample_keyring = keyring_new echo_hash ''secret'' None None False"

theorem authenticate_exactly_configured_witness:
  "\<exists>keys. authenticator_new echo_hash [(''key'', sample_identity)] = Inr keys \<and>
     is_ok (authenticate echo_hash sample_keyring keys (Some ''bearer key'') None) \<and>
     \<not> is_ok (authenticate echo_hash sample_keyring keys (Some ''basic key'') None)"
proof -
  have valid: "key_identity_fields sample_identity"
    by (simp add: key_identity_fields_def sample_identity_def opt_all_def valid_identifier_def
        is_word_char_def is_lower_def code_def)
  let ?keys = "[(to_hex ''key'', sample_identity)]"
  have new: "authenticator_new echo_hash [(''key'', sample_identity)] = Inr ?keys"
    using valid by (simp add: authenticator_new_def sample_identity_def echo_hash_def)
  note rule = authenticate_exactly_configured [OF new, THEN conjunct1]
  have "is_ok (authenticate echo_hash sample_keyring ?keys (Some ''bearer key'') None)"
    unfolding rule by (simp add: bearer_scheme_def header_key_def or_empty_def echo_hash_def to_lower_def
        is_upper_def code_def)
  moreover have "\<not> is_ok (authenticate echo_hash sample_keyring ?keys (Some ''basic key'') None)"
    unfolding rule by (simp add: bearer_scheme_def header_key_def or_empty_def echo_hash_def to_lower_def
        is_upper_def code_def)
  ultimately show ?thesis using new by blast
qed

theorem purposes_separate_witness:
  "pseudonym echo_hash sample_keyring ''t'' ''s'' \<noteq> pseudonym echo_hash sample_keyring ''u'' ''s''"
  using purposes_separate [where hf = echo_hash and p = "''model-artifact-v1''" and q = "''model-artifact-v1''",
      OF echo_hmac_inj sample_keyring_def, THEN conjunct2]
  by (simp add: key_purposes_def)

definition signing_keyring :: "unit keyring" where
  "signing_keyring = keyring_new echo_hash ''secret'' (Some echo_signer) (Some echo_verifier) False"

theorem checkpoint_seal_holds_witness:
  "\<exists>seal. checkpoint_seal echo_hash signing_keyring ''state'' = Inr seal \<and>
     verify_checkpoint echo_hash signing_keyring seal ''other'' \<noteq> Inr ()"
proof -
  have trusted: "trusted_signer signing_keyring"
    unfolding trusted_signer_def signing_keyring_def keyring_new_def
    by (auto simp: echo_signer_def echo_verifier_def valid_identifier_def is_word_char_def
        is_lower_def is_digit_def code_def intro!: exI [of _ "\<lambda>x. x"])
  have mac: "artifact_mac echo_hash signing_keyring x =
      to_hex (hf_hmac echo_hash (hf_hmac echo_hash ''secret'' ''model-artifact-v1'') x)" for x
    unfolding artifact_mac_def purpose_hash_def signing_keyring_def
    by (subst known_purpose) (simp_all add: key_purposes_def)
  have inj: "artifact_mac echo_hash signing_keyring x = artifact_mac echo_hash signing_keyring y \<Longrightarrow> x = y" for x y
    unfolding mac to_hex_inj by (drule echo_hmac_inj) simp
  obtain seal where seal: "checkpoint_seal echo_hash signing_keyring ''state'' = Inr seal"
    by (simp add: checkpoint_seal_def require_signer_def signing_keyring_def keyring_new_def Let_def)
  have "verify_checkpoint echo_hash signing_keyring seal ''other'' = Inr () \<longleftrightarrow> ''other'' = ''state''"
    using checkpoint_seal_holds [where hf = echo_hash and payload = "''state''" and payload' = "''other''", OF trusted inj]
      seal by simp
  then show ?thesis using seal by auto
qed

end
