(* ===== verification/Persistence.thy ===== *)
theory Persistence
  imports Retention Identity
begin

text \<open>
  The persistence of one interaction, \<open>storage/persistence.py\<close>: redaction of the texts, encryption
  of the payloads, the one transaction that stores the records, payloads, replay entry and events,
  the degraded emission when it fails, the separate transaction of a shadow attempt, and the
  privacy deletions. The redactor, the JSON codecs of the contracts and the fallback sink are
  parameters; \<open>None\<close> is a redactor that raised. Every reading of the clock and every drawn
  identifier or nonce of a call comes from its \<open>draws\<close>, numbered in the order of the code. The
  calls run in a worker thread, where an exception is never a cancellation.
\<close>

section \<open>The parts of the class\<close>

record ('k, 's) persistence_env =
  pe_aead :: aead
  pe_cipher :: payload_cipher
  pe_hash :: hash_functions
  pe_keyring :: "'k keyring"
  pe_redact :: "string \<Rightarrow> policy_decision \<Rightarrow> (string \<times> (string \<times> int) list) option"
  pe_redactor_version :: string
  pe_dump_messages :: "message list \<Rightarrow> string"
  pe_dump_format :: "response_format \<Rightarrow> string"
  pe_dump_response :: "inference_response \<Rightarrow> string"
  pe_load_response :: "string \<Rightarrow> inference_response result"
  pe_emit :: "'s \<Rightarrow> event \<Rightarrow> unit result \<times> 's"
  pe_outbox_pending_limit :: nat
  pe_replay_ttl_seconds :: int
  pe_replay_capacity :: int
  pe_retention_seconds :: "int option"

record draws =
  dw_clock :: "nat \<Rightarrow> instant"
  dw_now :: "nat \<Rightarrow> instant"
  dw_uid :: "nat \<Rightarrow> string"
  dw_blob :: "nat \<Rightarrow> string \<times> string"

record 's persistence_state =
  ps_db :: database
  ps_failures :: nat
  ps_counters :: "(string \<times> nat) list"
  ps_gauges :: "(string \<times> flt) list"
  ps_sink :: 's

record interaction_graph =
  ig_interaction :: interaction
  ig_started :: started
  ig_retrieval :: "retrieval_run option"
  ig_route :: "route_decision option"
  ig_attempts :: "generation_attempt list"

record persistence_content =
  pc_messages_json :: "string option"
  pc_response_format_json :: "string option"
  pc_query :: "string option"
  pc_output :: "string option"
  pc_input_hash :: "string option"
  pc_query_hash :: "string option"
  pc_output_hash :: "string option"
  pc_counts :: "(string \<times> int) list"
  pc_failed :: bool

definition no_content :: persistence_content where
  "no_content = \<lparr>pc_messages_json = None, pc_response_format_json = None, pc_query = None,
     pc_output = None, pc_input_hash = None, pc_query_hash = None, pc_output_hash = None,
     pc_counts = [], pc_failed = False\<rparr>"

section \<open>Redaction\<close>

fun add_counts :: "(string \<times> int) list \<Rightarrow> (string \<times> int) list \<Rightarrow> (string \<times> int) list" where
  "add_counts [] d = d"
| "add_counts ((name, n) # ns) d =
     add_counts ns (dict_put name ((case map_of d name of None \<Rightarrow> 0 | Some m \<Rightarrow> m) + n) d)"

text \<open>\<open>_redact\<close> on a list of texts; the counts of the texts before a failure stay.\<close>

fun redact_all ::
    "('k, 's) persistence_env \<Rightarrow> policy_decision \<Rightarrow> string list \<Rightarrow> persistence_content \<Rightarrow>
     string list option \<times> persistence_content" where
  "redact_all env policy [] c = (Some [], c)"
| "redact_all env policy (t # ts) c =
     (case pe_redact env t policy of
        None \<Rightarrow> (None, c)
      | Some (r, counts) \<Rightarrow>
          (case redact_all env policy ts (c\<lparr>pc_counts := add_counts counts (pc_counts c)\<rparr>) of
             (None, c') \<Rightarrow> (None, c')
           | (Some rs, c') \<Rightarrow> (Some (r # rs), c')))"

definition redact_format ::
    "('k, 's) persistence_env \<Rightarrow> policy_decision \<Rightarrow> response_format \<Rightarrow> persistence_content \<Rightarrow>
     bool \<times> persistence_content" where
  "redact_format env policy f c =
     (if rf_type f = TextFormat then (True, c)
      else case redact_all env policy [pe_dump_format env f] c of
        (None, c') \<Rightarrow> (False, c')
      | (Some rs, c') \<Rightarrow>
          if rs \<noteq> [pe_dump_format env f] then (False, c')
          else (True, c'\<lparr>pc_response_format_json := Some (pe_dump_format env f)\<rparr>))"

definition prepare_input ::
    "('k, 's) persistence_env \<Rightarrow> inference_request \<Rightarrow> policy_decision \<Rightarrow> persistence_content" where
  "prepare_input env request policy =
     (case redact_all env policy (map content_of (rq_messages request)) no_content of
        (None, c) \<Rightarrow> c\<lparr>pc_failed := True\<rparr>
      | (Some texts, c) \<Rightarrow>
          let messages = map2 (\<lambda>m t. m\<lparr>content_of := t\<rparr>) (rq_messages request) texts in
          (case redact_all env policy (map snd (rq_metadata request)) c of
             (None, c) \<Rightarrow> c\<lparr>pc_failed := True\<rparr>
           | (Some _, c) \<Rightarrow>
               (case redact_format env policy (rq_response_format request) c of
                  (False, c) \<Rightarrow> c\<lparr>pc_failed := True\<rparr>
                | (True, c) \<Rightarrow>
                    let json = pe_dump_messages env messages; c = c\<lparr>pc_messages_json := Some json\<rparr> in
                    if messages = [] then c\<lparr>pc_failed := True\<rparr>
                    else let query = content_of (last messages) in
                      c\<lparr>pc_query := Some query,
                        pc_input_hash := Some (content_hash (pe_hash env) (pe_keyring env) json InputContent),
                        pc_query_hash := Some (content_hash (pe_hash env) (pe_keyring env) query QueryContent)\<rparr>)))"

definition prepare_output ::
    "('k, 's) persistence_env \<Rightarrow> string \<Rightarrow> policy_decision \<Rightarrow> persistence_content \<Rightarrow> persistence_content" where
  "prepare_output env out policy c =
     (if pc_failed c then c
      else case redact_all env policy [out] c of
        (Some [r], c') \<Rightarrow> c'\<lparr>pc_output := Some r,
          pc_output_hash := Some (content_hash (pe_hash env) (pe_keyring env) r OutputContent)\<rparr>
      | (_, c') \<Rightarrow> c'\<lparr>pc_failed := True\<rparr>)"

section \<open>Sealing the payloads\<close>

definition seal ::
    "('k, 's) persistence_env \<Rightarrow> draws \<Rightarrow> interaction \<Rightarrow> string \<Rightarrow> string \<Rightarrow> instant \<Rightarrow>
     encrypted_payload list \<Rightarrow> (string \<times> encrypted_payload list) result" where
  "seal env dw x content f expiry blobs =
     (let (reference, nonce) = dw_blob dw (length blobs) in
      bindE (encrypt (pe_aead env) (pe_cipher env) reference nonce content (ia_tenant_id x)
               (ia_interaction_id x) f expiry None)
        (\<lambda>b. Inr (ep_reference b, blobs @ [b])))"

definition seal_when ::
    "bool \<Rightarrow> ('k, 's) persistence_env \<Rightarrow> draws \<Rightarrow> interaction \<Rightarrow> string \<Rightarrow> string \<Rightarrow> instant \<Rightarrow>
     encrypted_payload list \<Rightarrow> (string option \<times> encrypted_payload list) result" where
  "seal_when b env dw x content f expiry blobs =
     (if b then bindE (seal env dw x content f expiry blobs) (\<lambda>(r, bs). Inr (Some r, bs))
      else Inr (None, blobs))"

text \<open>What \<open>_save\<close> stores: the records with their references, the payloads and the replay entry.\<close>

record sealed =
  sl_graph :: interaction_graph
  sl_blobs :: "encrypted_payload list"
  sl_replay :: "replay_record option"

definition seal_input ::
    "('k, 's) persistence_env \<Rightarrow> draws \<Rightarrow> instant \<Rightarrow> string \<Rightarrow> persistence_content \<Rightarrow> sealed \<Rightarrow> sealed result" where
  "seal_input env dw expires messages c s =
     (let x = ig_interaction (sl_graph s); allowed = pd_content_logging_allowed (ia_policy x) in
      bindE (seal_when allowed env dw x messages ''messages'' expires (sl_blobs s)) (\<lambda>(m, bs).
      bindE (seal_when (allowed \<and> pc_response_format_json c \<noteq> None) env dw x
               (or_empty (pc_response_format_json c)) ''response_format'' expires bs) (\<lambda>(f, bs).
      Inr (s\<lparr>sl_graph := (sl_graph s)\<lparr>ig_interaction := x\<lparr>ia_input :=
               (ia_input x)\<lparr>is_messages_ref := m, is_response_format_ref := f\<rparr>\<rparr>\<rparr>,
             sl_blobs := bs\<rparr>))))"

definition seal_retrieval ::
    "('k, 's) persistence_env \<Rightarrow> draws \<Rightarrow> instant \<Rightarrow> string \<Rightarrow> sealed \<Rightarrow> sealed result" where
  "seal_retrieval env dw expires query s =
     (let x = ig_interaction (sl_graph s) in
      case ig_retrieval (sl_graph s) of
        None \<Rightarrow> Inr s
      | Some r \<Rightarrow>
          bindE (seal_when (pd_content_logging_allowed (ia_policy x)) env dw x query ''query'' expires (sl_blobs s))
            (\<lambda>(q, bs). Inr (s\<lparr>sl_graph := (sl_graph s)\<lparr>ig_retrieval := Some (r\<lparr>rr_query_ref := q\<rparr>)\<rparr>,
               sl_blobs := bs\<rparr>)))"

definition seal_output ::
    "('k, 's) persistence_env \<Rightarrow> draws \<Rightarrow> instant \<Rightarrow> instant \<Rightarrow> inference_response option \<Rightarrow> string option \<Rightarrow>
     string \<Rightarrow> instant \<Rightarrow> sealed \<Rightarrow> sealed result" where
  "seal_output env dw expires replay_expires response out fp reserved_at s =
     (let x = ig_interaction (sl_graph s); attempts = ig_attempts (sl_graph s) in
      case (out, response) of
        (Some content, Some r) \<Rightarrow>
          if attempts = [] then Inl OtherException
          else bindE (seal_when (pd_content_logging_allowed (ia_policy x)) env dw x content ''output'' expires (sl_blobs s))
            (\<lambda>(ref, bs).
          bindE (seal env dw x (pe_dump_response env (r\<lparr>rp_content := content\<rparr>)) ''replay'' replay_expires bs)
            (\<lambda>(replay_ref, bs).
          Inr (s\<lparr>sl_graph := (sl_graph s)\<lparr>ig_attempts :=
                   butlast attempts @ [(last attempts)\<lparr>ga_output_ref := ref\<rparr>]\<rparr>,
                 sl_blobs := bs,
                 sl_replay := Some \<lparr>rp_tenant = ia_tenant_id x, rp_application = ia_application_id x,
                   rp_request = ia_request_id x, rp_interaction = ia_interaction_id x, rp_fingerprint = fp,
                   rp_response_ref = replay_ref, rp_reserved_at = reserved_at,
                   rp_expires_at = replay_expires\<rparr>\<rparr>)))
      | _ \<Rightarrow> Inr s)"

definition seal_graph ::
    "('k, 's) persistence_env \<Rightarrow> draws \<Rightarrow> instant \<Rightarrow> instant \<Rightarrow> interaction_graph \<Rightarrow> inference_response option \<Rightarrow>
     persistence_content \<Rightarrow> string \<Rightarrow> instant \<Rightarrow> sealed result" where
  "seal_graph env dw expires replay_expires g response c fp reserved_at =
     (let s = \<lparr>sl_graph = g, sl_blobs = [], sl_replay = None\<rparr> in
      if pc_failed c then Inr s
      else case (pc_messages_json c, pc_query c) of
        (Some messages, Some query) \<Rightarrow>
          bindE (seal_input env dw expires messages c s) (\<lambda>s.
          bindE (seal_retrieval env dw expires query s) (\<lambda>s.
          seal_output env dw expires replay_expires response (pc_output c) fp reserved_at s))
      | _ \<Rightarrow> Inl OtherException)"

section \<open>Events\<close>

definition new_event ::
    "string \<Rightarrow> event_type \<Rightarrow> string \<Rightarrow> string \<Rightarrow> event_data \<Rightarrow> instant \<Rightarrow> event" where
  "new_event i t tenant trace_id d occurred =
     \<lparr>en_event_id = i, en_event_type = t, en_occurred_at = occurred, en_producer = Gateway,
      en_tenant_id = tenant, en_trace_id = trace_id, en_schema_version = ''1.0'', en_data = d\<rparr>"

definition attempt_event_type :: "generation_attempt \<Rightarrow> event_type" where
  "attempt_event_type a = (if or_empty (ga_error_code a) \<noteq> [] then GenerationFailed else GenerationCompleted)"

definition graph_records :: "interaction_graph \<Rightarrow> (event_type \<times> event_data) list" where
  "graph_records g =
     (InteractionStarted, StartedData (ig_started g)) #
     (case ig_retrieval g of None \<Rightarrow> [] | Some r \<Rightarrow> [(RetrievalCompleted, RetrievalData r)]) @
     (case ig_route g of None \<Rightarrow> [] | Some d \<Rightarrow> [(RouteDecided, RouteData d)]) @
     map (\<lambda>a. (attempt_event_type a, AttemptData a)) (ig_attempts g) @
     [(InteractionCompleted, InteractionData (ig_interaction g))]"

fun graph_events :: "draws \<Rightarrow> interaction \<Rightarrow> nat \<Rightarrow> (event_type \<times> event_data) list \<Rightarrow> event list" where
  "graph_events dw x n [] = []"
| "graph_events dw x n ((t, d) # rs) =
     new_event (dw_uid dw n) t (ia_tenant_id x) (ia_trace_id x) d
       (if t = InteractionStarted then ia_started_at x else dw_now dw n) # graph_events dw x (Suc n) rs"

text \<open>\<open>events[:] = ...\<close>: the same envelopes around the records that are stored.\<close>

definition with_records :: "event list \<Rightarrow> (event_type \<times> event_data) list \<Rightarrow> event list" where
  "with_records es rs = map2 (\<lambda>e r. e\<lparr>en_data := snd r\<rparr>) es rs"

section \<open>Metrics and the degraded emission\<close>

definition count_metric :: "string \<Rightarrow> nat \<Rightarrow> 's persistence_state \<Rightarrow> 's persistence_state" where
  "count_metric name n st = st\<lparr>ps_counters := ps_counters st @ [(name, n)]\<rparr>"

definition refresh_metrics :: "instant \<Rightarrow> 's persistence_state \<Rightarrow> 's persistence_state" where
  "refresh_metrics t st =
     (let stats = outbox_stats_at \<lparr>ob_rows = tb_outbox (tables_of (ps_db st)),
            ob_in_transaction = (db_working (ps_db st) \<noteq> None)\<rparr> t
      in st\<lparr>ps_gauges := ps_gauges st @ [(''outbox_pending'', of_nat (os_pending stats)),
           (''outbox_dead'', of_nat (os_dead stats)), (''dispatcher_lag_seconds'', os_lag_seconds stats)]\<rparr>)"

definition record_failure :: "'s persistence_state \<Rightarrow> 's persistence_state" where
  "record_failure st = count_metric ''persistence_failures'' 1 (st\<lparr>ps_failures := ps_failures st + 1\<rparr>)"

definition emit_degraded_event ::
    "('s \<Rightarrow> event \<Rightarrow> unit result \<times> 's) \<Rightarrow> event \<Rightarrow> 's persistence_state \<Rightarrow> 's persistence_state" where
  "emit_degraded_event emit e st =
     (let st' = count_metric ''degraded_emissions'' 1 st in st'\<lparr>ps_sink := snd (emit (ps_sink st') e)\<rparr>)"

definition emit_degraded ::
    "('s \<Rightarrow> event \<Rightarrow> unit result \<times> 's) \<Rightarrow> event list \<Rightarrow> 's persistence_state \<Rightarrow> 's persistence_state" where
  "emit_degraded emit es st = fold (emit_degraded_event emit) es st"

section \<open>Saving an interaction\<close>

definition retention_of :: "('k, 's) persistence_env \<Rightarrow> policy_decision \<Rightarrow> int" where
  "retention_of env policy =
     (case pe_retention_seconds env of
        None \<Rightarrow> pd_retention_seconds policy
      | Some n \<Rightarrow> if n = 0 then pd_retention_seconds policy else n)"

definition graph_rows :: "interaction_graph \<Rightarrow> stored_record list" where
  "graph_rows g =
     [RInteraction (ig_interaction g), RStarted (ig_started g)] @
     (case ig_retrieval g of None \<Rightarrow> [] | Some r \<Rightarrow> [RRetrieval r]) @
     (case ig_route g of None \<Rightarrow> [] | Some d \<Rightarrow> [RRoute d]) @
     map RAttempt (ig_attempts g)"

definition store_replay :: "int \<Rightarrow> replay_record option \<Rightarrow> unit op" where
  "store_replay capacity replay =
     (case replay of
        None \<Rightarrow> return_op ()
      | Some p \<Rightarrow> bind_op (delete_replay (rp_tenant p) (rp_application p) (rp_request p))
                    (\<lambda>_. put_replay p capacity))"

definition store_graph ::
    "string \<Rightarrow> instant \<Rightarrow> int \<Rightarrow> nat \<Rightarrow> sealed \<Rightarrow> event list \<Rightarrow> nat op" where
  "store_graph tenant expires capacity limit s events =
     bind_op (each_op (\<lambda>r. put_record tenant r expires) (graph_rows (sl_graph s))) (\<lambda>_.
     bind_op (each_op put_payload (sl_blobs s)) (\<lambda>_.
     bind_op (store_replay capacity (sl_replay s)) (\<lambda>_.
     enqueue_events events limit)))"

text \<open>\<open>_save\<close>: its result, the events as the caller sees them afterwards, and the database.\<close>

definition save_graph ::
    "('k, 's) persistence_env \<Rightarrow> draws \<Rightarrow> interaction_graph \<Rightarrow> inference_response option \<Rightarrow>
     persistence_content \<Rightarrow> string \<Rightarrow> instant \<Rightarrow> event list \<Rightarrow> database \<Rightarrow>
     (sealed \<times> nat) result \<times> event list \<times> database" where
  "save_graph env dw g response c fp reserved_at events db =
     (let x = ig_interaction g;
          expires = dw_clock dw 0 + retention_of env (ia_policy x) * 1000000;
          replay_expires = min expires (dw_clock dw 1 + pe_replay_ttl_seconds env * 1000000)
      in case seal_graph env dw expires replay_expires g response c fp reserved_at of
        Inl e \<Rightarrow> (Inl e, events, db)
      | Inr s \<Rightarrow>
          let events' = with_records events (graph_records (sl_graph s)) in
          (case transaction (store_graph (ia_tenant_id x) expires (pe_replay_capacity env)
                  (pe_outbox_pending_limit env) s events') db of
             (Inl e, db') \<Rightarrow> (Inl e, events', db')
           | (Inr dropped, db') \<Rightarrow> (Inr (s, dropped), events', db')))"

definition policy_stamp ::
    "('k, 's) persistence_env \<Rightarrow> persistence_content \<Rightarrow> interaction \<Rightarrow> interaction" where
  "policy_stamp env c x =
     x\<lparr>ia_error_code := (if pc_failed c then Some ''persistence_redaction_failed'' else ia_error_code x),
       ia_policy := (ia_policy x)\<lparr>pd_persistence_redaction_version := pe_redactor_version env,
         pd_persistence_redaction_counts := pc_counts c\<rparr>\<rparr>"

definition save ::
    "('k, 's) persistence_env \<Rightarrow> draws \<Rightarrow> interaction_graph \<Rightarrow> inference_response option \<Rightarrow>
     persistence_content \<Rightarrow> string \<Rightarrow> instant \<Rightarrow> 's persistence_state \<Rightarrow>
     (interaction \<times> replay_record option) \<times> 's persistence_state" where
  "save env dw g response c fp reserved_at st =
     (let x = policy_stamp env c (ig_interaction g);
          g = g\<lparr>ig_interaction := x\<rparr>;
          events = graph_events dw x 0 (graph_records g)
      in case save_graph env dw g response c fp reserved_at events (ps_db st) of
        (Inr (s, dropped), _, db') \<Rightarrow>
          ((ig_interaction (sl_graph s), sl_replay s),
           refresh_metrics (dw_now dw (length events))
             (count_metric ''dropped_events'' dropped (st\<lparr>ps_db := db'\<rparr>)))
      | (Inl _, events', db') \<Rightarrow>
          ((x, None), emit_degraded (pe_emit env) events' (record_failure (st\<lparr>ps_db := db'\<rparr>))))"

section \<open>Shadow attempts\<close>

definition shadow_payload ::
    "('k, 's) persistence_env \<Rightarrow> draws \<Rightarrow> interaction \<Rightarrow> generation_attempt \<Rightarrow> policy_decision \<Rightarrow>
     persistence_content \<Rightarrow> instant \<Rightarrow> generation_attempt op" where
  "shadow_payload env dw x a policy c expires =
     (case pc_output c of
        Some content \<Rightarrow>
          if \<not> pc_failed c \<and> pd_content_logging_allowed policy \<and> pd_content_logging_allowed (ia_policy x)
          then (case encrypt (pe_aead env) (pe_cipher env) (fst (dw_blob dw 0)) (snd (dw_blob dw 0)) content
                  (ia_tenant_id x) (ia_interaction_id x) (''shadow_output.'' @ ga_attempt_id a) expires None of
              Inl e \<Rightarrow> (\<lambda>db. (Inl e, db))
            | Inr b \<Rightarrow> bind_op (put_payload b) (\<lambda>_. return_op (a\<lparr>ga_output_ref := Some (ep_reference b)\<rparr>)))
          else return_op a
      | None \<Rightarrow> return_op a)"

definition store_shadow ::
    "('k, 's) persistence_env \<Rightarrow> draws \<Rightarrow> interaction \<Rightarrow> generation_attempt \<Rightarrow> policy_decision \<Rightarrow>
     persistence_content \<Rightarrow> instant \<Rightarrow> bool op" where
  "store_shadow env dw x a policy c expires =
     (let tenant = ia_tenant_id x; iid = ia_interaction_id x in
      bind_op (state_at tenant iid) (\<lambda>s.
      if s \<noteq> Some ActiveRecord then return_op False
      else bind_op (shadow_payload env dw x a policy c expires) (\<lambda>a.
        bind_op (put_record tenant (RAttempt a) expires) (\<lambda>_.
        bind_op (add_shadow_cost tenant iid (case ga_estimated_cost_micros a of None \<Rightarrow> 0 | Some n \<Rightarrow> n)) (\<lambda>_.
        bind_op (enqueue_events [new_event (dw_uid dw 0) (attempt_event_type a) tenant (ia_trace_id x)
                   (AttemptData a) (dw_now dw 0)] (pe_outbox_pending_limit env)) (\<lambda>_.
        return_op True))))))"

definition save_shadow ::
    "('k, 's) persistence_env \<Rightarrow> draws \<Rightarrow> interaction \<Rightarrow> generation_attempt \<Rightarrow> string option \<Rightarrow>
     policy_decision \<Rightarrow> bool \<Rightarrow> 's persistence_state \<Rightarrow> bool result \<times> 's persistence_state" where
  "save_shadow env dw x a out policy input_failed st =
     (let expires = min (ia_completed_at x + retention_of env (ia_policy x) * 1000000)
                        (dw_clock dw 0 + pd_retention_seconds policy * 1000000)
      in if expires \<le> dw_clock dw 1 then (Inr False, st)
      else
        let c = no_content\<lparr>pc_failed := input_failed\<rparr>;
            c = (case out of None \<Rightarrow> c | Some content \<Rightarrow> prepare_output env content policy c);
            a = a\<lparr>ga_output_hash := pc_output_hash c\<rparr>
        in case transaction (store_shadow env dw x a policy c expires) (ps_db st) of
             (Inr True, db') \<Rightarrow> (Inr True, refresh_metrics (dw_now dw 1) (st\<lparr>ps_db := db'\<rparr>))
           | (r, db') \<Rightarrow> (r, st\<lparr>ps_db := db'\<rparr>))"

definition replay ::
    "('k, 's) persistence_env \<Rightarrow> instant \<Rightarrow> replay_record \<Rightarrow> database \<Rightarrow>
     inference_response option result \<times> database" where
  "replay env t p db =
     bind_op (get_payload (rp_tenant p) (rp_response_ref p) t) (\<lambda>found.
       case found of
         None \<Rightarrow> return_op None
       | Some b \<Rightarrow> (\<lambda>db. (bindE (decrypt (pe_aead env) (pe_cipher env) b (rp_tenant p) (rp_interaction p)
                               ''replay'' None) (\<lambda>content.
              bindE (pe_load_response env content) (\<lambda>r. Inr (Some (r\<lparr>rp_replayed := True\<rparr>)))), db))) db"

section \<open>Deletions\<close>

definition deletion_event :: "instant \<Rightarrow> string \<Rightarrow> string \<Rightarrow> deletion_request \<Rightarrow> event" where
  "deletion_event t tenant trace_id d =
     new_event (dr_deletion_request_id d) DeletionRequested tenant trace_id (DeletionData d) t"

text \<open>\<open>_delete\<close>.\<close>

definition erase :: "string \<Rightarrow> interaction \<Rightarrow> deletion_request \<Rightarrow> unit op" where
  "erase tenant x d =
     bind_op (tombstone tenant (ia_interaction_id x) d) (\<lambda>_.
     bind_op (clear_refs tenant (ia_interaction_id x) DeletedRecord) (\<lambda>_.
     delete_interaction tenant (ia_interaction_id x)))"

text \<open>What the exception handler does, then the exception goes on.\<close>

definition deletion_failed ::
    "('k, 's) persistence_env \<Rightarrow> event list \<Rightarrow> 's persistence_state \<Rightarrow> 's persistence_state" where
  "deletion_failed env events st = emit_degraded (pe_emit env) events (record_failure st)"

definition interaction_at :: "tables \<Rightarrow> string \<Rightarrow> string \<Rightarrow> interaction option" where
  "interaction_at tb tenant i =
     (case map_option sw_data (rows_at tb tenant KInteraction i) of
        Some (RInteraction x) \<Rightarrow> Some x | _ \<Rightarrow> None)"

text \<open>
  The request and its event are made before the transaction. Inside, the interaction and an
  earlier tombstone are read, the events are made again around what was found (no statement before
  this can raise but the one that begins the transaction), and then the tables are written.
\<close>

definition delete ::
    "('k, 's) persistence_env \<Rightarrow> draws \<Rightarrow> string \<Rightarrow> string \<Rightarrow> string option \<Rightarrow> 's persistence_state \<Rightarrow>
     (interaction \<times> deletion_request) option result \<times> 's persistence_state" where
  "delete env dw tenant i actor st =
     (let fresh = \<lparr>dr_deletion_request_id = dw_uid dw 0, dr_scope = InteractionScope, dr_target_id = i,
                   dr_requested_at = dw_clock dw 0, dr_actor = actor\<rparr>;
          events = [deletion_event (dw_now dw 0) tenant (dw_uid dw 1) fresh];
          db = ps_db st
      in if db_working db \<noteq> None
         then (case transaction (return_op ()) db of
             (Inl e, db') \<Rightarrow> (Inl e, deletion_failed env events (st\<lparr>ps_db := db'\<rparr>))
           | (Inr _, db') \<Rightarrow> (Inr None, st\<lparr>ps_db := db'\<rparr>))
      else case interaction_at (db_committed db) tenant i of
        None \<Rightarrow> (Inr None, st)
      | Some x \<Rightarrow>
          let d = (case map_of (tb_tombstones (db_committed db)) (tenant, i) of None \<Rightarrow> fresh | Some d \<Rightarrow> d);
              events = [deletion_event (dw_now dw 1) tenant (ia_trace_id x) d]
          in case transaction (bind_op (erase tenant x d) (\<lambda>_.
                 enqueue_events events (pe_outbox_pending_limit env))) db of
               (Inl e, db') \<Rightarrow> (Inl e, deletion_failed env events (st\<lparr>ps_db := db'\<rparr>))
             | (Inr _, db') \<Rightarrow> (Inr (Some (x, d)), refresh_metrics (dw_now dw 2) (st\<lparr>ps_db := db'\<rparr>)))"

definition subject_interactions :: "tables \<Rightarrow> string \<Rightarrow> string \<Rightarrow> interaction list" where
  "subject_interactions tb tenant p = interactions_in
     (filter (\<lambda>r. sw_tenant r = tenant \<and> sw_subject r = Some p \<and> sw_state r \<noteq> DeletedRecord) (tb_rows tb))"

text \<open>The requests of a subject's interactions, numbered from the third drawn identifier on.\<close>

fun subject_deletions ::
    "draws \<Rightarrow> tables \<Rightarrow> string \<Rightarrow> string option \<Rightarrow> nat \<Rightarrow> interaction list \<Rightarrow>
     (interaction \<times> deletion_request) list" where
  "subject_deletions dw tb tenant actor n [] = []"
| "subject_deletions dw tb tenant actor n (x # xs) =
     (x, case map_of (tb_tombstones tb) (tenant, ia_interaction_id x) of
           Some d \<Rightarrow> d
         | None \<Rightarrow> \<lparr>dr_deletion_request_id = dw_uid dw n, dr_scope = InteractionScope,
                    dr_target_id = ia_interaction_id x, dr_requested_at = dw_clock dw n, dr_actor = actor\<rparr>) #
     subject_deletions dw tb tenant actor (Suc n) xs"

definition subject_events ::
    "draws \<Rightarrow> string \<Rightarrow> string \<Rightarrow> deletion_request \<Rightarrow> (interaction \<times> deletion_request) list \<Rightarrow> event list" where
  "subject_events dw tenant trace_id d deleted =
     map (\<lambda>(n, x, e). deletion_event (dw_now dw n) tenant (ia_trace_id x) e) (enumerate 2 deleted) @
     [deletion_event (dw_now dw (length deleted + 2)) tenant trace_id d]"

definition delete_subject ::
    "('k, 's) persistence_env \<Rightarrow> draws \<Rightarrow> string \<Rightarrow> string \<Rightarrow> string option \<Rightarrow> 's persistence_state \<Rightarrow>
     (deletion_request \<times> (interaction \<times> deletion_request) list) result \<times> 's persistence_state" where
  "delete_subject env dw tenant p actor st =
     (let fresh = \<lparr>dr_deletion_request_id = dw_uid dw 0, dr_scope = SubjectScope, dr_target_id = p,
                   dr_requested_at = dw_clock dw 0, dr_actor = actor\<rparr>;
          trace_id = dw_uid dw 1;
          db = ps_db st; tb = db_committed db
      in if db_working db \<noteq> None
         then (case transaction (return_op ()) db of
             (Inl e, db') \<Rightarrow> (Inl e, deletion_failed env [deletion_event (dw_now dw 0) tenant trace_id fresh]
                                  (st\<lparr>ps_db := db'\<rparr>))
           | (Inr _, db') \<Rightarrow> (Inl OtherException, st\<lparr>ps_db := db'\<rparr>))
      else
        let d = (case map_of (tb_subjects tb) (tenant, p) of None \<Rightarrow> fresh | Some d \<Rightarrow> d);
            deleted = subject_deletions dw tb tenant actor 2 (subject_interactions tb tenant p);
            events = subject_events dw tenant trace_id d deleted
        in case transaction (bind_op (tombstone_subject tenant d) (\<lambda>_.
               bind_op (each_op (\<lambda>(x, e). erase tenant x e) deleted) (\<lambda>_.
               enqueue_events events (pe_outbox_pending_limit env)))) db of
             (Inl e, db') \<Rightarrow> (Inl e, deletion_failed env events (st\<lparr>ps_db := db'\<rparr>))
           | (Inr _, db') \<Rightarrow> (Inr (d, deleted), refresh_metrics (dw_now dw (length deleted + 3)) (st\<lparr>ps_db := db'\<rparr>)))"

end
