(* ===== verification/Persistence_Laws.thy ===== *)
theory Persistence_Laws
  imports Persistence
begin

text \<open>
  What the persistence of \<open>Persistence\<close> promises. \<open>platform\<close> is the invariant of its tables: the
  declared keys, and replay entries that own their responses. Every operation keeps it, so in every
  reachable state a deletion completes and erases, saving stores everything or nothing, and a replay
  returns the response of the very interaction that was saved.
\<close>

section \<open>The invariant of the tables\<close>

definition platform :: "tables \<Rightarrow> bool" where
  "platform tb \<longleftrightarrow> schema tb \<and> own_responses tb"

lemma own_other_tables [simp]:
  "own_responses (tb\<lparr>tb_rows := rs\<rparr>) = own_responses tb"
  "own_responses (tb\<lparr>tb_tombstones := a\<rparr>) = own_responses tb"
  "own_responses (tb\<lparr>tb_subjects := b\<rparr>) = own_responses tb"
  "own_responses (tb\<lparr>tb_outbox := c\<rparr>) = own_responses tb"
  by (simp_all add: own_responses_def)

lemma schema_outbox [simp]: "schema (tb\<lparr>tb_outbox := d\<rparr>) = schema tb"
  by (simp add: schema_def)

lemma platform_outbox [simp]: "platform (tb\<lparr>tb_outbox := d\<rparr>) = platform tb"
  by (simp add: platform_def)

lemma platform_empty: "platform empty_tables"
  using schema_empty by (simp add: platform_def own_responses_def) (simp add: empty_tables_def)

lemma triple_enqueue:
  assumes "\<And>tb rows n. P tb \<Longrightarrow>
      enqueue_loop (\<lambda>e. e) limit es (tb_outbox tb) (length (pending_rows (tb_outbox tb))) 0 = (rows, n) \<Longrightarrow>
      Q n (tb\<lparr>tb_outbox := rows\<rparr>)"
  shows "triple P (enqueue_events es limit) Q E"
proof (rule tripleI)
  fix db :: database and tb assume db: "db_working db = Some tb" "P tb"
  obtain rows n where loop: "enqueue_loop (\<lambda>e. e) limit es (tb_outbox tb) (length (pending_rows (tb_outbox tb))) 0 = (rows, n)"
    by (cases "enqueue_loop (\<lambda>e. e) limit es (tb_outbox tb) (length (pending_rows (tb_outbox tb))) 0") blast
  have "enqueue_events es limit db = (Inr n, db\<lparr>db_working := Some (tb\<lparr>tb_outbox := rows\<rparr>)\<rparr>)"
    using db(1) loop by (simp add: enqueue_events_def enqueue_def tables_of_def sql_write_def)
  then show "\<exists>r tb'. enqueue_events es limit db = (r, db\<lparr>db_working := Some tb'\<rparr>) \<and>
      (case r of Inl _ \<Rightarrow> E tb' | Inr x \<Rightarrow> Q x tb')"
    using assms [OF db(2) loop] by auto
qed

subsection \<open>Responses\<close>

text \<open>A response that is stored and that no replay entry uses yet.\<close>

definition responds :: "replay_record \<Rightarrow> tables \<Rightarrow> bool" where
  "responds q tb \<longleftrightarrow>
     (\<exists>p \<in> set (tb_payloads tb). payload_key p = (rp_tenant q, rp_response_ref q) \<and>
        ep_interaction p = rp_interaction q) \<and>
     (\<forall>x \<in> set (tb_replays tb). (rp_tenant x, rp_response_ref x) \<noteq> (rp_tenant q, rp_response_ref q))"

lemma fresh_payload_key: "payload_keys p tb \<Longrightarrow> payload_key p \<notin> payload_key ` set (tb_payloads tb)"
  by (auto simp: payload_keys_def payload_key_def list_ex_iff)

lemma replay_has_payload:
  "schema tb \<Longrightarrow> x \<in> set (tb_replays tb) \<Longrightarrow> (rp_tenant x, rp_response_ref x) \<in> payload_key ` set (tb_payloads tb)"
  by (simp add: schema_def replays_ok_def)

lemma own_add_payload:
  assumes "platform tb" and "payload_keys p tb"
  shows "own_responses (tb\<lparr>tb_payloads := tb_payloads tb @ [p]\<rparr>)"
proof -
  have "(rp_tenant q, rp_response_ref q) \<noteq> payload_key p" if "q \<in> set (tb_replays tb)" for q
    using fresh_payload_key [OF assms(2)] replay_has_payload [OF _ that] assms(1) unfolding platform_def by metis
  then show ?thesis using assms(1) unfolding platform_def own_responses_def by fastforce
qed

lemma responds_new_payload:
  assumes "platform tb" and "payload_keys p tb"
    and "payload_key p = (rp_tenant q, rp_response_ref q)" and "ep_interaction p = rp_interaction q"
  shows "responds q (tb\<lparr>tb_payloads := tb_payloads tb @ [p]\<rparr>)"
proof -
  have "schema tb" using assms(1) by (simp add: platform_def)
  then have "(rp_tenant x, rp_response_ref x) \<noteq> (rp_tenant q, rp_response_ref q)" if "x \<in> set (tb_replays tb)" for x
    using fresh_payload_key [OF assms(2)] replay_has_payload [OF _ that] assms(3) by metis
  then show ?thesis using assms(3,4) unfolding responds_def by simp
qed

lemma own_add_replay:
  assumes "platform tb" and "responds q tb"
  shows "own_responses (tb\<lparr>tb_replays := tb_replays tb @ [q]\<rparr>)"
proof -
  obtain p where p: "p \<in> set (tb_payloads tb)" "payload_key p = (rp_tenant q, rp_response_ref q)"
      "ep_interaction p = rp_interaction q"
    using assms(2) unfolding responds_def by blast
  have "inj_on payload_key (set (tb_payloads tb))"
    using assms(1) by (simp add: platform_def schema_def payloads_ok_def distinct_map)
  then have "ep_interaction y = rp_interaction q"
    if "y \<in> set (tb_payloads tb)" "payload_key y = (rp_tenant q, rp_response_ref q)" for y
    using that p by (metis inj_onD)
  moreover have "(rp_tenant q, rp_response_ref q) \<notin> (\<lambda>x. (rp_tenant x, rp_response_ref x)) ` set (tb_replays tb)"
    using assms(2) unfolding responds_def by force
  ultimately show ?thesis using assms(1) by (auto simp: platform_def own_responses_def)
qed

subsection \<open>The calls keep it\<close>

lemma put_record_own: "triple own_responses (put_record t r e) (\<lambda>_. own_responses) (\<lambda>_. True)"
  by (rule triple_put_record) simp_all

lemma platform_triple:
  assumes "triple schema f (\<lambda>_. schema) (\<lambda>_. True)" and "triple platform f (\<lambda>_. own_responses) (\<lambda>_. True)"
  shows "triple platform f (\<lambda>_. platform) (\<lambda>_. True)"
  by (rule triple_conseq [OF triple_conj [OF assms]]) (auto simp: platform_def)

lemma schema_triple:
  assumes "triple schema f (\<lambda>_. schema) schema"
  shows "triple schema f (\<lambda>_. schema) (\<lambda>_. True)"
  by (rule triple_conseq [OF assms]) simp_all

lemma put_record_platform: "triple platform (put_record t r e) (\<lambda>_. platform) (\<lambda>_. True)"
  by (rule platform_triple, rule schema_triple, rule put_record_keeps, rule store_change_intros,
      rule triple_conseq [OF put_record_own]) (simp_all add: platform_def)

lemma triple_put_payload:
  assumes "\<And>tb. P tb \<Longrightarrow> payload_keys p tb \<Longrightarrow> Q () (tb\<lparr>tb_payloads := tb_payloads tb @ [p]\<rparr>)"
    and "\<And>tb. P tb \<Longrightarrow> E tb"
  shows "triple P (put_payload p) Q E"
  unfolding put_payload_def
  by (rule triple_bind [where R = "\<lambda>_. P"], rule triple_writable, assumption, rule assms(2), assumption,
      rule triple_checked_write) (use assms in blast)+

lemma put_payload_platform: "triple platform (put_payload p) (\<lambda>_. platform) (\<lambda>_. True)"
proof (rule triple_put_payload)
  fix tb assume a: "platform tb" "payload_keys p tb"
  have "schema tb" using a(1) by (simp add: platform_def)
  from schema_add_payload [OF this a(2)] own_add_payload [OF a]
  show "platform (tb\<lparr>tb_payloads := tb_payloads tb @ [p]\<rparr>)" by (simp add: platform_def)
qed simp

lemma each_op_append: "each_op f (xs @ ys) db = bind_op (each_op f xs) (\<lambda>_. each_op f ys) db"
  by (induction xs arbitrary: db) (auto simp: bind_op_def return_op_def split: prod.splits sum.splits)

lemma triple_each_snoc:
  assumes "triple P (each_op f xs) (\<lambda>_. P) E" and "triple P (f x) Q E"
  shows "triple P (each_op f (xs @ [x])) Q E"
proof -
  have "triple P (each_op f [x]) Q E"
    unfolding each_op.simps
  proof (rule triple_bind [where R = Q])
    show "triple P (f x) Q E" by (rule assms(2))
    show "triple (Q u) (return_op ()) Q E" for u by (rule triple_return) simp
  qed
  then have "triple P (bind_op (each_op f xs) (\<lambda>_. each_op f [x])) Q E"
    by (rule triple_bind [OF assms(1)])
  moreover have "each_op f (xs @ [x]) = bind_op (each_op f xs) (\<lambda>_. each_op f [x])"
    by (rule ext) (rule each_op_append)
  ultimately show ?thesis by simp
qed

lemma put_response:
  assumes "payload_key p = (rp_tenant q, rp_response_ref q)" and "ep_interaction p = rp_interaction q"
  shows "triple platform (each_op put_payload (ps @ [p])) (\<lambda>_ tb. platform tb \<and> responds q tb) (\<lambda>_. True)"
proof (rule triple_each_snoc, rule triple_each, rule put_payload_platform, rule triple_put_payload)
  fix tb assume a: "platform tb" "payload_keys p tb"
  have "schema tb" using a(1) by (simp add: platform_def)
  from schema_add_payload [OF this a(2)] own_add_payload [OF a] responds_new_payload [OF a assms]
  show "platform (tb\<lparr>tb_payloads := tb_payloads tb @ [p]\<rparr>) \<and> responds q (tb\<lparr>tb_payloads := tb_payloads tb @ [p]\<rparr>)"
    by (simp add: platform_def)
qed simp

lemma delete_payloads_own: "triple own_responses (delete_payloads D) (\<lambda>_. own_responses) (\<lambda>_. True)"
  by (rule triple_delete_payloads) (simp_all add: own_filter_payloads)

lemma responds_filter_replays: "responds q tb \<Longrightarrow> responds q (tb\<lparr>tb_replays := filter F (tb_replays tb)\<rparr>)"
  by (auto simp: responds_def)

lemma delete_replay_own:
  "triple (\<lambda>tb. own_responses tb \<and> responds q tb) (delete_replay t a r)
     (\<lambda>_ tb. own_responses tb \<and> responds q tb) (\<lambda>_. True)"
proof -
  let ?P = "\<lambda>tb. own_responses tb \<and> responds q tb"
  let ?R = "\<lambda>found tb. ?P tb \<and> (\<forall>p. found = Some p \<longrightarrow> (t, rp_response_ref p) \<noteq> (rp_tenant q, rp_response_ref q))"
  have other: "(t, rp_response_ref p) \<noteq> (rp_tenant q, rp_response_ref q)"
    if "?P tb" "find (same_request t a r) (tb_replays tb) = Some p" for tb p
    using that unfolding responds_def same_request_def by (auto dest: find_Some_iff2)
  have drop: "triple (?R found) (case found of None \<Rightarrow> return_op () | Some p \<Rightarrow> delete_response t (rp_response_ref p)) (\<lambda>_. ?P) (\<lambda>_. True)" for found
  proof (cases found)
    case (Some p)
    have "triple (\<lambda>tb. ?P tb \<and> (t, rp_response_ref p) \<noteq> (rp_tenant q, rp_response_ref q))
        (delete_response t (rp_response_ref p)) (\<lambda>_. ?P) (\<lambda>_. True)"
      unfolding delete_response_def
    proof (rule triple_delete_payloads)
      fix tb assume a: "?P tb \<and> (t, rp_response_ref p) \<noteq> (rp_tenant q, rp_response_ref q)"
      let ?tb = "tb\<lparr>tb_payloads := filter (\<lambda>x. \<not> (ep_tenant x = t \<and> ep_reference x = rp_response_ref p)) (tb_payloads tb)\<rparr>"
      have "responds q ?tb" using a unfolding responds_def payload_key_def by auto
      then show "?P ?tb" using a own_filter_payloads by blast
    qed simp
    then show ?thesis unfolding Some option.case by (rule triple_conseq) auto
  qed (simp add: triple_return)
  show ?thesis unfolding delete_replay_def
    by (rule triple_bind [OF triple_require], assumption,
        rule triple_bind [OF triple_read [where Q = ?R]], use other in blast,
        rule triple_bind [OF triple_write drop])
      (use own_filter_replays responds_filter_replays in blast)
qed

lemma delete_replay_platform:
  "triple (\<lambda>tb. platform tb \<and> responds q tb) (delete_replay t a r) (\<lambda>_ tb. platform tb \<and> responds q tb) (\<lambda>_. True)"
  by (rule triple_conseq [OF triple_conj [OF schema_triple [OF delete_replay_keeps [OF store_change_intros(1)]] delete_replay_own]])
    (auto simp: platform_def)

lemma put_replay_own:
  "triple (\<lambda>tb. platform tb \<and> responds q tb) (put_replay q n) (\<lambda>_. own_responses) (\<lambda>_. True)"
proof -
  let ?P = "\<lambda>tb. platform tb \<and> responds q tb" and ?T = "\<lambda>_ :: tables. True"
  have evict: "triple own_responses (bind_op (sql_read (\<lambda>tb. evicted tb (rp_tenant q) (nat n))) (\<lambda>old.
      bind_op (sql_write (\<lambda>tb. tb\<lparr>tb_replays := filter (\<lambda>q. q \<notin> set old) (tb_replays tb)\<rparr>))
      (\<lambda>_. each_op (\<lambda>x. delete_response (rp_tenant q) (rp_response_ref x)) old))) (\<lambda>_. own_responses) ?T"
    unfolding delete_response_def
    by (rule triple_bind [OF triple_read [where Q = "\<lambda>_. own_responses"]], assumption,
        rule triple_bind [OF triple_write [where Q = "\<lambda>_. own_responses"]], rule own_filter_replays, assumption,
        rule triple_each, rule delete_payloads_own)
  have w: "triple ?P (writable (rp_tenant q) (rp_interaction q)) (\<lambda>_. ?P) ?T"
    by (rule triple_writable, assumption, rule TrueI)
  have g: "triple ?P (guard_op c e) (\<lambda>_. ?P) ?T" for c e by (rule triple_guard, assumption, rule TrueI)
  show ?thesis unfolding put_replay_def
    by (rule triple_bind [OF g], rule triple_bind [OF w], rule triple_bind [OF triple_read [where Q = "\<lambda>_. ?P"]], assumption,
        rule triple_bind [OF g], rule triple_bind [OF triple_write evict], use own_add_replay in blast)
qed

lemma put_replay_platform:
  "triple (\<lambda>tb. platform tb \<and> responds q tb) (put_replay q n) (\<lambda>_. platform) (\<lambda>_. True)"
  by (rule triple_conseq [OF triple_conj [OF schema_triple [OF put_replay_keeps [OF store_change_intros(1)]] put_replay_own]])
    (auto simp: platform_def)

section \<open>Erasing an interaction\<close>

text \<open>The tables after \<open>_delete\<close>.\<close>

definition wipe :: "string \<Rightarrow> string \<Rightarrow> deletion_request \<Rightarrow> tables \<Rightarrow> tables" where
  "wipe t i d tb = tb\<lparr>tb_tombstones := put_once (t, i) d (tb_tombstones tb),
     tb_rows := map (clear_row t i DeletedRecord) (tb_rows tb),
     tb_replays := filter (\<lambda>q. \<not> (rp_tenant q = t \<and> rp_interaction q = i)) (tb_replays tb),
     tb_payloads := filter (\<lambda>p. \<not> (ep_tenant p = t \<and> ep_interaction p = i)) (tb_payloads tb)\<rparr>"

lemma wipe_fields [simp]:
  "tb_tombstones (wipe t i d tb) = put_once (t, i) d (tb_tombstones tb)"
  "tb_rows (wipe t i d tb) = map (clear_row t i DeletedRecord) (tb_rows tb)"
  "tb_replays (wipe t i d tb) = filter (\<lambda>q. \<not> (rp_tenant q = t \<and> rp_interaction q = i)) (tb_replays tb)"
  "tb_payloads (wipe t i d tb) = filter (\<lambda>p. \<not> (ep_tenant p = t \<and> ep_interaction p = i)) (tb_payloads tb)"
  "tb_outbox (wipe t i d tb) = tb_outbox tb" "tb_subjects (wipe t i d tb) = tb_subjects tb"
  by (simp_all add: wipe_def)

lemma wipe_not_referenced:
  assumes "own_responses tb"
  shows "\<forall>p \<in> set (tb_payloads tb). ep_tenant p = t \<and> ep_interaction p = i \<longrightarrow>
    \<not> referenced (tb\<lparr>tb_replays := filter (\<lambda>q. \<not> (rp_tenant q = t \<and> rp_interaction q = i)) (tb_replays tb)\<rparr>) p"
proof (intro ballI impI notI)
  fix p assume p: "p \<in> set (tb_payloads tb)" "ep_tenant p = t \<and> ep_interaction p = i"
    and "referenced (tb\<lparr>tb_replays := filter (\<lambda>q. \<not> (rp_tenant q = t \<and> rp_interaction q = i)) (tb_replays tb)\<rparr>) p"
  then obtain q where q: "q \<in> set (tb_replays tb)" "\<not> (rp_tenant q = t \<and> rp_interaction q = i)"
      "rp_tenant q = ep_tenant p" "rp_response_ref q = ep_reference p"
    by (auto simp: referenced_def list_ex_iff)
  then have "ep_interaction p = rp_interaction q"
    using assms p(1) unfolding own_responses_def payload_key_def by metis
  then show False using p(2) q by simp
qed

lemma erase_wipes:
  assumes "own_responses tb"
  shows "triple (\<lambda>x. x = tb) (erase t x d) (\<lambda>_ y. y = wipe t (ia_interaction_id x) d tb) (\<lambda>_. False)"
proof -
  let ?i = "ia_interaction_id x"
  let ?a = "tb\<lparr>tb_tombstones := put_once (t, ?i) d (tb_tombstones tb)\<rparr>"
  let ?b = "?a\<lparr>tb_rows := map (clear_row t ?i DeletedRecord) (tb_rows ?a),
      tb_replays := filter (\<lambda>q. \<not> (rp_tenant q = t \<and> rp_interaction q = ?i)) (tb_replays ?a)\<rparr>"
  have free: "\<forall>p \<in> set (tb_payloads ?b). ep_tenant p = t \<and> ep_interaction p = ?i \<longrightarrow> \<not> referenced ?b p"
    using wipe_not_referenced [OF assms, of t ?i] by (simp add: referenced_def)
  have step1: "triple (\<lambda>x. x = tb) (tombstone t ?i d) (\<lambda>_ y. y = ?a) (\<lambda>_. False)"
    unfolding tombstone_def by (rule triple_bind [OF triple_require], assumption, rule triple_write) simp
  have step2: "triple (\<lambda>x. x = ?a) (clear_refs t ?i DeletedRecord) (\<lambda>_ y. y = ?b) (\<lambda>_. False)"
    unfolding clear_refs_def by (rule triple_bind [OF triple_require], assumption, rule triple_write) simp
  have step3: "triple (\<lambda>x. x = ?b) (delete_interaction t ?i) (\<lambda>_ y. y = wipe t ?i d tb) (\<lambda>_. False)"
    unfolding delete_interaction_def
  proof (rule triple_bind [OF triple_require], assumption, rule triple_delete_payloads)
    show "tb'\<lparr>tb_payloads := filter (\<lambda>p. \<not> (ep_tenant p = t \<and> ep_interaction p = ?i)) (tb_payloads tb')\<rparr> = wipe t ?i d tb"
      if "tb' = ?b" for tb'
      unfolding that by (simp add: wipe_def)
    show False if "tb' = ?b" "\<exists>p \<in> set (tb_payloads tb'). (ep_tenant p = t \<and> ep_interaction p = ?i) \<and> referenced tb' p" for tb'
      using free that by blast
  qed
  show ?thesis unfolding erase_def by (rule triple_bind [OF step1 triple_bind [OF step2 step3]])
qed

lemma wipe_schema:
  assumes "platform tb"
  shows "schema (wipe t i d tb)"
proof -
  let ?r = "tb\<lparr>tb_rows := map (clear_row t i DeletedRecord) (tb_rows tb)\<rparr>"
  let ?q = "?r\<lparr>tb_replays := filter (\<lambda>q. \<not> (rp_tenant q = t \<and> rp_interaction q = i)) (tb_replays ?r)\<rparr>"
  have "schema ?q"
    using assms by (intro schema_filter_replays schema_map_rows clear_row_same_keys) (simp add: platform_def)
  moreover have "\<forall>p \<in> set (tb_payloads ?q). ep_tenant p = t \<and> ep_interaction p = i \<longrightarrow> \<not> referenced ?q p"
    using wipe_not_referenced [of tb t i] assms by (simp add: platform_def referenced_def)
  ultimately have filtered: "schema (?q\<lparr>tb_payloads := filter (\<lambda>p. \<not> (ep_tenant p = t \<and> ep_interaction p = i)) (tb_payloads ?q)\<rparr>)"
    by (rule schema_filter_payloads)
  have eq: "wipe t i d tb = (?q\<lparr>tb_payloads := filter (\<lambda>p. \<not> (ep_tenant p = t \<and> ep_interaction p = i)) (tb_payloads ?q)\<rparr>)
      \<lparr>tb_tombstones := put_once (t, i) d (tb_tombstones tb)\<rparr>"
    by (simp add: wipe_def)
  show ?thesis unfolding eq by (rule schema_other_tables(1) [OF filtered])
qed

lemma own_cong:
  "tb_replays a = tb_replays b \<Longrightarrow> tb_payloads a = tb_payloads b \<Longrightarrow> own_responses a = own_responses b"
  by (simp add: own_responses_def)

lemma wipe_platform:
  assumes "platform tb"
  shows "platform (wipe t i d tb)"
proof -
  have own: "own_responses tb" using assms by (simp add: platform_def)
  let ?w = "tb\<lparr>tb_replays := tb_replays (wipe t i d tb)\<rparr>\<lparr>tb_payloads := tb_payloads (wipe t i d tb)\<rparr>"
  have "own_responses ?w"
    using own_filter_payloads [OF own_filter_replays [OF own]] unfolding wipe_fields by simp
  moreover have "own_responses (wipe t i d tb) = own_responses ?w" by (rule own_cong) simp_all
  ultimately have "own_responses (wipe t i d tb)" by blast
  then show ?thesis using wipe_schema [OF assms] by (simp add: platform_def)
qed

lemma wipe_erased: "erased t i (wipe t i d tb)"
  unfolding erased_def wipe_fields
proof (intro conjI ballI)
  show "map_of (put_once (t, i) d (tb_tombstones tb)) (t, i) \<noteq> None" by (rule put_once_has)
  fix r assume "r \<in> set (map (clear_row t i DeletedRecord) (tb_rows tb))"
  then obtain s where r: "r = clear_row t i DeletedRecord s" by auto
  show "sw_tenant r = t \<and> sw_interaction r = i \<longrightarrow> clear_record (sw_data r) = sw_data r"
    unfolding r clear_row_def by auto
qed simp_all

lemma wipe_keeps_erased:
  assumes "erased u j tb"
  shows "erased u j (wipe t i d tb)"
  unfolding erased_def wipe_fields
proof (intro conjI ballI)
  show "map_of (put_once (t, i) d (tb_tombstones tb)) (u, j) \<noteq> None"
    using assms put_once_keeps unfolding erased_def by fastforce
  fix r assume "r \<in> set (map (clear_row t i DeletedRecord) (tb_rows tb))"
  then obtain s where s: "s \<in> set (tb_rows tb)" "r = clear_row t i DeletedRecord s" by auto
  show "sw_tenant r = u \<and> sw_interaction r = j \<longrightarrow> clear_record (sw_data r) = sw_data r"
    using assms s unfolding erased_def by (simp add: clear_row_def)
qed (use assms in \<open>simp_all add: erased_def\<close>)

text \<open>Everything that does not belong to the interaction is as before.\<close>

definition apart :: "string \<Rightarrow> string set \<Rightarrow> tables \<Rightarrow> tables \<Rightarrow> bool" where
  "apart t is old tb \<longleftrightarrow>
     filter (\<lambda>r. \<not> (sw_tenant r = t \<and> sw_interaction r \<in> is)) (tb_rows tb) =
       filter (\<lambda>r. \<not> (sw_tenant r = t \<and> sw_interaction r \<in> is)) (tb_rows old) \<and>
     filter (\<lambda>p. \<not> (ep_tenant p = t \<and> ep_interaction p \<in> is)) (tb_payloads tb) =
       filter (\<lambda>p. \<not> (ep_tenant p = t \<and> ep_interaction p \<in> is)) (tb_payloads old) \<and>
     filter (\<lambda>q. \<not> (rp_tenant q = t \<and> rp_interaction q \<in> is)) (tb_replays tb) =
       filter (\<lambda>q. \<not> (rp_tenant q = t \<and> rp_interaction q \<in> is)) (tb_replays old)"

lemma clear_row_apart:
  "i \<in> is \<Longrightarrow> filter (\<lambda>r. \<not> (sw_tenant r = t \<and> sw_interaction r \<in> is)) (map (clear_row t i s) rs) =
     filter (\<lambda>r. \<not> (sw_tenant r = t \<and> sw_interaction r \<in> is)) rs"
  by (induction rs) (auto simp: clear_row_def)

lemma wipe_apart:
  assumes "apart t is old tb" and "i \<in> is"
  shows "apart t is old (wipe t i d tb)"
proof -
  have "filter (\<lambda>p. \<not> (ep_tenant p = t \<and> ep_interaction p \<in> is)) (tb_payloads (wipe t i d tb)) =
      filter (\<lambda>p. \<not> (ep_tenant p = t \<and> ep_interaction p \<in> is)) (tb_payloads tb)"
    "filter (\<lambda>q. \<not> (rp_tenant q = t \<and> rp_interaction q \<in> is)) (tb_replays (wipe t i d tb)) =
      filter (\<lambda>q. \<not> (rp_tenant q = t \<and> rp_interaction q \<in> is)) (tb_replays tb)"
    unfolding wipe_fields using assms(2) by (intro filter_other, blast)+
  moreover have "filter (\<lambda>r. \<not> (sw_tenant r = t \<and> sw_interaction r \<in> is)) (tb_rows (wipe t i d tb)) =
      filter (\<lambda>r. \<not> (sw_tenant r = t \<and> sw_interaction r \<in> is)) (tb_rows tb)"
    unfolding wipe_fields by (rule clear_row_apart [OF assms(2)])
  ultimately show ?thesis using assms(1) unfolding apart_def by (simp only:)
qed

lemma apart_refl: "apart t is tb tb"
  by (simp add: apart_def)

lemma apart_outbox [simp]: "apart t is old (tb\<lparr>tb_outbox := rows\<rparr>) = apart t is old tb"
  by (simp add: apart_def)

lemma erased_outbox [simp]: "erased t i (tb\<lparr>tb_outbox := rows\<rparr>) = erased t i tb"
  by (simp add: erased_def)

section \<open>The events are queued\<close>

text \<open>Every event that may not be dropped is in the outbox.\<close>

definition queued_events :: "event list \<Rightarrow> tables \<Rightarrow> bool" where
  "queued_events es tb \<longleftrightarrow>
     (\<forall>e \<in> set es. en_event_type e \<notin> set optional_events \<longrightarrow> en_event_id e \<in> ot_event_id ` set (tb_outbox tb))"

lemma triple_enqueue_queued:
  assumes "\<And>tb rows. P (tb\<lparr>tb_outbox := rows\<rparr>) = P tb"
  shows "triple P (enqueue_events es limit) (\<lambda>_ tb. P tb \<and> queued_events es tb) E"
proof (rule triple_enqueue)
  fix tb rows n assume a: "P tb"
    "enqueue_loop (\<lambda>e. e) limit es (tb_outbox tb) (length (pending_rows (tb_outbox tb))) 0 = (rows, n)"
  from enqueue_loop_contract [OF a(2) refl]
  have "\<forall>e \<in> set es. en_event_type e \<notin> set optional_events \<longrightarrow> en_event_id e \<in> ot_event_id ` set rows" by blast
  then show "P (tb\<lparr>tb_outbox := rows\<rparr>) \<and> queued_events es (tb\<lparr>tb_outbox := rows\<rparr>)"
    using a(1) assms by (simp add: queued_events_def)
qed

lemma deletion_event_queued:
  "queued_events es tb \<Longrightarrow> deletion_event n t tr d \<in> set es \<Longrightarrow> dr_deletion_request_id d \<in> ot_event_id ` set (tb_outbox tb)"
  unfolding queued_events_def by (force simp: deletion_event_def new_event_def optional_events_def)

section \<open>Deleting one interaction\<close>

lemma delete_body:
  assumes "platform c"
  shows "triple (\<lambda>y. y = c) (bind_op (erase t x d) (\<lambda>_. enqueue_events es limit))
     (\<lambda>_ tb. ((platform tb \<and> erased t (ia_interaction_id x) tb) \<and>
        (apart t {ia_interaction_id x} c tb \<and> tb_tombstones tb = put_once (t, ia_interaction_id x) d (tb_tombstones c))) \<and>
        queued_events es tb) (\<lambda>_. False)"
proof (rule triple_bind)
  have "own_responses c" using assms by (simp add: platform_def)
  from erase_wipes [OF this] show "triple (\<lambda>y. y = c) (erase t x d) (\<lambda>_ tb. (platform tb \<and> erased t (ia_interaction_id x) tb) \<and>
        (apart t {ia_interaction_id x} c tb \<and> tb_tombstones tb = put_once (t, ia_interaction_id x) d (tb_tombstones c))) (\<lambda>_. False)"
    by (rule triple_conseq) (auto simp: wipe_platform [OF assms] wipe_erased wipe_apart [OF apart_refl])
  show "triple (\<lambda>tb. (platform tb \<and> erased t (ia_interaction_id x) tb) \<and>
        (apart t {ia_interaction_id x} c tb \<and> tb_tombstones tb = put_once (t, ia_interaction_id x) d (tb_tombstones c)))
      (enqueue_events es limit) (\<lambda>_ tb. ((platform tb \<and> erased t (ia_interaction_id x) tb) \<and>
        (apart t {ia_interaction_id x} c tb \<and> tb_tombstones tb = put_once (t, ia_interaction_id x) d (tb_tombstones c))) \<and>
        queued_events es tb) (\<lambda>_. False)" for u
    by (rule triple_enqueue_queued) simp
qed

text \<open>The effect of a deletion on tables that satisfy the invariant.\<close>

lemma delete_effect:
  assumes "db_working (ps_db st) = None" and "platform (db_committed (ps_db st))"
  shows "case interaction_at (db_committed (ps_db st)) t i of
      None \<Rightarrow> delete env dw t i actor st = (Inr None, st)
    | Some x \<Rightarrow> (\<exists>d st'. delete env dw t i actor st = (Inr (Some (x, d)), st') \<and>
        platform (db_committed (ps_db st')) \<and> erased t i (db_committed (ps_db st')) \<and>
        db_working (ps_db st') = None \<and> ps_failures st' = ps_failures st \<and> ps_sink st' = ps_sink st \<and>
        dr_deletion_request_id d \<in> ot_event_id ` set (tb_outbox (db_committed (ps_db st'))) \<and>
        apart t {i} (db_committed (ps_db st)) (db_committed (ps_db st')) \<and>
        (\<exists>d'. map_of (tb_tombstones (db_committed (ps_db st'))) (t, i) = Some d' \<and> d = d') \<and>
        (\<forall>d'. map_of (tb_tombstones (db_committed (ps_db st))) (t, i) = Some d' \<longrightarrow> d = d'))"
proof (cases "interaction_at (db_committed (ps_db st)) t i")
  case None
  then show ?thesis using assms(1) by (simp add: delete_def Let_def)
next
  case (Some x)
  let ?c = "db_committed (ps_db st)"
  obtain r where r: "r \<in> set (tb_rows ?c)" "sw_record r = i" "sw_data r = RInteraction x"
  proof -
    obtain r where "rows_at ?c t KInteraction i = Some r" "sw_data r = RInteraction x"
      using Some by (auto simp: interaction_at_def split: option.splits stored_record.splits)
    then show ?thesis using that by (auto simp: rows_at_def dest: find_Some_iff2)
  qed
  have "columns_agree r" using assms(2) r(1) unfolding platform_def schema_def rows_ok_def by blast
  then have id: "ia_interaction_id x = i" using r by (simp add: columns_agree_def)
  define fresh where "fresh = \<lparr>dr_deletion_request_id = dw_uid dw 0, dr_scope = InteractionScope, dr_target_id = i,
      dr_requested_at = dw_clock dw 0, dr_actor = actor\<rparr>"
  define d where "d = (case map_of (tb_tombstones ?c) (t, i) of None \<Rightarrow> fresh | Some d \<Rightarrow> d)"
  let ?es = "[deletion_event (dw_now dw 1) t (ia_trace_id x) d]"
  obtain n tb where run: "transaction (bind_op (erase t x d) (\<lambda>_. enqueue_events ?es (pe_outbox_pending_limit env))) (ps_db st) =
      (Inr n, \<lparr>db_committed = tb, db_working = None\<rparr>)"
    and post: "((platform tb \<and> erased t i tb) \<and> (apart t {i} ?c tb \<and> tb_tombstones tb = put_once (t, i) d (tb_tombstones ?c))) \<and>
        queued_events ?es tb"
    using transaction_total [OF delete_body [OF assms(2), of t x d ?es] assms(1) refl] unfolding id by blast
  have tomb: "map_of (tb_tombstones tb) (t, i) = Some d"
    using post by (auto simp: put_once_def d_def map_add_def split: option.splits)
  have event: "dr_deletion_request_id d \<in> ot_event_id ` set (tb_outbox tb)"
    using post deletion_event_queued by (metis list.set_intros(1))
  have "delete env dw t i actor st = (Inr (Some (x, d)), refresh_metrics (dw_now dw 2)
      (st\<lparr>ps_db := \<lparr>db_committed = tb, db_working = None\<rparr>\<rparr>))"
    using Some assms(1) run unfolding delete_def Let_def fresh_def [symmetric] d_def [symmetric] by simp
  moreover have "\<forall>d'. map_of (tb_tombstones ?c) (t, i) = Some d' \<longrightarrow> d = d'" by (simp add: d_def)
  ultimately show ?thesis using post tomb event Some by (simp add: refresh_metrics_def Let_def)
qed

section \<open>Deleting a subject\<close>

lemma interactions_of_subject:
  "x \<in> set (subject_interactions tb t p) \<longleftrightarrow>
     (\<exists>r \<in> set (tb_rows tb). sw_data r = RInteraction x \<and> sw_tenant r = t \<and> sw_subject r = Some p \<and>
        sw_state r \<noteq> DeletedRecord)"
  by (auto simp: subject_interactions_def interactions_in_iff)

lemma fst_subject_deletions: "map fst (subject_deletions dw tb t a n xs) = xs"
  by (induction dw tb t a n xs rule: subject_deletions.induct) simp_all

text \<open>What erasing one interaction of the subject keeps and adds.\<close>

definition erasing :: "tables \<Rightarrow> string \<Rightarrow> string set \<Rightarrow> tables \<Rightarrow> bool" where
  "erasing c t is tb \<longleftrightarrow> platform tb \<and> apart t is c tb \<and> tb_subjects tb = tb_subjects c"

lemma erase_one:
  assumes "ia_interaction_id x \<in> is"
  shows "triple (\<lambda>tb. erasing c t is tb \<and> (\<forall>j \<in> D. erased t j tb)) (erase t x d)
     (\<lambda>_ tb. erasing c t is tb \<and> (\<forall>j \<in> insert (ia_interaction_id x) D. erased t j tb)) (\<lambda>_. False)"
proof (rule tripleI)
  fix db :: database and tb assume db: "db_working db = Some tb" "erasing c t is tb \<and> (\<forall>j \<in> D. erased t j tb)"
  have "own_responses tb" using db(2) by (simp add: erasing_def platform_def)
  from tripleD [OF erase_wipes [OF this] db(1) refl]
  obtain u where run: "erase t x d db = (Inr u, db\<lparr>db_working := Some (wipe t (ia_interaction_id x) d tb)\<rparr>)"
    by cases auto
  have "erasing c t is (wipe t (ia_interaction_id x) d tb)"
    using db(2) wipe_platform wipe_apart [OF _ assms] by (simp add: erasing_def)
  moreover have "\<forall>j \<in> insert (ia_interaction_id x) D. erased t j (wipe t (ia_interaction_id x) d tb)"
    using db(2) wipe_erased wipe_keeps_erased by blast
  ultimately show "\<exists>r tb'. erase t x d db = (r, db\<lparr>db_working := Some tb'\<rparr>) \<and> (case r of Inl _ \<Rightarrow> False
      | Inr _ \<Rightarrow> erasing c t is tb' \<and> (\<forall>j \<in> insert (ia_interaction_id x) D. erased t j tb'))"
    using run by auto
qed

lemma erase_all:
  assumes "\<forall>x \<in> fst ` set xs. ia_interaction_id x \<in> is"
  shows "triple (erasing c t is) (each_op (\<lambda>(x, e). erase t x e) xs)
     (\<lambda>_ tb. erasing c t is tb \<and> (\<forall>x \<in> fst ` set xs. erased t (ia_interaction_id x) tb)) (\<lambda>_. False)"
proof -
  have "triple (\<lambda>tb. erasing c t is tb \<and> (\<forall>y \<in> ({} :: (interaction \<times> deletion_request) set). erased t (ia_interaction_id (fst y)) tb))
      (each_op (\<lambda>(x, e). erase t x e) xs)
      (\<lambda>_ tb. erasing c t is tb \<and> (\<forall>y \<in> {} \<union> set xs. erased t (ia_interaction_id (fst y)) tb)) (\<lambda>_. False)"
  proof (rule triple_each_all [where I = "erasing c t is" and C = "\<lambda>y. erased t (ia_interaction_id (fst y))"])
    fix y and D :: "(interaction \<times> deletion_request) set"
    assume y: "y \<in> set xs"
    obtain x e where xe: "y = (x, e)" by (cases y)
    have "ia_interaction_id x \<in> is" using assms y xe by force
    from erase_one [OF this, where D = "ia_interaction_id ` fst ` D" and d = e and c = c and t = t]
    show "triple (\<lambda>tb. erasing c t is tb \<and> (\<forall>y \<in> D. erased t (ia_interaction_id (fst y)) tb))
        ((\<lambda>(x, e). erase t x e) y)
        (\<lambda>_ tb. erasing c t is tb \<and> (\<forall>y \<in> insert y D. erased t (ia_interaction_id (fst y)) tb)) (\<lambda>_. False)"
      unfolding xe prod.case by (rule triple_conseq) auto
  qed
  then show ?thesis by (rule triple_conseq) auto
qed

lemma erasing_outbox [simp]: "erasing c t is (tb\<lparr>tb_outbox := rows\<rparr>) = erasing c t is tb"
  by (simp add: erasing_def)

lemma platform_subjects [simp]: "platform (tb\<lparr>tb_subjects := a\<rparr>) = platform tb"
  by (simp add: platform_def schema_def)

lemma delete_subject_body:
  assumes "platform c" and "\<forall>x \<in> fst ` set xs. ia_interaction_id x \<in> is" and "dr_scope d = SubjectScope"
  shows "triple (\<lambda>y. y = c) (bind_op (tombstone_subject t d) (\<lambda>_.
      bind_op (each_op (\<lambda>(x, e). erase t x e) xs) (\<lambda>_. enqueue_events es limit)))
     (\<lambda>_ tb. (erasing (c\<lparr>tb_subjects := put_once (t, dr_target_id d) d (tb_subjects c)\<rparr>) t is tb \<and>
        (\<forall>x \<in> fst ` set xs. erased t (ia_interaction_id x) tb)) \<and> queued_events es tb) (\<lambda>_. False)"
proof (rule triple_bind)
  let ?c = "c\<lparr>tb_subjects := put_once (t, dr_target_id d) d (tb_subjects c)\<rparr>"
  have "erasing ?c t is ?c" using assms(1) by (simp add: erasing_def apart_refl)
  then show "triple (\<lambda>y. y = c) (tombstone_subject t d) (\<lambda>_. erasing ?c t is) (\<lambda>_. False)"
    unfolding tombstone_subject_def assms(3)
    by (intro triple_bind [where R = "\<lambda>_ y. y = c"] triple_require triple_guard triple_write) simp_all
  show "triple (erasing ?c t is) (bind_op (each_op (\<lambda>(x, e). erase t x e) xs) (\<lambda>_. enqueue_events es limit))
      (\<lambda>_ tb. (erasing ?c t is tb \<and> (\<forall>x \<in> fst ` set xs. erased t (ia_interaction_id x) tb)) \<and> queued_events es tb) (\<lambda>_. False)" for u
    by (rule triple_bind [OF erase_all [OF assms(2)]], rule triple_enqueue_queued) simp
qed

text \<open>The stored tombstones of subjects have the scope they are stored under.\<close>

definition subjects_scoped :: "tables \<Rightarrow> bool" where
  "subjects_scoped tb \<longleftrightarrow> (\<forall>((t, p), d) \<in> set (tb_subjects tb). dr_scope d = SubjectScope \<and> dr_target_id d = p)"

lemma triple_false: "triple (\<lambda>_. False) f Q E"
  by (simp add: triple_def)

lemma put_record_refused:
  assumes "map_of (tb_subjects c) (t, p) \<noteq> None" and "ia_subject x = Some p"
  shows "triple (\<lambda>y. y = c) (put_record t (RInteraction x) e) (\<lambda>_ _. False) (\<lambda>_. True)"
proof -
  let ?P = "\<lambda>y. y = c"
  have w: "triple ?P (writable t (interaction_of (RInteraction x))) (\<lambda>_. ?P) (\<lambda>_. True)"
    by (rule triple_writable) simp_all
  have g: "triple ?P (guard_op b z) (\<lambda>_. ?P) (\<lambda>_. True)" for b z by (rule triple_guard) simp_all
  have subj: "sw_subject (new_stored_row t (RInteraction x) e) = Some p"
    using assms(2) by (simp add: new_stored_row_def)
  have s: "triple ?P (bind_op (get_subject_tombstone t p) (\<lambda>d. guard_op (d = None) (StorageError ''subject_deleted'')))
      (\<lambda>_ _. False) (\<lambda>_. True)"
    unfolding get_subject_tombstone_def
    by (rule triple_bind [OF triple_read [where Q = "\<lambda>d y. d = map_of (tb_subjects c) (t, p)"]], simp, rule triple_guard)
      (use assms(1) in auto)
  show ?thesis unfolding put_record_def
    by (rule triple_bind [OF w], rule triple_bind [OF g], simp only: subj option.case,
        rule triple_bind [OF s], rule triple_false)
qed

lemma barred_refused:
  assumes "map_of (tb_subjects (db_committed db)) (t, p) \<noteq> None" and "db_working db = None" and "ia_subject x = Some p"
  shows "\<not> is_ok (fst (transaction (put_record t (RInteraction x) e) db))"
  by (rule transaction_rule [OF put_record_refused [OF assms(1,3), of e] assms(2) refl]) simp_all

text \<open>The effect of the deletion of a subject.\<close>

lemma delete_subject_effect:
  assumes "db_working (ps_db st) = None" and "platform (db_committed (ps_db st))"
    and "subjects_scoped (db_committed (ps_db st))"
  shows "\<exists>d deleted st'. delete_subject env dw t p actor st = (Inr (d, deleted), st') \<and>
    platform (db_committed (ps_db st')) \<and> subjects_scoped (db_committed (ps_db st')) \<and>
    db_working (ps_db st') = None \<and> ps_failures st' = ps_failures st \<and> ps_sink st' = ps_sink st \<and>
    map fst deleted = subject_interactions (db_committed (ps_db st)) t p \<and>
    (\<forall>x \<in> fst ` set deleted. erased t (ia_interaction_id x) (db_committed (ps_db st'))) \<and>
    apart t (ia_interaction_id ` fst ` set deleted) (db_committed (ps_db st)) (db_committed (ps_db st')) \<and>
    (\<forall>e \<in> insert d (snd ` set deleted).
       dr_deletion_request_id e \<in> ot_event_id ` set (tb_outbox (db_committed (ps_db st')))) \<and>
    map_of (tb_subjects (db_committed (ps_db st'))) (t, p) \<noteq> None"
proof -
  let ?c = "db_committed (ps_db st)"
  define fresh where "fresh = \<lparr>dr_deletion_request_id = dw_uid dw 0, dr_scope = SubjectScope, dr_target_id = p,
      dr_requested_at = dw_clock dw 0, dr_actor = actor\<rparr>"
  define d where "d = (case map_of (tb_subjects ?c) (t, p) of None \<Rightarrow> fresh | Some d \<Rightarrow> d)"
  define deleted where "deleted = subject_deletions dw ?c t actor 2 (subject_interactions ?c t p)"
  define es where "es = subject_events dw t (dw_uid dw 1) d deleted"
  let ?is = "ia_interaction_id ` fst ` set deleted"
  let ?s = "?c\<lparr>tb_subjects := put_once (t, p) d (tb_subjects ?c)\<rparr>"
  have d: "dr_scope d = SubjectScope" "dr_target_id d = p"
  proof -
    have "dr_scope e = SubjectScope \<and> dr_target_id e = p" if "map_of (tb_subjects ?c) (t, p) = Some e" for e
      using map_of_SomeD [OF that] assms(3) unfolding subjects_scoped_def by fastforce
    then show "dr_scope d = SubjectScope" "dr_target_id d = p"
      by (simp_all add: d_def fresh_def split: option.splits)
  qed
  have ids: "\<forall>x \<in> fst ` set deleted. ia_interaction_id x \<in> ?is" by blast
  obtain n tb where run: "transaction (bind_op (tombstone_subject t d) (\<lambda>_.
        bind_op (each_op (\<lambda>(x, e). erase t x e) deleted) (\<lambda>_. enqueue_events es (pe_outbox_pending_limit env)))) (ps_db st) =
      (Inr n, \<lparr>db_committed = tb, db_working = None\<rparr>)"
    and post: "(erasing ?s t ?is tb \<and> (\<forall>x \<in> fst ` set deleted. erased t (ia_interaction_id x) tb)) \<and> queued_events es tb"
    using transaction_total [OF delete_subject_body [OF assms(2) ids d(1)] assms(1) refl] unfolding d(2) by blast
  have out: "delete_subject env dw t p actor st = (Inr (d, deleted), refresh_metrics (dw_now dw (length deleted + 3))
      (st\<lparr>ps_db := \<lparr>db_committed = tb, db_working = None\<rparr>\<rparr>))"
    using assms(1) run unfolding delete_subject_def Let_def fresh_def [symmetric] d_def [symmetric]
      deleted_def [symmetric] es_def [symmetric] by simp
  have subjects: "tb_subjects tb = put_once (t, p) d (tb_subjects ?c)" using post by (simp add: erasing_def)
  have scoped: "subjects_scoped tb"
    using assms(3) d unfolding subjects_scoped_def subjects by (auto simp: put_once_def)
  have queued: "queued_events es tb" using post by blast
  have events: "dr_deletion_request_id e \<in> ot_event_id ` set (tb_outbox tb)" if e: "e \<in> insert d (snd ` set deleted)" for e
  proof (cases "e = d")
    case True
    then have "deletion_event (dw_now dw (length deleted + 2)) t (dw_uid dw 1) e \<in> set es"
      by (simp add: es_def subject_events_def)
    with queued show ?thesis by (rule deletion_event_queued)
  next
    case False
    then obtain x where "(x, e) \<in> set deleted" using e by force
    then obtain k where k: "k < length deleted" "deleted ! k = (x, e)" by (metis in_set_conv_nth)
    then have "enumerate 2 deleted ! k = (2 + k, x, e)" by (simp add: nth_enumerate_eq)
    then have "(2 + k, x, e) \<in> set (enumerate 2 deleted)" using k(1) by (metis length_enumerate nth_mem)
    then have "deletion_event (dw_now dw (2 + k)) t (ia_trace_id x) e \<in> set es"
      unfolding es_def subject_events_def set_append set_map by (intro UnI1) (rule image_eqI, auto)
    with queued show ?thesis by (rule deletion_event_queued)
  qed
  have refused: "map_of (tb_subjects tb) (t, p) \<noteq> None" unfolding subjects by (rule put_once_has)
  have "apart t ?is ?c tb" using post by (simp add: erasing_def apart_def)
  moreover have "platform tb" using post by (simp add: erasing_def)
  moreover have "map fst deleted = subject_interactions ?c t p" by (simp add: deleted_def fst_subject_deletions)
  ultimately show ?thesis using out post scoped events refused by (simp add: refresh_metrics_def Let_def)
qed

section \<open>What is sealed\<close>

definition sealed_for :: "interaction \<Rightarrow> string \<Rightarrow> encrypted_payload \<Rightarrow> bool" where
  "sealed_for x f b \<longleftrightarrow> ep_tenant b = ia_tenant_id x \<and> ep_interaction b = ia_interaction_id x \<and> ep_field b = f"

lemma seal_Inr:
  assumes "seal env dw x content f expiry bs = Inr (r, bs')"
  obtains b nonce where "bs' = bs @ [b]" "r = ep_reference b" "sealed_for x f b"
    "encrypt (pe_aead env) (pe_cipher env) r nonce content (ia_tenant_id x) (ia_interaction_id x) f expiry None = Inr b"
  using assms
  by (auto simp: seal_def bindE_Inr_iff encrypt_def sealed_for_def split: prod.splits option.splits)

lemma seal_when_Inr:
  assumes "seal_when c env dw x content f expiry bs = Inr (r, bs')"
  shows "if c then \<exists>b. bs' = bs @ [b] \<and> r = Some (ep_reference b) \<and> sealed_for x f b else r = None \<and> bs' = bs"
proof (cases c)
  case True
  then obtain r' where "seal env dw x content f expiry bs = Inr (r', bs')" "r = Some r'"
    using assms by (auto simp: seal_when_def bindE_Inr_iff)
  then show ?thesis using True by (auto elim: seal_Inr)
next
  case False
  then show ?thesis using assms by (simp add: seal_when_def)
qed

text \<open>What sealing keeps: the identity of the interaction, its policy, and that every payload is one
  of its own, with a field that only the policy or the replay admits.\<close>

definition sealing :: "interaction_graph \<Rightarrow> sealed \<Rightarrow> bool" where
  "sealing g s \<longleftrightarrow>
     (\<exists>m f. ig_interaction (sl_graph s) = (ig_interaction g)\<lparr>ia_input :=
        (ia_input (ig_interaction g))\<lparr>is_messages_ref := m, is_response_format_ref := f\<rparr>\<rparr>) \<and>
     ig_started (sl_graph s) = ig_started g \<and> ig_route (sl_graph s) = ig_route g \<and>
     (ig_retrieval (sl_graph s) = None \<longleftrightarrow> ig_retrieval g = None) \<and>
     (\<forall>b \<in> set (sl_blobs s). ep_tenant b = ia_tenant_id (ig_interaction g) \<and>
        ep_interaction b = ia_interaction_id (ig_interaction g) \<and>
        (pd_content_logging_allowed (ia_policy (ig_interaction g)) \<or> ep_field b = ''replay''))"

definition no_reference :: "sealed \<Rightarrow> bool" where
  "no_reference s \<longleftrightarrow>
     is_messages_ref (ia_input (ig_interaction (sl_graph s))) = None \<and>
     is_response_format_ref (ia_input (ig_interaction (sl_graph s))) = None \<and>
     (case ig_retrieval (sl_graph s) of None \<Rightarrow> True | Some r \<Rightarrow> rr_query_ref r = None)"

lemma sealing_input:
  assumes "seal_input env dw expires m c s = Inr s'" and "sealing g s"
  shows "sealing g s' \<and> ig_retrieval (sl_graph s') = ig_retrieval (sl_graph s) \<and>
    ig_attempts (sl_graph s') = ig_attempts (sl_graph s) \<and> sl_replay s' = sl_replay s \<and>
    (\<not> pd_content_logging_allowed (ia_policy (ig_interaction g)) \<longrightarrow>
       is_messages_ref (ia_input (ig_interaction (sl_graph s'))) = None \<and>
       is_response_format_ref (ia_input (ig_interaction (sl_graph s'))) = None)"
proof -
  let ?x = "ig_interaction (sl_graph s)"
  let ?a = "pd_content_logging_allowed (ia_policy ?x)"
  have x: "ia_policy ?x = ia_policy (ig_interaction g)" "ia_tenant_id ?x = ia_tenant_id (ig_interaction g)"
      "ia_interaction_id ?x = ia_interaction_id (ig_interaction g)"
    using assms(2) unfolding sealing_def by force+
  obtain r1 bs1 r2 bs2 where steps:
      "seal_when ?a env dw ?x m ''messages'' expires (sl_blobs s) = Inr (r1, bs1)"
      "seal_when (?a \<and> pc_response_format_json c \<noteq> None) env dw ?x (or_empty (pc_response_format_json c))
         ''response_format'' expires bs1 = Inr (r2, bs2)"
      "s' = s\<lparr>sl_graph := (sl_graph s)\<lparr>ig_interaction := ?x\<lparr>ia_input :=
          (ia_input ?x)\<lparr>is_messages_ref := r1, is_response_format_ref := r2\<rparr>\<rparr>\<rparr>, sl_blobs := bs2\<rparr>"
    using assms(1) by (auto simp: seal_input_def Let_def bindE_Inr_iff)
  note r = seal_when_Inr [OF steps(1)] seal_when_Inr [OF steps(2)]
  have refs: "\<not> ?a \<Longrightarrow> r1 = None \<and> r2 = None" using r by simp
  have blobs: "\<forall>b \<in> set bs2. b \<in> set (sl_blobs s) \<or> ?a \<and> (\<exists>f. sealed_for ?x f b)"
    using r by (auto split: if_splits)
  have "\<exists>m f. ig_interaction (sl_graph s') = (ig_interaction g)\<lparr>ia_input :=
      (ia_input (ig_interaction g))\<lparr>is_messages_ref := m, is_response_format_ref := f\<rparr>\<rparr>"
    using assms(2) unfolding sealing_def steps(3) by force
  moreover have "\<forall>b \<in> set (sl_blobs s'). ep_tenant b = ia_tenant_id (ig_interaction g) \<and>
      ep_interaction b = ia_interaction_id (ig_interaction g) \<and>
      (pd_content_logging_allowed (ia_policy (ig_interaction g)) \<or> ep_field b = ''replay'')"
    using blobs assms(2) x unfolding sealing_def sealed_for_def steps(3) by fastforce
  ultimately show ?thesis using assms(2) refs x(1) unfolding sealing_def steps(3) by simp
qed

lemma sealing_retrieval:
  assumes "seal_retrieval env dw expires q s = Inr s'" and "sealing g s"
  shows "sealing g s' \<and> ig_interaction (sl_graph s') = ig_interaction (sl_graph s) \<and>
    ig_attempts (sl_graph s') = ig_attempts (sl_graph s) \<and> sl_replay s' = sl_replay s \<and>
    (\<not> pd_content_logging_allowed (ia_policy (ig_interaction g)) \<longrightarrow>
       (case ig_retrieval (sl_graph s') of None \<Rightarrow> True | Some r \<Rightarrow> rr_query_ref r = None))"
proof (cases "ig_retrieval (sl_graph s)")
  case None
  then show ?thesis using assms by (simp add: seal_retrieval_def)
next
  case (Some run)
  let ?x = "ig_interaction (sl_graph s)"
  have x: "ia_policy ?x = ia_policy (ig_interaction g)" "ia_tenant_id ?x = ia_tenant_id (ig_interaction g)"
      "ia_interaction_id ?x = ia_interaction_id (ig_interaction g)"
    using assms(2) unfolding sealing_def by force+
  obtain r bs where step: "seal_when (pd_content_logging_allowed (ia_policy ?x)) env dw ?x q ''query'' expires (sl_blobs s) = Inr (r, bs)"
      "s' = s\<lparr>sl_graph := (sl_graph s)\<lparr>ig_retrieval := Some (run\<lparr>rr_query_ref := r\<rparr>)\<rparr>, sl_blobs := bs\<rparr>"
    using assms(1) Some by (auto simp: seal_retrieval_def Let_def bindE_Inr_iff)
  note r = seal_when_Inr [OF step(1)]
  have "\<forall>b \<in> set bs. b \<in> set (sl_blobs s) \<or> pd_content_logging_allowed (ia_policy ?x) \<and> (\<exists>f. sealed_for ?x f b)"
    using r by (auto split: if_splits)
  then have "\<forall>b \<in> set (sl_blobs s'). ep_tenant b = ia_tenant_id (ig_interaction g) \<and>
      ep_interaction b = ia_interaction_id (ig_interaction g) \<and>
      (pd_content_logging_allowed (ia_policy (ig_interaction g)) \<or> ep_field b = ''replay'')"
    using assms(2) x unfolding sealing_def sealed_for_def step(2) by fastforce
  moreover obtain old where "ig_retrieval g = Some old" using assms(2) Some unfolding sealing_def by auto
  ultimately show ?thesis using assms(2) r x(1) unfolding sealing_def step(2) by (simp split: if_splits)
qed

text \<open>The replay entry and its response, which is the last payload.\<close>

definition replay_sealed ::
    "('k, 's) persistence_env \<Rightarrow> interaction_graph \<Rightarrow> inference_response option \<Rightarrow> persistence_content \<Rightarrow>
     sealed \<Rightarrow> bool" where
  "replay_sealed env g response c s \<longleftrightarrow>
     (\<forall>q. sl_replay s = Some q \<longrightarrow>
        (\<exists>bs b nonce out r. sl_blobs s = bs @ [b] \<and> payload_key b = (rp_tenant q, rp_response_ref q) \<and>
           ep_interaction b = rp_interaction q \<and> rp_tenant q = ia_tenant_id (ig_interaction g) \<and>
           rp_interaction q = ia_interaction_id (ig_interaction g) \<and>
           response = Some r \<and> pc_output c = Some out \<and>
           encrypt (pe_aead env) (pe_cipher env) (ep_reference b) nonce
             (pe_dump_response env (r\<lparr>rp_content := out\<rparr>)) (rp_tenant q) (rp_interaction q) ''replay''
             (rp_expires_at q) None = Inr b))"

lemma sealing_output:
  assumes "seal_output env dw expires rexp response (pc_output c) fp reserved s = Inr s'" and "sealing g s"
    and "sl_replay s = None"
  shows "sealing g s' \<and> ig_interaction (sl_graph s') = ig_interaction (sl_graph s) \<and>
    ig_retrieval (sl_graph s') = ig_retrieval (sl_graph s) \<and> replay_sealed env g response c s' \<and>
    map ga_attempt_id (ig_attempts (sl_graph s')) = map ga_attempt_id (ig_attempts (sl_graph s)) \<and>
    (\<not> pd_content_logging_allowed (ia_policy (ig_interaction g)) \<longrightarrow>
       (\<forall>a \<in> set (ig_attempts (sl_graph s')). ga_output_ref a = None \<or> a \<in> set (ig_attempts (sl_graph s))))"
proof (cases "pc_output c = None \<or> response = None")
  case True
  then have "s' = s" using assms(1) by (cases response; cases "pc_output c") (auto simp: seal_output_def)
  then show ?thesis using assms(2,3) by (simp add: replay_sealed_def)
next
  case False
  then obtain out r where io: "pc_output c = Some out" "response = Some r" by auto
  let ?x = "ig_interaction (sl_graph s)" and ?as = "ig_attempts (sl_graph s)"
  have x: "ia_policy ?x = ia_policy (ig_interaction g)" "ia_tenant_id ?x = ia_tenant_id (ig_interaction g)"
      "ia_interaction_id ?x = ia_interaction_id (ig_interaction g)"
    using assms(2) unfolding sealing_def by force+
  have as: "?as \<noteq> []" using assms(1) io by (auto simp: seal_output_def)
  obtain ref bs rref bs2 where step:
      "seal_when (pd_content_logging_allowed (ia_policy ?x)) env dw ?x out ''output'' expires (sl_blobs s) = Inr (ref, bs)"
      "seal env dw ?x (pe_dump_response env (r\<lparr>rp_content := out\<rparr>)) ''replay'' rexp bs = Inr (rref, bs2)"
      "s' = s\<lparr>sl_graph := (sl_graph s)\<lparr>ig_attempts := butlast ?as @ [(last ?as)\<lparr>ga_output_ref := ref\<rparr>]\<rparr>,
         sl_blobs := bs2,
         sl_replay := Some \<lparr>rp_tenant = ia_tenant_id ?x, rp_application = ia_application_id ?x,
           rp_request = ia_request_id ?x, rp_interaction = ia_interaction_id ?x, rp_fingerprint = fp,
           rp_response_ref = rref, rp_reserved_at = reserved, rp_expires_at = rexp\<rparr>\<rparr>"
    using assms(1) io as by (auto simp: seal_output_def Let_def bindE_Inr_iff)
  obtain b nonce where b: "bs2 = bs @ [b]" "rref = ep_reference b" "sealed_for ?x ''replay'' b"
      "encrypt (pe_aead env) (pe_cipher env) rref nonce (pe_dump_response env (r\<lparr>rp_content := out\<rparr>))
         (ia_tenant_id ?x) (ia_interaction_id ?x) ''replay'' rexp None = Inr b"
    by (rule seal_Inr [OF step(2)])
  note r = seal_when_Inr [OF step(1)]
  have "\<forall>b \<in> set bs. b \<in> set (sl_blobs s) \<or> pd_content_logging_allowed (ia_policy ?x) \<and> (\<exists>f. sealed_for ?x f b)"
    using r by (auto split: if_splits)
  then have "\<forall>b \<in> set (sl_blobs s'). ep_tenant b = ia_tenant_id (ig_interaction g) \<and>
      ep_interaction b = ia_interaction_id (ig_interaction g) \<and>
      (pd_content_logging_allowed (ia_policy (ig_interaction g)) \<or> ep_field b = ''replay'')"
    using assms(2) x b(1,3) unfolding sealing_def sealed_for_def step(3) by fastforce
  then have "sealing g s'" using assms(2) unfolding sealing_def step(3) by simp
  moreover have "replay_sealed env g response c s'"
    unfolding replay_sealed_def step(3) using b io x by (auto simp: payload_key_def sealed_for_def)
  moreover have "map ga_attempt_id (ig_attempts (sl_graph s')) = map ga_attempt_id ?as"
    using as unfolding step(3) by (simp add: map_butlast [symmetric]) (metis append_butlast_last_id last_map list.map_disc_iff map_butlast)
  moreover have "\<not> pd_content_logging_allowed (ia_policy (ig_interaction g)) \<Longrightarrow>
      \<forall>a \<in> set (ig_attempts (sl_graph s')). ga_output_ref a = None \<or> a \<in> set ?as"
    using r x(1) unfolding step(3) by (auto dest: in_set_butlastD)
  ultimately show ?thesis unfolding step(3) by simp
qed

lemma seal_graph_sealed:
  assumes "seal_graph env dw expires rexp g response c fp reserved = Inr s"
  shows "sealing g s \<and> replay_sealed env g response c s \<and>
    map ga_attempt_id (ig_attempts (sl_graph s)) = map ga_attempt_id (ig_attempts g) \<and>
    (pc_failed c \<longrightarrow> sl_blobs s = [] \<and> sl_replay s = None \<and> sl_graph s = g) \<and>
    (\<not> pc_failed c \<and> \<not> pd_content_logging_allowed (ia_policy (ig_interaction g)) \<longrightarrow> no_reference s \<and>
       (\<forall>a \<in> set (ig_attempts (sl_graph s)). ga_output_ref a = None \<or> a \<in> set (ig_attempts g)))"
proof -
  let ?s = "\<lparr>sl_graph = g, sl_blobs = [], sl_replay = None\<rparr>"
  have start: "sealing g ?s"
    unfolding sealing_def by (simp, intro exI [of _ "is_messages_ref (ia_input (ig_interaction g))"]
      exI [of _ "is_response_format_ref (ia_input (ig_interaction g))"]) simp
  show ?thesis
  proof (cases "pc_failed c")
    case True
    then have "s = ?s" using assms by (simp add: seal_graph_def)
    then show ?thesis using start True by (simp add: replay_sealed_def)
  next
    case False
    then obtain m q s1 s2 where steps: "seal_input env dw expires m c ?s = Inr s1"
        "seal_retrieval env dw expires q s1 = Inr s2"
        "seal_output env dw expires rexp response (pc_output c) fp reserved s2 = Inr s"
      using assms by (auto simp: seal_graph_def bindE_Inr_iff split: option.splits)
    note one = sealing_input [OF steps(1) start]
    note two = sealing_retrieval [OF steps(2) one [THEN conjunct1]]
    have "sl_replay s2 = None" using one two by simp
    note three = sealing_output [OF steps(3) two [THEN conjunct1] this]
    show ?thesis using one two three False unfolding no_reference_def by simp
  qed
qed

section \<open>The transaction of an interaction\<close>

text \<open>Assertions that survive when payloads are removed and the replay entries change.\<close>

definition shrinking :: "(tables \<Rightarrow> bool) \<Rightarrow> bool" where
  "shrinking P \<longleftrightarrow>
     (\<forall>tb F. P tb \<longrightarrow> P (tb\<lparr>tb_payloads := filter F (tb_payloads tb)\<rparr>)) \<and>
     (\<forall>tb qs. P tb \<longrightarrow> P (tb\<lparr>tb_replays := qs\<rparr>))"

lemma shrinking_delete_payloads: "shrinking P \<Longrightarrow> triple P (delete_payloads D) (\<lambda>_. P) (\<lambda>_. True)"
  by (rule triple_delete_payloads) (simp_all add: shrinking_def)

lemma shrinking_replays: "shrinking P \<Longrightarrow> triple P (sql_write (\<lambda>tb. tb\<lparr>tb_replays := f tb\<rparr>)) (\<lambda>_. P) E"
  by (rule triple_write) (simp add: shrinking_def)

lemma shrinking_delete_replay:
  assumes "shrinking P"
  shows "triple P (delete_replay t a r) (\<lambda>_. P) (\<lambda>_. True)"
  unfolding delete_replay_def delete_response_def
  by (rule triple_bind [OF triple_require], assumption, rule triple_bind [OF triple_read [where Q = "\<lambda>_. P"]], assumption,
      rule triple_bind [OF shrinking_replays [OF assms]])
    (auto split: option.splits intro: triple_return shrinking_delete_payloads [OF assms])

lemma shrinking_put_replay:
  assumes "shrinking P"
  shows "triple P (put_replay q n) (\<lambda>_. P) (\<lambda>_. True)"
proof -
  have w: "triple P (writable t i) (\<lambda>_. P) (\<lambda>_. True)" for t i by (rule triple_writable, assumption, rule TrueI)
  have g: "triple P (guard_op c e) (\<lambda>_. P) (\<lambda>_. True)" for c e by (rule triple_guard, assumption, rule TrueI)
  have r: "triple P (sql_read f) (\<lambda>_. P) (\<lambda>_. True)" for f by (rule triple_read)
  show ?thesis unfolding put_replay_def delete_response_def
    by (rule triple_bind [OF g], rule triple_bind [OF w], rule triple_bind [OF r], rule triple_bind [OF g],
        rule triple_bind [OF shrinking_replays [OF assms]], rule triple_bind [OF r],
        rule triple_bind [OF shrinking_replays [OF assms]], rule triple_each, rule shrinking_delete_payloads [OF assms])
qed

lemma shrinking_store_replay:
  assumes "shrinking P"
  shows "triple P (store_replay n q) (\<lambda>_. P) (\<lambda>_. True)"
proof (cases q)
  case (Some p)
  show ?thesis unfolding store_replay_def Some option.case
    by (rule triple_bind [OF shrinking_delete_replay [OF assms] shrinking_put_replay [OF assms]])
qed (simp add: store_replay_def triple_return)

lemma enqueue_keeps:
  "(\<And>tb rows. P (tb\<lparr>tb_outbox := rows\<rparr>) = P tb) \<Longrightarrow> triple P (enqueue_events es limit) (\<lambda>_. P) (\<lambda>_. True)"
  by (rule triple_enqueue) simp

text \<open>The rows that are added, and that nothing else adds or changes rows or subjects.\<close>

definition rows_are :: "stored_row list \<Rightarrow> ((string \<times> string) \<times> deletion_request) list \<Rightarrow> tables \<Rightarrow> bool" where
  "rows_are rs ss tb \<longleftrightarrow> tb_rows tb = rs \<and> tb_subjects tb = ss"

lemma rows_are_shrinking: "shrinking (rows_are rs ss)"
  by (simp add: shrinking_def rows_are_def)

lemma rows_are_outbox [simp]: "rows_are rs ss (tb\<lparr>tb_outbox := rows\<rparr>) = rows_are rs ss tb"
  by (simp add: rows_are_def)

lemma put_records_rows:
  "triple (rows_are rs ss) (each_op (\<lambda>r. put_record t r e) xs)
     (\<lambda>_. rows_are (rs @ map (\<lambda>r. new_stored_row t r e) xs) ss) (\<lambda>_. True)"
proof (induction xs arbitrary: rs)
  case Nil
  then show ?case by (simp add: triple_return)
next
  case (Cons x xs)
  have "triple (rows_are rs ss) (put_record t x e) (\<lambda>_. rows_are (rs @ [new_stored_row t x e]) ss) (\<lambda>_. True)"
    by (rule triple_put_record) (simp_all add: rows_are_def)
  from triple_bind [OF this Cons.IH] show ?case by simp
qed

lemma put_payloads_rows: "triple (rows_are rs ss) (each_op put_payload bs) (\<lambda>_. rows_are rs ss) (\<lambda>_. True)"
  by (rule triple_each, rule triple_put_payload) (simp_all add: rows_are_def)

lemma store_graph_rows:
  "triple (rows_are rs ss) (store_graph t e n limit s es)
     (\<lambda>_. rows_are (rs @ map (\<lambda>r. new_stored_row t r e) (graph_rows (sl_graph s))) ss) (\<lambda>_. True)"
  unfolding store_graph_def
  by (rule triple_bind [OF put_records_rows], rule triple_bind [OF put_payloads_rows],
      rule triple_bind [OF shrinking_store_replay], rule rows_are_shrinking,
      rule enqueue_keeps, rule rows_are_outbox)

text \<open>The outbox grows by rows of the given events only.\<close>

definition outbox_grown :: "event outbox_row list \<Rightarrow> event list \<Rightarrow> tables \<Rightarrow> bool" where
  "outbox_grown old es tb \<longleftrightarrow>
     (\<exists>new. tb_outbox tb = old @ new \<and> (\<forall>r \<in> set new. \<exists>e \<in> set es. \<exists>rs. r = new_row (\<lambda>e. e) rs e))"

lemma enqueue_loop_rows:
  "enqueue_loop dump limit es rs n d = (rs', d') \<Longrightarrow>
     \<exists>new. rs' = rs @ new \<and> (\<forall>r \<in> set new. \<exists>e \<in> set es. \<exists>ys. r = new_row dump ys e)"
proof (induction es arbitrary: rs n d)
  case (Cons e es)
  let ?row = "\<lambda>es r. \<exists>e \<in> set es. \<exists>ys. r = new_row dump ys e"
  consider (skipped) n1 d1 where "enqueue_loop dump limit es rs n1 d1 = (rs', d')"
    | (added) "enqueue_loop dump limit es (rs @ [new_row dump rs e]) (Suc n) d = (rs', d')"
    using Cons.prems by (auto split: if_splits)
  then show ?case
  proof cases
    case skipped
    then obtain new where "rs' = rs @ new" "\<forall>r \<in> set new. ?row es r" using Cons.IH by blast
    then show ?thesis by (intro exI [of _ new]) auto
  next
    case added
    then obtain new where "rs' = (rs @ [new_row dump rs e]) @ new" "\<forall>r \<in> set new. ?row es r" using Cons.IH by blast
    then show ?thesis by (intro exI [of _ "new_row dump rs e # new"]) auto
  qed
qed simp

lemma store_graph_outbox:
  "triple (\<lambda>tb. tb_outbox tb = old) (store_graph t e n limit s es) (\<lambda>_. outbox_grown old es) (\<lambda>_. True)"
proof -
  let ?P = "\<lambda>tb. tb_outbox tb = old"
  have shrink: "shrinking ?P" by (simp add: shrinking_def)
  have rec: "triple ?P (put_record t r e) (\<lambda>_. ?P) (\<lambda>_. True)" for r by (rule triple_put_record) simp_all
  have payload: "triple ?P (put_payload p) (\<lambda>_. ?P) (\<lambda>_. True)" for p by (rule triple_put_payload) simp_all
  have queue: "triple ?P (enqueue_events es limit) (\<lambda>_. outbox_grown old es) (\<lambda>_. True)"
    by (rule triple_enqueue) (auto simp: outbox_grown_def dest: enqueue_loop_rows)
  show ?thesis unfolding store_graph_def
    by (intro triple_bind [OF triple_each [OF rec]] triple_bind [OF triple_each [OF payload]]
        triple_bind [OF shrinking_store_replay [OF shrink]] queue)
qed

lemma bind_op_assoc: "bind_op (bind_op f g) h = bind_op f (\<lambda>x. bind_op (g x) h)"
proof
  fix db
  obtain r db' where f: "f db = (r, db')" by (cases "f db")
  show "bind_op (bind_op f g) h db = bind_op f (\<lambda>x. bind_op (g x) h) db"
    by (cases r) (simp_all add: bind_op_def f)
qed

lemma store_graph_platform:
  assumes "replay_sealed env g response c s"
  shows "triple platform (store_graph t e n limit s es) (\<lambda>_ tb. platform tb \<and> queued_events es tb) (\<lambda>_. True)"
proof -
  have rows: "triple platform (each_op (\<lambda>r. put_record t r e) (graph_rows (sl_graph s))) (\<lambda>_. platform) (\<lambda>_. True)"
    by (rule triple_each) (rule put_record_platform)
  have events: "triple platform (enqueue_events es limit) (\<lambda>_ tb. platform tb \<and> queued_events es tb) (\<lambda>_. True)"
    by (rule triple_enqueue_queued) simp
  have "triple platform (bind_op (each_op put_payload (sl_blobs s)) (\<lambda>_. store_replay n (sl_replay s))) (\<lambda>_. platform) (\<lambda>_. True)"
  proof (cases "sl_replay s")
    case None
    have "triple platform (each_op put_payload (sl_blobs s)) (\<lambda>_. platform) (\<lambda>_. True)"
      by (rule triple_each) (rule put_payload_platform)
    then show ?thesis unfolding None store_replay_def option.case by (rule triple_bind) (rule triple_return)
  next
    case (Some q)
    obtain bs b where b: "sl_blobs s = bs @ [b]" "payload_key b = (rp_tenant q, rp_response_ref q)"
        "ep_interaction b = rp_interaction q"
      using assms [unfolded replay_sealed_def, rule_format, OF Some] by (elim exE conjE) (rule that)
    show ?thesis unfolding Some store_replay_def option.case b(1)
      by (rule triple_bind [OF put_response [OF b(2,3)]],
          rule triple_bind [OF delete_replay_platform put_replay_platform])
  qed
  then have middle: "triple platform (bind_op (bind_op (each_op put_payload (sl_blobs s)) (\<lambda>_. store_replay n (sl_replay s)))
      (\<lambda>_. enqueue_events es limit)) (\<lambda>_ tb. platform tb \<and> queued_events es tb) (\<lambda>_. True)"
    by (rule triple_bind) (rule events)
  show ?thesis unfolding store_graph_def
    by (rule triple_bind [OF rows]) (rule middle [unfolded bind_op_assoc])
qed

section \<open>Invariants of the stores\<close>

text \<open>
  What an assertion on the tables needs so that every operation of the class keeps it: that the
  calls of the stores keep it, and the storing of a replay entry right after its response, where the
  entries of the interactions in \<open>stale\<close> may be left out: these are stored, so that no later
  interaction can take their identifiers.
\<close>

abbreviation (input) keeps :: "(tables \<Rightarrow> bool) \<Rightarrow> 'a op \<Rightarrow> bool" where
  "keeps P f \<equiv> triple P f (\<lambda>_. P) (\<lambda>_. True)"

locale store_invariant =
  fixes P :: "tables \<Rightarrow> bool" and stale :: "(string \<times> string) set"
  assumes record_kept: "keeps P (put_record t r e)"
    and payload_kept: "keeps P (put_payload p)"
    and stale_known: "P tb \<Longrightarrow> (t, i) \<in> stale \<Longrightarrow> known (tb_rows tb) t i"
    and response_kept: "payload_key b = (rp_tenant q, rp_response_ref q) \<Longrightarrow> ep_interaction b = rp_interaction q \<Longrightarrow>
      (rp_tenant q, rp_interaction q) \<notin> stale \<Longrightarrow>
      keeps P (bind_op (each_op put_payload (bs @ [b])) (\<lambda>_. store_replay n (Some q)))"
    and cost_kept: "keeps P (add_shadow_cost t i c)"
    and clear_kept: "keeps P (clear_refs t i st)"
    and removal_kept: "keeps P (delete_interaction t i)"
    and tombstone_kept: "keeps P (tombstone t i d)"
    and subject_kept: "keeps P (tombstone_subject t d)"
    and expiry_kept: "keeps P (expire_replays t u)"
    and outbox_kept: "P tb \<Longrightarrow> P (tb\<lparr>tb_outbox := rows\<rparr>)"
begin

lemma enqueue_kept: "keeps P (enqueue_events es limit)"
  by (rule triple_enqueue) (rule outbox_kept)

lemma read_kept: "keeps P (sql_read f)"
  by (rule triple_read)

lemma sealed_kept:
  assumes "replay_sealed env g response c s"
    and "(ia_tenant_id (ig_interaction g), ia_interaction_id (ig_interaction g)) \<notin> stale"
  shows "keeps P (bind_op (each_op put_payload (sl_blobs s)) (\<lambda>_. store_replay n (sl_replay s)))"
proof (cases "sl_replay s")
  case None
  have "keeps P (each_op put_payload (sl_blobs s))" by (rule triple_each) (rule payload_kept)
  then show ?thesis unfolding None store_replay_def option.case by (rule triple_bind) (rule triple_return)
next
  case (Some q)
  obtain bs b where b: "sl_blobs s = bs @ [b]" "payload_key b = (rp_tenant q, rp_response_ref q)"
      "ep_interaction b = rp_interaction q" "(rp_tenant q, rp_interaction q) \<notin> stale"
    using assms(1) [unfolded replay_sealed_def, rule_format, OF Some] assms(2) by (elim exE conjE) (rule that, simp_all)
  show ?thesis unfolding Some b(1) by (rule response_kept) (rule b(2-4))+
qed

text \<open>An interaction that is stored is refused before anything else of its graph is stored.\<close>

lemma stale_refused:
  assumes "(t, ia_interaction_id x) \<in> stale"
  shows "triple P (put_record t (RInteraction x) e) (\<lambda>_ _. False) (\<lambda>_. True)"
proof (rule triple_put_record)
  fix tb assume "P tb" "record_keys (new_stored_row t (RInteraction x) e) tb"
  then show False
    using stale_known [OF _ assms] rows_at_known [of tb t "ia_interaction_id x"]
    by (simp add: record_keys_def new_stored_row_def)
qed simp

lemma graph_kept:
  assumes "replay_sealed env g response c s" and "sealing g s"
  shows "keeps P (store_graph (ia_tenant_id (ig_interaction g)) e n limit s es)"
proof (cases "(ia_tenant_id (ig_interaction g), ia_interaction_id (ig_interaction g)) \<in> stale")
  case True
  have "ia_interaction_id (ig_interaction (sl_graph s)) = ia_interaction_id (ig_interaction g)"
    using assms(2) unfolding sealing_def by force
  with True have refused: "triple P (put_record (ia_tenant_id (ig_interaction g)) (RInteraction (ig_interaction (sl_graph s))) e)
      (\<lambda>_ _. False) (\<lambda>_. True)"
    by (intro stale_refused) simp
  show ?thesis unfolding store_graph_def graph_rows_def append_Cons each_op.simps bind_op_assoc
    by (rule triple_bind [OF refused triple_false])
next
  case False
  have rows: "keeps P (each_op (\<lambda>r. put_record t r e) (graph_rows (sl_graph s)))" for t
    by (rule triple_each) (rule record_kept)
  have "keeps P (bind_op (bind_op (each_op put_payload (sl_blobs s)) (\<lambda>_. store_replay n (sl_replay s)))
      (\<lambda>_. enqueue_events es limit))"
    by (rule triple_bind [OF sealed_kept [OF assms(1) False] enqueue_kept])
  then show ?thesis unfolding store_graph_def bind_op_assoc by (rule triple_bind [OF rows])
qed

lemma erase_kept: "keeps P (erase t x d)"
  unfolding erase_def by (rule triple_bind [OF tombstone_kept triple_bind [OF clear_kept removal_kept]])

lemma shadow_payload_kept: "keeps P (shadow_payload env dw x a policy c expires)"
proof -
  have put: "keeps P (bind_op (put_payload b) (\<lambda>_. return_op v))" for b and v :: generation_attempt
    by (rule triple_bind [OF payload_kept]) (rule triple_return)
  have fail: "keeps P (\<lambda>db. (Inl e, db))" for e by (rule triple_same) simp
  have ret: "keeps P (return_op v)" for v :: generation_attempt by (rule triple_return)
  show ?thesis unfolding shadow_payload_def by (simp add: put fail ret split: option.split sum.split)
qed

lemma shadow_kept: "keeps P (store_shadow env dw x a policy c expires)"
proof -
  have ret: "keeps P (return_op v)" for v :: bool by (rule triple_return)
  have rest: "keeps P (bind_op (shadow_payload env dw x a policy c expires) (\<lambda>a.
      bind_op (put_record t (RAttempt a) expires) (\<lambda>_. bind_op (add_shadow_cost t i (cost a)) (\<lambda>_.
      bind_op (enqueue_events (es a) n) (\<lambda>_. return_op True)))))" for t i n and cost :: "generation_attempt \<Rightarrow> micros" and es
    by (rule triple_bind [OF shadow_payload_kept], rule triple_bind [OF record_kept],
        rule triple_bind [OF cost_kept], rule triple_bind [OF enqueue_kept ret])
  show ?thesis unfolding store_shadow_def Let_def state_at_def
    by (rule triple_bind [OF read_kept]) (simp add: ret rest)
qed

lemma transaction_kept:
  fixes db :: database
  assumes "keeps P f" and "db_working db = None" and "P (db_committed db)"
  shows "db_working (snd (transaction f db)) = None \<and> P (db_committed (snd (transaction f db)))"
  by (rule transaction_rule [OF assms]) (use assms(2,3) in simp_all)

text \<open>The operations of the class, from a database without an open transaction.\<close>

definition held :: "'s persistence_state \<Rightarrow> bool" where
  "held st \<longleftrightarrow> db_working (ps_db st) = None \<and> P (db_committed (ps_db st))"

lemma held_metrics [simp]:
  "held (refresh_metrics t st) = held st" "held (record_failure st) = held st"
  "held (count_metric m n st) = held st"
  by (simp_all add: held_def refresh_metrics_def record_failure_def count_metric_def Let_def)

lemma held_degraded [simp]: "held (emit_degraded emit es st) = held st"
proof (induction es arbitrary: st)
  case (Cons e es)
  then show ?case
    by (simp add: emit_degraded_def emit_degraded_event_def Let_def) (simp add: held_def count_metric_def)
qed (simp add: emit_degraded_def)

lemma held_transaction: "keeps P f \<Longrightarrow> held st \<Longrightarrow> held (st\<lparr>ps_db := snd (transaction f (ps_db st))\<rparr>)"
  unfolding held_def by (simp add: transaction_kept)

lemma save_held:
  assumes "held st"
  shows "held (snd (save env dw g response c fp reserved st))"
proof -
  let ?x = "policy_stamp env c (ig_interaction g)"
  let ?g = "g\<lparr>ig_interaction := ?x\<rparr>"
  let ?es = "graph_events dw ?x 0 (graph_records ?g)"
  have "held (st\<lparr>ps_db := db'\<rparr>)"
    if run: "save_graph env dw ?g response c fp reserved ?es (ps_db st) = (r, es', db')" for r es' db'
  proof -
    let ?e = "dw_clock dw 0 + retention_of env (ia_policy ?x) * 1000000"
    let ?re = "min ?e (dw_clock dw 1 + pe_replay_ttl_seconds env * 1000000)"
    show ?thesis
    proof (cases "seal_graph env dw ?e ?re ?g response c fp reserved")
      case (Inl e)
      then have "db' = ps_db st" using run by (simp add: save_graph_def Let_def)
      then show ?thesis using assms by (simp add: held_def)
    next
      case (Inr s)
      then have "replay_sealed env ?g response c s" "sealing ?g s" using seal_graph_sealed by blast+
      note kept = held_transaction [OF graph_kept [OF this] assms, of ?e "pe_replay_capacity env"
          "pe_outbox_pending_limit env" "with_records ?es (graph_records (sl_graph s))"]
      have "db' = snd (transaction (store_graph (ia_tenant_id ?x) ?e (pe_replay_capacity env) (pe_outbox_pending_limit env) s
          (with_records ?es (graph_records (sl_graph s)))) (ps_db st))"
        using run Inr by (auto simp: save_graph_def Let_def split: prod.splits sum.splits)
      then show ?thesis using kept by simp
    qed
  qed
  then show ?thesis unfolding save_def Let_def by (simp split: prod.split sum.split)
qed

lemma save_shadow_held:
  assumes "held st"
  shows "held (snd (save_shadow env dw x a out policy f st))"
proof -
  have "held (st\<lparr>ps_db := db'\<rparr>)"
    if "transaction (store_shadow env dw x b policy c e) (ps_db st) = (r, db')" for b c e r db'
    using held_transaction [OF shadow_kept assms, of env dw x b policy c e] that by simp
  then show ?thesis using assms unfolding save_shadow_def Let_def
    by (simp split: prod.split sum.split bool.split)
qed

lemma delete_held:
  assumes "held st"
  shows "held (snd (delete env dw t i actor st))"
proof -
  have body: "keeps P (bind_op (erase t x d) (\<lambda>_. enqueue_events es n))" for x d es n
    by (rule triple_bind [OF erase_kept enqueue_kept])
  have "held (st\<lparr>ps_db := db'\<rparr>)"
    if "transaction (bind_op (erase t x d) (\<lambda>_. enqueue_events es n)) (ps_db st) = (r, db')" for x d es n r db'
    using held_transaction [OF body assms, of x d es n] that by simp
  then show ?thesis using assms unfolding delete_def Let_def deletion_failed_def
    by (auto simp: held_def [of st] split: option.split prod.split sum.split)
qed

lemma delete_subject_held:
  assumes "held st"
  shows "held (snd (delete_subject env dw t p actor st))"
proof -
  have "keeps P ((\<lambda>(x, e). erase t x e) y)" for y by (cases y) (simp add: erase_kept)
  then have each: "keeps P (each_op (\<lambda>(x, e). erase t x e) xs)" for xs by (intro triple_each)
  have body: "keeps P (bind_op (tombstone_subject t d) (\<lambda>_. bind_op (each_op (\<lambda>(x, e). erase t x e) xs) (\<lambda>_. enqueue_events es n)))"
    for d xs es n
    by (rule triple_bind [OF subject_kept triple_bind [OF each enqueue_kept]])
  have "held (st\<lparr>ps_db := db'\<rparr>)"
    if "transaction (bind_op (tombstone_subject t d) (\<lambda>_. bind_op (each_op (\<lambda>(x, e). erase t x e) xs) (\<lambda>_. enqueue_events es n)))
      (ps_db st) = (r, db')" for d xs es n r db'
    using held_transaction [OF body assms, of d xs es n] that by simp
  then show ?thesis using assms unfolding delete_subject_def Let_def deletion_failed_def
    by (auto simp: held_def [of st] split: prod.split sum.split)
qed

lemma sweep_held:
  assumes "held st"
  shows "held (st\<lparr>ps_db := snd (sweep t u (ps_db st))\<rparr>)"
proof -
  have one: "keeps P (bind_op (clear_refs t i ExpiredRecord) (\<lambda>_. delete_interaction t i))" for i
    by (rule triple_bind [OF clear_kept removal_kept])
  have each: "keeps P (each_op (\<lambda>x. bind_op (clear_refs t (ia_interaction_id x) ExpiredRecord)
      (\<lambda>_. delete_interaction t (ia_interaction_id x))) xs)" for xs
    by (rule triple_each) (rule one)
  show ?thesis unfolding sweep_def expired_def
    by (rule held_transaction [OF _ assms], rule triple_bind [OF read_kept], rule triple_bind [OF each],
        rule triple_bind [OF expiry_kept]) (rule triple_return)
qed

end

subsection \<open>The invariants\<close>

lemma keeps_true: "triple P f (\<lambda>_. P) P \<Longrightarrow> keeps P f"
  by (erule triple_conseq) simp_all

lemma delete_replay_keeps_own: "keeps own_responses (delete_replay t a r)"
  unfolding delete_replay_def delete_response_def
  by (rule triple_bind [OF triple_require], assumption,
      rule triple_bind [OF triple_read [where Q = "\<lambda>_. own_responses"]], assumption,
      rule triple_bind [OF triple_write [where Q = "\<lambda>_. own_responses"]], rule own_filter_replays, assumption)
    (auto split: option.splits intro: triple_return delete_payloads_own)

lemma platform_keeps:
  assumes "triple schema f (\<lambda>_. schema) schema" and "keeps own_responses f"
  shows "keeps platform f"
  by (rule triple_conseq [OF triple_conj [OF schema_triple [OF assms(1)] assms(2)]]) (auto simp: platform_def)

lemma set_interaction_own [simp]: "own_responses (set_interaction t i x tb) = own_responses tb"
  by (simp add: set_interaction_def)

text \<open>An assertion that a change of the interactions' records does not affect.\<close>

lemma add_shadow_cost_keeps_generic:
  assumes "\<And>tb x. P tb \<Longrightarrow> P (set_interaction t i x tb)"
  shows "keeps P (add_shadow_cost t i c)"
proof -
  have w: "keeps P (writable t i)" by (rule triple_writable) simp_all
  have r: "keeps P (sql_read f)" for f by (rule triple_read)
  show ?thesis unfolding add_shadow_cost_def get_record_def
    by (rule triple_bind [OF w], rule triple_bind [OF r])
      (auto split: option.splits stored_record.splits intro!: triple_return triple_write assms)
qed

interpretation kept_platform: store_invariant platform "{}"
proof
  fix t r e p b q bs n i c st d u rows and tb :: tables
  show "known (tb_rows tb) t i" if "(t, i) \<in> {}" using that by simp
  note keys = calls_keep [OF store_change_intros(1)]
  have own: "keeps own_responses (clear_refs t i st)" "keeps own_responses (tombstone t i d)"
      "keeps own_responses (tombstone_subject t d)"
    unfolding clear_refs_def tombstone_def tombstone_subject_def
    by (intro triple_bind [where R = "\<lambda>_. own_responses"] triple_require triple_guard triple_write;
        simp add: own_filter_replays [of "tb\<lparr>tb_rows := rs\<rparr>" for tb rs, simplified])+
  show "keeps platform (put_record t r e)" by (rule put_record_platform)
  show "keeps platform (put_payload p)" by (rule put_payload_platform)
  show "keeps platform (bind_op (each_op put_payload (bs @ [b])) (\<lambda>_. store_replay n (Some q)))"
    if "payload_key b = (rp_tenant q, rp_response_ref q)" "ep_interaction b = rp_interaction q"
    unfolding store_replay_def option.case
    by (rule triple_bind [OF put_response [OF that]], rule triple_bind [OF delete_replay_platform put_replay_platform])
  show "keeps platform (add_shadow_cost t i c)"
    by (rule platform_keeps [OF add_shadow_cost_keeps [OF store_change_intros(1)] add_shadow_cost_keeps_generic]) simp
  show "keeps platform (clear_refs t i st)" "keeps platform (tombstone t i d)" "keeps platform (tombstone_subject t d)"
    by (rule platform_keeps [OF _ own(1)], rule keys, rule platform_keeps [OF _ own(2)], rule keys,
        rule platform_keeps [OF _ own(3)], rule keys)
  show "keeps platform (delete_interaction t i)"
    unfolding delete_interaction_def
    by (rule triple_bind [OF triple_require], assumption,
        rule platform_keeps [OF delete_payloads_keeps [OF store_change_intros(1)] delete_payloads_own])
  have "keeps own_responses (expire_replays t u)" unfolding expire_replays_def
    by (rule triple_bind [OF triple_read [where Q = "\<lambda>_. own_responses"]], assumption, rule triple_each,
        rule delete_replay_keeps_own)
  then show "keeps platform (expire_replays t u)" by (rule platform_keeps [OF keys(5)])
  show "platform (tb\<lparr>tb_outbox := rows\<rparr>)" if "platform tb" using that by simp
qed

text \<open>An interaction that was erased stays erased, and the keys with it.\<close>

interpretation kept_settled: store_invariant "settled t i" "{}" for t i
proof
  fix t' r e p b q bs n j c st d u rows and tb :: tables
  show "known (tb_rows tb) t' j" if "(t', j) \<in> {}" using that by simp
  note kept = calls_keep [OF store_change_intros(2), THEN keeps_true]
  show "keeps (settled t i) (put_record t' r e)" "keeps (settled t i) (put_payload p)"
    "keeps (settled t i) (add_shadow_cost t' j c)" "keeps (settled t i) (clear_refs t' j st)"
    "keeps (settled t i) (delete_interaction t' j)" "keeps (settled t i) (tombstone t' j d)"
    "keeps (settled t i) (tombstone_subject t' d)" "keeps (settled t i) (expire_replays t' u)"
    by (rule kept)+
  have "keeps (settled t i) (each_op put_payload (bs @ [b]))" by (rule triple_each) (rule kept)
  then show "keeps (settled t i) (bind_op (each_op put_payload (bs @ [b])) (\<lambda>_. store_replay n (Some q)))"
    unfolding store_replay_def option.case by (rule triple_bind) (rule triple_bind [OF kept(4) kept(3)])
  show "settled t i (tb\<lparr>tb_outbox := rows\<rparr>)" if "settled t i tb"
    using that by (simp add: settled_def)
qed

text \<open>The tombstones of subjects keep their scope, and none is ever removed.\<close>

definition barred :: "(string \<times> string) set \<Rightarrow> tables \<Rightarrow> bool" where
  "barred S tb \<longleftrightarrow> subjects_scoped tb \<and> (\<forall>k \<in> S. map_of (tb_subjects tb) k \<noteq> None)"

lemma barred_fields: "tb_subjects a = tb_subjects b \<Longrightarrow> barred S a = barred S b"
  by (simp add: barred_def subjects_scoped_def)

lemma barred_shrinking: "shrinking (barred S)"
  by (simp add: shrinking_def barred_def subjects_scoped_def)

lemma barred_put_once: "barred S tb \<Longrightarrow> dr_scope d = SubjectScope \<Longrightarrow>
    barred S (tb\<lparr>tb_subjects := put_once (t, dr_target_id d) d (tb_subjects tb)\<rparr>)"
  unfolding barred_def subjects_scoped_def using put_once_keeps [of "tb_subjects tb"]
  by (auto simp: put_once_def split: if_splits)

interpretation kept_subjects: store_invariant "barred S" "{}" for S
proof
  fix t r e p b q bs n i c st d u rows and tb :: tables
  show "known (tb_rows tb) t i" if "(t, i) \<in> {}" using that by simp
  show "keeps (barred S) (put_record t r e)"
    by (rule triple_put_record) (simp_all add: barred_def subjects_scoped_def)
  have p: "keeps (barred S) (put_payload p)" for p
    by (rule triple_put_payload) (simp_all add: barred_def subjects_scoped_def)
  then show "keeps (barred S) (put_payload p)" .
  have "keeps (barred S) (each_op put_payload (bs @ [b]))" by (rule triple_each) (rule p)
  then show "keeps (barred S) (bind_op (each_op put_payload (bs @ [b])) (\<lambda>_. store_replay n (Some q)))"
    by (rule triple_bind) (rule shrinking_store_replay [OF barred_shrinking])
  show "keeps (barred S) (add_shadow_cost t i c)"
    by (rule add_shadow_cost_keeps_generic) (simp add: barred_def subjects_scoped_def set_interaction_def)
  show "keeps (barred S) (clear_refs t i st)" "keeps (barred S) (tombstone t i d)"
    unfolding clear_refs_def tombstone_def
    by (intro triple_bind [where R = "\<lambda>_. barred S"] triple_require triple_write; simp add: barred_def subjects_scoped_def)+
  show "keeps (barred S) (delete_interaction t i)"
    unfolding delete_interaction_def
    by (rule triple_bind [OF triple_require], assumption, rule shrinking_delete_payloads [OF barred_shrinking])
  show "keeps (barred S) (tombstone_subject t d)"
    unfolding tombstone_subject_def
  proof (rule triple_bind [OF triple_require], assumption,
      rule triple_bind [where R = "\<lambda>_ tb. dr_scope d = SubjectScope \<and> barred S tb"])
    show "triple (barred S) (guard_op (dr_scope d = SubjectScope) (StorageError ''invalid_deletion_scope''))
        (\<lambda>_ tb. dr_scope d = SubjectScope \<and> barred S tb) (\<lambda>_. True)"
      by (rule triple_guard) simp_all
    show "triple (\<lambda>tb. dr_scope d = SubjectScope \<and> barred S tb)
        (sql_write (\<lambda>tb. tb\<lparr>tb_subjects := put_once (t, dr_target_id d) d (tb_subjects tb)\<rparr>)) (\<lambda>_. barred S) (\<lambda>_. True)" for u
      by (rule triple_write) (simp add: barred_put_once)
  qed
  show "keeps (barred S) (expire_replays t u)"
    unfolding expire_replays_def
    by (rule triple_bind [OF triple_read [where Q = "\<lambda>_. barred S"]], assumption, rule triple_each,
        rule shrinking_delete_replay [OF barred_shrinking])
  show "barred S (tb\<lparr>tb_outbox := rows\<rparr>)" if "barred S tb"
    using that by (simp add: barred_def subjects_scoped_def)
qed

text \<open>The response of a replay entry is the one payload with its key as long as the entry is stored.\<close>

definition sole :: "encrypted_payload \<Rightarrow> tables \<Rightarrow> bool" where
  "sole b tb \<longleftrightarrow> (\<forall>p \<in> set (tb_payloads tb). payload_key p = payload_key b \<longrightarrow> p = b)"

lemma sole_shrinking: "shrinking (sole b)"
  by (auto simp: shrinking_def sole_def)

lemma sole_outbox [simp]: "sole b (tb\<lparr>tb_outbox := rows\<rparr>) = sole b tb"
  by (simp add: sole_def)

definition answers :: "encrypted_payload \<Rightarrow> replay_record \<Rightarrow> tables \<Rightarrow> bool" where
  "answers b q tb \<longleftrightarrow> payload_key b = (rp_tenant q, rp_response_ref q) \<and>
     known (tb_rows tb) (rp_tenant q) (rp_interaction q) \<and> (q \<in> set (tb_replays tb) \<longrightarrow> sole b tb)"

definition answered :: "encrypted_payload \<Rightarrow> replay_record \<Rightarrow> tables \<Rightarrow> bool" where
  "answered b q tb \<longleftrightarrow> platform tb \<and> answers b q tb"

lemma answered_keeps:
  assumes "keeps platform f" and "triple (answered b q) f (\<lambda>_. answers b q) (\<lambda>_. True)"
  shows "keeps (answered b q) f"
  by (rule triple_conseq [OF triple_conj [OF assms]]) (simp_all add: answered_def)

lemma answers_weaken: "keeps (answers b q) f \<Longrightarrow> triple (answered b q) f (\<lambda>_. answers b q) (\<lambda>_. True)"
  by (erule triple_conseq) (simp_all add: answered_def)

lemma answers_filter:
  "answers b q tb \<Longrightarrow> answers b q (tb\<lparr>tb_payloads := filter F (tb_payloads tb)\<rparr>)"
  "answers b q tb \<Longrightarrow> answers b q (tb\<lparr>tb_replays := filter G (tb_replays tb)\<rparr>)"
  by (auto simp: answers_def sole_def)

lemma answers_rows:
  assumes "answers b q tb" and "\<And>r. r \<in> set (tb_rows tb) \<Longrightarrow> row_key (f r) = row_key r"
  shows "answers b q (tb\<lparr>tb_rows := map f (tb_rows tb)\<rparr>)"
proof -
  have "row_key ` f ` set (tb_rows tb) = row_key ` set (tb_rows tb)"
    unfolding image_image using assms(2) by (rule image_cong [OF refl])
  then show ?thesis using assms(1) by (simp add: answers_def known_def sole_def)
qed

lemma answers_delete_payloads: "keeps (answers b q) (delete_payloads D)"
  by (rule triple_delete_payloads) (simp_all add: answers_filter)

lemma answers_delete_replay: "keeps (answers b q) (delete_replay t a r)"
  unfolding delete_replay_def delete_response_def
  by (rule triple_bind [OF triple_require], assumption, rule triple_bind [OF triple_read [where Q = "\<lambda>_. answers b q"]],
      assumption, rule triple_bind [OF triple_write [where Q = "\<lambda>_. answers b q"]], rule answers_filter(2), assumption)
    (auto split: option.splits intro: triple_return answers_delete_payloads)

lemma answers_put_replay:
  assumes "z \<noteq> q"
  shows "keeps (answers b q) (put_replay z n)"
proof -
  let ?P = "answers b q"
  have w: "triple ?P (writable t i) (\<lambda>_. ?P) (\<lambda>_. True)" for t i by (rule triple_writable, assumption, rule TrueI)
  have g: "triple ?P (guard_op c e) (\<lambda>_. ?P) (\<lambda>_. True)" for c e by (rule triple_guard, assumption, rule TrueI)
  have r: "triple ?P (sql_read f) (\<lambda>_. ?P) (\<lambda>_. True)" for f by (rule triple_read)
  have add: "?P (tb\<lparr>tb_replays := tb_replays tb @ [z]\<rparr>)" if "?P tb" for tb
    using that assms by (auto simp: answers_def sole_def)
  show ?thesis unfolding put_replay_def delete_response_def
    by (rule triple_bind [OF g], rule triple_bind [OF w], rule triple_bind [OF r], rule triple_bind [OF g],
        rule triple_bind [OF triple_write [where Q = "\<lambda>_. ?P"]], erule add, rule triple_bind [OF r],
        rule triple_bind [OF triple_write [where Q = "\<lambda>_. ?P"]], erule answers_filter(2), rule triple_each,
        rule answers_delete_payloads)
qed

lemma answered_put_payload: "keeps (answered b q) (put_payload p)"
proof (rule answered_keeps [OF put_payload_platform], rule triple_put_payload)
  fix tb assume tb: "answered b q tb" "payload_keys p tb"
  have "payload_key p \<noteq> payload_key b" if "q \<in> set (tb_replays tb)"
  proof -
    have "schema tb" "payload_key b = (rp_tenant q, rp_response_ref q)"
      using tb(1) by (simp_all add: answered_def answers_def platform_def)
    then show ?thesis using replay_has_payload [OF _ that] fresh_payload_key [OF tb(2)] by metis
  qed
  then show "answers b q (tb\<lparr>tb_payloads := tb_payloads tb @ [p]\<rparr>)"
    using tb(1) by (auto simp: answered_def answers_def sole_def)
qed simp

interpretation kept_answers: store_invariant "answered b q" "{(rp_tenant q, rp_interaction q)}" for b q
proof
  fix t r e p y z bs n i c st d u rows and tb :: tables
  show "known (tb_rows tb) t i" if "answered b q tb" "(t, i) \<in> {(rp_tenant q, rp_interaction q)}"
    using that by (simp add: answered_def answers_def)
  have add: "answers b q (tb\<lparr>tb_rows := tb_rows tb @ [r]\<rparr>)" if "answers b q tb" for tb r
    using that known_snoc by (simp add: answers_def sole_def)
  show "keeps (answered b q) (put_record t r e)"
    by (rule answered_keeps [OF put_record_platform answers_weaken [OF triple_put_record]]) (simp_all add: add)
  show "keeps (answered b q) (put_payload p)" by (rule answered_put_payload)
  show "keeps (answered b q) (bind_op (each_op put_payload (bs @ [y])) (\<lambda>_. store_replay n (Some z)))"
    if "payload_key y = (rp_tenant z, rp_response_ref z)" "ep_interaction y = rp_interaction z"
      "(rp_tenant z, rp_interaction z) \<notin> {(rp_tenant q, rp_interaction q)}"
  proof (rule answered_keeps)
    show "keeps platform (bind_op (each_op put_payload (bs @ [y])) (\<lambda>_. store_replay n (Some z)))"
      by (rule kept_platform.response_kept [OF that(1,2)]) simp
    have "keeps (answered b q) (each_op put_payload (bs @ [y]))" by (rule triple_each) (rule answered_put_payload)
    moreover have "z \<noteq> q" using that(3) by auto
    ultimately show "triple (answered b q) (bind_op (each_op put_payload (bs @ [y])) (\<lambda>_. store_replay n (Some z)))
        (\<lambda>_. answers b q) (\<lambda>_. True)"
      unfolding store_replay_def option.case
      by (rule triple_bind [OF _ answers_weaken [OF triple_bind [OF answers_delete_replay answers_put_replay]]])
  qed
  have rekey: "answers b q (set_interaction t i x tb)" if "answers b q tb" for tb x
    unfolding set_interaction_def by (rule answers_rows [OF that]) (auto simp: row_key_def)
  show "keeps (answered b q) (add_shadow_cost t i c)"
    by (rule answered_keeps [OF kept_platform.cost_kept answers_weaken [OF add_shadow_cost_keeps_generic]]) (rule rekey)
  have cleared: "answers b q (tb\<lparr>tb_rows := map (clear_row t i st) (tb_rows tb), tb_replays := filter G (tb_replays tb)\<rparr>)"
    if "answers b q tb" for tb G
    using answers_filter(2) [OF answers_rows [OF that, of "clear_row t i st"], of G] by (simp add: clear_row_def row_key_def)
  show "keeps (answered b q) (clear_refs t i st)"
    by (rule answered_keeps [OF kept_platform.clear_kept answers_weaken], unfold clear_refs_def,
        rule triple_bind [OF triple_require], assumption, rule triple_write, erule cleared)
  show "keeps (answered b q) (delete_interaction t i)"
    by (rule answered_keeps [OF kept_platform.removal_kept answers_weaken], unfold delete_interaction_def,
        rule triple_bind [OF triple_require], assumption, rule answers_delete_payloads)
  show "keeps (answered b q) (tombstone t i d)"
    by (rule answered_keeps [OF kept_platform.tombstone_kept answers_weaken], unfold tombstone_def,
        rule triple_bind [OF triple_require], assumption, rule triple_write) (simp add: answers_def sole_def)
  show "keeps (answered b q) (tombstone_subject t d)"
    by (rule answered_keeps [OF kept_platform.subject_kept answers_weaken], unfold tombstone_subject_def,
        rule triple_bind [OF triple_require], assumption, rule triple_bind [OF triple_guard [where Q = "\<lambda>_. answers b q"]],
        assumption, rule TrueI, rule triple_write) (simp add: answers_def sole_def)
  show "keeps (answered b q) (expire_replays t u)"
    by (rule answered_keeps [OF kept_platform.expiry_kept answers_weaken], unfold expire_replays_def,
        rule triple_bind [OF triple_read [where Q = "\<lambda>_. answers b q"]], assumption, rule triple_each,
        rule answers_delete_replay)
  show "answered b q (tb\<lparr>tb_outbox := rows\<rparr>)" if "answered b q tb"
    using that by (simp add: answered_def answers_def sole_def)
qed

section \<open>Runs of the persistence\<close>

text \<open>One step is one call, with whatever it draws; the sweep shares the database.\<close>

inductive persistence_step ::
    "('k, 's) persistence_env \<Rightarrow> 's persistence_state \<Rightarrow> 's persistence_state \<Rightarrow> bool"
  for env :: "('k, 's) persistence_env" where
  step_save: "persistence_step env st (snd (save env dw g response c fp reserved_at st))"
| step_shadow: "persistence_step env st (snd (save_shadow env dw x a out policy failed st))"
| step_delete: "persistence_step env st (snd (delete env dw t i actor st))"
| step_delete_subject: "persistence_step env st (snd (delete_subject env dw t p actor st))"
| step_sweep: "persistence_step env st (st\<lparr>ps_db := snd (sweep t u (ps_db st))\<rparr>)"

inductive_cases persistence_stepE: "persistence_step env st st'"

inductive persistence_run ::
    "('k, 's) persistence_env \<Rightarrow> 's persistence_state \<Rightarrow> 's persistence_state \<Rightarrow> bool"
  for env :: "('k, 's) persistence_env" where
  run_start: "persistence_run env st st"
| run_step: "persistence_run env st st' \<Longrightarrow> persistence_step env st' st'' \<Longrightarrow> persistence_run env st st''"

context store_invariant
begin

lemma step_held: "persistence_step env st st' \<Longrightarrow> held st \<Longrightarrow> held st'"
  by (erule persistence_stepE) (simp_all add: save_held save_shadow_held delete_held delete_subject_held sweep_held)

lemma run_held:
  assumes "persistence_run env st st'" and "db_working (ps_db st) = None" and "P (db_committed (ps_db st))"
  shows "db_working (ps_db st') = None" and "P (db_committed (ps_db st'))"
proof -
  have "held st" using assms(2,3) by (simp add: held_def)
  with assms(1) have "held st'" by (induction rule: persistence_run.induct) (simp_all add: step_held)
  then show "db_working (ps_db st') = None" and "P (db_committed (ps_db st'))" by (simp_all add: held_def)
qed

end

definition empty_database :: database where
  "empty_database = \<lparr>db_committed = empty_tables, db_working = None\<rparr>"

definition sound :: "'s persistence_state \<Rightarrow> bool" where
  "sound st \<longleftrightarrow> db_working (ps_db st) = None \<and> platform (db_committed (ps_db st)) \<and>
     subjects_scoped (db_committed (ps_db st))"

lemma run_sound:
  assumes "persistence_run env st0 st" and "ps_db st0 = empty_database"
  shows "sound st"
proof -
  have start: "db_working (ps_db st0) = None" "platform (db_committed (ps_db st0))" "subjects_scoped (db_committed (ps_db st0))"
    using assms(2) platform_empty by (simp_all add: empty_database_def) (simp add: subjects_scoped_def empty_tables_def)
  show ?thesis
    unfolding sound_def
    using kept_platform.run_held [OF assms(1) start(1,2)]
      kept_subjects.run_held [OF assms(1) start(1), of "{}"] start(3) by (simp add: barred_def)
qed

section \<open>The two outcomes of saving\<close>

text \<open>A graph with the references of its texts: of the messages, the response format, the query of the
  retrieval and the output of the last attempt. Nothing else of it differs.\<close>

definition with_output :: "string option \<Rightarrow> generation_attempt list \<Rightarrow> generation_attempt list" where
  "with_output r as = (if as = [] then [] else butlast as @ [(last as)\<lparr>ga_output_ref := r\<rparr>])"

definition with_refs ::
    "string option \<Rightarrow> string option \<Rightarrow> string option \<Rightarrow> string option \<Rightarrow> interaction_graph \<Rightarrow> interaction_graph" where
  "with_refs m f q out g = g\<lparr>ig_interaction := (ig_interaction g)\<lparr>ia_input := (ia_input (ig_interaction g))
       \<lparr>is_messages_ref := m, is_response_format_ref := f\<rparr>\<rparr>,
     ig_retrieval := map_option (\<lambda>r. r\<lparr>rr_query_ref := q\<rparr>) (ig_retrieval g),
     ig_attempts := with_output out (ig_attempts g)\<rparr>"

lemma with_output_same [simp]: "with_output (ga_output_ref (last as)) as = as"
  by (simp add: with_output_def)

lemma with_output_types [simp]: "map attempt_event_type (with_output r as) = map attempt_event_type as"
proof (cases "as = []")
  case False
  then have "map attempt_event_type as = map attempt_event_type (butlast as) @ [attempt_event_type (last as)]"
    by (metis append_butlast_last_id list.map(1) list.map(2) map_append)
  then show ?thesis using False by (simp add: with_output_def attempt_event_type_def)
qed (simp add: with_output_def)

lemma with_refs_interaction [simp]:
  "ia_tenant_id (ig_interaction (with_refs m f q out g)) = ia_tenant_id (ig_interaction g)"
  "ig_started (with_refs m f q out g) = ig_started g" "ig_route (with_refs m f q out g) = ig_route g"
  by (simp_all add: with_refs_def)

lemma seal_input_refs:
  assumes "seal_input env dw expires messages c s = Inr s'"
  obtains m f where "sl_graph s' = (sl_graph s)\<lparr>ig_interaction := (ig_interaction (sl_graph s))\<lparr>ia_input :=
      (ia_input (ig_interaction (sl_graph s)))\<lparr>is_messages_ref := m, is_response_format_ref := f\<rparr>\<rparr>\<rparr>"
  using assms by (auto simp: seal_input_def Let_def bindE_Inr_iff)

lemma seal_retrieval_refs:
  assumes "seal_retrieval env dw expires query s = Inr s'"
  obtains q where "sl_graph s' = (sl_graph s)\<lparr>ig_retrieval := map_option (\<lambda>r. r\<lparr>rr_query_ref := q\<rparr>) (ig_retrieval (sl_graph s))\<rparr>"
proof (cases "ig_retrieval (sl_graph s)")
  case None
  then have "sl_graph s' = (sl_graph s)\<lparr>ig_retrieval := None\<rparr>"
    using assms by (cases "sl_graph s") (simp add: seal_retrieval_def)
  then show ?thesis using that None by simp
qed (use assms in \<open>auto simp: seal_retrieval_def Let_def bindE_Inr_iff intro: that\<close>)

lemma seal_output_refs:
  assumes "seal_output env dw expires rexp response content fp reserved s = Inr s'"
  obtains out where "sl_graph s' = (sl_graph s)\<lparr>ig_attempts := with_output out (ig_attempts (sl_graph s))\<rparr>"
proof (cases "content = None \<or> response = None")
  case True
  then have "s' = s" using assms by (cases response; cases content) (auto simp: seal_output_def)
  then have "sl_graph s' = (sl_graph s)\<lparr>ig_attempts := with_output (ga_output_ref (last (ig_attempts (sl_graph s)))) (ig_attempts (sl_graph s))\<rparr>"
    by simp
  then show ?thesis by (rule that)
next
  case False
  then obtain a r where "content = Some a" "response = Some r" by auto
  then show ?thesis
    using assms that by (auto simp: seal_output_def Let_def bindE_Inr_iff with_output_def split: if_splits)
qed

lemma seal_graph_refs:
  assumes "seal_graph env dw expires rexp g response c fp reserved = Inr s"
  shows "\<exists>m f q out. sl_graph s = with_refs m f q out g"
proof -
  let ?s = "\<lparr>sl_graph = g, sl_blobs = [], sl_replay = None\<rparr>"
  show ?thesis
  proof (cases "pc_failed c")
    case True
    then have "sl_graph s = g" using assms by (auto simp: seal_graph_def)
    moreover have "map_option (\<lambda>r. r\<lparr>rr_query_ref := (case ig_retrieval g of Some r \<Rightarrow> rr_query_ref r)\<rparr>) (ig_retrieval g) = ig_retrieval g"
      by (cases "ig_retrieval g") simp_all
    ultimately have "sl_graph s = with_refs (is_messages_ref (ia_input (ig_interaction g)))
        (is_response_format_ref (ia_input (ig_interaction g))) (case ig_retrieval g of Some r \<Rightarrow> rr_query_ref r)
        (ga_output_ref (last (ig_attempts g))) g"
      by (simp add: with_refs_def)
    then show ?thesis by (intro exI)
  next
    case False
    then obtain messages query s1 s2 where steps: "seal_input env dw expires messages c ?s = Inr s1"
        "seal_retrieval env dw expires query s1 = Inr s2"
        "seal_output env dw expires rexp response (pc_output c) fp reserved s2 = Inr s"
      using assms by (auto simp: seal_graph_def bindE_Inr_iff split: option.splits)
    obtain m f where "sl_graph s1 = g\<lparr>ig_interaction := (ig_interaction g)\<lparr>ia_input :=
        (ia_input (ig_interaction g))\<lparr>is_messages_ref := m, is_response_format_ref := f\<rparr>\<rparr>\<rparr>"
      by (rule seal_input_refs [OF steps(1)]) simp
    moreover obtain q where "sl_graph s2 = (sl_graph s1)\<lparr>ig_retrieval := map_option (\<lambda>r. r\<lparr>rr_query_ref := q\<rparr>) (ig_retrieval (sl_graph s1))\<rparr>"
      by (rule seal_retrieval_refs [OF steps(2)])
    moreover obtain out where "sl_graph s = (sl_graph s2)\<lparr>ig_attempts := with_output out (ig_attempts (sl_graph s2))\<rparr>"
      by (rule seal_output_refs [OF steps(3)])
    ultimately have "sl_graph s = with_refs m f q out g" by (simp add: with_refs_def)
    then show ?thesis by (intro exI)
  qed
qed

text \<open>The records of a graph, as its events announce them.\<close>

lemma refs_record_types: "map fst (graph_records (with_refs m f q out g)) = map fst (graph_records g)"
  by (simp add: graph_records_def with_refs_def comp_def split: option.split)

lemma with_records_events:
  "map fst rs' = map fst rs \<Longrightarrow> with_records (graph_events dw x n rs) rs' = graph_events dw x n rs'"
proof (induction rs arbitrary: rs' n)
  case (Cons r rs)
  then obtain r' rest where "rs' = r' # rest" "fst r' = fst r" "map fst rest = map fst rs" by (cases rs') auto
  with Cons.IH [of rest "Suc n"] show ?case by (cases r; cases r') (simp add: with_records_def new_event_def)
qed (simp add: with_records_def)

lemma graph_events_data: "map (\<lambda>e. (en_event_type e, en_data e)) (graph_events dw x n rs) = rs"
  by (induction dw x n rs rule: graph_events.induct) (simp_all add: new_event_def)

lemma graph_events_envelopes:
  "e \<in> set (graph_events dw x n rs) \<Longrightarrow>
     en_tenant_id e = ia_tenant_id x \<and> en_trace_id e = ia_trace_id x \<and> en_producer e = Gateway"
  by (induction dw x n rs rule: graph_events.induct) (auto simp: new_event_def)

definition saved_expiry :: "('k, 's) persistence_env \<Rightarrow> draws \<Rightarrow> persistence_content \<Rightarrow> interaction_graph \<Rightarrow> instant" where
  "saved_expiry env dw c g = dw_clock dw 0 + retention_of env (ia_policy (policy_stamp env c (ig_interaction g))) * 1000000"

definition stamped :: "('k, 's) persistence_env \<Rightarrow> persistence_content \<Rightarrow> interaction_graph \<Rightarrow> interaction_graph" where
  "stamped env c g = g\<lparr>ig_interaction := policy_stamp env c (ig_interaction g)\<rparr>"

text \<open>Everything was committed, or nothing was and the events went to the fallback sink.\<close>

lemma save_cases:
  assumes "db_working (ps_db st) = None"
  obtains (stored) s rexp es n tb t where
      "seal_graph env dw (saved_expiry env dw c g) rexp (stamped env c g) response c fp reserved = Inr s"
      "transaction (store_graph (ia_tenant_id (ig_interaction g)) (saved_expiry env dw c g) (pe_replay_capacity env)
         (pe_outbox_pending_limit env) s es) (ps_db st) = (Inr n, \<lparr>db_committed = tb, db_working = None\<rparr>)"
      "save env dw g response c fp reserved st = ((ig_interaction (sl_graph s), sl_replay s),
         refresh_metrics t (count_metric ''dropped_events'' n (st\<lparr>ps_db := \<lparr>db_committed = tb, db_working = None\<rparr>\<rparr>)))"
      "es = graph_events dw (policy_stamp env c (ig_interaction g)) 0 (graph_records (sl_graph s))"
    | (failed) es G where
      "save env dw g response c fp reserved st = ((policy_stamp env c (ig_interaction g), None),
         emit_degraded (pe_emit env) es (record_failure st))"
      "es = graph_events dw (policy_stamp env c (ig_interaction g)) 0 (graph_records G)"
      "\<exists>m f q out. G = with_refs m f q out (stamped env c g)"
proof -
  let ?x = "policy_stamp env c (ig_interaction g)"
  let ?g = "stamped env c g"
  let ?e = "saved_expiry env dw c g"
  let ?re = "min ?e (dw_clock dw 1 + pe_replay_ttl_seconds env * 1000000)"
  let ?es = "graph_events dw ?x 0 (graph_records ?g)"
  have tenant: "ia_tenant_id ?x = ia_tenant_id (ig_interaction g)" by (simp add: policy_stamp_def)
  have unfolded: "save env dw g response c fp reserved st =
      (case save_graph env dw ?g response c fp reserved ?es (ps_db st) of
        (Inr (s, dropped), _, db') \<Rightarrow> ((ig_interaction (sl_graph s), sl_replay s),
           refresh_metrics (dw_now dw (length ?es)) (count_metric ''dropped_events'' dropped (st\<lparr>ps_db := db'\<rparr>)))
      | (Inl _, events', db') \<Rightarrow> ((?x, None), emit_degraded (pe_emit env) events' (record_failure (st\<lparr>ps_db := db'\<rparr>))))"
    unfolding save_def Let_def stamped_def ..
  have same: "st\<lparr>ps_db := ps_db st\<rparr> = st" by simp
  show ?thesis
  proof (cases "seal_graph env dw ?e ?re ?g response c fp reserved")
    case (Inl z)
    then have "save_graph env dw ?g response c fp reserved ?es (ps_db st) = (Inl z, ?es, ps_db st)"
      unfolding save_graph_def saved_expiry_def stamped_def by (simp add: Let_def)
    then have out: "save env dw g response c fp reserved st = ((?x, None), emit_degraded (pe_emit env) ?es (record_failure st))"
      using unfolded same by simp
    have "?g = with_refs (is_messages_ref (ia_input ?x)) (is_response_format_ref (ia_input ?x))
        (case ig_retrieval g of Some r \<Rightarrow> rr_query_ref r) (ga_output_ref (last (ig_attempts g))) ?g"
      by (cases "ig_retrieval g") (simp_all add: with_refs_def stamped_def)
    then show ?thesis by (intro failed [OF out refl] exI)
  next
    case (Inr s)
    let ?es' = "graph_events dw ?x 0 (graph_records (sl_graph s))"
    let ?op = "store_graph (ia_tenant_id (ig_interaction g)) ?e (pe_replay_capacity env) (pe_outbox_pending_limit env) s ?es'"
    note refs = seal_graph_refs [OF Inr]
    then have types: "map fst (graph_records (sl_graph s)) = map fst (graph_records ?g)"
      by (elim exE) (simp add: refs_record_types)
    have graph: "save_graph env dw ?g response c fp reserved ?es (ps_db st) =
        (case transaction ?op (ps_db st) of (Inl e, db') \<Rightarrow> (Inl e, ?es', db') | (Inr dropped, db') \<Rightarrow> (Inr (s, dropped), ?es', db'))"
      using Inr tenant unfolding with_records_events [OF types, symmetric] save_graph_def saved_expiry_def stamped_def
      by (simp add: Let_def)
    let ?c = "db_committed (ps_db st)"
    have start: "rows_are (tb_rows ?c) (tb_subjects ?c) ?c" by (simp add: rows_are_def)
    show ?thesis
    proof (rule transaction_rule [OF store_graph_rows [where s = s] assms start])
      fix e assume "transaction ?op (ps_db st) = (Inl e, ps_db st)"
      then have out: "save env dw g response c fp reserved st = ((?x, None), emit_degraded (pe_emit env) ?es' (record_failure st))"
        using unfolded graph same by simp
      show ?thesis by (rule failed [OF out refl refs])
    next
      fix n tb assume run: "transaction ?op (ps_db st) = (Inr n, \<lparr>db_committed = tb, db_working = None\<rparr>)"
      then have out: "save env dw g response c fp reserved st = ((ig_interaction (sl_graph s), sl_replay s),
          refresh_metrics (dw_now dw (length ?es)) (count_metric ''dropped_events'' n (st\<lparr>ps_db := \<lparr>db_committed = tb, db_working = None\<rparr>\<rparr>)))"
        using unfolded graph by simp
      show ?thesis by (rule stored [OF Inr run out refl])
    qed
  qed
qed

lemma transaction_committed:
  fixes db :: database
  assumes "triple P f Q E" and "db_working db = None" and "P (db_committed db)"
    and "transaction f db = (Inr x, \<lparr>db_committed = tb, db_working = None\<rparr>)"
  shows "Q x tb"
  by (rule transaction_rule [OF assms(1-3)]) (use assms(4) in simp_all)

lemma emit_degraded_state:
  "ps_db (emit_degraded emit es st) = ps_db st" "ps_failures (emit_degraded emit es st) = ps_failures st"
  "ps_sink (emit_degraded emit es st) = fold (\<lambda>e k. snd (emit k e)) es (ps_sink st)"
proof -
  have "ps_db (emit_degraded emit es st) = ps_db st \<and> ps_failures (emit_degraded emit es st) = ps_failures st \<and>
      ps_sink (emit_degraded emit es st) = fold (\<lambda>e k. snd (emit k e)) es (ps_sink st)"
  proof (induction es arbitrary: st)
    case (Cons e es)
    then show ?case by (simp add: emit_degraded_def emit_degraded_event_def count_metric_def Let_def)
  qed (simp add: emit_degraded_def)
  then show "ps_db (emit_degraded emit es st) = ps_db st" "ps_failures (emit_degraded emit es st) = ps_failures st"
    "ps_sink (emit_degraded emit es st) = fold (\<lambda>e k. snd (emit k e)) es (ps_sink st)" by simp_all
qed

lemma record_failure_state [simp]:
  "ps_db (record_failure st) = ps_db st" "ps_failures (record_failure st) = Suc (ps_failures st)"
  "ps_sink (record_failure st) = ps_sink st"
  by (simp_all add: record_failure_def count_metric_def)

lemma metrics_state [simp]:
  "ps_db (refresh_metrics t st) = ps_db st" "ps_failures (refresh_metrics t st) = ps_failures st"
  "ps_sink (refresh_metrics t st) = ps_sink st" "ps_db (count_metric m n st) = ps_db st"
  "ps_failures (count_metric m n st) = ps_failures st" "ps_sink (count_metric m n st) = ps_sink st"
  by (simp_all add: refresh_metrics_def count_metric_def Let_def)

section \<open>Confidential content\<close>

text \<open>The records of a graph before anything was sealed carry no reference.\<close>

definition unreferenced :: "interaction_graph \<Rightarrow> bool" where
  "unreferenced g \<longleftrightarrow> (\<forall>r \<in> set (graph_rows g). clear_record r = r)"

lemma unreferenced_parts:
  assumes "unreferenced g"
  shows "is_messages_ref (ia_input (ig_interaction g)) = None"
    "is_response_format_ref (ia_input (ig_interaction g)) = None"
    "ig_retrieval g = Some run \<Longrightarrow> rr_query_ref run = None"
    "a \<in> set (ig_attempts g) \<Longrightarrow> ga_output_ref a = None"
proof -
  have x: "clear_record (RInteraction (ig_interaction g)) = RInteraction (ig_interaction g)"
    using assms unfolding unreferenced_def graph_rows_def by simp
  then have eq: "ig_interaction g\<lparr>ia_input := (ia_input (ig_interaction g))\<lparr>is_messages_ref := None, is_response_format_ref := None\<rparr>\<rparr> =
      ig_interaction g" by simp
  from arg_cong [OF eq, of "\<lambda>x. is_messages_ref (ia_input x)"]
  show "is_messages_ref (ia_input (ig_interaction g)) = None" by simp
  from arg_cong [OF eq, of "\<lambda>x. is_response_format_ref (ia_input x)"]
  show "is_response_format_ref (ia_input (ig_interaction g)) = None" by simp
  show "rr_query_ref run = None" if "ig_retrieval g = Some run"
  proof -
    have "clear_record (RRetrieval run) = RRetrieval run"
      using assms that unfolding unreferenced_def graph_rows_def by simp
    then have e: "run\<lparr>rr_query_ref := None, rr_candidates := map (\<lambda>c. c\<lparr>ce_content_ref := None\<rparr>) (rr_candidates run)\<rparr> = run" by simp
    from arg_cong [OF e, of rr_query_ref] show ?thesis by simp
  qed
  show "ga_output_ref a = None" if "a \<in> set (ig_attempts g)"
  proof -
    have "RAttempt a \<in> set (graph_rows g)" using that by (simp add: graph_rows_def)
    then have "clear_record (RAttempt a) = RAttempt a" using assms unfolding unreferenced_def by blast
    then have e: "a\<lparr>ga_output_ref := None, ga_tool_calls := map (\<lambda>c. c\<lparr>tc_arguments_ref := None, tc_result_ref := None\<rparr>) (ga_tool_calls a)\<rparr> = a" by simp
    from arg_cong [OF e, of ga_output_ref] show ?thesis by simp
  qed
qed

lemma clear_id:
  "is_messages_ref s = None \<Longrightarrow> is_response_format_ref s = None \<Longrightarrow>
     s\<lparr>is_messages_ref := None, is_response_format_ref := None\<rparr> = s" for s :: input_summary
  by (cases s) simp

lemma stamped_unreferenced:
  assumes "unreferenced g"
  shows "unreferenced (stamped env c g)"
  unfolding unreferenced_def
proof
  fix r assume r: "r \<in> set (graph_rows (stamped env c g))"
  let ?x = "policy_stamp env c (ig_interaction g)"
  have "ia_input ?x = ia_input (ig_interaction g)" by (simp add: policy_stamp_def)
  then have "clear_record (RInteraction ?x) = RInteraction (?x\<lparr>ia_input := ia_input ?x\<rparr>)"
    using clear_id [OF unreferenced_parts(1,2) [OF assms]] by simp
  also have "\<dots> = RInteraction ?x" by (cases ?x) simp
  finally have "clear_record (RInteraction ?x) = RInteraction ?x" .
  moreover have "r = RInteraction ?x \<or> r \<in> set (graph_rows g)"
    using r by (auto simp: graph_rows_def stamped_def)
  ultimately show "clear_record r = r" using assms unfolding unreferenced_def by blast
qed

lemma sealed_graph_unchanged:
  assumes "seal_graph env dw expires rexp g response c fp reserved = Inr s" and "unreferenced g"
    and "\<not> pd_content_logging_allowed (ia_policy (ig_interaction g))"
  shows "sl_graph s = g"
proof (cases "pc_failed c")
  case True
  then show ?thesis using assms(1) seal_graph_sealed by blast
next
  case False
  let ?s = "\<lparr>sl_graph = g, sl_blobs = [], sl_replay = None\<rparr>"
  note clear = unreferenced_parts [OF assms(2)]
  obtain m q s1 s2 where steps: "seal_input env dw expires m c ?s = Inr s1"
      "seal_retrieval env dw expires q s1 = Inr s2"
      "seal_output env dw expires rexp response (pc_output c) fp reserved s2 = Inr s"
    using assms(1) False by (auto simp: seal_graph_def bindE_Inr_iff split: option.splits)
  have one: "sl_graph s1 = g"
    using steps(1) assms(3) clear_id [OF clear(1,2)] by (auto simp: seal_input_def seal_when_def Let_def)
  have two: "sl_graph s2 = g"
  proof (cases "ig_retrieval g")
    case None
    then show ?thesis using steps(2) one by (simp add: seal_retrieval_def)
  next
    case (Some run)
    have "run\<lparr>rr_query_ref := None\<rparr> = run" using clear(3) [OF Some] by (cases run) simp
    then have "g\<lparr>ig_retrieval := Some (run\<lparr>rr_query_ref := None\<rparr>)\<rparr> = g" using Some by (cases g) simp
    then show ?thesis using steps(2) one assms(3) Some by (auto simp: seal_retrieval_def seal_when_def)
  qed
  show ?thesis
  proof (cases "pc_output c = None \<or> response = None")
    case True
    then show ?thesis using steps(3) two by (cases response; cases "pc_output c") (auto simp: seal_output_def)
  next
    case False
    then obtain out r where io: "pc_output c = Some out" "response = Some r" by auto
    have ne: "ig_attempts g \<noteq> []" using steps(3) io two by (auto simp: seal_output_def)
    have "(last (ig_attempts g))\<lparr>ga_output_ref := None\<rparr> = last (ig_attempts g)"
      using clear(4) [OF last_in_set [OF ne]] by (cases "last (ig_attempts g)") simp
    then have "butlast (ig_attempts g) @ [(last (ig_attempts g))\<lparr>ga_output_ref := None\<rparr>] = ig_attempts g"
      using ne by simp
    then have "g\<lparr>ig_attempts := butlast (ig_attempts g) @ [(last (ig_attempts g))\<lparr>ga_output_ref := None\<rparr>]\<rparr> = g"
      by (cases g) simp
    then show ?thesis using steps(3) io two ne assms(3)
      by (auto simp: seal_output_def seal_when_def Let_def bindE_Inr_iff)
  qed
qed

text \<open>The payloads that are added.\<close>

lemma payloads_subset_shrinking: "shrinking (\<lambda>tb. set (tb_payloads tb) \<subseteq> X)"
  by (auto simp: shrinking_def)

lemma store_graph_payloads:
  assumes "set (sl_blobs s) \<subseteq> X"
  shows "triple (\<lambda>tb. set (tb_payloads tb) \<subseteq> X) (store_graph t e n limit s es)
    (\<lambda>_ tb. set (tb_payloads tb) \<subseteq> X) (\<lambda>_. True)"
proof -
  have "keeps (\<lambda>tb. set (tb_payloads tb) \<subseteq> X) (put_record t r e)" for r
    by (rule triple_put_record) simp_all
  moreover have "keeps (\<lambda>tb. set (tb_payloads tb) \<subseteq> X) (put_payload b)" if "b \<in> set (sl_blobs s)" for b
    by (rule triple_put_payload) (use that assms in auto)
  ultimately show ?thesis unfolding store_graph_def
    by (intro triple_bind [OF triple_each] triple_bind [OF shrinking_store_replay [OF payloads_subset_shrinking]]
        enqueue_keeps) (blast | simp)+
qed

section \<open>Properties\<close>

lemma save_outcome:
  assumes "db_working (ps_db st) = None" and "platform (db_committed (ps_db st))"
    and "save env dw g response c fp reserved st = ((x, q), st')"
  shows "\<exists>es m f rq out. es = graph_events dw (policy_stamp env c (ig_interaction g)) 0
        (graph_records (with_refs m f rq out (stamped env c g))) \<and>
     (x = ig_interaction (with_refs m f rq out (stamped env c g)) \<and>
        tb_rows (db_committed (ps_db st')) = tb_rows (db_committed (ps_db st)) @
          map (\<lambda>r. new_stored_row (ia_tenant_id (policy_stamp env c (ig_interaction g))) r (saved_expiry env dw c g))
            (graph_rows (with_refs m f rq out (stamped env c g))) \<and>
        platform (db_committed (ps_db st')) \<and> queued_events es (db_committed (ps_db st')) \<and>
        outbox_grown (tb_outbox (db_committed (ps_db st))) es (db_committed (ps_db st')) \<and> db_working (ps_db st') = None \<and>
        ps_failures st' = ps_failures st \<and> ps_sink st' = ps_sink st \<or>
      x = policy_stamp env c (ig_interaction g) \<and> q = None \<and> ps_db st' = ps_db st \<and> ps_failures st' = Suc (ps_failures st) \<and>
        ps_sink st' = fold (\<lambda>e k. snd (pe_emit env k e)) es (ps_sink st))"
proof (cases rule: save_cases [OF assms(1), of env dw c g response fp reserved, case_names stored failed])
  case (stored s rexp es n tb t)
  let ?c = "db_committed (ps_db st)"
  have start: "(rows_are (tb_rows ?c) (tb_subjects ?c) ?c \<and> platform ?c) \<and> tb_outbox ?c = tb_outbox ?c"
    using assms(2) by (simp add: rows_are_def)
  have tenant: "ia_tenant_id (policy_stamp env c (ig_interaction g)) = ia_tenant_id (ig_interaction g)"
    by (simp add: policy_stamp_def)
  note both = triple_conj [OF triple_conj [OF store_graph_rows
      store_graph_platform [OF seal_graph_sealed [OF stored(1), THEN conjunct2, THEN conjunct1]]] store_graph_outbox]
  have post: "(rows_are (tb_rows ?c @ map (\<lambda>r. new_stored_row (ia_tenant_id (ig_interaction g)) r (saved_expiry env dw c g))
      (graph_rows (sl_graph s))) (tb_subjects ?c) tb \<and> platform tb \<and> queued_events es tb) \<and> outbox_grown (tb_outbox ?c) es tb"
    by (rule transaction_committed [OF both assms(1) start stored(2)])
  obtain m f rq out where refs: "sl_graph s = with_refs m f rq out (stamped env c g)"
    using seal_graph_refs [OF stored(1)] by blast
  have "x = ig_interaction (sl_graph s)" "ps_db st' = \<lparr>db_committed = tb, db_working = None\<rparr>"
      "ps_failures st' = ps_failures st" "ps_sink st' = ps_sink st"
    using stored(3) assms(3) by auto
  then show ?thesis using post stored(4) unfolding refs tenant rows_are_def
    by (intro exI [of _ es] exI [of _ m] exI [of _ f] exI [of _ rq] exI [of _ out]) simp
next
  case (failed es G)
  then have "x = policy_stamp env c (ig_interaction g)" "q = None" "st' = emit_degraded (pe_emit env) es (record_failure st)"
    using assms(3) by auto
  moreover obtain m f rq out where "G = with_refs m f rq out (stamped env c g)" using failed(3) by blast
  ultimately show ?thesis using failed(2)
    by (intro exI [of _ es] exI [of _ m] exI [of _ f] exI [of _ rq] exI [of _ out]) (simp add: emit_degraded_state)
qed

text \<open>C10. Every run of the persistence keeps its tables sound: whatever interactions, shadow
  attempts, deletions and sweeps come in, in whatever order and with whatever outcome, no
  transaction stays open, the declared keys hold, and every replay entry points to a stored response
  of its own interaction that no other entry uses.\<close>

theorem runs_stay_sound:
  assumes "persistence_run env st0 st" and "ps_db st0 = empty_database"
  shows "db_working (ps_db st) = None \<and> schema (db_committed (ps_db st)) \<and> own_responses (db_committed (ps_db st))"
  using run_sound [OF assms] by (simp add: sound_def platform_def)

text \<open>C5. Erasure is final: once an interaction is erased, no later interaction, shadow attempt,
  deletion or sweep brings back a payload, a replay entry or a reference of it.\<close>

theorem erased_forever:
  assumes "persistence_run env st st'" and "db_working (ps_db st) = None"
    and "schema (db_committed (ps_db st))" and "erased t i (db_committed (ps_db st))"
  shows "erased t i (db_committed (ps_db st'))"
  using kept_settled.run_held(2) [OF assms(1,2), of t i] assms(3,4) by (simp add: settled_def)

text \<open>C2. A privacy deletion completes and erases, in every state a run can reach: deleting an
  interaction that is stored always succeeds; afterwards its tombstone is there, no payload,
  replay entry or reference of it is left, its deletion event is in the outbox, everything of other
  interactions is as it was and nothing was emitted on the degraded path; deleting it again answers
  with the first request. An unknown interaction changes nothing.\<close>

theorem delete_erases:
  assumes "persistence_run env st0 st" and "ps_db st0 = empty_database"
  shows "case interaction_at (db_committed (ps_db st)) t i of
      None \<Rightarrow> delete env dw t i actor st = (Inr None, st)
    | Some x \<Rightarrow> (\<exists>d st'. delete env dw t i actor st = (Inr (Some (x, d)), st') \<and>
        platform (db_committed (ps_db st')) \<and> erased t i (db_committed (ps_db st')) \<and>
        db_working (ps_db st') = None \<and> ps_failures st' = ps_failures st \<and> ps_sink st' = ps_sink st \<and>
        dr_deletion_request_id d \<in> ot_event_id ` set (tb_outbox (db_committed (ps_db st'))) \<and>
        apart t {i} (db_committed (ps_db st)) (db_committed (ps_db st')) \<and>
        (\<exists>d'. map_of (tb_tombstones (db_committed (ps_db st'))) (t, i) = Some d' \<and> d = d') \<and>
        (\<forall>d'. map_of (tb_tombstones (db_committed (ps_db st))) (t, i) = Some d' \<longrightarrow> d = d'))"
  by (rule delete_effect) (use run_sound [OF assms] in \<open>simp_all add: sound_def\<close>)

text \<open>C9. A subject's deletion completes, erases and lasts, in every state a run can reach: every
  interaction of the subject that was not deleted yet is erased, with an event of its own and one for
  the subject in the outbox and nothing of other interactions touched; and in every later state,
  whatever was saved, deleted or swept in between, these interactions are still erased and no
  interaction of that subject can be stored.\<close>

theorem delete_subject_erases:
  assumes "persistence_run env st0 st" and "ps_db st0 = empty_database"
  shows "\<exists>d deleted st'. delete_subject env dw t p actor st = (Inr (d, deleted), st') \<and>
    platform (db_committed (ps_db st')) \<and> subjects_scoped (db_committed (ps_db st')) \<and>
    db_working (ps_db st') = None \<and> ps_failures st' = ps_failures st \<and> ps_sink st' = ps_sink st \<and>
    map fst deleted = subject_interactions (db_committed (ps_db st)) t p \<and>
    (\<forall>x \<in> fst ` set deleted. erased t (ia_interaction_id x) (db_committed (ps_db st'))) \<and>
    apart t (ia_interaction_id ` fst ` set deleted) (db_committed (ps_db st)) (db_committed (ps_db st')) \<and>
    (\<forall>e \<in> insert d (snd ` set deleted).
       dr_deletion_request_id e \<in> ot_event_id ` set (tb_outbox (db_committed (ps_db st')))) \<and>
    (\<forall>st''. persistence_run env st' st'' \<longrightarrow>
       (\<forall>x \<in> fst ` set deleted. erased t (ia_interaction_id x) (db_committed (ps_db st''))) \<and>
       (\<forall>x e. ia_subject x = Some p \<longrightarrow> \<not> is_ok (fst (transaction (put_record t (RInteraction x) e) (ps_db st'')))))"
proof -
  have "sound st" by (rule run_sound [OF assms])
  then obtain d deleted st' where del: "delete_subject env dw t p actor st = (Inr (d, deleted), st')"
    and closed: "db_working (ps_db st') = None" and sound: "platform (db_committed (ps_db st'))"
      "barred {(t, p)} (db_committed (ps_db st'))"
    and gone: "\<forall>x \<in> fst ` set deleted. erased t (ia_interaction_id x) (db_committed (ps_db st'))"
    and rest: "platform (db_committed (ps_db st')) \<and> subjects_scoped (db_committed (ps_db st')) \<and>
      db_working (ps_db st') = None \<and> ps_failures st' = ps_failures st \<and> ps_sink st' = ps_sink st \<and>
      map fst deleted = subject_interactions (db_committed (ps_db st)) t p \<and>
      (\<forall>x \<in> fst ` set deleted. erased t (ia_interaction_id x) (db_committed (ps_db st'))) \<and>
      apart t (ia_interaction_id ` fst ` set deleted) (db_committed (ps_db st)) (db_committed (ps_db st')) \<and>
      (\<forall>e \<in> insert d (snd ` set deleted).
         dr_deletion_request_id e \<in> ot_event_id ` set (tb_outbox (db_committed (ps_db st'))))"
    using delete_subject_effect [of st env dw t p actor] unfolding sound_def barred_def by auto
  have "(\<forall>x \<in> fst ` set deleted. erased t (ia_interaction_id x) (db_committed (ps_db st''))) \<and>
      (\<forall>x e. ia_subject x = Some p \<longrightarrow> \<not> is_ok (fst (transaction (put_record t (RInteraction x) e) (ps_db st''))))"
    if run: "persistence_run env st' st''" for st''
  proof
    show "\<forall>x \<in> fst ` set deleted. erased t (ia_interaction_id x) (db_committed (ps_db st''))"
      using kept_settled.run_held(2) [OF run closed] gone sound(1) unfolding settled_def platform_def by blast
    have "map_of (tb_subjects (db_committed (ps_db st''))) (t, p) \<noteq> None" "db_working (ps_db st'') = None"
      using kept_subjects.run_held [OF run closed sound(2)] by (simp_all add: barred_def)
    then show "\<forall>x e. ia_subject x = Some p \<longrightarrow> \<not> is_ok (fst (transaction (put_record t (RInteraction x) e) (ps_db st'')))"
      using barred_refused by blast
  qed
  with del rest show ?thesis by blast
qed

text \<open>C6. Saving an interaction is all or nothing. Its records are the interaction with the
  redaction's stamp, its start, its retrieval, its route and every attempt, changed in nothing but the
  references of the four sealed texts, and each of them has its event, in this order. Either all
  these records, and no others, are appended to the tables as one group that expires at the policy's
  time, the outbox grows by rows of these events only and has every one that may not be dropped, and
  nothing is emitted on the side; or the database is exactly as it was, no replay entry is returned,
  the failure is counted, and each of these events was offered once, in order, to the fallback sink.\<close>

theorem save_all_or_nothing:
  assumes "db_working (ps_db st) = None" and "platform (db_committed (ps_db st))"
    and "save env dw g response c fp reserved st = ((x, q), st')"
  shows "\<exists>m f rq out es y. y = (policy_stamp env c (ig_interaction g))\<lparr>ia_input :=
       (ia_input (ig_interaction g))\<lparr>is_messages_ref := m, is_response_format_ref := f\<rparr>\<rparr> \<and>
     map (\<lambda>e. (en_event_type e, en_data e)) es =
       (InteractionStarted, StartedData (ig_started g)) #
       (case ig_retrieval g of None \<Rightarrow> [] | Some r \<Rightarrow> [(RetrievalCompleted, RetrievalData (r\<lparr>rr_query_ref := rq\<rparr>))]) @
       (case ig_route g of None \<Rightarrow> [] | Some d \<Rightarrow> [(RouteDecided, RouteData d)]) @
       map (\<lambda>a. (attempt_event_type a, AttemptData a)) (with_output out (ig_attempts g)) @
       [(InteractionCompleted, InteractionData y)] \<and>
     (\<forall>e \<in> set es. en_tenant_id e = ia_tenant_id y \<and> en_trace_id e = ia_trace_id y \<and> en_producer e = Gateway) \<and>
     db_working (ps_db st') = None \<and>
     (x = y \<and>
       tb_rows (db_committed (ps_db st')) = tb_rows (db_committed (ps_db st)) @
         map (\<lambda>r. new_stored_row (ia_tenant_id y) r (saved_expiry env dw c g))
          (RInteraction y # RStarted (ig_started g) #
           (case ig_retrieval g of None \<Rightarrow> [] | Some r \<Rightarrow> [RRetrieval (r\<lparr>rr_query_ref := rq\<rparr>)]) @
           (case ig_route g of None \<Rightarrow> [] | Some d \<Rightarrow> [RRoute d]) @
           map RAttempt (with_output out (ig_attempts g))) \<and>
       platform (db_committed (ps_db st')) \<and> queued_events es (db_committed (ps_db st')) \<and>
       outbox_grown (tb_outbox (db_committed (ps_db st))) es (db_committed (ps_db st')) \<and>
       ps_failures st' = ps_failures st \<and> ps_sink st' = ps_sink st \<or>
      x = policy_stamp env c (ig_interaction g) \<and> q = None \<and> ps_db st' = ps_db st \<and>
       ps_failures st' = Suc (ps_failures st) \<and>
       ps_sink st' = fold (\<lambda>e k. snd (pe_emit env k e)) es (ps_sink st))"
proof -
  let ?c = "db_committed (ps_db st)" and ?x = "policy_stamp env c (ig_interaction g)"
  obtain es m f rq out where es: "es = graph_events dw ?x 0 (graph_records (with_refs m f rq out (stamped env c g)))"
    and outcome: "x = ig_interaction (with_refs m f rq out (stamped env c g)) \<and>
        tb_rows (db_committed (ps_db st')) = tb_rows ?c @ map (\<lambda>r. new_stored_row (ia_tenant_id ?x) r (saved_expiry env dw c g))
          (graph_rows (with_refs m f rq out (stamped env c g))) \<and>
        platform (db_committed (ps_db st')) \<and> queued_events es (db_committed (ps_db st')) \<and>
        outbox_grown (tb_outbox ?c) es (db_committed (ps_db st')) \<and> db_working (ps_db st') = None \<and>
        ps_failures st' = ps_failures st \<and> ps_sink st' = ps_sink st \<or>
      x = ?x \<and> q = None \<and> ps_db st' = ps_db st \<and> ps_failures st' = Suc (ps_failures st) \<and>
        ps_sink st' = fold (\<lambda>e k. snd (pe_emit env k e)) es (ps_sink st)"
    using save_outcome [OF assms] by (elim exE conjE) (rule that)
  let ?y = "ig_interaction (with_refs m f rq out (stamped env c g))"
  have y: "?y = ?x\<lparr>ia_input := (ia_input (ig_interaction g))\<lparr>is_messages_ref := m, is_response_format_ref := f\<rparr>\<rparr>"
    by (simp add: with_refs_def stamped_def policy_stamp_def)
  have scope: "ia_tenant_id ?x = ia_tenant_id ?y" "ia_trace_id ?x = ia_trace_id ?y"
    by (simp_all add: with_refs_def stamped_def)
  have data: "map (\<lambda>e. (en_event_type e, en_data e)) es =
      (InteractionStarted, StartedData (ig_started g)) #
      (case ig_retrieval g of None \<Rightarrow> [] | Some r \<Rightarrow> [(RetrievalCompleted, RetrievalData (r\<lparr>rr_query_ref := rq\<rparr>))]) @
      (case ig_route g of None \<Rightarrow> [] | Some d \<Rightarrow> [(RouteDecided, RouteData d)]) @
      map (\<lambda>a. (attempt_event_type a, AttemptData a)) (with_output out (ig_attempts g)) @
      [(InteractionCompleted, InteractionData ?y)]"
    unfolding es graph_events_data by (simp add: graph_records_def with_refs_def stamped_def split: option.split)
  have rows: "graph_rows (with_refs m f rq out (stamped env c g)) =
      RInteraction ?y # RStarted (ig_started g) #
      (case ig_retrieval g of None \<Rightarrow> [] | Some r \<Rightarrow> [RRetrieval (r\<lparr>rr_query_ref := rq\<rparr>)]) @
      (case ig_route g of None \<Rightarrow> [] | Some d \<Rightarrow> [RRoute d]) @
      map RAttempt (with_output out (ig_attempts g))"
    by (simp add: graph_rows_def with_refs_def stamped_def split: option.split)
  have envelopes: "\<forall>e \<in> set es. en_tenant_id e = ia_tenant_id ?y \<and> en_trace_id e = ia_trace_id ?y \<and> en_producer e = Gateway"
    unfolding es using graph_events_envelopes scope by metis
  have closed: "db_working (ps_db st') = None" using outcome assms(1) by auto
  show ?thesis
  proof (rule exI [of _ m], rule exI [of _ f], rule exI [of _ rq], rule exI [of _ out], rule exI [of _ es], rule exI [of _ ?y],
      intro conjI)
  qed (rule y, rule data, rule envelopes, rule closed, use outcome [unfolded rows scope] in blast)
qed

text \<open>C7. Content is stored only with permission: when the policy forbids content logging or a
  redaction failed, no record that is saved holds a reference, and the only payload that can be
  stored is the response of the replay entry, and after a failed redaction not even that. The graph
  that is handed over holds no reference yet (\<open>unreferenced\<close>), as the gateway builds it.\<close>

theorem save_confidential:
  assumes "db_working (ps_db st) = None" and "unreferenced g"
    and "pc_failed c \<or> \<not> pd_content_logging_allowed (ia_policy (ig_interaction g))"
  shows "(\<forall>r \<in> set (tb_rows (db_committed (ps_db (snd (save env dw g response c fp reserved st))))).
       r \<in> set (tb_rows (db_committed (ps_db st))) \<or> clear_record (sw_data r) = sw_data r) \<and>
     (\<forall>p \<in> set (tb_payloads (db_committed (ps_db (snd (save env dw g response c fp reserved st))))).
       p \<in> set (tb_payloads (db_committed (ps_db st))) \<or> ep_field p = ''replay'' \<and> \<not> pc_failed c)"
proof (cases rule: save_cases [OF assms(1), of env dw c g response fp reserved, case_names stored failed])
  case (stored s rexp es n tb t)
  let ?c = "db_committed (ps_db st)"
  let ?X = "set (tb_payloads ?c) \<union> set (sl_blobs s)"
  note sealed = seal_graph_sealed [OF stored(1)]
  have fresh: "unreferenced (stamped env c g)"
    by (rule stamped_unreferenced [OF assms(2)])
  have log: "pd_content_logging_allowed (ia_policy (ig_interaction (stamped env c g))) \<longleftrightarrow>
      pd_content_logging_allowed (ia_policy (ig_interaction g))"
    by (simp add: stamped_def policy_stamp_def)
  have "sl_graph s = stamped env c g \<and> (\<forall>b \<in> set (sl_blobs s). ep_field b = ''replay'' \<and> \<not> pc_failed c)"
  proof (cases "pc_failed c")
    case True
    then show ?thesis using sealed by simp
  next
    case False
    then have "\<not> pd_content_logging_allowed (ia_policy (ig_interaction (stamped env c g)))" using assms(3) log by simp
    then show ?thesis
      using False sealed_graph_unchanged [OF stored(1) fresh] sealed [THEN conjunct1] unfolding sealing_def by simp
  qed
  then have graph: "sl_graph s = stamped env c g"
    and blobs: "\<forall>b \<in> set (sl_blobs s). ep_field b = ''replay'' \<and> \<not> pc_failed c" by blast+
  have start: "rows_are (tb_rows ?c) (tb_subjects ?c) ?c \<and> set (tb_payloads ?c) \<subseteq> ?X" by (simp add: rows_are_def)
  have "set (sl_blobs s) \<subseteq> ?X" by blast
  note both = triple_conj [OF store_graph_rows store_graph_payloads [OF this]]
  have post: "rows_are (tb_rows ?c @ map (\<lambda>r. new_stored_row (ia_tenant_id (ig_interaction g)) r (saved_expiry env dw c g))
      (graph_rows (sl_graph s))) (tb_subjects ?c) tb \<and> set (tb_payloads tb) \<subseteq> ?X"
    by (rule transaction_committed [OF both assms(1) start stored(2)])
  have rows: "r \<in> set (tb_rows ?c) \<or> clear_record (sw_data r) = sw_data r" if "r \<in> set (tb_rows tb)" for r
    using that post fresh unfolding rows_are_def graph unreferenced_def by (auto simp: new_stored_row_def)
  have out: "ps_db (snd (save env dw g response c fp reserved st)) = \<lparr>db_committed = tb, db_working = None\<rparr>"
    using stored(3) by simp
  have "p \<in> set (tb_payloads ?c) \<or> ep_field p = ''replay'' \<and> \<not> pc_failed c" if "p \<in> set (tb_payloads tb)" for p
  proof -
    have "p \<in> ?X" by (rule subsetD [OF post [THEN conjunct2] that])
    then show ?thesis
    proof
      assume "p \<in> set (sl_blobs s)"
      from blobs [rule_format, OF this] show ?thesis by (rule disjI2)
    qed simp
  qed
  then show ?thesis unfolding out using rows by simp
next
  case (failed es G)
  then show ?thesis by (simp add: emit_degraded_state)
qed

text \<open>A response is read back from its payload.\<close>

lemma decrypt_encrypt:
  assumes "\<And>k n m a. ae_decrypt ae k n (ae_encrypt ae k n m a) a = Some m"
    and "encrypt ae c ref nonce content t i f e None = Inr b"
  shows "decrypt ae c b t i f None = Inr content" and "ep_expires_at b = e"
proof -
  obtain key a where "map_of (ci_ciphers c) (ci_key_version c) = Some key" "payload_aad t i (aad_field None f) = Inr a"
      "b = \<lparr>ep_reference = ref, ep_tenant = t, ep_interaction = i, ep_field = f, ep_nonce = nonce,
         ep_ciphertext = ae_encrypt ae key nonce content a, ep_key_version = ci_key_version c, ep_expires_at = e\<rparr>"
    using assms(2) by (auto simp: encrypt_def bindE_Inr_iff split: option.splits)
  then show "decrypt ae c b t i f None = Inr content" and "ep_expires_at b = e"
    by (simp_all add: decrypt_def assms(1))
qed

lemma store_graph_sole:
  assumes "sl_blobs s = bs @ [b]"
  shows "triple (\<lambda>_. True) (store_graph t e n limit s es) (\<lambda>_. sole b) (\<lambda>_. True)"
proof -
  have rec: "keeps (\<lambda>_. True) (put_record t r e)" for r by (rule triple_put_record) simp_all
  have payload: "keeps (\<lambda>_. True) (put_payload p)" for p by (rule triple_put_payload) simp_all
  have "triple (\<lambda>_. True) (put_payload b) (\<lambda>_. sole b) (\<lambda>_. True)"
  proof (rule triple_put_payload)
    fix tb assume "payload_keys b tb"
    from fresh_payload_key [OF this] show "sole b (tb\<lparr>tb_payloads := tb_payloads tb @ [b]\<rparr>)"
      unfolding sole_def by (metis (no_types, lifting) Un_iff empty_iff imageI list.set(1) set_ConsD set_append
          tables.select_convs(5) tables.surjective tables.update_convs(5))
  qed simp
  then have "triple (\<lambda>_. True) (each_op put_payload (sl_blobs s)) (\<lambda>_. sole b) (\<lambda>_. True)"
    unfolding assms by (rule triple_each_snoc [OF triple_each [OF payload]])
  then show ?thesis unfolding store_graph_def
    by (intro triple_bind [OF triple_each [OF rec]] triple_bind [OF _ triple_bind [OF shrinking_store_replay
          [OF sole_shrinking] enqueue_keeps [OF sole_outbox]]])
qed

text \<open>Reading the response while its payload is the only one with its key.\<close>

lemma response_read:
  assumes "\<And>k n m a. ae_decrypt (pe_aead env) k n (ae_encrypt (pe_aead env) k n m a) a = Some m"
    and "pe_load_response env (pe_dump_response env v) = Inr v"
    and "encrypt (pe_aead env) (pe_cipher env) ref nonce (pe_dump_response env v) (rp_tenant q) (rp_interaction q)
      ''replay'' (rp_expires_at q) None = Inr b"
    and "payload_key b = (rp_tenant q, rp_response_ref q)"
    and "db_working db = None" and "sole b (db_committed db)"
  shows "fst (replay env t q db) \<in> {Inr None, Inr (Some (v\<lparr>rp_replayed := True\<rparr>))}"
    and "(rp_tenant q, rp_response_ref q) \<in> payload_key ` set (tb_payloads (db_committed db)) \<Longrightarrow>
      fst (replay env t q db) = Inr (if t < rp_expires_at q then Some (v\<lparr>rp_replayed := True\<rparr>) else None)"
proof -
  let ?ps = "tb_payloads (db_committed db)"
  let ?P = "\<lambda>p. ep_tenant p = rp_tenant q \<and> ep_reference p = rp_response_ref q \<and> ep_expires_at p > t"
  note dec = decrypt_encrypt [OF assms(1,3)]
  have only: "p = b" if "p \<in> set ?ps" "ep_tenant p = rp_tenant q" "ep_reference p = rp_response_ref q" for p
    using that assms(4,6) unfolding sole_def by (simp add: payload_key_def)
  have found: "fst (replay env t q db) = (case find ?P ?ps of None \<Rightarrow> Inr None | Some p \<Rightarrow> Inr (Some (v\<lparr>rp_replayed := True\<rparr>)))"
  proof (cases "find ?P ?ps")
    case None
    then show ?thesis unfolding replay_def
      by (simp add: bind_op_def get_payload_def sql_read_def tables_of_def return_op_def assms(5))
  next
    case (Some p)
    then have "p = b" using only find_Some_iff2 [OF Some] by blast
    then show ?thesis using Some dec(1) assms(2) unfolding replay_def
      by (simp add: bind_op_def get_payload_def sql_read_def tables_of_def assms(5))
  qed
  then show "fst (replay env t q db) \<in> {Inr None, Inr (Some (v\<lparr>rp_replayed := True\<rparr>))}"
    by (auto split: option.splits)
  assume "(rp_tenant q, rp_response_ref q) \<in> payload_key ` set ?ps"
  then obtain p where p: "p \<in> set ?ps" "payload_key p = (rp_tenant q, rp_response_ref q)" by force
  then have b: "b \<in> set ?ps" using assms(4,6) unfolding sole_def by metis
  have key: "ep_tenant b = rp_tenant q" "ep_reference b = rp_response_ref q"
    using assms(4) by (simp_all add: payload_key_def)
  have "find ?P ?ps = None \<longleftrightarrow> \<not> t < rp_expires_at q"
  proof (cases "find ?P ?ps")
    case None
    then have "\<not> ?P b" unfolding find_None_iff2 using b by (rule bspec)
    then have "\<not> t < rp_expires_at q" by (simp only: key dec(2)) simp
    then show ?thesis using None by (simp only: simp_thms)
  next
    case (Some p)
    from find_Some_iff2 [OF Some] have p: "p \<in> set ?ps" "?P p" by blast+
    then have "p = b" by (intro only) simp_all
    then show ?thesis using Some p(2) dec(2) by simp
  qed
  then show "fst (replay env t q db) = Inr (if t < rp_expires_at q then Some (v\<lparr>rp_replayed := True\<rparr>) else None)"
    unfolding found by (cases "find ?P ?ps") auto
qed

text \<open>C8. A replay returns what was saved. Right after a response was saved with a replay entry,
  replaying the entry gives the very response with the redacted content, marked as replayed, or
  nothing when the entry has expired or was evicted at once. And in every later state, whatever was
  saved, deleted or swept in between: while the entry is in the tables, replaying it gives this
  response until it expires and nothing from then on. With an authenticated cipher that decrypts what
  it encrypted and a codec that reads what it wrote.\<close>

theorem replay_returns_saved:
  assumes "\<And>k n m a. ae_decrypt (pe_aead env) k n (ae_encrypt (pe_aead env) k n m a) a = Some m"
    and "\<And>out. pc_output c = Some out \<Longrightarrow>
      pe_load_response env (pe_dump_response env (r\<lparr>rp_content := out\<rparr>)) = Inr (r\<lparr>rp_content := out\<rparr>)"
    and "db_working (ps_db st) = None" and "platform (db_committed (ps_db st))"
    and "save env dw g (Some r) c fp reserved st = ((x, Some q), st')"
  shows "\<exists>out. pc_output c = Some out \<and>
    fst (replay env t q (ps_db st')) \<in> {Inr None, Inr (Some (r\<lparr>rp_content := out, rp_replayed := True\<rparr>))} \<and>
    (\<forall>st''. persistence_run env st' st'' \<and> q \<in> set (tb_replays (db_committed (ps_db st''))) \<longrightarrow>
       fst (replay env t q (ps_db st'')) =
         Inr (if t < rp_expires_at q then Some (r\<lparr>rp_content := out, rp_replayed := True\<rparr>) else None))"
proof (cases rule: save_cases [OF assms(3), of env dw c g "Some r" fp reserved, case_names stored failed])
  case (stored s rexp es n tb u)
  let ?c = "db_committed (ps_db st)"
  note sealed = seal_graph_sealed [OF stored(1)]
  have out: "sl_replay s = Some q" "ps_db st' = \<lparr>db_committed = tb, db_working = None\<rparr>"
    using stored(3) assms(5) by auto
  obtain bs b nonce content where b: "sl_blobs s = bs @ [b]" "payload_key b = (rp_tenant q, rp_response_ref q)"
      "pc_output c = Some content" "encrypt (pe_aead env) (pe_cipher env) (ep_reference b) nonce
         (pe_dump_response env (r\<lparr>rp_content := content\<rparr>)) (rp_tenant q) (rp_interaction q) ''replay'' (rp_expires_at q) None = Inr b"
      "rp_tenant q = ia_tenant_id (ig_interaction g)" "rp_interaction q = ia_interaction_id (ig_interaction g)"
    using sealed [THEN conjunct2, THEN conjunct1, unfolded replay_sealed_def, rule_format, OF out(1)]
    by (elim exE conjE) (rule that, simp_all add: stamped_def policy_stamp_def)
  note both = triple_conj [OF triple_conj [OF store_graph_sole [OF b(1)]
      store_graph_platform [OF sealed [THEN conjunct2, THEN conjunct1]]] store_graph_rows]
  have start: "(True \<and> platform ?c) \<and> rows_are (tb_rows ?c) (tb_subjects ?c) ?c" using assms(4) by (simp add: rows_are_def)
  have post: "(sole b tb \<and> platform tb \<and> queued_events es tb) \<and> rows_are (tb_rows ?c @ map (\<lambda>r. new_stored_row
      (ia_tenant_id (ig_interaction g)) r (saved_expiry env dw c g)) (graph_rows (sl_graph s))) (tb_subjects ?c) tb"
    by (rule transaction_committed [OF both assms(3) start stored(2)])
  have same: "ia_interaction_id (ig_interaction (sl_graph s)) = rp_interaction q"
    using sealed [THEN conjunct1] b(6) unfolding sealing_def by (auto simp: stamped_def policy_stamp_def)
  have "known (tb_rows tb) (rp_tenant q) (rp_interaction q)"
    using post same b(5) unfolding rows_are_def known_def by (simp add: graph_rows_def new_stored_row_def row_key_def)
  then have first: "answered b q tb" using post b(2) by (simp add: answered_def answers_def)
  note read = response_read [OF assms(1) assms(2) [OF b(3)] b(4,2)]
  have later: "fst (replay env t q (ps_db st'')) =
      Inr (if t < rp_expires_at q then Some (r\<lparr>rp_content := content, rp_replayed := True\<rparr>) else None)"
    if run: "persistence_run env st' st''" "q \<in> set (tb_replays (db_committed (ps_db st'')))" for st''
  proof -
    have "db_working (ps_db st') = None" "answered b q (db_committed (ps_db st'))" using out(2) first by simp_all
    from kept_answers.run_held [OF run(1) this] run(2)
    have state: "db_working (ps_db st'') = None" "sole b (db_committed (ps_db st''))" "platform (db_committed (ps_db st''))"
      by (simp_all add: answered_def answers_def)
    have "(rp_tenant q, rp_response_ref q) \<in> payload_key ` set (tb_payloads (db_committed (ps_db st'')))"
      using state(3) replay_has_payload [OF _ run(2)] by (simp add: platform_def)
    with read(2) [OF state(1,2)] show ?thesis by simp
  qed
  have "db_working (ps_db st') = None" "sole b (db_committed (ps_db st'))" using out(2) post by simp_all
  from read(1) [OF this] have "fst (replay env t q (ps_db st')) \<in>
      {Inr None, Inr (Some (r\<lparr>rp_content := content, rp_replayed := True\<rparr>))}" by simp
  with later b(3) show ?thesis by (intro exI [of _ content]) simp
next
  case (failed es G)
  then show ?thesis using assms(5) by simp
qed

section \<open>A small run\<close>

definition saved_interaction :: interaction where
  "saved_interaction = stored_interaction\<lparr>ia_input := (ia_input stored_interaction)\<lparr>is_messages_ref := None\<rparr>,
     ia_subject := Some ''s''\<rparr>"

definition saved_attempt :: generation_attempt where
  "saved_attempt =
     \<lparr>ga_attempt_id = ''a'', ga_interaction_id = ''i'', ga_attempt_number = 1, ga_shadow = False,
      ga_model_provider = ''local'', ga_model_id = ''m'', ga_model_version = ''1'', ga_deployment_id = ''d'',
      ga_adapter_id = None, ga_request_parameters = None, ga_usage = None, ga_tool_calls = [],
      ga_output_ref = None, ga_output_hash = None, ga_total_latency_ms = 0, ga_estimated_cost_micros = None,
      ga_price_list_version = None, ga_finish_reason = Stop, ga_validation = None,
      ga_fallback_reason = None, ga_error_code = None\<rparr>"

definition saved_graph :: interaction_graph where
  "saved_graph = \<lparr>ig_interaction = saved_interaction,
     ig_started = \<lparr>st_interaction_id = ''i'', st_application_id = ''app'', st_policy_version = ''p1''\<rparr>,
     ig_retrieval = None, ig_route = None, ig_attempts = [saved_attempt]\<rparr>"

definition saved_response :: inference_response where
  "saved_response =
     \<lparr>inference_response.rp_interaction_id = ''i'', rp_trace_id = ''tr'', rp_model_deployment_id = ''d'', rp_content = ''hi'',
      rp_citations = [], rp_usage = \<lparr>us_input_tokens = 1, us_output_tokens = 1, us_cached_input_tokens = None,
        us_reasoning_tokens = None, us_source = LocallyEstimated, us_tokenizer = ''ws''\<rparr>,
      rp_estimated_cost_micros = 0, rp_route = \<lparr>rs_fallback_used = False, rs_specialist_served = False\<rparr>,
      rp_finish_reason = Stop, rp_replayed = False\<rparr>"

definition saved_content :: persistence_content where
  "saved_content = no_content\<lparr>pc_messages_json := Some ''hello'', pc_query := Some ''hello'', pc_output := Some ''hi''\<rparr>"

definition small_env :: "(unit, event list) persistence_env" where
  "small_env =
     \<lparr>pe_aead = echo_aead, pe_cipher = sample_cipher, pe_hash = echo_hash, pe_keyring = sample_keyring,
      pe_redact = (\<lambda>t p. Some (t, [])), pe_redactor_version = ''v'', pe_dump_messages = (\<lambda>_. ''m''),
      pe_dump_format = (\<lambda>_. ''f''), pe_dump_response = (\<lambda>_. ''r''), pe_load_response = (\<lambda>_. Inr saved_response),
      pe_emit = (\<lambda>es e. (Inr (), es @ [e])), pe_outbox_pending_limit = 100, pe_replay_ttl_seconds = 60,
      pe_replay_capacity = 10, pe_retention_seconds = None\<rparr>"

definition small_draws :: draws where
  "small_draws = \<lparr>dw_clock = (\<lambda>_. 5), dw_now = (\<lambda>_. 6), dw_uid = (\<lambda>n. replicate (Suc n) CHR ''u''),
     dw_blob = (\<lambda>n. (replicate (Suc n) CHR ''b'', replicate (Suc n) CHR ''n''))\<rparr>"

definition start_state :: "event list persistence_state" where
  "start_state = \<lparr>ps_db = empty_database, ps_failures = 0, ps_counters = [], ps_gauges = [], ps_sink = []\<rparr>"

definition saved_run :: "(interaction \<times> replay_record option) \<times> event list persistence_state" where
  "saved_run = save small_env small_draws saved_graph (Some saved_response) saved_content ''f'' 4 start_state"

lemma saved_run_evaluated:
  "case saved_run of ((x, q), st) \<Rightarrow>
     (case q of None \<Rightarrow> False | Some p \<Rightarrow> p \<in> set (tb_replays (db_committed (ps_db st))) \<and> 6 < rp_expires_at p) \<and>
     (case interaction_at (db_committed (ps_db st)) ''t'' ''i'' of None \<Rightarrow> False | Some y \<Rightarrow> ia_interaction_id y = ''i'') \<and>
     map ia_interaction_id (subject_interactions (db_committed (ps_db st)) ''t'' ''s'') = [''i'']"
  by code_simp

definition saved_state :: "event list persistence_state" where
  "saved_state = snd saved_run"

lemma saved_run_state:
  obtains x q where "saved_run = ((x, Some q), saved_state)"
    "q \<in> set (tb_replays (db_committed (ps_db saved_state)))" "6 < rp_expires_at q"
proof -
  obtain q where q: "snd (fst saved_run) = Some q" "q \<in> set (tb_replays (db_committed (ps_db saved_state)))" "6 < rp_expires_at q"
    using saved_run_evaluated unfolding saved_state_def by (auto simp: case_prod_beta split: option.splits)
  have "saved_run = ((fst (fst saved_run), Some q), saved_state)"
    unfolding saved_state_def q(1) [symmetric] by simp
  then show ?thesis using that q by blast
qed

lemma start_state_empty: "ps_db start_state = empty_database"
  by (simp add: start_state_def)

lemma reached: "persistence_run small_env start_state saved_state"
proof -
  have "persistence_step small_env start_state saved_state"
    unfolding saved_state_def saved_run_def by (rule step_save)
  with run_start show ?thesis by (rule run_step)
qed

theorem runs_stay_sound_witness:
  "persistence_run small_env start_state saved_state \<and> own_responses (db_committed (ps_db saved_state))"
  using runs_stay_sound [OF reached start_state_empty] reached by simp

lemma saved_interaction_at:
  obtains x where "interaction_at (db_committed (ps_db saved_state)) ''t'' ''i'' = Some x"
  using saved_run_evaluated unfolding saved_state_def by (auto simp: case_prod_beta split: option.splits)

theorem delete_erases_witness:
  "\<exists>x d st'. delete small_env small_draws ''t'' ''i'' None saved_state = (Inr (Some (x, d)), st') \<and>
     erased ''t'' ''i'' (db_committed (ps_db st'))"
proof -
  obtain x where x: "interaction_at (db_committed (ps_db saved_state)) ''t'' ''i'' = Some x"
    by (rule saved_interaction_at)
  show ?thesis
    using delete_erases [OF reached start_state_empty, where t = "''t''" and i = "''i''" and dw = small_draws and actor = None]
    unfolding x option.case by blast
qed

theorem delete_subject_erases_witness:
  "\<exists>d deleted st'. delete_subject small_env small_draws ''t'' ''s'' None saved_state = (Inr (d, deleted), st') \<and>
     map ia_interaction_id (map fst deleted) = [''i''] \<and>
     (\<forall>x \<in> fst ` set deleted. erased ''t'' (ia_interaction_id x) (db_committed (ps_db st')))"
proof -
  have ids: "map ia_interaction_id (subject_interactions (db_committed (ps_db saved_state)) ''t'' ''s'') = [''i'']"
    using saved_run_evaluated unfolding saved_state_def by (auto simp: case_prod_beta split: option.splits)
  obtain d deleted st' where del: "delete_subject small_env small_draws ''t'' ''s'' None saved_state = (Inr (d, deleted), st')"
      "map fst deleted = subject_interactions (db_committed (ps_db saved_state)) ''t'' ''s''"
      "\<forall>x \<in> fst ` set deleted. erased ''t'' (ia_interaction_id x) (db_committed (ps_db st'))"
    using delete_subject_erases [OF reached start_state_empty, where dw = small_draws
        and t = "''t''" and p = "''s''" and actor = None] by (elim exE conjE) (rule that)
  then show ?thesis using ids by metis
qed

definition erased_state :: "event list persistence_state" where
  "erased_state = start_state\<lparr>ps_db := \<lparr>db_committed = erased_tables, db_working = None\<rparr>\<rparr>"

theorem erased_forever_witness:
  "erased ''t'' ''i'' (db_committed (ps_db (snd (save small_env small_draws saved_graph (Some saved_response)
     saved_content ''f'' 4 erased_state))))"
proof -
  have step: "persistence_run small_env erased_state
      (snd (save small_env small_draws saved_graph (Some saved_response) saved_content ''f'' 4 erased_state))"
    by (rule run_step [OF run_start step_save])
  show ?thesis
    by (rule erased_forever [OF step])
      (simp_all add: erased_state_def stored_schema, simp add: erased_def erased_tables_def empty_tables_def new_stored_row_def)
qed

lemma start_platform: "db_working (ps_db start_state) = None" "platform (db_committed (ps_db start_state))"
  by (simp_all add: start_state_def empty_database_def platform_empty)

theorem save_all_or_nothing_witness:
  "ps_db saved_state \<noteq> ps_db start_state \<and> ps_failures saved_state = 0 \<and> ps_sink saved_state = []"
proof -
  obtain x q where run: "saved_run = ((x, Some q), saved_state)" "q \<in> set (tb_replays (db_committed (ps_db saved_state)))"
    by (rule saved_run_state)
  have changed: "ps_db saved_state \<noteq> ps_db start_state"
    using run(2) by (auto simp: start_state_def empty_database_def empty_tables_def)
  show ?thesis
    using save_all_or_nothing [OF start_platform run(1) [unfolded saved_run_def]] changed
    by (auto simp: start_state_def)
qed

theorem save_confidential_witness:
  "[r \<leftarrow> tb_rows (db_committed (ps_db saved_state)). clear_record (sw_data r) \<noteq> sw_data r] = []"
proof -
  have fresh: "unreferenced saved_graph"
    by (simp add: unreferenced_def graph_rows_def saved_graph_def saved_interaction_def stored_interaction_def saved_attempt_def)
  have denied: "pc_failed saved_content \<or> \<not> pd_content_logging_allowed (ia_policy (ig_interaction saved_graph))"
    by (simp add: saved_graph_def saved_interaction_def stored_interaction_def policy_decision_default_def)
  have none: "tb_rows (db_committed (ps_db start_state)) = []"
    by (simp add: start_state_def empty_database_def empty_tables_def)
  show ?thesis
    using save_confidential [OF start_platform(1) fresh denied, where env = small_env and dw = small_draws
        and response = "Some saved_response" and fp = "''f''" and reserved = 4, THEN conjunct1] none
    unfolding saved_state_def saved_run_def by (simp add: filter_empty_conv)
qed

theorem replay_returns_saved_witness:
  "\<exists>x q. saved_run = ((x, Some q), saved_state) \<and>
     fst (replay small_env 6 q (ps_db saved_state)) = Inr (Some (saved_response\<lparr>rp_replayed := True\<rparr>))"
proof -
  obtain x q where run: "saved_run = ((x, Some q), saved_state)"
      "q \<in> set (tb_replays (db_committed (ps_db saved_state)))" "6 < rp_expires_at q"
    by (rule saved_run_state)
  have dec: "ae_decrypt (pe_aead small_env) k n (ae_encrypt (pe_aead small_env) k n m a) a = Some m" for k n m a
    by (simp add: small_env_def echo_decrypt)
  have codec: "pe_load_response small_env (pe_dump_response small_env (saved_response\<lparr>rp_content := out\<rparr>)) =
      Inr (saved_response\<lparr>rp_content := out\<rparr>)" if "pc_output saved_content = Some out" for out
    using that by (simp add: small_env_def saved_content_def saved_response_def)
  have "\<exists>out. pc_output saved_content = Some out \<and>
      fst (replay small_env 6 q (ps_db saved_state)) \<in> {Inr None, Inr (Some (saved_response\<lparr>rp_content := out, rp_replayed := True\<rparr>))} \<and>
      (\<forall>st''. persistence_run small_env saved_state st'' \<and> q \<in> set (tb_replays (db_committed (ps_db st''))) \<longrightarrow>
       fst (replay small_env 6 q (ps_db st'')) =
         Inr (if 6 < rp_expires_at q then Some (saved_response\<lparr>rp_content := out, rp_replayed := True\<rparr>) else None))"
    by (rule replay_returns_saved [OF dec codec start_platform run(1) [unfolded saved_run_def]])
  then obtain out where out: "pc_output saved_content = Some out" and later: "\<forall>st''. persistence_run small_env saved_state st'' \<and>
      q \<in> set (tb_replays (db_committed (ps_db st''))) \<longrightarrow> fst (replay small_env 6 q (ps_db st'')) =
        Inr (if 6 < rp_expires_at q then Some (saved_response\<lparr>rp_content := out, rp_replayed := True\<rparr>) else None)"
    by blast
  have "saved_response\<lparr>rp_content := out, rp_replayed := True\<rparr> = saved_response\<lparr>rp_replayed := True\<rparr>"
    using out by (simp add: saved_content_def saved_response_def)
  then have "fst (replay small_env 6 q (ps_db saved_state)) = Inr (Some (saved_response\<lparr>rp_replayed := True\<rparr>))"
    using later [rule_format, OF conjI [OF run_start run(2)]] run(3) by simp
  then show ?thesis using run(1) by blast
qed

end
