(* ===== verification/Regex.thy ===== *)
theory Regex
  imports Text
begin

text \<open>
  The regular expressions the program uses, with the semantics of Python's \<open>re\<close>: a backtracking
  matcher that prefers the left alternative and the longest repetition. \<open>ends r t i\<close> lists where
  a match of \<open>r\<close> that starts at position \<open>i\<close> of the text \<open>t\<close> may end, the preferred one first, so
  its head is the end of the match Python finds. Assertions read the characters on either side of
  a position. \<open>spans\<close> is \<open>finditer\<close>: the leftmost matches, each beginning no earlier than the
  previous one ends; \<open>substitute\<close> is \<open>sub\<close> with a function. No pattern of the program matches
  the empty text, and an empty match is passed over. Characters are ASCII.
\<close>

section \<open>Patterns and matches\<close>

datatype rx =
    Eps
  | Class "char \<Rightarrow> bool"
  | Seq rx rx
  | Alt rx rx
  | Star rx
  | Boundary
  | NotBehind "char \<Rightarrow> bool"
  | NotAhead "char \<Rightarrow> bool"

definition char_at :: "(char \<Rightarrow> bool) \<Rightarrow> string \<Rightarrow> nat \<Rightarrow> bool" where
  "char_at P t i = (i < length t \<and> P (t ! i))"

definition char_before :: "(char \<Rightarrow> bool) \<Rightarrow> string \<Rightarrow> nat \<Rightarrow> bool" where
  "char_before P t i = (0 < i \<and> i \<le> length t \<and> P (t ! (i - 1)))"

text \<open>Repeating a match as often as it makes progress; the fuel is the rest of the text.\<close>

primrec star_ends :: "(nat \<Rightarrow> nat list) \<Rightarrow> nat \<Rightarrow> nat \<Rightarrow> nat list" where
  "star_ends f 0 i = [i]"
| "star_ends f (Suc k) i = concat (map (star_ends f k) (filter (\<lambda>j. i < j) (f i))) @ [i]"

primrec ends :: "rx \<Rightarrow> string \<Rightarrow> nat \<Rightarrow> nat list" where
  "ends Eps t i = [i]"
| "ends (Class P) t i = (if char_at P t i then [Suc i] else [])"
| "ends (Seq r s) t i = concat (map (ends s t) (ends r t i))"
| "ends (Alt r s) t i = ends r t i @ ends s t i"
| "ends (Star r) t i = star_ends (ends r t) (length t - i) i"
| "ends Boundary t i = (if char_before is_word_char t i \<noteq> char_at is_word_char t i then [i] else [])"
| "ends (NotBehind P) t i = (if char_before P t i then [] else [i])"
| "ends (NotAhead P) t i = (if char_at P t i then [] else [i])"

definition Plus :: "rx \<Rightarrow> rx" where
  "Plus r = Seq r (Star r)"

definition Optional :: "rx \<Rightarrow> rx" where
  "Optional r = Alt r Eps"

text \<open>\<open>r{n}\<close> and \<open>r{0,n}\<close>.\<close>

primrec exactly :: "nat \<Rightarrow> rx \<Rightarrow> rx" where
  "exactly 0 r = Eps"
| "exactly (Suc n) r = Seq r (exactly n r)"

primrec up_to :: "nat \<Rightarrow> rx \<Rightarrow> rx" where
  "up_to 0 r = Eps"
| "up_to (Suc n) r = Optional (Seq r (up_to n r))"

definition repeat :: "nat \<Rightarrow> nat \<Rightarrow> rx \<Rightarrow> rx" where
  "repeat m n r = Seq (exactly m r) (up_to (n - m) r)"

definition at_least :: "nat \<Rightarrow> rx \<Rightarrow> rx" where
  "at_least m r = Seq (exactly m r) (Star r)"

primrec literal :: "string \<Rightarrow> rx" where
  "literal [] = Eps"
| "literal (c # s) = Seq (Class (\<lambda>d. d = c)) (literal s)"

text \<open>Under \<open>(?i)\<close> a lower-case literal also matches its capitals.\<close>

primrec literal_i :: "string \<Rightarrow> rx" where
  "literal_i [] = Eps"
| "literal_i (c # s) = Seq (Class (\<lambda>d. to_lower d = c)) (literal_i s)"

definition one_of :: "string \<Rightarrow> char \<Rightarrow> bool" where
  "one_of s c = (c \<in> set s)"

section \<open>Scanning\<close>

text \<open>The end of the match at \<open>i\<close>, if there is one.\<close>

definition match_end :: "rx \<Rightarrow> string \<Rightarrow> nat \<Rightarrow> nat option" where
  "match_end r t i = (case ends r t i of [] \<Rightarrow> None | j # _ \<Rightarrow> if i < j then Some j else None)"

function spans_from :: "rx \<Rightarrow> string \<Rightarrow> nat \<Rightarrow> (nat \<times> nat) list" where
  "spans_from r t i =
     (if length t \<le> i then []
      else case match_end r t i of
        None \<Rightarrow> spans_from r t (Suc i)
      | Some j \<Rightarrow> (i, j) # spans_from r t j)"
  by pat_completeness auto
termination
  by (relation "measure (\<lambda>(r, t, i). length t - i)")
    (auto simp: match_end_def split: list.splits if_splits)

declare spans_from.simps [simp del]

definition spans :: "rx \<Rightarrow> string \<Rightarrow> (nat \<times> nat) list" where
  "spans r t = spans_from r t 0"

definition slice :: "nat \<Rightarrow> nat \<Rightarrow> string \<Rightarrow> string" where
  "slice i j t = take (j - i) (drop i t)"

definition find_all :: "rx \<Rightarrow> string \<Rightarrow> string list" where
  "find_all r t = map (\<lambda>(i, j). slice i j t) (spans r t)"

fun splice :: "(string \<Rightarrow> string) \<Rightarrow> string \<Rightarrow> nat \<Rightarrow> (nat \<times> nat) list \<Rightarrow> string" where
  "splice f t i [] = drop i t"
| "splice f t i ((a, b) # ps) = slice i a t @ f (slice a b t) @ splice f t b ps"

definition substitute :: "rx \<Rightarrow> (string \<Rightarrow> string) \<Rightarrow> string \<Rightarrow> string" where
  "substitute r f t = splice f t 0 (spans r t)"

section \<open>Lemmas\<close>

text \<open>A match lies inside the text, after its start.\<close>

lemma star_ends_bounds:
  assumes "\<And>i j. j \<in> set (f i) \<Longrightarrow> i \<le> j \<and> (i \<le> n \<longrightarrow> j \<le> n)"
  shows "j \<in> set (star_ends f k i) \<Longrightarrow> i \<le> j \<and> (i \<le> n \<longrightarrow> j \<le> n)"
proof (induction k arbitrary: i)
  case (Suc k)
  then consider "j = i" | m where "m \<in> set (f i)" "i < m" "j \<in> set (star_ends f k m)" by auto
  then show ?case
  proof cases
    case 2
    then show ?thesis using Suc.IH [OF 2(3)] assms [OF 2(1)] by auto
  qed simp
qed simp

lemma ends_bounds: "j \<in> set (ends r t i) \<Longrightarrow> i \<le> j \<and> (i \<le> length t \<longrightarrow> j \<le> length t)"
proof (induction r arbitrary: i j)
  case (Star r)
  show ?case
    using Star.prems by (auto dest: star_ends_bounds [of "ends r t" "length t", rotated] Star.IH)
next
  case (Seq r s)
  then obtain m where "m \<in> set (ends r t i)" "j \<in> set (ends s t m)" by auto
  then show ?case using Seq.IH(1) [of m i] Seq.IH(2) [of j m] by auto
next
  case (Alt r s)
  then show ?case using Alt.IH [of j i] by auto
qed (auto simp: char_at_def split: if_splits)

lemma match_end_bounds:
  assumes "match_end r t i = Some j" and "i \<le> length t"
  shows "i < j \<and> j \<le> length t"
proof -
  have "j \<in> set (ends r t i)" and "i < j"
    using assms(1) by (auto simp: match_end_def split: list.splits if_splits)
  then show ?thesis using ends_bounds [of j r t i] assms(2) by simp
qed

text \<open>The spans are disjoint, increasing and matches; every position where the pattern matches
  lies before the scan or inside a span.\<close>

fun spans_ok :: "nat \<Rightarrow> (nat \<times> nat) list \<Rightarrow> nat \<Rightarrow> bool" where
  "spans_ok i [] n = (i \<le> n)"
| "spans_ok i ((a, b) # ps) n = (i \<le> a \<and> a < b \<and> spans_ok b ps n)"

lemma separated_mono: "spans_ok i ps n \<Longrightarrow> k \<le> i \<Longrightarrow> spans_ok k ps n"
  by (cases "(i, ps, n)" rule: spans_ok.cases) auto

lemma spans_from_spaced: "i \<le> length t \<Longrightarrow> spans_ok i (spans_from r t i) (length t)"
proof (induction r t i rule: spans_from.induct)
  case (1 r t i)
  show ?case
  proof (cases "length t \<le> i")
    case False
    show ?thesis
    proof (cases "match_end r t i")
      case None
      then show ?thesis
        using 1 False separated_mono [of "Suc i" _ "length t" i]
        by (subst spans_from.simps) (simp add: not_le Suc_le_eq)
    next
      case (Some j)
      then show ?thesis
        using 1(2) [OF False Some] match_end_bounds [OF Some] 1(3) False
        by (subst spans_from.simps) simp
    qed
  qed (use 1 in \<open>simp add: spans_from.simps\<close>)
qed

lemma spans_from_match: "(a, b) \<in> set (spans_from r t i) \<Longrightarrow> match_end r t a = Some b"
proof (induction r t i rule: spans_from.induct)
  case (1 r t i)
  show ?case
    using 1(3) 1(1,2) by (subst (asm) spans_from.simps) (auto split: if_splits option.splits)
qed

lemma spans_from_cover:
  "match_end r t k \<noteq> None \<Longrightarrow> i \<le> k \<Longrightarrow> k < length t \<Longrightarrow>
   \<exists>(a, b) \<in> set (spans_from r t i). a \<le> k \<and> k < b"
proof (induction r t i rule: spans_from.induct)
  case (1 r t i)
  have far: "\<not> length t \<le> i" using 1 by simp
  show ?case
  proof (cases "match_end r t i")
    case None
    then have "Suc i \<le> k" using 1(3,4) by (metis Suc_leI le_neq_implies_less)
    then have "\<exists>(a, b) \<in> set (spans_from r t (Suc i)). a \<le> k \<and> k < b"
      using 1(1) [OF far None] 1(3,5) by simp
    then show ?thesis using far None by (subst spans_from.simps) simp
  next
    case (Some j)
    show ?thesis
    proof (cases "k < j")
      case True
      then show ?thesis using far Some 1(4) by (subst spans_from.simps) simp
    next
      case False
      then have "\<exists>(a, b) \<in> set (spans_from r t j). a \<le> k \<and> k < b"
        using 1(2) [OF far Some] 1(3,5) by simp
      then show ?thesis using far Some by (subst spans_from.simps) auto
    qed
  qed
qed

lemma spans_spaced: "spans_ok 0 (spans r t) (length t)"
  by (simp add: spans_def spans_from_spaced)

lemma spans_match: "(a, b) \<in> set (spans r t) \<Longrightarrow> match_end r t a = Some b"
  unfolding spans_def by (rule spans_from_match)

lemma spans_cover:
  assumes "match_end r t k \<noteq> None" and "k < length t"
  obtains a b where "(a, b) \<in> set (spans r t)" and "a \<le> k" and "k < b"
  using spans_from_cover [OF assms(1) _ assms(2), of 0] that by (auto simp: spans_def)

text \<open>What is kept between the spans, in order.\<close>

fun gaps :: "string \<Rightarrow> nat \<Rightarrow> (nat \<times> nat) list \<Rightarrow> string list" where
  "gaps t i [] = [drop i t]"
| "gaps t i ((a, b) # ps) = slice i a t # gaps t b ps"

text \<open>The text that alternates the gaps with the replacements.\<close>

fun weave :: "string list \<Rightarrow> string list \<Rightarrow> string" where
  "weave [] _ = []"
| "weave (g # gs) [] = g @ weave gs []"
| "weave (g # gs) (m # ms) = g @ m @ weave gs ms"

lemma splice_weave: "splice f t i ps = weave (gaps t i ps) (map (\<lambda>(a, b). f (slice a b t)) ps)"
  by (induction f t i ps rule: splice.induct) simp_all

lemma splice_identity: "spans_ok i ps (length t) \<Longrightarrow> splice (\<lambda>m. m) t i ps = drop i t"
proof (induction i ps "length t" rule: spans_ok.induct)
  case (2 i a b ps)
  then show ?case
    by (simp add: slice_def)
      (metis (no_types, lifting) add.commute append_take_drop_id drop_drop le_add_diff_inverse less_imp_le_nat)
qed simp

lemma length_gaps [simp]: "length (gaps t i ps) = Suc (length ps)"
  by (induction t i ps rule: gaps.induct) simp_all

text \<open>\<open>sub\<close> replaces the matches and nothing else: the text alternates gaps and matches, and the
  result the same gaps and the replaced matches.\<close>

lemma substitute_weave:
  "t = weave (gaps t 0 (spans r t)) (find_all r t)"
  "substitute r f t = weave (gaps t 0 (spans r t)) (map f (find_all r t))"
proof -
  have "t = splice (\<lambda>m. m) t 0 (spans r t)"
    using splice_identity [OF spans_spaced, of t r] by simp
  also have "\<dots> = weave (gaps t 0 (spans r t)) (find_all r t)"
    by (simp only: splice_weave find_all_def)
  finally show "t = weave (gaps t 0 (spans r t)) (find_all r t)" .
  show "substitute r f t = weave (gaps t 0 (spans r t)) (map f (find_all r t))"
    by (simp add: substitute_def splice_weave find_all_def comp_def case_prod_unfold)
qed

lemma substitute_id: "spans r t = [] \<Longrightarrow> substitute r f t = t"
  by (simp add: substitute_def)

end
