(* ===== verification/Policy.thy ===== *)
theory Policy
  imports Regex Identity
begin

text \<open>
  The purpose policy and the redactors of \<open>policy/__init__.py\<close> and \<open>policy/persistence.py\<close>. The
  engine denies everything to a tenant it does not know and to an application outside the
  identity. The processing redactor replaces credentials, secrets, API keys and card numbers that
  pass the checksum; the persistence redactor goes on with addresses and telephone numbers. The
  patterns are those of the source, over the matcher of \<open>Regex\<close>.
\<close>

section \<open>The policy engine\<close>

text \<open>A tenant of the configuration may carry a policy version of its own.\<close>

record policy_config =
  pg_policy_version :: string
  pg_tenants :: "(string \<times> string option \<times> policy_decision) list"

record policy_engine =
  pn_version :: string
  pn_tenants :: "(string \<times> policy_decision) list"

definition policy_engine_new :: "policy_config \<Rightarrow> policy_engine result" where
  "policy_engine_new config =
     (let tenants = map (\<lambda>(tenant, own, d).
            (tenant, d\<lparr>pd_policy_version := (case own of None \<Rightarrow> pg_policy_version config | Some v \<Rightarrow> v)\<rparr>))
            (pg_tenants config)
      in if list_all (\<lambda>(_, d). policy_decision_fields d) tenants
         then Inr \<lparr>pn_version = pg_policy_version config, pn_tenants = tenants\<rparr>
         else Inl (ValueError field_error))"

definition denied_decision :: "string \<Rightarrow> policy_decision" where
  "denied_decision version = (policy_decision_default version 3600)\<lparr>pd_processing_allowed := False\<rparr>"

definition decide :: "policy_engine \<Rightarrow> identity \<Rightarrow> string \<Rightarrow> policy_decision" where
  "decide engine identity app =
     (case map_of (pn_tenants engine) (id_tenant_id identity) of
        None \<Rightarrow> denied_decision (pn_version engine)
      | Some d \<Rightarrow> if app \<notin> set (id_application_ids identity) then denied_decision (pn_version engine) else d)"

section \<open>The processing redactor\<close>

definition redacted_mark :: string where
  "redacted_mark = ''[REDACTED]''"

definition token_chars :: "char \<Rightarrow> bool" where
  "token_chars c = (is_lower (to_lower c) \<or> is_digit c \<or> one_of ''._~+/=-'' c)"

definition credentials_pattern :: rx where
  "credentials_pattern =
     Seq Boundary (Seq (literal_i ''bearer'') (Seq (Plus (Class is_space)) (Plus (Class token_chars))))"

definition double_quoted :: rx where
  "double_quoted = Seq (Class (one_of [char_of (34::nat)]))
     (Seq (Star (Class (\<lambda>c. \<not> one_of [char_of (34::nat)] c))) (Class (one_of [char_of (34::nat)])))"

definition single_quoted :: rx where
  "single_quoted = Seq (Class (one_of [char_of (39::nat)]))
     (Seq (Star (Class (\<lambda>c. \<not> one_of [char_of (39::nat)] c))) (Class (one_of [char_of (39::nat)])))"

definition secrets_pattern :: rx where
  "secrets_pattern =
     Seq Boundary
    (Seq (Alt (Seq (literal_i ''api'') (Seq (Optional (Class (one_of ''_-''))) (literal_i ''key'')))
         (Alt (literal_i ''secret'')
         (Alt (literal_i ''password'')
              (Seq (literal_i ''access'') (Seq (Optional (Class (one_of ''_-''))) (literal_i ''token''))))))
    (Seq (Star (Class is_space))
    (Seq (Class (one_of '':=''))
    (Seq (Star (Class is_space))
         (Alt double_quoted
         (Alt single_quoted
              (Plus (Class (\<lambda>c. \<not> is_space c \<and> \<not> one_of '',;'' c)))))))))"

definition api_keys_pattern :: rx where
  "api_keys_pattern =
     Seq Boundary (Seq (literal ''sk-'')
       (Seq (at_least 8 (Class (\<lambda>c. is_word_char c \<or> c = CHR ''-''))) Boundary))"

definition cards_pattern :: rx where
  "cards_pattern =
     Seq (NotBehind (\<lambda>c. is_word_char c \<or> c = CHR ''-''))
    (Seq (repeat 12 18 (Seq (Class is_digit) (Optional (Class (one_of '' -'')))))
    (Seq (Class is_digit) (NotAhead (\<lambda>c. is_word_char c \<or> c = CHR ''-''))))"

definition processing_patterns :: "(string \<times> rx) list" where
  "processing_patterns =
     [(''credentials'', credentials_pattern), (''secrets'', secrets_pattern), (''api_keys'', api_keys_pattern)]"

text \<open>The Luhn checksum, from the last digit.\<close>

definition luhn_digit :: "nat \<Rightarrow> nat \<Rightarrow> nat" where
  "luhn_digit position d =
     (if odd position then (if 2 * d > 9 then 2 * d - 9 else 2 * d) else d)"

fun luhn_sum :: "nat \<Rightarrow> nat list \<Rightarrow> nat" where
  "luhn_sum position [] = 0"
| "luhn_sum position (d # ds) = luhn_digit position d + luhn_sum (Suc position) ds"

definition card_total :: "string \<Rightarrow> nat" where
  "card_total v = luhn_sum 0 (rev (map (\<lambda>c. code c - 48) (filter is_digit v)))"

definition is_card :: "string \<Rightarrow> bool" where
  "is_card v = (card_total v \<noteq> 0 \<and> card_total v mod 10 = 0)"

definition add_count :: "string \<Rightarrow> nat \<Rightarrow> (string \<times> nat) list \<Rightarrow> (string \<times> nat) list" where
  "add_count name n counts =
     (if n = 0 then counts
      else dict_put name ((case map_of counts name of None \<Rightarrow> 0 | Some m \<Rightarrow> m) + n) counts)"

fun redact_patterns :: "(string \<times> rx) list \<Rightarrow> string \<Rightarrow> (string \<times> nat) list \<Rightarrow> string \<times> (string \<times> nat) list" where
  "redact_patterns [] t counts = (t, counts)"
| "redact_patterns ((name, r) # ps) t counts =
     redact_patterns ps (substitute r (\<lambda>_. redacted_mark) t) (add_count name (length (spans r t)) counts)"

text \<open>A pattern whose matches are replaced when they pass a test.\<close>

definition replace_if :: "(string \<Rightarrow> bool) \<Rightarrow> string \<Rightarrow> string" where
  "replace_if P m = (if P m then redacted_mark else m)"

definition redact_text :: "string \<Rightarrow> string \<times> (string \<times> nat) list" where
  "redact_text t =
     (let (u, counts) = redact_patterns processing_patterns t []
      in (substitute cards_pattern (replace_if is_card) u,
          add_count ''card_numbers'' (length (filter is_card (find_all cards_pattern u))) counts))"

fun add_found :: "(string \<times> nat) list \<Rightarrow> (string \<times> nat) list \<Rightarrow> (string \<times> nat) list" where
  "add_found [] counts = counts"
| "add_found ((name, n) # found) counts =
     add_found found (dict_put name ((case map_of counts name of None \<Rightarrow> 0 | Some m \<Rightarrow> m) + n) counts)"

fun redact_texts :: "string list \<Rightarrow> (string \<times> nat) list \<Rightarrow> string list \<times> (string \<times> nat) list" where
  "redact_texts [] counts = ([], counts)"
| "redact_texts (t # ts) counts =
     (let (u, found) = redact_text t; (us, counts') = redact_texts ts (add_found found counts)
      in (u # us, counts'))"

definition redact :: "inference_request \<Rightarrow> inference_request \<times> (string \<times> nat) list" where
  "redact r =
     (let (contents, counts) = redact_texts (map content_of (rq_messages r)) [];
          (values, counts') = redact_texts (map snd (rq_metadata r)) counts
      in (r\<lparr>rq_messages := map2 (\<lambda>m t. m\<lparr>content_of := t\<rparr>) (rq_messages r) contents,
            rq_metadata := map2 (\<lambda>(k, _) v. (k, v)) (rq_metadata r) values\<rparr>, counts'))"

section \<open>The persistence redactor\<close>

definition address_chars :: "char \<Rightarrow> bool" where
  "address_chars c = (is_word_char c \<or> one_of ''.+-'' c)"

definition domain_chars :: "char \<Rightarrow> bool" where
  "domain_chars c = (is_word_char c \<or> one_of ''.-'' c)"

definition emails_pattern :: rx where
  "emails_pattern =
     Seq (NotBehind address_chars)
    (Seq (Plus (Class address_chars))
    (Seq (literal ''@'')
    (Seq (Plus (Class domain_chars))
    (Seq (literal ''.'')
    (Seq (at_least 2 (Class (\<lambda>c. is_lower (to_lower c)))) (NotAhead domain_chars))))))"

definition phone_chars :: "char \<Rightarrow> bool" where
  "phone_chars c = (is_digit c \<or> one_of '' ().-'' c)"

definition phones_pattern :: rx where
  "phones_pattern =
     Seq (NotBehind (\<lambda>c. is_word_char c \<or> c = CHR ''-''))
    (Seq (Optional (Class (\<lambda>c. c = CHR ''+'')))
    (Seq (Alt (Seq (literal ''('') (Seq (repeat 2 4 (Class is_digit)) (literal '')''))) (Class is_digit))
    (Seq (at_least 5 (Class phone_chars))
    (Seq (Class is_digit) (NotAhead is_word_char)))))"

definition is_phone :: "string \<Rightarrow> bool" where
  "is_phone m = (7 \<le> length (filter is_digit m) \<and> length (filter is_digit m) \<le> 15)"

definition persistence_redact_text :: "string \<Rightarrow> policy_decision \<Rightarrow> string \<times> (string \<times> nat) list" where
  "persistence_redact_text t policy =
     (let (u, counts) = redact_text t;
          n = length (spans emails_pattern u);
          v = substitute emails_pattern (\<lambda>_. redacted_mark) u;
          counts = (if n = 0 then counts else dict_put ''emails'' n counts)
      in (substitute phones_pattern (replace_if is_phone) v,
          add_count ''phones'' (length (filter is_phone (find_all phones_pattern v))) counts))"

section \<open>Properties\<close>

subsection \<open>Decisions\<close>

text \<open>A tenant the engine does not know, and an application the identity does not hold, are denied
  every purpose: processing, content logging, evaluation, human review and training. Every other
  decision is the one configured for the tenant.\<close>

theorem decide_denies_strangers:
  "decide engine identity app =
     (if app \<in> set (id_application_ids identity) \<and> map_of (pn_tenants engine) (id_tenant_id identity) \<noteq> None
      then the (map_of (pn_tenants engine) (id_tenant_id identity))
      else denied_decision (pn_version engine)) \<and>
   \<not> (pd_processing_allowed (denied_decision v) \<or> pd_content_logging_allowed (denied_decision v) \<or>
      pd_evaluation_allowed (denied_decision v) \<or> pd_human_review_allowed (denied_decision v) \<or>
      pd_training_allowed (denied_decision v))"
  by (simp add: decide_def denied_decision_def policy_decision_default_def split: option.splits)

subsection \<open>The checksum\<close>

lemma luhn_sum_append: "luhn_sum p (xs @ ys) = luhn_sum p xs + luhn_sum (p + length xs) ys"
  by (induction p xs rule: luhn_sum.induct) simp_all

lemma luhn_digit_inj:
  assumes "d < 10" and "e < 10" and "luhn_digit p d mod 10 = luhn_digit p e mod 10"
  shows "d = e"
  using assms unfolding luhn_digit_def by (auto split: if_splits; presburger)

lemma mod_middle: "(a + x + b) mod 10 = (a + y + b) mod 10 \<Longrightarrow> x mod 10 = y mod (10 :: nat)"
proof -
  assume same: "(a + x + b) mod 10 = (a + y + b) mod 10"
  have shift: "int z mod 10 = (int ((a + z + b) mod 10) - int (a + b)) mod 10" for z
    by (simp add: zmod_int mod_simps)
  have "int x mod 10 = int y mod 10"
    by (metis shift same)
  then show ?thesis by (metis of_nat_eq_iff of_nat_mod of_nat_numeral)
qed

lemma digit_value: "is_digit c \<Longrightarrow> code c - 48 < 10"
  by (auto simp: is_digit_def)

lemma digit_value_inj: "is_digit c \<Longrightarrow> is_digit d \<Longrightarrow> code c - 48 = code d - 48 \<Longrightarrow> c = d"
  by (intro char_eqI) (auto simp: is_digit_def)

lemma card_total_split:
  "is_digit c \<Longrightarrow> card_total (p @ c # s) =
     luhn_sum 0 (rev (map (\<lambda>c. code c - 48) (filter is_digit s))) +
     luhn_digit (length (filter is_digit s)) (code c - 48) +
     luhn_sum (Suc (length (filter is_digit s))) (rev (map (\<lambda>c. code c - 48) (filter is_digit p)))"
  by (simp add: card_total_def luhn_sum_append)

text \<open>The checksum that decides which digit runs are card numbers detects every single wrong digit:
  of two numbers that differ in one digit at most one is a card number, whatever separators stand
  between the digits.\<close>

theorem luhn_detects_wrong_digit:
  assumes "is_digit c" and "is_digit d" and "c \<noteq> d"
  shows "\<not> (is_card (p @ c # s) \<and> is_card (p @ d # s))"
proof
  assume both: "is_card (p @ c # s) \<and> is_card (p @ d # s)"
  let ?n = "length (filter is_digit s)"
  have "(card_total (p @ c # s)) mod 10 = (card_total (p @ d # s)) mod 10"
    using both by (simp add: is_card_def)
  then have "luhn_digit ?n (code c - 48) mod 10 = luhn_digit ?n (code d - 48) mod 10"
    unfolding card_total_split [OF assms(1)] card_total_split [OF assms(2)] by (rule mod_middle)
  then have "code c - 48 = code d - 48"
    using luhn_digit_inj digit_value assms by blast
  with digit_value_inj assms show False by blast
qed

lemma sample_card: "is_card ''41-68'' = True"
proof -
  have "filter is_digit ''41-68'' = ''4168''" by (simp add: is_digit_def code_def)
  then have "card_total ''41-68'' = luhn_sum 0 [8, 6, 1, 4]" by (simp add: card_total_def code_def)
  also have "\<dots> = 20" by (simp add: luhn_digit_def)
  finally show ?thesis by (simp add: is_card_def)
qed

theorem luhn_detects_wrong_digit_witness:
  "is_card ''41-68'' \<and> \<not> is_card ''42-68''"
proof -
  have "\<not> (is_card (''4'' @ CHR ''1'' # ''-68'') \<and> is_card (''4'' @ CHR ''2'' # ''-68''))"
    by (rule luhn_detects_wrong_digit) (simp_all add: is_digit_def code_def)
  then show ?thesis using sample_card by simp
qed

subsection \<open>Samples\<close>

lemmas pattern_simps = match_end_def char_at_def char_before_def Plus_def Optional_def repeat_def at_least_def
  one_of_def is_space_def is_word_char_def is_lower_def is_upper_def is_digit_def to_lower_def code_def
  slice_def find_all_def spans_def spans_from.simps substitute_def

lemma credentials_sample:
  "substitute credentials_pattern (\<lambda>_. redacted_mark) ''a bearer x.1'' = ''a [REDACTED]''"
  by (simp add: credentials_pattern_def token_chars_def redacted_mark_def pattern_simps)

lemma emails_sample:
  "substitute emails_pattern (\<lambda>_. redacted_mark) ''to a@b.co'' = ''to [REDACTED]''"
  by (simp add: emails_pattern_def address_chars_def domain_chars_def redacted_mark_def pattern_simps eval_nat_numeral)

end
