(* ===== verification/Rag.thy ===== *)
theory Rag
  imports Policy Providers
begin

text \<open>
  The local retriever of \<open>rag/__init__.py\<close>: access control before scoring, lexical ranking, the
  token budget and the evidence of every candidate. The corpus is the validated list of chunks
  (reading and parsing the file is not modelled), the hash functions and the key ring are those of
  \<open>Identity\<close>, and the identifier of the run and the elapsed time are arguments.
\<close>

section \<open>The index\<close>

record indexed_chunk = chunk +
  xc_index_version :: string

type_synonym index_key = "string \<times> environment \<times> string \<times> string"

record retriever =
  rt_chunks :: "indexed_chunk list"
  rt_versions :: "(index_key \<times> string) list"
  rt_candidate_limit :: int
  rt_supplied_limit :: int
  rt_context_token_budget :: int

definition index_key :: "indexed_chunk \<Rightarrow> index_key" where
  "index_key c = (ck_tenant_id c, ck_environment c, ck_region c, ck_index_id c)"

text \<open>\<open>dict.setdefault\<close> returns what is there, or what it writes.\<close>

fun index_versions :: "indexed_chunk list \<Rightarrow> (index_key \<times> string) list \<Rightarrow> (index_key \<times> string) list result" where
  "index_versions [] vs = Inr vs"
| "index_versions (c # cs) vs =
     (case map_of vs (index_key c) of
        None \<Rightarrow> index_versions cs (dict_put (index_key c) (xc_index_version c) vs)
      | Some v \<Rightarrow> if v \<noteq> xc_index_version c then Inl (ValueError ''mixed_index_versions'')
          else index_versions cs vs)"

definition initialize :: "indexed_chunk list \<Rightarrow> int \<Rightarrow> int \<Rightarrow> int \<Rightarrow> retriever result" where
  "initialize cs candidates supplied budget =
     bindE (index_versions cs []) (\<lambda>vs. Inr
       \<lparr>rt_chunks = cs, rt_versions = vs, rt_candidate_limit = candidates,
        rt_supplied_limit = supplied, rt_context_token_budget = budget\<rparr>)"

definition retriever_new :: "indexed_chunk list \<Rightarrow> int \<Rightarrow> int \<Rightarrow> int \<Rightarrow> retriever result" where
  "retriever_new cs candidates supplied budget =
     bindE (guardE (1 \<le> min (min candidates supplied) budget) (ValueError ''invalid_retrieval_limits''))
       (\<lambda>_. initialize cs candidates supplied budget)"

definition from_chunks :: "indexed_chunk list \<Rightarrow> retriever result" where
  "from_chunks cs = initialize cs 10 3 2048"

section \<open>Ranking\<close>

definition text_terms :: "string \<Rightarrow> string list" where
  "text_terms s = remdups (find_words (casefold s))"

definition score :: "string list \<Rightarrow> string \<Rightarrow> flt" where
  "score terms content =
     of_nat (length (filter (\<lambda>t. t \<in> set (text_terms content)) terms)) / of_nat (max (length terms) 1)"

text \<open>The access constraints, all of them before a chunk is scored.\<close>

definition eligible :: "identity \<Rightarrow> string \<Rightarrow> string \<Rightarrow> string \<Rightarrow> indexed_chunk \<Rightarrow> bool" where
  "eligible identity app index residency c =
     (app \<in> set (id_application_ids identity) \<and> ck_tenant_id c = id_tenant_id identity \<and>
      ck_environment c = id_environment identity \<and> ck_region c = residency \<and>
      app \<in> set (ck_allowed_applications c) \<and> ck_index_id c = index)"

definition rank_key :: "flt \<times> indexed_chunk \<Rightarrow> flt \<times> string \<times> string" where
  "rank_key p = (- fst p, ck_document_id (snd p), ck_chunk_id (snd p))"

definition ranking :: "string \<Rightarrow> indexed_chunk list \<Rightarrow> (flt \<times> indexed_chunk) list" where
  "ranking query cs =
     sort_key rank_key (filter (\<lambda>p. fst p > 0) (map (\<lambda>c. (score (text_terms query) (ck_content c), c)) cs))"

section \<open>The context budget\<close>

definition evidence_of ::
    "hash_functions \<Rightarrow> nat \<Rightarrow> flt \<Rightarrow> indexed_chunk \<Rightarrow> nat \<Rightarrow> nat option \<Rightarrow> chunk_evidence" where
  "evidence_of hf rank s c tokens position =
     \<lparr>ce_document_id = ck_document_id c, ce_document_version = ck_document_version c,
      ce_chunk_id = ck_chunk_id c, ce_rank_retrieved = rank, ce_retrieval_score = s,
      ce_rerank_score = None, ce_supplied_to_model = (position \<noteq> None),
      ce_context_position = position, ce_token_count = tokens,
      ce_content_hash = to_hex (hf_sha256 hf (ck_content c)), ce_content_ref = None,
      ce_licence_class = ck_licence_class c\<rparr>"

fun supply_context ::
    "hash_functions \<Rightarrow> int \<Rightarrow> nat \<Rightarrow> nat \<Rightarrow> int \<Rightarrow> (flt \<times> indexed_chunk) list \<Rightarrow>
     indexed_chunk list \<times> chunk_evidence list" where
  "supply_context hf limit rank used remaining [] = ([], [])"
| "supply_context hf limit rank used remaining ((s, c) # ps) =
     (let tokens = token_count (ck_content c);
          include = int used < limit \<and> int tokens \<le> remaining;
          (cs, es) = supply_context hf limit (Suc rank) (if include then Suc used else used)
            (if include then remaining - int tokens else remaining) ps
      in (if include then c # cs else cs,
          evidence_of hf rank s c tokens (if include then Some used else None) # es))"

record retrieval_result =
  rx_run :: retrieval_run
  rx_supplied :: "indexed_chunk list"

definition environment_text :: "environment \<Rightarrow> string" where
  "environment_text e = (case e of Local \<Rightarrow> ''local'' | Development \<Rightarrow> ''development''
     | Staging \<Rightarrow> ''staging'' | ProductionEnv \<Rightarrow> ''production'')"

definition retrieve ::
    "hash_functions \<Rightarrow> 'k keyring \<Rightarrow> retriever \<Rightarrow> string \<Rightarrow> flt \<Rightarrow> string \<Rightarrow> identity \<Rightarrow> string \<Rightarrow>
     rag_options \<Rightarrow> string \<Rightarrow> string \<Rightarrow> retrieval_result result" where
  "retrieve hf k rt run_id elapsed_ms query identity app opts interaction residency =
     (case (rag_enabled opts, rag_index_id opts) of
        (True, Some index) \<Rightarrow>
          let found = filter (eligible identity app index residency) (rt_chunks rt);
              ranked = take (nat (rt_candidate_limit rt)) (ranking query found);
              (supplied, evidence) = supply_context hf (rt_supplied_limit rt) 1 0 (rt_context_token_budget rt) ranked
          in Inr \<lparr>rx_run = \<lparr>rr_retrieval_run_id = run_id, rr_interaction_id = interaction, rr_index_id = index,
                 rr_index_version = (case map_of (rt_versions rt)
                     (id_tenant_id identity, id_environment identity, residency, index) of
                   None \<Rightarrow> ''unavailable'' | Some v \<Rightarrow> v),
                 rr_filters = [(''tenant_id'', id_tenant_id identity),
                   (''environment'', environment_text (id_environment identity)), (''region'', residency),
                   (''application_id'', app), (''index_id'', index)],
                 rr_query_hash = Some (content_hash hf k query QueryContent), rr_query_ref = None,
                 rr_latency_ms = elapsed_ms, rr_candidates = evidence\<rparr>,
               rx_supplied = supplied\<rparr>
      | _ \<Rightarrow> Inl (ValueError ''retrieval_not_enabled''))"

section \<open>Lemmas\<close>

text \<open>The versions of a built index are those of its chunks, one for each key.\<close>

lemma index_versions_keeps:
  "index_versions cs vs = Inr ws \<Longrightarrow> map_of vs k = Some v \<Longrightarrow> map_of ws k = Some v"
proof (induction cs vs rule: index_versions.induct)
  case (2 c cs vs)
  show ?case
  proof (cases "map_of vs (index_key c)")
    case None
    then have "k \<noteq> index_key c" using 2(4) by auto
    then show ?thesis using 2 None by simp
  qed (use 2 in \<open>auto split: if_splits\<close>)
qed simp

lemma index_versions_of:
  "index_versions cs vs = Inr ws \<Longrightarrow> c \<in> set cs \<Longrightarrow> map_of ws (index_key c) = Some (xc_index_version c)"
proof (induction cs vs rule: index_versions.induct)
  case (2 d cs vs)
  show ?case
  proof (cases "map_of vs (index_key d)")
    case None
    then have rest: "index_versions cs (dict_put (index_key d) (xc_index_version d) vs) = Inr ws"
      using 2(3) by simp
    show ?thesis
    proof (cases "c = d")
      case True
      then show ?thesis using index_versions_keeps [OF rest, of "index_key d"] by simp
    qed (use 2 None rest in auto)
  next
    case (Some v)
    then have rest: "v = xc_index_version d" "index_versions cs vs = Inr ws"
      using 2(3) by (auto split: if_splits)
    show ?thesis
    proof (cases "c = d")
      case True
      then show ?thesis using index_versions_keeps [OF rest(2), of "index_key d"] Some rest(1) by simp
    qed (use 2 Some rest in auto)
  qed
qed simp

lemma index_versions_from:
  "index_versions cs vs = Inr ws \<Longrightarrow> map_of ws k = Some v \<Longrightarrow>
   map_of vs k = Some v \<or> (\<exists>c \<in> set cs. index_key c = k \<and> xc_index_version c = v)"
proof (induction cs vs rule: index_versions.induct)
  case (2 c cs vs)
  then show ?case by (force split: option.splits if_splits)
qed simp

text \<open>What the budget lets through.\<close>

lemma supply_Cons:
  "int used < limit \<Longrightarrow> int (token_count (ck_content c)) \<le> rem \<Longrightarrow>
   supply_context hf limit rank used rem ((s, c) # ps) =
     (c # fst (supply_context hf limit (Suc rank) (Suc used) (rem - int (token_count (ck_content c))) ps),
      evidence_of hf rank s c (token_count (ck_content c)) (Some used) #
        snd (supply_context hf limit (Suc rank) (Suc used) (rem - int (token_count (ck_content c))) ps))"
  "\<not> (int used < limit \<and> int (token_count (ck_content c)) \<le> rem) \<Longrightarrow>
   supply_context hf limit rank used rem ((s, c) # ps) =
     (fst (supply_context hf limit (Suc rank) used rem ps),
      evidence_of hf rank s c (token_count (ck_content c)) None #
        snd (supply_context hf limit (Suc rank) used rem ps))"
  by (auto simp: Let_def split_beta)

lemma supply_cases:
  obtains (fits) "int used < limit" and "int (token_count (ck_content c)) \<le> rem"
  | (skip) "\<not> (int used < limit \<and> int (token_count (ck_content c)) \<le> rem)"
  by blast

declare supply_context.simps(2) [simp del]

lemma supply_subset: "set (fst (supply_context hf limit rank used rem ps)) \<subseteq> snd ` set ps"
proof (induction ps arbitrary: rank used rem)
  case (Cons p ps)
  obtain s c where p: "p = (s, c)" by (cases p)
  show ?case
    by (cases rule: supply_cases [of used limit c rem])
      (use Cons.IH in \<open>auto simp: p supply_Cons simp del: de_Morgan_conj\<close>)
qed simp

lemma supply_length: "length (snd (supply_context hf limit rank used rem ps)) = length ps"
proof (induction ps arbitrary: rank used rem)
  case (Cons p ps)
  obtain s c where p: "p = (s, c)" by (cases p)
  show ?case
    by (cases rule: supply_cases [of used limit c rem])
      (simp_all add: p supply_Cons Cons.IH del: de_Morgan_conj)
qed simp

lemma supply_count:
  "int used \<le> limit \<Longrightarrow> int (used + length (fst (supply_context hf limit rank used rem ps))) \<le> limit"
proof (induction ps arbitrary: rank used rem)
  case (Cons p ps)
  obtain s c where p: "p = (s, c)" by (cases p)
  show ?case
  proof (cases rule: supply_cases [of used limit c rem])
    case fits
    then show ?thesis
      using Cons.IH [of "Suc used" "Suc rank" "rem - int (token_count (ck_content c))"] by (simp add: p supply_Cons)
  next
    case skip
    then show ?thesis using Cons by (simp add: p supply_Cons del: de_Morgan_conj)
  qed
qed simp

lemma supply_tokens:
  "0 \<le> rem \<Longrightarrow>
   int (sum_list (map (\<lambda>c. token_count (ck_content c)) (fst (supply_context hf limit rank used rem ps)))) \<le> rem"
proof (induction ps arbitrary: rank used rem)
  case (Cons p ps)
  obtain s c where p: "p = (s, c)" by (cases p)
  show ?case
  proof (cases rule: supply_cases [of used limit c rem])
    case fits
    then show ?thesis
      using Cons.IH [of "rem - int (token_count (ck_content c))" "Suc rank" "Suc used"] by (simp add: p supply_Cons)
  next
    case skip
    then show ?thesis using Cons by (simp add: p supply_Cons del: de_Morgan_conj)
  qed
qed simp

lemma supply_evidence:
  "i < length ps \<Longrightarrow> \<exists>position. snd (supply_context hf limit rank used rem ps) ! i =
     evidence_of hf (rank + i) (fst (ps ! i)) (snd (ps ! i)) (token_count (ck_content (snd (ps ! i)))) position"
proof (induction ps arbitrary: i rank used rem)
  case (Cons p ps)
  obtain s c where p: "p = (s, c)" by (cases p)
  show ?case
  proof (cases i)
    case 0
    show ?thesis
      by (cases rule: supply_cases [of used limit c rem])
        (auto simp: p 0 supply_Cons simp del: de_Morgan_conj)
  next
    case (Suc j)
    then have j: "j < length ps" using Cons.prems by simp
    show ?thesis
      by (cases rule: supply_cases [of used limit c rem])
        (use Cons.IH [OF j, of "Suc rank"] in \<open>auto simp: p Suc supply_Cons simp del: de_Morgan_conj\<close>)
  qed
qed simp

text \<open>The evidence of the supplied chunks lists them in the order of their positions.\<close>

lemma supply_positions:
  "map (\<lambda>e. (ce_document_id e, ce_chunk_id e, ce_context_position e))
     (filter ce_supplied_to_model (snd (supply_context hf limit rank used rem ps))) =
   map (\<lambda>(i, c). (ck_document_id c, ck_chunk_id c, Some i))
     (enumerate used (fst (supply_context hf limit rank used rem ps)))"
proof (induction ps arbitrary: rank used rem)
  case (Cons p ps)
  obtain s c where p: "p = (s, c)" by (cases p)
  show ?case
    by (cases rule: supply_cases [of used limit c rem])
      (simp_all add: p supply_Cons Cons.IH evidence_of_def del: de_Morgan_conj)
qed simp

lemma sort_key_take_below:
  assumes "x \<in> set (take n (sort_key f xs))" and "y \<in> set (drop n (sort_key f xs))"
  shows "f x \<le> f y"
proof -
  have "sorted (map f (take n (sort_key f xs)) @ map f (drop n (sort_key f xs)))"
    by (simp flip: map_append)
  then show ?thesis using assms unfolding sorted_append by auto
qed

lemma retrieve_InrE:
  assumes "retrieve hf k rt run_id elapsed query identity app opts interaction residency = Inr x"
  obtains index ps where "rag_enabled opts" and "rag_index_id opts = Some index"
    and "ps = take (nat (rt_candidate_limit rt))
           (ranking query (filter (eligible identity app index residency) (rt_chunks rt)))"
    and "rx_supplied x = fst (supply_context hf (rt_supplied_limit rt) 1 0 (rt_context_token_budget rt) ps)"
    and "rr_candidates (rx_run x) = snd (supply_context hf (rt_supplied_limit rt) 1 0 (rt_context_token_budget rt) ps)"
proof -
  obtain index where on: "rag_enabled opts" "rag_index_id opts = Some index"
    using assms by (auto simp: retrieve_def split: bool.splits option.splits)
  from assms on show ?thesis
    by (intro that [OF on refl]) (auto simp: retrieve_def Let_def split_beta)
qed

lemma set_ranking:
  "p \<in> set (ranking query cs) \<longleftrightarrow> snd p \<in> set cs \<and> fst p = score (text_terms query) (ck_content (snd p)) \<and> 0 < fst p"
  by (cases p) (auto simp: ranking_def)

lemma ranked_eligible:
  assumes "p \<in> set (take n (ranking query (filter (eligible identity app index residency) cs)))"
  shows "snd p \<in> set cs \<and> eligible identity app index residency (snd p)"
  using in_set_takeD [OF assms] by (simp add: set_ranking)

lemma retriever_new_Inr:
  assumes "retriever_new cs a b d = Inr rt"
  shows "rt_chunks rt = cs" "rt_candidate_limit rt = a" "rt_supplied_limit rt = b"
    "rt_context_token_budget rt = d" "index_versions cs [] = Inr (rt_versions rt)" "1 \<le> a" "1 \<le> b" "1 \<le> d"
  using assms by (auto simp: retriever_new_def initialize_def bindE_Inr_iff)

section \<open>Properties\<close>

text \<open>Retrieval passes every access constraint before it scores: each chunk it supplies to the
  model, and each chunk it reports as evidence, is one of the corpus with the tenant and the
  environment of the identity, the residency asked for, an application both the identity and the
  chunk allow, and the index of the request.\<close>

theorem retrieval_respects_access:
  assumes "retrieve hf k rt run_id elapsed query identity app opts interaction residency = Inr x"
  shows "\<exists>index. rag_index_id opts = Some index \<and>
    (\<forall>c \<in> set (rx_supplied x). c \<in> set (rt_chunks rt) \<and> eligible identity app index residency c) \<and>
    (\<forall>e \<in> set (rr_candidates (rx_run x)). \<exists>c \<in> set (rt_chunks rt). eligible identity app index residency c \<and>
       ce_document_id e = ck_document_id c \<and> ce_chunk_id e = ck_chunk_id c \<and>
       ce_content_hash e = to_hex (hf_sha256 hf (ck_content c)))"
proof (rule retrieve_InrE [OF assms])
  fix index ps
  assume on: "rag_index_id opts = Some index"
    and ps: "ps = take (nat (rt_candidate_limit rt))
      (ranking query (filter (eligible identity app index residency) (rt_chunks rt)))"
    and sup: "rx_supplied x = fst (supply_context hf (rt_supplied_limit rt) 1 0 (rt_context_token_budget rt) ps)"
    and ev: "rr_candidates (rx_run x) = snd (supply_context hf (rt_supplied_limit rt) 1 0 (rt_context_token_budget rt) ps)"
  have ok: "snd p \<in> set (rt_chunks rt) \<and> eligible identity app index residency (snd p)" if "p \<in> set ps" for p
    using ranked_eligible that unfolding ps by blast
  show ?thesis
  proof (intro exI conjI ballI)
    show "rag_index_id opts = Some index" by (rule on)
  next
    fix c assume "c \<in> set (rx_supplied x)"
    then obtain p where "p \<in> set ps" "c = snd p"
      unfolding sup using supply_subset [of hf "rt_supplied_limit rt" 1 0 "rt_context_token_budget rt" ps] by auto
    then show "c \<in> set (rt_chunks rt)" and "eligible identity app index residency c" using ok by auto
  next
    fix e assume "e \<in> set (rr_candidates (rx_run x))"
    then obtain i where i: "i < length ps" "e = snd (supply_context hf (rt_supplied_limit rt) 1 0 (rt_context_token_budget rt) ps) ! i"
      unfolding ev in_set_conv_nth supply_length by auto
    then obtain position where e: "e = evidence_of hf (1 + i) (fst (ps ! i)) (snd (ps ! i))
        (token_count (ck_content (snd (ps ! i)))) position"
      using supply_evidence by blast
    show "\<exists>c \<in> set (rt_chunks rt). eligible identity app index residency c \<and>
       ce_document_id e = ck_document_id c \<and> ce_chunk_id e = ck_chunk_id c \<and>
       ce_content_hash e = to_hex (hf_sha256 hf (ck_content c))"
      using ok [OF nth_mem [OF i(1)]] by (intro bexI [of _ "snd (ps ! i)"]) (simp_all add: e evidence_of_def)
  qed
qed

text \<open>C24. Tenants do not interfere: what a retrieval returns, down to the reported index version, is the
  same over any two valid corpora that agree on the chunks of the identity's tenant.\<close>

theorem retrieval_noninterference:
  assumes "retriever_new cs a b d = Inr rt" and "retriever_new cs' a b d = Inr rt'"
    and "filter (\<lambda>c. ck_tenant_id c = id_tenant_id identity) cs =
         filter (\<lambda>c. ck_tenant_id c = id_tenant_id identity) cs'"
  shows "retrieve hf k rt run_id elapsed query identity app opts interaction residency =
    retrieve hf k rt' run_id elapsed query identity app opts interaction residency"
proof -
  let ?own = "\<lambda>c. ck_tenant_id c = id_tenant_id identity"
  note new = retriever_new_Inr [OF assms(1)] and new' = retriever_new_Inr [OF assms(2)]
  have found: "filter (eligible identity app index residency) cs = filter (eligible identity app index residency) cs'"
    for index
  proof -
    have narrow: "filter (eligible identity app index residency) (filter ?own xs) =
        filter (eligible identity app index residency) xs" for xs
      unfolding filter_filter by (rule filter_cong [OF refl]) (auto simp: eligible_def)
    show ?thesis using arg_cong [OF assms(3), of "filter (eligible identity app index residency)"]
      unfolding narrow .
  qed
  have one: "map_of vs' key = Some v"
    if h: "index_versions xs [] = Inr vs" "index_versions ys [] = Inr vs'" "filter ?own xs = filter ?own ys"
      "fst key = id_tenant_id identity" "map_of vs key = Some v"
    for xs ys vs vs' key v
  proof -
    obtain c where c: "c \<in> set xs" "index_key c = key" "xc_index_version c = v"
      using index_versions_from [OF h(1) h(5)] by auto
    then have "c \<in> set (filter ?own xs)" using h(4) by (auto simp: index_key_def)
    then have "c \<in> set ys" using h(3) by simp
    then show ?thesis using index_versions_of [OF h(2)] c by blast
  qed
  have "map_of (rt_versions rt) key = map_of (rt_versions rt') key" if "fst key = id_tenant_id identity" for key
    using one [OF new(5) new'(5) assms(3) that] one [OF new'(5) new(5) assms(3) [symmetric] that]
    by (cases "map_of (rt_versions rt) key"; cases "map_of (rt_versions rt') key") auto
  then have versions: "map_of (rt_versions rt) (id_tenant_id identity, e, r, i) =
      map_of (rt_versions rt') (id_tenant_id identity, e, r, i)" for e r i
    by simp
  show ?thesis
    unfolding retrieve_def new(1-4) new'(1-4) found versions by (rule refl)
qed

text \<open>Whatever the corpus holds, the context of a request stays within its limits: no more chunks
  than the limit, no more tokens in total than the budget, and no more candidates than the
  candidate limit.\<close>

theorem retrieval_within_budget:
  assumes "retriever_new cs a b d = Inr rt"
    and "retrieve hf k rt run_id elapsed query identity app opts interaction residency = Inr x"
  shows "int (length (rx_supplied x)) \<le> b \<and>
    int (sum_list (map (\<lambda>c. token_count (ck_content c)) (rx_supplied x))) \<le> d \<and>
    int (length (rr_candidates (rx_run x))) \<le> a"
proof (rule retrieve_InrE [OF assms(2)])
  note new = retriever_new_Inr [OF assms(1)]
  fix index ps
  assume ps: "ps = take (nat (rt_candidate_limit rt))
      (ranking query (filter (eligible identity app index residency) (rt_chunks rt)))"
    and sup: "rx_supplied x = fst (supply_context hf (rt_supplied_limit rt) 1 0 (rt_context_token_budget rt) ps)"
    and ev: "rr_candidates (rx_run x) = snd (supply_context hf (rt_supplied_limit rt) 1 0 (rt_context_token_budget rt) ps)"
  have "int (length ps) \<le> a" using new(2,6) by (simp add: ps)
  then show ?thesis
    unfolding sup ev supply_length
    using supply_count [of 0 b hf 1 d ps] supply_tokens [of d hf b 1 0 ps] new by simp
qed

text \<open>The candidates are the best ones in order: ranks count from one, scores never rise, and a chunk
  that passes the access constraints, shares a term with the query and is not among the candidates
  scores no higher than any of them. The chunks that reach the model are those marked as supplied,
  each at its recorded position.\<close>

theorem retrieval_best_first:
  assumes "retrieve hf k rt run_id elapsed query identity app opts interaction residency = Inr x"
  shows "map ce_rank_retrieved (rr_candidates (rx_run x)) = [1..<Suc (length (rr_candidates (rx_run x)))] \<and>
    sorted (map (\<lambda>e. - ce_retrieval_score e) (rr_candidates (rx_run x))) \<and>
    (\<forall>c \<in> set (rt_chunks rt). \<forall>e \<in> set (rr_candidates (rx_run x)).
       eligible identity app (the (rag_index_id opts)) residency c \<and>
       (ck_document_id c, ck_chunk_id c) \<notin> (\<lambda>e. (ce_document_id e, ce_chunk_id e)) ` set (rr_candidates (rx_run x)) \<longrightarrow>
       score (text_terms query) (ck_content c) \<le> ce_retrieval_score e) \<and>
    map (\<lambda>e. (ce_document_id e, ce_chunk_id e, ce_context_position e))
      (filter ce_supplied_to_model (rr_candidates (rx_run x))) =
    map (\<lambda>(i, c). (ck_document_id c, ck_chunk_id c, Some i)) (enumerate 0 (rx_supplied x))"
proof (rule retrieve_InrE [OF assms])
  fix index ps
  let ?n = "nat (rt_candidate_limit rt)"
  let ?all = "ranking query (filter (eligible identity app index residency) (rt_chunks rt))"
  assume on: "rag_index_id opts = Some index" and ps: "ps = take ?n ?all"
    and sup: "rx_supplied x = fst (supply_context hf (rt_supplied_limit rt) 1 0 (rt_context_token_budget rt) ps)"
    and ev: "rr_candidates (rx_run x) = snd (supply_context hf (rt_supplied_limit rt) 1 0 (rt_context_token_budget rt) ps)"
  let ?es = "rr_candidates (rx_run x)"
  have len: "length ?es = length ps" by (simp add: ev supply_length)
  have nth: "ce_rank_retrieved (?es ! i) = Suc i \<and> ce_retrieval_score (?es ! i) = fst (ps ! i) \<and>
      ce_document_id (?es ! i) = ck_document_id (snd (ps ! i)) \<and> ce_chunk_id (?es ! i) = ck_chunk_id (snd (ps ! i))"
    if i: "i < length ps" for i
  proof -
    obtain position where "?es ! i = evidence_of hf (1 + i) (fst (ps ! i)) (snd (ps ! i))
        (token_count (ck_content (snd (ps ! i)))) position"
      using supply_evidence [OF i] unfolding ev by blast
    then show ?thesis by (simp add: evidence_of_def)
  qed
  have scores: "map (\<lambda>e. - ce_retrieval_score e) ?es = map (\<lambda>p. - fst p) ps"
    by (rule nth_equalityI) (simp_all add: len nth)
  have below: "fst q \<le> fst p" if "rank_key p \<le> rank_key q" for p q
    using that by (auto simp: rank_key_def less_eq_prod_def)
  have "sorted (take n (map rank_key (sort_key rank_key xs)))" for n xs
    by (intro sorted_wrt_take sorted_sort_key)
  then have "sorted (map rank_key ps)"
    unfolding ps ranking_def take_map .
  then have "sorted (map (\<lambda>p. - fst p) ps)"
    unfolding sorted_map by (rule sorted_wrt_mono_rel [rotated]) (use below in auto)
  moreover have "map ce_rank_retrieved ?es = [1..<Suc (length ?es)]"
    by (rule nth_equalityI) (simp_all add: len nth del: upt_Suc)
  moreover have "score (text_terms query) (ck_content c) \<le> ce_retrieval_score e"
    if c: "c \<in> set (rt_chunks rt)" "eligible identity app index residency c"
      and out: "(ck_document_id c, ck_chunk_id c) \<notin> (\<lambda>e. (ce_document_id e, ce_chunk_id e)) ` set ?es"
      and e: "e \<in> set ?es" for c e
  proof -
    from e obtain i where i: "i < length ps" "e = ?es ! i" by (auto simp: in_set_conv_nth len)
    then have p: "ps ! i \<in> set ps" "ce_retrieval_score e = fst (ps ! i)" using nth by auto
    let ?q = "(score (text_terms query) (ck_content c), c)"
    have pos: "0 < fst (ps ! i)" using in_set_takeD [OF p(1) [unfolded ps]] by (simp add: set_ranking ps)
    show ?thesis
    proof (cases "0 < fst ?q")
      case True
      then have "?q \<in> set ?all" using c by (simp add: set_ranking)
      moreover have "?q \<notin> set ps"
      proof
        assume "?q \<in> set ps"
        then obtain j where j: "j < length ps" "ps ! j = ?q" by (auto simp: in_set_conv_nth)
        then have "?es ! j \<in> set ?es" using len by simp
        moreover have "(ce_document_id (?es ! j), ce_chunk_id (?es ! j)) = (ck_document_id c, ck_chunk_id c)"
          using nth [OF j(1)] j(2) by simp
        ultimately show False using out by (metis (mono_tags, lifting) image_eqI)
      qed
      ultimately have "?q \<in> set (drop ?n ?all)"
        unfolding ps by (metis Un_iff append_take_drop_id set_append)
      then have "rank_key (ps ! i) \<le> rank_key ?q"
        using p(1) unfolding ps ranking_def by (intro sort_key_take_below)
      then show ?thesis using below p(2) by fastforce
    qed (use pos p(2) in simp)
  qed
  ultimately show ?thesis
    using supply_positions [of hf "rt_supplied_limit rt" 1 0 "rt_context_token_budget rt" ps] scores
    by (simp add: on ev sup)
qed

section \<open>A sample\<close>

definition own_chunk :: indexed_chunk where
  "own_chunk = \<lparr>ck_tenant_id = ''t'', ck_environment = Local, ck_region = ''eu'',
     ck_allowed_applications = [''app''], ck_index_id = ''docs'', ck_document_id = ''d'',
     ck_document_version = ''1'', ck_document_family = ''f'', ck_chunk_id = ''c'', ck_content = ''alpha beta'',
     ck_licence_class = InternalApproved, xc_index_version = ''v1''\<rparr>"

definition foreign_chunk :: indexed_chunk where
  "foreign_chunk = own_chunk\<lparr>ck_tenant_id := ''u'', xc_index_version := ''v2''\<rparr>"

definition reader :: identity where
  "reader = \<lparr>id_tenant_id = ''t'', id_application_ids = [''app''], id_environment = Local,
     id_subject = None, id_key_class = UserKey, id_dataset_tenants = [], id_capabilities = []\<rparr>"

definition reader_options :: rag_options where
  "reader_options = \<lparr>rag_enabled = True, rag_index_id = Some ''docs''\<rparr>"

definition sample_retriever :: "indexed_chunk list \<Rightarrow> retriever" where
  "sample_retriever cs = \<lparr>rt_chunks = cs, rt_versions =
     map (\<lambda>c. (index_key c, xc_index_version c)) cs,
     rt_candidate_limit = 10, rt_supplied_limit = 3, rt_context_token_budget = 8\<rparr>"

lemma sample_retriever_new:
  "retriever_new [own_chunk, foreign_chunk] 10 3 8 = Inr (sample_retriever [own_chunk, foreign_chunk])"
  "retriever_new [own_chunk] 10 3 8 = Inr (sample_retriever [own_chunk])"
  by (simp_all add: retriever_new_def initialize_def sample_retriever_def foreign_chunk_def own_chunk_def index_key_def)

lemma sample_ranking: "ranking ''alpha'' [own_chunk] = [(1, own_chunk)]"
  by (simp add: ranking_def score_def text_terms_def casefold_def find_words_def own_chunk_def to_lower_def
      is_upper_def is_lower_def is_digit_def is_word_char_def code_def)

lemma sample_tokens: "token_count ''alpha beta'' = 2"
  by (simp add: token_count_def token_ends_def is_space_def code_def)

lemma sample_eligible:
  "filter (eligible reader ''app'' ''docs'' ''eu'') [own_chunk, foreign_chunk] = [own_chunk]"
  by (simp add: eligible_def reader_def own_chunk_def foreign_chunk_def)

definition sample_result :: retrieval_result where
  "sample_result = (case retrieve echo_hash sample_keyring (sample_retriever [own_chunk, foreign_chunk]) ''r'' 1
     ''alpha'' reader ''app'' reader_options ''i'' ''eu'' of Inr x \<Rightarrow> x)"

lemma sample_retrieved:
  "retrieve echo_hash sample_keyring (sample_retriever [own_chunk, foreign_chunk]) ''r'' 1
     ''alpha'' reader ''app'' reader_options ''i'' ''eu'' = Inr sample_result"
  and sample_supplied: "rx_supplied sample_result = [own_chunk]"
  using sample_eligible sample_ranking sample_tokens unfolding sample_result_def
  by (simp_all add: retrieve_def reader_options_def sample_retriever_def Let_def supply_context.simps)
    (simp_all add: own_chunk_def)

theorem retrieval_respects_access_witness:
  "own_chunk \<in> set (rx_supplied sample_result) \<and> eligible reader ''app'' ''docs'' ''eu'' own_chunk"
  using retrieval_respects_access [OF sample_retrieved] sample_supplied by (auto simp: reader_options_def)

theorem retrieval_noninterference_witness:
  "retrieve echo_hash sample_keyring (sample_retriever [own_chunk]) ''r'' 1 ''alpha'' reader ''app''
     reader_options ''i'' ''eu'' = Inr sample_result"
  using retrieval_noninterference [OF sample_retriever_new(2,1), of reader echo_hash sample_keyring "''r''" 1
      "''alpha''" "''app''" reader_options "''i''" "''eu''"] sample_retrieved
  by (simp add: foreign_chunk_def own_chunk_def reader_def)

theorem retrieval_within_budget_witness:
  "length (rx_supplied sample_result) \<le> 3 \<and> rx_supplied sample_result = [own_chunk]"
  using retrieval_within_budget [OF sample_retriever_new(1) sample_retrieved] sample_supplied by simp

theorem retrieval_best_first_witness:
  "map ce_rank_retrieved (rr_candidates (rx_run sample_result)) = [1..<Suc (length (rr_candidates (rx_run sample_result)))]"
  using retrieval_best_first [OF sample_retrieved] by blast

end
