(* ===== verification/Validation.thy ===== *)
theory Validation
  imports Regex Providers
begin

text \<open>
  The deterministic checks of an answer, \<open>validation/__init__.py\<close>, with \<open>matches_schema\<close> of
  \<open>structured/__init__.py\<close>. Parsing a text as JSON, the schema validator of jsonschema and the
  Unicode classes of letters are parameters: \<open>None\<close> is a parser that raised. Reading the
  configuration files is not modelled: the configurations are given by the application they are for.
\<close>

section \<open>Parameters\<close>

record validation_env =
  ve_loads :: "string \<Rightarrow> json option"
  ve_schema_valid :: "json \<Rightarrow> json \<Rightarrow> bool option"
  ve_is_alpha :: "char \<Rightarrow> bool"
  ve_is_latin :: "char \<Rightarrow> bool"

definition matches_schema :: "validation_env \<Rightarrow> string \<Rightarrow> json \<Rightarrow> bool" where
  "matches_schema env content schema =
     (case ve_loads env content of
        None \<Rightarrow> False
      | Some v \<Rightarrow> (case ve_schema_valid env schema v of None \<Rightarrow> False | Some b \<Rightarrow> b))"

section \<open>Configuration\<close>

datatype domain_kind = RequiredText | ForbiddenText | RequiredJsonKey

record domain_test =
  dt_name :: ident
  dt_version :: ident
  dt_kind :: domain_kind
  dt_value :: string

definition domain_test_fields :: "domain_test \<Rightarrow> bool" where
  "domain_test_fields t =
     (valid_identifier (dt_name t) \<and> valid_identifier (dt_version t) \<and>
      1 \<le> length (dt_value t) \<and> length (dt_value t) \<le> 200)"

definition default_severities :: "(string \<times> severity) list" where
  "default_severities =
     [(''non_empty'', Hard), (''citation_ids'', Hard), (''json_object'', Hard), (''json_schema'', Hard),
      (''tool_allowlist'', Hard), (''citation_required'', Advisory), (''groundedness'', Advisory),
      (''language'', Advisory), (''repetition'', Advisory), (''truncation'', Advisory)]"

record domain_config =
  dg_tests :: "domain_test list"
  dg_severity :: "(string \<times> severity) list"

definition default_config :: domain_config where
  "default_config = \<lparr>dg_tests = [], dg_severity = []\<rparr>"

definition domain_check_name :: "domain_test \<Rightarrow> string" where
  "domain_check_name t = ''domain.'' @ dt_name t"

definition known_check_names :: "domain_config \<Rightarrow> domain_config result" where
  "known_check_names c = raise_first
     [(length (remdups (map domain_check_name (dg_tests c))) \<noteq> length (dg_tests c), ''duplicate_domain_check''),
      (\<not> list_all (\<lambda>(k, _). k \<in> set (map fst default_severities) \<union> set (map domain_check_name (dg_tests c)))
            (dg_severity c), ''unknown_validation_check'')] c"

definition domain_config_validate :: "domain_config \<Rightarrow> domain_config result" where
  "domain_config_validate c = contract_new
     (length (dg_tests c) \<le> 32 \<and> list_all domain_test_fields (dg_tests c)) (known_check_names c)"

section \<open>Grounding\<close>

definition connectives :: "string list" where
  "connectives =
     [''however'', ''therefore'', ''in addition'', ''for example'', ''in conclusion'', ''nevertheless'',
      ''furthermore'', ''to summarize'']"

definition reference_chars :: "char \<Rightarrow> bool" where
  "reference_chars c = (is_word_char c \<or> one_of ''.-'' c)"

definition citation_pattern :: rx where
  "citation_pattern =
     Seq (literal ''['') (Seq (Plus (Class reference_chars)) (Seq (literal ''/'')
       (Seq (Plus (Class reference_chars)) (literal '']''))))"

definition nul :: char where
  "nul = char_of (0::nat)"

text \<open>The sentences between the ends \<open>[!?]|\.(?=\s|$)|\n+\<close>.\<close>

definition sentence_end :: rx where
  "sentence_end =
     Alt (Class (one_of ''!?''))
    (Alt (Seq (literal ''.'') (NotAhead (\<lambda>c. \<not> is_space c)))
         (Plus (Class (\<lambda>c. code c = 10))))"

definition sentences :: "string \<Rightarrow> string list" where
  "sentences t = gaps t 0 (spans sentence_end t)"

definition lstrip :: "string \<Rightarrow> string" where
  "lstrip s = dropWhile is_space s"

definition strip :: "string \<Rightarrow> string" where
  "strip s = rev (lstrip (rev (lstrip s)))"

definition answer_prefix :: string where
  "answer_prefix = ''SYNTHETIC ANSWER:''"

definition claim_of :: "string \<Rightarrow> string" where
  "claim_of sentence =
     (let claim = strip (filter (\<lambda>c. c \<noteq> nul) sentence)
      in strip (if starts_with answer_prefix claim then lstrip (drop (length answer_prefix) claim) else claim))"

fun supported :: "string list list \<Rightarrow> string list \<Rightarrow> bool" where
  "supported evidence [] = True"
| "supported evidence (sentence # rest) =
     (let claim = claim_of sentence; normalized = join '' '' (text_words claim)
      in if normalized = [] then supported evidence rest
         else if nul \<notin> set sentence \<and> normalized \<in> set connectives then supported evidence rest
         else if list_ex (\<lambda>g. g \<in> set evidence) (windows 5 (text_words claim)) then supported evidence rest
         else False)"

definition grounded :: "validation_env \<Rightarrow> string \<Rightarrow> string list \<Rightarrow> bool" where
  "grounded env t context =
     (if context = [] then True
      else supported (concat (map (\<lambda>c. windows 5 (text_words c)) context))
        (sentences (substitute citation_pattern (\<lambda>_. [nul]) t)))"

section \<open>The checks\<close>

fun text_values :: "json \<Rightarrow> string list" where
  "text_values (JStr s) = [s]"
| "text_values (JObj kvs) = concat (map (\<lambda>kv. text_values (snd kv)) kvs)"
| "text_values (JArr vs) = concat (map text_values vs)"
| "text_values _ = []"

text \<open>The two groups of a citation mark.\<close>

definition citation_pair :: "string \<Rightarrow> string \<times> string" where
  "citation_pair mark =
     (let inner = butlast (tl mark)
      in (takeWhile (\<lambda>c. c \<noteq> CHR ''/'') inner, tl (dropWhile (\<lambda>c. c \<noteq> CHR ''/'') inner)))"

definition cited :: "provider_result \<Rightarrow> (string \<times> string) list" where
  "cited r = map (\<lambda>c. (ci_document_id c, ci_chunk_id c)) (ps_citations r) @
     map citation_pair (find_all citation_pattern (ps_content r))"

definition check ::
    "domain_config \<Rightarrow> string \<Rightarrow> bool \<Rightarrow> string \<Rightarrow> severity \<Rightarrow> bool \<Rightarrow> validation_check" where
  "check config name passed version fallback critical =
     (let severity = (case map_of (dg_severity config) name of
            Some s \<Rightarrow> s
          | None \<Rightarrow> (case map_of default_severities name of Some s \<Rightarrow> s | None \<Rightarrow> fallback))
      in \<lparr>vc_version = version, vc_name = name, vc_passed = passed,
          vc_severity = (if name = ''json_schema'' then Hard else severity), vc_critical_safety = critical\<rparr>)"

definition rule_version :: string where
  "rule_version = ''deterministic-1''"

definition is_object :: "json option \<Rightarrow> bool" where
  "is_object v = (case v of Some (JObj _) \<Rightarrow> True | _ \<Rightarrow> False)"

definition format_checks ::
    "validation_env \<Rightarrow> domain_config \<Rightarrow> provider_request \<Rightarrow> provider_result \<Rightarrow> validation_check list result" where
  "format_checks env config request r =
     (case rf_type (pr_response_format request) of
        TextFormat \<Rightarrow> Inr []
      | JsonObjectFormat \<Rightarrow>
          Inr [check config ''json_object'' (is_object (ve_loads env (ps_content r))) rule_version Hard False]
      | JsonSchemaFormat \<Rightarrow>
          (case rf_schema (pr_response_format request) of
             None \<Rightarrow> Inl OtherException
           | Some s \<Rightarrow> Inr [check config ''json_schema''
               (matches_schema env (ps_content r) (schema_body s)) rule_version Hard False]))"

definition checked_object :: "validation_env \<Rightarrow> provider_request \<Rightarrow> provider_result \<Rightarrow> json option" where
  "checked_object env request r =
     (if rf_type (pr_response_format request) = TextFormat then None else ve_loads env (ps_content r))"

definition checked_text :: "validation_env \<Rightarrow> provider_request \<Rightarrow> provider_result \<Rightarrow> string" where
  "checked_text env request r =
     (if rf_type (pr_response_format request) = TextFormat then ps_content r
      else join [char_of (10::nat)] (case ve_loads env (ps_content r) of None \<Rightarrow> [] | Some v \<Rightarrow> text_values v))"

definition latin_enough :: "validation_env \<Rightarrow> string \<Rightarrow> bool" where
  "latin_enough env t =
     (let letters = filter (ve_is_alpha env) t
      in letters = [] \<or> of_nat (length (filter (ve_is_latin env) letters)) / of_nat (length letters) \<ge> (9 / 10 :: rat))"

text \<open>No run of five words occurs three times.\<close>

definition no_repetition :: "string \<Rightarrow> bool" where
  "no_repetition t =
     (let runs = windows 5 (text_words t) in list_all (\<lambda>g. length (filter (\<lambda>h. h = g) runs) < 3) runs)"

definition has_key :: "string \<Rightarrow> json option \<Rightarrow> bool" where
  "has_key k v = (case v of Some (JObj kvs) \<Rightarrow> k \<in> set (map fst kvs) | _ \<Rightarrow> False)"

definition domain_passed :: "string \<Rightarrow> json option \<Rightarrow> domain_test \<Rightarrow> bool" where
  "domain_passed t v test =
     (case dt_kind test of
        RequiredText \<Rightarrow> contains (casefold (dt_value test)) (casefold t)
      | ForbiddenText \<Rightarrow> \<not> contains (casefold (dt_value test)) (casefold t)
      | RequiredJsonKey \<Rightarrow> has_key (dt_value test) v)"

definition domain_check :: "domain_config \<Rightarrow> string \<Rightarrow> json option \<Rightarrow> domain_test \<Rightarrow> validation_check" where
  "domain_check config t v test =
     check config (domain_check_name test) (domain_passed t v test) (dt_version test)
       (if dt_kind test = RequiredText then Advisory else Hard) (dt_kind test = ForbiddenText)"

definition answer_checks ::
    "validation_env \<Rightarrow> domain_config \<Rightarrow> provider_request \<Rightarrow> provider_result \<Rightarrow> validation_check list result" where
  "answer_checks env config request r =
     (let supplied = map (\<lambda>c. (ck_document_id c, ck_chunk_id c)) (pr_context request);
          t = checked_text env request r
      in bindE (format_checks env config request r) (\<lambda>format. Inr (
        [check config ''non_empty'' (nonblank (ps_content r)) rule_version Hard False,
         check config ''citation_ids'' (set (cited r) \<subseteq> set supplied) rule_version Hard False,
         check config ''citation_required'' (supplied = [] \<or> cited r \<noteq> []) rule_version Hard False] @
        format @
        [check config ''groundedness'' (grounded env t (map ck_content (pr_context request)))
           ''five-gram-heuristic-1'' Hard False,
         check config ''language'' (latin_enough env t) ''english-latin-script-heuristic-1'' Hard False,
         check config ''repetition'' (no_repetition t) rule_version Hard False,
         check config ''truncation'' (ps_finish_reason r \<noteq> Length) rule_version Hard False,
         check config ''tool_allowlist'' (ps_tool_calls r = []) rule_version Hard True] @
        map (domain_check config t (checked_object env request r)) (dg_tests config))))"

definition validate ::
    "validation_env \<Rightarrow> (string \<times> domain_config) list \<Rightarrow> provider_request \<Rightarrow> provider_result \<Rightarrow> validation result" where
  "validate env configs request r =
     (let config = (case map_of configs (pr_application_id request) of None \<Rightarrow> default_config | Some c \<Rightarrow> c)
      in bindE (answer_checks env config request r) (\<lambda>checks. Inr
           \<lparr>va_validator_version = ''local-validator-3'',
            va_passed = list_all (\<lambda>c. vc_severity c = Hard \<longrightarrow> vc_passed c) checks,
            va_checks = checks\<rparr>))"

section \<open>Lemmas\<close>

lemma check_name [simp]: "vc_name (check c n p v f b) = n"
  by (simp add: check_def Let_def)

lemma check_passed [simp]: "vc_passed (check c n p v f b) = p"
  by (simp add: check_def Let_def)

lemma domain_check_passed [simp]: "vc_passed (domain_check c t v d) = domain_passed t v d"
  by (simp add: domain_check_def)

lemma domain_check_check_name [simp]: "vc_name (domain_check c t v d) = domain_check_name d"
  by (simp add: domain_check_def)

lemma severity_default:
  "map_of default_severities n = Some s \<Longrightarrow>
   vc_severity (check default_config n p v f b) = (if n = ''json_schema'' then Hard else s)"
  by (simp add: check_def default_config_def)

lemma no_tests [simp]: "dg_tests default_config = []"
  by (simp add: default_config_def)

lemma json_schema_hard [simp]: "vc_severity (check c ''json_schema'' p v f b) = Hard"
  by (simp add: check_def)

lemma validate_InrE:
  assumes "validate env configs request r = Inr v"
  obtains checks where "answer_checks env (case map_of configs (pr_application_id request) of
      None \<Rightarrow> default_config | Some c \<Rightarrow> c) request r = Inr checks"
    and "va_checks v = checks" and "va_passed v \<longleftrightarrow> (\<forall>c \<in> set checks. vc_severity c = Hard \<longrightarrow> vc_passed c)"
  using assms by (auto simp: validate_def Let_def bindE_Inr_iff list_all_iff)

lemma answer_checks_InrE:
  assumes "answer_checks env config request r = Inr checks"
  obtains format where "format_checks env config request r = Inr format"
    and "checks =
        [check config ''non_empty'' (nonblank (ps_content r)) rule_version Hard False,
         check config ''citation_ids'' (set (cited r) \<subseteq> (\<lambda>c. (ck_document_id c, ck_chunk_id c)) ` set (pr_context request))
           rule_version Hard False,
         check config ''citation_required'' (pr_context request = [] \<or> cited r \<noteq> []) rule_version Hard False] @
        format @
        [check config ''groundedness'' (grounded env (checked_text env request r) (map ck_content (pr_context request)))
           ''five-gram-heuristic-1'' Hard False,
         check config ''language'' (latin_enough env (checked_text env request r))
           ''english-latin-script-heuristic-1'' Hard False,
         check config ''repetition'' (no_repetition (checked_text env request r)) rule_version Hard False,
         check config ''truncation'' (ps_finish_reason r \<noteq> Length) rule_version Hard False,
         check config ''tool_allowlist'' (ps_tool_calls r = []) rule_version Hard True] @
        map (domain_check config (checked_text env request r) (checked_object env request r)) (dg_tests config)"
  using assms by (auto simp: answer_checks_def Let_def bindE_Inr_iff)

section \<open>Properties\<close>

text \<open>For an application without a configuration of its own an answer passes exactly when it is not
  blank, cites nothing but supplied chunks (in its citations and in its text), is an object when
  one was asked for and satisfies the schema when one was given, and calls no tool. Grounding,
  language, repetition, missing citations and truncation are only reported.\<close>

theorem validation_passes_iff:
  assumes "map_of configs (pr_application_id request) = None"
    and "validate env configs request r = Inr v"
  shows "va_passed v \<longleftrightarrow>
     nonblank (ps_content r) \<and>
     set (cited r) \<subseteq> (\<lambda>c. (ck_document_id c, ck_chunk_id c)) ` set (pr_context request) \<and>
     (rf_type (pr_response_format request) = JsonObjectFormat \<longrightarrow> is_object (ve_loads env (ps_content r))) \<and>
     (rf_type (pr_response_format request) = JsonSchemaFormat \<longrightarrow>
        matches_schema env (ps_content r) (schema_body (the (rf_schema (pr_response_format request))))) \<and>
     ps_tool_calls r = []"
proof -
  obtain checks where checks: "answer_checks env default_config request r = Inr checks"
    and passed: "va_passed v \<longleftrightarrow> (\<forall>c \<in> set checks. vc_severity c = Hard \<longrightarrow> vc_passed c)"
    using assms by (elim validate_InrE) simp
  obtain format where format: "format_checks env default_config request r = Inr format"
    and all: "checks =
        [check default_config ''non_empty'' (nonblank (ps_content r)) rule_version Hard False,
         check default_config ''citation_ids'' (set (cited r) \<subseteq> (\<lambda>c. (ck_document_id c, ck_chunk_id c)) ` set (pr_context request))
           rule_version Hard False,
         check default_config ''citation_required'' (pr_context request = [] \<or> cited r \<noteq> []) rule_version Hard False] @
        format @
        [check default_config ''groundedness'' (grounded env (checked_text env request r) (map ck_content (pr_context request)))
           ''five-gram-heuristic-1'' Hard False,
         check default_config ''language'' (latin_enough env (checked_text env request r))
           ''english-latin-script-heuristic-1'' Hard False,
         check default_config ''repetition'' (no_repetition (checked_text env request r)) rule_version Hard False,
         check default_config ''truncation'' (ps_finish_reason r \<noteq> Length) rule_version Hard False,
         check default_config ''tool_allowlist'' (ps_tool_calls r = []) rule_version Hard True] @
        map (domain_check default_config (checked_text env request r) (checked_object env request r)) []"
    using checks by (elim answer_checks_InrE) simp
  have fmt: "(\<forall>c \<in> set format. vc_severity c = Hard \<longrightarrow> vc_passed c) \<longleftrightarrow>
     (rf_type (pr_response_format request) = JsonObjectFormat \<longrightarrow> is_object (ve_loads env (ps_content r))) \<and>
     (rf_type (pr_response_format request) = JsonSchemaFormat \<longrightarrow>
        matches_schema env (ps_content r) (schema_body (the (rf_schema (pr_response_format request)))))"
    using format by (auto simp: format_checks_def severity_default default_severities_def
        split: format_type.splits option.splits)
  show ?thesis
    unfolding passed all using fmt
    by (auto simp: ball_Un severity_default default_severities_def)
qed

text \<open>No configuration can waive the schema: an answer to a request for a JSON schema passes only
  when its content satisfies that schema.\<close>

theorem schema_never_waived:
  assumes "validate env configs request r = Inr v" and "va_passed v"
    and "rf_type (pr_response_format request) = JsonSchemaFormat"
  shows "\<exists>s. rf_schema (pr_response_format request) = Some s \<and> matches_schema env (ps_content r) (schema_body s)"
proof -
  obtain config checks where checks: "answer_checks env config request r = Inr checks"
    and passed: "\<forall>c \<in> set checks. vc_severity c = Hard \<longrightarrow> vc_passed c"
    using assms(1,2) by (elim validate_InrE) blast
  obtain s where s: "rf_schema (pr_response_format request) = Some s"
    using checks assms(3) by (elim answer_checks_InrE) (auto simp: format_checks_def split: option.splits)
  have "check config ''json_schema'' (matches_schema env (ps_content r) (schema_body s)) rule_version Hard False \<in> set checks"
    using checks assms(3) s by (elim answer_checks_InrE) (auto simp: format_checks_def)
  then show ?thesis using passed s by fastforce
qed

text \<open>Under an accepted configuration the checks of an answer have distinct names, so a severity that
  is configured decides one check and the report can be read by name.\<close>

theorem check_names_distinct:
  assumes "domain_config_validate config = Inr config'" and "answer_checks env config request r = Inr checks"
  shows "distinct (map vc_name checks)"
proof -
  have names: "distinct (map domain_check_name (dg_tests config))"
    using assms(1) by (auto simp: domain_config_validate_def known_check_names_def contract_simps
        split: if_splits) (metis card_distinct length_map length_remdups_card_conv)
  have fresh: "domain_check_name t \<noteq> n" if "n \<in> set (map fst default_severities)" for t n
    using that by (auto simp: domain_check_name_def default_severities_def)
  obtain format where format: "format_checks env config request r = Inr format"
    and all: "map vc_name checks = [''non_empty'', ''citation_ids'', ''citation_required''] @ map vc_name format @
      [''groundedness'', ''language'', ''repetition'', ''truncation'', ''tool_allowlist''] @
      map domain_check_name (dg_tests config)"
    using assms(2) by (elim answer_checks_InrE) (simp add: comp_def)
  then have cases: "format = [] \<or> map vc_name format = [''json_object''] \<or> map vc_name format = [''json_schema'']"
    by (auto simp: format_checks_def split: format_type.splits option.splits)
  have away: "set (map domain_check_name (dg_tests config)) \<inter> set (map fst default_severities) = {}"
    using fresh by auto
  have "distinct (map fst default_severities)" by (simp add: default_severities_def)
  then show ?thesis
    unfolding all using names cases away by (elim disjE) (simp_all add: default_severities_def)
qed

section \<open>A sample\<close>

definition plain_env :: validation_env where
  "plain_env = \<lparr>ve_loads = (\<lambda>s. if s = ''{}'' then Some (JObj []) else None),
     ve_schema_valid = (\<lambda>s v. Some (s = v)), ve_is_alpha = (\<lambda>c. is_lower (to_lower c)),
     ve_is_latin = (\<lambda>_. True)\<rparr>"

definition object_request :: provider_request where
  "object_request = \<lparr>pr_messages = [], pr_context = [],
     pr_response_format = \<lparr>rf_type = JsonSchemaFormat, rf_schema = Some \<lparr>schema_name = ''s'', schema_body = JObj []\<rparr>\<rparr>,
     pr_max_output_tokens = 5, pr_application_id = ''app'', pr_deadline_ms = 100, pr_temperature = 0\<rparr>"

definition object_answer :: provider_result where
  "object_answer = \<lparr>ps_content = ''{}'', ps_citations = [],
     ps_usage = \<lparr>us_input_tokens = 0, us_output_tokens = 1, us_cached_input_tokens = None,
       us_reasoning_tokens = None, us_source = LocallyEstimated, us_tokenizer = ''t''\<rparr>,
     ps_finish_reason = Stop, ps_latency_ms = 0, ps_tool_calls = []\<rparr>"

definition object_validation :: validation where
  "object_validation = (case validate plain_env [] object_request object_answer of Inr v \<Rightarrow> v)"

lemma object_validated: "validate plain_env [] object_request object_answer = Inr object_validation"
  by (simp add: object_validation_def validate_def answer_checks_def format_checks_def object_request_def Let_def)

lemma object_cited: "cited object_answer = []"
  by (simp add: cited_def object_answer_def find_all_def spans_def spans_from.simps match_end_def
      citation_pattern_def char_at_def eval_nat_numeral)

theorem validation_passes_iff_witness: "va_passed object_validation"
  using validation_passes_iff [OF _ object_validated] object_cited
  by (simp add: object_request_def object_answer_def matches_schema_def plain_env_def nonblank_def
      is_space_def code_def)

theorem schema_never_waived_witness:
  "matches_schema plain_env ''{}'' (JObj []) \<and> va_passed object_validation"
proof -
  have passed: "va_passed object_validation"
    by (simp add: object_validation_def validate_def answer_checks_def format_checks_def object_cited
        object_request_def severity_default default_severities_def Let_def)
      (simp add: object_answer_def matches_schema_def plain_env_def nonblank_def is_space_def code_def default_config_def)
  then show ?thesis
    using schema_never_waived [OF object_validated passed] by (simp add: object_request_def object_answer_def)
qed

definition sample_config :: domain_config where
  "sample_config = \<lparr>dg_tests = [\<lparr>dt_name = ''greeting'', dt_version = ''1'', dt_kind = RequiredText, dt_value = ''hello''\<rparr>],
     dg_severity = [(''groundedness'', Hard)]\<rparr>"

theorem check_names_distinct_witness:
  "\<exists>checks. answer_checks plain_env sample_config object_request object_answer = Inr checks \<and>
     distinct (map vc_name checks)"
proof -
  have ok: "domain_config_validate sample_config = Inr sample_config"
    by (simp add: domain_config_validate_def known_check_names_def sample_config_def contract_new_def
        domain_test_fields_def default_severities_def domain_check_name_def scalar_defs)
  obtain checks where "answer_checks plain_env sample_config object_request object_answer = Inr checks"
    by (simp add: answer_checks_def format_checks_def object_request_def Let_def)
  then show ?thesis using check_names_distinct [OF ok] by blast
qed

end
