(* ===== verification/Feedback.thy ===== *)
theory Feedback
  imports Persistence_Laws Validation
begin

text \<open>
  User labels and corrections, \<open>gateway/feedback.py\<close>: one transaction that checks the interaction
  and the caller, validates a correction against the stored response format before and after
  redaction, encrypts the text, stores the label, appends it to the interaction and queues its
  event. The policy engine is an argument, \<open>fe_load_format\<close> is the codec of the response format,
  and \<open>dw_clock\<close> holds the readings of the clock in the order of the source.
\<close>

section \<open>The service\<close>

datatype feedback_body = LabelBody feedback_input | CorrectionBody correction_input

record feedback_env =
  fe_validation :: validation_env
  fe_load_format :: "string \<Rightarrow> response_format result"
  fe_decide :: "identity \<Rightarrow> string \<Rightarrow> policy_decision"

definition raise_op :: "exc \<Rightarrow> 'a op" where
  "raise_op e db = (Inl e, db)"

text \<open>\<open>_response_format\<close>: whatever goes wrong is reported without content.\<close>

definition response_format_of ::
    "('k, 's) persistence_env \<Rightarrow> feedback_env \<Rightarrow> instant \<Rightarrow> interaction \<Rightarrow> response_format option op" where
  "response_format_of env fe t x =
     (case is_response_format_ref (ia_input x) of
        None \<Rightarrow> return_op None
      | Some ref \<Rightarrow> bind_op (get_payload (ia_tenant_id x) ref t) (\<lambda>found.
          case (case found of
                  None \<Rightarrow> Inl (ValueError [])
                | Some b \<Rightarrow> bindE (decrypt (pe_aead env) (pe_cipher env) b (ia_tenant_id x)
                    (ia_interaction_id x) ''response_format'' None) (fe_load_format fe)) of
            Inl _ \<Rightarrow> raise_op (GatewayError 503 ''correction_schema_unavailable'')
          | Inr f \<Rightarrow> return_op (Some f)))"

definition target_valid :: "feedback_env \<Rightarrow> string \<Rightarrow> response_format option \<Rightarrow> bool" where
  "target_valid fe content fmt =
     (case fmt of
        None \<Rightarrow> True
      | Some f \<Rightarrow>
          if rf_type f = TextFormat then True
          else case rf_schema f of
            Some s \<Rightarrow> matches_schema (fe_validation fe) content (schema_body s)
          | None \<Rightarrow> is_object (ve_loads (fe_validation fe) content))"

definition validate_target :: "feedback_env \<Rightarrow> string \<Rightarrow> response_format option \<Rightarrow> unit op" where
  "validate_target fe content fmt =
     guard_op (target_valid fe content fmt) (GatewayError 422 ''invalid_correction_target'')"

definition is_correction :: "feedback_body \<Rightarrow> bool" where
  "is_correction body = (case body of CorrectionBody _ \<Rightarrow> True | LabelBody _ \<Rightarrow> False)"

definition body_content :: "feedback_body \<Rightarrow> string option" where
  "body_content body = (case body of CorrectionBody c \<Rightarrow> Some (co_correction c) | LabelBody f \<Rightarrow> fi_comment f)"

definition new_label :: "string \<Rightarrow> instant \<Rightarrow> identity \<Rightarrow> string \<Rightarrow> feedback_body \<Rightarrow> feedback" where
  "new_label feedback_id created identity i body =
     \<lparr>fb_interaction_id = i, fb_feedback_id = feedback_id, fb_source = UserSource,
      fb_label_type = (case body of CorrectionBody _ \<Rightarrow> Correction | LabelBody f \<Rightarrow> fi_label_type f),
      fb_value = (case body of CorrectionBody _ \<Rightarrow> \<lparr>fv_score = 1, fv_max_score = 1\<rparr> | LabelBody f \<Rightarrow> fi_value f),
      fb_comment_ref = None, fb_correction_ref = None, fb_content_hash = None, fb_error_code = None,
      fb_rubric_version = (case body of CorrectionBody _ \<Rightarrow> None | LabelBody f \<Rightarrow> fi_rubric_version f),
      fb_judge_version = None, fb_actor = id_subject identity,
      fb_training_authorised = (case body of CorrectionBody c \<Rightarrow> co_training_authorised c
        | LabelBody f \<Rightarrow> fi_training_authorised f),
      fb_created_at = created\<rparr>"

text \<open>The interaction a label may be attached to, when it may, with its policy and expiry.\<close>

definition label_target ::
    "feedback_env \<Rightarrow> instant \<Rightarrow> identity \<Rightarrow> string \<Rightarrow> (interaction \<times> policy_decision \<times> instant) op" where
  "label_target fe t identity i =
     (let tenant = id_tenant_id identity in
      bind_op (get_record tenant KInteraction i) (\<lambda>found.
      (case found of
         Some (RInteraction x) \<Rightarrow>
           bind_op (guard_op (ia_application_id x \<in> set (id_application_ids identity))
                      (GatewayError 403 ''application_forbidden'')) (\<lambda>_.
           let policy = fe_decide fe identity (ia_application_id x) in
           bind_op (guard_op (pd_processing_allowed policy) (GatewayError 403 ''processing_forbidden'')) (\<lambda>_.
           bind_op (expires_at tenant i) (\<lambda>expires.
           bind_op (state_at tenant i) (\<lambda>s.
           bind_op (get_tombstone tenant i) (\<lambda>d.
           bind_op (case ia_subject x of None \<Rightarrow> return_op None | Some p \<Rightarrow> get_subject_tombstone tenant p) (\<lambda>sd.
           bind_op (guard_op (s = Some ActiveRecord \<and> d = None \<and> sd = None \<and>
                        (case expires of None \<Rightarrow> False | Some e \<Rightarrow> t < e))
                      (GatewayError 409 ''interaction_inactive'')) (\<lambda>_.
           return_op (x, policy, the expires))))))))
       | _ \<Rightarrow> raise_op (GatewayError 404 ''interaction_not_found''))))"

text \<open>Redaction and encryption of the text of a label; a redactor that raises leaves a label
  without content.\<close>

definition seal_label ::
    "('k, 's) persistence_env \<Rightarrow> feedback_env \<Rightarrow> draws \<Rightarrow> string \<Rightarrow> string \<Rightarrow> policy_decision \<Rightarrow> instant \<Rightarrow>
     response_format option \<Rightarrow> feedback_body \<Rightarrow> feedback \<Rightarrow> feedback op" where
  "seal_label env fe dw tenant i policy expires fmt body f =
     (case body_content body of
        Some content \<Rightarrow>
          if \<not> pd_content_logging_allowed policy then return_op f
          else (case pe_redact env content policy of
              None \<Rightarrow> return_op (f\<lparr>fb_error_code := Some ''persistence_redaction_failed''\<rparr>)
            | Some (redacted, _) \<Rightarrow>
                bind_op (if is_correction body then validate_target fe redacted fmt else return_op ()) (\<lambda>_.
                case encrypt (pe_aead env) (pe_cipher env) (fst (dw_blob dw 0)) (snd (dw_blob dw 0)) redacted tenant i
                       (if is_correction body then ''correction'' else ''comment'') expires None of
                  Inl e \<Rightarrow> raise_op e
                | Inr b \<Rightarrow> bind_op (put_payload b) (\<lambda>_.
                    let hashed = f\<lparr>fb_content_hash :=
                          Some (content_hash (pe_hash env) (pe_keyring env) redacted OutputContent)\<rparr>
                    in return_op (if is_correction body then hashed\<lparr>fb_correction_ref := Some (ep_reference b)\<rparr>
                         else hashed\<lparr>fb_comment_ref := Some (ep_reference b)\<rparr>))))
      | None \<Rightarrow> return_op f)"

definition store_label ::
    "('k, 's) persistence_env \<Rightarrow> draws \<Rightarrow> string \<Rightarrow> interaction \<Rightarrow> instant \<Rightarrow> feedback \<Rightarrow> feedback op" where
  "store_label env dw tenant x expires f =
     bind_op (put_record tenant (RFeedback f) expires) (\<lambda>_.
     bind_op (append_feedback tenant x (fb_feedback_id f)) (\<lambda>_.
     bind_op (enqueue_events [new_event (dw_uid dw 1) FeedbackRecorded tenant (ia_trace_id x)
                (FeedbackData f) (dw_now dw 0)] (pe_outbox_pending_limit env)) (\<lambda>_.
     return_op f)))"

definition label_body ::
    "('k, 's) persistence_env \<Rightarrow> feedback_env \<Rightarrow> draws \<Rightarrow> identity \<Rightarrow> string \<Rightarrow> feedback_body \<Rightarrow> feedback op" where
  "label_body env fe dw identity i body =
     bind_op (label_target fe (dw_clock dw 0) identity i) (\<lambda>(x, policy, expires).
     bind_op (if is_correction body then response_format_of env fe (dw_clock dw 1) x else return_op None) (\<lambda>fmt.
     bind_op (case body of CorrectionBody c \<Rightarrow> validate_target fe (co_correction c) fmt
                | LabelBody _ \<Rightarrow> return_op ()) (\<lambda>_.
     bind_op (seal_label env fe dw (id_tenant_id identity) i policy expires fmt body
                (new_label (dw_uid dw 0) (dw_clock dw 2) identity i body)) (\<lambda>f.
     store_label env dw (id_tenant_id identity) x expires f))))"

definition record_feedback ::
    "('k, 's) persistence_env \<Rightarrow> feedback_env \<Rightarrow> draws \<Rightarrow> identity \<Rightarrow> string \<Rightarrow> feedback_body \<Rightarrow>
     's persistence_state \<Rightarrow> feedback result \<times> 's persistence_state" where
  "record_feedback env fe dw identity i body st =
     (case transaction (label_body env fe dw identity i body) (ps_db st) of
        (Inl e, db') \<Rightarrow> (Inl e, st\<lparr>ps_db := db'\<rparr>)
      | (Inr f, db') \<Rightarrow> (Inr f, refresh_metrics (dw_now dw 1) (st\<lparr>ps_db := db'\<rparr>)))"

section \<open>What the parts of the transaction do\<close>

text \<open>The interaction is there, active and unexpired, nothing was erased, and the caller may label it.\<close>

definition label_open ::
    "feedback_env \<Rightarrow> instant \<Rightarrow> identity \<Rightarrow> string \<Rightarrow> tables \<Rightarrow> interaction \<Rightarrow> policy_decision \<Rightarrow> instant \<Rightarrow> bool" where
  "label_open fe t identity i tb x policy expires \<longleftrightarrow>
     (\<exists>r. rows_at tb (id_tenant_id identity) KInteraction i = Some r \<and> sw_data r = RInteraction x \<and>
        sw_state r = ActiveRecord \<and> sw_expires r = expires \<and> t < expires) \<and>
     map_of (tb_tombstones tb) (id_tenant_id identity, i) = None \<and>
     (\<forall>p. ia_subject x = Some p \<longrightarrow> map_of (tb_subjects tb) (id_tenant_id identity, p) = None) \<and>
     ia_application_id x \<in> set (id_application_ids identity) \<and>
     policy = fe_decide fe identity (ia_application_id x) \<and> pd_processing_allowed policy"

definition label_sealed ::
    "('k, 's) persistence_env \<Rightarrow> feedback_env \<Rightarrow> draws \<Rightarrow> string \<Rightarrow> string \<Rightarrow> policy_decision \<Rightarrow> instant \<Rightarrow>
     response_format option \<Rightarrow> feedback_body \<Rightarrow> feedback \<Rightarrow> encrypted_payload list \<Rightarrow> bool" where
  "label_sealed env fe dw tenant i policy expires fmt body f bs \<longleftrightarrow>
     (bs = [] \<and> fb_correction_ref f = None \<and> fb_comment_ref f = None \<and> fb_content_hash f = None) \<or>
     (pd_content_logging_allowed policy \<and>
      (\<exists>content redacted counts b. body_content body = Some content \<and>
         pe_redact env content policy = Some (redacted, counts) \<and>
         (is_correction body \<longrightarrow> target_valid fe redacted fmt) \<and>
         encrypt (pe_aead env) (pe_cipher env) (fst (dw_blob dw 0)) (snd (dw_blob dw 0)) redacted tenant i
           (if is_correction body then ''correction'' else ''comment'') expires None = Inr b \<and> bs = [b]))"

lemma triple_raise: "(\<And>tb. P tb \<Longrightarrow> E tb) \<Longrightarrow> triple P (raise_op e) Q E"
  by (rule triple_same) (simp add: raise_op_def)

lemma label_target_triple:
  "triple (\<lambda>tb. tb = c) (label_target fe t identity i)
     (\<lambda>(x, policy, expires) tb. tb = c \<and> label_open fe t identity i c x policy expires) (\<lambda>_. True)"
proof (rule triple_same)
  fix db :: database and tb assume db: "db_working db = Some tb" "tb = c"
  then have tables: "tables_of db = c" by (simp add: tables_of_def)
  show "\<exists>r. label_target fe t identity i db = (r, db) \<and>
      (case r of Inl _ \<Rightarrow> True | Inr x \<Rightarrow> (case x of (x, policy, expires) \<Rightarrow>
         \<lambda>tb. tb = c \<and> label_open fe t identity i c x policy expires) tb)"
  proof (cases "rows_at c (id_tenant_id identity) KInteraction i")
    case None
    then show ?thesis
      by (simp add: label_target_def bind_op_def get_record_def sql_read_def tables raise_op_def Let_def)
  next
    case (Some r)
    show ?thesis
    proof (cases "sw_data r")
      case (RInteraction x)
      show ?thesis
        using Some RInteraction db
        by (cases "ia_subject x")
          (auto simp: label_target_def bind_op_def get_record_def sql_read_def tables guard_op_def Let_def
            expires_at_def state_at_def get_tombstone_def get_subject_tombstone_def return_op_def label_open_def)
    qed (simp_all add: label_target_def bind_op_def get_record_def sql_read_def tables raise_op_def Some Let_def)
  qed
qed

text \<open>The response format that is stored with the interaction, read at one instant.\<close>

definition stored_format ::
    "('k, 's) persistence_env \<Rightarrow> feedback_env \<Rightarrow> instant \<Rightarrow> interaction \<Rightarrow> tables \<Rightarrow> response_format option result" where
  "stored_format env fe t x tb = fst (response_format_of env fe t x \<lparr>db_committed = tb, db_working = None\<rparr>)"

lemma response_format_triple:
  "triple (\<lambda>tb. tb = c \<and> A) (response_format_of env fe t x)
     (\<lambda>fmt tb. tb = c \<and> A \<and> stored_format env fe t x c = Inr fmt) (\<lambda>_. True)"
proof (rule triple_same)
  fix db :: database and tb assume db: "db_working db = Some tb" "tb = c \<and> A"
  then have tables: "tables_of db = c" by (simp add: tables_of_def)
  have "response_format_of env fe t x db = (stored_format env fe t x c, db)"
    unfolding response_format_of_def stored_format_def
    by (cases "is_response_format_ref (ia_input x)")
      (simp_all add: return_op_def bind_op_def get_payload_def sql_read_def tables,
       auto simp: tables_of_def raise_op_def return_op_def split: sum.splits option.splits)
  then show "\<exists>r. response_format_of env fe t x db = (r, db) \<and>
      (case r of Inl _ \<Rightarrow> True | Inr fmt \<Rightarrow> tb = c \<and> A \<and> stored_format env fe t x c = Inr fmt)"
    using db(2) by (auto split: sum.splits)
qed

lemma seal_label_triple:
  assumes "fb_correction_ref f = None" and "fb_comment_ref f = None" and "fb_content_hash f = None"
  shows "triple (\<lambda>tb. tb = c) (seal_label env fe dw tenant i policy expires fmt body f)
     (\<lambda>g tb. \<exists>bs. label_sealed env fe dw tenant i policy expires fmt body g bs \<and>
        fb_feedback_id g = fb_feedback_id f \<and> tb = c\<lparr>tb_payloads := tb_payloads c @ bs\<rparr>) (\<lambda>_. True)"
    (is "triple ?P _ ?Q _")
proof -
  have none: "?Q g c" if "fb_correction_ref g = None" "fb_comment_ref g = None" "fb_content_hash g = None"
      "fb_feedback_id g = fb_feedback_id f" for g
    using that by (intro exI [of _ "[]"]) (simp add: label_sealed_def)
  show ?thesis
  proof (cases "body_content body")
    case None
    show ?thesis unfolding seal_label_def None option.case
      by (rule triple_return) (use none [OF assms refl] in simp)
  next
    case (Some content)
    show ?thesis
    proof (cases "pd_content_logging_allowed policy")
      case False
      show ?thesis unfolding seal_label_def Some option.case
        using False by (simp, intro triple_return) (use none [OF assms refl] in simp)
    next
      case log: True
      show ?thesis
      proof (cases "pe_redact env content policy")
        case None
        show ?thesis unfolding seal_label_def Some option.case
          using log None by (simp, intro triple_return) (use none assms in simp)
      next
        case (Some rc)
        obtain redacted counts where rc: "rc = (redacted, counts)" by (cases rc)
        let ?name = "if is_correction body then ''correction'' else ''comment''"
        let ?enc = "encrypt (pe_aead env) (pe_cipher env) (fst (dw_blob dw 0)) (snd (dw_blob dw 0)) redacted tenant i ?name expires None"
        let ?rest = "\<lambda>_ :: unit. case ?enc of
            Inl e \<Rightarrow> raise_op e
          | Inr b \<Rightarrow> bind_op (put_payload b) (\<lambda>_.
              let hashed = f\<lparr>fb_content_hash := Some (content_hash (pe_hash env) (pe_keyring env) redacted OutputContent)\<rparr>
              in return_op (if is_correction body then hashed\<lparr>fb_correction_ref := Some (ep_reference b)\<rparr>
                   else hashed\<lparr>fb_comment_ref := Some (ep_reference b)\<rparr>))"
        have eq: "seal_label env fe dw tenant i policy expires fmt body f =
            bind_op (if is_correction body then validate_target fe redacted fmt else return_op ()) ?rest"
          unfolding seal_label_def \<open>body_content body = Some content\<close> using log Some rc by simp
        have check: "triple ?P (if is_correction body then validate_target fe redacted fmt else return_op ())
            (\<lambda>_ tb. (is_correction body \<longrightarrow> target_valid fe redacted fmt) \<and> tb = c) (\<lambda>_. True)"
          by (cases "is_correction body") (simp_all add: validate_target_def triple_guard triple_return)
        have "triple (\<lambda>tb. (is_correction body \<longrightarrow> target_valid fe redacted fmt) \<and> tb = c) (?rest u) ?Q (\<lambda>_. True)" for u
        proof (cases ?enc)
          case (Inl e)
          then show ?thesis by (simp add: triple_raise)
        next
          case (Inr b)
          have put: "triple (\<lambda>tb. (is_correction body \<longrightarrow> target_valid fe redacted fmt) \<and> tb = c) (put_payload b)
              (\<lambda>_ tb. (is_correction body \<longrightarrow> target_valid fe redacted fmt) \<and>
                 tb = c\<lparr>tb_payloads := tb_payloads c @ [b]\<rparr>) (\<lambda>_. True)"
            by (rule triple_put_payload) simp_all
          have ret: "triple (\<lambda>tb. (is_correction body \<longrightarrow> target_valid fe redacted fmt) \<and>
                 tb = c\<lparr>tb_payloads := tb_payloads c @ [b]\<rparr>) (return_op g) ?Q (\<lambda>_. True)"
            if "fb_feedback_id g = fb_feedback_id f" for g
            using log Some rc Inr that \<open>body_content body = Some content\<close>
            by (intro triple_return exI [of _ "[b]"]) (simp add: label_sealed_def)
          show ?thesis unfolding Inr sum.case Let_def
            by (rule triple_bind [OF put], rule ret) simp
        qed
        from triple_bind [OF check this] show ?thesis unfolding eq .
      qed
    qed
  qed
qed

text \<open>The rows after a label: the label is there and the interaction knows it.\<close>

definition label_stored :: "string \<Rightarrow> interaction \<Rightarrow> instant \<Rightarrow> feedback \<Rightarrow> encrypted_payload list \<Rightarrow> tables \<Rightarrow> tables \<Rightarrow> bool" where
  "label_stored tenant x expires f bs old new \<longleftrightarrow>
     (\<exists>rows. new = (set_interaction tenant (ia_interaction_id x)
         (x\<lparr>ia_feedback_ids := ia_feedback_ids x @ [fb_feedback_id f]\<rparr>)
         (old\<lparr>tb_payloads := tb_payloads old @ bs,
            tb_rows := tb_rows old @ [new_stored_row tenant (RFeedback f) expires]\<rparr>))\<lparr>tb_outbox := rows\<rparr>)"

lemma same_but_outbox:
  "(tb :: tables)\<lparr>tb_outbox := tb_outbox tb\<rparr> = tb"
  "a\<lparr>tb_outbox := r\<rparr> = b\<lparr>tb_outbox := q\<rparr> \<Longrightarrow> a = (b :: tables)\<lparr>tb_outbox := tb_outbox a\<rparr>"
  by (cases tb, simp) (cases a, cases b, simp)

lemma label_stored_outbox: "label_stored t x e f bs old (tb\<lparr>tb_outbox := r\<rparr>) = label_stored t x e f bs old tb"
proof -
  have "(\<exists>rows. tb\<lparr>tb_outbox := r\<rparr> = b\<lparr>tb_outbox := rows\<rparr>) \<longleftrightarrow> (\<exists>rows. tb = b\<lparr>tb_outbox := rows\<rparr>)" for b :: tables
  proof
    assume "\<exists>rows. tb\<lparr>tb_outbox := r\<rparr> = b\<lparr>tb_outbox := rows\<rparr>"
    then show "\<exists>rows. tb = b\<lparr>tb_outbox := rows\<rparr>" by (elim exE) (rule exI, rule same_but_outbox(2))
  next
    assume "\<exists>rows. tb = b\<lparr>tb_outbox := rows\<rparr>"
    then show "\<exists>rows. tb\<lparr>tb_outbox := r\<rparr> = b\<lparr>tb_outbox := rows\<rparr>" by (elim exE) (rule exI [of _ r], simp)
  qed
  then show ?thesis unfolding label_stored_def .
qed

lemma label_stored_now:
  "label_stored t x e f bs old (set_interaction t (ia_interaction_id x)
     (x\<lparr>ia_feedback_ids := ia_feedback_ids x @ [fb_feedback_id f]\<rparr>)
     (old\<lparr>tb_payloads := tb_payloads old @ bs, tb_rows := tb_rows old @ [new_stored_row t (RFeedback f) e]\<rparr>))"
  unfolding label_stored_def by (rule exI) (rule same_but_outbox(1) [symmetric])

lemma store_label_triple:
  "triple (\<lambda>tb. \<exists>bs. S bs \<and> tb = c\<lparr>tb_payloads := tb_payloads c @ bs\<rparr>) (store_label env dw tenant x expires f)
     (\<lambda>g tb. g = f \<and> (\<exists>bs. S bs \<and> label_stored tenant x expires f bs c tb) \<and>
        dw_uid dw 1 \<in> ot_event_id ` set (tb_outbox tb)) (\<lambda>_. True)"
proof -
  let ?es = "[new_event (dw_uid dw 1) FeedbackRecorded tenant (ia_trace_id x) (FeedbackData f) (dw_now dw 0)]"
  let ?row = "new_stored_row tenant (RFeedback f) expires"
  let ?new = "x\<lparr>ia_feedback_ids := ia_feedback_ids x @ [fb_feedback_id f]\<rparr>"
  have put: "triple (\<lambda>tb. \<exists>bs. S bs \<and> tb = c\<lparr>tb_payloads := tb_payloads c @ bs\<rparr>) (put_record tenant (RFeedback f) expires)
      (\<lambda>_ tb. \<exists>bs. S bs \<and> tb = c\<lparr>tb_payloads := tb_payloads c @ bs, tb_rows := tb_rows c @ [?row]\<rparr>) (\<lambda>_. True)"
    by (rule triple_put_record) auto
  have add: "triple (\<lambda>tb. \<exists>bs. S bs \<and> tb = c\<lparr>tb_payloads := tb_payloads c @ bs, tb_rows := tb_rows c @ [?row]\<rparr>)
      (append_feedback tenant x (fb_feedback_id f))
      (\<lambda>_ tb. \<exists>bs. S bs \<and> label_stored tenant x expires f bs c tb) (\<lambda>_. True)"
    unfolding append_feedback_def
    by (rule triple_bind [OF triple_writable [where Q = "\<lambda>_ tb. \<exists>bs. S bs \<and>
          tb = c\<lparr>tb_payloads := tb_payloads c @ bs, tb_rows := tb_rows c @ [?row]\<rparr>"] triple_write])
      (auto intro: label_stored_now)
  have queue: "triple (\<lambda>tb. \<exists>bs. S bs \<and> label_stored tenant x expires f bs c tb) (enqueue_events ?es n)
      (\<lambda>_ tb. (\<exists>bs. S bs \<and> label_stored tenant x expires f bs c tb) \<and> queued_events ?es tb) (\<lambda>_. True)" for n
    by (rule triple_enqueue_queued) (simp only: label_stored_outbox)
  have ret: "triple (\<lambda>tb. (\<exists>bs. S bs \<and> label_stored tenant x expires f bs c tb) \<and> queued_events ?es tb) (return_op f)
     (\<lambda>g tb. g = f \<and> (\<exists>bs. S bs \<and> label_stored tenant x expires f bs c tb) \<and>
        dw_uid dw 1 \<in> ot_event_id ` set (tb_outbox tb)) (\<lambda>_. True)"
    by (rule triple_return) (auto simp: queued_events_def new_event_def optional_events_def)
  show ?thesis unfolding store_label_def
    by (rule triple_bind [OF put triple_bind [OF add triple_bind [OF queue ret]]])
qed

text \<open>The whole transaction. \<open>label_written\<close> is its outcome.\<close>

definition label_written ::
    "('k, 's) persistence_env \<Rightarrow> feedback_env \<Rightarrow> draws \<Rightarrow> identity \<Rightarrow> string \<Rightarrow> feedback_body \<Rightarrow> feedback \<Rightarrow>
     interaction \<Rightarrow> policy_decision \<Rightarrow> instant \<Rightarrow> response_format option \<Rightarrow> encrypted_payload list \<Rightarrow>
     tables \<Rightarrow> tables \<Rightarrow> bool" where
  "label_written env fe dw identity i body f x policy expires fmt bs old new \<longleftrightarrow>
     label_open fe (dw_clock dw 0) identity i old x policy expires \<and>
     (is_correction body \<longrightarrow> stored_format env fe (dw_clock dw 1) x old = Inr fmt \<and>
        target_valid fe (the (body_content body)) fmt) \<and>
     label_sealed env fe dw (id_tenant_id identity) i policy expires fmt body f bs \<and>
     fb_feedback_id f = dw_uid dw 0 \<and>
     label_stored (id_tenant_id identity) x expires f bs old new \<and>
     dw_uid dw 1 \<in> ot_event_id ` set (tb_outbox new)"

lemma label_body_triple:
  "triple (\<lambda>tb. tb = c) (label_body env fe dw identity i body)
     (\<lambda>f tb. \<exists>x policy expires fmt bs. label_written env fe dw identity i body f x policy expires fmt bs c tb) (\<lambda>_. True)"
proof -
  let ?tenant = "id_tenant_id identity"
  let ?f0 = "new_label (dw_uid dw 0) (dw_clock dw 2) identity i body"
  have f0: "fb_correction_ref ?f0 = None" "fb_comment_ref ?f0 = None" "fb_content_hash ?f0 = None"
      "fb_feedback_id ?f0 = dw_uid dw 0"
    by (simp_all add: new_label_def)
  have rest: "triple (\<lambda>tb. tb = c \<and> label_open fe (dw_clock dw 0) identity i c x policy expires)
      (bind_op (if is_correction body then response_format_of env fe (dw_clock dw 1) x else return_op None) (\<lambda>fmt.
       bind_op (case body of CorrectionBody d \<Rightarrow> validate_target fe (co_correction d) fmt | LabelBody _ \<Rightarrow> return_op ()) (\<lambda>_.
       bind_op (seal_label env fe dw ?tenant i policy expires fmt body ?f0) (\<lambda>f.
       store_label env dw ?tenant x expires f))))
      (\<lambda>f tb. \<exists>x policy expires fmt bs. label_written env fe dw identity i body f x policy expires fmt bs c tb) (\<lambda>_. True)"
    (is "triple ?P _ ?Q _") for x policy expires
  proof (rule triple_bind)
    let ?A = "label_open fe (dw_clock dw 0) identity i c x policy expires"
    show "triple ?P (if is_correction body then response_format_of env fe (dw_clock dw 1) x else return_op None)
        (\<lambda>fmt tb. tb = c \<and> ?A \<and> (is_correction body \<longrightarrow> stored_format env fe (dw_clock dw 1) x c = Inr fmt)) (\<lambda>_. True)"
      by (cases "is_correction body") (simp_all add: response_format_triple triple_return)
    fix fmt
    let ?B = "?A \<and> (is_correction body \<longrightarrow> stored_format env fe (dw_clock dw 1) x c = Inr fmt \<and>
        target_valid fe (the (body_content body)) fmt)"
    have check: "triple (\<lambda>tb. tb = c \<and> ?A \<and> (is_correction body \<longrightarrow> stored_format env fe (dw_clock dw 1) x c = Inr fmt))
        (case body of CorrectionBody d \<Rightarrow> validate_target fe (co_correction d) fmt | LabelBody _ \<Rightarrow> return_op ())
        (\<lambda>_ tb. ?B \<and> tb = c) (\<lambda>_. True)"
      by (cases body) (auto simp: validate_target_def is_correction_def body_content_def intro!: triple_guard triple_return)
    have seal: "triple (\<lambda>tb. ?B \<and> tb = c) (seal_label env fe dw ?tenant i policy expires fmt body ?f0)
        (\<lambda>f tb. \<exists>bs. (?B \<and> label_sealed env fe dw ?tenant i policy expires fmt body f bs \<and> fb_feedback_id f = dw_uid dw 0) \<and>
           tb = c\<lparr>tb_payloads := tb_payloads c @ bs\<rparr>) (\<lambda>_. True)"
      by (rule triple_pre, rule triple_conseq [OF seal_label_triple [OF f0(1-3)]]) (auto simp: f0(4))
    have store: "triple (\<lambda>tb. \<exists>bs. (?B \<and> label_sealed env fe dw ?tenant i policy expires fmt body f bs \<and>
           fb_feedback_id f = dw_uid dw 0) \<and> tb = c\<lparr>tb_payloads := tb_payloads c @ bs\<rparr>)
        (store_label env dw ?tenant x expires f) ?Q (\<lambda>_. True)" for f
    proof (rule triple_conseq [OF store_label_triple])
      fix g tb
      assume "g = f \<and> (\<exists>bs. (?B \<and> label_sealed env fe dw ?tenant i policy expires fmt body f bs \<and>
          fb_feedback_id f = dw_uid dw 0) \<and> label_stored ?tenant x expires f bs c tb) \<and>
          dw_uid dw 1 \<in> ot_event_id ` set (tb_outbox tb)"
      then obtain bs where bs: "g = f" "?A" "is_correction body \<longrightarrow> stored_format env fe (dw_clock dw 1) x c = Inr fmt \<and>
          target_valid fe (the (body_content body)) fmt" "label_sealed env fe dw ?tenant i policy expires fmt body f bs"
          "fb_feedback_id f = dw_uid dw 0" "label_stored ?tenant x expires f bs c tb"
          "dw_uid dw 1 \<in> ot_event_id ` set (tb_outbox tb)"
        by (elim conjE exE) (rule that)
      have "label_written env fe dw identity i body g x policy expires fmt bs c tb"
        unfolding label_written_def using bs by simp
      then show "?Q g tb" by (intro exI)
    qed simp_all
    show "triple (\<lambda>tb. tb = c \<and> ?A \<and> (is_correction body \<longrightarrow> stored_format env fe (dw_clock dw 1) x c = Inr fmt))
        (bind_op (case body of CorrectionBody d \<Rightarrow> validate_target fe (co_correction d) fmt | LabelBody _ \<Rightarrow> return_op ()) (\<lambda>_.
           bind_op (seal_label env fe dw ?tenant i policy expires fmt body ?f0) (\<lambda>f.
             store_label env dw ?tenant x expires f))) ?Q (\<lambda>_. True)"
      by (rule triple_bind [OF check triple_bind [OF seal store]])
  qed
  show ?thesis unfolding label_body_def
  proof (rule triple_bind [OF label_target_triple])
    fix y :: "interaction \<times> policy_decision \<times> instant"
    obtain x policy expires where y: "y = (x, policy, expires)" by (cases y)
    show "triple ((\<lambda>(x, policy, expires) tb. tb = c \<and> label_open fe (dw_clock dw 0) identity i c x policy expires) y)
        ((\<lambda>(x, policy, expires).
     bind_op (if is_correction body then response_format_of env fe (dw_clock dw 1) x else return_op None) (\<lambda>fmt.
       bind_op (case body of CorrectionBody d \<Rightarrow> validate_target fe (co_correction d) fmt | LabelBody _ \<Rightarrow> return_op ()) (\<lambda>_.
       bind_op (seal_label env fe dw ?tenant i policy expires fmt body ?f0) (\<lambda>f.
       store_label env dw ?tenant x expires f)))) y)
      (\<lambda>f tb. \<exists>x policy expires fmt bs. label_written env fe dw identity i body f x policy expires fmt bs c tb) (\<lambda>_. True)"
      unfolding y prod.case by (rule rest)
  qed
qed

lemma record_feedback_cases:
  assumes "db_working (ps_db st) = None"
  obtains (refused) e where "record_feedback env fe dw identity i body st = (Inl e, st)"
    | (recorded) f x policy expires fmt bs tb where
        "record_feedback env fe dw identity i body st = (Inr f, refresh_metrics (dw_now dw 1)
           (st\<lparr>ps_db := \<lparr>db_committed = tb, db_working = None\<rparr>\<rparr>))"
        "label_written env fe dw identity i body f x policy expires fmt bs (db_committed (ps_db st)) tb"
proof -
  from transaction_rule [OF label_body_triple [of "db_committed (ps_db st)" env fe dw identity i body] assms refl]
  show ?thesis
  proof cases
    case (1 e)
    have "st\<lparr>ps_db := ps_db st\<rparr> = st" by (cases st) simp
    then show ?thesis using 1 refused by (simp add: record_feedback_def)
  next
    case (2 f tb)
    then obtain x policy expires fmt bs where
      "label_written env fe dw identity i body f x policy expires fmt bs (db_committed (ps_db st)) tb"
      by (elim exE)
    then show ?thesis using 2(1) recorded by (simp add: record_feedback_def)
  qed
qed

section \<open>Invariants\<close>

text \<open>An invariant of the stores that appending to an interaction's labels keeps is kept by the service.\<close>

lemma triple_pointwise: "(\<And>c. P c \<Longrightarrow> triple (\<lambda>tb. tb = c) f Q E) \<Longrightarrow> triple P f Q E"
  unfolding triple_def by blast

locale feedback_invariant = store_invariant +
  assumes append_kept: "keeps P (append_feedback t x f)"
begin

lemma seal_label_kept: "keeps P (seal_label env fe dw tenant i policy expires fmt body f)"
proof -
  have ret: "keeps P (return_op g)" for g :: feedback by (rule triple_return)
  have ok: "keeps P (if b then validate_target fe c fmt else return_op ())" for b c
    by (simp add: validate_target_def triple_guard triple_return)
  have raise: "keeps P (raise_op e)" for e by (rule triple_raise) simp
  have put: "keeps P (bind_op (put_payload b) (\<lambda>_. return_op g))" for b and g :: feedback
    by (rule triple_bind [OF payload_kept ret])
  have rest: "keeps P (case r of Inl e \<Rightarrow> raise_op e | Inr b \<Rightarrow> bind_op (put_payload b) (\<lambda>_. return_op (g b)))"
    for r and g :: "encrypted_payload \<Rightarrow> feedback"
    by (cases r) (simp_all add: raise put)
  have checked: "keeps P (bind_op (if b then validate_target fe c fmt else return_op ()) (\<lambda>_.
      case r of Inl e \<Rightarrow> raise_op e | Inr b \<Rightarrow> bind_op (put_payload b) (\<lambda>_. return_op (g b))))"
    for b c r and g :: "encrypted_payload \<Rightarrow> feedback"
    by (rule triple_bind [OF ok rest])
  show ?thesis
    unfolding seal_label_def Let_def
    by (cases "pd_content_logging_allowed policy") (auto intro!: ret checked split: option.split split del: if_split)
qed

lemma store_label_kept: "keeps P (store_label env dw tenant x expires f)"
  unfolding store_label_def
  by (rule triple_bind [OF record_kept triple_bind [OF append_kept triple_bind [OF enqueue_kept]]])
    (rule triple_return)

lemma label_target_kept: "keeps P (label_target fe t identity i)"
  by (rule triple_pointwise, rule triple_conseq [OF label_target_triple]) auto

lemma response_format_kept: "keeps P (response_format_of env fe t x)"
  by (rule triple_pointwise, rule triple_conseq [OF response_format_triple [where A = True]]) auto

lemma label_body_kept: "keeps P (label_body env fe dw identity i body)"
proof -
  have fmt: "keeps P (if b then response_format_of env fe t x else return_op None)" for b t x
    by (simp add: response_format_kept triple_return)
  have ok: "keeps P (case body of CorrectionBody d \<Rightarrow> validate_target fe (co_correction d) f | LabelBody _ \<Rightarrow> return_op ())" for f
    by (cases body) (simp_all add: validate_target_def triple_guard triple_return)
  show ?thesis unfolding label_body_def
    by (rule triple_bind [OF label_target_kept], simp only: split_paired_all prod.case,
        rule triple_bind [OF fmt triple_bind [OF ok triple_bind [OF seal_label_kept store_label_kept]]])
qed

lemma record_feedback_held: "held st \<Longrightarrow> held (snd (record_feedback env fe dw identity i body st))"
  using held_transaction [OF label_body_kept, of st env fe dw identity i body]
  by (cases "transaction (label_body env fe dw identity i body) (ps_db st)")
    (auto simp: record_feedback_def split: sum.split)

end

lemma append_feedback_own: "keeps own_responses (append_feedback t x f)"
proof -
  have w: "keeps own_responses (writable t i)" for i by (rule triple_writable) simp_all
  show ?thesis unfolding append_feedback_def
    by (rule triple_bind [OF w], rule triple_write) simp
qed

interpretation labels_platform: feedback_invariant platform "{}"
  by unfold_locales (rule platform_keeps [OF append_feedback_keeps [OF store_change_intros(1)] append_feedback_own])

interpretation labels_settled: feedback_invariant "settled t i" "{}" for t i
  by unfold_locales (rule keeps_true [OF append_feedback_keeps [OF store_change_intros(2)]])

section \<open>Properties\<close>

text \<open>A label that is accepted was due: its interaction exists for the caller's tenant, is active and
  unexpired, neither it nor its subject was erased, the caller holds its application and the policy
  allows processing. Then exactly the label is stored, with the expiry of the interaction, it is
  appended to the interaction's labels, and its event waits in the outbox.\<close>

theorem feedback_recorded:
  assumes "db_working (ps_db st) = None"
    and "record_feedback env fe dw identity i body st = (Inr f, st')"
  shows "\<exists>x policy expires bs.
    label_open fe (dw_clock dw 0) identity i (db_committed (ps_db st)) x policy expires \<and>
    label_stored (id_tenant_id identity) x expires f bs (db_committed (ps_db st)) (db_committed (ps_db st')) \<and>
    dw_uid dw 1 \<in> ot_event_id ` set (tb_outbox (db_committed (ps_db st'))) \<and> db_working (ps_db st') = None"
proof (cases rule: record_feedback_cases [OF assms(1), of env fe dw identity i body, case_names refused recorded])
  case (refused e)
  then show ?thesis using assms(2) by simp
next
  case (recorded g x policy expires fmt bs tb)
  have "f = g" and st': "st' = refresh_metrics (dw_now dw 1) (st\<lparr>ps_db := \<lparr>db_committed = tb, db_working = None\<rparr>\<rparr>)"
    using assms(2) recorded(1) by simp_all
  then have "db_committed (ps_db st') = tb" "db_working (ps_db st') = None"
    by (simp_all add: refresh_metrics_def Let_def)
  then show ?thesis using recorded(2) \<open>f = g\<close> unfolding label_written_def by blast
qed

text \<open>A label that is refused, for whatever reason, leaves every table, counter and gauge as it was.\<close>

theorem feedback_refused_unchanged:
  assumes "db_working (ps_db st) = None"
    and "record_feedback env fe dw identity i body st = (Inl e, st')"
  shows "st' = st"
  by (cases rule: record_feedback_cases [OF assms(1), of env fe dw identity i body]) (use assms(2) in auto)

text \<open>C27. A correction that is stored is a valid answer twice over: the submitted text and the redacted
  text that is encrypted both satisfy the response format stored with the interaction.\<close>

theorem corrections_conform:
  assumes "db_working (ps_db st) = None"
    and "record_feedback env fe dw identity i (CorrectionBody d) st = (Inr f, st')"
    and "fb_correction_ref f \<noteq> None"
  shows "\<exists>x policy expires fmt redacted counts b.
    label_open fe (dw_clock dw 0) identity i (db_committed (ps_db st)) x policy expires \<and>
    stored_format env fe (dw_clock dw 1) x (db_committed (ps_db st)) = Inr fmt \<and>
    target_valid fe (co_correction d) fmt \<and> target_valid fe redacted fmt \<and>
    pe_redact env (co_correction d) policy = Some (redacted, counts) \<and>
    encrypt (pe_aead env) (pe_cipher env) (fst (dw_blob dw 0)) (snd (dw_blob dw 0)) redacted
      (id_tenant_id identity) i ''correction'' expires None = Inr b \<and>
    tb_payloads (db_committed (ps_db st')) = tb_payloads (db_committed (ps_db st)) @ [b]"
proof (cases rule: record_feedback_cases [OF assms(1), of env fe dw identity i "CorrectionBody d", case_names refused recorded])
  case (refused e)
  then show ?thesis using assms(2) by simp
next
  case (recorded g x policy expires fmt bs tb)
  have "f = g" and st': "st' = refresh_metrics (dw_now dw 1) (st\<lparr>ps_db := \<lparr>db_committed = tb, db_working = None\<rparr>\<rparr>)"
    using assms(2) recorded(1) by simp_all
  then have tb: "db_committed (ps_db st') = tb" by (simp add: refresh_metrics_def Let_def)
  note written = recorded(2) [unfolded label_written_def]
  have corr: "is_correction (CorrectionBody d)" "body_content (CorrectionBody d) = Some (co_correction d)"
    by (simp_all add: is_correction_def body_content_def)
  obtain redacted counts b where b: "pe_redact env (co_correction d) policy = Some (redacted, counts)"
      "target_valid fe redacted fmt" "bs = [b]"
      "encrypt (pe_aead env) (pe_cipher env) (fst (dw_blob dw 0)) (snd (dw_blob dw 0)) redacted
        (id_tenant_id identity) i ''correction'' expires None = Inr b"
    using written assms(3) \<open>f = g\<close> corr by (auto simp: label_sealed_def)
  have "tb_payloads tb = tb_payloads (db_committed (ps_db st)) @ [b]"
    using written b(3) by (auto simp: label_stored_def set_interaction_def)
  moreover have "label_open fe (dw_clock dw 0) identity i (db_committed (ps_db st)) x policy expires"
    "stored_format env fe (dw_clock dw 1) x (db_committed (ps_db st)) = Inr fmt"
    "target_valid fe (co_correction d) fmt"
    using written corr by simp_all
  ultimately show ?thesis using b(1,2,4) tb by blast
qed

text \<open>Without permission to log content a label keeps no text: nothing is encrypted, and the label
  carries neither reference nor hash.\<close>

theorem feedback_confidential:
  assumes "db_working (ps_db st) = None"
    and "record_feedback env fe dw identity i body st = (Inr f, st')"
    and "interaction_at (db_committed (ps_db st)) (id_tenant_id identity) i = Some x"
    and "\<not> pd_content_logging_allowed (fe_decide fe identity (ia_application_id x))"
  shows "tb_payloads (db_committed (ps_db st')) = tb_payloads (db_committed (ps_db st)) \<and>
    fb_comment_ref f = None \<and> fb_correction_ref f = None \<and> fb_content_hash f = None"
proof (cases rule: record_feedback_cases [OF assms(1), of env fe dw identity i body, case_names refused recorded])
  case (refused e)
  then show ?thesis using assms(2) by simp
next
  case (recorded g y policy expires fmt bs tb)
  have "f = g" and st': "st' = refresh_metrics (dw_now dw 1) (st\<lparr>ps_db := \<lparr>db_committed = tb, db_working = None\<rparr>\<rparr>)"
    using assms(2) recorded(1) by simp_all
  then have tb: "db_committed (ps_db st') = tb" by (simp add: refresh_metrics_def Let_def)
  note written = recorded(2) [unfolded label_written_def]
  have "y = x" using written assms(3) by (auto simp: label_open_def interaction_at_def)
  then have "\<not> pd_content_logging_allowed policy" using written assms(4) by (simp add: label_open_def)
  then have none: "bs = []" "fb_comment_ref g = None" "fb_correction_ref g = None" "fb_content_hash g = None"
    using written by (simp_all add: label_sealed_def)
  then have "tb_payloads tb = tb_payloads (db_committed (ps_db st))"
    using written by (auto simp: label_stored_def set_interaction_def)
  then show ?thesis using none tb \<open>f = g\<close> by simp
qed

text \<open>Labels keep the stores sound: recording one preserves the keys, references and own responses of
  the tables, and an interaction that was erased stays erased.\<close>

theorem feedback_keeps_erasure:
  assumes "db_working (ps_db st) = None" and "settled t j (db_committed (ps_db st))"
    and "platform (db_committed (ps_db st))"
  shows "settled t j (db_committed (ps_db (snd (record_feedback env fe dw identity i body st)))) \<and>
    platform (db_committed (ps_db (snd (record_feedback env fe dw identity i body st))))"
  using labels_platform.record_feedback_held [of st env fe dw identity i body]
    labels_settled.record_feedback_held [of t j st env fe dw identity i body] assms
  unfolding kept_platform.held_def kept_settled.held_def by blast

section \<open>A small run\<close>

definition label_start :: "event list persistence_state" where
  "label_start = start_state\<lparr>ps_db := \<lparr>db_committed =
     empty_tables\<lparr>tb_rows := [new_stored_row ''t'' (RInteraction saved_interaction) 5]\<rparr>, db_working = None\<rparr>\<rparr>"

definition label_draws :: draws where
  "label_draws = small_draws\<lparr>dw_clock := (\<lambda>_. 3)\<rparr>"

definition label_policy :: "bool \<Rightarrow> policy_decision" where
  "label_policy kept = (policy_decision_default ''p1'' 3600)\<lparr>pd_content_logging_allowed := kept\<rparr>"

definition label_env :: "bool \<Rightarrow> feedback_env" where
  "label_env kept = \<lparr>fe_validation = plain_env, fe_load_format = (\<lambda>_. Inl OtherException),
     fe_decide = (\<lambda>_ _. label_policy kept)\<rparr>"

definition labeller :: "string \<Rightarrow> identity" where
  "labeller app = \<lparr>id_tenant_id = ''t'', id_application_ids = [app], id_environment = Local,
     id_subject = None, id_key_class = UserKey, id_dataset_tenants = [], id_capabilities = []\<rparr>"

definition label_correction :: feedback_body where
  "label_correction = CorrectionBody \<lparr>co_correction = ''fixed'', co_training_authorised = True\<rparr>"

definition label_store_env :: "(unit, event list) persistence_env" where
  "label_store_env = small_env\<lparr>pe_hash := \<lparr>hf_hmac = (\<lambda>_ _. []), hf_sha256 = (\<lambda>_. [])\<rparr>,
     pe_keyring := \<lparr>kg_signer = None, kg_verifier = None, kg_legacy_mac_records = False,
       kg_keys = [(''output-content-v1'', [])]\<rparr>\<rparr>"

definition label_run :: "string \<Rightarrow> bool \<Rightarrow> feedback result \<times> event list persistence_state" where
  "label_run app kept = record_feedback label_store_env (label_env kept) label_draws (labeller app) ''i'' label_correction label_start"

definition accepted_label :: feedback where
  "accepted_label = (case fst (label_run ''app'' True) of Inr f \<Rightarrow> f)"

lemma label_runs:
  "(case fst (label_run ''app'' True) of Inl _ \<Rightarrow> False | Inr f \<Rightarrow> (case fb_correction_ref f of None \<Rightarrow> False | Some _ \<Rightarrow> True)) \<and>
   (case fst (label_run ''app'' False) of Inl _ \<Rightarrow> False | Inr f \<Rightarrow> True) \<and>
   (case fst (label_run ''other'' True) of Inl _ \<Rightarrow> True | Inr f \<Rightarrow> False)"
  by code_simp

lemmas label_run_evaluated = label_runs [THEN conjunct1] label_runs [THEN conjunct2, THEN conjunct1]
  label_runs [THEN conjunct2, THEN conjunct2]

lemma label_run_accepted:
  "label_run ''app'' True = (Inr accepted_label, snd (label_run ''app'' True))" "fb_correction_ref accepted_label \<noteq> None"
  using label_run_evaluated(1) unfolding accepted_label_def
  by (cases "label_run ''app'' True"; auto split: sum.splits option.splits)+

lemma label_start_working: "db_working (ps_db label_start) = None"
  by (simp add: label_start_def)

theorem feedback_recorded_witness:
  "\<exists>x policy expires bs. label_stored ''t'' x expires accepted_label bs
     (db_committed (ps_db label_start)) (db_committed (ps_db (snd (label_run ''app'' True))))"
  using feedback_recorded [OF label_start_working label_run_accepted(1) [unfolded label_run_def]]
  by (auto simp: labeller_def label_run_def)

theorem feedback_refused_unchanged_witness:
  "\<exists>e. label_run ''other'' True = (Inl e, label_start)"
proof -
  obtain e st' where run: "label_run ''other'' True = (Inl e, st')"
    using label_run_evaluated(3) by (cases "label_run ''other'' True") (auto split: sum.splits)
  then show ?thesis
    using feedback_refused_unchanged [OF label_start_working run [unfolded label_run_def]] by simp
qed

theorem corrections_conform_witness:
  "\<exists>b. tb_payloads (db_committed (ps_db (snd (label_run ''app'' True)))) = tb_payloads (db_committed (ps_db label_start)) @ [b]"
proof -
  note run = label_run_accepted(1) [unfolded label_run_def label_correction_def]
  from corrections_conform [OF label_start_working run label_run_accepted(2)]
  show ?thesis unfolding label_run_def label_correction_def by blast
qed

theorem feedback_confidential_witness:
  "tb_payloads (db_committed (ps_db (snd (label_run ''app'' False)))) = []"
proof -
  obtain f where f: "label_run ''app'' False = (Inr f, snd (label_run ''app'' False))"
    using label_run_evaluated(2) by (cases "label_run ''app'' False") (auto split: sum.splits)
  have found: "interaction_at (db_committed (ps_db label_start)) (id_tenant_id (labeller ''app'')) ''i'' = Some saved_interaction"
    by (simp add: interaction_at_def label_start_def labeller_def rows_at_def new_stored_row_def saved_interaction_def
        stored_interaction_def)
  have denied: "\<not> pd_content_logging_allowed (fe_decide (label_env False) (labeller ''app'') (ia_application_id saved_interaction))"
    by (simp add: label_env_def label_policy_def)
  show ?thesis
    using feedback_confidential [OF label_start_working f [unfolded label_run_def] found denied]
    by (simp add: label_run_def) (simp add: label_start_def empty_tables_def)
qed

theorem feedback_keeps_erasure_witness:
  "settled ''t'' ''i'' (db_committed (ps_db (snd (record_feedback label_store_env (label_env True) label_draws (labeller ''app'') ''i''
     label_correction erased_state))))"
proof -
  have "settled ''t'' ''i'' erased_tables"
    by (simp add: settled_def stored_schema, simp add: erased_def erased_tables_def empty_tables_def new_stored_row_def)
  moreover have "platform erased_tables"
    by (simp add: platform_def stored_schema, simp add: own_responses_def erased_tables_def empty_tables_def)
  moreover have "db_working (ps_db erased_state) = None" "db_committed (ps_db erased_state) = erased_tables"
    by (simp_all add: erased_state_def)
  ultimately show ?thesis
    using feedback_keeps_erasure [of erased_state "''t''" "''i''" label_store_env "label_env True" label_draws
        "labeller ''app''" "''i''" label_correction] by simp
qed

end
