(* ===== verification/Eligibility.thy ===== *)
theory Eligibility
  imports Persistence_Laws Policy Contracts_Datasets
begin

text \<open>
  The selection of dataset candidates, \<open>datasets/eligibility.py\<close>: every interaction of the source
  window is judged by the current policy and the current state of the stores, and is either an
  example, with the records it refers to, or counted under each reason that excludes it. The reads
  happen in one read transaction, so the selection is a function of the tables. The policy engine
  is the argument \<open>engine\<close>.
\<close>

section \<open>Examples\<close>

record example =
  ex_interaction :: interaction
  ex_policy :: policy_decision
  ex_retrieval :: "retrieval_run option"
  ex_attempt :: "generation_attempt option"
  ex_feedback :: "feedback list"

record selection =
  se_examples :: "example list"
  se_considered :: nat
  se_exclusions :: "(string \<times> nat) list"

definition truthy :: "string option \<Rightarrow> bool" where
  "truthy s = (or_empty s \<noteq> [])"

definition found :: "tables \<Rightarrow> string \<Rightarrow> kind \<Rightarrow> string \<Rightarrow> stored_record option" where
  "found tb tenant k i = map_option sw_data (rows_at tb tenant k i)"

definition window :: "tables \<Rightarrow> string \<Rightarrow> instant \<Rightarrow> instant \<Rightarrow> interaction list" where
  "window tb tenant start stop = interactions_in
     (sort_key (\<lambda>r. (sw_started r, sw_record r))
       (filter (\<lambda>r. sw_tenant r = tenant \<and>
          (case sw_started r of None \<Rightarrow> False | Some s \<Rightarrow> start \<le> s \<and> s < stop)) (tb_rows tb)))"

text \<open>The window is what the store's query returns.\<close>

lemma in_window_eq: "in_window tenant start stop db = (Inr (window (tables_of db) tenant start stop), db)"
  by (simp add: in_window_def window_def sql_read_def)

section \<open>Judging one interaction\<close>

definition current_identity :: "string \<Rightarrow> interaction \<Rightarrow> identity" where
  "current_identity tenant x =
     \<lparr>id_tenant_id = tenant, id_application_ids = [ia_application_id x], id_environment = ia_environment x,
      id_subject = ia_subject x, id_key_class = UserKey, id_dataset_tenants = [], id_capabilities = []\<rparr>"

definition retrieval_of :: "tables \<Rightarrow> string \<Rightarrow> interaction \<Rightarrow> retrieval_run option" where
  "retrieval_of tb tenant x =
     (if truthy (ia_retrieval_run_id x)
      then (case found tb tenant KRetrieval (or_empty (ia_retrieval_run_id x)) of
              Some (RRetrieval r) \<Rightarrow> Some r | _ \<Rightarrow> None)
      else None)"

definition attempt_of :: "tables \<Rightarrow> string \<Rightarrow> interaction \<Rightarrow> generation_attempt option" where
  "attempt_of tb tenant x =
     (if truthy (ia_final_attempt_id x)
      then (case found tb tenant KAttempt (or_empty (ia_final_attempt_id x)) of
              Some (RAttempt a) \<Rightarrow> Some a | _ \<Rightarrow> None)
      else None)"

fun feedback_of :: "tables \<Rightarrow> string \<Rightarrow> string list \<Rightarrow> feedback list" where
  "feedback_of tb tenant [] = []"
| "feedback_of tb tenant (i # is) =
     (case found tb tenant KFeedback i of
        Some (RFeedback f) \<Rightarrow> f # feedback_of tb tenant is
      | _ \<Rightarrow> feedback_of tb tenant is)"

definition unsupported_licence :: "retrieval_run \<Rightarrow> bool" where
  "unsupported_licence r = list_ex (\<lambda>c. ce_supplied_to_model c \<and>
     ce_licence_class c \<noteq> SyntheticLicence \<and> ce_licence_class c \<noteq> InternalApproved) (rr_candidates r)"

definition usable_correction :: "feedback \<Rightarrow> bool" where
  "usable_correction f =
     (fb_label_type f = Correction \<and> fb_training_authorised f \<and> truthy (fb_correction_ref f) \<and>
      \<not> truthy (fb_error_code f))"

text \<open>A negative label of a user that no later correction answers.\<close>

definition unresolved :: "feedback list \<Rightarrow> feedback \<Rightarrow> bool" where
  "unresolved fs f =
     (fb_source f = UserSource \<and> (fb_label_type f = Thumb \<or> fb_label_type f = Rubric) \<and>
      fv_score (fb_value f) * 2 < fv_max_score (fb_value f) \<and>
      \<not> list_ex (\<lambda>c. fb_created_at c > fb_created_at f) (filter usable_correction fs))"

definition judge :: "tables \<Rightarrow> dataset_specification \<Rightarrow> instant \<Rightarrow> string \<Rightarrow> policy_decision \<Rightarrow> interaction \<Rightarrow>
    (bool \<times> string) list" where
  "judge tb spec t tenant current x =
     (let i = ia_interaction_id x; own = rows_at tb tenant KInteraction i;
          fs = feedback_of tb tenant (ia_feedback_ids x); purpose = ds_purpose spec
      in [(ia_application_id x = ''evaluation'', ''evaluation_interaction''),
          (\<not> pd_training_allowed current \<or> \<not> pd_processing_allowed current, ''training_forbidden''),
          (purpose = EvaluationPurpose \<and> \<not> pd_evaluation_allowed current, ''evaluation_forbidden''),
          (ia_status x \<noteq> Completed \<and> purpose \<noteq> RouterTraining, ''not_completed''),
          (map_of (tb_tombstones tb) (tenant, i) \<noteq> None, ''interaction_deleted''),
          (case ia_subject x of None \<Rightarrow> False | Some p \<Rightarrow> map_of (tb_subjects tb) (tenant, p) \<noteq> None, ''subject_deleted''),
          (case own of None \<Rightarrow> True | Some r \<Rightarrow> sw_expires r \<le> t \<or> sw_state r = ExpiredRecord, ''expired''),
          (case own of None \<Rightarrow> False | Some r \<Rightarrow> sw_state r = DeletedRecord, ''interaction_deleted''),
          (ia_error_code x = Some ''persistence_redaction_failed'', ''persistence_redaction_failed''),
          (truthy (ia_retrieval_run_id x) \<and> retrieval_of tb tenant x = None, ''missing_retrieval''),
          (case retrieval_of tb tenant x of None \<Rightarrow> False | Some r \<Rightarrow> unsupported_licence r, ''unsupported_licence''),
          (length fs \<noteq> length (ia_feedback_ids x), ''missing_feedback''),
          (purpose \<noteq> RouterTraining \<and> list_ex (unresolved fs) fs, ''unresolved_negative_feedback''),
          (purpose \<noteq> RouterTraining \<and> (\<not> truthy (is_messages_ref (ia_input x)) \<or> \<not> truthy (is_content_hash (ia_input x))),
           ''missing_input'')])"

definition reasons :: "tables \<Rightarrow> dataset_specification \<Rightarrow> instant \<Rightarrow> string \<Rightarrow> policy_decision \<Rightarrow> interaction \<Rightarrow> string list" where
  "reasons tb spec t tenant current x = remdups (map snd (filter fst (judge tb spec t tenant current x)))"

definition example_of :: "tables \<Rightarrow> string \<Rightarrow> policy_decision \<Rightarrow> interaction \<Rightarrow> example" where
  "example_of tb tenant current x =
     \<lparr>ex_interaction = x, ex_policy = current, ex_retrieval = retrieval_of tb tenant x,
      ex_attempt = attempt_of tb tenant x, ex_feedback = feedback_of tb tenant (ia_feedback_ids x)\<rparr>"

section \<open>The selection\<close>

type_synonym decider = "identity \<Rightarrow> string \<Rightarrow> policy_decision"

fun weigh ::
    "decider \<Rightarrow> tables \<Rightarrow> dataset_specification \<Rightarrow> instant \<Rightarrow> (string \<times> interaction) list \<Rightarrow>
     selection \<Rightarrow> selection result" where
  "weigh engine tb spec t [] s = Inr s"
| "weigh engine tb spec t ((tenant, x) # rest) s =
     (let current = engine (current_identity tenant x) (ia_application_id x) in
      if pd_policy_version current \<noteq> ds_eligibility_policy_version spec
      then Inl (GatewayError 409 ''eligibility_policy_version_mismatch'')
      else let rs = reasons tb spec t tenant current x; s = s\<lparr>se_considered := Suc (se_considered s)\<rparr> in
        weigh engine tb spec t rest
          (if rs \<noteq> [] then s\<lparr>se_exclusions := fold count_up rs (se_exclusions s)\<rparr>
           else s\<lparr>se_examples := se_examples s @ [example_of tb tenant current x]\<rparr>))"

definition in_windows :: "tables \<Rightarrow> dataset_specification \<Rightarrow> (string \<times> interaction) list" where
  "in_windows tb spec = concat (map (\<lambda>tenant. map (Pair tenant)
     (window tb tenant (sw_start (ds_source_window spec)) (sw_end (ds_source_window spec))))
     (sort (ds_tenant_ids spec)))"

definition started_order :: "example \<Rightarrow> instant \<times> string" where
  "started_order e = (ia_started_at (ex_interaction e), ia_interaction_id (ex_interaction e))"

definition select :: "decider \<Rightarrow> tables \<Rightarrow> dataset_specification \<Rightarrow> instant \<Rightarrow> selection result" where
  "select engine tb spec t =
     bindE (weigh engine tb spec t (in_windows tb spec)
              \<lparr>se_examples = [], se_considered = 0, se_exclusions = []\<rparr>)
       (\<lambda>s. Inr (s\<lparr>se_examples := sort_key started_order (se_examples s)\<rparr>))"

section \<open>Lemmas\<close>

abbreviation current_of :: "decider \<Rightarrow> string \<times> interaction \<Rightarrow> policy_decision" where
  "current_of engine c \<equiv> engine (current_identity (fst c) (snd c)) (ia_application_id (snd c))"

abbreviation reasons_of ::
    "decider \<Rightarrow> tables \<Rightarrow> dataset_specification \<Rightarrow> instant \<Rightarrow> string \<times> interaction \<Rightarrow> string list" where
  "reasons_of engine tb spec t c \<equiv> reasons tb spec t (fst c) (current_of engine c) (snd c)"

definition counted :: "('k \<times> nat) list \<Rightarrow> 'k \<Rightarrow> nat" where
  "counted d k = (case map_of d k of None \<Rightarrow> 0 | Some n \<Rightarrow> n)"

lemma counted_Nil [simp]: "counted [] k = 0"
  by (simp add: counted_def)

lemma counted_up: "counted (count_up k d) r = (if r = k then Suc (counted d r) else counted d r)"
  by (simp add: counted_def count_up_def)

lemma counted_fold:
  "distinct rs \<Longrightarrow> counted (fold count_up rs d) r = counted d r + (if r \<in> set rs then 1 else 0)"
  by (induction rs arbitrary: d) (auto simp: counted_up)

text \<open>The selection in closed form: the candidates without a reason, and for each reason the number
  of candidates that have it.\<close>

lemma weigh_closed:
  assumes "weigh engine tb spec t cs s = Inr s'"
  shows "(\<forall>c \<in> set cs. pd_policy_version (current_of engine c) = ds_eligibility_policy_version spec) \<and>
    se_considered s' = se_considered s + length cs \<and>
    se_examples s' = se_examples s @ map (\<lambda>c. example_of tb (fst c) (current_of engine c) (snd c))
      (filter (\<lambda>c. reasons_of engine tb spec t c = []) cs) \<and>
    (\<forall>r. counted (se_exclusions s') r =
       counted (se_exclusions s) r +
       length (filter (\<lambda>c. r \<in> set (reasons_of engine tb spec t c)) cs))"
  using assms
proof (induction cs arbitrary: s)
  case (Cons c cs)
  obtain tenant x where c: "c = (tenant, x)" by (cases c)
  let ?rs = "reasons_of engine tb spec t c"
  let ?s = "s\<lparr>se_considered := Suc (se_considered s)\<rparr>"
  let ?next = "if ?rs \<noteq> [] then ?s\<lparr>se_exclusions := fold count_up ?rs (se_exclusions ?s)\<rparr>
      else ?s\<lparr>se_examples := se_examples ?s @ [example_of tb tenant (current_of engine c) x]\<rparr>"
  have version: "pd_policy_version (current_of engine c) = ds_eligibility_policy_version spec"
    using Cons.prems by (auto simp: c Let_def split: if_splits)
  then have step: "weigh engine tb spec t cs ?next = Inr s'"
    using Cons.prems by (auto simp: c Let_def split: if_splits)
  have "distinct ?rs" by (simp add: reasons_def)
  note added = counted_fold [OF this, unfolded c fst_conv snd_conv]
  show ?case
    using Cons.IH [OF step] version by (cases "?rs = []") (auto simp: c added)
qed simp

lemma select_closed:
  assumes "select engine tb spec t = Inr s"
  shows "(\<forall>c \<in> set (in_windows tb spec). pd_policy_version (current_of engine c) = ds_eligibility_policy_version spec)"
    and "se_considered s = length (in_windows tb spec)"
    and "se_examples s = sort_key started_order (map (\<lambda>c. example_of tb (fst c) (current_of engine c) (snd c))
      (filter (\<lambda>c. reasons_of engine tb spec t c = []) (in_windows tb spec)))"
    and "counted (se_exclusions s) r =
       length (filter (\<lambda>c. r \<in> set (reasons_of engine tb spec t c)) (in_windows tb spec))"
proof -
  obtain s' where s': "weigh engine tb spec t (in_windows tb spec)
      \<lparr>se_examples = [], se_considered = 0, se_exclusions = []\<rparr> = Inr s'"
    and s: "s = s'\<lparr>se_examples := sort_key started_order (se_examples s')\<rparr>"
    using assms by (auto simp: select_def bindE_Inr_iff)
  note closed = weigh_closed [OF s']
  show "\<forall>c \<in> set (in_windows tb spec). pd_policy_version (current_of engine c) = ds_eligibility_policy_version spec"
    using closed by blast
  show "se_considered s = length (in_windows tb spec)" using closed by (simp add: s)
  show "se_examples s = sort_key started_order (map (\<lambda>c. example_of tb (fst c) (current_of engine c) (snd c))
      (filter (\<lambda>c. reasons_of engine tb spec t c = []) (in_windows tb spec)))"
    using closed by (simp add: s)
  have "counted (se_exclusions s') r =
       length (filter (\<lambda>c. r \<in> set (reasons_of engine tb spec t c)) (in_windows tb spec))"
    using closed by (elim conjE) (drule spec [of _ r], simp)
  then show "counted (se_exclusions s) r =
       length (filter (\<lambda>c. r \<in> set (reasons_of engine tb spec t c)) (in_windows tb spec))"
    by (simp add: s)
qed

lemma reasons_empty: "reasons tb spec t tenant current x = [] \<longleftrightarrow> (\<forall>g \<in> set (judge tb spec t tenant current x). \<not> fst g)"
  by (simp add: reasons_def filter_empty_conv)

lemma window_from:
  assumes "x \<in> set (window tb tenant start stop)"
  obtains r where "r \<in> set (tb_rows tb)" and "sw_tenant r = tenant" and "sw_data r = RInteraction x"
    and "\<exists>s. sw_started r = Some s \<and> start \<le> s \<and> s < stop"
  using assms by (auto simp: window_def interactions_in_iff split: option.splits)

lemma in_windows_from:
  assumes "c \<in> set (in_windows tb spec)"
  shows "fst c \<in> set (ds_tenant_ids spec) \<and>
    (\<exists>r \<in> set (tb_rows tb). sw_tenant r = fst c \<and> sw_data r = RInteraction (snd c))"
  using assms by (auto simp: in_windows_def elim!: window_from)

section \<open>Properties\<close>

text \<open>The selection is a partition with reasons: every interaction of the window is judged under the
  policy version of the specification, the examples are exactly those without a reason against
  them, in the order of their start, and each exclusion counter is the number of interactions that
  have that reason.\<close>

theorem selection_accounts_for_all:
  assumes "select engine tb spec t = Inr s"
  shows "se_considered s = length (in_windows tb spec) \<and>
    (\<forall>c \<in> set (in_windows tb spec). pd_policy_version (current_of engine c) = ds_eligibility_policy_version spec) \<and>
    mset (se_examples s) = mset (map (\<lambda>c. example_of tb (fst c) (current_of engine c) (snd c))
      (filter (\<lambda>c. reasons_of engine tb spec t c = []) (in_windows tb spec))) \<and>
    sorted (map started_order (se_examples s)) \<and>
    (\<forall>r. counted (se_exclusions s) r =
       length (filter (\<lambda>c. r \<in> set (reasons_of engine tb spec t c)) (in_windows tb spec)))"
  using select_closed [OF assms] by simp

lemma example_judged:
  assumes "select engine tb spec t = Inr s" and "e \<in> set (se_examples s)"
  obtains tenant x r where "tenant \<in> set (ds_tenant_ids spec)" and "r \<in> set (tb_rows tb)" and "sw_tenant r = tenant"
    and "sw_data r = RInteraction x" and "e = example_of tb tenant (current_of engine (tenant, x)) x"
    and "\<forall>g \<in> set (judge tb spec t tenant (current_of engine (tenant, x)) x). \<not> fst g"
proof -
  obtain c where c: "c \<in> set (in_windows tb spec)" "reasons_of engine tb spec t c = []"
      "e = example_of tb (fst c) (current_of engine c) (snd c)"
    using assms(2) unfolding select_closed(3) [OF assms(1)] by auto
  from in_windows_from [OF c(1)] obtain r where r: "fst c \<in> set (ds_tenant_ids spec)" "r \<in> set (tb_rows tb)"
      "sw_tenant r = fst c" "sw_data r = RInteraction (snd c)" by blast
  have "\<forall>g \<in> set (judge tb spec t (fst c) (current_of engine (fst c, snd c)) (snd c)). \<not> fst g"
    using c(2) unfolding reasons_empty by simp
  with r c(3) show ?thesis by (intro that [of "fst c" r "snd c"]) simp_all
qed

text \<open>C33. An example may be trained on: the current policy of its tenant allows processing and training (and
  evaluation, for an evaluation dataset), neither it nor its subject was erased, it is unexpired at
  the instant of the selection, and no user's complaint about it is left without a usable, later
  correction (outside router training).\<close>

theorem examples_are_permitted:
  assumes "select engine tb spec t = Inr s" and "e \<in> set (se_examples s)"
  shows "\<exists>tenant \<in> set (ds_tenant_ids spec). \<exists>r x. rows_at tb tenant KInteraction (ia_interaction_id x) = Some r \<and>
    ex_interaction e = x \<and> t < sw_expires r \<and> sw_state r = ActiveRecord \<and>
    ex_policy e = engine (current_identity tenant x) (ia_application_id x) \<and>
    pd_training_allowed (ex_policy e) \<and> pd_processing_allowed (ex_policy e) \<and>
    (ds_purpose spec = EvaluationPurpose \<longrightarrow> pd_evaluation_allowed (ex_policy e)) \<and>
    map_of (tb_tombstones tb) (tenant, ia_interaction_id x) = None \<and>
    (\<forall>p. ia_subject x = Some p \<longrightarrow> map_of (tb_subjects tb) (tenant, p) = None) \<and>
    (ds_purpose spec \<noteq> RouterTraining \<longrightarrow> (\<forall>f \<in> set (ex_feedback e). \<not> unresolved (ex_feedback e) f))"
proof (rule example_judged [OF assms])
  fix tenant x r
  let ?cur = "current_of engine (tenant, x)"
  assume h: "tenant \<in> set (ds_tenant_ids spec)" "e = example_of tb tenant ?cur x"
    "\<forall>g \<in> set (judge tb spec t tenant ?cur x). \<not> fst g"
  note judged = h(3) [unfolded judge_def Let_def, simplified]
  have "rows_at tb tenant KInteraction (ia_interaction_id x) \<noteq> None" using judged by (auto split: option.splits)
  then obtain q where q: "rows_at tb tenant KInteraction (ia_interaction_id x) = Some q" by blast
  have state: "t < sw_expires q" "sw_state q = ActiveRecord"
    using judged q by (auto intro: record_state.exhaust [of "sw_state q"])
  show ?thesis
    by (rule bexI [OF _ h(1)], rule exI [of _ q], rule exI [of _ x])
      (use judged q state in \<open>auto simp: h(2) example_of_def list_ex_iff split: option.splits\<close>)
qed

text \<open>Erasure reaches the datasets: once an interaction has been erased, whatever is saved, labelled,
  deleted or swept afterwards, no selection over the stores contains it.\<close>

theorem erased_never_selected:
  assumes "persistence_run env st st'" and "db_working (ps_db st) = None" and "settled tenant i (db_committed (ps_db st))"
    and "select engine (db_committed (ps_db st')) spec t = Inr s" and "e \<in> set (se_examples s)"
    and "ia_interaction_id (ex_interaction e) = i"
  shows "\<exists>u \<in> set (ds_tenant_ids spec). u \<noteq> tenant \<and>
    (\<exists>r \<in> set (tb_rows (db_committed (ps_db st'))). sw_tenant r = u \<and> sw_data r = RInteraction (ex_interaction e))"
proof -
  have "settled tenant i (db_committed (ps_db st'))" by (rule kept_settled.run_held(2) [OF assms(1-3)])
  then have tomb: "map_of (tb_tombstones (db_committed (ps_db st'))) (tenant, i) \<noteq> None"
    by (simp add: settled_def erased_def)
  show ?thesis
  proof (rule example_judged [OF assms(4,5)])
    fix u x r
    assume h: "u \<in> set (ds_tenant_ids spec)" "r \<in> set (tb_rows (db_committed (ps_db st')))" "sw_tenant r = u"
      "sw_data r = RInteraction x" "e = example_of (db_committed (ps_db st')) u (current_of engine (u, x)) x"
      "\<forall>g \<in> set (judge (db_committed (ps_db st')) spec t u (current_of engine (u, x)) x). \<not> fst g"
    have x: "ex_interaction e = x" by (simp add: h(5) example_of_def)
    have "map_of (tb_tombstones (db_committed (ps_db st'))) (u, ia_interaction_id x) = None"
      using h(6) unfolding judge_def Let_def by simp
    then have none: "map_of (tb_tombstones (db_committed (ps_db st'))) (u, i) = None"
      using assms(6) x by simp
    have "u \<noteq> tenant"
    proof
      assume "u = tenant"
      with none tomb show False by simp
    qed
    then show ?thesis using h(1-4) x by blast
  qed
qed

section \<open>A sample\<close>

definition dataset_tables :: tables where
  "dataset_tables = empty_tables\<lparr>tb_rows := [new_stored_row ''t''
     (RInteraction (stored_interaction\<lparr>ia_input := (ia_input stored_interaction)\<lparr>is_content_hash := Some ''h''\<rparr>\<rparr>)) 9]\<rparr>"

definition trainer_policy :: decider where
  "trainer_policy = (\<lambda>_ _. (policy_decision_default ''p1'' 3600)\<lparr>pd_training_allowed := True\<rparr>)"

definition adapter_specification :: "string \<Rightarrow> dataset_specification" where
  "adapter_specification tenant =
     sample_dataset_specification\<lparr>ds_tenant_ids := [tenant], ds_eligibility_policy_version := ''p1''\<rparr>"

definition dataset_selection :: "tables \<Rightarrow> selection" where
  "dataset_selection tb = (case select trainer_policy tb (adapter_specification ''t'') 3 of Inr s \<Rightarrow> s)"

lemma dataset_selected: "select trainer_policy dataset_tables (adapter_specification ''t'') 3 = Inr (dataset_selection dataset_tables)"
  "length (se_examples (dataset_selection dataset_tables)) = 1"
  by (simp_all add: dataset_selection_def select_def in_windows_def window_def adapter_specification_def sample_dataset_specification_def dataset_tables_def
      empty_tables_def new_stored_row_def stored_interaction_def trainer_policy_def policy_decision_default_def
      reasons_def judge_def rows_at_def truthy_def or_empty_def retrieval_of_def)

theorem selection_accounts_for_all_witness:
  "se_considered (dataset_selection dataset_tables) = length (in_windows dataset_tables (adapter_specification ''t''))"
  using selection_accounts_for_all [OF dataset_selected(1)] by blast

theorem examples_are_permitted_witness:
  "\<exists>e \<in> set (se_examples (dataset_selection dataset_tables)). pd_training_allowed (ex_policy e)"
proof -
  obtain e where e: "e \<in> set (se_examples (dataset_selection dataset_tables))"
    using dataset_selected(2) by (cases "se_examples (dataset_selection dataset_tables)") auto
  then show ?thesis using examples_are_permitted [OF dataset_selected(1) e] by blast
qed

definition shared_id_tables :: tables where
  "shared_id_tables = erased_tables\<lparr>tb_rows := tb_rows erased_tables @ [new_stored_row ''u''
     (RInteraction (stored_interaction\<lparr>ia_input := (ia_input stored_interaction)\<lparr>is_content_hash := Some ''h''\<rparr>\<rparr>)) 9]\<rparr>"

lemma shared_settled: "settled ''t'' ''i'' shared_id_tables"
  by (simp add: settled_def erased_def schema_def rows_ok_def payloads_ok_def replays_ok_def known_def shared_id_tables_def
      erased_tables_def empty_tables_def columns_agree_def new_stored_row_def row_key_def stored_interaction_def)

definition shared_state :: "event list persistence_state" where
  "shared_state = start_state\<lparr>ps_db := \<lparr>db_committed = shared_id_tables, db_working = None\<rparr>\<rparr>"

definition shared_selection :: selection where
  "shared_selection = (case select trainer_policy shared_id_tables (adapter_specification ''u'') 3 of Inr s \<Rightarrow> s)"

lemma shared_selected: "select trainer_policy shared_id_tables (adapter_specification ''u'') 3 = Inr shared_selection"
  "map (\<lambda>e. ia_interaction_id (ex_interaction e)) (se_examples shared_selection) = [''i'']"
  by (simp_all add: shared_selection_def select_def in_windows_def window_def adapter_specification_def
      sample_dataset_specification_def shared_id_tables_def erased_tables_def
      empty_tables_def new_stored_row_def stored_interaction_def trainer_policy_def policy_decision_default_def
      reasons_def judge_def rows_at_def truthy_def or_empty_def retrieval_of_def example_of_def)

theorem erased_never_selected_witness:
  "\<exists>e \<in> set (se_examples shared_selection). \<exists>r \<in> set (tb_rows shared_id_tables).
     sw_tenant r \<noteq> ''t'' \<and> sw_data r = RInteraction (ex_interaction e)"
proof -
  obtain e where e: "e \<in> set (se_examples shared_selection)" "ia_interaction_id (ex_interaction e) = ''i''"
    using shared_selected(2) by (cases "se_examples shared_selection") auto
  have run: "persistence_run small_env shared_state shared_state" by (rule run_start)
  have db: "db_working (ps_db shared_state) = None" "db_committed (ps_db shared_state) = shared_id_tables"
    by (simp_all add: shared_state_def)
  show ?thesis
    using erased_never_selected [OF run db(1) shared_settled [folded db(2)] shared_selected(1) [folded db(2)] e] e(1) db(2)
    by auto
qed

end
