(* ===== verification/Construction.thy ===== *)
theory Construction
  imports Eligibility Curation Rag
begin

text \<open>
  The construction of one training example, \<open>datasets/construction.py\<close>, and the resolution of its
  sources, \<open>datasets/sources.py\<close>: the payloads of a snapshot are decrypted and checked against
  their stored hashes, every text is redacted again, the sources are bracketed, and the target is
  the first of the preferred kinds that is usable. An example that cannot be built is excluded with
  a fixed reason (\<open>Excluded\<close>); anything else that is raised ends the build (\<open>Raised\<close>). The cipher,
  the key ring and the redactor are those of the persistence; the codec of the messages, the test
  for valid UTF-8 and the rows of the source file are arguments.
\<close>

section \<open>Outcomes\<close>

datatype construct_error = Excluded string | Raised exc

type_synonym 'a built = "construct_error + 'a"

definition then_build :: "'a built \<Rightarrow> ('a \<Rightarrow> 'b built) \<Rightarrow> 'b built" where
  "then_build r f = (case r of Inl e \<Rightarrow> Inl e | Inr x \<Rightarrow> f x)"

definition exclude_unless :: "bool \<Rightarrow> string \<Rightarrow> unit built" where
  "exclude_unless b reason = (if b then Inr () else Inl (Excluded reason))"

lemma then_build_simps [simp]:
  "then_build (Inl e) f = Inl e"
  "then_build (Inr x) f = f x"
  by (simp_all add: then_build_def)

lemma then_build_Inr_iff: "then_build r f = Inr y \<longleftrightarrow> (\<exists>x. r = Inr x \<and> f x = Inr y)"
  by (cases r) simp_all

lemma exclude_unless_Inr [simp]: "exclude_unless b reason = Inr u \<longleftrightarrow> b"
  by (simp add: exclude_unless_def)

fun each_built :: "('a \<Rightarrow> 'b built) \<Rightarrow> 'a list \<Rightarrow> 'b list built" where
  "each_built f [] = Inr []"
| "each_built f (x # xs) = then_build (f x) (\<lambda>y. then_build (each_built f xs) (\<lambda>ys. Inr (y # ys)))"

lemma each_built_Inr: "each_built f xs = Inr ys \<Longrightarrow> list_all2 (\<lambda>x y. f x = Inr y) xs ys"
  by (induction xs arbitrary: ys) (auto simp: then_build_Inr_iff)

section \<open>Sources\<close>

definition resolve ::
    "hash_functions \<Rightarrow> indexed_chunk list option \<Rightarrow> interaction \<Rightarrow> retrieval_run \<Rightarrow> chunk_evidence \<Rightarrow> string \<Rightarrow>
     indexed_chunk option" where
  "resolve hf file x run e residency =
     (case file of
        None \<Rightarrow> None
      | Some chunks \<Rightarrow>
          (case filter (\<lambda>c. ck_tenant_id c = ia_tenant_id x \<and> ck_environment c = ia_environment x \<and>
                  ia_application_id x \<in> set (ck_allowed_applications c) \<and> ck_region c = residency \<and>
                  ck_index_id c = rr_index_id run \<and> xc_index_version c = rr_index_version run \<and>
                  ck_document_id c = ce_document_id e \<and> ck_chunk_id c = ce_chunk_id e \<and>
                  ck_document_version c = ce_document_version e \<and>
                  (ck_licence_class c = SyntheticLicence \<or> ck_licence_class c = InternalApproved) \<and>
                  ck_licence_class c = ce_licence_class e) chunks of
             [c] \<Rightarrow> if to_hex (hf_sha256 hf (ck_content c)) \<noteq> ce_content_hash e then None else Some c
           | _ \<Rightarrow> None))"

section \<open>The constructor\<close>

record ('k, 's) constructor =
  co_store :: "('k, 's) persistence_env"
  co_load_messages :: "string \<Rightarrow> message list option"
  co_is_utf8 :: "string \<Rightarrow> bool"
  co_sources :: "indexed_chunk list option"
  co_show_float :: "flt \<Rightarrow> string"

type_synonym snapshot = "((string \<times> string) \<times> encrypted_payload) list"

definition snapshot_get :: "snapshot \<Rightarrow> string \<Rightarrow> string \<Rightarrow> instant \<Rightarrow> encrypted_payload option" where
  "snapshot_get blobs tenant ref t =
     (case map_of blobs (tenant, ref) of
        None \<Rightarrow> None
      | Some b \<Rightarrow> if ep_expires_at b > t then Some b else None)"

definition read_payload ::
    "('k, 's) constructor \<Rightarrow> snapshot \<Rightarrow> instant \<Rightarrow> interaction \<Rightarrow> string \<Rightarrow> string \<Rightarrow> string \<Rightarrow> string built" where
  "read_payload co blobs t x ref f digest =
     (let env = co_store co in
      case snapshot_get blobs (ia_tenant_id x) ref t of
        None \<Rightarrow> Inl (Excluded ''missing_payload'')
      | Some b \<Rightarrow>
          (case decrypt (pe_aead env) (pe_cipher env) b (ia_tenant_id x) (ia_interaction_id x) f None of
             Inl (StorageError _) \<Rightarrow> Inl (Excluded ''invalid_payload'')
           | Inl e \<Rightarrow> Inl (Raised e)
           | Inr v \<Rightarrow>
               then_build (exclude_unless (co_is_utf8 co v) ''invalid_payload'') (\<lambda>_.
               then_build (exclude_unless (content_hash (pe_hash env) (pe_keyring env) v
                   (if f = ''messages'' then InputContent else OutputContent) = digest) ''payload_hash_mismatch'') (\<lambda>_.
               Inr v))))"

definition redact_built :: "('k, 's) constructor \<Rightarrow> policy_decision \<Rightarrow> string \<Rightarrow> string built" where
  "redact_built co policy v =
     (case pe_redact (co_store co) v policy of
        None \<Rightarrow> Inl (Excluded ''build_redaction_failed'')
      | Some (r, _) \<Rightarrow> Inr r)"

text \<open>\<open>value.replace(old, new)\<close>; the quotation marks are U+2039 and U+203A in UTF-8.\<close>

function replace_all :: "string \<Rightarrow> string \<Rightarrow> string \<Rightarrow> string" where
  "replace_all old new [] = []"
| "replace_all old new (c # s) =
     (if old \<noteq> [] \<and> starts_with old (c # s) then new @ replace_all old new (drop (length old) (c # s))
      else c # replace_all old new s)"
  by pat_completeness auto
termination
  by (relation "measure (\<lambda>(old, new, t). length t)") auto

definition left_quotes :: string where
  "left_quotes = map char_of [226 :: nat, 128, 185, 226, 128, 185]"

definition right_quotes :: string where
  "right_quotes = map char_of [226 :: nat, 128, 186, 226, 128, 186]"

definition neutralized :: "string \<Rightarrow> string" where
  "neutralized v = replace_all ''>>'' right_quotes (replace_all ''<<'' left_quotes v)"

definition boundary_chars :: string where
  "boundary_chars = [CHR ''<'', CHR ''>'', char_of (13::nat), char_of (10::nat), char_of (0::nat)]"

definition source_text :: "indexed_chunk \<Rightarrow> string \<Rightarrow> string" where
  "source_text c content =
     ''<<source '' @ ck_document_id c @ ''/'' @ ck_chunk_id c @ '' '' @ ck_document_version c @ ''>>'' @
     content @ ''<</source>>''"

definition licence_text :: "licence_class \<Rightarrow> string" where
  "licence_text l = (case l of SyntheticLicence \<Rightarrow> ''synthetic'' | InternalApproved \<Rightarrow> ''internal-approved''
     | UnknownLicence \<Rightarrow> ''unknown'')"

definition provenance_of :: "retrieval_run \<Rightarrow> chunk_evidence \<Rightarrow> indexed_chunk \<Rightarrow> json" where
  "provenance_of run e c = JObj
     [(''document_id'', JStr (ck_document_id c)), (''chunk_id'', JStr (ck_chunk_id c)),
      (''document_version'', JStr (ck_document_version c)), (''document_family'', JStr (ck_document_family c)),
      (''index_id'', JStr (rr_index_id run)), (''index_version'', JStr (rr_index_version run)),
      (''content_hash'', JStr (ce_content_hash e)), (''licence_class'', JStr (licence_text (ck_licence_class c)))]"

definition position_key :: "chunk_evidence \<Rightarrow> int" where
  "position_key e = (case ce_context_position e of None \<Rightarrow> -1 | Some n \<Rightarrow> int n)"

definition supplied_evidence :: "retrieval_run \<Rightarrow> chunk_evidence list" where
  "supplied_evidence run = sort_key position_key (filter ce_supplied_to_model (rr_candidates run))"

definition build_source ::
    "('k, 's) constructor \<Rightarrow> example \<Rightarrow> retrieval_run \<Rightarrow> chunk_evidence \<Rightarrow> (indexed_chunk \<times> string \<times> json) built" where
  "build_source co ex run e =
     (case resolve (pe_hash (co_store co)) (co_sources co) (ex_interaction ex) run e (pd_residency (ex_policy ex)) of
        None \<Rightarrow> Inl (Excluded ''source_unavailable'')
      | Some c \<Rightarrow>
          then_build (exclude_unless (\<not> list_ex (\<lambda>ch. ch \<in> set boundary_chars) (ck_document_version c))
             ''invalid_source_boundary'') (\<lambda>_.
          then_build (redact_built co (ex_policy ex) (ck_content c)) (\<lambda>content.
          Inr (c, source_text c (neutralized content), provenance_of run e c))))"

definition build_sources ::
    "('k, 's) constructor \<Rightarrow> example \<Rightarrow> (indexed_chunk \<times> string \<times> json) list built" where
  "build_sources co ex =
     (case ex_retrieval ex of
        None \<Rightarrow> Inr []
      | Some run \<Rightarrow>
          let evidence = supplied_evidence run in
          then_build (exclude_unless (map ce_context_position evidence = map Some [0..<length evidence])
             ''invalid_source_order'') (\<lambda>_. each_built (build_source co ex run) evidence))"

section \<open>The target\<close>

definition label_order :: "feedback \<Rightarrow> instant \<times> string" where
  "label_order f = (fb_created_at f, fb_feedback_id f)"

definition hashed_correction :: "feedback \<Rightarrow> bool" where
  "hashed_correction f = (usable_correction f \<and> truthy (fb_content_hash f))"

text \<open>The usable corrections, newest first.\<close>

definition target_corrections :: "feedback list \<Rightarrow> feedback list" where
  "target_corrections fs = rev (sort_key label_order (rev (filter hashed_correction fs)))"

definition positive_labels :: "feedback list \<Rightarrow> feedback list" where
  "positive_labels fs = sort_key label_order
     (filter (\<lambda>f. fb_label_type f = Resolution \<and> fv_score (fb_value f) * 2 > fv_max_score (fb_value f)) fs)"

definition usable_output :: "generation_attempt option \<Rightarrow> bool" where
  "usable_output attempt =
     (case attempt of
        None \<Rightarrow> False
      | Some a \<Rightarrow>
          (case ga_validation a of None \<Rightarrow> False | Some v \<Rightarrow> va_passed v) \<and> truthy (ga_output_ref a) \<and>
          truthy (ga_output_hash a) \<and> \<not> truthy (ga_error_code a) \<and> ga_finish_reason a = Stop \<and> ga_tool_calls a = [])"

text \<open>What one preference offers: a target with the label it rests on, if any.\<close>

definition offered ::
    "('k, 's) constructor \<Rightarrow> snapshot \<Rightarrow> instant \<Rightarrow> example \<Rightarrow> target_source \<Rightarrow> (string \<times> string option) option built" where
  "offered co blobs t ex preference =
     (let fs = ex_feedback ex; x = ex_interaction ex in
      if preference = CorrectionTarget
      then (case target_corrections fs of
          [] \<Rightarrow> Inr None
        | f # _ \<Rightarrow> then_build (read_payload co blobs t x (or_empty (fb_correction_ref f)) ''correction''
             (or_empty (fb_content_hash f))) (\<lambda>v. Inr (Some (v, Some (fb_feedback_id f)))))
      else if preference = PositiveResolution \<and> positive_labels fs = [] then Inr None
      else if usable_output (ex_attempt ex)
      then let a = the (ex_attempt ex) in
        then_build (read_payload co blobs t x (or_empty (ga_output_ref a)) ''output'' (or_empty (ga_output_hash a)))
          (\<lambda>v. Inr (Some (v, if preference = PositiveResolution then Some (fb_feedback_id (last (positive_labels fs))) else None)))
      else Inr None)"

fun choose_target ::
    "('k, 's) constructor \<Rightarrow> snapshot \<Rightarrow> instant \<Rightarrow> example \<Rightarrow> target_source list \<Rightarrow>
     (string \<times> target_source \<times> string option) built" where
  "choose_target co blobs t ex [] = Inl (Excluded ''missing_eligible_target'')"
| "choose_target co blobs t ex (p # ps) =
     then_build (offered co blobs t ex p) (\<lambda>found.
       case found of
         None \<Rightarrow> choose_target co blobs t ex ps
       | Some (v, label) \<Rightarrow> Inr (v, p, label))"

section \<open>The example\<close>

definition role_text :: "role \<Rightarrow> string" where
  "role_text r = (case r of System \<Rightarrow> ''system'' | User \<Rightarrow> ''user'' | Assistant \<Rightarrow> ''assistant'')"

definition risk_text :: "risk_tier \<Rightarrow> string" where
  "risk_text r = (case r of LowRisk \<Rightarrow> ''low'' | MediumRisk \<Rightarrow> ''medium'' | HighRisk \<Rightarrow> ''high'')"

definition target_text :: "target_source \<Rightarrow> string" where
  "target_text s = (case s of CorrectionTarget \<Rightarrow> ''correction'' | PositiveResolution \<Rightarrow> ''positive_resolution''
     | ProductionOutput \<Rightarrow> ''production_output'')"

definition optional_json :: "string option \<Rightarrow> json" where
  "optional_json s = (case s of None \<Rightarrow> JNull | Some v \<Rightarrow> JStr v)"

definition inputs_of :: "message list \<Rightarrow> string list \<Rightarrow> json" where
  "inputs_of messages sources = JObj
     [(''system'', JStr ''SYNTHETIC system instructions placeholder (local-1).''),
      (''policy'', JStr ''SYNTHETIC policy instructions placeholder (local-1).''),
      (''messages'', JArr (map (\<lambda>m. JObj [(''role'', JStr (role_text (role_of m))), (''content'', JStr (content_of m))]) messages)),
      (''sources'', JArr (map JStr sources)), (''tool_results'', JArr [])]"

definition row_of ::
    "('k, 's) constructor \<Rightarrow> example \<Rightarrow> json \<Rightarrow> string list \<Rightarrow> json list \<Rightarrow> string \<Rightarrow> target_source \<Rightarrow>
     string option \<Rightarrow> string \<Rightarrow> json" where
  "row_of co ex inputs families provenance target source label exact =
     (let x = ex_interaction ex in JObj
       [(''input'', inputs), (''target'', JStr target), (''target_source'', JStr (target_text source)),
        (''interaction_id'', JStr (ia_interaction_id x)), (''tenant_id'', JStr (ia_tenant_id x)),
        (''subject_id_pseudonymous'', optional_json (ia_subject x)),
        (''document_families'', JArr (map JStr families)), (''sources'', JArr provenance),
        (''target_feedback_id'', optional_json label),
        (''target_attempt_id'', if source \<noteq> CorrectionTarget then optional_json (ia_final_attempt_id x) else JNull),
        (''input_hash'', optional_json (is_content_hash (ia_input x))), (''example_hash'', JStr exact),
        (''eligibility_policy_version'', JStr (pd_policy_version (ex_policy ex))),
        (''redaction_version'', JStr (pe_redactor_version (co_store co))),
        (''labels'', JObj [(''task'', JStr (tk_label (ia_task x))), (''language'', JStr (tk_language (ia_task x))),
           (''risk_tier'', JStr (risk_text (tk_risk_tier (ia_task x)))), (''difficulty'', JStr ''unknown'')])])"

definition newline :: string where
  "newline = [char_of (10::nat)]"

definition construct ::
    "('k, 's) constructor \<Rightarrow> snapshot \<Rightarrow> dataset_specification \<Rightarrow> instant \<Rightarrow> example \<Rightarrow> built_example built" where
  "construct co blobs spec t ex =
     (let x = ex_interaction ex in
      if \<not> truthy (is_messages_ref (ia_input x)) \<or> \<not> truthy (is_content_hash (ia_input x))
      then Inl (Raised OtherException)
      else then_build (read_payload co blobs t x (or_empty (is_messages_ref (ia_input x))) ''messages''
              (or_empty (is_content_hash (ia_input x)))) (\<lambda>raw.
        case co_load_messages co raw of
          None \<Rightarrow> Inl (Excluded ''invalid_conversation'')
        | Some [] \<Rightarrow> Inl (Excluded ''invalid_conversation'')
        | Some ms \<Rightarrow>
            then_build (each_built (\<lambda>m. then_build (redact_built co (ex_policy ex) (content_of m))
               (\<lambda>c. Inr (m\<lparr>content_of := c\<rparr>))) ms) (\<lambda>conversation.
            then_build (build_sources co ex) (\<lambda>sources.
            then_build (choose_target co blobs t ex (ds_target_preference_order spec)) (\<lambda>(chosen, source, label).
            then_build (redact_built co (ex_policy ex) chosen) (\<lambda>target.
            then_build (exclude_unless (nonblank target) ''empty_target'') (\<lambda>_.
            let texts = map (\<lambda>s. fst (snd s)) sources;
                families = sorted_set (map (\<lambda>s. ck_document_family (fst s)) sources);
                inputs = inputs_of conversation texts;
                exact = dataset_hash (pe_hash (co_store co)) (pe_keyring (co_store co))
                  (canonical (co_show_float co) (JArr [inputs, JStr target]))
            in Inr \<lparr>be_interaction_id = ia_interaction_id x, be_tenant_id = ia_tenant_id x,
                 be_subject = ia_subject x, be_families = families, be_started_at = ia_started_at x,
                 be_target_source = target_text source, be_language = tk_language (ia_task x),
                 be_exact_hash = exact,
                 be_text = join newline (map content_of conversation @ texts @ [target]),
                 be_benchmark_text = Some (join newline (map content_of (filter (\<lambda>m. role_of m = User) conversation))),
                 be_row = row_of co ex inputs families (map (\<lambda>s. snd (snd s)) sources) target source label exact\<rparr>)))))))"

section \<open>Lemmas\<close>

subsection \<open>Markers in sources\<close>

abbreviation twice :: "char \<Rightarrow> string" where
  "twice c \<equiv> [c, c]"

lemma starts_twice [simp]:
  "\<not> starts_with (twice c) []" "starts_with (twice c) (d # s) \<longleftrightarrow> d = c \<and> (\<exists>t. s = c # t)"
  by (simp add: starts_with_def, cases s) (auto simp: starts_with_def)

lemma contains_append: "c \<notin> set u \<Longrightarrow> contains (twice c) (u @ s) = contains (twice c) s"
  by (induction u) auto

lemma contains_drop: "contains p (drop n s) \<Longrightarrow> contains p s"
proof (induction s arbitrary: n)
  case (Cons d s)
  show ?case
  proof (cases n)
    case (Suc m)
    then show ?thesis using Cons by simp
  qed (use Cons.prems in simp)
qed simp

lemma replace_head:
  assumes "new \<noteq> []" and "hd new \<noteq> c" and "replace_all old new s = c # t"
  shows "\<exists>u. s = c # u \<and> (old = [] \<or> \<not> starts_with old s)"
  using assms by (cases s; cases new) (auto split: if_splits)

lemma replace_removes:
  "c \<notin> set new \<Longrightarrow> new \<noteq> [] \<Longrightarrow> \<not> contains (twice c) (replace_all (twice c) new s)"
proof (induction "twice c" new s rule: replace_all.induct [case_names empty char])
  case (char new d s)
  have hd: "hd new \<noteq> c" using char.prems by (cases new) auto
  show ?case
  proof (cases "starts_with (twice c) (d # s)")
    case True
    then have eq: "replace_all (twice c) new (d # s) = new @ replace_all (twice c) new (drop (length (twice c)) (d # s))"
      by (simp only: replace_all.simps) simp
    have "\<not> contains (twice c) (replace_all (twice c) new (drop (length (twice c)) (d # s)))"
      using char.hyps(1) char.prems True by blast
    then show ?thesis unfolding eq contains_append [OF char.prems(1)] .
  next
    case False
    have "\<not> (d = c \<and> (\<exists>t. replace_all (twice c) new s = c # t))"
      using False replace_head [OF char.prems(2) hd] by (metis starts_twice(2))
    then show ?thesis using char.hyps(2) char.prems False by auto
  qed
qed simp

lemma replace_keeps_absence:
  "c \<notin> set new \<Longrightarrow> new \<noteq> [] \<Longrightarrow> contains (twice c) (replace_all old new s) \<Longrightarrow> contains (twice c) s"
proof (induction old new s rule: replace_all.induct [case_names empty char])
  case (char old new d s)
  show ?case
  proof (cases "old \<noteq> [] \<and> starts_with old (d # s)")
    case True
    have "contains (twice c) (replace_all old new (drop (length old) (d # s)))"
      using char.prems(3) unfolding replace_all.simps if_P [OF True] contains_append [OF char.prems(1)] .
    then have "contains (twice c) (drop (length old) (d # s))" using char.IH(1) char.prems True by blast
    then show ?thesis using contains_drop by blast
  next
    case False
    consider "d = c" "\<exists>t. replace_all old new s = c # t" | "contains (twice c) (replace_all old new s)"
      using char.prems False by auto
    then show ?thesis
    proof cases
      case 1
      have "hd new \<noteq> c" using char.prems by (cases new) auto
      then obtain u where "s = c # u" using 1(2) replace_head [OF char.prems(2)] by blast
      then show ?thesis using 1(1) by simp
    next
      case 2
      then show ?thesis using char.IH(2) char.prems False by simp
    qed
  qed
qed simp

lemma neutralized_plain: "\<not> contains ''<<'' (neutralized v)" "\<not> contains ''>>'' (neutralized v)"
proof -
  have left: "c \<notin> set left_quotes" and right: "c \<notin> set right_quotes" if "code c < 128" for c
    using that by (auto simp: left_quotes_def right_quotes_def code_char)
  have marks: "CHR ''<'' \<notin> set left_quotes" "CHR ''>'' \<notin> set right_quotes" "CHR ''<'' \<notin> set right_quotes"
      "left_quotes \<noteq> []" "right_quotes \<noteq> []"
    by (rule left right; simp add: code_def)+ (simp_all add: left_quotes_def right_quotes_def)
  have "\<not> contains (twice (CHR ''<'')) (replace_all (twice (CHR ''<'')) left_quotes v)"
    by (rule replace_removes [OF marks(1,4)])
  then show "\<not> contains ''<<'' (neutralized v)"
    unfolding neutralized_def using replace_keeps_absence [OF marks(3,5)] by blast
  show "\<not> contains ''>>'' (neutralized v)"
    unfolding neutralized_def by (rule replace_removes [OF marks(2,5)])
qed

subsection \<open>What was built\<close>

definition redacted_by :: "('k, 's) constructor \<Rightarrow> example \<Rightarrow> string \<Rightarrow> string \<Rightarrow> bool" where
  "redacted_by co ex v r \<longleftrightarrow> (\<exists>counts. pe_redact (co_store co) v (ex_policy ex) = Some (r, counts))"

lemma redact_built_Inr: "redact_built co (ex_policy ex) v = Inr r \<longleftrightarrow> redacted_by co ex v r"
  by (auto simp: redact_built_def redacted_by_def split: option.splits)

text \<open>A payload that was read: it is unexpired, decrypts under the binding of the interaction, and has the
  stored hash.\<close>

definition payload_read :: "('k, 's) constructor \<Rightarrow> snapshot \<Rightarrow> instant \<Rightarrow> interaction \<Rightarrow> string \<Rightarrow> string \<Rightarrow> string \<Rightarrow> string \<Rightarrow> bool" where
  "payload_read co blobs t x ref f digest v \<longleftrightarrow>
     (\<exists>b. map_of blobs (ia_tenant_id x, ref) = Some b \<and> t < ep_expires_at b \<and>
        decrypt (pe_aead (co_store co)) (pe_cipher (co_store co)) b (ia_tenant_id x) (ia_interaction_id x) f None = Inr v) \<and>
     content_hash (pe_hash (co_store co)) (pe_keyring (co_store co)) v
       (if f = ''messages'' then InputContent else OutputContent) = digest"

lemma read_payload_Inr:
  assumes "read_payload co blobs t x ref f digest = Inr v"
  shows "payload_read co blobs t x ref f digest v"
proof -
  obtain b where b: "map_of blobs (ia_tenant_id x, ref) = Some b" "t < ep_expires_at b"
    using assms by (auto simp: read_payload_def snapshot_get_def Let_def split: option.splits if_splits)
  have snap: "snapshot_get blobs (ia_tenant_id x) ref t = Some b" using b by (simp add: snapshot_get_def)
  show ?thesis
  proof (cases "decrypt (pe_aead (co_store co)) (pe_cipher (co_store co)) b (ia_tenant_id x) (ia_interaction_id x) f None")
    case (Inl e)
    then show ?thesis using assms snap by (cases e) (simp_all add: read_payload_def Let_def)
  next
    case (Inr w)
    then show ?thesis using assms snap b by (auto simp: read_payload_def Let_def then_build_Inr_iff payload_read_def)
  qed
qed

lemma truthy_Some: "truthy v \<Longrightarrow> v = Some (or_empty v)"
  by (cases v) (simp_all add: truthy_def or_empty_def)

text \<open>The first of the corrections that may be used is the newest one.\<close>

lemma newest_correction:
  assumes "target_corrections fs = c # cs"
  shows "c \<in> set fs" and "hashed_correction c" and "d \<in> set fs \<Longrightarrow> hashed_correction d \<Longrightarrow> label_order d \<le> label_order c"
proof -
  let ?xs = "sort_key label_order (rev (filter hashed_correction fs))"
  have rev: "?xs = rev cs @ [c]" using assms unfolding target_corrections_def by (metis rev.simps(2) rev_rev_ident)
  have members: "set ?xs = {d \<in> set fs. hashed_correction d}" by auto
  then show "c \<in> set fs" and "hashed_correction c" unfolding rev by auto
  have "sorted (map label_order ?xs)" by simp
  then have last: "label_order d \<le> label_order c" if "d \<in> set ?xs" for d
    using that unfolding rev by (auto simp: sorted_append)
  show "label_order d \<le> label_order c" if "d \<in> set fs" "hashed_correction d"
    by (rule last) (use members that in blast)
qed

text \<open>A genuine target: the text of the newest correction that may be used, named by the label, or of
  the validated output of the served attempt.\<close>

definition genuine ::
    "('k, 's) constructor \<Rightarrow> snapshot \<Rightarrow> instant \<Rightarrow> example \<Rightarrow> target_source \<Rightarrow> string \<Rightarrow> string option \<Rightarrow> bool" where
  "genuine co blobs t ex p v label \<longleftrightarrow> (if p = CorrectionTarget
    then \<exists>c ref digest. c \<in> set (ex_feedback ex) \<and> fb_label_type c = Correction \<and> fb_training_authorised c \<and>
      \<not> truthy (fb_error_code c) \<and> fb_correction_ref c = Some ref \<and> fb_content_hash c = Some digest \<and>
      (\<forall>d \<in> set (ex_feedback ex). hashed_correction d \<longrightarrow> label_order d \<le> label_order c) \<and>
      payload_read co blobs t (ex_interaction ex) ref ''correction'' digest v \<and> label = Some (fb_feedback_id c)
    else \<exists>a ref digest. ex_attempt ex = Some a \<and> ga_output_ref a = Some ref \<and> ga_output_hash a = Some digest \<and>
      (\<exists>va. ga_validation a = Some va \<and> va_passed va) \<and> \<not> truthy (ga_error_code a) \<and> ga_finish_reason a = Stop \<and>
      ga_tool_calls a = [] \<and> payload_read co blobs t (ex_interaction ex) ref ''output'' digest v)"

lemma offered_Inr:
  assumes "offered co blobs t ex p = Inr (Some (v, label))"
  shows "genuine co blobs t ex p v label"
proof (cases "p = CorrectionTarget")
  case True
  show ?thesis
  proof (cases "target_corrections (ex_feedback ex)")
    case Nil
    then show ?thesis using assms True by (simp add: offered_def Let_def)
  next
    case (Cons c cs)
    note newest = newest_correction [OF Cons]
    have read: "read_payload co blobs t (ex_interaction ex) (or_empty (fb_correction_ref c)) ''correction''
        (or_empty (fb_content_hash c)) = Inr v" and label: "label = Some (fb_feedback_id c)"
      using assms True Cons by (auto simp: offered_def Let_def then_build_Inr_iff)
    have "fb_correction_ref c = Some (or_empty (fb_correction_ref c))" "fb_content_hash c = Some (or_empty (fb_content_hash c))"
      using newest(2) by (auto simp: hashed_correction_def usable_correction_def intro: truthy_Some)
    then show ?thesis
      using True label newest read_payload_Inr [OF read] unfolding genuine_def hashed_correction_def usable_correction_def by auto
  qed
next
  case False
  then have use: "usable_output (ex_attempt ex)"
    using assms by (auto simp: offered_def Let_def split: if_splits)
  then obtain a where a: "ex_attempt ex = Some a" by (cases "ex_attempt ex") (simp_all add: usable_output_def)
  have read: "read_payload co blobs t (ex_interaction ex) (or_empty (ga_output_ref a)) ''output'' (or_empty (ga_output_hash a)) = Inr v"
    using assms False use a by (auto simp: offered_def Let_def then_build_Inr_iff split: if_splits)
  have "ga_output_ref a = Some (or_empty (ga_output_ref a))" "ga_output_hash a = Some (or_empty (ga_output_hash a))"
    using use a by (auto simp: usable_output_def intro: truthy_Some)
  then show ?thesis
    using False use a read_payload_Inr [OF read] by (auto simp: genuine_def usable_output_def split: option.splits)
qed

lemma choose_target_Inr:
  "choose_target co blobs t ex ps = Inr (v, p, label) \<Longrightarrow>
   \<exists>before after. ps = before @ p # after \<and> (\<forall>q \<in> set before. offered co blobs t ex q = Inr None) \<and>
     offered co blobs t ex p = Inr (Some (v, label))"
proof (induction ps)
  case (Cons q qs)
  then obtain o' where first: "offered co blobs t ex q = Inr o'" by (auto simp: then_build_Inr_iff)
  show ?case
  proof (cases o')
    case None
    then have "choose_target co blobs t ex qs = Inr (v, p, label)" using Cons.prems first by simp
    then obtain before after where split: "qs = before @ p # after"
        "\<forall>q \<in> set before. offered co blobs t ex q = Inr None" "offered co blobs t ex p = Inr (Some (v, label))"
      using Cons.IH by blast
    show ?thesis
      by (rule exI [of _ "q # before"], rule exI [of _ after]) (use split first None in simp)
  next
    case (Some y)
    then have "q = p" "y = (v, label)" using Cons.prems first by (auto split: prod.splits)
    then show ?thesis using first Some by (intro exI [of _ "[]"] exI [of _ qs]) simp
  qed
qed simp

lemma resolve_Some:
  assumes "resolve hf file x run e residency = Some c"
  shows "\<exists>chunks. file = Some chunks \<and> c \<in> set chunks \<and>
    ck_tenant_id c = ia_tenant_id x \<and> ck_environment c = ia_environment x \<and> ck_region c = residency \<and>
    ia_application_id x \<in> set (ck_allowed_applications c) \<and> ck_licence_class c \<noteq> UnknownLicence \<and>
    to_hex (hf_sha256 hf (ck_content c)) = ce_content_hash e"
proof -
  obtain chunks where rows: "file = Some chunks" using assms by (auto simp: resolve_def split: option.splits)
  let ?P = "\<lambda>c. ck_tenant_id c = ia_tenant_id x \<and> ck_environment c = ia_environment x \<and>
    ia_application_id x \<in> set (ck_allowed_applications c) \<and> ck_region c = residency \<and>
    ck_index_id c = rr_index_id run \<and> xc_index_version c = rr_index_version run \<and>
    ck_document_id c = ce_document_id e \<and> ck_chunk_id c = ce_chunk_id e \<and>
    ck_document_version c = ce_document_version e \<and>
    (ck_licence_class c = SyntheticLicence \<or> ck_licence_class c = InternalApproved) \<and>
    ck_licence_class c = ce_licence_class e"
  have one: "filter ?P chunks = [c]" and hash: "to_hex (hf_sha256 hf (ck_content c)) = ce_content_hash e"
    using assms rows by (auto simp: resolve_def split: list.splits if_splits)
  have "c \<in> set (filter ?P chunks)" unfolding one by simp
  then show ?thesis using rows hash by auto
qed

lemma build_source_Inr:
  assumes "build_source co ex run e = Inr (c, s, j)"
  shows "resolve (pe_hash (co_store co)) (co_sources co) (ex_interaction ex) run e (pd_residency (ex_policy ex)) = Some c \<and>
    set (ck_document_version c) \<inter> set boundary_chars = {} \<and>
    (\<exists>r. redacted_by co ex (ck_content c) r \<and> s = source_text c (neutralized r))"
  using assms
  by (auto simp: build_source_def then_build_Inr_iff redact_built_Inr list_ex_iff split: option.splits)


lemma construct_InrE:
  assumes "construct co blobs spec t ex = Inr b"
  obtains raw ms conversation sources chosen source label target where
    "read_payload co blobs t (ex_interaction ex) (or_empty (is_messages_ref (ia_input (ex_interaction ex)))) ''messages''
       (or_empty (is_content_hash (ia_input (ex_interaction ex)))) = Inr raw"
    and "co_load_messages co raw = Some ms" and "ms \<noteq> []"
    and "list_all2 (\<lambda>m n. \<exists>r. redacted_by co ex (content_of m) r \<and> n = m\<lparr>content_of := r\<rparr>) ms conversation"
    and "build_sources co ex = Inr sources"
    and "choose_target co blobs t ex (ds_target_preference_order spec) = Inr (chosen, source, label)"
    and "redacted_by co ex chosen target" and "nonblank target"
    and "be_interaction_id b = ia_interaction_id (ex_interaction ex)"
    and "be_tenant_id b = ia_tenant_id (ex_interaction ex)" and "be_target_source b = target_text source"
    and "be_text b = join newline (map content_of conversation @ map (\<lambda>s. fst (snd s)) sources @ [target])"
    and "be_benchmark_text b = Some (join newline (map content_of (filter (\<lambda>m. role_of m = User) conversation)))"
    and "be_row b = row_of co ex (inputs_of conversation (map (\<lambda>s. fst (snd s)) sources))
       (sorted_set (map (\<lambda>s. ck_document_family (fst s)) sources)) (map (\<lambda>s. snd (snd s)) sources) target source label (be_exact_hash b)"
proof -
  let ?x = "ex_interaction ex"
  have present: "truthy (is_messages_ref (ia_input ?x))" "truthy (is_content_hash (ia_input ?x))"
    using assms by (auto simp: construct_def Let_def split: if_splits)
  have ref: "truthy (is_messages_ref (ia_input ?x)) = True" "truthy (is_content_hash (ia_input ?x)) = True"
    using present by auto
  note start = assms [unfolded construct_def Let_def ref not_True_eq_False disj_not1 simp_thms if_False]
  obtain raw where raw: "read_payload co blobs t ?x (or_empty (is_messages_ref (ia_input ?x))) ''messages''
      (or_empty (is_content_hash (ia_input ?x))) = Inr raw"
    using start by (auto simp only: then_build_Inr_iff)
  note loaded = start [unfolded raw then_build_simps]
  obtain m ms where ms: "co_load_messages co raw = Some (m # ms)"
    using loaded by (auto split: option.splits list.splits)
  note run = loaded [unfolded ms option.case list.case then_build_Inr_iff]
  obtain conversation sources chosen source label target where
    c: "each_built (\<lambda>m. then_build (redact_built co (ex_policy ex) (content_of m)) (\<lambda>c. Inr (m\<lparr>content_of := c\<rparr>))) (m # ms) =
        Inr conversation"
      "build_sources co ex = Inr sources"
      "choose_target co blobs t ex (ds_target_preference_order spec) = Inr (chosen, source, label)"
      "redact_built co (ex_policy ex) chosen = Inr target" "nonblank target"
    and b: "be_interaction_id b = ia_interaction_id ?x" "be_tenant_id b = ia_tenant_id ?x" "be_target_source b = target_text source"
      "be_text b = join newline (map content_of conversation @ map (\<lambda>s. fst (snd s)) sources @ [target])"
      "be_benchmark_text b = Some (join newline (map content_of (filter (\<lambda>m. role_of m = User) conversation)))"
      "be_row b = row_of co ex (inputs_of conversation (map (\<lambda>s. fst (snd s)) sources))
         (sorted_set (map (\<lambda>s. ck_document_family (fst s)) sources)) (map (\<lambda>s. snd (snd s)) sources) target source label (be_exact_hash b)"
    using run by (auto simp only: then_build_Inr_iff Let_def sum.inject prod.case split_paired_Ex built_example.simps exclude_unless_Inr)
  have "list_all2 (\<lambda>m n. \<exists>r. redacted_by co ex (content_of m) r \<and> n = m\<lparr>content_of := r\<rparr>) (m # ms) conversation"
    by (rule list_all2_mono [OF each_built_Inr [OF c(1)]]) (auto simp: then_build_Inr_iff redact_built_Inr)
  then show ?thesis using that [OF raw ms _ _ c(2,3)] c(4,5) b by (simp add: redact_built_Inr)
qed



text \<open>The fields of a JSON object.\<close>

fun json_field :: "string \<Rightarrow> json \<Rightarrow> json option" where
  "json_field key (JObj kvs) = map_of kvs key"
| "json_field key _ = None"


section \<open>Correctness\<close>


text \<open>C38. The target of an example is the first of the preferred kinds that is on offer, and it is
  genuine. Every kind preferred to it offered nothing; the target in the row is the redaction of a
  text that was read from an unexpired payload, which decrypts under the binding of the interaction
  and has the hash that the record beside it names: the newest correction of the interaction that may
  be used for training, or the output of the served attempt, which was validated, ended normally,
  carries no error and called no tool. The row names the kind and the correction.\<close>

theorem example_target_verified:
  assumes "construct co blobs spec t ex = Inr b"
  shows "\<exists>before p after v label target. ds_target_preference_order spec = before @ p # after \<and>
    (\<forall>q \<in> set before. offered co blobs t ex q = Inr None) \<and> genuine co blobs t ex p v label \<and>
    redacted_by co ex v target \<and> nonblank target \<and> be_target_source b = target_text p \<and>
    json_field ''target'' (be_row b) = Some (JStr target) \<and>
    json_field ''target_source'' (be_row b) = Some (JStr (target_text p)) \<and>
    json_field ''target_feedback_id'' (be_row b) = Some (optional_json label)"
proof -
  obtain v p label target where
    chosen: "choose_target co blobs t ex (ds_target_preference_order spec) = Inr (v, p, label)"
    and redacted: "redacted_by co ex v target" "nonblank target"
    and source: "be_target_source b = target_text p"
    and row: "\<exists>inputs families provenance. be_row b = row_of co ex inputs families provenance target p label (be_exact_hash b)"
    by (rule construct_InrE [OF assms]) (rule that, assumption+, blast)
  from choose_target_Inr [OF chosen] obtain before after where
    order: "ds_target_preference_order spec = before @ p # after"
    and none: "\<forall>q \<in> set before. offered co blobs t ex q = Inr None"
    and offer: "offered co blobs t ex p = Inr (Some (v, label))"
    by blast
  have fields: "json_field ''target'' (be_row b) = Some (JStr target)"
      "json_field ''target_source'' (be_row b) = Some (JStr (target_text p))"
      "json_field ''target_feedback_id'' (be_row b) = Some (optional_json label)"
    using row by (auto simp: row_of_def Let_def)
  show ?thesis
    using order none offered_Inr [OF offer] redacted source fields by blast
qed

text \<open>A source cannot break out of its brackets, and cannot be one the example had no right to. A
  source text is the opening marker, a content that holds neither \<open><<\<close> nor \<open>>>\<close>, and the closing
  marker; its chunk is of the interaction's tenant, environment and region, open to its
  application, of an approved licence, and has the content hash that was recorded when it was
  served.\<close>

theorem sources_stay_bracketed:
  assumes "build_source co ex run e = Inr (c, s, j)"
  shows "\<exists>content. s = source_text c content \<and> \<not> contains ''<<'' content \<and> \<not> contains ''>>'' content \<and>
    set (ck_document_version c) \<inter> set boundary_chars = {} \<and>
    ck_tenant_id c = ia_tenant_id (ex_interaction ex) \<and> ck_environment c = ia_environment (ex_interaction ex) \<and>
    ck_region c = pd_residency (ex_policy ex) \<and>
    ia_application_id (ex_interaction ex) \<in> set (ck_allowed_applications c) \<and>
    ck_licence_class c \<noteq> UnknownLicence \<and>
    to_hex (hf_sha256 (pe_hash (co_store co)) (ck_content c)) = ce_content_hash e"
proof -
  note built = build_source_Inr [OF assms]
  obtain r where r: "s = source_text c (neutralized r)" using built by blast
  obtain chunks where "co_sources co = Some chunks" "c \<in> set chunks"
    "ck_tenant_id c = ia_tenant_id (ex_interaction ex) \<and> ck_environment c = ia_environment (ex_interaction ex) \<and>
     ck_region c = pd_residency (ex_policy ex) \<and> ia_application_id (ex_interaction ex) \<in> set (ck_allowed_applications c) \<and>
     ck_licence_class c \<noteq> UnknownLicence \<and>
     to_hex (hf_sha256 (pe_hash (co_store co)) (ck_content c)) = ce_content_hash e"
    using resolve_Some [OF built [THEN conjunct1]] by blast
  then show ?thesis using r neutralized_plain built by blast
qed

section \<open>A sample\<close>

definition sealed_payload :: "string \<Rightarrow> string \<Rightarrow> encrypted_payload" where
  "sealed_payload f v = (case encrypt echo_aead sample_cipher f ''n'' v ''t'' ''i'' f 9 None of Inr p \<Rightarrow> p)"

lemma sealed_payload_opens:
  assumes "f \<in> {''messages'', ''output''}"
  shows "decrypt echo_aead sample_cipher (sealed_payload f v) ''t'' ''i'' f None = Inr v"
    "ep_expires_at (sealed_payload f v) = 9"
  using assms
  by (auto simp: sealed_payload_def encrypt_def sample_cipher_def decrypt_def payload_aad_def aad_field_def
      echo_decrypt [THEN iffD2, OF refl])

definition sample_constructor :: "(unit, event list) constructor" where
  "sample_constructor = \<lparr>co_store = small_env, co_load_messages = (\<lambda>_. Some [\<lparr>role_of = User, content_of = ''hello''\<rparr>]),
     co_is_utf8 = (\<lambda>_. True), co_sources = Some [own_chunk], co_show_float = (\<lambda>_. ''0'')\<rparr>"

definition sealed_snapshot :: snapshot where
  "sealed_snapshot = [((''t'', ''m''), sealed_payload ''messages'' ''hello''), ((''t'', ''o''), sealed_payload ''output'' ''hi'')]"

definition served_attempt :: generation_attempt where
  "served_attempt = saved_attempt\<lparr>ga_output_ref := Some ''o'',
     ga_output_hash := Some (content_hash echo_hash sample_keyring ''hi'' OutputContent),
     ga_validation := Some \<lparr>va_validator_version = ''v'', va_passed = True, va_checks = []\<rparr>\<rparr>"

definition own_evidence :: chunk_evidence where
  "own_evidence = \<lparr>ce_document_id = ''d'', ce_document_version = ''1'', ce_chunk_id = ''c'', ce_rank_retrieved = 1,
     ce_retrieval_score = 1, ce_rerank_score = None, ce_supplied_to_model = True, ce_context_position = Some 0,
     ce_token_count = 2, ce_content_hash = to_hex ''alpha beta'', ce_content_ref = None,
     ce_licence_class = InternalApproved\<rparr>"

definition own_run :: retrieval_run where
  "own_run = \<lparr>rr_retrieval_run_id = ''r'', rr_interaction_id = ''i'', rr_index_id = ''docs'', rr_index_version = ''v1'',
     rr_filters = [], rr_query_hash = None, rr_query_ref = None, rr_latency_ms = 0, rr_candidates = [own_evidence]\<rparr>"

definition served_example :: example where
  "served_example =
     \<lparr>ex_interaction = stored_interaction\<lparr>ia_input := (ia_input stored_interaction)
        \<lparr>is_content_hash := Some (content_hash echo_hash sample_keyring ''hello'' InputContent)\<rparr>\<rparr>,
      ex_policy = (policy_decision_default ''p1'' 3600)\<lparr>pd_residency := ''eu''\<rparr>,
      ex_retrieval = Some own_run, ex_attempt = Some served_attempt, ex_feedback = []\<rparr>"

definition built_sample :: built_example where
  "built_sample = (case construct sample_constructor sealed_snapshot sample_dataset_specification 3 served_example of Inr b \<Rightarrow> b)"

lemma own_source_built:
  "\<exists>s j. build_source sample_constructor served_example own_run own_evidence = Inr (own_chunk, s, j)"
  by (simp add: build_source_def resolve_def sample_constructor_def small_env_def own_chunk_def served_example_def
      stored_interaction_def own_run_def own_evidence_def policy_decision_default_def echo_hash_def redact_built_def
      exclude_unless_def boundary_chars_def char_of_def)

lemma own_sources_built: "\<exists>sources. build_sources sample_constructor served_example = Inr sources"
  using own_source_built
  by (auto simp: build_sources_def supplied_evidence_def served_example_def exclude_unless_def own_run_def Let_def)
     (auto simp: own_evidence_def)

lemma messages_read:
  "read_payload sample_constructor sealed_snapshot 3 (ex_interaction served_example) ''m'' ''messages''
     (content_hash echo_hash sample_keyring ''hello'' InputContent) = Inr ''hello''"
  by (simp add: read_payload_def snapshot_get_def sealed_snapshot_def sealed_payload_opens sample_constructor_def small_env_def
      served_example_def stored_interaction_def exclude_unless_def)

lemma output_read:
  "read_payload sample_constructor sealed_snapshot 3 (ex_interaction served_example) ''o'' ''output''
     (content_hash echo_hash sample_keyring ''hi'' OutputContent) = Inr ''hi''"
  by (simp add: read_payload_def snapshot_get_def sealed_snapshot_def sealed_payload_opens sample_constructor_def small_env_def
      served_example_def stored_interaction_def exclude_unless_def)

lemma hash_present: "content_hash echo_hash sample_keyring v p \<noteq> []"
  by (cases p) (simp_all add: content_hash_def purpose_hash_def keyed_hash_def echo_hash_def to_hex_def sample_keyring_def
      keyring_new_def key_purposes_def)

lemma output_chosen:
  "choose_target sample_constructor sealed_snapshot 3 served_example (ds_target_preference_order sample_dataset_specification) =
     Inr (''hi'', ProductionOutput, None)"
proof -
  have use: "usable_output (ex_attempt served_example)"
    by (simp add: usable_output_def served_example_def served_attempt_def saved_attempt_def truthy_def or_empty_def hash_present)
  have "offered sample_constructor sealed_snapshot 3 served_example CorrectionTarget = Inr None"
    "offered sample_constructor sealed_snapshot 3 served_example PositiveResolution = Inr None"
    by (simp_all add: offered_def Let_def served_example_def target_corrections_def positive_labels_def)
  moreover have "offered sample_constructor sealed_snapshot 3 served_example ProductionOutput = Inr (Some (''hi'', None))"
    using use output_read
    by (simp add: offered_def Let_def) (simp add: served_example_def served_attempt_def or_empty_def)
  ultimately show ?thesis by (simp add: sample_dataset_specification_def target_preferences_def)
qed

lemma built_sample:
  "construct sample_constructor sealed_snapshot sample_dataset_specification 3 served_example = Inr built_sample"
proof -
  obtain sources where sources: "build_sources sample_constructor served_example = Inr sources"
    using own_sources_built by blast
  have ref: "is_messages_ref (ia_input (ex_interaction served_example)) = Some ''m''"
    "is_content_hash (ia_input (ex_interaction served_example)) =
       Some (content_hash echo_hash sample_keyring ''hello'' InputContent)"
    by (simp_all add: served_example_def stored_interaction_def)
  have redacts: "redact_built sample_constructor policy v = Inr v" for policy v
    by (simp add: redact_built_def sample_constructor_def small_env_def)
  have load: "co_load_messages sample_constructor raw = Some [\<lparr>role_of = User, content_of = ''hello''\<rparr>]" for raw
    by (simp add: sample_constructor_def)
  have "\<exists>b. construct sample_constructor sealed_snapshot sample_dataset_specification 3 served_example = Inr b"
    by (simp add: construct_def Let_def ref truthy_def hash_present or_empty_def messages_read load redacts sources
        output_chosen exclude_unless_def nonblank_def is_space_def code_def)
  then show ?thesis by (auto simp: built_sample_def)
qed


theorem example_target_verified_witness:
  "\<exists>p. be_target_source built_sample = target_text p"
  using example_target_verified [OF built_sample] by (elim exE conjE) (intro exI)

theorem sources_stay_bracketed_witness:
  "\<exists>s j content. build_source sample_constructor served_example own_run own_evidence = Inr (own_chunk, s, j) \<and>
     s = source_text own_chunk content \<and> \<not> contains ''<<'' content"
proof -
  obtain s j where built: "build_source sample_constructor served_example own_run own_evidence = Inr (own_chunk, s, j)"
    using own_source_built by blast
  then show ?thesis using sources_stay_bracketed [OF built] by blast
qed

end
