(* ===== verification/Unit_Of_Work.thy ===== *)
theory Unit_Of_Work
  imports Prelude
begin

text \<open>
  State passing for the services over the control database, \<open>storage/database.py\<close>: a piece of work
  reads and writes a state and either raises or returns. \<open>atomic\<close> is \<open>with database.transaction()\<close>:
  what raises leaves the tables as they were. The writer lock of the database makes every
  transaction one step. \<open>keeps\<close> is the invariance rule of the proofs.
\<close>

type_synonym ('s, 'a) work = "'s \<Rightarrow> 'a result \<times> 's"

definition pass :: "'a \<Rightarrow> ('s, 'a) work" where
  "pass x = (\<lambda>s. (Inr x, s))"

definition lift_result :: "'a result \<Rightarrow> ('s, 'a) work" where
  "lift_result r = (\<lambda>s. (r, s))"

definition then_do :: "('s, 'a) work \<Rightarrow> ('a \<Rightarrow> ('s, 'b) work) \<Rightarrow> ('s, 'b) work" where
  "then_do m f = (\<lambda>s. case m s of (Inl e, s') \<Rightarrow> (Inl e, s') | (Inr x, s') \<Rightarrow> f x s')"

definition require :: "bool \<Rightarrow> exc \<Rightarrow> ('s, unit) work" where
  "require b e = lift_result (guardE b e)"

definition reading :: "('s \<Rightarrow> 'a) \<Rightarrow> ('s, 'a) work" where
  "reading f = (\<lambda>s. (Inr (f s), s))"

definition writing :: "('s \<Rightarrow> 's) \<Rightarrow> ('s, unit) work" where
  "writing f = (\<lambda>s. (Inr (), f s))"

definition atomic :: "('s, 'a) work \<Rightarrow> ('s, 'a) work" where
  "atomic m = (\<lambda>s. case m s of (Inl e, _) \<Rightarrow> (Inl e, s) | (Inr x, s') \<Rightarrow> (Inr x, s'))"

fun each_work :: "('a \<Rightarrow> ('s, unit) work) \<Rightarrow> 'a list \<Rightarrow> ('s, unit) work" where
  "each_work f [] = pass ()"
| "each_work f (x # xs) = then_do (f x) (\<lambda>_. each_work f xs)"

fun each_result :: "('a \<Rightarrow> 'b result) \<Rightarrow> 'a list \<Rightarrow> 'b list result" where
  "each_result f [] = Inr []"
| "each_result f (x # xs) = bindE (f x) (\<lambda>y. bindE (each_result f xs) (\<lambda>ys. Inr (y # ys)))"

named_theorems work_simps

lemma pass_Inr [work_simps]: "pass x s = (Inr y, s') \<longleftrightarrow> y = x \<and> s' = s"
  by (auto simp: pass_def)

lemma lift_result_Inr [work_simps]: "lift_result r s = (Inr y, s') \<longleftrightarrow> r = Inr y \<and> s' = s"
  by (auto simp: lift_result_def)

lemma then_do_Inr [work_simps]:
  "then_do m f s = (Inr y, s') \<longleftrightarrow> (\<exists>x t. m s = (Inr x, t) \<and> f x t = (Inr y, s'))"
  by (auto simp: then_do_def split: prod.splits sum.splits)

lemma require_Inr [work_simps]: "require b e s = (Inr y, s') \<longleftrightarrow> b \<and> s' = s"
  by (auto simp: require_def lift_result_def guardE_def)

lemma reading_Inr [work_simps]: "reading f s = (Inr y, s') \<longleftrightarrow> y = f s \<and> s' = s"
  by (auto simp: reading_def)

lemma writing_Inr [work_simps]: "writing f s = (Inr y, s') \<longleftrightarrow> s' = f s"
  by (auto simp: writing_def)

lemma atomic_Inr [work_simps]: "atomic m s = (Inr y, s') \<longleftrightarrow> m s = (Inr y, s')"
  by (auto simp: atomic_def split: prod.splits sum.splits)

lemma atomic_Inl: "atomic m s = (Inl e, s') \<Longrightarrow> s' = s"
  by (auto simp: atomic_def split: prod.splits sum.splits)

lemma atomic_state: "snd (atomic m s) = (if is_ok (fst (m s)) then snd (m s) else s)"
  by (auto simp: atomic_def is_ok_def split: prod.splits sum.splits)

lemma then_do_state:
  "snd (then_do m f s) = (case fst (m s) of Inl _ \<Rightarrow> snd (m s) | Inr x \<Rightarrow> snd (f x (snd (m s))))"
  by (auto simp: then_do_def split: prod.splits sum.splits)

lemma work_eval [simp]:
  "pass x s = (Inr x, s)" "lift_result r s = (r, s)" "reading f s = (Inr (f s), s)" "writing g s = (Inr (), g s)"
  by (simp_all add: pass_def lift_result_def reading_def writing_def)

lemma require_eval: "require b e s = ((if b then Inr () else Inl e), s)"
  by (simp add: require_def guardE_def)

lemma each_result_Inr: "each_result f xs = Inr ys \<Longrightarrow> x \<in> set xs \<Longrightarrow> \<exists>y. f x = Inr y"
  by (induction xs arbitrary: ys) (auto simp: bindE_Inr_iff)

lemma each_result_member:
  "each_result f xs = Inr ys \<Longrightarrow> x \<in> set xs \<Longrightarrow> \<exists>y \<in> set ys. f x = Inr y"
  by (induction xs arbitrary: ys) (auto simp: bindE_Inr_iff)

section \<open>Invariance\<close>

definition keeps :: "('s \<Rightarrow> bool) \<Rightarrow> ('s, 'a) work \<Rightarrow> bool" where
  "keeps P m \<longleftrightarrow> (\<forall>s. P s \<longrightarrow> P (snd (m s)))"

lemma keeps_intros:
  "keeps P (pass x)" "keeps P (lift_result r)" "keeps P (require b e)" "keeps P (reading f)"
  "(\<And>s. P s \<Longrightarrow> P (g s)) \<Longrightarrow> keeps P (writing g)"
  by (simp_all add: keeps_def require_def)

lemma keeps_then_do: "keeps P m \<Longrightarrow> (\<And>x. keeps P (f x)) \<Longrightarrow> keeps P (then_do m f)"
  by (auto simp: keeps_def then_do_state split: sum.splits)

lemma keeps_atomic: "keeps P m \<Longrightarrow> keeps P (atomic m)"
  by (auto simp: keeps_def atomic_state)

lemma keeps_each_work: "(\<And>x. x \<in> set xs \<Longrightarrow> keeps P (f x)) \<Longrightarrow> keeps P (each_work f xs)"
  by (induction xs) (auto intro: keeps_then_do keeps_intros)

lemma keeps_if: "(b \<Longrightarrow> keeps P m) \<Longrightarrow> (\<not> b \<Longrightarrow> keeps P n) \<Longrightarrow> keeps P (if b then m else n)"
  by simp

lemma keepsD: "keeps P m \<Longrightarrow> P s \<Longrightarrow> P (snd (m s))"
  by (simp add: keeps_def)

lemma keeps_run: "keeps P m \<Longrightarrow> P s \<Longrightarrow> m s = (r, s') \<Longrightarrow> P s'"
  by (auto simp: keeps_def)

lemmas keeps_rules = keeps_intros keeps_then_do keeps_atomic keeps_each_work keeps_if

end
