(* ===== verification/Canary.thy ===== *)
theory Canary
  imports Contracts_Evaluation
begin

text \<open>
  The live cohorts of \<open>routing/canary.py\<close>: the outcome of a cohort, the matched samples of two
  cohorts, and the aggregate on which a canary passes or is rolled back. The random generator of
  the bootstrap is a parameter, as in the statistics. A cohort is matched within groups of one
  tenant, task, risk tier, language and context.
\<close>

section \<open>Cohorts\<close>

definition rate_of :: "(live_observation \<Rightarrow> bool) \<Rightarrow> live_observation list \<Rightarrow> flt option" where
  "rate_of p rows = (if rows = [] then None else Some (fmean (map (\<lambda>r. bool_flt (p r)) rows)))"

definition outcomes :: "live_observation list \<Rightarrow> outcome_aggregate result" where
  "outcomes rows =
     (let successes = length (filter lo_success rows); cost = sum_list (map lo_total_cost_micros rows)
      in bindE (if rows = [] then Inr None
                else bindE (percentile (map lo_latency_ms rows) (95 / 100)) (\<lambda>q. Inr (Some q))) (\<lambda>latency.
         Inr \<lparr>oa_interactions = length rows, oa_successes = successes, oa_total_cost_micros = cost,
              oa_cost_per_success_micros = (if successes \<noteq> 0
                then Some ((cost + int successes - 1) div int successes) else None),
              oa_validation_failure_rate = rate_of lo_validation_failure rows,
              oa_error_rate = rate_of lo_error rows, oa_p95_latency_ms = latency,
              oa_critical_safety_incidents = sum_list (map lo_critical_safety_incidents rows)\<rparr>))"

definition reduction :: "outcome_aggregate \<Rightarrow> outcome_aggregate \<Rightarrow> flt option" where
  "reduction candidate foundation =
     (if oa_successes candidate = 0 \<or> oa_successes foundation = 0 \<or> oa_total_cost_micros foundation = 0 then None
      else Some (1 - (of_int (oa_total_cost_micros candidate) * of_nat (oa_successes foundation)) /
                     (of_int (oa_total_cost_micros foundation) * of_nat (oa_successes candidate))))"

type_synonym cohort_group = "ident \<times> ident \<times> risk_tier \<times> ident \<times> bool"

definition group_of :: "live_observation \<Rightarrow> cohort_group" where
  "group_of r = (let f = lo_features r in
     (lo_tenant_id r, ft_task f, ft_risk_tier f, ft_language f, ft_context_supplied f))"

definition arm_values :: "bool \<Rightarrow> live_observation list \<Rightarrow> flt list" where
  "arm_values costs rows =
     (let ordered = sort_key (\<lambda>r. (lo_created_at r, lo_interaction_id r)) rows in
      if costs
      then let successes = filter lo_success ordered;
               failed_cost = sum_list (map lo_total_cost_micros (filter (\<lambda>r. \<not> lo_success r) ordered))
           in map (\<lambda>r. of_int (lo_total_cost_micros r) + of_int failed_cost / of_nat (length successes)) successes
      else map lo_quality ordered)"

definition matched_pairs :: "live_observation list \<Rightarrow> live_observation list \<Rightarrow> bool \<Rightarrow> (flt \<times> flt) list" where
  "matched_pairs left right costs = concat (map (\<lambda>g.
       zip (arm_values costs (filter (\<lambda>r. group_of r = g) left))
           (arm_values costs (filter (\<lambda>r. group_of r = g) right)))
     (dedup (map group_of (left @ right))))"

definition matched :: "live_observation list \<Rightarrow> live_observation list \<Rightarrow> bool \<Rightarrow> flt list \<times> flt list" where
  "matched left right costs = (map fst (matched_pairs left right costs), map snd (matched_pairs left right costs))"

section \<open>The aggregate\<close>

type_synonym choices = "int \<Rightarrow> nat \<Rightarrow> flt list \<Rightarrow> nat \<Rightarrow> flt list"

definition exceeds :: "flt option \<Rightarrow> flt \<Rightarrow> bool" where
  "exceeds v maximum = (case v of None \<Rightarrow> False | Some x \<Rightarrow> x > maximum)"

definition breaches :: "outcome_aggregate \<Rightarrow> flt option \<Rightarrow> rollback_thresholds \<Rightarrow> ident list" where
  "breaches s savings limits =
     (if oa_critical_safety_incidents s \<noteq> 0 then [''critical_safety_incident''] else []) @
     (if rb_minimum_samples limits \<le> oa_interactions s then
        (if exceeds (oa_validation_failure_rate s) (rb_validation_failure_rate_max limits)
           then [''validation_failure_rate''] else []) @
        (if exceeds (oa_error_rate s) (rb_error_rate_max limits) then [''error_rate''] else []) @
        (if exceeds (oa_p95_latency_ms s) (rb_p95_latency_ms_max limits) then [''p95_latency_ms''] else []) @
        (if exceeds (map_option (\<lambda>x. 1 - x) savings) (rb_cost_ratio_max limits) then [''cost_ratio''] else [])
      else [])"

definition bootstrap_of :: "choices \<Rightarrow> live_observation list \<Rightarrow> live_observation list \<Rightarrow> bool \<Rightarrow> paired_comparison result" where
  "bootstrap_of choices left right costs =
     (let (a, b) = matched left right costs in default_bootstrap choices a b)"

definition canary_passed ::
    "rollback_thresholds \<Rightarrow> paired_comparison \<Rightarrow> paired_comparison \<Rightarrow> flt option \<Rightarrow> ident list \<Rightarrow> bool" where
  "canary_passed limits quality cost savings reasons =
     (rb_minimum_samples limits \<le> pc_sample_size quality \<and> rb_minimum_samples limits \<le> pc_sample_size cost \<and>
      reasons = [] \<and>
      (case pc_ci_lower quality of None \<Rightarrow> False | Some l \<Rightarrow> l > - rb_non_inferiority_margin limits) \<and>
      (case savings of None \<Rightarrow> False | Some x \<Rightarrow> 1 - x \<le> rb_cost_ratio_max limits))"

definition live_aggregate ::
    "choices \<Rightarrow> live_observation list \<Rightarrow> rollback_thresholds \<Rightarrow> canary_aggregate result" where
  "live_aggregate choices rows limits =
     (let specialist = filter (\<lambda>r. lo_specialist_version r \<noteq> None) rows;
          foundation = filter (\<lambda>r. lo_specialist_version r = None) rows;
          served = filter lo_specialist_served rows;
          foundation_served = filter (\<lambda>r. lo_success r \<and> \<not> lo_specialist_served r) rows
      in bindE (outcomes specialist) (\<lambda>s. bindE (outcomes foundation) (\<lambda>f.
         bindE (outcomes served) (\<lambda>ss. bindE (outcomes foundation_served) (\<lambda>fs.
         bindE (bootstrap_of choices served foundation False) (\<lambda>quality.
         bindE (bootstrap_of choices specialist foundation True) (\<lambda>cost.
         bindE (bootstrap_of choices served foundation_served True) (\<lambda>served_cost.
         let savings = reduction s f; reasons = breaches s savings limits
         in Inr \<lparr>ca_specialist = s, ca_foundation = f, ca_specialist_served = ss, ca_foundation_served = fs,
                 ca_quality_delta = quality, ca_cost_delta_micros = cost, ca_served_cost_delta_micros = served_cost,
                 ca_cost_reduction_fraction = savings, ca_served_cost_reduction_fraction = reduction ss fs,
                 ca_shadow_cost_micros = sum_list (map lo_shadow_cost_micros rows),
                 ca_passed = canary_passed limits quality cost savings reasons,
                 ca_breach_reasons = reasons, ca_trigger_segments = []\<rparr>))))))))"

section \<open>Lemmas\<close>

lemma outcomes_Inr: "\<exists>s. outcomes rows = Inr s"
proof (cases "rows = []")
  case False
  then obtain q where "percentile (map lo_latency_ms rows) (95 / 100) = Inr q"
    by (simp add: percentile_Inr_iff)
  then show ?thesis by (simp add: outcomes_def Let_def)
qed (simp add: outcomes_def)

lemma outcomes_fields:
  assumes "outcomes rows = Inr s"
  shows "oa_interactions s = length rows" "oa_successes s = length (filter lo_success rows)"
    "oa_total_cost_micros s = sum_list (map lo_total_cost_micros rows)"
    "oa_validation_failure_rate s = rate_of lo_validation_failure rows" "oa_error_rate s = rate_of lo_error rows"
    "oa_critical_safety_incidents s = sum_list (map lo_critical_safety_incidents rows)"
    "rows \<noteq> [] \<Longrightarrow> \<exists>q. percentile (map lo_latency_ms rows) (95 / 100) = Inr q \<and> oa_p95_latency_ms s = Some q"
  using assms by (auto simp: outcomes_def Let_def bindE_Inr_iff split: if_splits)

lemma arm_values_length: "length (arm_values costs rows) \<le> length rows"
proof -
  have "length (filter lo_success (sort_key k rows)) \<le> length (sort_key k rows)" for k :: "live_observation \<Rightarrow> instant \<times> ident"
    by (rule length_filter_le)
  then show ?thesis by (simp add: arm_values_def Let_def)
qed

lemma sum_filters_le:
  "distinct gs \<Longrightarrow> sum_list (map (\<lambda>g. length (filter (\<lambda>r. f r = g) rows)) gs) \<le> length rows"
proof (induction gs arbitrary: rows)
  case (Cons g gs)
  let ?rest = "filter (\<lambda>r. f r \<noteq> g) rows"
  have same: "map (\<lambda>h. length (filter (\<lambda>r. f r = h) rows)) gs = map (\<lambda>h. length (filter (\<lambda>r. f r = h) ?rest)) gs"
    using Cons.prems by (auto intro!: arg_cong [where f = length] filter_cong)
  have "sum_list (map (\<lambda>h. length (filter (\<lambda>r. f r = h) ?rest)) gs) \<le> length ?rest"
    using Cons.IH [of ?rest] Cons.prems by (simp del: filter_filter)
  moreover have "length (filter (\<lambda>r. f r = g) rows) + length ?rest = length rows"
    by (rule sum_length_filter_compl)
  ultimately show ?case unfolding list.map sum_list.Cons same by linarith
qed simp

lemma matched_pairs_length: "length (matched_pairs left right costs) \<le> length left"
proof -
  let ?gs = "dedup (map group_of (left @ right))"
  let ?left = "\<lambda>g. filter (\<lambda>r. group_of r = g) left"
  have "length (matched_pairs left right costs) \<le> sum_list (map (\<lambda>g. length (?left g)) ?gs)"
    unfolding matched_pairs_def length_concat map_map
    by (rule sum_list_mono) (simp add: min.coboundedI1 arm_values_length)
  also have "\<dots> \<le> length left" by (rule sum_filters_le) simp
  finally show ?thesis .
qed

lemma bootstrap_of_size:
  assumes "bootstrap_of choices left right costs = Inr d"
  shows "pc_sample_size d \<le> length left"
  using assms matched_pairs_length [of left right costs]
  by (auto simp: bootstrap_of_def matched_def default_bootstrap_def paired_bootstrap_def Let_def bindE_Inr_iff
      deltas_of_def split: if_splits)

lemma live_aggregate_Inr:
  assumes "live_aggregate choices rows limits = Inr a"
  obtains f where
    "outcomes (filter (\<lambda>r. lo_specialist_version r \<noteq> None) rows) = Inr (ca_specialist a)"
    "outcomes (filter (\<lambda>r. lo_specialist_version r = None) rows) = Inr f" "ca_foundation a = f"
    "bootstrap_of choices (filter lo_specialist_served rows) (filter (\<lambda>r. lo_specialist_version r = None) rows) False =
       Inr (ca_quality_delta a)"
    "bootstrap_of choices (filter (\<lambda>r. lo_specialist_version r \<noteq> None) rows)
       (filter (\<lambda>r. lo_specialist_version r = None) rows) True = Inr (ca_cost_delta_micros a)"
    "ca_cost_reduction_fraction a = reduction (ca_specialist a) f"
    "ca_breach_reasons a = breaches (ca_specialist a) (reduction (ca_specialist a) f) limits"
    "ca_passed a = canary_passed limits (ca_quality_delta a) (ca_cost_delta_micros a)
       (reduction (ca_specialist a) f) (ca_breach_reasons a)"
  using assms by (auto simp: live_aggregate_def Let_def bindE_Inr_iff)

lemma sum_list_split_filter:
  "sum_list (map f (filter p xs)) + sum_list (map f (filter (\<lambda>x. \<not> p x) xs)) = (sum_list (map f xs) :: int)"
  by (induction xs) auto

lemma sum_list_sorted: "sum_list (map f (sort_key k xs)) = (sum_list (map f xs) :: int)"
proof -
  have "mset (map f (sort_key k xs)) = mset (map f xs)" by simp
  then show ?thesis by (metis sum_mset_sum_list)
qed

lemma sum_list_add_const: "sum_list (map (\<lambda>x. of_int (f x) + c) xs) = of_int (sum_list (map f xs)) + of_nat (length xs) * (c::rat)"
  by (induction xs) (auto simp: algebra_simps)

section \<open>Correctness\<close>

text \<open>C29. A canary that passes is within every limit. When the aggregate of a window passes, the
  attempts of the specialist caused no critical safety incident, the rates of failed validations
  and of errors and the 95th percentile of the latency are within their limits, the lower end of
  the quality interval is above the non-inferiority margin, and the cost ratio is within its limit;
  none of these is skipped for want of samples.\<close>

theorem canary_passes_within_limits:
  assumes "live_aggregate choices rows limits = Inr a" and "ca_passed a" and "1 \<le> rb_minimum_samples limits"
  shows "sum_list (map lo_critical_safety_incidents (filter (\<lambda>r. lo_specialist_version r \<noteq> None) rows)) = 0 \<and>
    (\<exists>v e q l. rate_of lo_validation_failure (filter (\<lambda>r. lo_specialist_version r \<noteq> None) rows) = Some v \<and>
       v \<le> rb_validation_failure_rate_max limits \<and>
       rate_of lo_error (filter (\<lambda>r. lo_specialist_version r \<noteq> None) rows) = Some e \<and> e \<le> rb_error_rate_max limits \<and>
       percentile (map lo_latency_ms (filter (\<lambda>r. lo_specialist_version r \<noteq> None) rows)) (95 / 100) = Inr q \<and>
       q \<le> rb_p95_latency_ms_max limits \<and>
       pc_ci_lower (ca_quality_delta a) = Some l \<and> l > - rb_non_inferiority_margin limits) \<and>
    (\<exists>x. ca_cost_reduction_fraction a = Some x \<and> 1 - x \<le> rb_cost_ratio_max limits)"
proof -
  let ?rows = "filter (\<lambda>r. lo_specialist_version r \<noteq> None) rows"
  from live_aggregate_Inr [OF assms(1)] obtain f where
    s: "outcomes ?rows = Inr (ca_specialist a)"
    and cost: "bootstrap_of choices ?rows (filter (\<lambda>r. lo_specialist_version r = None) rows) True = Inr (ca_cost_delta_micros a)"
    and reduce: "ca_cost_reduction_fraction a = reduction (ca_specialist a) f"
    and reasons: "ca_breach_reasons a = breaches (ca_specialist a) (reduction (ca_specialist a) f) limits"
    and passed: "ca_passed a = canary_passed limits (ca_quality_delta a) (ca_cost_delta_micros a)
       (reduction (ca_specialist a) f) (ca_breach_reasons a)"
    by blast
  note p = passed [unfolded canary_passed_def, THEN iffD1, OF assms(2)]
  have enough: "rb_minimum_samples limits \<le> length ?rows"
    using p bootstrap_of_size [OF cost] by linarith
  then have some: "?rows \<noteq> []" using assms(3) by auto
  note fields = outcomes_fields [OF s]
  obtain q where q: "percentile (map lo_latency_ms ?rows) (95 / 100) = Inr q" "oa_p95_latency_ms (ca_specialist a) = Some q"
    using fields(7) [OF some] by blast
  have none: "breaches (ca_specialist a) (reduction (ca_specialist a) f) limits = []" using p reasons by simp
  have safe: "oa_critical_safety_incidents (ca_specialist a) = 0"
    "\<not> exceeds (oa_validation_failure_rate (ca_specialist a)) (rb_validation_failure_rate_max limits)"
    "\<not> exceeds (oa_error_rate (ca_specialist a)) (rb_error_rate_max limits)"
    "\<not> exceeds (oa_p95_latency_ms (ca_specialist a)) (rb_p95_latency_ms_max limits)"
    using none enough by (simp_all add: breaches_def fields(1) split: if_splits)
  show ?thesis
    using safe p q some fields reduce
    by (auto simp: rate_of_def exceeds_def not_less split: option.splits)
qed

text \<open>No cost is lost in matching. The values of a cohort in which something succeeded spread the
  cost of its failed interactions over its successes: their sum is the whole cost of the cohort.\<close>

theorem matched_costs_complete:
  assumes "filter lo_success rows \<noteq> []"
  shows "sum_list (arm_values True rows) = of_int (sum_list (map lo_total_cost_micros rows))"
proof -
  let ?sorted = "sort_key (\<lambda>r. (lo_created_at r, lo_interaction_id r)) rows"
  let ?won = "filter lo_success ?sorted" and ?lost = "filter (\<lambda>r. \<not> lo_success r) ?sorted"
  let ?failed = "sum_list (map lo_total_cost_micros ?lost)"
  have "set ?won = set (filter lo_success rows)" by simp
  then have some: "?won \<noteq> []" using assms by (metis set_empty)
  have "sum_list (arm_values True rows) =
      of_int (sum_list (map lo_total_cost_micros ?won)) + of_nat (length ?won) * (of_int ?failed / of_nat (length ?won))"
    unfolding arm_values_def Let_def if_True by (rule sum_list_add_const)
  also have "\<dots> = of_int (sum_list (map lo_total_cost_micros ?won) + ?failed)" using some by simp
  also have "\<dots> = of_int (sum_list (map lo_total_cost_micros rows))"
    by (simp only: sum_list_split_filter sum_list_sorted)
  finally show ?thesis .
qed

section \<open>A sample\<close>

definition live_sample :: "ident \<Rightarrow> ident option \<Rightarrow> bool \<Rightarrow> int \<Rightarrow> live_observation" where
  "live_sample i v ok cost =
     \<lparr>lo_interaction_id = i, lo_policy_id = ''p'', lo_tenant_id = ''t'', lo_created_at = 1,
      lo_features = \<lparr>ft_task = ''chat'', ft_language = ''en'', ft_risk_tier = LowRisk, ft_chunk_count = 0,
        ft_top_score = 0, ft_index_id = None, ft_input_tokens = 1, ft_context_supplied = False\<rparr>,
      lo_specialist_version = v, lo_specialist_served = (v \<noteq> None \<and> ok), lo_fallback_used = False, lo_success = ok,
      lo_validation_failure = \<not> ok, lo_error = False, lo_critical_safety_incidents = 0, lo_quality = 1,
      lo_total_cost_micros = cost, lo_shadow_cost_micros = 0, lo_latency_ms = 10\<rparr>"

definition same_choices :: choices where
  "same_choices = (\<lambda>seed i xs k. replicate k (hd xs))"

definition canary_rows :: "live_observation list" where
  "canary_rows = [live_sample ''a'' (Some ''s'') True 5, live_sample ''b'' None True 10]"

definition canary_limits :: rollback_thresholds where
  "canary_limits = default_rollback_thresholds\<lparr>rb_minimum_samples := 1\<rparr>"

definition canary_sample :: canary_aggregate where
  "canary_sample = (case live_aggregate same_choices canary_rows canary_limits of Inr a \<Rightarrow> a)"

lemma percentile_constant:
  assumes "0 < n" and "0 \<le> p" and "p \<le> 1"
  shows "percentile (replicate n c) p = Inr c"
proof -
  let ?x = "of_nat (n - 1) * p"
  have x: "0 \<le> ?x" "?x \<le> of_nat (length (replicate n c) - 1)"
    using assms by (simp_all add: mult_left_le)
  have upper: "nat \<lceil>?x\<rceil> < n"
    using interpolate_lower_upper(3) [of "replicate n c" ?x] x assms(1) by simp
  have "nat \<lfloor>?x\<rfloor> \<le> nat \<lceil>?x\<rceil>" by (simp add: floor_le_ceiling nat_mono)
  then have lower: "nat \<lfloor>?x\<rfloor> < n" using upper by linarith
  have "interpolate (replicate n c) ?x = c"
    unfolding interpolate_def Let_def nth_replicate [OF upper] nth_replicate [OF lower] by simp
  then show ?thesis using assms by (simp add: percentile_Inr_iff sorted_sort_id)
qed

lemma same_choices_bootstrap:
  "default_bootstrap same_choices [a] [b] =
     Inr \<lparr>pc_mean_delta = Some (a - b), pc_ci_lower = Some (a - b), pc_ci_upper = Some (a - b), pc_sample_size = 1\<rparr>"
proof -
  have "map (\<lambda>i. fmean (same_choices 23 i [a - b] (Suc 0))) [0..<2000] = replicate 2000 (a - b)"
    by (simp add: same_choices_def fmean_def map_replicate_const)
  then show ?thesis
    by (simp add: default_bootstrap_def paired_bootstrap_def guardE_def deltas_of_def Let_def percentile_constant fmean_def)
qed

lemma canary_aggregated: "live_aggregate same_choices canary_rows canary_limits = Inr canary_sample" "ca_passed canary_sample"
proof -
  let ?a = "live_sample ''a'' (Some ''s'') True 5" and ?b = "live_sample ''b'' None True 10"
  have cohorts: "filter (\<lambda>r. lo_specialist_version r \<noteq> None) canary_rows = [?a]"
    "filter (\<lambda>r. lo_specialist_version r = None) canary_rows = [?b]"
    "filter lo_specialist_served canary_rows = [?a]"
    "filter (\<lambda>r. lo_success r \<and> \<not> lo_specialist_served r) canary_rows = [?b]"
    by (simp_all add: canary_rows_def live_sample_def)
  have "matched [?a] [?b] costs = (if costs then ([5], [10]) else ([1], [1]))" for costs
    by (simp add: matched_def matched_pairs_def arm_values_def group_of_def live_sample_def)
  then have boot: "bootstrap_of same_choices [?a] [?b] costs = (let d = if costs then - 5 else 0 in
      Inr \<lparr>pc_mean_delta = Some d, pc_ci_lower = Some d, pc_ci_upper = Some d, pc_sample_size = 1\<rparr>)" for costs
    by (simp add: bootstrap_of_def same_choices_bootstrap)
  have out: "outcomes [?a] = Inr \<lparr>oa_interactions = 1, oa_successes = 1, oa_total_cost_micros = 5,
      oa_cost_per_success_micros = Some 5, oa_validation_failure_rate = Some 0, oa_error_rate = Some 0,
      oa_p95_latency_ms = Some 10, oa_critical_safety_incidents = 0\<rparr>"
    "outcomes [?b] = Inr \<lparr>oa_interactions = 1, oa_successes = 1, oa_total_cost_micros = 10,
      oa_cost_per_success_micros = Some 10, oa_validation_failure_rate = Some 0, oa_error_rate = Some 0,
      oa_p95_latency_ms = Some 10, oa_critical_safety_incidents = 0\<rparr>"
    by (simp_all add: outcomes_def live_sample_def rate_of_def bool_flt_def fmean_def percentile_def interpolate_def guardE_def)
  have "\<exists>a. live_aggregate same_choices canary_rows canary_limits = Inr a \<and> ca_passed a"
    unfolding live_aggregate_def Let_def cohorts boot out bindE_simps
    by (simp add: canary_passed_def reduction_def breaches_def exceeds_def canary_limits_def default_rollback_thresholds_def)
  then show "live_aggregate same_choices canary_rows canary_limits = Inr canary_sample" "ca_passed canary_sample"
    by (auto simp: canary_sample_def)
qed

theorem canary_passes_within_limits_witness:
  "\<exists>x. ca_cost_reduction_fraction canary_sample = Some x \<and> 1 - x \<le> rb_cost_ratio_max canary_limits"
  using canary_passes_within_limits [OF canary_aggregated] by (auto simp: canary_limits_def)

theorem matched_costs_complete_witness:
  "sum_list (arm_values True [live_sample ''a'' None True 5, live_sample ''b'' None False 7]) = 12"
  using matched_costs_complete [of "[live_sample ''a'' None True 5, live_sample ''b'' None False 7]"]
  by (simp add: live_sample_def)

end
