(* ===== verification/Control.thy ===== *)
theory Control
  imports Unit_Of_Work Canary Chain Outbox Identity
begin

text \<open>
  The route control of \<open>routing/control.py\<close> and the planner of the foundation in
  \<open>routing/chain.py\<close>: immutable policies, the pointer to the active one with its kill switch and
  disablements, the snapshot that serving reads with its cache of one second, the shadow and live
  observations with their reports, the gate of the registry and the automatic rollback. The
  tables are those of the control database; their JSON columns are values and their ISO
  timestamps instants. The registry is an argument, a function from a version and an identity to
  a manifest; identifiers, instants and the readings of the clock of a call are its draws.
\<close>

section \<open>Tables and snapshots\<close>

record policy_row =
  pw_policy_id :: ident
  pw_environment :: environment
  pw_tenant_ids :: "ident list"
  pw_created_at :: instant
  pw_actor :: "string option"
  pw_data :: route_policy

record active_row =
  ac_policy_id :: "ident option"
  ac_kill_switch :: bool
  ac_disabled_tenants :: "ident list"
  ac_disabled_tasks :: "ident list"
  ac_disabled_specialists :: "ident list"

record history_row =
  hy_transition_id :: string
  hy_environment :: environment
  hy_policy_id :: "ident option"
  hy_actor :: string
  hy_reason :: string
  hy_action :: string
  hy_created_at :: instant

record observation_row =
  ov_interaction_id :: string
  ov_policy_id :: ident
  ov_tenant_id :: string
  ov_created_at :: instant
  ov_segments :: "string list"

record rollback_row =
  rk_measurement_id :: string
  rk_environment :: environment
  rk_policy_id :: ident
  rk_specialist_version :: ident
  rk_created_at :: instant
  rk_data :: canary_aggregate

record control_tables =
  ct_policies :: "policy_row list"
  ct_active :: "(environment \<times> active_row) list"
  ct_history :: "history_row list"
  ct_observations :: "observation_row list"
  ct_comparisons :: "(string \<times> shadow_comparison) list"
  ct_live :: "live_observation list"
  ct_rollbacks :: "rollback_row list"
  ct_outbox :: "event outbox_row list"

record route_snapshot =
  sn_policy :: "route_policy option"
  sn_killed :: bool
  sn_disabled_tenants :: "ident list"
  sn_disabled_tasks :: "ident list"
  sn_disabled_specialists :: "ident list"

definition route_snapshot_default :: route_snapshot where
  "route_snapshot_default = \<lparr>sn_policy = None, sn_killed = False, sn_disabled_tenants = [],
     sn_disabled_tasks = [], sn_disabled_specialists = []\<rparr>"

definition flag :: "(ident \<times> bool) list \<Rightarrow> ident \<Rightarrow> bool" where
  "flag d k = (case map_of d k of None \<Rightarrow> False | Some b \<Rightarrow> b)"

definition enabled :: "route_snapshot \<Rightarrow> ident \<Rightarrow> ident \<Rightarrow> bool" where
  "enabled s tenant task =
     (case sn_policy s of
        None \<Rightarrow> False
      | Some p \<Rightarrow> \<not> sn_killed s \<and> \<not> po_kill_switch p \<and> tenant \<notin> set (sn_disabled_tenants s) \<and>
          task \<notin> set (sn_disabled_tasks s) \<and> flag (po_tenant_enabled p) tenant \<and> flag (po_task_enabled p) task)"

record 'k control_env =
  kx_environment :: environment
  kx_foundation_id :: ident
  kx_tenants :: "ident list"
  kx_hash :: hash_functions
  kx_keyring :: "'k keyring"
  kx_choices :: choices

record control_draws =
  kd_now :: "nat \<Rightarrow> instant"
  kd_uid :: "nat \<Rightarrow> string"
  kd_clock :: "nat \<Rightarrow> flt"

record control_state =
  kt_tables :: control_tables
  kt_cached :: route_snapshot
  kt_expires :: flt

type_synonym registry_reader = "ident \<Rightarrow> identity \<Rightarrow> model_manifest result"

definition control_new :: "control_tables \<Rightarrow> control_state" where
  "control_new ct = \<lparr>kt_tables = ct, kt_cached = route_snapshot_default, kt_expires = 0\<rparr>"

text \<open>A transaction of the database inside the state of the service.\<close>

definition in_tables :: "(control_tables, 'a) work \<Rightarrow> (control_state, 'a) work" where
  "in_tables m = (\<lambda>st. case m (kt_tables st) of (r, ct) \<Rightarrow> (r, st\<lparr>kt_tables := ct\<rparr>))"

section \<open>Authorisation and validation\<close>

text \<open>\<open>LocalDatasetBuilder._authorize\<close>.\<close>

definition authorize_dataset :: "identity \<Rightarrow> ident list \<Rightarrow> unit result" where
  "authorize_dataset identity tenants =
     bindE (guardE (id_key_class identity = OperatorKey) (GatewayError 403 ''operator_required'')) (\<lambda>_.
       guardE (set tenants \<subseteq> set (id_dataset_tenants identity)) (GatewayError 403 ''dataset_tenant_forbidden''))"

definition authorize :: "'k control_env \<Rightarrow> identity \<Rightarrow> ident list \<Rightarrow> unit result" where
  "authorize kx identity tenants =
     bindE (authorize_dataset identity tenants) (\<lambda>_.
       guardE (id_environment identity = kx_environment kx \<and> id_subject identity \<noteq> None)
         (GatewayError 403 ''environment_forbidden''))"

definition router_architecture :: ident where
  "router_architecture = ''router-logistic-v1''"

definition validate_specialist :: "registry_reader \<Rightarrow> route_policy \<Rightarrow> identity \<Rightarrow> ident \<Rightarrow> unit result" where
  "validate_specialist registry p identity version =
     bindE (registry version identity) (\<lambda>model.
     bindE (guardE (mm_adapter_architecture model \<noteq> router_architecture \<and>
              mm_state model \<in> {Shadow, Canary, Production})
       (GatewayError 409 ''shadow_state_required'')) (\<lambda>_.
     guardE (\<not> (mm_state model \<noteq> Production \<and> cc_traffic_fraction (po_canary p) > 5 / 100))
       (GatewayError 422 ''canary_fraction_exceeded'')))"

definition validate_router :: "registry_reader \<Rightarrow> route_policy \<Rightarrow> identity \<Rightarrow> unit result" where
  "validate_router registry p identity =
     (case po_router_version p of
        None \<Rightarrow> Inr ()
      | Some version \<Rightarrow>
          bindE (registry version identity) (\<lambda>router.
            guardE (mm_adapter_architecture router = router_architecture \<and>
                mm_state router \<in> {Approved, Shadow, Canary, Production})
              (GatewayError 409 ''promoted_router_required'')))"

definition validate_policy :: "'k control_env \<Rightarrow> registry_reader \<Rightarrow> route_policy \<Rightarrow> identity \<Rightarrow> unit result" where
  "validate_policy kx registry p identity =
     bindE (authorize kx identity (map fst (po_tenant_enabled p))) (\<lambda>_.
     bindE (guardE (po_foundation_fallback p = kx_foundation_id kx)
       (GatewayError 422 ''foundation_fallback_unavailable'')) (\<lambda>_.
     bindE (guardE (set (map fst (po_tenant_enabled p)) \<subseteq> set (kx_tenants kx))
       (GatewayError 422 ''route_tenant_unavailable'')) (\<lambda>_.
     bindE (each_result (validate_specialist registry p identity) (po_eligible_specialist_versions p)) (\<lambda>_.
     validate_router registry p identity))))"

section \<open>Policies\<close>

definition policy_at :: "control_tables \<Rightarrow> ident \<Rightarrow> policy_row option" where
  "policy_at ct i = List.find (\<lambda>r. pw_policy_id r = i) (ct_policies ct)"

definition create_policy ::
    "'k control_env \<Rightarrow> registry_reader \<Rightarrow> control_draws \<Rightarrow> route_policy \<Rightarrow> identity \<Rightarrow> (control_state, route_policy) work" where
  "create_policy kx registry kd p identity = in_tables (atomic (
     then_do (lift_result (validate_policy kx registry p identity)) (\<lambda>_.
     then_do (reading (\<lambda>ct. policy_at ct (po_policy_id p))) (\<lambda>found.
     then_do (require (found = None) (GatewayError 409 ''immutable_route_policy'')) (\<lambda>_.
     then_do (writing (\<lambda>ct. ct\<lparr>ct_policies := ct_policies ct @
         [\<lparr>pw_policy_id = po_policy_id p, pw_environment = kx_environment kx,
           pw_tenant_ids = sort (map fst (po_tenant_enabled p)), pw_created_at = kd_now kd 0,
           pw_actor = id_subject identity, pw_data = p\<rparr>]\<rparr>)) (\<lambda>_.
     pass p))))))"

definition get_policy :: "'k control_env \<Rightarrow> ident \<Rightarrow> identity \<Rightarrow> (control_tables, route_policy) work" where
  "get_policy kx i identity =
     then_do (lift_result (authorize kx identity [])) (\<lambda>_.
     then_do (reading (\<lambda>ct. policy_at ct i)) (\<lambda>found.
     case found of
       None \<Rightarrow> lift_result (Inl (GatewayError 404 ''route_policy_not_found''))
     | Some r \<Rightarrow>
         if pw_environment r \<noteq> kx_environment kx \<or> \<not> set (pw_tenant_ids r) \<subseteq> set (id_dataset_tenants identity)
         then lift_result (Inl (GatewayError 404 ''route_policy_not_found''))
         else pass (pw_data r)))"

section \<open>The pointer\<close>

definition new_pointer :: active_row where
  "new_pointer = \<lparr>ac_policy_id = None, ac_kill_switch = False, ac_disabled_tenants = [],
     ac_disabled_tasks = [], ac_disabled_specialists = []\<rparr>"

definition ensure_pointer :: "'k control_env \<Rightarrow> (control_tables, unit) work" where
  "ensure_pointer kx = writing (\<lambda>ct. ct\<lparr>ct_active :=
     (if map_of (ct_active ct) (kx_environment kx) = None
      then ct_active ct @ [(kx_environment kx, new_pointer)] else ct_active ct)\<rparr>)"

definition pointer :: "'k control_env \<Rightarrow> control_tables \<Rightarrow> active_row option" where
  "pointer kx ct = map_of (ct_active ct) (kx_environment kx)"

text \<open>\<open>UPDATE route_policy_active SET ... WHERE environment=?\<close>.\<close>

definition set_pointer :: "'k control_env \<Rightarrow> (active_row \<Rightarrow> active_row) \<Rightarrow> (control_tables, unit) work" where
  "set_pointer kx f = writing (\<lambda>ct. ct\<lparr>ct_active :=
     map (\<lambda>(e, r). (e, if e = kx_environment kx then f r else r)) (ct_active ct)\<rparr>)"

definition note_scope :: "route_control_note \<Rightarrow> string \<Rightarrow> string" where
  "note_scope note otherwise =
     (if truthy (rn_tenant_id note) then the (rn_tenant_id note)
      else if truthy (rn_task note) then the (rn_task note)
      else if truthy (rn_specialist_version note) then the (rn_specialist_version note) else otherwise)"

definition deployment_event ::
    "control_draws \<Rightarrow> nat \<Rightarrow> string \<Rightarrow> deployment_changed \<Rightarrow> ident \<Rightarrow> event" where
  "deployment_event kd n trace d tenant =
     \<lparr>en_event_id = kd_uid kd n, en_event_type = DeploymentChangedEvent, en_occurred_at = kd_now kd n,
      en_producer = DeploymentController, en_tenant_id = tenant, en_trace_id = trace,
      en_schema_version = ''1.0'', en_data = DeploymentData d\<rparr>"

definition put_events :: "event list \<Rightarrow> nat \<Rightarrow> (control_tables, unit) work" where
  "put_events es limit = writing (\<lambda>ct. ct\<lparr>ct_outbox :=
     fst (enqueue_loop (\<lambda>e. e) limit es (ct_outbox ct) (length (pending_rows (ct_outbox ct))) 0)\<rparr>)"

text \<open>The tenants an audited change is announced to.\<close>

definition audited_tenants :: "'k control_env \<Rightarrow> route_control_note \<Rightarrow> ident list" where
  "audited_tenants kx note =
     (if truthy (rn_tenant_id note) then [the (rn_tenant_id note)] else sorted_set (kx_tenants kx))"

definition audit_events ::
    "'k control_env \<Rightarrow> control_draws \<Rightarrow> route_control_note \<Rightarrow> ident option \<Rightarrow> deployment_state \<Rightarrow> string \<Rightarrow> event list" where
  "audit_events kx kd note policy_id new_state actor =
     map (\<lambda>(n, tenant). deployment_event kd n (kd_uid kd 1)
         \<lparr>dc_deployment_id = (if truthy (rn_specialist_version note) then the (rn_specialist_version note) else ''route_policy''),
          dc_model_version = (if truthy (rn_specialist_version note) then the (rn_specialist_version note)
            else if truthy policy_id then the policy_id else ''none''),
          dc_previous_state = None, dc_new_state = new_state, dc_actor_id = actor,
          dc_reason = rn_reason note, dc_evaluation_id = None\<rparr> tenant)
       (enumerate 2 (audited_tenants kx note))"

definition audit_row ::
    "'k control_env \<Rightarrow> control_draws \<Rightarrow> string \<Rightarrow> route_control_note \<Rightarrow> ident option \<Rightarrow> string \<Rightarrow> history_row" where
  "audit_row kx kd actor note policy_id action =
     \<lparr>hy_transition_id = kd_uid kd 0, hy_environment = kx_environment kx, hy_policy_id = policy_id,
      hy_actor = actor, hy_reason = rn_reason note, hy_action = action @ '':'' @ note_scope note ''environment'',
      hy_created_at = kd_now kd 0\<rparr>"

definition audit ::
    "'k control_env \<Rightarrow> control_draws \<Rightarrow> identity \<Rightarrow> route_control_note \<Rightarrow> ident option \<Rightarrow> string \<Rightarrow>
     deployment_state \<Rightarrow> (control_tables, unit) work" where
  "audit kx kd identity note policy_id action new_state =
     (case id_subject identity of
        None \<Rightarrow> lift_result (Inl OtherException)
      | Some actor \<Rightarrow>
          then_do (reading (\<lambda>ct. kd_uid kd 0 \<in> hy_transition_id ` set (ct_history ct))) (\<lambda>taken.
          then_do (require (\<not> taken) OtherException) (\<lambda>_.
          then_do (writing (\<lambda>ct. ct\<lparr>ct_history := ct_history ct @ [audit_row kx kd actor note policy_id action]\<rparr>)) (\<lambda>_.
          put_events (audit_events kx kd note policy_id new_state actor) 100000))))"

definition invalidate :: "(control_state, unit) work" where
  "invalidate = writing (\<lambda>st. st\<lparr>kt_expires := 0\<rparr>)"

definition activate_in_tables ::
    "'k control_env \<Rightarrow> registry_reader \<Rightarrow> control_draws \<Rightarrow> ident \<Rightarrow> identity \<Rightarrow> route_control_note \<Rightarrow>
     (control_tables, route_policy) work" where
  "activate_in_tables kx registry kd i identity note =
     then_do (get_policy kx i identity) (\<lambda>p.
     then_do (lift_result (validate_policy kx registry p identity)) (\<lambda>_.
     then_do (ensure_pointer kx) (\<lambda>_.
     then_do (set_pointer kx (\<lambda>r. r\<lparr>ac_policy_id := Some i\<rparr>)) (\<lambda>_.
     then_do (audit kx kd identity note (Some i) ''activate'' DeploymentActive) (\<lambda>_.
     pass p)))))"

definition activate ::
    "'k control_env \<Rightarrow> registry_reader \<Rightarrow> control_draws \<Rightarrow> ident \<Rightarrow> identity \<Rightarrow> route_control_note \<Rightarrow>
     (control_state, route_policy) work" where
  "activate kx registry kd i identity note =
     then_do (require (rn_tenant_id note = None \<and> rn_task note = None \<and> rn_specialist_version note = None)
       (GatewayError 422 ''activation_scope_invalid'')) (\<lambda>_.
     then_do (lift_result (authorize kx identity (sorted_set (kx_tenants kx)))) (\<lambda>_.
     then_do (in_tables (atomic (activate_in_tables kx registry kd i identity note))) (\<lambda>p.
     then_do invalidate (\<lambda>_. pass p))))"

section \<open>Snapshots\<close>

definition current_snapshot :: "'k control_env \<Rightarrow> control_tables \<Rightarrow> route_snapshot" where
  "current_snapshot kx ct =
     (case pointer kx ct of
        None \<Rightarrow> route_snapshot_default
      | Some r \<Rightarrow> \<lparr>sn_policy = (case ac_policy_id r of None \<Rightarrow> None | Some i \<Rightarrow> map_option pw_data (policy_at ct i)),
          sn_killed = ac_kill_switch r, sn_disabled_tenants = ac_disabled_tenants r,
          sn_disabled_tasks = ac_disabled_tasks r, sn_disabled_specialists = ac_disabled_specialists r\<rparr>)"

definition snapshot :: "'k control_env \<Rightarrow> control_draws \<Rightarrow> (control_state, route_snapshot) work" where
  "snapshot kx kd = (\<lambda>st.
     if kd_clock kd 0 < kt_expires st then (Inr (kt_cached st), st)
     else let s = current_snapshot kx (kt_tables st) in
       (Inr s, st\<lparr>kt_cached := s, kt_expires := kd_clock kd 1 + 1\<rparr>))"

section \<open>The switch\<close>

definition changed :: "bool \<Rightarrow> ident \<Rightarrow> ident list \<Rightarrow> ident list" where
  "changed disabled v vs = (if disabled then sorted_set (v # vs) else sorted_set (filter (\<lambda>w. w \<noteq> v) vs))"

definition scoped :: "route_control_note \<Rightarrow> bool" where
  "scoped note = (rn_tenant_id note \<noteq> None \<or> rn_task note \<noteq> None \<or> rn_specialist_version note \<noteq> None)"

text \<open>The column that the scope of a note names, read and written.\<close>

definition disablements :: "route_control_note \<Rightarrow> active_row \<Rightarrow> ident list" where
  "disablements note r =
     (if rn_tenant_id note \<noteq> None then ac_disabled_tenants r
      else if rn_task note \<noteq> None then ac_disabled_tasks r else ac_disabled_specialists r)"

definition set_disablements :: "route_control_note \<Rightarrow> ident list \<Rightarrow> active_row \<Rightarrow> active_row" where
  "set_disablements note vs r =
     (if rn_tenant_id note \<noteq> None then r\<lparr>ac_disabled_tenants := vs\<rparr>
      else if rn_task note \<noteq> None then r\<lparr>ac_disabled_tasks := vs\<rparr> else r\<lparr>ac_disabled_specialists := vs\<rparr>)"

definition switch_scope ::
    "'k control_env \<Rightarrow> bool \<Rightarrow> route_control_note \<Rightarrow> active_row \<Rightarrow> (control_tables, unit) work" where
  "switch_scope kx disabled note r =
     (if scoped note
      then let vs = changed disabled (note_scope note []) (disablements note r) in
        then_do (require (length vs \<le> 100) (GatewayError 422 ''disablement_limit'')) (\<lambda>_.
        set_pointer kx (set_disablements note vs))
      else set_pointer kx (\<lambda>r. r\<lparr>ac_kill_switch := disabled\<rparr>))"

definition switch_in_tables ::
    "'k control_env \<Rightarrow> control_draws \<Rightarrow> bool \<Rightarrow> identity \<Rightarrow> route_control_note \<Rightarrow> (control_tables, unit) work" where
  "switch_in_tables kx kd disabled identity note =
     then_do (ensure_pointer kx) (\<lambda>_.
     then_do (reading (pointer kx)) (\<lambda>found.
     case found of
       None \<Rightarrow> lift_result (Inl OtherException)
     | Some r \<Rightarrow>
         then_do (switch_scope kx disabled note r) (\<lambda>_.
         audit kx kd identity note (ac_policy_id r) (if disabled then ''disable'' else ''enable'')
           (if disabled then DeploymentDisabled else DeploymentEnabled))))"

definition switch ::
    "'k control_env \<Rightarrow> control_draws \<Rightarrow> bool \<Rightarrow> identity \<Rightarrow> route_control_note \<Rightarrow> (control_state, route_snapshot) work" where
  "switch kx kd disabled identity note =
     then_do (lift_result (authorize kx identity
       (if truthy (rn_tenant_id note) then [the (rn_tenant_id note)] else sorted_set (kx_tenants kx)))) (\<lambda>_.
     then_do (require (opt_all (\<lambda>t. t \<in> set (kx_tenants kx)) (rn_tenant_id note))
       (GatewayError 422 ''route_tenant_unavailable'')) (\<lambda>_.
     then_do (in_tables (atomic (switch_in_tables kx kd disabled identity note))) (\<lambda>_.
     then_do invalidate (\<lambda>_.
     snapshot kx kd))))"

end
