(* ===== verification/Control_Reports.thy ===== *)
theory Control_Reports
  imports Control
begin

text \<open>
  The observations of \<open>routing/control.py\<close> and what is decided on them: the shadow report, the
  canary report with its measurement of every specialist in every segment, the gate that the
  registry asks before a model becomes canary or production, and the automatic rollback.
  Comparisons without an order in the query are taken in the order of the table. A naive time
  stamp of a report is \<open>None\<close>.
\<close>

section \<open>Observations\<close>

text \<open>\<open>INSERT OR IGNORE\<close> ignores a taken key, not a missing parent row.\<close>

definition observe ::
    "control_draws \<Rightarrow> ident \<Rightarrow> string \<Rightarrow> string \<Rightarrow> string list \<Rightarrow> (control_state, unit) work" where
  "observe kd i interaction tenant segments = in_tables (atomic (
     then_do (reading (\<lambda>ct. (interaction \<in> ov_interaction_id ` set (ct_observations ct), policy_at ct i = None)))
       (\<lambda>(taken, orphan).
     if taken then pass ()
     else then_do (require (\<not> orphan) OtherException) (\<lambda>_.
       writing (\<lambda>ct. ct\<lparr>ct_observations := ct_observations ct @
         [\<lparr>ov_interaction_id = interaction, ov_policy_id = i, ov_tenant_id = tenant, ov_created_at = kd_now kd 0,
           ov_segments = segments\<rparr>]\<rparr>)))))"

definition compare :: "shadow_comparison \<Rightarrow> (control_state, unit) work" where
  "compare c = in_tables (atomic (
     then_do (reading (\<lambda>ct. (map_of (ct_comparisons ct) (sh_interaction_id c) \<noteq> None,
       sh_interaction_id c \<notin> ov_interaction_id ` set (ct_observations ct)))) (\<lambda>(taken, orphan).
     if taken then pass ()
     else then_do (require (\<not> orphan) OtherException) (\<lambda>_.
       writing (\<lambda>ct. ct\<lparr>ct_comparisons := ct_comparisons ct @ [(sh_interaction_id c, c)],
         ct_live := map (\<lambda>r. if lo_interaction_id r = sh_interaction_id c
           then r\<lparr>lo_shadow_cost_micros := (case sh_specialist_cost_micros c of None \<Rightarrow> 0 | Some n \<Rightarrow> n)\<rparr> else r)
           (ct_live ct)\<rparr>)))))"

definition record_live :: "live_observation \<Rightarrow> (control_state, unit) work" where
  "record_live r = in_tables (atomic (
     then_do (reading (\<lambda>ct. (lo_interaction_id r \<in> lo_interaction_id ` set (ct_live ct),
       policy_at ct (lo_policy_id r) = None))) (\<lambda>(taken, orphan).
     if taken then pass ()
     else then_do (require (\<not> orphan) OtherException) (\<lambda>_.
       writing (\<lambda>ct. ct\<lparr>ct_live := ct_live ct @ [r]\<rparr>)))))"

section \<open>The shadow report\<close>

definition mean_of :: "(shadow_comparison \<Rightarrow> flt) \<Rightarrow> shadow_comparison list \<Rightarrow> flt option" where
  "mean_of f rows = (if rows = [] then None else Some (fmean (map f rows)))"

definition citation_measures :: "(string \<times> (shadow_comparison \<Rightarrow> flt)) list" where
  "citation_measures =
     [(''foundation_citation_precision'', sh_foundation_citation_precision),
      (''foundation_citation_recall'', sh_foundation_citation_recall),
      (''specialist_citation_precision'', sh_specialist_citation_precision),
      (''specialist_citation_recall'', sh_specialist_citation_recall)]"

definition shadow_aggregate_of :: "choices \<Rightarrow> shadow_comparison list \<Rightarrow> nat \<Rightarrow> shadow_aggregate result" where
  "shadow_aggregate_of choices rows opportunities =
     bindE (default_bootstrap choices (map sh_specialist_score rows) (map sh_foundation_score rows)) (\<lambda>delta.
       Inr \<lparr>sa_opportunities = opportunities, sa_comparisons = length rows,
            sa_coverage = (if opportunities = 0 then 0 else of_nat (length rows) / of_nat opportunities),
            sa_specialist_validation_pass_rate = mean_of (\<lambda>c. bool_flt (va_passed (sh_specialist_validation c))) rows,
            sa_score_delta = delta,
            sa_mean_cost_delta_micros = mean_of (\<lambda>c. of_int (sh_cost_delta_micros c)) rows,
            sa_mean_latency_delta_ms = mean_of sh_latency_delta_ms rows,
            sa_mean_input_token_delta = mean_of (\<lambda>c. of_int (sh_input_token_delta c)) rows,
            sa_mean_output_token_delta = mean_of (\<lambda>c. of_int (sh_output_token_delta c)) rows,
            sa_citation_metrics = (if rows = [] then [] else map (\<lambda>(name, f). (name, fmean (map f rows))) citation_measures)\<rparr>)"

definition shadow_passed :: "shadow_aggregate \<Rightarrow> route_policy \<Rightarrow> bool" where
  "shadow_passed measured p =
     (rb_minimum_samples (po_rollback p) \<le> sa_comparisons measured \<and>
      (case pc_ci_lower (sa_score_delta measured) of None \<Rightarrow> False
       | Some l \<Rightarrow> l > - rb_non_inferiority_margin (po_rollback p)) \<and>
      sa_specialist_validation_pass_rate measured = Some 1)"

definition observed :: "control_tables \<Rightarrow> ident \<Rightarrow> instant \<Rightarrow> observation_row list" where
  "observed ct i since =
     sort_key ov_interaction_id (filter (\<lambda>q. ov_policy_id q = i \<and> ov_created_at q \<ge> since) (ct_observations ct))"

definition with_label :: "string \<Rightarrow> shadow_comparison list \<Rightarrow> shadow_comparison list" where
  "with_label label cs = filter (\<lambda>c. label \<in> set (sh_segments c)) cs"

definition shadow_report_of ::
    "'k control_env \<Rightarrow> ident \<Rightarrow> instant option \<Rightarrow> identity \<Rightarrow> (control_tables, shadow_report) work" where
  "shadow_report_of kx i since identity =
     then_do (get_policy kx i identity) (\<lambda>p.
     case since of
       None \<Rightarrow> lift_result (Inl (GatewayError 422 ''utc_since_required''))
     | Some t \<Rightarrow>
         then_do (reading (\<lambda>ct. ct)) (\<lambda>ct.
         let selected = filter (\<lambda>q. ov_tenant_id q \<in> set (id_dataset_tenants identity)) (observed ct i t);
             comparisons = List.map_filter (\<lambda>q. map_of (ct_comparisons ct) (ov_interaction_id q)) selected;
             segments = sorted_set (concat (map ov_segments selected))
         in lift_result (
           bindE (shadow_aggregate_of (kx_choices kx) comparisons (length selected)) (\<lambda>overall.
           bindE (each_result (\<lambda>s. bindE (shadow_aggregate_of (kx_choices kx) (with_label s comparisons)
               (length (filter (\<lambda>q. s \<in> set (ov_segments q)) selected))) (\<lambda>a. Inr (s, a))) segments) (\<lambda>critical.
           Inr \<lparr>sp_policy_id = i, sp_since = t, sp_overall = overall, sp_critical_segments = critical,
                sp_passed = (shadow_passed overall p \<and> list_all (\<lambda>(_, a). shadow_passed a p) critical)\<rparr>)))))"

section \<open>The canary report\<close>

definition tier_text :: "risk_tier \<Rightarrow> string" where
  "tier_text r = (case r of LowRisk \<Rightarrow> ''low'' | MediumRisk \<Rightarrow> ''medium'' | HighRisk \<Rightarrow> ''high'')"

definition labels_of :: "'k control_env \<Rightarrow> live_observation \<Rightarrow> string list" where
  "labels_of kx r =
     (let f = lo_features r in
      [''task.'' @ ft_task f @ ''.risk.'' @ tier_text (ft_risk_tier f), ''language.'' @ ft_language f,
       if ft_context_supplied f then ''citation'' else ''no_context'',
       ''tenant.'' @ pseudonym (kx_hash kx) (kx_keyring kx) (lo_tenant_id r) ''shadow-segment''])"

definition in_segment :: "'k control_env \<Rightarrow> string \<Rightarrow> live_observation list \<Rightarrow> live_observation list" where
  "in_segment kx key rows = filter (\<lambda>r. key \<in> set (labels_of kx r)) rows"

definition of_version :: "ident \<Rightarrow> live_observation list \<Rightarrow> live_observation list" where
  "of_version v rows = filter (\<lambda>r. lo_specialist_version r = None \<or> lo_specialist_version r = Some v) rows"

definition segment_aggregates ::
    "'k control_env \<Rightarrow> rollback_thresholds \<Rightarrow> string list \<Rightarrow> live_observation list \<Rightarrow>
     (string \<times> canary_aggregate) list result" where
  "segment_aggregates kx limits keys rows =
     each_result (\<lambda>key. bindE (live_aggregate (kx_choices kx) (in_segment kx key rows) limits) (\<lambda>a. Inr (key, a))) keys"

definition specialist_measurement ::
    "'k control_env \<Rightarrow> rollback_thresholds \<Rightarrow> string list \<Rightarrow> live_observation list \<Rightarrow> ident \<Rightarrow>
     (ident \<times> canary_aggregate) result" where
  "specialist_measurement kx limits keys rows v =
     bindE (live_aggregate (kx_choices kx) (of_version v rows) limits) (\<lambda>m.
     bindE (segment_aggregates kx limits keys (of_version v rows)) (\<lambda>segments.
     Inr (v, m\<lparr>ca_breach_reasons := sorted_set (ca_breach_reasons m @ concat (map (\<lambda>(_, a). ca_breach_reasons a) segments)),
               ca_trigger_segments := map fst (filter (\<lambda>(_, a). ca_breach_reasons a \<noteq> []) segments),
               ca_passed := (ca_passed m \<and> list_all (\<lambda>(_, a). ca_passed a) segments)\<rparr>)))"

definition live_window :: "control_tables \<Rightarrow> ident \<Rightarrow> instant \<Rightarrow> instant \<Rightarrow> live_observation list" where
  "live_window ct i since until =
     sort_key (\<lambda>r. (lo_created_at r, lo_interaction_id r))
       (filter (\<lambda>r. lo_policy_id r = i \<and> lo_created_at r \<ge> since \<and> lo_created_at r \<le> until) (ct_live ct))"

definition canary_report_of ::
    "'k control_env \<Rightarrow> control_draws \<Rightarrow> ident \<Rightarrow> instant option \<Rightarrow> identity \<Rightarrow> (control_tables, canary_report) work" where
  "canary_report_of kx kd i since identity =
     then_do (get_policy kx i identity) (\<lambda>p.
     case since of
       None \<Rightarrow> lift_result (Inl (GatewayError 422 ''utc_since_required''))
     | Some t \<Rightarrow>
         then_do (reading (\<lambda>ct. ct)) (\<lambda>ct.
         let until = kd_now kd 0; limits = po_rollback p;
             rows = filter (\<lambda>r. lo_tenant_id r \<in> set (id_dataset_tenants identity)) (live_window ct i t until);
             keys = sorted_set (concat (map (labels_of kx) rows))
         in lift_result (
           bindE (live_aggregate (kx_choices kx) rows limits) (\<lambda>overall.
           bindE (segment_aggregates kx limits keys rows) (\<lambda>segments.
           bindE (each_result (specialist_measurement kx limits keys rows) (po_eligible_specialist_versions p)) (\<lambda>specialists.
           Inr \<lparr>cr_policy_id = i, cr_since = t, cr_until = until, cr_overall = overall,
                cr_critical_segments = segments, cr_specialists = specialists,
                cr_passed = (ca_passed overall \<and> segments \<noteq> [] \<and> list_all (\<lambda>(_, a). ca_passed a) segments)\<rparr>))))))"

section \<open>The gate of the registry\<close>

definition active_policy :: "'k control_env \<Rightarrow> control_tables \<Rightarrow> (active_row \<times> route_policy) option" where
  "active_policy kx ct =
     (case pointer kx ct of
        None \<Rightarrow> None
      | Some r \<Rightarrow> (case ac_policy_id r of None \<Rightarrow> None
          | Some i \<Rightarrow> map_option (\<lambda>q. (r, pw_data q)) (policy_at ct i)))"

definition shadow_comparisons_of :: "control_tables \<Rightarrow> ident \<Rightarrow> ident \<Rightarrow> shadow_comparison list" where
  "shadow_comparisons_of ct i version =
     map snd (filter (\<lambda>(interaction, c). sh_specialist_version c = version \<and>
       list_ex (\<lambda>q. ov_interaction_id q = interaction \<and> ov_policy_id q = i) (ct_observations ct)) (ct_comparisons ct))"

definition shadow_gate :: "choices \<Rightarrow> route_policy \<Rightarrow> shadow_comparison list \<Rightarrow> unit result" where
  "shadow_gate choices p comparisons =
     bindE (shadow_aggregate_of choices comparisons (length comparisons)) (\<lambda>measured.
     bindE (each_result (\<lambda>label. shadow_aggregate_of choices (with_label label comparisons)
         (length (with_label label comparisons))) (dedup (concat (map sh_segments comparisons)))) (\<lambda>parts.
     guardE (shadow_passed measured p \<and> list_all (\<lambda>a. shadow_passed a p) parts)
       (GatewayError 409 ''passed_shadow_report_required'')))"

definition progression_gate ::
    "'k control_env \<Rightarrow> control_draws \<Rightarrow> model_manifest \<Rightarrow> promotion_request \<Rightarrow> identity \<Rightarrow> (control_tables, unit) work" where
  "progression_gate kx kd model request identity =
     (if pq_target_state request \<notin> {Canary, Production} then pass ()
      else if mm_adapter_architecture model = router_architecture then pass ()
      else then_do (reading (active_policy kx)) (\<lambda>found.
        case found of
          None \<Rightarrow> lift_result (Inl (GatewayError 409 ''active_route_policy_required''))
        | Some (r, p) \<Rightarrow>
            then_do (require (mm_version model \<in> set (po_eligible_specialist_versions p) \<and> \<not> ac_kill_switch r \<and>
                \<not> po_kill_switch p \<and> mm_version model \<notin> set (ac_disabled_specialists r))
              (GatewayError 409 ''deployment_disabled_or_unconfigured'')) (\<lambda>_.
            if pq_target_state request = Canary
            then then_do (require (cc_traffic_fraction (po_canary p) \<le> 5 / 100 \<and> po_live_specialists_allowed p)
                (GatewayError 409 ''live_canary_policy_required'')) (\<lambda>_.
              then_do (reading (\<lambda>ct. shadow_comparisons_of ct (po_policy_id p) (mm_version model))) (\<lambda>comparisons.
              lift_result (shadow_gate (kx_choices kx) p comparisons)))
            else then_do (canary_report_of kx kd (po_policy_id p)
                (Some (kd_now kd 1 - seconds (rb_window_seconds (po_rollback p)))) identity) (\<lambda>report.
              case map_of (cr_specialists report) (mm_version model) of
                None \<Rightarrow> lift_result (Inl OtherException)
              | Some m \<Rightarrow> require (cr_passed report \<and> ca_passed m) (GatewayError 409 ''passed_canary_report_required'')))))"

section \<open>Automatic rollback\<close>

definition rollback_note :: "canary_aggregate \<Rightarrow> ident \<Rightarrow> route_control_note" where
  "rollback_note m version =
     \<lparr>rn_reason = ''automatic_rollback:'' @ join '','' (ca_breach_reasons m), rn_tenant_id = None, rn_task = None,
      rn_specialist_version = Some version\<rparr>"

definition disable_in_tables ::
    "'k control_env \<Rightarrow> registry_reader \<Rightarrow> control_draws \<Rightarrow> route_policy \<Rightarrow> ident \<Rightarrow> canary_aggregate \<Rightarrow> identity \<Rightarrow>
     (control_tables, bool) work" where
  "disable_in_tables kx registry kd p version m identity =
     then_do (reading (pointer kx)) (\<lambda>found.
     case found of
       None \<Rightarrow> pass False
     | Some r \<Rightarrow>
         if ac_policy_id r \<noteq> Some (po_policy_id p) \<or> version \<in> set (ac_disabled_specialists r) then pass False
         else then_do (lift_result (registry version identity)) (\<lambda>model.
           if mm_state model \<notin> {Canary, Production} then pass False
           else then_do (set_pointer kx (\<lambda>r. r\<lparr>ac_disabled_specialists := sorted_set (version # ac_disabled_specialists r)\<rparr>)) (\<lambda>_.
             then_do (writing (\<lambda>ct. ct\<lparr>ct_rollbacks := ct_rollbacks ct @
               [\<lparr>rk_measurement_id = kd_uid kd (length (kx_tenants kx) + 2), rk_environment = kx_environment kx,
                 rk_policy_id = po_policy_id p, rk_specialist_version = version, rk_created_at = kd_now kd (length (kx_tenants kx) + 2),
                 rk_data = m\<rparr>]\<rparr>)) (\<lambda>_.
             then_do (audit kx kd identity (rollback_note m version) (Some (po_policy_id p)) ''automatic_disable'' DeploymentDisabled) (\<lambda>_.
             pass True)))))"

definition automatic_disable ::
    "'k control_env \<Rightarrow> registry_reader \<Rightarrow> control_draws \<Rightarrow> route_policy \<Rightarrow> ident \<Rightarrow> canary_aggregate \<Rightarrow> identity \<Rightarrow>
     (control_state, unit) work" where
  "automatic_disable kx registry kd p version m identity =
     (if ca_breach_reasons m = [] then pass ()
      else then_do (in_tables (atomic (disable_in_tables kx registry kd p version m identity))) (\<lambda>acted.
        if acted then invalidate else pass ()))"

section \<open>The monitor\<close>

definition disable_breached ::
    "'k control_env \<Rightarrow> registry_reader \<Rightarrow> (ident \<Rightarrow> control_draws) \<Rightarrow> route_policy \<Rightarrow> ident list \<Rightarrow> identity \<Rightarrow>
     ident \<times> canary_aggregate \<Rightarrow> (control_state, unit) work" where
  "disable_breached kx registry draws p disabled identity vm =
     (case vm of (version, m) \<Rightarrow>
        if version \<notin> set disabled \<and> ca_breach_reasons m \<noteq> []
        then automatic_disable kx registry (draws version) p version m identity else pass ())"

definition work_once ::
    "'k control_env \<Rightarrow> registry_reader \<Rightarrow> control_draws \<Rightarrow> (ident \<Rightarrow> control_draws) \<Rightarrow> identity \<Rightarrow>
     (control_state, unit) work" where
  "work_once kx registry kd draws identity =
     then_do (snapshot kx kd) (\<lambda>s.
     case sn_policy s of
       None \<Rightarrow> pass ()
     | Some p \<Rightarrow>
         if \<not> po_live_specialists_allowed p \<or> sn_killed s then pass ()
         else then_do (in_tables (canary_report_of kx kd (po_policy_id p)
             (Some (kd_now kd 1 - seconds (rb_window_seconds (po_rollback p)))) identity)) (\<lambda>report.
           each_work (disable_breached kx registry draws p (sn_disabled_specialists s) identity) (cr_specialists report)))"

end
