(* ===== verification/Control_Laws.thy ===== *)
theory Control_Laws
  imports Control_Reports
begin

text \<open>
  What the route control guarantees over any sequence of its operations: the snapshot a process
  reads is that of the tables, what was switched off stays off until it is switched on again, a
  breached specialist is disabled, every change of the pointer is audited, and the gate of the
  registry lets only measured models through.
\<close>

section \<open>Runs\<close>

datatype control_event =
    CreateEvent registry_reader control_draws route_policy identity
  | ActivateEvent registry_reader control_draws ident identity route_control_note
  | SwitchEvent control_draws bool identity route_control_note
  | SnapshotEvent control_draws
  | ObserveEvent control_draws ident string string "string list"
  | CompareEvent shadow_comparison
  | LiveEvent live_observation
  | DisableEvent registry_reader control_draws route_policy ident canary_aggregate identity

fun control_apply :: "'k control_env \<Rightarrow> control_event \<Rightarrow> control_state \<Rightarrow> control_state" where
  "control_apply kx (CreateEvent registry kd p identity) st = snd (create_policy kx registry kd p identity st)"
| "control_apply kx (ActivateEvent registry kd i identity note) st = snd (activate kx registry kd i identity note st)"
| "control_apply kx (SwitchEvent kd disabled identity note) st = snd (switch kx kd disabled identity note st)"
| "control_apply kx (SnapshotEvent kd) st = snd (snapshot kx kd st)"
| "control_apply kx (ObserveEvent kd i interaction tenant segments) st = snd (observe kd i interaction tenant segments st)"
| "control_apply kx (CompareEvent c) st = snd (compare c st)"
| "control_apply kx (LiveEvent r) st = snd (record_live r st)"
| "control_apply kx (DisableEvent registry kd p version m identity) st =
     snd (automatic_disable kx registry kd p version m identity st)"

definition control_run :: "'k control_env \<Rightarrow> control_event list \<Rightarrow> control_state \<Rightarrow> control_state" where
  "control_run kx es st = fold (control_apply kx) es st"

fun enabling :: "control_event \<Rightarrow> bool" where
  "enabling (SwitchEvent kd disabled identity note) = (\<not> disabled)"
| "enabling _ = False"

text \<open>The monotonic clock is never negative.\<close>

definition timed :: "control_draws \<Rightarrow> bool" where
  "timed kd \<longleftrightarrow> (\<forall>n. 0 \<le> kd_clock kd n)"

section \<open>Soundness of the pointer\<close>

definition pointer_sound :: "'k control_env \<Rightarrow> control_tables \<Rightarrow> bool" where
  "pointer_sound kx ct \<longleftrightarrow>
     (\<forall>r i. pointer kx ct = Some r \<longrightarrow> ac_policy_id r = Some i \<longrightarrow> policy_at ct i \<noteq> None)"

definition coherent :: "'k control_env \<Rightarrow> control_state \<Rightarrow> bool" where
  "coherent kx st \<longleftrightarrow> pointer_sound kx (kt_tables st) \<and>
     (0 < kt_expires st \<longrightarrow> kt_cached st = current_snapshot kx (kt_tables st))"

lemma keeps_in_tables:
  assumes "keeps P m"
  shows "keeps (\<lambda>st. P (kt_tables st)) (in_tables m)"
  using assms by (auto simp: keeps_def in_tables_def split: prod.splits)

lemma keeps_atomicI:
  assumes "\<And>s x s'. P s \<Longrightarrow> m s = (Inr x, s') \<Longrightarrow> P s'"
  shows "keeps P (atomic m)"
  using assms by (auto simp: keeps_def atomic_def split: prod.splits sum.splits)

lemma in_tables_Inr: "in_tables m st = (Inr x, st') \<longleftrightarrow> (\<exists>ct. m (kt_tables st) = (Inr x, ct) \<and> st' = st\<lparr>kt_tables := ct\<rparr>)"
  by (auto simp: in_tables_def split: prod.splits)

lemma in_tables_atomic_Inl: "in_tables (atomic m) st = (Inl e, st') \<Longrightarrow> st' = st"
  by (auto simp: in_tables_def dest: atomic_Inl split: prod.splits)

text \<open>Work that leaves the pointer and its policy alone.\<close>

definition same_view :: "'k control_env \<Rightarrow> control_tables \<Rightarrow> control_tables \<Rightarrow> bool" where
  "same_view kx ct ct' \<longleftrightarrow> pointer kx ct' = pointer kx ct \<and> (\<forall>i q. policy_at ct i = Some q \<longrightarrow> policy_at ct' i = Some q)"

lemma same_view_refl [simp]: "same_view kx ct ct"
  by (simp add: same_view_def)

lemma same_view_trans: "same_view kx a b \<Longrightarrow> same_view kx b c \<Longrightarrow> same_view kx a c"
  by (auto simp: same_view_def)

lemma same_view_sound:
  assumes "pointer_sound kx ct" and "same_view kx ct ct'"
  shows "pointer_sound kx ct'" and "current_snapshot kx ct' = current_snapshot kx ct"
proof -
  show "pointer_sound kx ct'"
    using assms by (auto simp: pointer_sound_def same_view_def) 
  show "current_snapshot kx ct' = current_snapshot kx ct"
  proof (cases "pointer kx ct")
    case (Some r)
    have "map_option pw_data (policy_at ct' i) = map_option pw_data (policy_at ct i)" if "ac_policy_id r = Some i" for i
      using assms Some that by (auto simp: pointer_sound_def same_view_def)
    then show ?thesis using assms Some by (auto simp: current_snapshot_def same_view_def split: option.splits)
  qed (use assms in \<open>simp add: current_snapshot_def same_view_def\<close>)
qed

lemma coherent_view:
  assumes "coherent kx st" and "same_view kx (kt_tables st) ct"
  shows "coherent kx (st\<lparr>kt_tables := ct\<rparr>)"
  using assms same_view_sound [of kx "kt_tables st" ct] by (auto simp: coherent_def)

lemma keeps_viewed:
  assumes "\<And>ct x ct'. m ct = (Inr x, ct') \<Longrightarrow> same_view kx ct ct'"
  shows "keeps (coherent kx) (in_tables (atomic m))"
  unfolding keeps_def
proof (intro allI impI)
  fix st
  assume h: "coherent kx st"
  show "coherent kx (snd (in_tables (atomic m) st))"
  proof (cases "m (kt_tables st)")
    case (Pair r ct)
    show ?thesis
    proof (cases r)
      case (Inl e)
      then show ?thesis using h Pair by (simp add: in_tables_def atomic_def)
    next
      case (Inr x)
      then have "same_view kx (kt_tables st) ct" using assms Pair by blast
      then show ?thesis using coherent_view [OF h] Pair Inr by (simp add: in_tables_def atomic_def)
    qed
  qed
qed

text \<open>Work that changes the pointer and then invalidates the cache.\<close>

lemma keeps_changed:
  assumes "\<And>ct x ct'. pointer_sound kx ct \<Longrightarrow> m ct = (Inr x, ct') \<Longrightarrow> pointer_sound kx ct'"
    and "\<And>x. keeps (coherent kx) (f x)"
  shows "keeps (coherent kx) (then_do (in_tables (atomic m)) (\<lambda>x. then_do invalidate (\<lambda>_. f x)))"
  unfolding keeps_def
proof (intro allI impI)
  fix st
  assume h: "coherent kx st"
  let ?w = "then_do (in_tables (atomic m)) (\<lambda>x. then_do invalidate (\<lambda>_. f x))"
  show "coherent kx (snd (?w st))"
  proof (cases "m (kt_tables st)")
    case (Pair r ct)
    show ?thesis
    proof (cases r)
      case (Inl e)
      then show ?thesis using h Pair by (simp add: then_do_def in_tables_def atomic_def)
    next
      case (Inr x)
      have "coherent kx (st\<lparr>kt_tables := ct, kt_expires := 0\<rparr>)"
        using h assms(1) Pair Inr by (auto simp: coherent_def)
      then have "coherent kx (snd (f x (st\<lparr>kt_tables := ct, kt_expires := 0\<rparr>)))"
        using assms(2) by (auto simp: keeps_def)
      then show ?thesis using Pair Inr by (simp add: then_do_def in_tables_def atomic_def invalidate_def)
    qed
  qed
qed

lemma pointer_map:
  "map_of (map (\<lambda>(e, r). (e, if e = k then f r else r)) xs) k = map_option f (map_of xs k)"
  by (induction xs) auto

lemma pointer_simps:
  "pointer kx (ct\<lparr>ct_active := map (\<lambda>(e, r). (e, if e = kx_environment kx then f r else r)) (ct_active ct)\<rparr>) =
     map_option f (pointer kx ct)"
  "pointer kx (ct\<lparr>ct_history := h\<rparr>) = pointer kx ct" "pointer kx (ct\<lparr>ct_outbox := q\<rparr>) = pointer kx ct"
  "pointer kx (ct\<lparr>ct_rollbacks := b\<rparr>) = pointer kx ct" "pointer kx (ct\<lparr>ct_policies := ps\<rparr>) = pointer kx ct"
  "pointer kx (ct\<lparr>ct_observations := obs\<rparr>) = pointer kx ct" "pointer kx (ct\<lparr>ct_live := lv\<rparr>) = pointer kx ct"
  "pointer kx (ct\<lparr>ct_comparisons := cs\<rparr>) = pointer kx ct"
  "policy_at (ct\<lparr>ct_active := a\<rparr>) i = policy_at ct i" "policy_at (ct\<lparr>ct_history := h\<rparr>) i = policy_at ct i"
  "policy_at (ct\<lparr>ct_outbox := q\<rparr>) i = policy_at ct i" "policy_at (ct\<lparr>ct_rollbacks := b\<rparr>) i = policy_at ct i"
  "policy_at (ct\<lparr>ct_observations := obs\<rparr>) i = policy_at ct i" "policy_at (ct\<lparr>ct_live := lv\<rparr>) i = policy_at ct i"
  "policy_at (ct\<lparr>ct_comparisons := cs\<rparr>) i = policy_at ct i"
  by (simp_all add: pointer_def policy_at_def pointer_map)

definition ensured :: "'k control_env \<Rightarrow> control_tables \<Rightarrow> active_row" where
  "ensured kx ct = (case pointer kx ct of None \<Rightarrow> new_pointer | Some r \<Rightarrow> r)"

lemma ensure_pointer_Inr:
  assumes "ensure_pointer kx ct = (Inr u, ct')"
  shows "pointer kx ct' = Some (ensured kx ct)" "policy_at ct' i = policy_at ct i"
    "ct_history ct' = ct_history ct" "ct_outbox ct' = ct_outbox ct"
proof -
  have "ct' = ct\<lparr>ct_active := (if map_of (ct_active ct) (kx_environment kx) = None
      then ct_active ct @ [(kx_environment kx, new_pointer)] else ct_active ct)\<rparr>"
    using assms by (simp add: ensure_pointer_def work_simps)
  then show "pointer kx ct' = Some (ensured kx ct)" "policy_at ct' i = policy_at ct i"
    "ct_history ct' = ct_history ct" "ct_outbox ct' = ct_outbox ct"
    by (auto simp: pointer_def ensured_def policy_at_def map_add_def split: option.splits)
qed

lemma set_pointer_Inr:
  assumes "set_pointer kx f ct = (Inr u, ct')"
  shows "pointer kx ct' = map_option f (pointer kx ct)" "policy_at ct' i = policy_at ct i"
    "ct_history ct' = ct_history ct" "ct_outbox ct' = ct_outbox ct"
  using assms by (auto simp: set_pointer_def work_simps pointer_simps)

lemma set_pointer_view:
  "set_pointer kx f ct = (Inr u, ct') \<Longrightarrow>
   pointer kx ct' = map_option f (pointer kx ct) \<and> (\<forall>i. policy_at ct' i = policy_at ct i)"
  using set_pointer_Inr by blast

lemma audit_events_tenants: "map en_tenant_id (audit_events kx kd note i new_state actor) = audited_tenants kx note"
  by (simp add: audit_events_def deployment_event_def comp_def case_prod_beta)

lemma audit_Inr:
  assumes "audit kx kd identity note i action new_state ct = (Inr u, ct')"
  obtains actor where "id_subject identity = Some actor" "pointer kx ct' = pointer kx ct"
    "\<And>j. policy_at ct' j = policy_at ct j" "ct_history ct' = ct_history ct @ [audit_row kx kd actor note i action]"
    "ct_outbox ct' = fst (enqueue_loop (\<lambda>e. e) 100000 (audit_events kx kd note i new_state actor) (ct_outbox ct)
       (length (pending_rows (ct_outbox ct))) 0)"
proof -
  obtain actor where actor: "id_subject identity = Some actor"
    using assms by (auto simp: audit_def split: option.splits)
  show ?thesis
    by (rule that [OF actor]) (use assms actor in \<open>auto simp: audit_def put_events_def work_simps pointer_simps\<close>)
qed

section \<open>Every operation is coherent\<close>

lemma keeps_snapshot: "keeps (coherent kx) (snapshot kx kd)"
  by (auto simp: keeps_def snapshot_def coherent_def Let_def)

lemma view_policies:
  assumes "policy_at ct (pw_policy_id q) = None"
  shows "same_view kx ct (ct\<lparr>ct_policies := ct_policies ct @ [q]\<rparr>)"
  using assms by (auto simp: same_view_def pointer_simps policy_at_def find_append)

lemma keeps_create: "keeps (coherent kx) (create_policy kx registry kd p identity)"
  unfolding create_policy_def
  by (rule keeps_viewed) (auto simp: work_simps intro!: view_policies)

lemma view_intros:
  "same_view kx ct (ct\<lparr>ct_observations := obs\<rparr>)" "same_view kx ct (ct\<lparr>ct_live := lv\<rparr>)"
  "same_view kx ct (ct\<lparr>ct_comparisons := cs, ct_live := lv\<rparr>)"
  by (simp_all add: same_view_def pointer_simps)

lemma keeps_observations:
  "keeps (coherent kx) (observe kd i interaction tenant segments)" "keeps (coherent kx) (compare c)"
  "keeps (coherent kx) (record_live r)"
  unfolding observe_def compare_def record_live_def
  by (rule keeps_viewed; auto simp: work_simps view_intros split: if_splits)+

lemma get_policy_Inr:
  assumes "get_policy kx i identity ct = (Inr p, ct')"
  shows "ct' = ct" "\<exists>q. policy_at ct i = Some q \<and> p = pw_data q \<and> set (pw_tenant_ids q) \<subseteq> set (id_dataset_tenants identity)"
  using assms by (auto simp: get_policy_def work_simps split: option.splits if_splits)

lemma activate_tables:
  assumes "activate_in_tables kx registry kd i identity note ct = (Inr p, ct')"
  shows "pointer kx ct' = Some ((ensured kx ct)\<lparr>ac_policy_id := Some i\<rparr>)" "policy_at ct' j = policy_at ct j"
    "\<exists>q. policy_at ct i = Some q \<and> p = pw_data q" "validate_policy kx registry p identity = Inr ()"
    "\<exists>actor. id_subject identity = Some actor \<and>
       ct_history ct' = ct_history ct @ [audit_row kx kd actor note (Some i) ''activate''] \<and>
       ct_outbox ct' = fst (enqueue_loop (\<lambda>e. e) 100000 (audit_events kx kd note (Some i) DeploymentActive actor)
         (ct_outbox ct) (length (pending_rows (ct_outbox ct))) 0)"
proof -
  obtain ct1 ct2 where a: "get_policy kx i identity ct = (Inr p, ct)" "validate_policy kx registry p identity = Inr ()"
      "ensure_pointer kx ct = (Inr (), ct1)" "set_pointer kx (\<lambda>r. r\<lparr>ac_policy_id := Some i\<rparr>) ct1 = (Inr (), ct2)"
      "audit kx kd identity note (Some i) ''activate'' DeploymentActive ct2 = (Inr (), ct')"
    using assms by (auto simp: activate_in_tables_def work_simps dest: get_policy_Inr(1))
  note e = ensure_pointer_Inr [OF a(3)] and s = set_pointer_Inr [OF a(4)]
  obtain actor where u: "id_subject identity = Some actor" "pointer kx ct' = pointer kx ct2"
      "\<And>j. policy_at ct' j = policy_at ct2 j"
      "ct_history ct' = ct_history ct2 @ [audit_row kx kd actor note (Some i) ''activate'']"
      "ct_outbox ct' = fst (enqueue_loop (\<lambda>e. e) 100000 (audit_events kx kd note (Some i) DeploymentActive actor)
         (ct_outbox ct2) (length (pending_rows (ct_outbox ct2))) 0)"
    by (rule audit_Inr [OF a(5)]) (rule that)
  show "pointer kx ct' = Some ((ensured kx ct)\<lparr>ac_policy_id := Some i\<rparr>)" "policy_at ct' j = policy_at ct j"
    using e s u by simp_all
  show "\<exists>q. policy_at ct i = Some q \<and> p = pw_data q" using get_policy_Inr(2) [OF a(1)] by auto
  show "validate_policy kx registry p identity = Inr ()" by (rule a(2))
  show "\<exists>actor. id_subject identity = Some actor \<and>
       ct_history ct' = ct_history ct @ [audit_row kx kd actor note (Some i) ''activate''] \<and>
       ct_outbox ct' = fst (enqueue_loop (\<lambda>e. e) 100000 (audit_events kx kd note (Some i) DeploymentActive actor)
         (ct_outbox ct) (length (pending_rows (ct_outbox ct))) 0)"
    using e(3,4) s(3,4) u(1,4,5) by simp
qed

lemma keeps_activate: "keeps (coherent kx) (activate kx registry kd i identity note)"
  unfolding activate_def
  by (intro keeps_rules keeps_changed) (auto simp: pointer_sound_def activate_tables(1,2) dest: activate_tables(3))

lemma switch_scope_Inr:
  assumes "switch_scope kx disabled note r ct = (Inr u, ct')"
  shows "pointer kx ct' = map_option (\<lambda>q. if scoped note
      then set_disablements note (changed disabled (note_scope note []) (disablements note r)) q
      else q\<lparr>ac_kill_switch := disabled\<rparr>) (pointer kx ct)"
    "policy_at ct' i = policy_at ct i" "ct_history ct' = ct_history ct" "ct_outbox ct' = ct_outbox ct"
  using assms set_pointer_Inr
  by (auto simp: switch_scope_def Let_def work_simps split: if_splits)

text \<open>What a switch makes of the pointer.\<close>

definition switched :: "bool \<Rightarrow> route_control_note \<Rightarrow> active_row \<Rightarrow> active_row" where
  "switched disabled note r =
     (if scoped note then set_disablements note (changed disabled (note_scope note []) (disablements note r)) r
      else r\<lparr>ac_kill_switch := disabled\<rparr>)"

lemma switch_tables:
  assumes "switch_in_tables kx kd disabled identity note ct = (Inr u, ct')"
  shows "pointer kx ct' = Some (switched disabled note (ensured kx ct))" "policy_at ct' j = policy_at ct j"
    "\<exists>actor. id_subject identity = Some actor \<and> ct_history ct' = ct_history ct @
       [audit_row kx kd actor note (ac_policy_id (ensured kx ct)) (if disabled then ''disable'' else ''enable'')]"
proof -
  obtain ct1 ct2 r where a: "ensure_pointer kx ct = (Inr (), ct1)" "pointer kx ct1 = Some r"
      "switch_scope kx disabled note r ct1 = (Inr (), ct2)"
      "audit kx kd identity note (ac_policy_id r) (if disabled then ''disable'' else ''enable'')
        (if disabled then DeploymentDisabled else DeploymentEnabled) ct2 = (Inr (), ct')"
    using assms by (auto simp: switch_in_tables_def work_simps split: option.splits)
  note e = ensure_pointer_Inr [OF a(1)] and s = switch_scope_Inr [OF a(3)]
  obtain actor where u: "id_subject identity = Some actor" "pointer kx ct' = pointer kx ct2"
      "\<And>j. policy_at ct' j = policy_at ct2 j" "ct_history ct' = ct_history ct2 @
        [audit_row kx kd actor note (ac_policy_id r) (if disabled then ''disable'' else ''enable'')]"
    by (rule audit_Inr [OF a(4)]) (rule that)
  have r: "r = ensured kx ct" using e(1) a(2) by simp
  show "pointer kx ct' = Some (switched disabled note (ensured kx ct))" "policy_at ct' j = policy_at ct j"
    using e s u r by (simp_all add: switched_def)
  show "\<exists>actor. id_subject identity = Some actor \<and> ct_history ct' = ct_history ct @
       [audit_row kx kd actor note (ac_policy_id (ensured kx ct)) (if disabled then ''disable'' else ''enable'')]"
    using e(3) s(3) u(1,4) r by simp
qed

lemma switched_policy [simp]: "ac_policy_id (switched disabled note r) = ac_policy_id r"
  by (simp add: switched_def set_disablements_def)

lemma ensured_policy: "pointer_sound kx ct \<Longrightarrow> ac_policy_id (ensured kx ct) = Some i \<Longrightarrow> policy_at ct i \<noteq> None"
  by (auto simp: ensured_def pointer_sound_def new_pointer_def split: option.splits)

lemma keeps_switch: "keeps (coherent kx) (switch kx kd disabled identity note)"
proof -
  have "keeps (coherent kx) (then_do (in_tables (atomic (switch_in_tables kx kd disabled identity note)))
      (\<lambda>_. then_do invalidate (\<lambda>_. snapshot kx kd)))"
  proof (rule keeps_changed)
    fix ct u ct'
    assume sound: "pointer_sound kx ct" and run: "switch_in_tables kx kd disabled identity note ct = (Inr u, ct')"
    show "pointer_sound kx ct'"
      unfolding pointer_sound_def switch_tables(1,2) [OF run] using ensured_policy [OF sound] by simp
  qed (rule keeps_snapshot)
  then show ?thesis
    unfolding switch_def by (rule keeps_then_do [OF keeps_intros(2) keeps_then_do [OF keeps_intros(3)]])
qed

lemma disable_tables:
  assumes "disable_in_tables kx registry kd p version m identity ct = (Inr acted, ct')"
  shows "acted \<Longrightarrow> \<exists>r. pointer kx ct = Some r \<and> ac_policy_id r = Some (po_policy_id p) \<and>
      pointer kx ct' = Some (r\<lparr>ac_disabled_specialists := sorted_set (version # ac_disabled_specialists r)\<rparr>)"
    "\<not> acted \<Longrightarrow> ct' = ct" "policy_at ct' j = policy_at ct j"
proof -
  have "if acted then (\<exists>r. pointer kx ct = Some r \<and> ac_policy_id r = Some (po_policy_id p) \<and>
      pointer kx ct' = Some (r\<lparr>ac_disabled_specialists := sorted_set (version # ac_disabled_specialists r)\<rparr>)) \<and>
      policy_at ct' j = policy_at ct j else ct' = ct"
    using assms
    by (auto simp: disable_in_tables_def work_simps pointer_simps split: option.splits if_splits
        elim!: audit_Inr dest!: set_pointer_view)
  then show "acted \<Longrightarrow> \<exists>r. pointer kx ct = Some r \<and> ac_policy_id r = Some (po_policy_id p) \<and>
      pointer kx ct' = Some (r\<lparr>ac_disabled_specialists := sorted_set (version # ac_disabled_specialists r)\<rparr>)"
    "\<not> acted \<Longrightarrow> ct' = ct" "policy_at ct' j = policy_at ct j"
    by (simp_all split: if_splits)
qed

lemma keeps_disable: "keeps (coherent kx) (automatic_disable kx registry kd p version m identity)"
  unfolding keeps_def
proof (intro allI impI)
  fix st
  assume h: "coherent kx st"
  show "coherent kx (snd (automatic_disable kx registry kd p version m identity st))"
  proof (cases "disable_in_tables kx registry kd p version m identity (kt_tables st)")
    case (Pair r ct)
    show ?thesis
    proof (cases r)
      case (Inl e)
      then show ?thesis using h Pair by (simp add: automatic_disable_def then_do_def in_tables_def atomic_def)
    next
      case (Inr acted)
      note t = disable_tables [OF Pair [unfolded Inr]]
      have "coherent kx (if acted then st\<lparr>kt_tables := ct, kt_expires := 0\<rparr> else st\<lparr>kt_tables := ct\<rparr>)"
      proof (cases acted)
        case True
        then show ?thesis using t(1,3) h by (auto simp: coherent_def pointer_sound_def)
      qed (use t(2) h in simp)
      then show ?thesis using h Pair Inr
        by (simp add: automatic_disable_def then_do_def in_tables_def atomic_def invalidate_def split: if_splits)
    qed
  qed
qed

lemma apply_coherent: "coherent kx st \<Longrightarrow> coherent kx (control_apply kx e st)"
  by (cases e)
    (simp_all add: keepsD [OF keeps_create] keepsD [OF keeps_activate] keepsD [OF keeps_switch] keepsD [OF keeps_snapshot]
      keepsD [OF keeps_observations(1)] keepsD [OF keeps_observations(2)] keepsD [OF keeps_observations(3)]
      keepsD [OF keeps_disable])

lemma run_coherent: "coherent kx st \<Longrightarrow> coherent kx (control_run kx es st)"
  unfolding control_run_def by (induction es arbitrary: st) (auto simp: apply_coherent)

lemma new_coherent: "pointer_sound kx ct \<Longrightarrow> coherent kx (control_new ct)"
  by (simp add: coherent_def control_new_def)

lemma coherent_snapshot:
  assumes "coherent kx st" and "timed kd" and "snapshot kx kd st = (Inr s, st')"
  shows "s = current_snapshot kx (kt_tables st)" and "kt_tables st' = kt_tables st"
proof -
  have "0 \<le> kd_clock kd 0" using assms(2) by (simp add: timed_def)
  then show "s = current_snapshot kx (kt_tables st)" "kt_tables st' = kt_tables st"
    using assms(1,3) by (auto simp: snapshot_def coherent_def Let_def split: if_splits)
qed

section \<open>What is switched off stays off\<close>

definition off :: "'k control_env \<Rightarrow> route_control_note \<Rightarrow> control_tables \<Rightarrow> bool" where
  "off kx note ct \<longleftrightarrow> (case pointer kx ct of None \<Rightarrow> False
     | Some r \<Rightarrow> if scoped note then note_scope note [] \<in> set (disablements note r) else ac_kill_switch r)"

lemma off_pointer: "pointer kx ct' = pointer kx ct \<Longrightarrow> off kx note ct' = off kx note ct"
  by (simp add: off_def)

lemma off_switched: "off kx note ct \<Longrightarrow> pointer kx ct' = Some (switched True note' (ensured kx ct)) \<Longrightarrow> off kx note ct'"
  by (auto simp: off_def ensured_def switched_def set_disablements_def disablements_def changed_def scoped_def
      split: option.splits if_splits)

lemma switched_off: "pointer kx ct' = Some (switched True note r) \<Longrightarrow> off kx note ct'"
  by (auto simp: off_def switched_def set_disablements_def disablements_def changed_def)

lemma keeps_off_viewed:
  assumes "\<And>ct x ct'. m ct = (Inr x, ct') \<Longrightarrow> same_view kx ct ct'"
  shows "keeps (\<lambda>st. off kx note (kt_tables st)) (in_tables (atomic m))"
  by (rule keeps_in_tables, rule keeps_atomicI) (metis assms off_pointer same_view_def)

lemma keeps_off_rest:
  "keeps (\<lambda>st. off kx note (kt_tables st)) invalidate" "keeps (\<lambda>st. off kx note (kt_tables st)) (snapshot kx kd)"
  by (simp_all add: keeps_def invalidate_def snapshot_def Let_def)

lemma keeps_off_create: "keeps (\<lambda>st. off kx note (kt_tables st)) (create_policy kx registry kd p identity)"
  unfolding create_policy_def
  by (rule keeps_off_viewed) (auto simp: work_simps intro!: view_policies)

lemma keeps_off_observations:
  "keeps (\<lambda>st. off kx note (kt_tables st)) (observe kd i interaction tenant segments)"
  "keeps (\<lambda>st. off kx note (kt_tables st)) (compare c)" "keeps (\<lambda>st. off kx note (kt_tables st)) (record_live r)"
  unfolding observe_def compare_def record_live_def
  by (rule keeps_off_viewed; auto simp: work_simps view_intros split: if_splits)+

lemma off_activated:
  "off kx note ct \<Longrightarrow> pointer kx ct' = Some ((ensured kx ct)\<lparr>ac_policy_id := i\<rparr>) \<Longrightarrow> off kx note ct'"
  by (auto simp: off_def ensured_def disablements_def split: option.splits)

lemma keeps_off_activate: "keeps (\<lambda>st. off kx note (kt_tables st)) (activate kx registry kd i identity note')"
proof -
  have "keeps (\<lambda>st. off kx note (kt_tables st)) (in_tables (atomic (activate_in_tables kx registry kd i identity note')))"
    by (rule keeps_in_tables, rule keeps_atomicI) (rule off_activated, assumption, rule activate_tables(1))
  then show ?thesis
    unfolding activate_def by (intro keeps_then_do keeps_intros keeps_off_rest)
qed

lemma keeps_off_switch: "keeps (\<lambda>st. off kx note (kt_tables st)) (switch kx kd True identity note')"
proof -
  have "keeps (\<lambda>st. off kx note (kt_tables st)) (in_tables (atomic (switch_in_tables kx kd True identity note')))"
    by (rule keeps_in_tables, rule keeps_atomicI) (rule off_switched, assumption, rule switch_tables(1))
  then show ?thesis
    unfolding switch_def by (intro keeps_then_do keeps_intros keeps_off_rest)
qed

lemma off_disabled:
  "off kx note ct \<Longrightarrow> pointer kx ct = Some r \<Longrightarrow>
   pointer kx ct' = Some (r\<lparr>ac_disabled_specialists := sorted_set (v # ac_disabled_specialists r)\<rparr>) \<Longrightarrow> off kx note ct'"
  by (auto simp: off_def disablements_def split: if_splits)

lemma keeps_off_disable: "keeps (\<lambda>st. off kx note (kt_tables st)) (automatic_disable kx registry kd p version m identity)"
proof -
  have "keeps (\<lambda>st. off kx note (kt_tables st)) (in_tables (atomic (disable_in_tables kx registry kd p version m identity)))"
  proof (rule keeps_in_tables, rule keeps_atomicI)
    fix ct acted ct'
    assume h: "off kx note ct" and run: "disable_in_tables kx registry kd p version m identity ct = (Inr acted, ct')"
    show "off kx note ct'"
      by (cases acted) (use disable_tables(1,2) [OF run] h off_disabled in \<open>blast+\<close>)
  qed
  then show ?thesis
    unfolding automatic_disable_def by (intro keeps_if keeps_then_do keeps_intros keeps_off_rest)
qed

lemma apply_off: "off kx note (kt_tables st) \<Longrightarrow> \<not> enabling e \<Longrightarrow> off kx note (kt_tables (control_apply kx e st))"
  by (cases e)
    (simp_all add: keepsD [OF keeps_off_create] keepsD [OF keeps_off_activate] keepsD [OF keeps_off_switch]
      keepsD [OF keeps_off_rest(2)] keepsD [OF keeps_off_observations(1)] keepsD [OF keeps_off_observations(2)]
      keepsD [OF keeps_off_observations(3)] keepsD [OF keeps_off_disable])

lemma run_off:
  "off kx note (kt_tables st) \<Longrightarrow> \<forall>e \<in> set es. \<not> enabling e \<Longrightarrow> off kx note (kt_tables (control_run kx es st))"
  unfolding control_run_def by (induction es arbitrary: st) (auto simp: apply_off)

text \<open>What a snapshot refuses when a note was switched off.\<close>

definition refuses :: "route_control_note \<Rightarrow> route_snapshot \<Rightarrow> bool" where
  "refuses note s \<longleftrightarrow>
     (case rn_tenant_id note of Some t \<Rightarrow> \<forall>task. \<not> enabled s t task
      | None \<Rightarrow> (case rn_task note of Some k \<Rightarrow> \<forall>tenant. \<not> enabled s tenant k
        | None \<Rightarrow> (case rn_specialist_version note of Some v \<Rightarrow> v \<in> set (sn_disabled_specialists s)
          | None \<Rightarrow> \<forall>tenant task. \<not> enabled s tenant task)))"

lemma valid_identifier_truthy: "valid_identifier i \<Longrightarrow> i \<noteq> []"
  by (auto simp: valid_identifier_def)

lemma note_scope_valid:
  assumes "route_control_note_validate note = Inr note"
  shows "rn_tenant_id note = Some t \<Longrightarrow> note_scope note d = t"
    "rn_tenant_id note = None \<Longrightarrow> rn_task note = Some k \<Longrightarrow> note_scope note d = k"
    "rn_tenant_id note = None \<Longrightarrow> rn_task note = None \<Longrightarrow> rn_specialist_version note = Some v \<Longrightarrow> note_scope note d = v"
proof -
  have f: "route_control_note_fields note"
    using assms by (simp add: route_control_note_validate_def contract_new_Inr_iff)
  show "rn_tenant_id note = Some t \<Longrightarrow> note_scope note d = t"
    "rn_tenant_id note = None \<Longrightarrow> rn_task note = Some k \<Longrightarrow> note_scope note d = k"
    "rn_tenant_id note = None \<Longrightarrow> rn_task note = None \<Longrightarrow> rn_specialist_version note = Some v \<Longrightarrow> note_scope note d = v"
    using f valid_identifier_truthy by (auto simp: note_scope_def route_control_note_fields_def truthy_def)
qed

lemma off_refuses:
  assumes "off kx note ct" and "route_control_note_validate note = Inr note"
  shows "refuses note (current_snapshot kx ct)"
proof -
  obtain r where r: "pointer kx ct = Some r"
    "if scoped note then note_scope note [] \<in> set (disablements note r) else ac_kill_switch r"
    using assms(1) by (auto simp: off_def split: option.splits)
  show ?thesis
    using r note_scope_valid [OF assms(2)]
    by (auto simp: refuses_def current_snapshot_def enabled_def scoped_def disablements_def split: option.splits if_splits)
qed

section \<open>Correctness\<close>

text \<open>A process never serves from a stale pointer of its own. After any sequence of operations of
  the control, failed ones included, the snapshot it hands out is the one the tables hold at that
  moment, although it reads them at most once a second: every change it commits drops its cache.\<close>

theorem snapshot_is_current:
  assumes "pointer_sound kx ct" and "timed kd"
    and "snapshot kx kd (control_run kx es (control_new ct)) = (Inr s, st')"
  shows "s = current_snapshot kx (kt_tables (control_run kx es (control_new ct)))"
  using coherent_snapshot(1) [OF run_coherent [OF new_coherent [OF assms(1)]] assms(2,3)] .

text \<open>C19. What an operator switches off stays off. After a switch with a valid note has returned, no
  snapshot read after any further operations, activations of other policies included, enables the
  tenant, the task or anything at all, or forgets that the specialist is disabled, until a switch
  turns something on again.\<close>

theorem switched_off_stays_off:
  assumes "pointer_sound kx ct" and "route_control_note_validate note = Inr note"
    and "switch kx kd True identity note (control_run kx es (control_new ct)) = (Inr s, st)"
    and "\<forall>e \<in> set es'. \<not> enabling e" and "timed kd'"
    and "snapshot kx kd' (control_run kx es' st) = (Inr s', st')"
  shows "refuses note s'"
proof -
  let ?st0 = "control_run kx es (control_new ct)"
  obtain ct' st1 where run: "switch_in_tables kx kd True identity note (kt_tables ?st0) = (Inr (), ct')"
      "snapshot kx kd st1 = (Inr s, st)" "kt_tables st1 = ct'"
    using assms(3) by (auto simp: switch_def work_simps in_tables_Inr invalidate_def)
  have "off kx note ct'" by (rule switched_off [OF switch_tables(1) [OF run(1)]])
  moreover have "kt_tables st = ct'"
    using run(2,3) by (auto simp: snapshot_def Let_def split: if_splits)
  ultimately have off: "off kx note (kt_tables (control_run kx es' st))"
    using run_off assms(4) by blast
  have "coherent kx ?st0" by (rule run_coherent [OF new_coherent [OF assms(1)]])
  then have "coherent kx (snd (switch kx kd True identity note ?st0))" by (rule keepsD [OF keeps_switch])
  then have "coherent kx (control_run kx es' st)" using run_coherent assms(3) by simp
  from coherent_snapshot(1) [OF this assms(5,6)] show ?thesis
    using off_refuses [OF off assms(2)] by simp
qed

text \<open>C22. A breach takes a specialist out for good. When the measurement of a live specialist of the
  active policy breaches a limit and the automatic rollback returns, no later snapshot offers the
  specialist until an operator enables something again.\<close>

theorem breach_disables_for_good:
  assumes "pointer_sound kx ct" and "st0 = control_run kx es (control_new ct)"
    and "pointer kx (kt_tables st0) = Some r" and "ac_policy_id r = Some (po_policy_id p)"
    and "registry version identity = Inr model" and "mm_state model \<in> {Canary, Production}"
    and "ca_breach_reasons m \<noteq> []"
    and "automatic_disable kx registry kd p version m identity st0 = (Inr (), st)"
    and "\<forall>e \<in> set es'. \<not> enabling e" and "timed kd'"
    and "snapshot kx kd' (control_run kx es' st) = (Inr s, st')"
  shows "version \<in> set (sn_disabled_specialists s)"
proof -
  let ?note = "rollback_note m version"
  obtain acted ct' where run: "disable_in_tables kx registry kd p version m identity (kt_tables st0) = (Inr acted, ct')"
      "kt_tables st = ct'"
    using assms(7,8) by (auto simp: automatic_disable_def work_simps in_tables_Inr invalidate_def split: if_splits)
  have scope: "scoped ?note" "note_scope ?note [] = (if version = [] then [] else version)" "disablements ?note = ac_disabled_specialists"
    by (auto simp: rollback_note_def scoped_def note_scope_def truthy_def disablements_def)
  have "off kx ?note ct'"
  proof (cases acted)
    case True
    then show ?thesis using disable_tables(1) [OF run(1)] scope by (auto simp: off_def)
  next
    case False
    then have "version \<in> set (ac_disabled_specialists r)"
      using run(1) assms(3-6)
      by (auto simp: disable_in_tables_def work_simps split: if_splits)
    then show ?thesis using disable_tables(2) [OF run(1) False] assms(3) scope by (auto simp: off_def)
  qed
  then have off: "off kx ?note (kt_tables (control_run kx es' st))"
    using run_off assms(9) run(2) by blast
  have "coherent kx st0" unfolding assms(2) by (rule run_coherent [OF new_coherent [OF assms(1)]])
  then have "coherent kx (snd (automatic_disable kx registry kd p version m identity st0))"
    by (rule keepsD [OF keeps_disable])
  then have "coherent kx (control_run kx es' st)" using run_coherent assms(8) by simp
  from coherent_snapshot(1) [OF this assms(10,11)] show ?thesis
    using off scope by (auto simp: off_def current_snapshot_def split: option.splits if_splits)
qed

text \<open>Activation is validated, atomic and audited. When a policy is activated it is the stored
  policy of that id, it passes validation against the registry at that moment, the pointer names
  it, one history row records the actor and the reason, and one event for every tenant of the
  environment is queued in the same transaction.\<close>

theorem activation_audited:
  assumes "activate kx registry kd i identity note st = (Inr p, st')"
  shows "\<exists>actor q. policy_at (kt_tables st) i = Some q \<and> p = pw_data q \<and>
    validate_policy kx registry p identity = Inr () \<and> id_subject identity = Some actor \<and>
    pointer kx (kt_tables st') = Some ((ensured kx (kt_tables st))\<lparr>ac_policy_id := Some i\<rparr>) \<and>
    ct_history (kt_tables st') = ct_history (kt_tables st) @ [audit_row kx kd actor note (Some i) ''activate''] \<and>
    map en_tenant_id (audit_events kx kd note (Some i) DeploymentActive actor) = sorted_set (kx_tenants kx) \<and>
    ct_outbox (kt_tables st') = fst (enqueue_loop (\<lambda>e. e) 100000 (audit_events kx kd note (Some i) DeploymentActive actor)
       (ct_outbox (kt_tables st)) (length (pending_rows (ct_outbox (kt_tables st)))) 0)"
proof -
  obtain ct' where run: "activate_in_tables kx registry kd i identity note (kt_tables st) = (Inr p, ct')"
      "kt_tables st' = ct'" "rn_tenant_id note = None"
    using assms by (auto simp: activate_def work_simps in_tables_Inr invalidate_def)
  have "audited_tenants kx note = sorted_set (kx_tenants kx)" using run(3) by (simp add: audited_tenants_def truthy_def)
  then show ?thesis
    using activate_tables [OF run(1)] run(2) audit_events_tenants by metis
qed

text \<open>C25. The gate of the registry lets only measured models through. A specialist that it admits to
  canary is listed in the active policy, which is live and limits its traffic to a twentieth; neither
  the policy itself nor the pointer to it is killed, the specialist is not disabled, and the comparisons of its shadow attempts pass as a whole and in
  every segment they carry.\<close>

theorem canary_gate_sound:
  assumes "progression_gate kx kd model request identity ct = (Inr (), ct')" and "pq_target_state request = Canary"
    and "mm_adapter_architecture model \<noteq> router_architecture"
  shows "\<exists>r p measured. active_policy kx ct = Some (r, p) \<and> mm_version model \<in> set (po_eligible_specialist_versions p) \<and>
    \<not> po_kill_switch p \<and> \<not> ac_kill_switch r \<and> mm_version model \<notin> set (ac_disabled_specialists r) \<and>
    cc_traffic_fraction (po_canary p) \<le> 5 / 100 \<and> po_live_specialists_allowed p \<and>
    (let cs = shadow_comparisons_of ct (po_policy_id p) (mm_version model) in
       shadow_aggregate_of (kx_choices kx) cs (length cs) = Inr measured \<and> shadow_passed measured p \<and>
       (\<forall>c \<in> set cs. \<forall>label \<in> set (sh_segments c). \<exists>a.
          shadow_aggregate_of (kx_choices kx) (with_label label cs) (length (with_label label cs)) = Inr a \<and>
          shadow_passed a p))"
proof -
  obtain r p where a: "active_policy kx ct = Some (r, p)"
    using assms by (auto simp: progression_gate_def work_simps split: option.splits)
  let ?cs = "shadow_comparisons_of ct (po_policy_id p) (mm_version model)"
  have b: "mm_version model \<in> set (po_eligible_specialist_versions p)" "\<not> po_kill_switch p" "\<not> ac_kill_switch r"
    "mm_version model \<notin> set (ac_disabled_specialists r)" "cc_traffic_fraction (po_canary p) \<le> 5 / 100"
    "po_live_specialists_allowed p" "shadow_gate (kx_choices kx) p ?cs = Inr ()"
    using assms a by (auto simp: progression_gate_def work_simps)
  obtain measured parts where c: "shadow_aggregate_of (kx_choices kx) ?cs (length ?cs) = Inr measured"
      "each_result (\<lambda>label. shadow_aggregate_of (kx_choices kx) (with_label label ?cs) (length (with_label label ?cs)))
         (dedup (concat (map sh_segments ?cs))) = Inr parts"
      "shadow_passed measured p" "list_all (\<lambda>a. shadow_passed a p) parts"
    using b(7) by (auto simp: shadow_gate_def bindE_Inr_iff guardE_Inr_iff)
  have "\<exists>a. shadow_aggregate_of (kx_choices kx) (with_label label ?cs) (length (with_label label ?cs)) = Inr a \<and> shadow_passed a p"
    if "c \<in> set ?cs" "label \<in> set (sh_segments c)" for c label
  proof -
    have "label \<in> set (dedup (concat (map sh_segments ?cs)))" using that by auto
    from each_result_member [OF c(2) this] show ?thesis using c(4) by (auto simp: list_all_iff)
  qed
  then show ?thesis using a b(1-6) c(1,3) unfolding Let_def by blast
qed

section \<open>A sample\<close>

definition control_env_sample :: "unit control_env" where
  "control_env_sample = \<lparr>kx_environment = Local, kx_foundation_id = ''f'', kx_tenants = [''t''], kx_hash = echo_hash,
     kx_keyring = sample_keyring, kx_choices = same_choices\<rparr>"

definition operator :: identity where
  "operator = \<lparr>id_tenant_id = ''t'', id_application_ids = [], id_environment = Local, id_subject = Some ''op'',
     id_key_class = OperatorKey, id_dataset_tenants = [''t''], id_capabilities = []\<rparr>"

definition draws_at :: "string \<Rightarrow> control_draws" where
  "draws_at x = \<lparr>kd_now = (\<lambda>_. 5), kd_uid = (\<lambda>n. x @ replicate n CHR ''u''), kd_clock = (\<lambda>_. 7)\<rparr>"

definition live_policy :: route_policy where
  "live_policy = (default_route_policy ''p'' ''f'')\<lparr>po_eligible_specialist_versions := [''s''],
     po_tenant_enabled := [(''t'', True)], po_task_enabled := [(''chat'', True)], po_live_specialists_allowed := True,
     po_rollback := canary_limits\<rparr>"

definition canary_model :: model_manifest where
  "canary_model = undefined\<lparr>mm_version := ''s'', mm_state := Canary, mm_adapter_architecture := ''lora''\<rparr>"

definition canary_registry :: registry_reader where
  "canary_registry = (\<lambda>_ _. Inr canary_model)"

definition shadow_sample :: shadow_comparison where
  "shadow_sample = \<lparr>sh_comparison_id = ''c'', sh_interaction_id = ''i'', sh_policy_id = ''p'', sh_tenant_id = ''t'',
     sh_specialist_version = ''s'', sh_created_at = 1, sh_segments = [''language.en''], sh_judge_version = ''j'',
     sh_rubric_version = ''r'', sh_foundation_score = 1, sh_specialist_score = 1, sh_foundation_citation_precision = 1,
     sh_foundation_citation_recall = 1, sh_specialist_citation_precision = 1, sh_specialist_citation_recall = 1,
     sh_input_token_delta = 0, sh_output_token_delta = 0, sh_cost_delta_micros = 0, sh_specialist_cost_micros = None,
     sh_latency_delta_ms = 0, sh_specialist_validation = \<lparr>va_validator_version = ''v'', va_passed = True, va_checks = []\<rparr>\<rparr>"

definition control_sample :: control_tables where
  "control_sample = \<lparr>ct_policies = [\<lparr>pw_policy_id = ''p'', pw_environment = Local, pw_tenant_ids = [''t''], pw_created_at = 1,
       pw_actor = Some ''op'', pw_data = live_policy\<rparr>],
     ct_active = [(Local, new_pointer\<lparr>ac_policy_id := Some ''p''\<rparr>)], ct_history = [],
     ct_observations = [\<lparr>ov_interaction_id = ''i'', ov_policy_id = ''p'', ov_tenant_id = ''t'', ov_created_at = 1,
       ov_segments = [''language.en'']\<rparr>],
     ct_comparisons = [(''i'', shadow_sample)], ct_live = [], ct_rollbacks = [], ct_outbox = []\<rparr>"

definition operator_note :: "ident option \<Rightarrow> route_control_note" where
  "operator_note v = \<lparr>rn_reason = ''stop'', rn_tenant_id = None, rn_task = None, rn_specialist_version = v\<rparr>"

lemmas control_samples = control_env_sample_def operator_def draws_at_def control_sample_def operator_note_def
  new_pointer_def live_policy_def default_route_policy_def canary_registry_def

lemma sample_sound: "pointer_sound control_env_sample control_sample"
  by (simp add: pointer_sound_def pointer_def policy_at_def control_samples)

lemma draws_timed: "timed (draws_at x)"
  by (simp add: timed_def draws_at_def)

lemma run_Nil [simp]: "control_run kx [] st = st"
  by (simp add: control_run_def)

definition first_snapshot :: "route_snapshot \<times> control_state" where
  "first_snapshot = (case snapshot control_env_sample (draws_at []) (control_new control_sample) of (Inr s, st) \<Rightarrow> (s, st))"

lemma first_snapshot_read:
  "snapshot control_env_sample (draws_at []) (control_new control_sample) = (Inr (fst first_snapshot), snd first_snapshot)"
  by (simp add: first_snapshot_def snapshot_def Let_def control_new_def draws_at_def)

theorem snapshot_is_current_witness:
  "fst first_snapshot = current_snapshot control_env_sample control_sample"
proof -
  have "snapshot control_env_sample (draws_at []) (control_run control_env_sample [] (control_new control_sample)) =
      (Inr (fst first_snapshot), snd first_snapshot)"
    using first_snapshot_read by simp
  from snapshot_is_current [OF sample_sound draws_timed this] show ?thesis by (simp add: control_new_def)
qed

definition killed_state :: control_state where
  "killed_state = snd (switch control_env_sample (draws_at ''a'') True operator (operator_note None) (control_new control_sample))"

lemma killed_run:
  "\<exists>s. switch control_env_sample (draws_at ''a'') True operator (operator_note None) (control_new control_sample) =
     (Inr s, killed_state)"
  unfolding killed_state_def
  by (simp add: switch_def then_do_def require_eval authorize_def authorize_dataset_def guardE_def in_tables_def atomic_def
      switch_in_tables_def ensure_pointer_def pointer_def control_new_def switch_scope_def scoped_def set_pointer_def
      audit_def put_events_def invalidate_def snapshot_def Let_def sorted_set_def opt_all_def control_samples truthy_def)

theorem switched_off_stays_off_witness:
  "\<exists>s st. snapshot control_env_sample (draws_at []) killed_state = (Inr s, st) \<and> \<not> enabled s ''t'' ''chat''"
proof -
  obtain s0 where switched: "switch control_env_sample (draws_at ''a'') True operator (operator_note None)
      (control_run control_env_sample [] (control_new control_sample)) = (Inr s0, killed_state)"
    using killed_run by auto
  have valid: "route_control_note_validate (operator_note None) = Inr (operator_note None)"
    by (simp add: route_control_note_validate_def contract_simps route_control_note_fields_def valid_scope_def operator_note_def
        opt_all_def nonblank_def is_space_def code_def)
  obtain s st where read: "snapshot control_env_sample (draws_at []) (control_run control_env_sample [] killed_state) = (Inr s, st)"
    by (simp add: snapshot_def Let_def split: if_splits) (metis (full_types))
  from switched_off_stays_off [OF sample_sound valid switched _ draws_timed read]
  have "refuses (operator_note None) s" by simp
  then show ?thesis using read by (auto simp: refuses_def operator_note_def)
qed

definition breached :: canary_aggregate where
  "breached = canary_sample\<lparr>ca_breach_reasons := [''error_rate'']\<rparr>"

definition disabled_state :: control_state where
  "disabled_state = snd (automatic_disable control_env_sample canary_registry (draws_at ''a'') live_policy ''s'' breached operator
     (control_new control_sample))"

lemma disabled_run:
  "automatic_disable control_env_sample canary_registry (draws_at ''a'') live_policy ''s'' breached operator
     (control_new control_sample) = (Inr (), disabled_state)"
  unfolding disabled_state_def
  by (simp add: automatic_disable_def then_do_def require_eval in_tables_def atomic_def disable_in_tables_def pointer_def
      control_new_def set_pointer_def audit_def put_events_def invalidate_def breached_def canary_model_def control_samples)

theorem breach_disables_for_good_witness:
  "\<exists>s st. snapshot control_env_sample (draws_at []) disabled_state = (Inr s, st) \<and> ''s'' \<in> set (sn_disabled_specialists s)"
proof -
  obtain s st where read: "snapshot control_env_sample (draws_at []) (control_run control_env_sample [] disabled_state) = (Inr s, st)"
    by (simp add: snapshot_def Let_def split: if_splits) (metis (full_types))
  have live: "canary_registry ''s'' operator = Inr canary_model" "mm_state canary_model \<in> {Canary, Production}"
    by (simp_all add: canary_registry_def canary_model_def)
  have active: "pointer control_env_sample (kt_tables (control_new control_sample)) = Some (new_pointer\<lparr>ac_policy_id := Some ''p''\<rparr>)"
    "ac_policy_id (new_pointer\<lparr>ac_policy_id := Some ''p''\<rparr>) = Some (po_policy_id live_policy)"
    by (simp_all add: pointer_def control_new_def control_samples)
  have "ca_breach_reasons breached \<noteq> []" by (simp add: breached_def)
  from breach_disables_for_good [OF sample_sound run_Nil [symmetric] active live this disabled_run _ draws_timed read]
  show ?thesis using read by auto
qed

definition activated_state :: control_state where
  "activated_state = snd (activate control_env_sample canary_registry (draws_at ''a'') ''p'' operator (operator_note None)
     (control_new control_sample))"

lemma activated_run:
  "activate control_env_sample canary_registry (draws_at ''a'') ''p'' operator (operator_note None) (control_new control_sample) =
     (Inr live_policy, activated_state)"
  unfolding activated_state_def
  by (simp add: activate_def activate_in_tables_def then_do_def require_eval in_tables_def atomic_def get_policy_def policy_at_def
      validate_policy_def validate_specialist_def validate_router_def authorize_def authorize_dataset_def guardE_def
      ensure_pointer_def pointer_def router_architecture_def canary_model_def
      control_new_def set_pointer_def audit_def put_events_def invalidate_def control_samples)

theorem activation_audited_witness:
  "length (ct_history (kt_tables activated_state)) = 1"
  using activation_audited [OF activated_run] by (auto simp: control_new_def control_sample_def)

definition canary_request :: promotion_request where
  "canary_request = \<lparr>pq_reason = ''go'', pq_model_version = ''s'', pq_target_state = Canary, pq_actor = None, pq_evaluation_id = None\<rparr>"

lemma sample_aggregate:
  "\<exists>a. shadow_aggregate_of same_choices [shadow_sample] (Suc 0) = Inr a \<and> shadow_passed a live_policy"
proof -
  have "default_bootstrap same_choices [1] [1] =
      Inr \<lparr>pc_mean_delta = Some 0, pc_ci_lower = Some 0, pc_ci_upper = Some 0, pc_sample_size = 1\<rparr>"
    using same_choices_bootstrap [of 1 1] by simp
  then show ?thesis
    by (simp add: shadow_aggregate_of_def shadow_sample_def shadow_passed_def mean_of_def fmean_def bool_flt_def live_policy_def
        canary_limits_def default_rollback_thresholds_def)
qed

lemma gate_run:
  "progression_gate control_env_sample (draws_at []) canary_model canary_request operator control_sample = (Inr (), control_sample)"
proof -
  have cs: "shadow_comparisons_of control_sample ''p'' ''s'' = [shadow_sample]"
    by (simp add: shadow_comparisons_of_def control_sample_def shadow_sample_def)
  have "shadow_gate same_choices live_policy [shadow_sample] = Inr ()"
    using sample_aggregate
    by (auto simp: shadow_gate_def with_label_def guardE_def) (auto simp: shadow_sample_def)
  moreover have "active_policy control_env_sample control_sample = Some (new_pointer\<lparr>ac_policy_id := Some ''p''\<rparr>, live_policy)"
    by (simp add: active_policy_def pointer_def policy_at_def control_env_sample_def control_sample_def)
  ultimately show ?thesis using cs
    by (simp add: progression_gate_def then_do_def require_eval canary_request_def canary_model_def router_architecture_def
        control_env_sample_def) (simp add: live_policy_def default_route_policy_def new_pointer_def)
qed

theorem canary_gate_sound_witness:
  "\<exists>r p. active_policy control_env_sample control_sample = Some (r, p) \<and> ''s'' \<in> set (po_eligible_specialist_versions p)"
proof -
  have "pq_target_state canary_request = Canary" "mm_adapter_architecture canary_model \<noteq> router_architecture"
    by (simp_all add: canary_request_def canary_model_def router_architecture_def)
  from canary_gate_sound [OF gate_run this] show ?thesis by (auto simp: canary_model_def)
qed

end
