(* ===== verification/Artifacts.thy ===== *)
theory Artifacts
  imports Identity
begin

text \<open>
  The immutable artifacts of \<open>registry/artifacts.py\<close>: what a manifest signs, its verification
  against the key ring and the verification of the files of its directory. The dump of a manifest
  without some of its fields and SHA-256 are parameters; a directory of the file system is a value.
\<close>

section \<open>Digests\<close>

text \<open>\<open>json.dumps(hashes, sort_keys=True)\<close> of a dictionary from strings to strings.\<close>

definition dumps_object :: "(string \<times> string) list \<Rightarrow> string" where
  "dumps_object d = CHR ''{'' # join '', ''
     (map (\<lambda>(k, v). quote_ascii k @ '': '' @ quote_ascii v) (sort_key fst d)) @ ''}''"

definition sha256_hex :: "hash_functions \<Rightarrow> string \<Rightarrow> string" where
  "sha256_hex hf s = to_hex (hf_sha256 hf s)"

definition artifact_digest :: "hash_functions \<Rightarrow> (string \<times> string) list \<Rightarrow> string" where
  "artifact_digest hf hashes = sha256_hex hf (dumps_object hashes)"

section \<open>What a manifest signs\<close>

text \<open>\<open>model_dump(mode="json", exclude=excluded)\<close>, dumped with sorted keys.\<close>

type_synonym manifest_dump = "string list \<Rightarrow> model_manifest \<Rightarrow> string"

definition signature_fields :: "string list" where
  "signature_fields = [''signature'', ''signature_key_id'', ''signature_version'']"

definition mutable_fields :: "string list" where
  "mutable_fields = [''artifact_mac'', ''state'', ''evaluation_reports'', ''lifecycle_history'']"

definition capability_fields :: "string list" where
  "capability_fields = [''capability_signature_version'', ''processing_region'', ''modalities'', ''tools_supported'',
     ''input_micros_per_1000_tokens'', ''output_micros_per_1000_tokens'']"

definition excluded_fields :: "model_manifest \<Rightarrow> string list" where
  "excluded_fields m =
     signature_fields @ mutable_fields @
     (if mm_manifest_mac_version m = Mac1
      then [''manifest_mac_version'', ''student_parameter_count''] @
        (if mm_distillation m = None \<and> mm_student_architecture m = None
         then [''distillation'', ''student_architecture''] else []) @
        (if mm_capability_signature_version m = None then capability_fields else [])
      else [])"

definition integrity_failed :: exc where
  "integrity_failed = GatewayError 409 ''artifact_integrity_failed''"

definition signed_metadata :: "manifest_dump \<Rightarrow> model_manifest \<Rightarrow> string result" where
  "signed_metadata dump m =
     bindE (guardE (\<not> (mm_manifest_mac_version m = Mac1 \<and>
              (mm_student_parameter_count m \<noteq> None \<or> mm_pruning m \<noteq> None))) integrity_failed)
       (\<lambda>_. Inr (dump (excluded_fields m) m))"

text \<open>The values a manifest without signed capabilities must have.\<close>

definition plain_capabilities :: "model_manifest \<Rightarrow> bool" where
  "plain_capabilities m =
     (mm_processing_region m = ''local'' \<and> mm_modalities m = [''text''] \<and> \<not> mm_tools_supported m \<and>
      mm_input_micros_per_1000_tokens m = 1000 \<and> mm_output_micros_per_1000_tokens m = 2000)"

text \<open>\<open>except Exception: raise GatewayError(409, ...) from None\<close>.\<close>

definition or_integrity_failed :: "'a result \<Rightarrow> 'a result" where
  "or_integrity_failed r = (case r of Inl _ \<Rightarrow> Inl integrity_failed | Inr x \<Rightarrow> Inr x)"

definition verify_model_metadata ::
    "hash_functions \<Rightarrow> 'k keyring \<Rightarrow> manifest_dump \<Rightarrow> model_manifest \<Rightarrow> unit result" where
  "verify_model_metadata hf k dump m = or_integrity_failed (
     bindE (guardE (\<not> (mm_manifest_mac_version m = Mac1 \<and> mm_capability_signature_version m = None \<and>
              \<not> plain_capabilities m)) (ValueError [])) (\<lambda>_.
     if signed m
     then bindE (signed_metadata dump m) (verify_record m (kg_verifier k) ''model-manifest'')
     else bindE (guardE (accepts_legacy_mac k) (ValueError [])) (\<lambda>_.
       bindE (signed_metadata dump m) (\<lambda>payload.
       guardE (mm_artifact_mac m = artifact_mac hf k payload) (ValueError [])))))"

section \<open>The files of an artifact\<close>

datatype dir_entry = FileEntry string | LinkEntry | FolderEntry

record directory =
  di_is_symlink :: bool
  di_entries :: "(string \<times> dir_entry) list"

fun file_content :: "dir_entry \<Rightarrow> string option" where
  "file_content (FileEntry content) = Some content"
| "file_content LinkEntry = None"
| "file_content FolderEntry = None"

definition files_of :: "directory \<Rightarrow> (string \<times> string) list" where
  "files_of d = List.map_filter (\<lambda>(name, e). map_option (\<lambda>content. (name, content)) (file_content e)) (di_entries d)"

text \<open>\<open>Path(name).parts\<close> and \<open>is_absolute\<close>, for a POSIX path.\<close>

fun path_parts :: "string \<Rightarrow> string list" where
  "path_parts [] = [[]]"
| "path_parts (c # s) =
     (if c = CHR ''/'' then [] # path_parts s else (case path_parts s of [] \<Rightarrow> [[c]] | p # ps \<Rightarrow> (c # p) # ps))"

definition safe_relative :: "string \<Rightarrow> bool" where
  "safe_relative name = (\<not> starts_with ''/'' name \<and> ''..'' \<notin> set (path_parts name))"

definition read_verified :: "hash_functions \<Rightarrow> (string \<times> string) list \<Rightarrow> string \<times> string \<Rightarrow> (string \<times> string) result" where
  "read_verified hf files entry =
     (case entry of (name, digest) \<Rightarrow>
       bindE (guardE (safe_relative name) (ValueError [])) (\<lambda>_.
       case map_of files name of
         None \<Rightarrow> Inl OtherException
       | Some content \<Rightarrow> bindE (guardE (sha256_hex hf content = digest) (ValueError [])) (\<lambda>_. Inr (name, content))))"

fun read_all_verified ::
    "hash_functions \<Rightarrow> (string \<times> string) list \<Rightarrow> (string \<times> string) list \<Rightarrow> (string \<times> string) list result" where
  "read_all_verified hf files [] = Inr []"
| "read_all_verified hf files (e # es) =
     bindE (read_verified hf files e) (\<lambda>x. bindE (read_all_verified hf files es) (\<lambda>xs. Inr (x # xs)))"

definition verify_artifact ::
    "hash_functions \<Rightarrow> 'k keyring \<Rightarrow> manifest_dump \<Rightarrow> model_manifest \<Rightarrow> directory option \<Rightarrow> (string \<times> string) list result" where
  "verify_artifact hf k dump m path = or_integrity_failed (
     bindE (verify_model_metadata hf k dump m) (\<lambda>_.
     case path of
       None \<Rightarrow> Inl (ValueError [])
     | Some d \<Rightarrow>
         bindE (guardE (\<not> di_is_symlink d \<and> list_all (\<lambda>(_, e). e \<noteq> LinkEntry) (di_entries d)) (ValueError [])) (\<lambda>_.
         bindE (guardE (same_set (map fst (files_of d)) (map fst (mm_artifact_hashes m))) (ValueError [])) (\<lambda>_.
         bindE (read_all_verified hf (files_of d) (mm_artifact_hashes m)) (\<lambda>verified.
         bindE (guardE (mm_artifact_digest m = artifact_digest hf (mm_artifact_hashes m)) (ValueError [])) (\<lambda>_.
         Inr verified))))))"

section \<open>Lemmas\<close>

lemma or_integrity_failed_Inr [simp]: "or_integrity_failed r = Inr x \<longleftrightarrow> r = Inr x"
  by (auto simp: or_integrity_failed_def split: sum.splits)

lemma or_integrity_failed_Inl: "or_integrity_failed r = Inl e \<Longrightarrow> e = integrity_failed"
  by (auto simp: or_integrity_failed_def split: sum.splits)

lemma read_verified_Inr:
  "read_verified hf files e = Inr x \<longleftrightarrow>
     safe_relative (fst e) \<and> fst x = fst e \<and> map_of files (fst e) = Some (snd x) \<and> sha256_hex hf (snd x) = snd e"
  by (cases e; cases x) (auto simp: read_verified_def bindE_Inr_iff split: option.splits)

lemma read_all_verified_Inr:
  "read_all_verified hf files es = Inr xs \<longleftrightarrow> list_all2 (\<lambda>e x. read_verified hf files e = Inr x) es xs"
  by (induction es arbitrary: xs) (auto simp: bindE_Inr_iff list_all2_Cons1)

lemma verify_artifact_Inr:
  assumes "verify_artifact hf k dump m path = Inr verified"
  obtains d where "path = Some d" and "verify_model_metadata hf k dump m = Inr ()"
    and "\<forall>(_, e) \<in> set (di_entries d). e \<noteq> LinkEntry" and "\<not> di_is_symlink d"
    and "fst ` set (files_of d) = fst ` set (mm_artifact_hashes m)"
    and "list_all2 (\<lambda>e x. read_verified hf (files_of d) e = Inr x) (mm_artifact_hashes m) verified"
    and "mm_artifact_digest m = artifact_digest hf (mm_artifact_hashes m)"
proof (cases path)
  case (Some d)
  show ?thesis
    by (rule that [OF Some])
      (use assms Some in \<open>auto simp: verify_artifact_def bindE_Inr_iff same_set_iff list_all_iff read_all_verified_Inr\<close>)
qed (use assms in \<open>auto simp: verify_artifact_def bindE_Inr_iff\<close>)

lemma verified_names:
  "list_all2 (\<lambda>e x. read_verified hf files e = Inr x) es xs \<Longrightarrow> map fst xs = map fst es"
  by (induction rule: list_all2_induct) (auto simp: read_verified_Inr)

lemma verified_contents_unique:
  assumes "\<And>a b. hf_sha256 hf a = hf_sha256 hf b \<Longrightarrow> a = b"
  shows "list_all2 (\<lambda>e x. read_verified hf f e = Inr x) es xs \<Longrightarrow>
    list_all2 (\<lambda>e x. read_verified hf g e = Inr x) es ys \<Longrightarrow> xs = ys"
proof (induction es xs arbitrary: ys rule: list_all2_induct)
  case (Cons e es x xs)
  then obtain y ys' where ys: "ys = y # ys'" "read_verified hf g e = Inr y"
      "list_all2 (\<lambda>e x. read_verified hf g e = Inr x) es ys'"
    by (auto simp: list_all2_Cons1)
  have "sha256_hex hf (snd x) = sha256_hex hf (snd y)" "fst x = fst y"
    using Cons.hyps(1) ys(2) by (simp_all add: read_verified_Inr)
  then have "x = y" using assms by (simp add: sha256_hex_def to_hex_inj prod_eq_iff)
  then show ?case using Cons.IH ys by simp
qed simp

section \<open>Properties\<close>

text \<open>C21. A manifest determines the bytes that are loaded. What verification returns are the
  files the manifest lists, under relative names that do not climb out of the directory, with no
  symbolic link and no other file beside them, each with the digest the manifest gives it; the
  manifest itself has verified. With a digest without collisions, two directories that verify
  against the same manifest yield the same bytes: whatever replaced the directory, a loader never
  sees other content than the one that was published.\<close>

theorem artifact_bytes_determined:
  assumes "\<And>a b. hf_sha256 hf a = hf_sha256 hf b \<Longrightarrow> a = b"
    and "verify_artifact hf k dump m path = Inr verified"
  shows "verify_model_metadata hf k dump m = Inr () \<and>
    map fst verified = map fst (mm_artifact_hashes m) \<and>
    (\<forall>(name, content) \<in> set verified. safe_relative name \<and> (name, sha256_hex hf content) \<in> set (mm_artifact_hashes m)) \<and>
    (\<exists>d. path = Some d \<and> (\<forall>(name, e) \<in> set (di_entries d).
       e = FolderEntry \<or> name \<in> fst ` set (mm_artifact_hashes m))) \<and>
    (\<forall>path' verified'. verify_artifact hf k dump m path' = Inr verified' \<longrightarrow> verified' = verified)"
proof -
  obtain d where d: "path = Some d" "verify_model_metadata hf k dump m = Inr ()"
      "\<forall>(_, e) \<in> set (di_entries d). e \<noteq> LinkEntry"
      "fst ` set (files_of d) = fst ` set (mm_artifact_hashes m)"
      "list_all2 (\<lambda>e x. read_verified hf (files_of d) e = Inr x) (mm_artifact_hashes m) verified"
    using verify_artifact_Inr [OF assms(2)] by metis
  have names: "map fst verified = map fst (mm_artifact_hashes m)" by (rule verified_names [OF d(5)])
  have "\<exists>e \<in> set (mm_artifact_hashes m). read_verified hf (files_of d) e = Inr x" if "x \<in> set verified" for x
    using d(5) that by (auto simp: list_all2_conv_all_nth in_set_conv_nth) (metis nth_mem)
  then have each: "\<forall>(name, content) \<in> set verified. safe_relative name \<and> (name, sha256_hex hf content) \<in> set (mm_artifact_hashes m)"
    by (fastforce simp: read_verified_Inr)
  have "e = FolderEntry \<or> name \<in> fst ` set (mm_artifact_hashes m)" if "(name, e) \<in> set (di_entries d)" for name e
  proof (cases e)
    case (FileEntry content)
    then have "(name, content) \<in> set (files_of d)"
      using that by (force simp: files_of_def List.map_filter_def)
    then show ?thesis using d(4) by force
  qed (use d(3) that in auto)
  moreover have "verified' = verified" if other: "verify_artifact hf k dump m path' = Inr verified'" for path' verified'
  proof -
    obtain d' where "list_all2 (\<lambda>e x. read_verified hf (files_of d') e = Inr x) (mm_artifact_hashes m) verified'"
      using verify_artifact_Inr [OF other] by metis
    then show ?thesis using verified_contents_unique [OF assms(1)] d(5) by blast
  qed
  ultimately show ?thesis using d(1,2) names each by blast
qed

definition echo_hashes :: hash_functions where
  "echo_hashes = \<lparr>hf_hmac = (\<lambda>k m. k @ m), hf_sha256 = (\<lambda>s. s)\<rparr>"

definition plain_keyring :: "unit keyring" where
  "plain_keyring = keyring_new echo_hashes ''secret'' None None True"

definition no_dump :: manifest_dump where
  "no_dump = (\<lambda>_ _. [])"

definition router_manifest :: "string \<Rightarrow> lifecycle_state \<Rightarrow> model_manifest" where
  "router_manifest v st = undefined\<lparr>sr_signature := None, sr_signature_key_id := None, sr_signature_version := None,
     mm_version := v, mm_registry_id := ''r'', mm_state := st, mm_tenant_ids := [''t''],
     mm_adapter_architecture := ''router-logistic-v1'', mm_pruning := None, mm_distillation := None,
     mm_datasets := [\<lparr>dg_dataset_id = ''d'', dg_version = ''1'', dg_content_digest = ''c'', dg_weight = 1\<rparr>],
     mm_manifest_mac_version := Mac2, mm_artifact_mac := artifact_mac echo_hashes plain_keyring [],
     mm_artifact_hashes := [(''router.json'', sha256_hex echo_hashes ''body'')],
     mm_artifact_digest := artifact_digest echo_hashes [(''router.json'', sha256_hex echo_hashes ''body'')],
     mm_evaluation_reports := [], mm_storage_location := ''models/r/v'', mm_lifecycle_history := []\<rparr>"

definition router_directory :: directory where
  "router_directory = \<lparr>di_is_symlink = False, di_entries = [(''router.json'', FileEntry ''body'')]\<rparr>"

lemma router_metadata: "verify_model_metadata echo_hashes plain_keyring no_dump (router_manifest v st) = Inr ()"
  by (simp add: verify_model_metadata_def router_manifest_def signed_def accepts_legacy_mac_def plain_keyring_def
      keyring_new_def signed_metadata_def no_dump_def)

lemma router_artifact:
  "verify_artifact echo_hashes plain_keyring no_dump (router_manifest v st) (Some router_directory) = Inr [(''router.json'', ''body'')]"
  by (simp add: verify_artifact_def router_metadata)
    (simp add: router_manifest_def router_directory_def files_of_def List.map_filter_def read_verified_def same_set_def
      safe_relative_def starts_with_def)

theorem artifact_bytes_determined_witness:
  "safe_relative ''router.json'' \<and> map fst [(''router.json'', ''body'')] = map fst (mm_artifact_hashes (router_manifest ''v'' Candidate))"
proof -
  have "\<And>a b. hf_sha256 echo_hashes a = hf_sha256 echo_hashes b \<Longrightarrow> a = b" by (simp add: echo_hashes_def)
  from artifact_bytes_determined [OF this router_artifact [of "''v''" Candidate]] show ?thesis by simp
qed

text \<open>A forged manifest is not believed. With a key ring that does not accept legacy codes, a
  manifest verifies only if all parts of a signature are there and the verifier accepts it for the
  purpose of manifests over the dump of exactly the immutable fields; with legacy codes it is that
  or the code of the key ring over the same dump. Every failure is the one error 409.\<close>

theorem metadata_authenticated:
  "(verify_model_metadata hf k dump m = Inr () \<longrightarrow>
      (signed m \<and> verify_record m (kg_verifier k) ''model-manifest'' (dump (excluded_fields m) m) = Inr () \<or>
       \<not> signed m \<and> accepts_legacy_mac k \<and> mm_artifact_mac m = artifact_mac hf k (dump (excluded_fields m) m)) \<and>
      (mm_manifest_mac_version m = Mac1 \<longrightarrow> mm_student_parameter_count m = None \<and> mm_pruning m = None \<and>
         (mm_capability_signature_version m = None \<longrightarrow> plain_capabilities m))) \<and>
   (verify_model_metadata hf k dump m = Inr () \<or>
    verify_model_metadata hf k dump m = Inl (GatewayError 409 ''artifact_integrity_failed''))"
proof -
  have "verify_model_metadata hf k dump m = Inl (GatewayError 409 ''artifact_integrity_failed'')"
    if "verify_model_metadata hf k dump m \<noteq> Inr ()"
  proof (cases "verify_model_metadata hf k dump m")
    case (Inl e)
    then show ?thesis using or_integrity_failed_Inl
      by (metis (no_types, lifting) integrity_failed_def verify_model_metadata_def)
  qed (use that in simp)
  moreover have "(signed m \<and> verify_record m (kg_verifier k) ''model-manifest'' (dump (excluded_fields m) m) = Inr () \<or>
       \<not> signed m \<and> accepts_legacy_mac k \<and> mm_artifact_mac m = artifact_mac hf k (dump (excluded_fields m) m)) \<and>
      (mm_manifest_mac_version m = Mac1 \<longrightarrow> mm_student_parameter_count m = None \<and> mm_pruning m = None \<and>
         (mm_capability_signature_version m = None \<longrightarrow> plain_capabilities m))"
    if "verify_model_metadata hf k dump m = Inr ()"
    using that unfolding verify_model_metadata_def signed_metadata_def or_integrity_failed_Inr
    by (auto simp: bindE_Inr_iff split: if_splits)
  ultimately show ?thesis by blast
qed

theorem metadata_authenticated_witness:
  "mm_artifact_mac (router_manifest ''v'' Candidate) = artifact_mac echo_hashes plain_keyring []"
  using metadata_authenticated [of echo_hashes plain_keyring no_dump "router_manifest ''v'' Candidate"] router_metadata
  by (simp add: no_dump_def signed_def router_manifest_def)

end
