(* ===== verification/Evaluations.thy ===== *)
theory Evaluations
  imports Artifacts Control Gate
begin

text \<open>
  The store of evaluation reports of \<open>evaluation/storage.py\<close>, over the tables of the control
  database that it shares with the registry of \<open>registry/sqlite.py\<close>. The encodings of a report
  belong to pydantic and are parameters. A publication writes the files of a report and its rows in
  one transaction; the files are part of the state. Whether the file system accepts the staging
  directory, the rename and the commit are draws of a publication.
\<close>

section \<open>Tables\<close>

record model_row =
  mv_version :: ident
  mv_registry_id :: ident
  mv_tenant_ids :: "ident list"
  mv_data :: model_manifest

record job_row =
  jr_job_id :: ident
  jr_tenant_ids :: "ident list"
  jr_data :: training_job

record transition_row =
  tw_transition_id :: string
  tw_model_version :: ident
  tw_data :: lifecycle_transition

record deployment_row =
  dp_current_version :: ident
  dp_previous_version :: "ident option"

record report_row =
  rw_evaluation_id :: string
  rw_tenant_ids :: "ident list"
  rw_report :: string
  rw_report_mac :: string
  rw_operator_note_hash :: "string option"
  rw_actor_id :: "string option"
  rw_created_at :: instant

record baseline_row =
  bl_dataset_id :: ident
  bl_evaluation_id :: string
  bl_manifest_version :: ident
  bl_locked_at :: instant

record registry_tables =
  rg_models :: "model_row list"
  rg_jobs :: "job_row list"
  rg_submitters :: "(ident \<times> identity) list"
  rg_transitions :: "transition_row list"
  rg_deployments :: "(ident \<times> deployment_row) list"
  rg_reports :: "report_row list"
  rg_baselines :: "((ident \<times> ident) \<times> baseline_row) list"
  rg_outbox :: "event outbox_row list"
  rg_files :: "(string \<times> string \<times> string) list"

text \<open>The encodings of a report: \<open>model_dump_json(indent=2)\<close>, \<open>model_validate_json\<close> and the dump
  without the signature.\<close>

record report_codec =
  cd_dump :: "evaluation_report \<Rightarrow> string"
  cd_load :: "string \<Rightarrow> evaluation_report option"
  cd_payload :: "evaluation_report \<Rightarrow> string"

record 'k registry_env =
  rx_hash :: hash_functions
  rx_keyring :: "'k keyring"
  rx_codec :: report_codec
  rx_dump :: manifest_dump
  rx_created :: "instant \<Rightarrow> string"
  rx_directory :: "string \<Rightarrow> directory option"
  rx_targets :: routing_targets
  rx_progression :: "(model_manifest \<Rightarrow> promotion_request \<Rightarrow> identity \<Rightarrow> unit result) option"
  rx_benchmark :: "(model_manifest \<Rightarrow> evaluation_report \<Rightarrow> identity \<Rightarrow> bool result) option"
  rx_pending_limit :: nat

definition registry_new :: registry_tables where
  "registry_new = \<lparr>rg_models = [], rg_jobs = [], rg_submitters = [], rg_transitions = [], rg_deployments = [],
     rg_reports = [], rg_baselines = [], rg_outbox = [], rg_files = []\<rparr>"

definition put_registry_events :: "'k registry_env \<Rightarrow> event list \<Rightarrow> (registry_tables, unit) work" where
  "put_registry_events rx es = writing (\<lambda>rg. rg\<lparr>rg_outbox :=
     fst (enqueue_loop (\<lambda>e. e) (rx_pending_limit rx) es (rg_outbox rg) (length (pending_rows (rg_outbox rg))) 0)\<rparr>)"

section \<open>Reading a report\<close>

definition report_at :: "registry_tables \<Rightarrow> string \<Rightarrow> report_row option" where
  "report_at rg i = List.find (\<lambda>r. rw_evaluation_id r = i) (rg_reports rg)"

definition report_integrity_failed :: exc where
  "report_integrity_failed = GatewayError 503 ''report_integrity_failed''"

text \<open>The body of the \<open>try\<close>: every failure is the one error.\<close>

definition authentic :: "'k registry_env \<Rightarrow> report_row \<Rightarrow> evaluation_report \<Rightarrow> string \<Rightarrow> string \<Rightarrow> bool" where
  "authentic rx row report encoded mac_file =
     (if signed report
      then is_ok (verify_record report (kg_verifier (rx_keyring rx)) ''evaluation-report'' (cd_payload (rx_codec rx) report)) \<and>
        encoded = rw_report row
      else let mac = report_mac (rx_hash rx) (rx_keyring rx) encoded in
        accepts_legacy_mac (rx_keyring rx) \<and> encoded = rw_report row \<and> mac = rw_report_mac row \<and> mac = mac_file)"

definition read_report :: "'k registry_env \<Rightarrow> registry_tables \<Rightarrow> report_row \<Rightarrow> evaluation_report result" where
  "read_report rx rg row =
     (case cd_load (rx_codec rx) (rw_report row) of
        None \<Rightarrow> Inl report_integrity_failed
      | Some report \<Rightarrow>
          (case map_of (rg_files rg) (ev_evaluation_id (er_specification report)) of
             None \<Rightarrow> Inl report_integrity_failed
           | Some (encoded, mac_file) \<Rightarrow>
               bindE (guardE (authentic rx row report encoded mac_file) report_integrity_failed) (\<lambda>_. Inr report)))"

definition get_report ::
    "'k registry_env \<Rightarrow> registry_tables \<Rightarrow> string \<Rightarrow> identity \<Rightarrow> evaluation_report option result" where
  "get_report rx rg i identity =
     bindE (authorize_dataset identity []) (\<lambda>_.
       case report_at rg i of
         None \<Rightarrow> Inr None
       | Some row \<Rightarrow>
           if \<not> set (rw_tenant_ids row) \<subseteq> set (id_dataset_tenants identity) then Inr None
           else bindE (read_report rx rg row) (\<lambda>report. Inr (Some report)))"

definition baseline ::
    "'k registry_env \<Rightarrow> registry_tables \<Rightarrow> ident \<Rightarrow> ident \<Rightarrow> identity \<Rightarrow> evaluation_report option result" where
  "baseline rx rg deployment dataset_version identity =
     bindE (authorize_dataset identity []) (\<lambda>_.
       case map_of (rg_baselines rg) (deployment, dataset_version) of
         None \<Rightarrow> Inr None
       | Some b \<Rightarrow> get_report rx rg (bl_evaluation_id b) identity)"

section \<open>Publishing a report\<close>

record publication =
  pb_lock_baseline :: bool
  pb_expected_baseline :: "string option"
  pb_note :: "string option"
  pb_staged :: bool
  pb_renamed :: bool
  pb_committed :: bool

fun suite_text :: "suite_name \<Rightarrow> string" where
  "suite_text Golden = ''golden''"
| "suite_text HeldOut = ''held_out''"
| "suite_text SafetySuite = ''safety''"
| "suite_text RetrievalSuite = ''retrieval''"
| "suite_text PerformanceSuite = ''performance''"
| "suite_text RoutingSuite = ''routing''"

definition evaluation_events :: "control_draws \<Rightarrow> evaluation_report \<Rightarrow> ident list \<Rightarrow> event list" where
  "evaluation_events kd report tenants =
     map (\<lambda>(n, tenant). \<lparr>en_event_id = kd_uid kd n, en_event_type = EvaluationCompletedEvent, en_occurred_at = kd_now kd n,
         en_producer = EvaluationService, en_tenant_id = tenant, en_trace_id = kd_uid kd 1, en_schema_version = ''1.0'',
         en_data = EvaluationData
           \<lparr>ec_evaluation_id = ev_evaluation_id (er_specification report),
            ec_model_version = er_candidate_manifest_version report,
            ec_baseline_version = er_baseline_manifest_version report,
            ec_suites = map (\<lambda>s. suite_text (su_suite s)) (er_suite_results report),
            ec_passed = er_passed report,
            ec_report_ref = ''evaluations/'' @ ev_evaluation_id (er_specification report) @ ''/report.json''\<rparr>\<rparr>)
       (enumerate 2 (sort tenants))"

definition sign_report :: "'k registry_env \<Rightarrow> evaluation_report \<Rightarrow> evaluation_report" where
  "sign_report rx report =
     (case kg_signer (rx_keyring rx) of
        None \<Rightarrow> report
      | Some s \<Rightarrow> sign_record report s ''evaluation-report'' (cd_payload (rx_codec rx) report))"

definition publication_mac :: "'k registry_env \<Rightarrow> evaluation_report \<Rightarrow> string" where
  "publication_mac rx report =
     (case sr_signature report of
        Some (c # s) \<Rightarrow> []
      | _ \<Rightarrow> report_mac (rx_hash rx) (rx_keyring rx) (cd_dump (rx_codec rx) report))"

text \<open>\<open>baseline_deployment_id\<close> may be null, and SQL's null equals no key.\<close>

definition current_baseline :: "registry_tables \<Rightarrow> evaluation_specification \<Rightarrow> string option" where
  "current_baseline rg spec =
     (case ev_baseline_deployment_id spec of
        None \<Rightarrow> None
      | Some d \<Rightarrow> map_option bl_evaluation_id (map_of (rg_baselines rg) (d, ev_dataset_version spec)))"

definition new_report_row ::
    "'k registry_env \<Rightarrow> evaluation_report \<Rightarrow> ident list \<Rightarrow> identity \<Rightarrow> publication \<Rightarrow> report_row" where
  "new_report_row rx report tenants identity pb =
     \<lparr>rw_evaluation_id = ev_evaluation_id (er_specification report), rw_tenant_ids = sort tenants,
      rw_report = cd_dump (rx_codec rx) report, rw_report_mac = publication_mac rx report,
      rw_operator_note_hash = (case pb_note pb of
          Some (c # s) \<Rightarrow> Some (fingerprint (rx_hash rx) (rx_keyring rx) (c # s)) | _ \<Rightarrow> None),
      rw_actor_id = id_subject identity, rw_created_at = er_completed_at report\<rparr>"

definition new_baseline_row :: "evaluation_report \<Rightarrow> baseline_row" where
  "new_baseline_row report =
     \<lparr>bl_dataset_id = ev_dataset_id (er_specification report),
      bl_evaluation_id = ev_evaluation_id (er_specification report),
      bl_manifest_version = er_candidate_manifest_version report, bl_locked_at = er_completed_at report\<rparr>"

text \<open>\<open>ON CONFLICT ... DO UPDATE\<close> leaves the dataset of the baseline as it was.\<close>

definition lock_baseline :: "evaluation_report \<Rightarrow> (registry_tables, unit) work" where
  "lock_baseline report = writing (\<lambda>rg.
     let key = (ev_candidate_deployment_id (er_specification report), ev_dataset_version (er_specification report));
         b = new_baseline_row report
     in rg\<lparr>rg_baselines := dict_put key
          (case map_of (rg_baselines rg) key of None \<Rightarrow> b | Some old \<Rightarrow> b\<lparr>bl_dataset_id := bl_dataset_id old\<rparr>)
          (rg_baselines rg)\<rparr>)"

type_synonym publish_hook = "evaluation_report \<Rightarrow> identity \<Rightarrow> (registry_tables, unit) work"

definition publish_in_tables ::
    "'k registry_env \<Rightarrow> control_draws \<Rightarrow> publish_hook option \<Rightarrow> evaluation_report \<Rightarrow> ident list \<Rightarrow> identity \<Rightarrow> publication \<Rightarrow>
     (registry_tables, unit) work" where
  "publish_in_tables rx kd hook report tenants identity pb =
     (let spec = er_specification report; i = ev_evaluation_id spec in
     then_do (reading (\<lambda>rg. report_at rg i = None \<and> map_of (rg_files rg) i = None)) (\<lambda>fresh.
     then_do (require fresh (GatewayError 409 ''evaluation_exists'')) (\<lambda>_.
     then_do (reading (\<lambda>rg. current_baseline rg spec)) (\<lambda>current.
     then_do (require (current = pb_expected_baseline pb) (GatewayError 409 ''baseline_changed'')) (\<lambda>_.
     then_do (writing (\<lambda>rg. rg\<lparr>rg_reports := rg_reports rg @ [new_report_row rx report tenants identity pb]\<rparr>)) (\<lambda>_.
     then_do (if pb_lock_baseline pb then lock_baseline report else pass ()) (\<lambda>_.
     then_do (put_registry_events rx (evaluation_events kd report tenants)) (\<lambda>_.
     then_do (case hook of None \<Rightarrow> pass () | Some h \<Rightarrow> h report identity) (\<lambda>_.
     then_do (require (pb_renamed pb) OtherException) (\<lambda>_.
     then_do (writing (\<lambda>rg. rg\<lparr>rg_files := rg_files rg @
         [(i, cd_dump (rx_codec rx) report, publication_mac rx report)]\<rparr>)) (\<lambda>_.
     require (pb_committed pb) OtherException)))))))))))"

definition publish_report ::
    "'k registry_env \<Rightarrow> control_draws \<Rightarrow> publish_hook option \<Rightarrow> evaluation_report \<Rightarrow> ident list \<Rightarrow> identity \<Rightarrow> publication \<Rightarrow>
     (registry_tables, unit) work" where
  "publish_report rx kd hook report tenants identity pb =
     then_do (lift_result (authorize_dataset identity tenants)) (\<lambda>_.
     then_do (lift_result (require_signer (rx_keyring rx))) (\<lambda>_.
     then_do (require (pb_staged pb) OtherException) (\<lambda>_.
     atomic (publish_in_tables rx kd hook (sign_report rx report) tenants identity pb))))"

section \<open>Lemmas\<close>

lemma publish_Inr:
  assumes "publish_report rx kd hook report tenants identity pb rg = (Inr u, rg')"
  obtains rg1 rg2 where "authorize_dataset identity tenants = Inr ()" and "require_signer (rx_keyring rx) = Inr ()"
    and "report_at rg (ev_evaluation_id (er_specification report)) = None"
    and "map_of (rg_files rg) (ev_evaluation_id (er_specification report)) = None"
    and "current_baseline rg (er_specification report) = pb_expected_baseline pb"
    and "rg_reports rg1 = rg_reports rg @ [new_report_row rx (sign_report rx report) tenants identity pb]"
    and "rg_files rg1 = rg_files rg" and "rg_models rg1 = rg_models rg" and "rg_deployments rg1 = rg_deployments rg"
    and "rg_jobs rg1 = rg_jobs rg"
    and "rg_baselines rg1 = (if pb_lock_baseline pb then rg_baselines (snd (lock_baseline (sign_report rx report) rg)) else rg_baselines rg)"
    and "(case hook of None \<Rightarrow> pass () | Some h \<Rightarrow> h (sign_report rx report) identity) rg1 = (Inr (), rg2)"
    and "rg' = rg2\<lparr>rg_files := rg_files rg2 @ [(ev_evaluation_id (er_specification report),
       cd_dump (rx_codec rx) (sign_report rx report), publication_mac rx (sign_report rx report))]\<rparr>"
proof -
  have spec: "er_specification (sign_report rx report) = er_specification report"
    by (simp add: sign_report_def sign_record_def split: option.splits)
  let ?row = "new_report_row rx (sign_report rx report) tenants identity pb"
  let ?rg0 = "rg\<lparr>rg_reports := rg_reports rg @ [?row]\<rparr>"
  let ?rgb = "if pb_lock_baseline pb then snd (lock_baseline (sign_report rx report) ?rg0) else ?rg0"
  let ?rg1 = "snd (put_registry_events rx (evaluation_events kd (sign_report rx report) tenants) ?rgb)"
  obtain rg2 where w: "authorize_dataset identity tenants = Inr ()" "require_signer (rx_keyring rx) = Inr ()"
      "report_at rg (ev_evaluation_id (er_specification report)) = None"
      "map_of (rg_files rg) (ev_evaluation_id (er_specification report)) = None"
      "current_baseline rg (er_specification report) = pb_expected_baseline pb"
      "(case hook of None \<Rightarrow> pass () | Some h \<Rightarrow> h (sign_report rx report) identity) ?rg1 = (Inr (), rg2)"
      "rg' = rg2\<lparr>rg_files := rg_files rg2 @ [(ev_evaluation_id (er_specification report),
         cd_dump (rx_codec rx) (sign_report rx report), publication_mac rx (sign_report rx report))]\<rparr>"
    using assms by (auto simp: publish_report_def publish_in_tables_def Let_def work_simps spec put_registry_events_def
        lock_baseline_def split: if_splits)
  show ?thesis
    by (rule that [where ?rg1.0 = ?rg1, OF w(1-5) _ _ _ _ _ _ w(6) w(7)])
      (simp_all add: put_registry_events_def lock_baseline_def Let_def)
qed

text \<open>What a publication stores reads back: with encodings that read back what they wrote and a
  key ring whose verifier accepts its own signer.\<close>

definition codec_faithful :: "report_codec \<Rightarrow> bool" where
  "codec_faithful cd \<longleftrightarrow> (\<forall>r. cd_load cd (cd_dump cd r) = Some r) \<and>
     (\<forall>r s. cd_payload cd (sign_record r s ''evaluation-report'' (cd_payload cd r)) = cd_payload cd r)"

definition accepts_own :: "'k keyring \<Rightarrow> bool" where
  "accepts_own k \<longleftrightarrow>
     (case kg_signer k of
        None \<Rightarrow> True
      | Some s \<Rightarrow> (\<forall>m::string. sg_sign s m \<noteq> []) \<and>
          (\<forall>(r::evaluation_report) p x. verify_record (sign_record r s p x) (kg_verifier k) p x = Inr ()))"

end
