(* ===== verification/Registry.thy ===== *)
theory Registry
  imports Evaluations Lifecycle
begin

text \<open>
  The registry of models of \<open>registry/sqlite.py\<close>: training jobs and their submitters, registered
  versions with their evaluation results, and the lifecycle actions that move the pointer of a
  deployment. State, pointer and events commit together, so every operation is \<open>atomic\<close> work on the
  tables of \<open>Evaluations\<close>. The gate of progression and the gate of benchmarks are optional callables
  of the environment. Identifiers and instants are draws; an operation that records several
  transitions takes one family of draws for each.
\<close>

section \<open>Reading\<close>

definition model_at :: "registry_tables \<Rightarrow> ident \<Rightarrow> model_row option" where
  "model_at rg v = List.find (\<lambda>r. mv_version r = v) (rg_models rg)"

definition job_at :: "registry_tables \<Rightarrow> ident \<Rightarrow> job_row option" where
  "job_at rg i = List.find (\<lambda>r. jr_job_id r = i) (rg_jobs rg)"

definition get_model :: "'k registry_env \<Rightarrow> registry_tables \<Rightarrow> ident \<Rightarrow> identity \<Rightarrow> model_manifest result" where
  "get_model rx rg v identity =
     bindE (authorize_dataset identity []) (\<lambda>_.
       case model_at rg v of
         None \<Rightarrow> Inl (GatewayError 404 ''model_not_found'')
       | Some r \<Rightarrow>
           bindE (guardE (set (mm_tenant_ids (mv_data r)) \<subseteq> set (id_dataset_tenants identity))
             (GatewayError 404 ''model_not_found'')) (\<lambda>_.
           bindE (verify_model_metadata (rx_hash rx) (rx_keyring rx) (rx_dump rx) (mv_data r)) (\<lambda>_.
           Inr (mv_data r))))"

definition models :: "registry_tables \<Rightarrow> identity \<Rightarrow> model_manifest list result" where
  "models rg identity =
     bindE (authorize_dataset identity []) (\<lambda>_.
       Inr (filter (\<lambda>m. set (mm_tenant_ids m) \<subseteq> set (id_dataset_tenants identity))
         (map mv_data (sort_key mv_version (rg_models rg)))))"

definition get_job :: "registry_tables \<Rightarrow> ident \<Rightarrow> identity \<Rightarrow> training_job option result" where
  "get_job rg i identity =
     bindE (authorize_dataset identity []) (\<lambda>_.
       case job_at rg i of
         None \<Rightarrow> Inr None
       | Some r \<Rightarrow>
           bindE (guardE (set (jr_tenant_ids r) \<subseteq> set (id_dataset_tenants identity))
             (GatewayError 404 ''training_job_not_found'')) (\<lambda>_. Inr (Some (jr_data r))))"

section \<open>Training jobs\<close>

definition job_id_of :: "training_job \<Rightarrow> ident" where
  "job_id_of job = tj_job_id (jb_specification job)"

text \<open>\<open>_save_job\<close>: an update keeps the tenants of the row.\<close>

definition store_job :: "training_job \<Rightarrow> ident list \<Rightarrow> (registry_tables, unit) work" where
  "store_job job tenants = writing (\<lambda>rg. rg\<lparr>rg_jobs :=
     (if job_at rg (job_id_of job) = None
      then rg_jobs rg @ [\<lparr>jr_job_id = job_id_of job, jr_tenant_ids = sort tenants, jr_data = job\<rparr>]
      else map (\<lambda>r. if jr_job_id r = job_id_of job then r\<lparr>jr_data := job\<rparr> else r) (rg_jobs rg))\<rparr>)"

fun completed_type :: "job_type \<Rightarrow> completed_job_type" where
  "completed_type AdapterJob = CompletedAdapter"
| "completed_type RouterJob = CompletedRouter"
| "completed_type DistillationJob = CompletedDistillation"

definition training_events :: "control_draws \<Rightarrow> training_completed \<Rightarrow> ident list \<Rightarrow> event list" where
  "training_events kd d tenants =
     map (\<lambda>(n, tenant). \<lparr>en_event_id = kd_uid kd n, en_event_type = TrainingCompletedEvent, en_occurred_at = kd_now kd n,
         en_producer = TrainingOrchestrator, en_tenant_id = tenant, en_trace_id = kd_uid kd 0, en_schema_version = ''1.0'',
         en_data = TrainingData d\<rparr>) (enumerate 1 (sort tenants))"

definition finished_badly :: "job_state list" where
  "finished_badly = [JobFailed, JobCancelled]"

definition store_outcome ::
    "'k registry_env \<Rightarrow> control_draws \<Rightarrow> training_job \<Rightarrow> ident list \<Rightarrow> (registry_tables, unit) work" where
  "store_outcome rx kd job tenants =
     then_do (store_job job tenants) (\<lambda>_.
     if jb_state job \<in> set finished_badly
     then put_registry_events rx (training_events kd
       \<lparr>tm_job_id = job_id_of job, tm_job_type = completed_type (tj_job_type (jb_specification job)),
        tm_dataset_refs = [tj_dataset_id (jb_specification job) @ ''/'' @ tj_dataset_version (jb_specification job)],
        tm_model_version = None, tm_status = (if jb_state job = JobFailed then JobFailed else JobCancelled),
        tm_artifact_digest = None, tm_failure_code = jb_failure_code job\<rparr> tenants)
     else pass ())"

definition save_job_outcome ::
    "'k registry_env \<Rightarrow> control_draws \<Rightarrow> training_job \<Rightarrow> ident list \<Rightarrow> (registry_tables, unit) work" where
  "save_job_outcome rx kd job tenants =
     then_do (reading (\<lambda>rg. job_at rg (job_id_of job))) (\<lambda>previous.
     case previous of
       None \<Rightarrow> store_outcome rx kd job tenants
     | Some r \<Rightarrow>
         let old = jr_data r; job' = job\<lparr>jb_cancel_requested := jb_cancel_requested old \<or> jb_cancel_requested job\<rparr> in
         if jb_state old = JobCancelled \<or> jb_state old = jb_state job' \<and> jb_state old \<in> set finished_badly
         then pass () else store_outcome rx kd job' (jr_tenant_ids r))"

definition save_job ::
    "'k registry_env \<Rightarrow> control_draws \<Rightarrow> training_job \<Rightarrow> ident list \<Rightarrow> (registry_tables, unit) work" where
  "save_job rx kd job tenants = atomic (save_job_outcome rx kd job tenants)"

text \<open>The submitter, with its sets as sorted lists.\<close>

definition trusted :: "identity \<Rightarrow> identity" where
  "trusted i = i\<lparr>id_application_ids := sorted_set (id_application_ids i),
     id_dataset_tenants := sorted_set (id_dataset_tenants i), id_capabilities := sorted_set (id_capabilities i)\<rparr>"

definition put_submitter :: "bool \<Rightarrow> ident \<Rightarrow> identity \<Rightarrow> (registry_tables, unit) work" where
  "put_submitter replace i identity = writing (\<lambda>rg. rg\<lparr>rg_submitters :=
     (if \<not> replace \<and> map_of (rg_submitters rg) i \<noteq> None then rg_submitters rg
      else dict_put i (trusted identity) (rg_submitters rg))\<rparr>)"

definition submit_job :: "training_job \<Rightarrow> ident list \<Rightarrow> identity \<Rightarrow> (registry_tables, training_job) work" where
  "submit_job job tenants identity =
     then_do (store_job job tenants) (\<lambda>_.
     then_do (put_submitter True (job_id_of job) identity) (\<lambda>_. pass job))"

definition enqueue_job :: "training_job \<Rightarrow> ident list \<Rightarrow> identity \<Rightarrow> (registry_tables, training_job) work" where
  "enqueue_job job tenants identity = atomic (
     then_do (\<lambda>rg. (get_job rg (job_id_of job) identity, rg)) (\<lambda>found.
     case found of
       None \<Rightarrow> submit_job job tenants identity
     | Some old \<Rightarrow>
         then_do (require (jb_trainer_architecture old = jb_trainer_architecture job)
           (GatewayError 409 ''training_trainer_mismatch'')) (\<lambda>_.
         then_do (require (jb_specification old = jb_specification job)
           (GatewayError 409 ''training_job_id_conflict'')) (\<lambda>_.
         if jb_state old \<noteq> JobFailed
         then then_do (if jb_state old \<in> {JobQueued, JobRunning} then put_submitter False (job_id_of job) identity else pass ())
                (\<lambda>_. pass old)
         else submit_job (old\<lparr>jb_state := JobQueued, jb_failure_code := None, jb_completed_at := None\<rparr>) tenants identity))))"

text \<open>The queue of the worker, ordered by the text of the instant of creation.\<close>

definition pending_jobs :: "'k registry_env \<Rightarrow> registry_tables \<Rightarrow> (training_job \<times> identity) list" where
  "pending_jobs rx rg =
     List.map_filter (\<lambda>r. map_option (\<lambda>i. (jr_data r, i)) (map_of (rg_submitters rg) (jr_job_id r)))
       (sort_key (\<lambda>r. (rx_created rx (jb_created_at (jr_data r)), jr_job_id r))
         (filter (\<lambda>r. jb_state (jr_data r) \<in> {JobQueued, JobRunning}) (rg_jobs rg)))"

text \<open>\<open>flock\<close> of the worker's lock file: a second worker sees no job.\<close>

definition worker_claim :: "'k registry_env \<Rightarrow> registry_tables \<Rightarrow> bool \<Rightarrow> (training_job \<times> identity) list" where
  "worker_claim rx rg locked = (if locked then [] else pending_jobs rx rg)"

definition cancel_job ::
    "'k registry_env \<Rightarrow> control_draws \<Rightarrow> ident \<Rightarrow> identity \<Rightarrow> (registry_tables, training_job) work" where
  "cancel_job rx kd i identity = atomic (
     then_do (\<lambda>rg. (get_job rg i identity, rg)) (\<lambda>found.
     case found of
       None \<Rightarrow> lift_result (Inl (GatewayError 404 ''training_job_not_found''))
     | Some job \<Rightarrow>
         if jb_state job \<in> {JobSucceeded, JobFailed, JobCancelled} then pass job
         else let asked = job\<lparr>jb_cancel_requested := True\<rparr>;
             job' = (if jb_state job = JobQueued then asked\<lparr>jb_state := JobCancelled, jb_completed_at := Some (kd_now kd 0)\<rparr>
                     else asked) in
           then_do (reading (\<lambda>rg. job_at rg i)) (\<lambda>r.
           then_do (save_job_outcome rx kd job' (case r of None \<Rightarrow> [] | Some row \<Rightarrow> jr_tenant_ids row)) (\<lambda>_. pass job'))))"

section \<open>Registered models\<close>

definition update_model :: "ident \<Rightarrow> model_manifest \<Rightarrow> (registry_tables, unit) work" where
  "update_model v m = writing (\<lambda>rg. rg\<lparr>rg_models :=
     map (\<lambda>r. if mv_version r = v then r\<lparr>mv_data := m\<rparr> else r) (rg_models rg)\<rparr>)"

text \<open>\<open>record_evaluation\<close>, the hook of a publication inside its transaction.\<close>

definition record_evaluation :: "'k registry_env \<Rightarrow> publish_hook" where
  "record_evaluation rx report identity =
     (let v = ev_candidate_deployment_id (er_specification report) in
     then_do (reading (\<lambda>rg. model_at rg v)) (\<lambda>row.
     if row = None then pass ()
     else then_do (\<lambda>rg. (get_model rx rg v identity, rg)) (\<lambda>m.
       then_do (require (mm_state m \<notin> {Deprecated, Revoked} \<and>
           er_candidate_artifact_digest report = Some (mm_artifact_digest m)) (GatewayError 409 ''evaluation_model_changed'')) (\<lambda>_.
       update_model (mm_version m) (m\<lparr>mm_evaluation_reports :=
         dict_put (ev_evaluation_id (er_specification report)) (er_passed report) (mm_evaluation_reports m)\<rparr>)))))"

definition dataset_of :: "model_manifest \<Rightarrow> dataset_lineage result" where
  "dataset_of m = (case mm_datasets m of [d] \<Rightarrow> Inr d | _ \<Rightarrow> Inl (GatewayError 409 ''single_dataset_required''))"

definition approval_of :: "model_manifest \<Rightarrow> lifecycle_transition option" where
  "approval_of m = List.find (\<lambda>t. lt_from_state t = Some Evaluating \<and> lt_to_state t = Approved) (rev (mm_lifecycle_history m))"

definition transition_events :: "control_draws \<Rightarrow> model_manifest \<Rightarrow> lifecycle_transition \<Rightarrow> event list" where
  "transition_events kd m t =
     map (\<lambda>(n, tenant). deployment_event kd n (kd_uid kd 1)
         \<lparr>dc_deployment_id = mm_registry_id m, dc_model_version = mm_version m,
          dc_previous_state = map_option LifecycleDeployment (lt_from_state t),
          dc_new_state = LifecycleDeployment (lt_to_state t), dc_actor_id = lt_actor t, dc_reason = lt_reason t,
          dc_evaluation_id = lt_evaluation_id t\<rparr> tenant)
       (enumerate 2 (sort (mm_tenant_ids m)))"

definition record_transition ::
    "'k registry_env \<Rightarrow> control_draws \<Rightarrow> model_manifest \<Rightarrow> lifecycle_transition \<Rightarrow> (registry_tables, unit) work" where
  "record_transition rx kd m t =
     then_do (reading (\<lambda>rg. kd_uid kd 0 \<in> tw_transition_id ` set (rg_transitions rg))) (\<lambda>taken.
     then_do (require (\<not> taken) OtherException) (\<lambda>_.
     then_do (writing (\<lambda>rg. rg\<lparr>rg_transitions := rg_transitions rg @
         [\<lparr>tw_transition_id = kd_uid kd 0, tw_model_version = mm_version m, tw_data = t\<rparr>]\<rparr>)) (\<lambda>_.
     put_registry_events rx (transition_events kd m t))))"

definition succeeded_data :: "training_job \<Rightarrow> model_manifest \<Rightarrow> training_completed" where
  "succeeded_data job m =
     \<lparr>tm_job_id = job_id_of job, tm_job_type = completed_type (tj_job_type (jb_specification job)),
      tm_dataset_refs = map (\<lambda>d. dg_dataset_id d @ ''/'' @ dg_version d) (mm_datasets m),
      tm_model_version = Some (mm_version m), tm_status = JobSucceeded,
      tm_artifact_digest = Some (mm_artifact_digest m), tm_failure_code = None\<rparr>"

definition register_model ::
    "'k registry_env \<Rightarrow> (nat \<Rightarrow> control_draws) \<Rightarrow> training_job \<Rightarrow> model_manifest \<Rightarrow> (registry_tables, unit) work" where
  "register_model rx kds job m =
     then_do (reading (\<lambda>rg. (job_at rg (job_id_of job), model_at rg (mm_version m)))) (\<lambda>found.
     then_do (require (case fst found of None \<Rightarrow> True | Some r \<Rightarrow> \<not> jb_cancel_requested (jr_data r))
       (GatewayError 409 ''training_cancelled'')) (\<lambda>_.
     then_do (require (snd found = None) OtherException) (\<lambda>_.
     then_do (writing (\<lambda>rg. rg\<lparr>rg_models := rg_models rg @
         [\<lparr>mv_version = mm_version m, mv_registry_id = mm_registry_id m, mv_tenant_ids = sort (mm_tenant_ids m), mv_data = m\<rparr>]\<rparr>)) (\<lambda>_.
     then_do (each_work (\<lambda>(n, t). record_transition rx (kds n) m t) (enumerate 1 (mm_lifecycle_history m))) (\<lambda>_.
     then_do (store_job job (mm_tenant_ids m)) (\<lambda>_.
     put_registry_events rx (training_events (kds 0) (succeeded_data job m) (mm_tenant_ids m))))))))"

definition complete ::
    "'k registry_env \<Rightarrow> (nat \<Rightarrow> control_draws) \<Rightarrow> training_job \<Rightarrow> model_manifest \<Rightarrow> ident \<Rightarrow> (registry_tables, unit) work" where
  "complete rx kds job m architecture =
     then_do (require (mm_adapter_architecture m = architecture) (GatewayError 409 ''trainer_architecture_mismatch'')) (\<lambda>_.
     then_do (lift_result (dataset_of m)) (\<lambda>_.
     atomic (register_model rx kds job m)))"

section \<open>Evidence for a transition\<close>

definition matches_candidate :: "model_manifest \<Rightarrow> dataset_lineage \<Rightarrow> evaluation_report \<Rightarrow> bool" where
  "matches_candidate m d r =
     (ev_candidate_deployment_id (er_specification r) = mm_version m \<and>
      er_candidate_manifest_version r = mm_version m \<and>
      er_candidate_artifact_digest r = Some (mm_artifact_digest m) \<and>
      ev_dataset_id (er_specification r) = dg_dataset_id d \<and>
      ev_dataset_version (er_specification r) = dg_version d \<and>
      er_dataset_content_digest r = dg_content_digest d)"

text \<open>\<open>report.passed and ... and all(g.passed for g in decisions(report)) and ...\<close>: the gates are
  computed only for a report that claims to have passed.\<close>

definition gates_hold :: "'k registry_env \<Rightarrow> evaluation_report \<Rightarrow> bool result" where
  "gates_hold rx r = bindE (decisions (rx_targets rx) r) (\<lambda>gs. Inr (all_passed gs))"

definition router_passed :: "'k registry_env \<Rightarrow> model_manifest \<Rightarrow> dataset_lineage \<Rightarrow> evaluation_report option \<Rightarrow> bool result" where
  "router_passed rx m d found =
     (case found of
        None \<Rightarrow> Inr False
      | Some r \<Rightarrow>
          if er_passed r \<and> ev_suites (er_specification r) = [RoutingSuite]
          then bindE (gates_hold rx r) (\<lambda>ok. Inr (ok \<and> matches_candidate m d r))
          else Inr False)"

definition benchmark_passed :: "'k registry_env \<Rightarrow> model_manifest \<Rightarrow> evaluation_report \<Rightarrow> identity \<Rightarrow> bool result" where
  "benchmark_passed rx m r identity = (case rx_benchmark rx of None \<Rightarrow> Inr False | Some gate \<Rightarrow> gate m r identity)"

definition structure_passed :: "'k registry_env \<Rightarrow> model_manifest \<Rightarrow> evaluation_report \<Rightarrow> identity \<Rightarrow> bool result" where
  "structure_passed rx m r identity =
     bindE (if mm_adapter_architecture m = ''pruned-full-v1''
            then (if mm_pruning m = None then Inr False else benchmark_passed rx m r identity) else Inr True) (\<lambda>ok.
     if \<not> ok then Inr False
     else if mm_distillation m = None then Inr True
     else if er_distillation r \<noteq> mm_distillation m then Inr False
     else benchmark_passed rx m r identity)"

definition matches_baseline :: "dataset_lineage \<Rightarrow> evaluation_report \<Rightarrow> evaluation_report \<Rightarrow> bool" where
  "matches_baseline d r b =
     (er_baseline_report_id r = Some (ev_evaluation_id (er_specification b)) \<and>
      er_baseline_manifest_version r = Some (er_candidate_manifest_version b) \<and>
      ev_dataset_id (er_specification b) = dg_dataset_id d)"

definition specialist_passed ::
    "'k registry_env \<Rightarrow> registry_tables \<Rightarrow> model_manifest \<Rightarrow> dataset_lineage \<Rightarrow> evaluation_report option \<Rightarrow> identity \<Rightarrow> bool result" where
  "specialist_passed rx rg m d found identity =
     (case found of
        None \<Rightarrow> Inr False
      | Some r \<Rightarrow>
          (case ev_baseline_deployment_id (er_specification r) of
             None \<Rightarrow> Inr False
           | Some deployment \<Rightarrow>
               bindE (structure_passed rx m r identity) (\<lambda>ok.
               if \<not> ok then Inr False
               else bindE (baseline rx rg deployment (dg_version d) identity) (\<lambda>base.
                 case base of
                   None \<Rightarrow> Inr False
                 | Some b \<Rightarrow>
                     if er_passed b \<and> er_passed r
                     then bindE (gates_hold rx r) (\<lambda>ok. Inr (ok \<and> matches_candidate m d r \<and> matches_baseline d r b))
                     else Inr False))))"

definition passed ::
    "'k registry_env \<Rightarrow> registry_tables \<Rightarrow> model_manifest \<Rightarrow> ident option \<Rightarrow> identity \<Rightarrow> bool result" where
  "passed rx rg m evaluation identity =
     bindE (case mm_pruning m of Some p \<Rightarrow> Inr (pn_evaluation_dataset p) | None \<Rightarrow> dataset_of m) (\<lambda>d.
     case evaluation of
       None \<Rightarrow> Inr False
     | Some i \<Rightarrow>
         bindE (get_report rx rg i identity) (\<lambda>found.
         if mm_adapter_architecture m = router_architecture then router_passed rx m d found
         else specialist_passed rx rg m d found identity))"

section \<open>Transitions\<close>

definition evidence_for ::
    "'k registry_env \<Rightarrow> registry_tables \<Rightarrow> bool \<Rightarrow> model_manifest \<Rightarrow> promotion_request \<Rightarrow> identity \<Rightarrow> bool result" where
  "evidence_for rx rg rollback m rq identity =
     (if rollback then Inr (approval_of m \<noteq> None) else passed rx rg m (pq_evaluation_id rq) identity)"

definition request_of :: "bool \<Rightarrow> bool \<Rightarrow> promotion_request \<Rightarrow> identity \<Rightarrow> transition_request" where
  "request_of rollback ok rq identity =
     \<lparr>tr_target = pq_target_state rq, tr_actor = id_subject identity, tr_reason = pq_reason rq,
      tr_evaluation_passed = ok, tr_rollback = rollback\<rparr>"

definition progression :: "'k registry_env \<Rightarrow> bool \<Rightarrow> model_manifest \<Rightarrow> promotion_request \<Rightarrow> identity \<Rightarrow> unit result" where
  "progression rx rollback m rq identity =
     (if \<not> rollback \<and> pq_target_state rq \<in> {Canary, Production}
      then (case rx_progression rx of
          None \<Rightarrow> Inl (GatewayError 409 ''deployment_report_required'')
        | Some gate \<Rightarrow> gate m rq identity)
      else Inr ())"

definition intact :: "'k registry_env \<Rightarrow> model_manifest \<Rightarrow> promotion_request \<Rightarrow> unit result" where
  "intact rx m rq =
     (if pq_target_state rq \<notin> {Revoked, Deprecated}
      then bindE (verify_artifact (rx_hash rx) (rx_keyring rx) (rx_dump rx) m (rx_directory rx (mm_storage_location m))) (\<lambda>_. Inr ())
      else Inr ())"

definition new_transition :: "control_draws \<Rightarrow> model_manifest \<Rightarrow> promotion_request \<Rightarrow> identity \<Rightarrow> lifecycle_transition result" where
  "new_transition kd m rq identity =
     (case id_subject identity of
        None \<Rightarrow> Inl OtherException
      | Some actor \<Rightarrow>
          contract_new (valid_identifier actor \<and> opt_all valid_identifier (pq_evaluation_id rq))
            (Inr \<lparr>lt_from_state = Some (mm_state m), lt_to_state = pq_target_state rq, lt_actor = actor,
               lt_at = kd_now kd 0, lt_reason = pq_reason rq, lt_evaluation_id = pq_evaluation_id rq\<rparr>))"

definition moved :: "bool \<Rightarrow> bool \<Rightarrow> model_manifest \<Rightarrow> promotion_request \<Rightarrow> lifecycle_transition \<Rightarrow> model_manifest" where
  "moved rollback ok m rq t = m\<lparr>mm_state := pq_target_state rq,
     mm_lifecycle_history := mm_lifecycle_history m @ [t],
     mm_evaluation_reports := (case pq_evaluation_id rq of
         Some i \<Rightarrow> if ok \<and> \<not> rollback then dict_put i ok (mm_evaluation_reports m) else mm_evaluation_reports m
       | None \<Rightarrow> mm_evaluation_reports m)\<rparr>"

definition transition ::
    "'k registry_env \<Rightarrow> control_draws \<Rightarrow> bool \<Rightarrow> model_manifest \<Rightarrow> promotion_request \<Rightarrow> identity \<Rightarrow> (registry_tables, model_manifest) work" where
  "transition rx kd rollback m rq identity =
     then_do (\<lambda>rg. (evidence_for rx rg rollback m rq identity, rg)) (\<lambda>ok.
     then_do (lift_result (validate_transition (mm_state m) (request_of rollback ok rq identity))) (\<lambda>_.
     then_do (lift_result (progression rx rollback m rq identity)) (\<lambda>_.
     then_do (lift_result (intact rx m rq)) (\<lambda>_.
     then_do (lift_result (new_transition kd m rq identity)) (\<lambda>t.
     then_do (update_model (mm_version m) (moved rollback ok m rq t)) (\<lambda>_.
     then_do (record_transition rx kd (moved rollback ok m rq t) t) (\<lambda>_.
     pass (moved rollback ok m rq t))))))))"

definition plain_request :: "ident \<Rightarrow> lifecycle_state \<Rightarrow> string \<Rightarrow> ident option \<Rightarrow> promotion_request" where
  "plain_request v target reason evaluation =
     \<lparr>pq_reason = reason, pq_model_version = v, pq_target_state = target, pq_actor = None, pq_evaluation_id = evaluation\<rparr>"

definition set_deployment :: "ident \<Rightarrow> ident \<Rightarrow> ident option \<Rightarrow> (registry_tables, unit) work" where
  "set_deployment d current previous = writing (\<lambda>rg. rg\<lparr>rg_deployments :=
     dict_put d \<lparr>dp_current_version = current, dp_previous_version = previous\<rparr> (rg_deployments rg)\<rparr>)"

text \<open>The version a promotion to production replaces is retired in the same transaction.\<close>

definition retire_incumbent ::
    "'k registry_env \<Rightarrow> control_draws \<Rightarrow> model_manifest \<Rightarrow> promotion_request \<Rightarrow> identity \<Rightarrow> ident \<Rightarrow> (registry_tables, unit) work" where
  "retire_incumbent rx kd m rq identity v =
     then_do (\<lambda>rg. (get_model rx rg v identity, rg)) (\<lambda>incumbent.
     then_do (require (mm_state incumbent = Production \<and> mm_tenant_ids incumbent = mm_tenant_ids m)
       (GatewayError 409 ''deployment_conflict'')) (\<lambda>_.
     then_do (lift_result (promotion_request_validate (plain_request v Deprecated (pq_reason rq) None))) (\<lambda>request.
     then_do (transition rx kd False incumbent request identity) (\<lambda>_. pass ()))))"

definition deploy ::
    "'k registry_env \<Rightarrow> control_draws \<Rightarrow> model_manifest \<Rightarrow> promotion_request \<Rightarrow> identity \<Rightarrow> (registry_tables, unit) work" where
  "deploy rx kd m rq identity =
     then_do (reading (\<lambda>rg. map_of (rg_deployments rg) (mm_registry_id m))) (\<lambda>row.
     let previous = map_option dp_current_version row in
     then_do (case previous of
         Some (c # v) \<Rightarrow> retire_incumbent rx kd m rq identity (c # v) | _ \<Rightarrow> pass ()) (\<lambda>_.
     set_deployment (mm_registry_id m) (mm_version m) previous))"

definition repeated :: "model_manifest \<Rightarrow> promotion_request \<Rightarrow> identity \<Rightarrow> bool" where
  "repeated m rq identity =
     (mm_state m = pq_target_state rq \<and> mm_lifecycle_history m \<noteq> [] \<and>
      (let t = last (mm_lifecycle_history m) in
       Some (lt_actor t) = id_subject identity \<and> lt_reason t = pq_reason rq \<and> lt_evaluation_id t = pq_evaluation_id rq))"

definition promote_in_tables ::
    "'k registry_env \<Rightarrow> (nat \<Rightarrow> control_draws) \<Rightarrow> promotion_request \<Rightarrow> identity \<Rightarrow> (registry_tables, model_manifest) work" where
  "promote_in_tables rx kds rq identity =
     then_do (\<lambda>rg. (get_model rx rg (pq_model_version rq) identity, rg)) (\<lambda>m.
     then_do (require (pq_actor rq = None \<or> pq_actor rq = id_subject identity) (GatewayError 403 ''actor_mismatch'')) (\<lambda>_.
     if repeated m rq identity then pass m
     else then_do (transition rx (kds 0) False m rq identity) (\<lambda>updated.
       then_do (if mm_state updated = Production then deploy rx (kds 1) m rq identity else pass ()) (\<lambda>_.
       pass updated))))"

definition promote ::
    "'k registry_env \<Rightarrow> (nat \<Rightarrow> control_draws) \<Rightarrow> promotion_request \<Rightarrow> identity \<Rightarrow> (registry_tables, model_manifest) work" where
  "promote rx kds rq identity =
     then_do (lift_result (authorize_dataset identity [])) (\<lambda>_. atomic (promote_in_tables rx kds rq identity))"

definition rollback_in_tables ::
    "'k registry_env \<Rightarrow> (nat \<Rightarrow> control_draws) \<Rightarrow> ident \<Rightarrow> identity \<Rightarrow> string \<Rightarrow> (registry_tables, model_manifest list) work" where
  "rollback_in_tables rx kds d identity reason =
     then_do (reading (\<lambda>rg. map_of (rg_deployments rg) d)) (\<lambda>row.
     case (map_option dp_current_version row, Option.bind row dp_previous_version) of
       (Some cv, Some pv) \<Rightarrow>
         then_do (\<lambda>rg. (get_model rx rg cv identity, rg)) (\<lambda>current.
         then_do (\<lambda>rg. (get_model rx rg pv identity, rg)) (\<lambda>previous.
         (case approval_of previous of
            None \<Rightarrow> lift_result (Inl (GatewayError 409 ''rollback_version_unavailable''))
          | Some approval \<Rightarrow>
             then_do (require (mm_state current = Production \<and> mm_state previous = Deprecated)
               (GatewayError 409 ''rollback_version_unavailable'')) (\<lambda>_.
             then_do (lift_result (promotion_request_validate (plain_request (mm_version current) Deprecated reason None))) (\<lambda>retire.
             then_do (transition rx (kds 0) True current retire identity) (\<lambda>retired.
             then_do (lift_result (promotion_request_validate
                 (plain_request (mm_version previous) Production reason (lt_evaluation_id approval)))) (\<lambda>restore.
             then_do (transition rx (kds 1) True previous restore identity) (\<lambda>restored.
             then_do (set_deployment d (mm_version previous) (Some (mm_version current))) (\<lambda>_.
             pass [retired, restored])))))))))
     | _ \<Rightarrow> lift_result (Inl (GatewayError 409 ''previous_version_required'')))"

definition rollback ::
    "'k registry_env \<Rightarrow> (nat \<Rightarrow> control_draws) \<Rightarrow> ident \<Rightarrow> identity \<Rightarrow> string \<Rightarrow> (registry_tables, model_manifest list) work" where
  "rollback rx kds d identity reason =
     then_do (lift_result (authorize_dataset identity [])) (\<lambda>_. atomic (rollback_in_tables rx kds d identity reason))"

end
