(* ===== verification/Board.thy ===== *)
theory Board
  imports Lifecycle
begin

text \<open>
  The abstract specification of the registry: a board of versions with their states and, for each
  deployment, a pointer to its current and its previous version. A step registers a candidate,
  moves a version along an edge of the lifecycle, puts a version in production for the first time or
  in place of the incumbent, or rolls a deployment back. The registry refines this board; what is
  proved here by rule induction over the steps holds of the registry's tables.
\<close>

record board =
  bo_models :: "ident \<rightharpoonup> ident \<times> lifecycle_state"
  bo_pointers :: "ident \<rightharpoonup> ident \<times> ident option"

definition empty_board :: board where
  "empty_board = \<lparr>bo_models = Map.empty, bo_pointers = Map.empty\<rparr>"

definition put_version :: "ident \<Rightarrow> ident \<times> lifecycle_state \<Rightarrow> board \<Rightarrow> board" where
  "put_version v x b = b\<lparr>bo_models := (bo_models b)(v \<mapsto> x)\<rparr>"

definition put_pointer :: "ident \<Rightarrow> ident \<times> ident option \<Rightarrow> board \<Rightarrow> board" where
  "put_pointer d x b = b\<lparr>bo_pointers := (bo_pointers b)(d \<mapsto> x)\<rparr>"

inductive board_step :: "board \<Rightarrow> board \<Rightarrow> bool" where
  register: "bo_models b v = None \<Longrightarrow> board_step b (put_version v (d, Candidate) b)"
| move: "bo_models b v = Some (d, s) \<Longrightarrow> (s, t) \<in> set allowed_edges \<Longrightarrow> t \<noteq> Production \<Longrightarrow>
    board_step b (put_version v (d, t) b)"
| first: "bo_models b v = Some (d, Canary) \<Longrightarrow> bo_pointers b d = None \<Longrightarrow>
    board_step b (put_pointer d (v, None) (put_version v (d, Production) b))"
| replace: "bo_models b v = Some (d, Canary) \<Longrightarrow> bo_pointers b d = Some (u, p) \<Longrightarrow>
    bo_models b u = Some (e, Production) \<Longrightarrow>
    board_step b (put_pointer d (v, Some u) (put_version u (e, Deprecated) (put_version v (d, Production) b)))"
| revert: "bo_pointers b d = Some (u, Some w) \<Longrightarrow> bo_models b u = Some (e, Production) \<Longrightarrow>
    bo_models b w = Some (f, Deprecated) \<Longrightarrow>
    board_step b (put_pointer d (w, Some u) (put_version w (f, Production) (put_version u (e, Deprecated) b)))"

inductive board_run :: "board \<Rightarrow> board \<Rightarrow> bool" where
  stay: "board_run b b"
| more: "board_run b c \<Longrightarrow> board_step c c' \<Longrightarrow> board_run b c'"

inductive_cases board_stepE: "board_step b b'"
inductive_simps board_step_iff: "board_step b b'"

lemma board_run_one: "board_step b b' \<Longrightarrow> board_run b b'"
  using stay more by blast

lemma board_run_trans: "board_run c d \<Longrightarrow> board_run b c \<Longrightarrow> board_run b d"
  by (induction rule: board_run.induct) (auto intro: more)

lemmas board_simps = put_version_def put_pointer_def

section \<open>The invariant\<close>

text \<open>States a version is in once it has been deployed.\<close>

definition deployed :: "board \<Rightarrow> ident \<Rightarrow> ident \<Rightarrow> bool" where
  "deployed b d v \<longleftrightarrow> (\<exists>s \<in> {Production, Deprecated, Revoked}. bo_models b v = Some (d, s))"

definition board_ok :: "board \<Rightarrow> bool" where
  "board_ok b \<longleftrightarrow>
     (\<forall>v d. bo_models b v = Some (d, Production) \<longrightarrow> (\<exists>p. bo_pointers b d = Some (v, p))) \<and>
     (\<forall>d u p. bo_pointers b d = Some (u, p) \<longrightarrow> deployed b d u \<and> (\<forall>w. p = Some w \<longrightarrow> deployed b d w \<and> w \<noteq> u))"

lemma board_okD:
  assumes "board_ok b"
  shows "bo_models b v = Some (d, Production) \<Longrightarrow> \<exists>p. bo_pointers b d = Some (v, p)"
    and "bo_pointers b d = Some (u, p) \<Longrightarrow> deployed b d u"
    and "bo_pointers b d = Some (u, Some w) \<Longrightarrow> deployed b d w \<and> w \<noteq> u"
  using assms unfolding board_ok_def by blast+

lemma board_ok_empty [simp]: "board_ok empty_board"
  by (simp add: board_ok_def empty_board_def)

lemma deployed_put:
  "deployed (put_version v (e, s) b) d u \<longleftrightarrow>
     (if u = v then e = d \<and> s \<in> {Production, Deprecated, Revoked} else deployed b d u)"
  "deployed (put_pointer e x b) d u \<longleftrightarrow> deployed b d u"
  by (auto simp: deployed_def board_simps)

lemma deployed_edge:
  "deployed b d v \<Longrightarrow> bo_models b v = Some (e, s) \<Longrightarrow> (s, t) \<in> set allowed_edges \<Longrightarrow>
   e = d \<and> t \<in> {Production, Deprecated, Revoked}"
  by (auto simp: deployed_def allowed_edges_def)

lemma put_selectors:
  "bo_models (put_version v x b) u = (if u = v then Some x else bo_models b u)"
  "bo_pointers (put_version v x b) d = bo_pointers b d"
  "bo_models (put_pointer d y b) u = bo_models b u"
  "bo_pointers (put_pointer d y b) e = (if e = d then Some y else bo_pointers b e)"
  by (simp_all add: board_simps)

lemma board_step_ok: "board_step b b' \<Longrightarrow> board_ok b \<Longrightarrow> board_ok b'"
proof (induction rule: board_step.induct)
  case (register b v d)
  note ok = board_okD [OF register.prems]
  have fresh: "\<not> deployed b e v" for e using register by (simp add: deployed_def)
  show ?case unfolding board_ok_def deployed_put put_selectors
    by (auto simp: fresh dest: ok split: if_splits)
next
  case (move b v d s t)
  note ok = board_okD [OF move.prems]
  show ?case unfolding board_ok_def deployed_put put_selectors
    using move.hyps by (auto dest: ok deployed_edge [of b _ v d s t] split: if_splits)
next
  case (first b v d)
  note ok = board_okD [OF first.prems]
  have fresh: "\<not> deployed b e v" for e using first by (simp add: deployed_def)
  show ?case unfolding board_ok_def deployed_put put_selectors
    using first.hyps by (auto simp: fresh dest: ok split: if_splits)
next
  case (replace b v d u p e)
  note ok = board_okD [OF replace.prems]
  have fresh: "\<not> deployed b e v" for e using replace by (simp add: deployed_def)
  have e: "e = d" using ok(2) [OF replace.hyps(2)] replace.hyps(3) by (auto simp: deployed_def)
  have uv: "u \<noteq> v" using replace.hyps by auto
  have only: "bo_pointers b c = Some (u, q) \<Longrightarrow> c = d" "bo_pointers b c = Some (x, Some u) \<Longrightarrow> c = d" for c q x
    using ok(2) [of c u q] ok(3) [of c x u] replace.hyps(3) e by (auto simp: deployed_def)
  show ?case unfolding board_ok_def deployed_put put_selectors
  proof (intro conjI allI impI)
    fix w c
    assume "(if w = u then Some (e, Deprecated) else if w = v then Some (d, Production) else bo_models b w) = Some (c, Production)"
    then show "\<exists>q. (if c = d then Some (v, Some u) else bo_pointers b c) = Some (w, q)"
      using ok(1) [of w c] replace.hyps(2) by (auto split: if_splits)
  qed (use replace.hyps e uv in \<open>auto simp: fresh dest: ok only split: if_splits\<close>)
next
  case (revert b d u w e f)
  note ok = board_okD [OF revert.prems]
  have w: "deployed b d w" "w \<noteq> u" using ok(3) [OF revert.hyps(1)] by simp_all
  have ef: "e = d" "f = d" using ok(2) [OF revert.hyps(1)] w revert.hyps(2,3) by (auto simp: deployed_def)
  have only: "bo_pointers b c = Some (u, q) \<Longrightarrow> c = d" "bo_pointers b c = Some (x, Some u) \<Longrightarrow> c = d"
    "bo_pointers b c = Some (w, q) \<Longrightarrow> c = d" "bo_pointers b c = Some (x, Some w) \<Longrightarrow> c = d" for c q x
    using ok(2) [of c u q] ok(3) [of c x u] ok(2) [of c w q] ok(3) [of c x w] revert.hyps(2,3) ef
    by (auto simp: deployed_def)
  show ?case unfolding board_ok_def deployed_put put_selectors
  proof (intro conjI allI impI)
    fix x c
    assume "(if x = w then Some (f, Production) else if x = u then Some (e, Deprecated) else bo_models b x) = Some (c, Production)"
    then show "\<exists>q. (if c = d then Some (w, Some u) else bo_pointers b c) = Some (x, q)"
      using ok(1) [of x c] revert.hyps(1) ef by (auto split: if_splits)
  qed (use revert.hyps w ef in \<open>auto dest: ok only split: if_splits\<close>)
qed

lemma board_run_ok: "board_run b c \<Longrightarrow> board_ok b \<Longrightarrow> board_ok c"
  by (induction rule: board_run.induct) (auto intro: board_step_ok)

section \<open>A deployment whose current version was withdrawn\<close>

definition withdrawn :: "ident \<Rightarrow> ident \<Rightarrow> board \<Rightarrow> bool" where
  "withdrawn d u b \<longleftrightarrow> (\<exists>p. bo_pointers b d = Some (u, p)) \<and> bo_models b u = Some (d, Revoked)"

lemma withdrawn_step: "board_step b b' \<Longrightarrow> board_ok b \<Longrightarrow> withdrawn d u b \<Longrightarrow> withdrawn d u b'"
proof (induction rule: board_step.induct)
  case (move b v c s t)
  then show ?case by (auto simp: withdrawn_def put_selectors allowed_edges_def)
next
  case (revert b c x w e f)
  then show ?case using board_okD(3) [of b c x w] by (auto simp: withdrawn_def put_selectors)
qed (auto simp: withdrawn_def put_selectors)

lemma withdrawn_run: "board_run b c \<Longrightarrow> board_ok b \<Longrightarrow> withdrawn d u b \<Longrightarrow> withdrawn d u c"
  by (induction rule: board_run.induct) (auto intro: withdrawn_step board_run_ok)

lemma withdrawn_unserved: "board_ok b \<Longrightarrow> withdrawn d u b \<Longrightarrow> bo_models b v \<noteq> Some (d, Production)"
  using board_okD(1) [of b v d] by (auto simp: withdrawn_def)

end
