(* ===== verification/Registry_Laws.thy ===== *)
theory Registry_Laws
  imports Registry Board
begin

text \<open>
  The registry refines the board of \<open>Board\<close>: every operation is at most one step of the board, so
  the invariants of the board hold of the tables after any sequence of operations. Every version
  carries the history that led to its state, and nothing is served without an approval that rests
  on a passed report.
\<close>

section \<open>Runs\<close>

datatype registry_event =
    SaveJobEvent control_draws training_job "ident list"
  | EnqueueJobEvent training_job "ident list" identity
  | CancelJobEvent control_draws ident identity
  | CompleteEvent "nat \<Rightarrow> control_draws" training_job model_manifest ident
  | PublishEvent control_draws evaluation_report "ident list" identity publication
  | PromoteEvent "nat \<Rightarrow> control_draws" promotion_request identity
  | RollbackEvent "nat \<Rightarrow> control_draws" ident identity string

text \<open>Configuration, artifacts and gates may differ from one operation to the next.\<close>

fun registry_apply :: "'k registry_env \<times> registry_event \<Rightarrow> registry_tables \<Rightarrow> registry_tables" where
  "registry_apply (rx, SaveJobEvent kd job tenants) rg = snd (save_job rx kd job tenants rg)"
| "registry_apply (rx, EnqueueJobEvent job tenants identity) rg = snd (enqueue_job job tenants identity rg)"
| "registry_apply (rx, CancelJobEvent kd i identity) rg = snd (cancel_job rx kd i identity rg)"
| "registry_apply (rx, CompleteEvent kds job m architecture) rg = snd (complete rx kds job m architecture rg)"
| "registry_apply (rx, PublishEvent kd report tenants identity pb) rg =
     snd (publish_report rx kd (Some (record_evaluation rx)) report tenants identity pb rg)"
| "registry_apply (rx, PromoteEvent kds rq identity) rg = snd (promote rx kds rq identity rg)"
| "registry_apply (rx, RollbackEvent kds d identity reason) rg = snd (rollback rx kds d identity reason rg)"

definition registry_run :: "('k registry_env \<times> registry_event) list \<Rightarrow> registry_tables \<Rightarrow> registry_tables" where
  "registry_run es rg = fold registry_apply es rg"

text \<open>What training registers: a candidate with its first transition.\<close>

definition fresh_manifest :: "model_manifest \<Rightarrow> bool" where
  "fresh_manifest m \<longleftrightarrow> mm_version m \<noteq> [] \<and> mm_state m = Candidate \<and>
     (\<exists>t. mm_lifecycle_history m = [t] \<and> lt_from_state t = None \<and> lt_to_state t = Candidate)"

fun proper :: "registry_event \<Rightarrow> bool" where
  "proper (CompleteEvent kds job m architecture) = fresh_manifest m"
| "proper _ = True"

section \<open>The board of the tables\<close>

definition placed :: "model_row \<Rightarrow> ident \<times> lifecycle_state" where
  "placed r = (mm_registry_id (mv_data r), mm_state (mv_data r))"

definition board_of :: "registry_tables \<Rightarrow> board" where
  "board_of rg =
     \<lparr>bo_models = (\<lambda>v. map_option placed (model_at rg v)),
      bo_pointers = (\<lambda>d. map_option (\<lambda>r. (dp_current_version r, dp_previous_version r)) (map_of (rg_deployments rg) d))\<rparr>"

text \<open>A history as the run of the lifecycle that it records.\<close>

fun follows :: "lifecycle_state \<Rightarrow> lifecycle_transition list \<Rightarrow> lifecycle_state \<Rightarrow> bool" where
  "follows s [] t = (s = t)"
| "follows s (x # xs) t =
     (lt_from_state x = Some s \<and>
      ((s, lt_to_state x) \<in> set allowed_edges \<or> s = Deprecated \<and> lt_to_state x = Production) \<and>
      follows (lt_to_state x) xs t)"

definition traced :: "model_manifest \<Rightarrow> bool" where
  "traced m \<longleftrightarrow> (\<exists>t ts. mm_lifecycle_history m = t # ts \<and> lt_from_state t = None \<and> lt_to_state t = Candidate \<and>
     follows Candidate ts (mm_state m))"

definition model_rows_ok :: "registry_tables \<Rightarrow> bool" where
  "model_rows_ok rg \<longleftrightarrow> (\<forall>r \<in> set (rg_models rg). mm_version (mv_data r) = mv_version r \<and> mv_version r \<noteq> [] \<and> traced (mv_data r))"

lemma follows_append: "follows s (xs @ ys) u \<longleftrightarrow> (\<exists>t. follows s xs t \<and> follows t ys u)"
  by (induction s xs u rule: follows.induct) auto

lemma follows_served:
  "follows s ts t \<Longrightarrow> s \<notin> set served_states \<Longrightarrow> t \<in> set served_states \<Longrightarrow>
   \<exists>x \<in> set ts. lt_from_state x = Some Evaluating \<and> lt_to_state x = Approved"
proof (induction s ts t rule: follows.induct)
  case (2 s x xs t)
  show ?case
  proof (cases "lt_to_state x \<in> set served_states")
    case True
    then have "s = Evaluating \<and> lt_to_state x = Approved"
      using 2(2,3) by (auto simp: served_states_def allowed_edges_def)
    then show ?thesis using 2(2) by auto
  qed (use 2 in auto)
qed auto

lemma model_at_row: "model_at rg v = Some r \<Longrightarrow> r \<in> set (rg_models rg) \<and> mv_version r = v"
  unfolding model_at_def by (rule find_Some_iff2)

lemma model_at_mapped:
  "model_at (rg\<lparr>rg_models := map (\<lambda>r. if mv_version r = v then r\<lparr>mv_data := m\<rparr> else r) (rg_models rg)\<rparr>) w =
     map_option (\<lambda>r. if w = v then r\<lparr>mv_data := m\<rparr> else r) (model_at rg w)"
proof -
  have "List.find (\<lambda>r. mv_version r = w) (map (\<lambda>r. if mv_version r = v then r\<lparr>mv_data := m\<rparr> else r) rs) =
      map_option (\<lambda>r. if w = v then r\<lparr>mv_data := m\<rparr> else r) (List.find (\<lambda>r. mv_version r = w) rs)" for rs
    by (induction rs) auto
  then show ?thesis by (simp add: model_at_def)
qed

lemma model_at_other [simp]:
  "model_at (rg\<lparr>rg_jobs := a\<rparr>) v = model_at rg v" "model_at (rg\<lparr>rg_submitters := b\<rparr>) v = model_at rg v"
  "model_at (rg\<lparr>rg_transitions := c\<rparr>) v = model_at rg v" "model_at (rg\<lparr>rg_deployments := d\<rparr>) v = model_at rg v"
  "model_at (rg\<lparr>rg_reports := e\<rparr>) v = model_at rg v" "model_at (rg\<lparr>rg_baselines := f\<rparr>) v = model_at rg v"
  "model_at (rg\<lparr>rg_outbox := g\<rparr>) v = model_at rg v" "model_at (rg\<lparr>rg_files := h\<rparr>) v = model_at rg v"
  by (simp_all add: model_at_def)

text \<open>Work that leaves the board alone.\<close>

definition on_board :: "board \<Rightarrow> registry_tables \<Rightarrow> bool" where
  "on_board b rg \<longleftrightarrow> model_rows_ok rg \<and> board_of rg = b"

lemma settled_other [simp]:
  "on_board b (rg\<lparr>rg_jobs := a\<rparr>) = on_board b rg" "on_board b (rg\<lparr>rg_submitters := x\<rparr>) = on_board b rg"
  "on_board b (rg\<lparr>rg_transitions := c\<rparr>) = on_board b rg" "on_board b (rg\<lparr>rg_reports := e\<rparr>) = on_board b rg"
  "on_board b (rg\<lparr>rg_baselines := f\<rparr>) = on_board b rg" "on_board b (rg\<lparr>rg_outbox := g\<rparr>) = on_board b rg"
  "on_board b (rg\<lparr>rg_files := h\<rparr>) = on_board b rg"
  by (simp_all add: on_board_def model_rows_ok_def board_of_def)

named_theorems quiet

lemma quiet_writes [quiet]:
  "keeps (on_board b) (put_registry_events rx es)" "keeps (on_board b) (store_job job tenants)"
  "keeps (on_board b) (put_submitter p i identity)" "keeps (on_board b) (lock_baseline report)"
  by (auto simp: keeps_def put_registry_events_def store_job_def put_submitter_def lock_baseline_def Let_def)

lemma keeps_state_result: "keeps P (\<lambda>s. (f s, s))"
  by (simp add: keeps_def)

lemma keeps_option:
  "(x = None \<Longrightarrow> keeps P m) \<Longrightarrow> (\<And>y. x = Some y \<Longrightarrow> keeps P (f y)) \<Longrightarrow>
   keeps P (case x of None \<Rightarrow> m | Some y \<Rightarrow> f y)"
  by (cases x) simp_all

lemmas quiet_rules = keeps_then_do keeps_atomic keeps_if keeps_state_result keeps_option keeps_intros(1-4)

lemma quiet_transition [quiet]: "keeps (on_board b) (record_transition rx kd m t)"
  unfolding record_transition_def by (intro quiet_rules quiet keeps_intros(5)) simp

lemma quiet_outcomes [quiet]:
  "keeps (on_board b) (store_outcome rx kd job tenants)" "keeps (on_board b) (submit_job job tenants identity)"
  unfolding store_outcome_def submit_job_def by (intro quiet_rules quiet)+

lemma quiet_save [quiet]: "keeps (on_board b) (save_job_outcome rx kd job tenants)"
  unfolding save_job_outcome_def Let_def by (intro quiet_rules quiet)

lemma quiet_jobs:
  "keeps (on_board b) (save_job rx kd job tenants)" "keeps (on_board b) (enqueue_job job tenants identity)"
  "keeps (on_board b) (cancel_job rx kd i identity)"
  unfolding save_job_def enqueue_job_def cancel_job_def Let_def by (intro quiet_rules quiet)+

lemma get_model_Inr:
  assumes "get_model rx rg v identity = Inr m"
  obtains r where "model_at rg v = Some r" and "m = mv_data r" and "authorize_dataset identity [] = Inr ()"
    and "set (mm_tenant_ids m) \<subseteq> set (id_dataset_tenants identity)"
    and "verify_model_metadata (rx_hash rx) (rx_keyring rx) (rx_dump rx) m = Inr ()"
  using assms by (auto simp: get_model_def bindE_Inr_iff split: option.splits)

lemma settled_row:
  assumes "on_board b rg" and "get_model rx rg v identity = Inr m"
  shows "mm_version m = v" "traced m" "bo_models b v = Some (mm_registry_id m, mm_state m)" "v \<noteq> []"
proof -
  obtain r where r: "model_at rg v = Some r" "m = mv_data r" by (rule get_model_Inr [OF assms(2)])
  have "r \<in> set (rg_models rg)" "mv_version r = v" using model_at_row [OF r(1)] by simp_all
  then show "mm_version m = v" "traced m" "v \<noteq> []" using assms(1) r(2) by (auto simp: on_board_def model_rows_ok_def)
  show "bo_models b v = Some (mm_registry_id m, mm_state m)"
    using assms(1) r by (auto simp: on_board_def board_of_def placed_def)
qed

lemma settled_update:
  assumes "on_board b rg" and "mm_version m = v" and "traced m"
    and "bo_models b v = Some (mm_registry_id m, s)"
  shows "on_board (put_version v (mm_registry_id m, mm_state m) b) (snd (update_model v m rg))"
proof -
  have "model_rows_ok (snd (update_model v m rg))"
    using assms(1-3) by (auto simp: on_board_def model_rows_ok_def update_model_def)
  moreover have "model_at rg v \<noteq> None" using assms(1,4) by (auto simp: on_board_def board_of_def)
  then have "board_of (snd (update_model v m rg)) = put_version v (mm_registry_id m, mm_state m) b"
    using assms(1) by (auto simp: on_board_def board_of_def update_model_def put_version_def model_at_mapped placed_def fun_eq_iff option.map_ident)
  ultimately show ?thesis by (simp add: on_board_def)
qed

lemma put_version_same: "bo_models b v = Some x \<Longrightarrow> put_version v x b = b"
  by (simp add: put_version_def fun_upd_idem)

lemma quiet_evaluation [quiet]: "keeps (on_board b) (record_evaluation rx report identity)"
proof -
  let ?v = "ev_candidate_deployment_id (er_specification report)"
  have "on_board b (snd (record_evaluation rx report identity rg))" if ok: "on_board b rg" for rg
  proof (cases "get_model rx rg ?v identity")
    case (Inr m)
    note row = settled_row [OF ok Inr]
    let ?m = "m\<lparr>mm_evaluation_reports := dict_put (ev_evaluation_id (er_specification report)) (er_passed report)
      (mm_evaluation_reports m)\<rparr>"
    have "on_board (put_version ?v (mm_registry_id ?m, mm_state ?m) b) (snd (update_model ?v ?m rg))"
      by (rule settled_update [OF ok]) (use row in \<open>simp_all add: traced_def\<close>)
    then have "on_board b (snd (update_model ?v ?m rg))" using row(3) by (simp add: put_version_same)
    then show ?thesis using Inr ok row(1) by (simp add: record_evaluation_def Let_def then_do_def require_eval)
  qed (use ok in \<open>simp add: record_evaluation_def Let_def then_do_def\<close>)
  then show ?thesis by (simp add: keeps_def)
qed

lemma quiet_publish: "keeps (on_board b) (publish_report rx kd (Some (record_evaluation rx)) report tenants identity pb)"
  unfolding publish_report_def publish_in_tables_def Let_def option.case
  by (intro quiet_rules quiet keeps_intros(5)) simp_all

section \<open>Transitions\<close>

lemma transition_Inr:
  assumes "transition rx kd rb m rq identity rg = (Inr m', rg')"
  obtains ok t rg1 where "evidence_for rx rg rb m rq identity = Inr ok"
    and "permitted (mm_state m) (request_of rb ok rq identity)" and "progression rx rb m rq identity = Inr ()"
    and "intact rx m rq = Inr ()" and "new_transition kd m rq identity = Inr t" and "m' = moved rb ok m rq t"
    and "update_model (mm_version m) m' rg = (Inr (), rg1)" and "record_transition rx kd m' t rg1 = (Inr (), rg')"
  using assms unfolding transition_def by (auto simp: work_simps validate_transition_iff)

lemma new_transition_Inr:
  assumes "new_transition kd m rq identity = Inr t"
  shows "lt_from_state t = Some (mm_state m)" "lt_to_state t = pq_target_state rq" "Some (lt_actor t) = id_subject identity"
    "lt_reason t = pq_reason rq" "lt_evaluation_id t = pq_evaluation_id rq"
  using assms by (auto simp: new_transition_def contract_simps split: option.splits)

lemma permitted_edge:
  "permitted s (request_of rb ok rq identity) \<Longrightarrow>
   (s, pq_target_state rq) \<in> set allowed_edges \<or> rb \<and> ok \<and> s = Deprecated \<and> pq_target_state rq = Production"
  by (auto simp: permitted_def request_of_def)

lemma transition_settled:
  assumes "on_board b rg" and "get_model rx' rg v identity' = Inr m"
    and "transition rx kd rb m rq identity rg = (Inr m', rg')"
  shows "on_board (put_version v (mm_registry_id m, pq_target_state rq) b) rg'"
    and "(mm_state m, pq_target_state rq) \<in> set allowed_edges \<or>
      rb \<and> mm_state m = Deprecated \<and> pq_target_state rq = Production"
    and "mm_state m' = pq_target_state rq" and "mm_registry_id m' = mm_registry_id m" and "mm_version m' = v"
proof -
  note row = settled_row [OF assms(1,2)]
  obtain ok t rg1 where t: "permitted (mm_state m) (request_of rb ok rq identity)" "new_transition kd m rq identity = Inr t"
      "m' = moved rb ok m rq t" "update_model (mm_version m) m' rg = (Inr (), rg1)"
      "record_transition rx kd m' t rg1 = (Inr (), rg')"
    by (rule transition_Inr [OF assms(3)])
  show edge: "(mm_state m, pq_target_state rq) \<in> set allowed_edges \<or>
      rb \<and> mm_state m = Deprecated \<and> pq_target_state rq = Production"
    using permitted_edge [OF t(1)] by blast
  show m': "mm_state m' = pq_target_state rq" "mm_registry_id m' = mm_registry_id m" "mm_version m' = v"
    using t(3) row(1) by (simp_all add: moved_def)
  have "traced m'"
    using row(2) t(3) edge new_transition_Inr(1,2) [OF t(2)] by (auto simp: traced_def moved_def follows_append)
  have "on_board (put_version v (mm_registry_id m', mm_state m') b) (snd (update_model v m' rg))"
    by (rule settled_update [OF assms(1)]) (use row m' \<open>traced m'\<close> in simp_all)
  then have "on_board (put_version v (mm_registry_id m, pq_target_state rq) b) rg1"
    using t(4) row(1) m' by simp
  then show "on_board (put_version v (mm_registry_id m, pq_target_state rq) b) rg'"
    using keeps_run [OF quiet_transition _ t(5)] by blast
qed

lemma transition_models:
  assumes "on_board b rg" and "get_model rx' rg v identity' = Inr m"
    and "transition rx kd rb m rq identity rg = (Inr m', rg')"
  shows "\<exists>r. model_at rg' v = Some r \<and> mv_data r = m'" and "w \<noteq> v \<Longrightarrow> model_at rg' w = model_at rg w"
proof -
  note row = settled_row [OF assms(1,2)]
  obtain ok t rg1 where t: "update_model (mm_version m) m' rg = (Inr (), rg1)" "record_transition rx kd m' t rg1 = (Inr (), rg')"
    by (rule transition_Inr [OF assms(3)])
  have "rg_models rg' = rg_models rg1"
    using t(2) by (auto simp: record_transition_def put_registry_events_def work_simps)
  moreover have "model_at rg1 w = map_option (\<lambda>r. if w = v then r\<lparr>mv_data := m'\<rparr> else r) (model_at rg w)" for w
    using t(1) row(1) by (auto simp: update_model_def work_simps model_at_mapped)
  ultimately have "model_at rg' w = map_option (\<lambda>r. if w = v then r\<lparr>mv_data := m'\<rparr> else r) (model_at rg w)" for w
    by (simp add: model_at_def)
  moreover obtain q where "model_at rg v = Some q" by (rule get_model_Inr [OF assms(2)])
  ultimately show "\<exists>r. model_at rg' v = Some r \<and> mv_data r = m'" "w \<noteq> v \<Longrightarrow> model_at rg' w = model_at rg w"
    by (auto simp: option.map_ident)
qed

section \<open>The refinement\<close>

lemma set_deployment_settled:
  assumes "on_board b rg" and "set_deployment d cur prev rg = (Inr u, rg')"
  shows "on_board (put_pointer d (cur, prev) b) rg'"
proof -
  have "rg' = rg\<lparr>rg_deployments := dict_put d \<lparr>dp_current_version = cur, dp_previous_version = prev\<rparr> (rg_deployments rg)\<rparr>"
    using assms(2) by (simp add: set_deployment_def work_simps)
  then show ?thesis using assms(1)
    by (auto simp: on_board_def model_rows_ok_def board_of_def put_pointer_def fun_eq_iff)
qed

lemma pointer_row:
  "on_board b rg \<Longrightarrow> bo_pointers b d = map_option (\<lambda>r. (dp_current_version r, dp_previous_version r)) (map_of (rg_deployments rg) d)"
  by (auto simp: on_board_def board_of_def)

lemma plain_request_Inr:
  "promotion_request_validate (plain_request v target reason i) = Inr rq \<Longrightarrow> rq = plain_request v target reason i"
  by (auto simp: promotion_request_validate_def contract_simps)

lemma run_inr: "m s = (Inr x, s') \<Longrightarrow> snd (m s) = s'"
  by simp

lemma allowed_production: "(s, Production) \<in> set allowed_edges \<longleftrightarrow> s = Canary"
  by (cases s) (simp_all add: allowed_edges_def)

lemma promote_refines:
  assumes ok: "on_board b rg" and inv: "board_ok b" and run: "promote_in_tables rx kds rq identity rg = (Inr m', rg')"
  shows "\<exists>b'. board_run b b' \<and> on_board b' rg' \<and> (\<exists>r. model_at rg' (pq_model_version rq) = Some r \<and> mv_data r = m')"
proof -
  let ?v = "pq_model_version rq"
  obtain m where m: "get_model rx rg ?v identity = Inr m"
    using run by (auto simp: promote_in_tables_def work_simps)
  note row = settled_row [OF ok m]
  show ?thesis
  proof (cases "repeated m rq identity")
    case True
    then have "rg' = rg" "m' = m" using run m by (auto simp: promote_in_tables_def work_simps)
    then show ?thesis using ok stay get_model_Inr [OF m] by metis
  next
    case False
    then obtain u rg1 where t: "transition rx (kds 0) False m rq identity rg = (Inr u, rg1)"
        "(if mm_state u = Production then deploy rx (kds 1) m rq identity else pass ()) rg1 = (Inr (), rg')" and u: "m' = u"
      using run m by (auto simp: promote_in_tables_def work_simps)
    note s = transition_settled [OF ok m t(1)] and stored = transition_models [OF ok m t(1)]
    have edge: "(mm_state m, pq_target_state rq) \<in> set allowed_edges" using s(2) by simp
    let ?b1 = "put_version ?v (mm_registry_id m, pq_target_state rq) b"
    show ?thesis
    proof (cases "pq_target_state rq = Production")
      case False
      have "board_step b ?b1" by (rule move) (use row(3) edge False in auto)
      moreover have "rg' = rg1" using t(2) s(3) False by (simp add: work_simps)
      ultimately show ?thesis using s(1) board_run_one stored(1) u by blast
    next
      case True
      let ?d = "mm_registry_id m"
      have canary: "bo_models b ?v = Some (?d, Canary)" using row(3) edge True by (simp add: allowed_production)
      have deploy: "deploy rx (kds 1) m rq identity rg1 = (Inr (), rg')" using t(2) s(3) True by simp
      note b1 = s(1) [unfolded True]
      let ?p1 = "put_version ?v (?d, Production) b"
      have same: "map_of (rg_deployments rg1) ?d = None \<longleftrightarrow> bo_pointers b ?d = None"
        using pointer_row [OF b1, of ?d] by (simp add: put_selectors)
      show ?thesis
      proof (cases "map_of (rg_deployments rg1) ?d")
        case None
        then have "set_deployment ?d (mm_version m) None rg1 = (Inr (), rg')"
          using deploy by (auto simp: deploy_def Let_def work_simps)
        then have "on_board (put_pointer ?d (?v, None) ?p1) rg'"
          using set_deployment_settled [OF b1] row(1) by metis
        moreover have "board_step b (put_pointer ?d (?v, None) ?p1)"
          by (rule first [OF canary]) (use same None in simp)
        moreover have "model_at rg' ?v = model_at rg1 ?v"
          using \<open>set_deployment ?d (mm_version m) None rg1 = (Inr (), rg')\<close> by (auto simp: set_deployment_def work_simps)
        ultimately show ?thesis using board_run_one stored(1) u by metis
      next
        case (Some r)
        let ?u = "dp_current_version r"
        have ptr: "bo_pointers b ?d = Some (?u, dp_previous_version r)"
          using pointer_row [OF b1, of ?d] Some by (simp add: put_selectors)
        have dep: "deployed b ?d ?u" by (rule board_okD(2) [OF inv ptr])
        have "?u \<noteq> []"
        proof -
          obtain q where "model_at rg ?u = Some q" using dep ok by (auto simp: deployed_def on_board_def board_of_def)
          then show ?thesis using ok model_at_row [of rg ?u q] by (auto simp: on_board_def model_rows_ok_def)
        qed
        then obtain rg2 where inc: "retire_incumbent rx (kds 1) m rq identity ?u rg1 = (Inr (), rg2)"
            "set_deployment ?d (mm_version m) (Some ?u) rg2 = (Inr (), rg')"
          using deploy Some by (cases ?u) (auto simp: deploy_def Let_def work_simps)
        obtain n q n' where inc2: "get_model rx rg1 ?u identity = Inr n" "mm_state n = Production"
            "promotion_request_validate (plain_request ?u Deprecated (pq_reason rq) None) = Inr q"
            "transition rx (kds 1) False n q identity rg1 = (Inr n', rg2)"
          using inc(1) by (auto simp: retire_incumbent_def work_simps)
        have target: "pq_target_state q = Deprecated" using plain_request_Inr [OF inc2(3)] by (simp add: plain_request_def)
        note row2 = settled_row [OF b1 inc2(1)] and s2 = transition_settled [OF b1 inc2(1,4), unfolded target]
        have uv: "?u \<noteq> ?v" using dep canary by (auto simp: deployed_def)
        have made: "bo_models b ?u = Some (mm_registry_id n, Production)"
          using row2(3) inc2(2) uv by (simp add: put_selectors)
        have "board_step b (put_pointer ?d (?v, Some ?u) (put_version ?u (mm_registry_id n, Deprecated) ?p1))"
          by (rule replace [OF canary ptr made])
        moreover have "on_board (put_pointer ?d (?v, Some ?u) (put_version ?u (mm_registry_id n, Deprecated) ?p1)) rg'"
          using set_deployment_settled [OF s2(1) inc(2)] row(1) by simp
        moreover have "model_at rg' ?v = model_at rg2 ?v"
          using inc(2) by (auto simp: set_deployment_def work_simps)
        then have "model_at rg' ?v = model_at rg1 ?v"
          using transition_models(2) [OF b1 inc2(1,4)] uv by simp
        ultimately show ?thesis using board_run_one stored(1) u by metis
      qed
    qed
  qed
qed

text \<open>The steps of a rollback that succeeds.\<close>

lemma rollback_Inr:
  assumes run: "rollback_in_tables rx kds d identity reason rg = (Inr ms, rg')"
  obtains r w cur prev a q1 q2 n1 n2 rg1 rg2 where "map_of (rg_deployments rg) d = Some r" "dp_previous_version r = Some w"
    "get_model rx rg (dp_current_version r) identity = Inr cur" "get_model rx rg w identity = Inr prev"
    "approval_of prev = Some a" "mm_state cur = Production" "mm_state prev = Deprecated"
    "promotion_request_validate (plain_request (mm_version cur) Deprecated reason None) = Inr q1"
    "transition rx (kds 0) True cur q1 identity rg = (Inr n1, rg1)"
    "promotion_request_validate (plain_request (mm_version prev) Production reason (lt_evaluation_id a)) = Inr q2"
    "transition rx (kds 1) True prev q2 identity rg1 = (Inr n2, rg2)"
    "set_deployment d (mm_version prev) (Some (mm_version cur)) rg2 = (Inr (), rg')" "ms = [n1, n2]"
proof -
  obtain r w where r: "map_of (rg_deployments rg) d = Some r" "dp_previous_version r = Some w"
    using run by (cases "map_of (rg_deployments rg) d") (auto simp: rollback_in_tables_def work_simps split: option.splits)
  obtain cur prev where m12: "get_model rx rg (dp_current_version r) identity = Inr cur" "get_model rx rg w identity = Inr prev"
    using run r by (auto simp: rollback_in_tables_def work_simps)
  then obtain a where a: "approval_of prev = Some a"
    using run r by (cases "approval_of prev") (auto simp: rollback_in_tables_def work_simps)
  then show ?thesis using run r m12 that by (auto simp: rollback_in_tables_def work_simps)
qed

lemma rollback_refines:
  assumes ok: "on_board b rg" and inv: "board_ok b" and run: "rollback_in_tables rx kds d identity reason rg = (Inr ms, rg')"
  shows "\<exists>u w e f b'. bo_pointers b d = Some (u, Some w) \<and> bo_models b u = Some (e, Production) \<and> bo_models b w = Some (f, Deprecated) \<and>
    b' = put_pointer d (w, Some u) (put_version w (f, Production) (put_version u (e, Deprecated) b)) \<and> on_board b' rg' \<and> board_step b b' \<and>
    (\<exists>rw ru' rw' n1 n2. model_at rg w = Some rw \<and> approval_of (mv_data rw) \<noteq> None \<and> ms = [n1, n2] \<and>
       model_at rg' u = Some ru' \<and> mv_data ru' = n1 \<and> model_at rg' w = Some rw' \<and> mv_data rw' = n2)"
proof -
  obtain r w cur prev a q1 q2 n1 n2 rg1 rg2 where r: "map_of (rg_deployments rg) d = Some r" "dp_previous_version r = Some w"
      and m: "get_model rx rg (dp_current_version r) identity = Inr cur" "get_model rx rg w identity = Inr prev"
      "mm_state cur = Production" "mm_state prev = Deprecated"
      "promotion_request_validate (plain_request (mm_version cur) Deprecated reason None) = Inr q1"
      "transition rx (kds 0) True cur q1 identity rg = (Inr n1, rg1)"
      "promotion_request_validate (plain_request (mm_version prev) Production reason (lt_evaluation_id a)) = Inr q2"
      "transition rx (kds 1) True prev q2 identity rg1 = (Inr n2, rg2)"
      "set_deployment d (mm_version prev) (Some (mm_version cur)) rg2 = (Inr (), rg')"
    and a: "approval_of prev = Some a" "ms = [n1, n2]"
    by (rule rollback_Inr [OF run])
  let ?u = "dp_current_version r"
  have ptr: "bo_pointers b d = Some (?u, Some w)" using pointer_row [OF ok, of d] r by simp
  have targets: "pq_target_state q1 = Deprecated" "pq_target_state q2 = Production"
    using plain_request_Inr [OF m(5)] plain_request_Inr [OF m(7)] by (simp_all add: plain_request_def)
  note c = settled_row [OF ok m(1)] and p = settled_row [OF ok m(2)]
  have uw: "w \<noteq> ?u" using board_okD(3) [OF inv ptr] by simp
  note s1 = transition_settled [OF ok m(1,6), unfolded targets]
  have prev1: "get_model rx rg1 w identity = Inr prev"
  proof -
    have "model_at rg1 w = model_at rg w" by (rule transition_models(2) [OF ok m(1,6) uw])
    then show ?thesis using m(2) by (simp add: get_model_def)
  qed
  note s2 = transition_settled [OF s1(1) prev1 m(8), unfolded targets]
  let ?b' = "put_pointer d (w, Some ?u) (put_version w (mm_registry_id prev, Production) (put_version ?u (mm_registry_id cur, Deprecated) b))"
  have "on_board ?b' rg'" using set_deployment_settled [OF s2(1) m(9)] c(1) p(1) by simp
  moreover have "board_step b ?b'"
    by (rule revert [OF ptr]) (use c(3) p(3) m(3,4) in auto)
  moreover have "bo_models b ?u = Some (mm_registry_id cur, Production)" "bo_models b w = Some (mm_registry_id prev, Deprecated)"
    using c(3) p(3) m(3,4) by simp_all
  moreover have "\<exists>rw ru' rw' n1 n2. model_at rg w = Some rw \<and> approval_of (mv_data rw) \<noteq> None \<and> ms = [n1, n2] \<and>
      model_at rg' ?u = Some ru' \<and> mv_data ru' = n1 \<and> model_at rg' w = Some rw' \<and> mv_data rw' = n2"
  proof -
    obtain rw where rw: "model_at rg w = Some rw" "prev = mv_data rw" by (rule get_model_Inr [OF m(2)])
    have same: "model_at rg' v = model_at rg2 v" for v
      using m(9) by (auto simp: set_deployment_def work_simps model_at_def)
    obtain ru' where "model_at rg1 ?u = Some ru'" "mv_data ru' = n1" using transition_models(1) [OF ok m(1,6)] by blast
    moreover have "model_at rg2 ?u = model_at rg1 ?u" by (rule transition_models(2) [OF s1(1) prev1 m(8)]) (use uw in simp)
    moreover obtain rw' where "model_at rg2 w = Some rw'" "mv_data rw' = n2"
      using transition_models(1) [OF s1(1) prev1 m(8)] by blast
    ultimately show ?thesis using rw a by (simp add: same)
  qed
  ultimately show ?thesis using ptr by blast
qed

lemma complete_refines:
  assumes ok: "on_board b rg" and fresh: "fresh_manifest m" and run: "register_model rx kds job m rg = (Inr u, rg')"
  shows "\<exists>b'. board_run b b' \<and> on_board b' rg'"
proof -
  let ?row = "\<lparr>mv_version = mm_version m, mv_registry_id = mm_registry_id m, mv_tenant_ids = sort (mm_tenant_ids m), mv_data = m\<rparr>"
  let ?rg1 = "rg\<lparr>rg_models := rg_models rg @ [?row]\<rparr>"
  let ?b1 = "put_version (mm_version m) (mm_registry_id m, Candidate) b"
  let ?rest = "then_do (each_work (\<lambda>(n, t). record_transition rx (kds n) m t) (enumerate 1 (mm_lifecycle_history m))) (\<lambda>_.
     then_do (store_job job (mm_tenant_ids m)) (\<lambda>_.
     put_registry_events rx (training_events (kds 0) (succeeded_data job m) (mm_tenant_ids m))))"
  have new: "model_at rg (mm_version m) = None" and rest: "?rest ?rg1 = (Inr u, rg')"
    using run by (auto simp: register_model_def work_simps)
  have traced: "traced m" using fresh by (auto simp: fresh_manifest_def traced_def)
  have "model_at ?rg1 w = (if w = mm_version m then Some ?row else model_at rg w)" for w
    using new by (auto simp: model_at_def find_append split: option.split)
  then have begun: "on_board ?b1 ?rg1"
    using ok fresh traced by (auto simp: on_board_def model_rows_ok_def board_of_def put_version_def placed_def fresh_manifest_def fun_eq_iff)
  have "keeps (on_board ?b1) ?rest"
    by (intro quiet_rules quiet keeps_each_work) (simp_all add: case_prod_beta quiet)
  from keepsD [OF this begun] have "on_board ?b1 rg'" by (simp only: rest snd_conv)
  moreover have "board_step b ?b1"
    by (rule register) (use ok new in \<open>auto simp: on_board_def board_of_def\<close>)
  ultimately show ?thesis using board_run_one by blast
qed

definition refining :: "board \<Rightarrow> registry_tables \<Rightarrow> registry_tables \<Rightarrow> bool" where
  "refining b rg rg' \<longleftrightarrow> (\<exists>b'. board_run b b' \<and> on_board b' rg')"

lemma refining_same: "on_board b rg \<Longrightarrow> refining b rg rg"
  using stay by (auto simp: refining_def)

lemma refining_keeps: "keeps (on_board b) m \<Longrightarrow> on_board b rg \<Longrightarrow> refining b rg (snd (m rg))"
  using stay by (auto simp: refining_def keeps_def)

lemma refining_atomic:
  "on_board b rg \<Longrightarrow> (\<And>x rg'. m rg = (Inr x, rg') \<Longrightarrow> refining b rg rg') \<Longrightarrow> refining b rg (snd (atomic m rg))"
  by (cases "m rg") (auto simp: atomic_def refining_same split: sum.splits)

lemma refining_guarded:
  "on_board b rg \<Longrightarrow> (\<And>x. r = Inr x \<Longrightarrow> refining b rg (snd (f x rg))) \<Longrightarrow> refining b rg (snd (then_do (lift_result r) f rg))"
  by (cases r) (simp_all add: then_do_def refining_same)

lemma event_refines:
  assumes ok: "on_board b rg" and inv: "board_ok b" and event: "proper (snd e)"
  shows "refining b rg (registry_apply e rg)"
proof -
  obtain rx ev where e: "e = (rx, ev)" by force
  show ?thesis
  proof (cases ev)
    case (CompleteEvent kds job m architecture)
    have "refining b rg rg'" if "register_model rx kds job m rg = (Inr u, rg')" for u rg'
      using complete_refines [OF ok _ that] event unfolding e CompleteEvent refining_def by simp
    then show ?thesis unfolding e CompleteEvent registry_apply.simps complete_def require_def
      by (intro refining_guarded refining_atomic ok)
  next
    case (PromoteEvent kds rq identity)
    have "refining b rg rg'" if "promote_in_tables rx kds rq identity rg = (Inr m', rg')" for m' rg'
      using promote_refines [OF ok inv that] unfolding refining_def by blast
    then show ?thesis unfolding e PromoteEvent registry_apply.simps promote_def
      by (intro refining_guarded refining_atomic ok)
  next
    case (RollbackEvent kds d identity reason)
    have "refining b rg rg'" if "rollback_in_tables rx kds d identity reason rg = (Inr ms, rg')" for ms rg'
      using rollback_refines [OF ok inv that] board_run_one unfolding refining_def by blast
    then show ?thesis unfolding e RollbackEvent registry_apply.simps rollback_def
      by (intro refining_guarded refining_atomic ok)
  qed (use ok in \<open>simp_all add: e refining_keeps quiet_jobs quiet_publish\<close>)
qed

lemma settled_new: "on_board empty_board registry_new"
  by (simp add: on_board_def model_rows_ok_def registry_new_def board_of_def empty_board_def model_at_def)

lemma run_refines:
  "\<forall>e \<in> set es. proper (snd e) \<Longrightarrow> on_board b rg \<Longrightarrow> board_ok b \<Longrightarrow>
   \<exists>b'. board_run b b' \<and> on_board b' (registry_run es rg)"
proof (induction es arbitrary: b rg)
  case (Cons e es)
  obtain c where c: "board_run b c" "on_board c (registry_apply e rg)"
    using event_refines [OF Cons.prems(2,3), of e] Cons.prems(1) by (auto simp: refining_def)
  obtain c' where "board_run c c'" "on_board c' (registry_run es (registry_apply e rg))"
    using Cons.IH [OF _ c(2) board_run_ok [OF c(1) Cons.prems(3)]] Cons.prems(1) by auto
  then show ?case using board_run_trans c(1) by (auto simp: registry_run_def)
qed (auto simp: registry_run_def intro: stay)

lemma promoted_state:
  assumes ok: "on_board b rg" and run: "promote_in_tables rx kds rq identity rg = (Inr m', rg')"
    and row: "model_at rg (pq_model_version rq) = Some q" and "mm_registry_id (mv_data q) = d" and "pq_target_state rq = t"
  shows "mm_state m' = t \<and> mm_registry_id m' = d"
proof -
  obtain m where m: "get_model rx rg (pq_model_version rq) identity = Inr m"
    using run by (auto simp: promote_in_tables_def work_simps)
  have "m = mv_data q" using get_model_Inr [OF m] row by force
  show ?thesis
  proof (cases "repeated m rq identity")
    case True
    then have "m' = m" using run m by (auto simp: promote_in_tables_def work_simps)
    then show ?thesis using True assms(4,5) \<open>m = mv_data q\<close> by (simp add: repeated_def)
  next
    case False
    then obtain rg1 where "transition rx (kds 0) False m rq identity rg = (Inr m', rg1)"
      using run m by (auto simp: promote_in_tables_def work_simps)
    from transition_settled(3,4) [OF ok m this] show ?thesis using assms(4,5) \<open>m = mv_data q\<close> by simp
  qed
qed

end
