(* ===== verification/Deployments.thy ===== *)
theory Deployments
  imports Registry_Laws
begin

text \<open>
  What the registry guarantees of the deployments it manages: one production version for each, with
  the pointer on it; a rollback that exactly swaps the two versions of the pointer; approvals that
  rest on a passed report; retries that change nothing; and the state in which a deployment can no
  longer be moved.
\<close>

section \<open>Consistent tables\<close>

definition consistent :: "registry_tables \<Rightarrow> bool" where
  "consistent rg \<longleftrightarrow> model_rows_ok rg \<and> board_ok (board_of rg)"

lemma consistent_settled: "consistent rg \<longleftrightarrow> on_board (board_of rg) rg \<and> board_ok (board_of rg)"
  by (simp add: consistent_def on_board_def)

lemma consistent_run:
  assumes "consistent rg" and "\<forall>e \<in> set es. proper (snd e)"
  shows "consistent (registry_run es rg)" and "board_run (board_of rg) (board_of (registry_run es rg))"
  using run_refines [OF assms(2), of "board_of rg" rg] assms(1) board_run_ok
  by (auto simp: consistent_settled on_board_def)

lemma board_of_model: "model_at rg v = Some r \<Longrightarrow> bo_models (board_of rg) v = Some (mm_registry_id (mv_data r), mm_state (mv_data r))"
  by (simp add: board_of_def placed_def)

lemma board_of_pointer:
  "map_of (rg_deployments rg) d = Some p \<Longrightarrow> bo_pointers (board_of rg) d = Some (dp_current_version p, dp_previous_version p)"
  by (simp add: board_of_def)

lemma board_of_models_Some:
  "bo_models (board_of rg) v = Some x \<Longrightarrow> \<exists>r. model_at rg v = Some r \<and> x = (mm_registry_id (mv_data r), mm_state (mv_data r))"
  by (auto simp: board_of_def placed_def)

section \<open>Properties\<close>

text \<open>C11. The registry refines its specification. Whatever the configuration, the gates and the
  evaluations say, every sequence of operations of the registry, with publications of reports and
  jobs in between, moves the board of versions and pointers only by the steps of the abstract
  board: a candidate is registered, a version moves along an edge of the lifecycle, production is
  taken over from the incumbent or swapped back. The empty registry is the empty board. Registered
  manifests are fresh candidates (\<open>proper\<close>), which is what every caller of the registry builds.\<close>

theorem registry_refines_board:
  assumes "\<forall>e \<in> set es. proper (snd e)" and "consistent rg"
  shows "consistent registry_new \<and> board_of registry_new = empty_board \<and>
    consistent (registry_run es rg) \<and> board_run (board_of rg) (board_of (registry_run es rg))"
  using consistent_run [OF assms(2,1)] settled_new by (auto simp: consistent_settled on_board_def)

text \<open>C4. One version in production. In every state the registry reaches, at most one version of a
  deployment is in production, and the pointer of the deployment names it. Registered
  manifests are fresh candidates (\<open>proper\<close>), which is what every caller of the registry builds.\<close>

theorem one_production_version:
  assumes "consistent rg" and "\<forall>e \<in> set es. proper (snd e)" and "rg' = registry_run es rg"
    and "model_at rg' v = Some r" and "mm_state (mv_data r) = Production"
    and "model_at rg' w = Some q" and "mm_state (mv_data q) = Production"
    and "mm_registry_id (mv_data q) = mm_registry_id (mv_data r)"
  shows "w = v \<and> (\<exists>p. map_of (rg_deployments rg') (mm_registry_id (mv_data r)) = Some p \<and> dp_current_version p = v)"
proof -
  have ok: "board_ok (board_of rg')" using consistent_run(1) [OF assms(1,2)] assms(3) by (simp add: consistent_def)
  obtain p where "bo_pointers (board_of rg') (mm_registry_id (mv_data r)) = Some (v, p)"
    using board_okD(1) [OF ok] board_of_model [OF assms(4)] assms(5) by fastforce
  moreover obtain p' where "bo_pointers (board_of rg') (mm_registry_id (mv_data r)) = Some (w, p')"
    using board_okD(1) [OF ok] board_of_model [OF assms(6)] assms(7,8) by fastforce
  ultimately show ?thesis by (auto simp: board_of_def)
qed

text \<open>C31. Nothing is served that was not approved. In every state the registry reaches, a version
  carries the history that explains its state: it begins as a candidate, every transition starts
  where the one before ended and follows an edge of the lifecycle or a rollback, and a version that
  is approved, in shadow, canary or production or was retired has an approval in it. Registered
  manifests are fresh candidates (\<open>proper\<close>), which is what every caller of the registry builds.\<close>

theorem served_versions_were_approved:
  assumes "consistent rg" and "\<forall>e \<in> set es. proper (snd e)" and "model_at (registry_run es rg) v = Some r"
  shows "(\<exists>t ts. mm_lifecycle_history (mv_data r) = t # ts \<and> lt_from_state t = None \<and> lt_to_state t = Candidate \<and>
      follows Candidate ts (mm_state (mv_data r))) \<and>
    (mm_state (mv_data r) \<in> set served_states \<longrightarrow> approval_of (mv_data r) \<noteq> None)"
proof -
  have "model_rows_ok (registry_run es rg)" using consistent_run(1) [OF assms(1,2)] by (simp add: consistent_def)
  then have traced: "traced (mv_data r)" using model_at_row [OF assms(3)] by (auto simp: model_rows_ok_def)
  moreover have "approval_of (mv_data r) \<noteq> None" if "mm_state (mv_data r) \<in> set served_states"
  proof -
    obtain t ts where "mm_lifecycle_history (mv_data r) = t # ts" "follows Candidate ts (mm_state (mv_data r))"
      using traced by (auto simp: traced_def)
    moreover have "Candidate \<notin> set served_states" by (simp add: served_states_def)
    ultimately have "\<exists>x \<in> set (rev (mm_lifecycle_history (mv_data r))). lt_from_state x = Some Evaluating \<and> lt_to_state x = Approved"
      using follows_served [of Candidate ts "mm_state (mv_data r)"] that by auto
    then show ?thesis unfolding approval_of_def find_None_iff2 by blast
  qed
  ultimately show ?thesis by (auto simp: traced_def)
qed

text \<open>C12. An approval rests on evidence. When a promotion takes a version to \<open>approved\<close>, the request
  names a report that the store holds intact and that passed: all its gates hold, it measured this
  very version and artifact on the model's one dataset, or for a pruned model on the evaluation
  dataset of its pruning, by identifier, version and digest; a router was measured on the routing
  suite; and for a specialist the baseline it was compared with is the locked one, by report and
  version, and passed too, and what a pruned or distilled model must show besides was shown; the
  artifact verified at that moment.\<close>

theorem approval_needs_evidence:
  assumes "promote rx kds rq identity rg = (Inr m', rg')" and "rg' \<noteq> rg" and "pq_target_state rq = Approved"
  shows "\<exists>m d i r gs. get_model rx rg (pq_model_version rq) identity = Inr m \<and> pq_evaluation_id rq = Some i \<and>
    get_report rx rg i identity = Inr (Some r) \<and> er_passed r \<and> decisions (rx_targets rx) r = Inr gs \<and> all_passed gs \<and>
    (case mm_pruning m of None \<Rightarrow> mm_datasets m = [d] | Some p \<Rightarrow> pn_evaluation_dataset p = d) \<and>
    ev_candidate_deployment_id (er_specification r) = mm_version m \<and> er_candidate_manifest_version r = mm_version m \<and>
    er_candidate_artifact_digest r = Some (mm_artifact_digest m) \<and>
    ev_dataset_id (er_specification r) = dg_dataset_id d \<and> ev_dataset_version (er_specification r) = dg_version d \<and>
    er_dataset_content_digest r = dg_content_digest d \<and>
    (mm_adapter_architecture m = router_architecture \<longrightarrow> ev_suites (er_specification r) = [RoutingSuite]) \<and>
    (mm_adapter_architecture m \<noteq> router_architecture \<longrightarrow>
      (\<exists>deployment b. ev_baseline_deployment_id (er_specification r) = Some deployment \<and>
        baseline rx rg deployment (dg_version d) identity = Inr (Some b) \<and> er_passed b \<and>
        er_baseline_report_id r = Some (ev_evaluation_id (er_specification b)) \<and>
        er_baseline_manifest_version r = Some (er_candidate_manifest_version b) \<and>
        ev_dataset_id (er_specification b) = dg_dataset_id d \<and>
        structure_passed rx m r identity = Inr True)) \<and>
    is_ok (verify_artifact (rx_hash rx) (rx_keyring rx) (rx_dump rx) m (rx_directory rx (mm_storage_location m)))"
proof -
  obtain m where m: "get_model rx rg (pq_model_version rq) identity = Inr m"
      and steps: "promote_in_tables rx kds rq identity rg = (Inr m', rg')"
    using assms(1) by (auto simp: promote_def promote_in_tables_def work_simps)
  have "\<not> repeated m rq identity" using steps m assms(2) by (auto simp: promote_in_tables_def work_simps)
  then obtain u rg1 where t: "transition rx (kds 0) False m rq identity rg = (Inr u, rg1)"
    using steps m by (auto simp: promote_in_tables_def work_simps)
  obtain ok x where e: "evidence_for rx rg False m rq identity = Inr ok"
      "permitted (mm_state m) (request_of False ok rq identity)" "intact rx m rq = Inr ()"
    by (rule transition_Inr [OF t])
  have "ok" using e(2) assms(3) by (simp add: permitted_def request_of_def)
  then have passed: "passed rx rg m (pq_evaluation_id rq) identity = Inr True" using e(1) by (simp add: evidence_for_def)
  have art: "is_ok (verify_artifact (rx_hash rx) (rx_keyring rx) (rx_dump rx) m (rx_directory rx (mm_storage_location m)))"
    using e(3) assms(3) by (auto simp: intact_def bindE_Inr_iff)
  obtain d i found where d: "(case mm_pruning m of Some p \<Rightarrow> Inr (pn_evaluation_dataset p) | None \<Rightarrow> dataset_of m) = Inr d"
      "pq_evaluation_id rq = Some i" "get_report rx rg i identity = Inr found"
      "(if mm_adapter_architecture m = router_architecture then router_passed rx m d found
        else specialist_passed rx rg m d found identity) = Inr True"
    using passed by (auto simp: passed_def bindE_Inr_iff split: option.splits)
  have single: "case mm_pruning m of None \<Rightarrow> mm_datasets m = [d] | Some p \<Rightarrow> pn_evaluation_dataset p = d"
    using d(1) by (auto simp: dataset_of_def split: list.splits option.splits)
  show ?thesis
  proof (cases "mm_adapter_architecture m = router_architecture")
    case True
    then obtain r where "found = Some r" "er_passed r" "gates_hold rx r = Inr True" "matches_candidate m d r"
        "ev_suites (er_specification r) = [RoutingSuite]"
      using d(4) by (auto simp: router_passed_def bindE_Inr_iff split: option.splits if_splits)
    then show ?thesis using m d(2,3) single art True by (auto simp: gates_hold_def matches_candidate_def bindE_Inr_iff)
  next
    case False
    then have sp: "specialist_passed rx rg m d found identity = Inr True" using d(4) by simp
    then obtain r deployment where r: "found = Some r" "ev_baseline_deployment_id (er_specification r) = Some deployment"
      by (auto simp: specialist_passed_def split: option.splits)
    then obtain b where "baseline rx rg deployment (dg_version d) identity = Inr (Some b)" "er_passed b" "er_passed r"
        "gates_hold rx r = Inr True" "matches_candidate m d r" "matches_baseline d r b" "structure_passed rx m r identity = Inr True"
      using sp by (auto simp: specialist_passed_def bindE_Inr_iff split: option.splits if_splits)
    then show ?thesis using m d(2,3) single art r False
      by (auto simp: gates_hold_def matches_candidate_def matches_baseline_def bindE_Inr_iff)
  qed
qed

text \<open>C3. A deployment whose current version was revoked cannot be moved any more. Once the version
  the pointer names is revoked, no sequence of operations puts a version of that deployment into
  production again, every promotion to production is refused, and so is every rollback; the pointer
  stays on the revoked version for good. Registered
  manifests are fresh candidates (\<open>proper\<close>), which is what every caller of the registry builds.\<close>

theorem revoked_incumbent_blocks:
  assumes "consistent rg" and "map_of (rg_deployments rg) d = Some p"
    and "model_at rg (dp_current_version p) = Some r" and "mm_state (mv_data r) = Revoked"
    and "\<forall>e \<in> set es. proper (snd e)" and "rg' = registry_run es rg"
  shows "(\<exists>p'. map_of (rg_deployments rg') d = Some p' \<and> dp_current_version p' = dp_current_version p) \<and>
    (\<forall>v q. model_at rg' v = Some q \<and> mm_registry_id (mv_data q) = d \<longrightarrow> mm_state (mv_data q) \<noteq> Production) \<and>
    (\<forall>rx kds rq identity q. model_at rg' (pq_model_version rq) = Some q \<and> mm_registry_id (mv_data q) = d \<and>
       pq_target_state rq = Production \<longrightarrow> \<not> is_ok (fst (promote (rx :: 'k registry_env) kds rq identity rg'))) \<and>
    (\<forall>rx kds identity reason. \<not> is_ok (fst (rollback (rx :: 'k registry_env) kds d identity reason rg')))"
proof -
  let ?u = "dp_current_version p" and ?b = "board_of rg'"
  have inv: "board_ok (board_of rg)" using assms(1) by (simp add: consistent_def)
  have "deployed (board_of rg) d ?u" by (rule board_okD(2) [OF inv board_of_pointer [OF assms(2)]])
  then have "withdrawn d ?u (board_of rg)"
    using board_of_pointer [OF assms(2)] board_of_model [OF assms(3)] assms(4) by (auto simp: withdrawn_def deployed_def)
  then have w: "withdrawn d ?u ?b"
    using withdrawn_run consistent_run(2) [OF assms(1,5)] inv assms(6) by blast
  have ok: "on_board ?b rg'" "board_ok ?b" using consistent_run(1) [OF assms(1,5)] assms(6) by (simp_all add: consistent_settled)
  have pointer: "\<exists>p'. map_of (rg_deployments rg') d = Some p' \<and> dp_current_version p' = ?u"
    using w by (auto simp: withdrawn_def board_of_def)
  have none: "mm_state (mv_data q) \<noteq> Production" if "model_at rg' v = Some q" "mm_registry_id (mv_data q) = d" for v q
    using withdrawn_unserved [OF ok(2) w, of v] board_of_model [OF that(1)] that(2) by auto
  moreover have "\<not> is_ok (fst (promote rx kds rq identity rg'))"
    if q: "model_at rg' (pq_model_version rq) = Some q" "mm_registry_id (mv_data q) = d" "pq_target_state rq = Production"
    for rx :: "'k registry_env" and kds rq identity q
  proof
    assume "is_ok (fst (promote rx kds rq identity rg'))"
    then obtain m' rg2 where "promote rx kds rq identity rg' = (Inr m', rg2)" by (metis is_ok_iff prod.collapse)
    then have run: "promote_in_tables rx kds rq identity rg' = (Inr m', rg2)" by (auto simp: promote_def work_simps)
    obtain b' q' where b': "board_run ?b b'" "on_board b' rg2" "model_at rg2 (pq_model_version rq) = Some q'" "mv_data q' = m'"
      using promote_refines [OF ok run] by blast
    have "mm_state m' = Production \<and> mm_registry_id m' = d" by (rule promoted_state [OF ok(1) run q])
    then have "bo_models b' (pq_model_version rq) = Some (d, Production)"
      using b'(2-4) board_of_model [OF b'(3)] by (auto simp: on_board_def)
    then show False using withdrawn_unserved [OF board_run_ok [OF b'(1) ok(2)] withdrawn_run [OF b'(1) ok(2) w]] by blast
  qed
  moreover have "\<not> is_ok (fst (rollback rx kds d identity reason rg'))" for rx :: "'k registry_env" and kds identity reason
  proof
    assume "is_ok (fst (rollback rx kds d identity reason rg'))"
    then obtain ms rg2 where "rollback rx kds d identity reason rg' = (Inr ms, rg2)" by (metis is_ok_iff prod.collapse)
    then have "rollback_in_tables rx kds d identity reason rg' = (Inr ms, rg2)" by (auto simp: rollback_def work_simps)
    from rollback_refines [OF ok this] show False using w by (auto simp: withdrawn_def)
  qed
  ultimately show ?thesis using pointer by blast
qed

text \<open>C30. A rollback swaps exactly two versions. It succeeds only for a deployment with a current
  version in production and a previous one that was retired after an approval; then the previous
  one is in production, the current one is retired, the pointer has the two exchanged, and no other
  version or deployment has moved. The two manifests it returns, the retired and the restored one,
  are those now stored.\<close>

theorem rollback_swaps:
  assumes "consistent rg" and "rollback rx kds d identity reason rg = (Inr ms, rg')"
  shows "\<exists>u w ru rw. map_of (rg_deployments rg) d = Some \<lparr>dp_current_version = u, dp_previous_version = Some w\<rparr> \<and>
    model_at rg u = Some ru \<and> mm_state (mv_data ru) = Production \<and>
    model_at rg w = Some rw \<and> mm_state (mv_data rw) = Deprecated \<and> approval_of (mv_data rw) \<noteq> None \<and>
    (\<exists>ru' rw'. model_at rg' u = Some ru' \<and> model_at rg' w = Some rw' \<and> ms = [mv_data ru', mv_data rw']) \<and>
    map_of (rg_deployments rg') d = Some \<lparr>dp_current_version = w, dp_previous_version = Some u\<rparr> \<and>
    (\<forall>v. bo_models (board_of rg') v =
       (if v = w then Some (mm_registry_id (mv_data rw), Production)
        else if v = u then Some (mm_registry_id (mv_data ru), Deprecated) else bo_models (board_of rg) v)) \<and>
    (\<forall>c. c \<noteq> d \<longrightarrow> bo_pointers (board_of rg') c = bo_pointers (board_of rg) c)"
proof -
  have ok: "on_board (board_of rg) rg" "board_ok (board_of rg)" using assms(1) by (simp_all add: consistent_settled)
  have run: "rollback_in_tables rx kds d identity reason rg = (Inr ms, rg')" using assms(2) by (auto simp: rollback_def work_simps)
  obtain u w e f b' where b: "bo_pointers (board_of rg) d = Some (u, Some w)" "bo_models (board_of rg) u = Some (e, Production)"
      "bo_models (board_of rg) w = Some (f, Deprecated)"
      "b' = put_pointer d (w, Some u) (put_version w (f, Production) (put_version u (e, Deprecated) (board_of rg)))" "on_board b' rg'"
      and results: "\<exists>rw ru' rw' n1 n2. model_at rg w = Some rw \<and> approval_of (mv_data rw) \<noteq> None \<and> ms = [n1, n2] \<and>
        model_at rg' u = Some ru' \<and> mv_data ru' = n1 \<and> model_at rg' w = Some rw' \<and> mv_data rw' = n2"
    using rollback_refines [OF ok run] by (elim exE conjE) (rule that, blast+)
  have b': "board_of rg' = b'" using b(5) by (simp add: on_board_def)
  obtain ru rw where r: "model_at rg u = Some ru" "(e, Production) = (mm_registry_id (mv_data ru), mm_state (mv_data ru))"
      "model_at rg w = Some rw" "(f, Deprecated) = (mm_registry_id (mv_data rw), mm_state (mv_data rw))"
    using board_of_models_Some [OF b(2)] board_of_models_Some [OF b(3)] by blast
  obtain p where p: "map_of (rg_deployments rg) d = Some p" "dp_current_version p = u" "dp_previous_version p = Some w"
    using b(1) by (auto simp: board_of_def)
  have "bo_pointers (board_of rg') d = Some (w, Some u)" unfolding b' b(4) by (simp add: put_selectors)
  then obtain p' where p': "map_of (rg_deployments rg') d = Some p'" "dp_current_version p' = w" "dp_previous_version p' = Some u"
    by (auto simp: board_of_def)
  have "bo_models (board_of rg') v = (if v = w then Some (mm_registry_id (mv_data rw), Production)
        else if v = u then Some (mm_registry_id (mv_data ru), Deprecated) else bo_models (board_of rg) v)" for v
    unfolding b' b(4) put_selectors using r by simp
  moreover have "bo_pointers (board_of rg') c = bo_pointers (board_of rg) c" if "c \<noteq> d" for c
    unfolding b' b(4) put_selectors using that by simp
  moreover have "p = \<lparr>dp_current_version = u, dp_previous_version = Some w\<rparr>" "p' = \<lparr>dp_current_version = w, dp_previous_version = Some u\<rparr>"
    subgoal using p(2,3) by (cases p) simp
    subgoal using p'(2,3) by (cases p') simp
    done
  ultimately show ?thesis using p(1) p'(1) r results by auto
qed

text \<open>A dump does not depend on the fields it is told to leave out.\<close>

definition dump_excludes :: "manifest_dump \<Rightarrow> bool" where
  "dump_excludes dump \<longleftrightarrow> (\<forall>m st es h. dump (excluded_fields m) (m\<lparr>mm_state := st, mm_lifecycle_history := h, mm_evaluation_reports := es\<rparr>) =
     dump (excluded_fields m) m)"

lemma metadata_of_moved:
  assumes "dump_excludes dump"
  shows "verify_model_metadata hf (k :: 'k keyring) dump (m\<lparr>mm_state := st, mm_lifecycle_history := h, mm_evaluation_reports := es\<rparr>) =
    verify_model_metadata hf k dump m"
proof -
  let ?m = "m\<lparr>mm_state := st, mm_lifecycle_history := h, mm_evaluation_reports := es\<rparr>"
  have "excluded_fields ?m = excluded_fields m" by (simp add: excluded_fields_def)
  moreover have "dump (excluded_fields m) ?m = dump (excluded_fields m) m" using assms by (simp add: dump_excludes_def)
  moreover have parts: "sr_signature ?m = sr_signature m" "sr_signature_key_id ?m = sr_signature_key_id m"
    "sr_signature_version ?m = sr_signature_version m" by simp_all
  have "verify_record ?m v p = verify_record m v p" for v :: "'k verifier option" and p
    by (rule ext) (unfold verify_record_def parts, rule refl)
  ultimately show ?thesis
    by (simp add: verify_model_metadata_def signed_metadata_def signed_def plain_capabilities_def)
qed

text \<open>C32. A retried promotion changes nothing. When the dump of a manifest leaves out the fields it is
  told to leave out, the same request by the same operator, sent again after it succeeded, returns
  the manifest that the first one returned and changes neither state nor pointer nor events.\<close>

theorem promotion_retry_is_idle:
  assumes "consistent rg" and "dump_excludes (rx_dump rx)" and "promote rx kds rq identity rg = (Inr m', rg')"
  shows "promote rx kds' rq identity rg' = (Inr m', rg')"
proof -
  have ok: "on_board (board_of rg) rg" "board_ok (board_of rg)" using assms(1) by (simp_all add: consistent_settled)
  have run: "promote_in_tables rx kds rq identity rg = (Inr m', rg')" and auth: "authorize_dataset identity [] = Inr ()"
    using assms(3) by (auto simp: promote_def work_simps)
  obtain m where m: "get_model rx rg (pq_model_version rq) identity = Inr m"
      and actor: "pq_actor rq = None \<or> pq_actor rq = id_subject identity"
    using run by (auto simp: promote_in_tables_def work_simps)
  obtain r where stored: "model_at rg' (pq_model_version rq) = Some r" "mv_data r = m'"
    using promote_refines [OF ok run] by blast
  obtain row where row: "set (mm_tenant_ids m) \<subseteq> set (id_dataset_tenants identity)"
      "verify_model_metadata (rx_hash rx) (rx_keyring rx) (rx_dump rx) m = Inr ()"
    by (rule get_model_Inr [OF m])
  have "repeated m' rq identity \<and> mm_tenant_ids m' = mm_tenant_ids m \<and>
      verify_model_metadata (rx_hash rx) (rx_keyring rx) (rx_dump rx) m' = Inr ()"
  proof (cases "repeated m rq identity")
    case True
    then have "m' = m" using run m by (auto simp: promote_in_tables_def work_simps)
    then show ?thesis using True row by simp
  next
    case False
    then obtain rg1 where t: "transition rx (kds 0) False m rq identity rg = (Inr m', rg1)"
      using run m by (auto simp: promote_in_tables_def work_simps)
    obtain ok' x where x: "new_transition (kds 0) m rq identity = Inr x" "m' = moved False ok' m rq x"
      by (rule transition_Inr [OF t])
    have "repeated m' rq identity"
      using new_transition_Inr(3-5) [OF x(1)] x(2) by (simp add: repeated_def moved_def)
    moreover have "verify_model_metadata (rx_hash rx) (rx_keyring rx) (rx_dump rx) m' =
        verify_model_metadata (rx_hash rx) (rx_keyring rx) (rx_dump rx) m"
      unfolding x(2) moved_def by (rule metadata_of_moved [OF assms(2)])
    ultimately show ?thesis using row x(2) by (simp add: moved_def)
  qed
  then have "get_model rx rg' (pq_model_version rq) identity = Inr m'" "repeated m' rq identity"
    using stored row(1) auth by (simp_all add: get_model_def)
  then show ?thesis using auth actor
    by (auto simp: promote_def promote_in_tables_def then_do_def atomic_def require_eval)
qed

section \<open>Examples\<close>

definition keeper_env :: "unit registry_env" where
  "keeper_env = \<lparr>rx_hash = echo_hashes, rx_keyring = plain_keyring,
     rx_codec = \<lparr>cd_dump = (\<lambda>_. []), cd_load = (\<lambda>_. None), cd_payload = (\<lambda>_. [])\<rparr>, rx_dump = no_dump, rx_created = (\<lambda>_. []),
     rx_directory = (\<lambda>_. Some router_directory), rx_targets = initial_targets, rx_progression = Some (\<lambda>_ _ _. Inr ()),
     rx_benchmark = None, rx_pending_limit = 10\<rparr>"

definition made :: "lifecycle_state option \<Rightarrow> lifecycle_state \<Rightarrow> lifecycle_transition" where
  "made s t = \<lparr>lt_from_state = s, lt_to_state = t, lt_actor = ''op'', lt_at = 1, lt_reason = ''go'', lt_evaluation_id = None\<rparr>"

definition path_to_canary :: "lifecycle_transition list" where
  "path_to_canary = [made None Candidate, made (Some Candidate) Evaluating, made (Some Evaluating) Approved,
     made (Some Approved) Shadow, made (Some Shadow) Canary]"

definition sample_row :: "string \<Rightarrow> lifecycle_state \<Rightarrow> lifecycle_transition list \<Rightarrow> model_row" where
  "sample_row v st ts = \<lparr>mv_version = v, mv_registry_id = ''r'', mv_tenant_ids = [''t''],
     mv_data = (router_manifest v st)\<lparr>mm_lifecycle_history := path_to_canary @ ts\<rparr>\<rparr>"

definition registry_of :: "model_row list \<Rightarrow> (ident \<times> deployment_row) list \<Rightarrow> registry_tables" where
  "registry_of ms ds = registry_new\<lparr>rg_models := ms, rg_deployments := ds\<rparr>"

definition in_production :: "lifecycle_transition list" where
  "in_production = [made (Some Canary) Production]"

definition retired_history :: "lifecycle_transition list" where
  "retired_history = [made (Some Canary) Production, made (Some Production) Deprecated]"

definition revoked_history :: "lifecycle_transition list" where
  "revoked_history = [made (Some Canary) Production, made (Some Production) Revoked]"

lemmas registry_samples = registry_of_def registry_new_def sample_row_def path_to_canary_def made_def
  in_production_def retired_history_def revoked_history_def

lemma router_fields [simp]:
  "mm_version (router_manifest v st) = v" "mm_registry_id (router_manifest v st) = ''r''"
  "mm_state (router_manifest v st) = st" "mm_tenant_ids (router_manifest v st) = [''t'']"
  "mm_adapter_architecture (router_manifest v st) = ''router-logistic-v1''" "mm_pruning (router_manifest v st) = None"
  "mm_datasets (router_manifest v st) = [\<lparr>dg_dataset_id = ''d'', dg_version = ''1'', dg_content_digest = ''c'', dg_weight = 1\<rparr>]"
  "mm_storage_location (router_manifest v st) = ''models/r/v''" "mm_lifecycle_history (router_manifest v st) = []"
  by (simp_all add: router_manifest_def)

lemma sample_rows_ok:
  assumes "\<forall>(v, st, ts) \<in> set xs. v \<noteq> [] \<and> follows Canary ts st"
  shows "model_rows_ok (registry_of (map (\<lambda>(v, st, ts). sample_row v st ts) xs) ds)"
  using assms by (fastforce simp: model_rows_ok_def registry_of_def registry_new_def sample_row_def traced_def path_to_canary_def
      made_def allowed_edges_def)

definition revoked_registry :: registry_tables where
  "revoked_registry = registry_of [sample_row ''a'' Revoked revoked_history, sample_row ''b'' Canary []]
     [(''r'', \<lparr>dp_current_version = ''a'', dp_previous_version = None\<rparr>)]"

definition swap_registry :: registry_tables where
  "swap_registry = registry_of [sample_row ''a'' Production in_production, sample_row ''b'' Deprecated retired_history]
     [(''r'', \<lparr>dp_current_version = ''a'', dp_previous_version = Some ''b''\<rparr>)]"

lemma revoked_consistent: "consistent revoked_registry"
proof -
  have "model_rows_ok revoked_registry"
    using sample_rows_ok [of "[(''a'', Revoked, revoked_history), (''b'', Canary, [])]"]
    by (simp add: revoked_registry_def revoked_history_def made_def allowed_edges_def)
  moreover have "board_ok (board_of revoked_registry)"
    by (auto simp: board_ok_def deployed_def board_of_def placed_def model_at_def revoked_registry_def registry_of_def sample_row_def
        split: if_splits)
  ultimately show ?thesis by (simp add: consistent_def)
qed

lemma swap_consistent: "consistent swap_registry"
proof -
  have "model_rows_ok swap_registry"
    using sample_rows_ok [of "[(''a'', Production, in_production), (''b'', Deprecated, retired_history)]"]
    by (simp add: swap_registry_def in_production_def retired_history_def made_def allowed_edges_def)
  moreover have "board_ok (board_of swap_registry)"
    by (auto simp: board_ok_def deployed_def board_of_def placed_def model_at_def swap_registry_def registry_of_def sample_row_def
        split: if_splits)
  ultimately show ?thesis by (simp add: consistent_def)
qed

definition to_production :: promotion_request where
  "to_production = plain_request ''b'' Production ''go'' None"

definition sample_draws :: "nat \<Rightarrow> control_draws" where
  "sample_draws k = \<lparr>kd_now = (\<lambda>_. 1), kd_uid = (\<lambda>n. replicate k CHR ''k'' @ replicate n CHR ''u''), kd_clock = (\<lambda>_. 0)\<rparr>"

definition keeper :: identity where
  "keeper = \<lparr>id_tenant_id = ''t'', id_application_ids = [], id_environment = Local, id_subject = Some ''op'',
     id_key_class = OperatorKey, id_dataset_tenants = [''t''], id_capabilities = []\<rparr>"

lemma keeper_authorized [simp]: "authorize_dataset keeper [] = Inr ()"
  by (simp add: authorize_dataset_def keeper_def)

lemma sample_verified:
  "verify_model_metadata echo_hashes plain_keyring no_dump ((router_manifest v st)\<lparr>mm_lifecycle_history := h\<rparr>) = Inr ()"
  by (simp add: verify_model_metadata_def router_manifest_def signed_def accepts_legacy_mac_def plain_keyring_def
      keyring_new_def signed_metadata_def no_dump_def)

lemma sample_artifact:
  "verify_artifact echo_hashes plain_keyring no_dump ((router_manifest v st)\<lparr>mm_lifecycle_history := h\<rparr>) (Some router_directory) =
     Inr [(''router.json'', ''body'')]"
  by (simp add: verify_artifact_def sample_verified)
    (simp add: router_manifest_def router_directory_def files_of_def List.map_filter_def read_verified_def same_set_def
      safe_relative_def starts_with_def)

lemma sample_model:
  assumes "model_at rg v = Some (sample_row v st ts)"
  shows "get_model keeper_env rg v keeper = Inr ((router_manifest v st)\<lparr>mm_lifecycle_history := path_to_canary @ ts\<rparr>)"
  using assms by (simp add: get_model_def sample_row_def keeper_env_def sample_verified) (simp add: keeper_def)

lemma keeper_env_fields [simp]:
  "rx_hash keeper_env = echo_hashes" "rx_keyring keeper_env = plain_keyring" "rx_dump keeper_env = no_dump"
  "rx_directory keeper_env p = Some router_directory" "rx_progression keeper_env = Some (\<lambda>_ _ _. Inr ())"
  "rx_pending_limit keeper_env = 10" "rx_targets keeper_env = initial_targets"
  by (simp_all add: keeper_env_def)

lemma keeper_fields [simp]: "id_subject keeper = Some ''op''" "id_dataset_tenants keeper = [''t'']"
  by (simp_all add: keeper_def)

definition routing_report :: evaluation_report where
  "routing_report = (sample_report [])\<lparr>er_specification := (sample_evaluation [])\<lparr>ev_suites := [RoutingSuite],
       ev_candidate_deployment_id := ''b'', ev_dataset_id := ''d'', ev_dataset_version := ''1''\<rparr>,
     er_candidate_manifest_version := ''b'', er_candidate_artifact_digest := Some (mm_artifact_digest (router_manifest ''b'' Evaluating)),
     er_dataset_content_digest := ''c'', er_passed := True,
     er_suite_results := [sample_suite RoutingSuite [(''false_specialist_rate'', 0), (''calibration_error'', 0)]]\<rparr>"

definition report_env :: "unit registry_env" where
  "report_env = keeper_env\<lparr>rx_codec := \<lparr>cd_dump = (\<lambda>_. []), cd_load = (\<lambda>_. Some routing_report), cd_payload = (\<lambda>_. [])\<rparr>\<rparr>"

definition stamp :: "lifecycle_state \<Rightarrow> lifecycle_state \<Rightarrow> string option \<Rightarrow> lifecycle_transition" where
  "stamp s t i = \<lparr>lt_from_state = Some s, lt_to_state = t, lt_actor = ''op'', lt_at = 1, lt_reason = ''go'', lt_evaluation_id = i\<rparr>"

lemma registry_of_model:
  "model_at (registry_of ms ds) v = List.find (\<lambda>r. mv_version r = v) ms"
  by (simp add: registry_of_def model_at_def)

lemma keeper_sees:
  "get_model keeper_env (registry_of ms ds) v keeper = Inr ((router_manifest v st)\<lparr>mm_lifecycle_history := path_to_canary @ ts\<rparr>)"
  if "List.find (\<lambda>r. mv_version r = v) ms = Some (sample_row v st ts)"
  using that by (intro sample_model) (simp add: registry_of_model)

lemma step_permitted_sample:
  "validate_transition s (request_of rb ok (plain_request v t ''go'' i) keeper) = Inr () \<longleftrightarrow>
     ((s, t) \<in> set allowed_edges \<or> rb \<and> ok \<and> s = Deprecated \<and> t = Production) \<and> (t = Approved \<longrightarrow> ok)"
  by (auto simp: validate_transition_iff permitted_def request_of_def keeper_def plain_request_def nonblank_def is_space_def code_def)

lemma plain_request_valid:
  "valid_identifier v \<Longrightarrow> opt_all valid_identifier i \<Longrightarrow> promotion_request_validate (plain_request v t ''go'' i) = Inr (plain_request v t ''go'' i)"
  by (simp add: promotion_request_validate_def contract_new_def plain_request_def operator_note_validate_def opt_all_def
      nonblank_def is_space_def code_def)

lemma sample_transition:
  assumes "rx = keeper_env \<or> rx = report_env" and "m = (router_manifest v st)\<lparr>mm_lifecycle_history := h\<rparr>" and "rq = plain_request v t ''go'' i"
    and "evidence_for rx rg rb m rq keeper = Inr ok"
    and "(st, t) \<in> set allowed_edges \<or> rb \<and> ok \<and> st = Deprecated \<and> t = Production" and "t = Approved \<longrightarrow> ok"
    and "opt_all valid_identifier i" and "kd_now kd 0 = 1" and "kd_uid kd 0 \<notin> tw_transition_id ` set (rg_transitions rg)"
  shows "transition rx kd rb m rq keeper rg =
    (Inr (moved rb ok m rq (stamp st t i)),
     snd (record_transition rx kd (moved rb ok m rq (stamp st t i)) (stamp st t i)
       (snd (update_model v (moved rb ok m rq (stamp st t i)) rg))))"
proof -
  have "validate_transition (mm_state m) (request_of rb ok rq keeper) = Inr ()"
    using assms(5,6) unfolding assms(2,3) by (simp add: step_permitted_sample)
  moreover have "progression rx rb m rq keeper = Inr ()" using assms(1) by (auto simp: progression_def report_env_def)
  moreover have "intact rx m rq = Inr ()" using assms(1) unfolding assms(2) by (auto simp: intact_def sample_artifact report_env_def)
  moreover have "valid_identifier ''op''" by (simp add: valid_identifier_def is_word_char_def is_lower_def code_def)
  then have "new_transition kd m rq keeper = Inr (stamp st t i)"
    using assms(7,8) unfolding assms(2,3) by (simp add: new_transition_def contract_new_def plain_request_def stamp_def)
  moreover have "mm_version m = v" by (simp add: assms(2))
  moreover have "fst (record_transition rx kd (moved rb ok m rq (stamp st t i)) (stamp st t i)
       (snd (update_model v (moved rb ok m rq (stamp st t i)) rg))) = Inr ()"
    using assms(9) by (simp add: record_transition_def then_do_def require_eval put_registry_events_def update_model_def)
  ultimately show ?thesis using assms(4)
    by (simp add: transition_def then_do_def) (simp add: update_model_def prod_eq_iff split: prod.split)
qed

lemma recorded_ids:
  assumes "kd_uid kd 0 \<notin> tw_transition_id ` set (rg_transitions rg)"
  shows "tw_transition_id ` set (rg_transitions (snd (record_transition rx kd m t (snd (update_model v m' rg))))) =
    insert (kd_uid kd 0) (tw_transition_id ` set (rg_transitions rg))"
  using assms by (simp add: record_transition_def then_do_def require_eval put_registry_events_def update_model_def)

lemma recorded_ids':
  assumes "kd_uid kd 0 \<notin> tw_transition_id ` set (rg_transitions rg)"
  shows "rg_transitions (snd (record_transition (rx :: unit registry_env) kd m t (snd (update_model v m' rg)))) \<noteq> []"
  using recorded_ids [OF assms, of rx m t v m'] by auto

lemma sample_draws_fields [simp]: "kd_now (sample_draws k) n = 1" "kd_uid (sample_draws k) 0 = replicate k CHR ''k''"
  by (simp_all add: sample_draws_def)

lemma sample_identifiers: "valid_identifier ''a''" "valid_identifier ''b''"
  by (simp_all add: valid_identifier_def is_word_char_def is_lower_def code_def)

lemma swap_rollback: "\<exists>ms rg'. rollback keeper_env sample_draws ''r'' keeper ''go'' swap_registry = (Inr ms, rg')"
proof -
  let ?a = "(router_manifest ''a'' Production)\<lparr>mm_lifecycle_history := path_to_canary @ in_production\<rparr>"
  let ?b = "(router_manifest ''b'' Deprecated)\<lparr>mm_lifecycle_history := path_to_canary @ retired_history\<rparr>"
  let ?q1 = "plain_request ''a'' Deprecated ''go'' None" and ?q2 = "plain_request ''b'' Production ''go'' None"
  have row: "map_of (rg_deployments swap_registry) ''r'' = Some \<lparr>dp_current_version = ''a'', dp_previous_version = Some ''b''\<rparr>"
    by (simp add: swap_registry_def registry_of_def registry_new_def)
  have a: "get_model keeper_env swap_registry ''a'' keeper = Inr ?a" and b: "get_model keeper_env swap_registry ''b'' keeper = Inr ?b"
    unfolding swap_registry_def by (rule keeper_sees, simp add: sample_row_def)+
  have approval: "approval_of ?b = Some (made (Some Evaluating) Approved)" "approval_of ?a \<noteq> None"
    by (simp_all add: approval_of_def path_to_canary_def made_def retired_history_def in_production_def)
  have none: "rg_transitions swap_registry = []" by (simp add: swap_registry_def registry_of_def registry_new_def)
  then have fresh: "kd_uid (sample_draws 0) 0 \<notin> tw_transition_id ` set (rg_transitions swap_registry)" by simp
  have ev: "evidence_for keeper_env rg True ?a q keeper = Inr True" "evidence_for keeper_env rg True ?b q keeper = Inr True" for rg q
    using approval by (simp_all add: evidence_for_def)
  obtain n1 rg1 where t1: "transition keeper_env (sample_draws 0) True ?a ?q1 keeper swap_registry = (Inr n1, rg1)"
      "tw_transition_id ` set (rg_transitions rg1) = {[]}"
    using sample_transition [where m = ?a and v = "''a''" and st = Production and rq = ?q1 and t = Deprecated and rg = swap_registry,
        OF disjI1 [OF refl] refl refl ev(1) _ _ _ sample_draws_fields(1) fresh]
    by (simp add: allowed_edges_def opt_all_def recorded_ids [OF fresh] none)
  have fresh2: "kd_uid (sample_draws 1) 0 \<notin> tw_transition_id ` set (rg_transitions rg1)" by (simp add: t1(2))
  obtain n2 rg2 where t2: "transition keeper_env (sample_draws 1) True ?b ?q2 keeper rg1 = (Inr n2, rg2)"
    using sample_transition [where m = ?b and v = "''b''" and st = Deprecated and rq = ?q2 and t = Production and rg = rg1,
        OF disjI1 [OF refl] refl refl ev(2) _ _ _ sample_draws_fields(1) fresh2]
    by (simp add: opt_all_def)
  have "rollback_in_tables keeper_env sample_draws ''r'' keeper ''go'' swap_registry =
      (Inr [n1, n2], snd (set_deployment ''r'' ''b'' (Some ''a'') rg2))"
    using a b t1(1) t2 approval(1) plain_request_valid [OF sample_identifiers(1), of None Deprecated]
      plain_request_valid [OF sample_identifiers(2), of None Production]
    by (simp add: rollback_in_tables_def row then_do_def require_eval opt_all_def made_def set_deployment_def)
  then show ?thesis by (simp add: rollback_def then_do_def atomic_def)
qed

theorem rollback_swaps_witness:
  "\<exists>rg'. map_of (rg_deployments rg') ''r'' = Some \<lparr>dp_current_version = ''b'', dp_previous_version = Some ''a''\<rparr> \<and>
     bo_models (board_of rg') ''b'' = Some (''r'', Production)"
proof -
  obtain ms rg' where "rollback keeper_env sample_draws ''r'' keeper ''go'' swap_registry = (Inr ms, rg')"
    using swap_rollback by blast
  from rollback_swaps [OF swap_consistent this] show ?thesis
    by (auto simp: swap_registry_def registry_of_def registry_new_def model_at_def sample_row_def split: if_splits)
qed

theorem registry_refines_board_witness:
  "consistent (registry_run [(keeper_env, RollbackEvent sample_draws ''r'' keeper ''go'')] swap_registry)"
  using registry_refines_board [OF _ swap_consistent, of "[(keeper_env, RollbackEvent sample_draws ''r'' keeper ''go'')]"] by simp

theorem one_production_version_witness:
  "\<exists>p. map_of (rg_deployments swap_registry) ''r'' = Some p \<and> dp_current_version p = ''a''"
proof -
  have row: "model_at swap_registry ''a'' = Some (sample_row ''a'' Production in_production)"
    by (simp add: swap_registry_def registry_of_def model_at_def sample_row_def)
  from one_production_version [OF swap_consistent _ _ row _ row, of "[]"] show ?thesis
    by (simp add: registry_run_def sample_row_def)
qed

theorem served_versions_were_approved_witness:
  "approval_of (mv_data (sample_row ''a'' Production in_production)) \<noteq> None"
proof -
  have "model_at (registry_run [] swap_registry) ''a'' = Some (sample_row ''a'' Production in_production)"
    by (simp add: swap_registry_def registry_of_def model_at_def sample_row_def registry_run_def)
  from served_versions_were_approved [OF swap_consistent _ this] show ?thesis
    by (simp add: sample_row_def served_states_def)
qed

theorem revoked_incumbent_blocks_witness:
  "\<not> is_ok (fst (promote keeper_env sample_draws to_production keeper revoked_registry)) \<and>
   \<not> is_ok (fst (rollback keeper_env sample_draws ''r'' keeper ''go'' revoked_registry))"
proof -
  have row: "map_of (rg_deployments revoked_registry) ''r'' = Some \<lparr>dp_current_version = ''a'', dp_previous_version = None\<rparr>"
    "model_at revoked_registry ''a'' = Some (sample_row ''a'' Revoked revoked_history)"
    "model_at revoked_registry ''b'' = Some (sample_row ''b'' Canary [])"
    by (simp_all add: revoked_registry_def registry_of_def registry_new_def model_at_def sample_row_def)
  have "model_at revoked_registry (pq_model_version to_production) = Some (sample_row ''b'' Canary [])"
    "pq_target_state to_production = Production"
    using row(3) by (simp_all add: to_production_def plain_request_def)
  moreover have "mm_registry_id (mv_data (sample_row ''b'' Canary [])) = ''r''" by (simp add: sample_row_def)
  moreover have "model_at revoked_registry (dp_current_version \<lparr>dp_current_version = ''a'', dp_previous_version = None\<rparr>) =
      Some (sample_row ''a'' Revoked revoked_history)" "mm_state (mv_data (sample_row ''a'' Revoked revoked_history)) = Revoked"
    "revoked_registry = registry_run [] revoked_registry"
    using row(2) by (simp_all add: registry_run_def) (simp add: sample_row_def)
  note revoked_incumbent_blocks [where ?'k = unit, OF revoked_consistent row(1) this(1,2) _ this(3)]
  ultimately show ?thesis by (metis (no_types, lifting) emptyE list.set(1))
qed

lemma retire_run:
  "\<exists>m' rg'. promote keeper_env sample_draws (plain_request ''a'' Deprecated ''go'' None) keeper swap_registry = (Inr m', rg')"
proof -
  let ?a = "(router_manifest ''a'' Production)\<lparr>mm_lifecycle_history := path_to_canary @ in_production\<rparr>"
  let ?q = "plain_request ''a'' Deprecated ''go'' None"
  have a: "get_model keeper_env swap_registry ''a'' keeper = Inr ?a"
    unfolding swap_registry_def by (rule keeper_sees) (simp add: sample_row_def)
  have fresh: "kd_uid (sample_draws 0) 0 \<notin> tw_transition_id ` set (rg_transitions swap_registry)"
    by (simp add: swap_registry_def registry_of_def registry_new_def)
  have ev: "evidence_for keeper_env swap_registry False ?a ?q keeper = Inr False"
    by (simp add: evidence_for_def passed_def dataset_of_def plain_request_def)
  obtain m' rg' where t: "transition keeper_env (sample_draws 0) False ?a ?q keeper swap_registry = (Inr m', rg')"
      "mm_state m' = Deprecated"
    using sample_transition [where m = ?a and v = "''a''" and st = Production and rq = ?q and t = Deprecated and rg = swap_registry,
        OF disjI1 [OF refl] refl refl ev _ _ _ sample_draws_fields(1) fresh]
    by (simp add: allowed_edges_def opt_all_def moved_def plain_request_def)
  have "promote_in_tables keeper_env sample_draws ?q keeper swap_registry = (Inr m', rg')"
    using a t by (simp add: promote_in_tables_def then_do_def require_eval plain_request_def repeated_def)
  then show ?thesis by (simp add: promote_def then_do_def atomic_def)
qed

theorem promotion_retry_is_idle_witness:
  "\<exists>m' rg'. promote keeper_env sample_draws (plain_request ''a'' Deprecated ''go'' None) keeper rg' = (Inr m', rg')"
proof -
  have "dump_excludes (rx_dump keeper_env)" by (simp add: dump_excludes_def no_dump_def)
  with retire_run promotion_retry_is_idle [OF swap_consistent] show ?thesis by blast
qed

definition evaluating_registry :: registry_tables where
  "evaluating_registry = (registry_of [sample_row ''b'' Evaluating []] [])\<lparr>
     rg_reports := [\<lparr>rw_evaluation_id = ''e1'', rw_tenant_ids = [''t''], rw_report = [],
       rw_report_mac = report_mac echo_hashes plain_keyring [], rw_operator_note_hash = None, rw_actor_id = None, rw_created_at = 1\<rparr>],
     rg_files := [(''e1'', [], report_mac echo_hashes plain_keyring [])]\<rparr>"

lemma routing_decisions: "\<exists>gs. decisions initial_targets routing_report = Inr gs \<and> all_passed gs"
proof -
  have "decisions initial_targets routing_report = add_gates
      [(''routing_samples'', True, ''routing_gate_failed''), (''false_specialist_rate'', True, ''routing_gate_failed''),
       (''calibration_error'', True, ''routing_gate_failed'')]"
    by (simp add: decisions_def routing_checks_def routing_report_def sample_report_def sample_evaluation_def sample_suite_def
        initial_targets_def metric_or_one_def)
  moreover have "is_ok \<dots>"
    by (subst add_gates_is_ok) (simp_all add: valid_identifier_def is_word_char_def is_lower_def code_def)
  ultimately obtain gs where gs: "decisions initial_targets routing_report = Inr gs"
      "add_gates [(''routing_samples'', True, ''routing_gate_failed''), (''false_specialist_rate'', True, ''routing_gate_failed''),
       (''calibration_error'', True, ''routing_gate_failed'')] = Inr gs"
    by (auto simp: is_ok_iff)
  have "list_all (\<lambda>p. p) (map gd_passed gs)" using add_gates_fields [OF gs(2)] by simp
  then have "all_passed gs" by (simp add: all_passed_def list_all_iff)
  then show ?thesis using gs(1) by blast
qed

lemma report_read: "get_report report_env evaluating_registry ''e1'' keeper = Inr (Some routing_report)"
  by (simp add: get_report_def report_at_def evaluating_registry_def read_report_def report_env_def authentic_def Let_def
      routing_report_def sample_report_def sample_evaluation_def signed_def accepts_legacy_mac_def plain_keyring_def keyring_new_def)

lemma approval_run:
  "\<exists>m' rg'. promote report_env sample_draws (plain_request ''b'' Approved ''go'' (Some ''e1'')) keeper evaluating_registry = (Inr m', rg') \<and>
     rg' \<noteq> evaluating_registry"
proof -
  let ?b = "(router_manifest ''b'' Evaluating)\<lparr>mm_lifecycle_history := path_to_canary @ []\<rparr>"
  let ?q = "plain_request ''b'' Approved ''go'' (Some ''e1'')"
  have b: "get_model keeper_env evaluating_registry ''b'' keeper = Inr ?b"
    by (rule sample_model) (simp add: evaluating_registry_def registry_of_def model_at_def sample_row_def)
  have fresh: "kd_uid (sample_draws 0) 0 \<notin> tw_transition_id ` set (rg_transitions evaluating_registry)"
    by (simp add: evaluating_registry_def registry_of_def registry_new_def)
  obtain gs where gs: "decisions initial_targets routing_report = Inr gs" "all_passed gs" using routing_decisions by blast
  have "matches_candidate ?b \<lparr>dg_dataset_id = ''d'', dg_version = ''1'', dg_content_digest = ''c'', dg_weight = 1\<rparr> routing_report"
    by (simp add: matches_candidate_def routing_report_def)
  then have "passed report_env evaluating_registry ?b (Some ''e1'') keeper = Inr True"
    using report_read gs
    by (simp add: passed_def dataset_of_def router_passed_def router_architecture_def gates_hold_def)
      (simp add: report_env_def routing_report_def)
  then have ev: "evidence_for report_env evaluating_registry False ?b ?q keeper = Inr True"
    by (simp add: evidence_for_def plain_request_def)
  have "get_model report_env evaluating_registry ''b'' keeper = get_model keeper_env evaluating_registry ''b'' keeper"
    by (simp add: get_model_def report_env_def split: option.split)
  then have get: "get_model report_env evaluating_registry ''b'' keeper = Inr ?b" using b by simp
  have id: "opt_all valid_identifier (Some ''e1'')" by (simp add: opt_all_def valid_identifier_def is_word_char_def is_lower_def is_digit_def code_def)
  obtain m' rg' where t: "transition report_env (sample_draws 0) False ?b ?q keeper evaluating_registry = (Inr m', rg')"
      "mm_state m' = Approved" "rg_transitions rg' \<noteq> []"
    using sample_transition [where m = ?b and v = "''b''" and st = Evaluating and rq = ?q and t = Approved and rg = evaluating_registry,
        OF disjI2 [OF refl] refl refl ev _ _ id sample_draws_fields(1) fresh] recorded_ids' [OF fresh]
    by (simp add: allowed_edges_def moved_def plain_request_def)
  have "promote_in_tables report_env sample_draws ?q keeper evaluating_registry = (Inr m', rg')"
    using get t by (simp add: promote_in_tables_def then_do_def require_eval plain_request_def repeated_def)
  moreover have "rg' \<noteq> evaluating_registry" using t(3) by (auto simp: evaluating_registry_def registry_of_def registry_new_def)
  ultimately show ?thesis by (simp add: promote_def then_do_def atomic_def)
qed

theorem approval_needs_evidence_witness:
  "\<exists>r gs. get_report report_env evaluating_registry ''e1'' keeper = Inr (Some r) \<and> er_passed r \<and>
     decisions initial_targets r = Inr gs \<and> all_passed gs"
proof -
  obtain m' rg' where run: "promote report_env sample_draws (plain_request ''b'' Approved ''go'' (Some ''e1'')) keeper evaluating_registry = (Inr m', rg')"
      "rg' \<noteq> evaluating_registry"
    using approval_run by blast
  have "pq_target_state (plain_request ''b'' Approved ''go'' (Some ''e1'')) = Approved"
    "pq_evaluation_id (plain_request ''b'' Approved ''go'' (Some ''e1'')) = Some ''e1''" "rx_targets report_env = initial_targets"
    by (simp_all add: plain_request_def report_env_def)
  then show ?thesis using approval_needs_evidence [OF run] by force
qed

end
