(* ===== verification/Registry_Records.thy ===== *)
theory Registry_Records
  imports Deployments
begin

text \<open>
  What the registry guarantees of training jobs and of evaluation reports: a cancelled job never
  produces a model, a submission that is sent again changes nothing, and a published report reads
  back as it was signed, for good.
\<close>

section \<open>Job rows\<close>

definition jobs_ok :: "registry_tables \<Rightarrow> bool" where
  "jobs_ok rg \<longleftrightarrow> (\<forall>r \<in> set (rg_jobs rg). job_id_of (jr_data r) = jr_job_id r)"

definition cancelling :: "ident \<Rightarrow> registry_tables \<Rightarrow> bool" where
  "cancelling i rg \<longleftrightarrow> jobs_ok rg \<and>
     (\<exists>r. job_at rg i = Some r \<and> jb_cancel_requested (jr_data r))"

lemma job_at_row: "job_at rg i = Some r \<Longrightarrow> r \<in> set (rg_jobs rg) \<and> jr_job_id r = i"
  unfolding job_at_def by (rule find_Some_iff2)

lemma find_updated:
  "List.find (\<lambda>r. jr_job_id r = i) (map (\<lambda>r. if jr_job_id r = j then r\<lparr>jr_data := job\<rparr> else r) (rs :: job_row list)) =
     map_option (\<lambda>r. if i = j then r\<lparr>jr_data := job\<rparr> else r) (List.find (\<lambda>r. jr_job_id r = i) rs)"
  by (induction rs) auto

lemma job_at_stored:
  "job_at (snd (store_job job tenants rg)) i =
     (if i = job_id_of job
      then Some (case job_at rg i of None \<Rightarrow> \<lparr>jr_job_id = i, jr_tenant_ids = sort tenants, jr_data = job\<rparr> | Some r \<Rightarrow> r\<lparr>jr_data := job\<rparr>)
      else job_at rg i)"
  by (auto simp: store_job_def job_at_def find_append find_updated option.map_ident split: option.split)

lemma jobs_ok_stored: "jobs_ok rg \<Longrightarrow> jobs_ok (snd (store_job job tenants rg))"
  by (auto simp: jobs_ok_def store_job_def)

lemma cancelling_stored:
  assumes "cancelling i rg" and "job_id_of job = i \<longrightarrow> jb_cancel_requested job"
  shows "cancelling i (snd (store_job job tenants rg))"
  using assms jobs_ok_stored by (auto simp: cancelling_def job_at_stored)

section \<open>Bystanders\<close>

text \<open>A property of the tables that does not look at models, transitions, submitters, deployments and
  events is untouched by every lifecycle action.\<close>

locale bystander =
  fixes P :: "registry_tables \<Rightarrow> bool"
  assumes other_fields: "P (rg\<lparr>rg_models := a\<rparr>) = P rg" "P (rg\<lparr>rg_submitters := b\<rparr>) = P rg" "P (rg\<lparr>rg_transitions := c\<rparr>) = P rg"
    "P (rg\<lparr>rg_deployments := d\<rparr>) = P rg" "P (rg\<lparr>rg_outbox := q\<rparr>) = P rg"
begin

lemma writes: "keeps P (put_registry_events rx es)" "keeps P (put_submitter p i identity)" "keeps P (update_model v m)"
  "keeps P (set_deployment d c prev)"
  by (auto simp: keeps_def put_registry_events_def put_submitter_def update_model_def set_deployment_def other_fields)

lemma recorded: "keeps P (record_transition rx kd m t)"
  unfolding record_transition_def by (intro quiet_rules writes keeps_intros(5)) (simp add: other_fields)

lemma evaluated: "keeps P (record_evaluation rx report identity)"
  unfolding record_evaluation_def Let_def by (intro quiet_rules writes)

lemma transitioned: "keeps P (transition rx kd rb m rq identity)"
  unfolding transition_def by (intro quiet_rules writes recorded)

lemma incumbent: "keeps P (retire_incumbent rx kd m rq identity v)"
  unfolding retire_incumbent_def by (intro quiet_rules transitioned)

lemma deployed_model: "keeps P (deploy rx kd m rq identity)"
  unfolding deploy_def Let_def
  by (intro quiet_rules writes) (auto split: option.split list.split intro!: quiet_rules incumbent)

lemma promoted: "keeps P (promote rx kds rq identity)"
  unfolding promote_def promote_in_tables_def by (intro quiet_rules transitioned deployed_model)

lemma rolled_back: "keeps P (rollback rx kds d identity reason)"
  unfolding rollback_def rollback_in_tables_def
  by (intro keeps_then_do keeps_atomic keeps_intros(2,4)) (auto split: option.split intro!: quiet_rules writes transitioned)

end

definition jobs_are :: "job_row list \<Rightarrow> registry_tables \<Rightarrow> bool" where
  "jobs_are js rg \<longleftrightarrow> rg_jobs rg = js"

interpretation jobs: bystander "jobs_are js" for js
  by unfold_locales (simp_all add: jobs_are_def)

lemma idle_publish: "keeps (jobs_are js) (publish_report rx kd (Some (record_evaluation rx)) report tenants identity pb)"
proof -
  have "keeps (jobs_are js) (lock_baseline r)" for r by (simp add: keeps_def jobs_are_def lock_baseline_def Let_def)
  then show ?thesis
    unfolding publish_report_def publish_in_tables_def Let_def option.case
    by (intro quiet_rules jobs.writes jobs.evaluated keeps_intros(5)) (simp_all add: jobs_are_def)
qed

lemma cancelling_same: "rg_jobs rg' = rg_jobs rg \<Longrightarrow> cancelling i rg' = cancelling i rg"
  by (simp add: cancelling_def jobs_ok_def job_at_def)

lemma keeps_idle:
  assumes "\<And>js. keeps (jobs_are js) m"
  shows "keeps (cancelling i) m" and "keeps jobs_ok m"
proof -
  have same: "rg_jobs (snd (m rg)) = rg_jobs rg" for rg
    using assms [of "rg_jobs rg"] by (simp add: keeps_def jobs_are_def)
  show "keeps (cancelling i) m" unfolding keeps_def using cancelling_same [OF same] by blast
  show "keeps jobs_ok m" by (simp add: keeps_def jobs_ok_def same)
qed

lemmas idle_events = keeps_idle [OF jobs.promoted] keeps_idle [OF jobs.rolled_back] keeps_idle [OF idle_publish]

section \<open>Every operation keeps a cancellation\<close>

text \<open>Storing an outcome stores the job and then only enqueues events.\<close>

lemma outcome_jobs: "rg_jobs (snd (store_outcome rx kd job tenants rg)) = rg_jobs (snd (store_job job tenants rg))"
  by (simp add: store_outcome_def then_do_def store_job_def put_registry_events_def)

lemma submit_jobs: "rg_jobs (snd (submit_job job tenants identity rg)) = rg_jobs (snd (store_job job tenants rg))"
  by (simp add: submit_job_def then_do_def store_job_def put_submitter_def)

lemma outcome_ok: "jobs_ok rg \<Longrightarrow> jobs_ok (snd (save_job_outcome rx kd job tenants rg))"
proof -
  assume ok: "jobs_ok rg"
  have "jobs_ok (snd (store_outcome rx kd j ts rg))" for j ts
    using jobs_ok_stored [OF ok, of j ts] outcome_jobs [of rx kd j ts rg] by (simp add: jobs_ok_def)
  then show ?thesis using ok
    by (auto simp: save_job_outcome_def then_do_def Let_def split: option.splits)
qed

lemma outcome_cancelling:
  assumes "cancelling i rg"
  shows "cancelling i (snd (save_job_outcome rx kd job tenants rg))"
proof -
  have stored: "cancelling i (snd (store_outcome rx kd j ts rg))"
    if "job_id_of j = i \<longrightarrow> jb_cancel_requested j" for j ts
    using cancelling_stored [OF assms that, of ts] cancelling_same [OF outcome_jobs] by blast
  obtain q where q: "job_at rg i = Some q" "jb_cancel_requested (jr_data q)" using assms by (auto simp: cancelling_def)
  show ?thesis
  proof (cases "job_at rg (job_id_of job)")
    case None
    then have "job_id_of job \<noteq> i" using q by auto
    then show ?thesis using stored [of job tenants] None by (simp add: save_job_outcome_def then_do_def)
  next
    case (Some r)
    then have "job_id_of job = i \<longrightarrow> r = q" using q(1) by auto
    then show ?thesis using stored [of "job\<lparr>jb_cancel_requested := jb_cancel_requested (jr_data r) \<or> jb_cancel_requested job\<rparr>"] q(2) assms Some
      by (simp add: save_job_outcome_def then_do_def Let_def job_id_of_def)
  qed
qed

lemma get_job_Inr:
  "get_job rg i identity = Inr found \<Longrightarrow> found = map_option jr_data (job_at rg i)"
  by (auto simp: get_job_def bindE_Inr_iff split: option.splits)

lemma submit_keeps:
  "jobs_ok rg \<Longrightarrow> jobs_ok (snd (submit_job job tenants identity rg))"
  "cancelling i rg \<Longrightarrow> job_id_of job = i \<longrightarrow> jb_cancel_requested job \<Longrightarrow>
   cancelling i (snd (submit_job job tenants identity rg))"
proof -
  show "jobs_ok rg \<Longrightarrow> jobs_ok (snd (submit_job job tenants identity rg))"
    using jobs_ok_stored [of rg job tenants] submit_jobs [of job tenants identity rg] by (simp add: jobs_ok_def)
  show "cancelling i rg \<Longrightarrow> job_id_of job = i \<longrightarrow> jb_cancel_requested job \<Longrightarrow>
      cancelling i (snd (submit_job job tenants identity rg))"
    using cancelling_stored [of i rg job tenants] cancelling_same [OF submit_jobs] by blast
qed

lemma submitter_keeps: "rg_jobs (snd (put_submitter p i identity rg)) = rg_jobs rg"
  by (simp add: put_submitter_def)

text \<open>What a submission stores, if anything.\<close>

lemma enqueue_cases:
  obtains "snd (enqueue_job job tenants identity rg) = rg"
  | p where "snd (enqueue_job job tenants identity rg) = snd (put_submitter p (job_id_of job) identity rg)"
  | "job_at rg (job_id_of job) = None" and "snd (enqueue_job job tenants identity rg) = snd (submit_job job tenants identity rg)"
  | old where "job_at rg (job_id_of job) = Some old" and "snd (enqueue_job job tenants identity rg) = snd (submit_job
      ((jr_data old)\<lparr>jb_state := JobQueued, jb_failure_code := None, jb_completed_at := None\<rparr>) tenants identity rg)"
proof (cases "get_job rg (job_id_of job) identity")
  case (Inl e)
  show ?thesis by (rule that(1)) (simp add: enqueue_job_def atomic_def then_do_def Inl)
next
  case (Inr found)
  note found = get_job_Inr [OF Inr]
  show ?thesis
  proof (cases "job_at rg (job_id_of job)")
    case None
    show ?thesis
      by (rule that(3) [OF None]) (simp add: enqueue_job_def atomic_def then_do_def Inr found None submit_job_def store_job_def put_submitter_def)
  next
    case (Some old)
    show ?thesis
    proof (cases "jb_trainer_architecture (jr_data old) = jb_trainer_architecture job \<and> jb_specification (jr_data old) = jb_specification job")
      case False
      show ?thesis
        by (rule that(1)) (use False in \<open>auto simp: enqueue_job_def atomic_def then_do_def require_eval Inr found Some\<close>)
    next
      case True
      show ?thesis
      proof (cases "jb_state (jr_data old) = JobFailed")
        case failed: True
        show ?thesis
          by (rule that(4) [OF Some]) (simp add: enqueue_job_def atomic_def then_do_def require_eval Inr found Some True failed
              submit_job_def store_job_def put_submitter_def)
      next
        case False
        then show ?thesis
          using that(1) that(2) [of False] True
          by (cases "jb_state (jr_data old) \<in> {JobQueued, JobRunning}")
            (simp_all add: enqueue_job_def atomic_def then_do_def require_eval Inr found Some put_submitter_def)
      qed
    qed
  qed
qed

lemma submission_keeps:
  "jobs_ok rg \<Longrightarrow> jobs_ok (snd (enqueue_job job tenants identity rg))"
  "cancelling i rg \<Longrightarrow> cancelling i (snd (enqueue_job job tenants identity rg))"
proof -
  show "jobs_ok rg \<Longrightarrow> jobs_ok (snd (enqueue_job job tenants identity rg))"
    by (rule enqueue_cases [of job tenants identity rg]) (simp_all add: submit_keeps, simp add: jobs_ok_def submitter_keeps)
  assume c: "cancelling i rg"
  show "cancelling i (snd (enqueue_job job tenants identity rg))"
  proof (rule enqueue_cases [of job tenants identity rg])
    fix old
    assume old: "job_at rg (job_id_of job) = Some old"
      "snd (enqueue_job job tenants identity rg) = snd (submit_job
        ((jr_data old)\<lparr>jb_state := JobQueued, jb_failure_code := None, jb_completed_at := None\<rparr>) tenants identity rg)"
    have "job_id_of (jr_data old) = job_id_of job"
      using c job_at_row [OF old(1)] by (auto simp: cancelling_def jobs_ok_def)
    then show ?thesis unfolding old(2)
      by (intro submit_keeps(2) [OF c]) (use c old(1) in \<open>auto simp: cancelling_def job_id_of_def\<close>)
  next
    assume "job_at rg (job_id_of job) = None" "snd (enqueue_job job tenants identity rg) = snd (submit_job job tenants identity rg)"
    moreover have "job_id_of job \<noteq> i" using calculation(1) c by (auto simp: cancelling_def)
    ultimately show ?thesis using submit_keeps(2) [OF c] by simp
  next
    fix p
    assume "snd (enqueue_job job tenants identity rg) = snd (put_submitter p (job_id_of job) identity rg)"
    then show ?thesis using c cancelling_same [OF submitter_keeps] by metis
  qed (use c in simp)
qed

lemma keeps_outcome:
  "keeps jobs_ok (save_job_outcome rx kd job tenants)" "keeps (cancelling i) (save_job_outcome rx kd job tenants)"
  using outcome_ok outcome_cancelling by (auto simp: keeps_def)

lemma cancel_keeps:
  "keeps jobs_ok (cancel_job rx kd j identity)" "keeps (cancelling i) (cancel_job rx kd j identity)"
  unfolding cancel_job_def Let_def
  by (intro quiet_rules keeps_outcome(1)) (intro quiet_rules keeps_outcome(2))

lemma model_row_same: "job_at (rg\<lparr>rg_models := ms\<rparr>) i = job_at rg i" "jobs_ok (rg\<lparr>rg_models := ms\<rparr>) = jobs_ok rg"
  "cancelling i (rg\<lparr>rg_models := ms\<rparr>) = cancelling i rg"
  by (simp_all add: job_at_def jobs_ok_def cancelling_def)

lemma keeps_stored:
  "keeps jobs_ok (store_job job tenants)"
  "job_id_of job \<noteq> i \<Longrightarrow> keeps (cancelling i) (store_job job tenants)"
  using jobs_ok_stored cancelling_stored by (auto simp: keeps_def)

text \<open>The rest of a registration, after its checks.\<close>

lemma register_rest:
  "keeps jobs_ok (then_do (each_work (\<lambda>(n, t). record_transition rx (kds n) m t) ts) (\<lambda>_.
     then_do (store_job job tenants) (\<lambda>_. put_registry_events rx es)))"
  "job_id_of job \<noteq> i \<Longrightarrow> keeps (cancelling i) (then_do (each_work (\<lambda>(n, t). record_transition rx (kds n) m t) ts) (\<lambda>_.
     then_do (store_job job tenants) (\<lambda>_. put_registry_events rx es)))"
  by (intro keeps_then_do keeps_each_work keeps_stored(1) keeps_idle(2) [OF jobs.writes(1)], simp add: case_prod_beta keeps_idle(2) [OF jobs.recorded])
    (intro keeps_then_do keeps_each_work keeps_stored(2) keeps_idle(1) [OF jobs.writes(1)], simp_all add: case_prod_beta keeps_idle(1) [OF jobs.recorded])

lemma register_requested:
  "cancelling i rg \<Longrightarrow> job_id_of job = i \<Longrightarrow> fst (register_model rx kds job m rg) = Inl (GatewayError 409 ''training_cancelled'')"
  by (auto simp: register_model_def then_do_def require_eval cancelling_def)

lemma register_keeps:
  assumes "register_model rx kds job m rg = (Inr u, rg')"
  shows "jobs_ok rg \<Longrightarrow> jobs_ok rg'" and "cancelling i rg \<Longrightarrow> cancelling i rg'"
proof -
  let ?row = "\<lparr>mv_version = mm_version m, mv_registry_id = mm_registry_id m, mv_tenant_ids = sort (mm_tenant_ids m), mv_data = m\<rparr>"
  let ?rest = "then_do (each_work (\<lambda>(n, t). record_transition rx (kds n) m t) (enumerate 1 (mm_lifecycle_history m))) (\<lambda>_.
     then_do (store_job job (mm_tenant_ids m)) (\<lambda>_.
     put_registry_events rx (training_events (kds 0) (succeeded_data job m) (mm_tenant_ids m))))"
  have rest: "?rest (rg\<lparr>rg_models := rg_models rg @ [?row]\<rparr>) = (Inr u, rg')"
    using assms by (auto simp: register_model_def work_simps)
  show "jobs_ok rg'" if "jobs_ok rg"
    using keepsD [OF register_rest(1), of "rg\<lparr>rg_models := rg_models rg @ [?row]\<rparr>"] that rest
    by (metis model_row_same(2) snd_conv)
  assume c: "cancelling i rg"
  then have "job_id_of job \<noteq> i" using register_requested [OF c, of job rx kds m] assms by auto
  from keepsD [OF register_rest(2) [OF this], of "rg\<lparr>rg_models := rg_models rg @ [?row]\<rparr>"] c rest
  show "cancelling i rg'" by (metis model_row_same(3) snd_conv)
qed

lemma complete_keeps:
  "jobs_ok rg \<Longrightarrow> jobs_ok (snd (complete rx kds job m architecture rg))"
  "cancelling i rg \<Longrightarrow> cancelling i (snd (complete rx kds job m architecture rg))"
proof -
  have "snd (complete rx kds job m architecture rg) = rg \<or>
      (\<exists>u. register_model rx kds job m rg = (Inr u, snd (complete rx kds job m architecture rg)))"
    by (auto simp: complete_def then_do_def require_eval atomic_def split: sum.splits prod.splits)
  then show "jobs_ok rg \<Longrightarrow> jobs_ok (snd (complete rx kds job m architecture rg))"
    "cancelling i rg \<Longrightarrow> cancelling i (snd (complete rx kds job m architecture rg))"
    using register_keeps by metis+
qed

lemma event_jobs:
  shows "jobs_ok rg \<Longrightarrow> jobs_ok (registry_apply e rg)" and "cancelling i rg \<Longrightarrow> cancelling i (registry_apply e rg)"
proof -
  obtain rx ev where e: "e = (rx, ev)" by force
  show "jobs_ok rg \<Longrightarrow> jobs_ok (registry_apply e rg)"
    unfolding e by (cases ev) (simp_all add: keepsD [OF idle_events(2)] keepsD [OF idle_events(4)] keepsD [OF idle_events(6)]
        keepsD [OF cancel_keeps(1)] complete_keeps submission_keeps save_job_def keepsD [OF keeps_atomic [OF keeps_outcome(1)]])
  show "cancelling i rg \<Longrightarrow> cancelling i (registry_apply e rg)"
    unfolding e by (cases ev) (simp_all add: keepsD [OF idle_events(1)] keepsD [OF idle_events(3)] keepsD [OF idle_events(5)]
        keepsD [OF cancel_keeps(2)] complete_keeps submission_keeps save_job_def keepsD [OF keeps_atomic [OF keeps_outcome(2)]])
qed

lemma run_jobs:
  "jobs_ok rg \<Longrightarrow> jobs_ok (registry_run es rg)"
  "cancelling i rg \<Longrightarrow> cancelling i (registry_run es rg)"
  unfolding registry_run_def by (induction es arbitrary: rg) (simp_all add: event_jobs)

lemma cancel_requested:
  assumes ok: "jobs_ok rg" and run: "cancel_job rx kd i identity rg = (Inr job, rg1)"
    and asked: "jb_cancel_requested job"
  shows "cancelling i rg1"
proof -
  obtain r where r: "job_at rg i = Some r" "get_job rg i identity = Inr (Some (jr_data r))"
    using run get_job_Inr [of rg i identity] by (cases "job_at rg i") (auto simp: cancel_job_def work_simps split: option.splits)
  have id: "job_id_of (jr_data r) = i" using ok job_at_row [OF r(1)] by (auto simp: jobs_ok_def)
  show ?thesis
  proof (cases "jb_state (jr_data r) \<in> {JobSucceeded, JobFailed, JobCancelled}")
    case True
    then have "job = jr_data r" "rg1 = rg" using run r by (auto simp: cancel_job_def work_simps)
    then show ?thesis using ok asked r(1) by (auto simp: cancelling_def)
  next
    case False
    then have stored: "save_job_outcome rx kd job (jr_tenant_ids r) rg = (Inr (), rg1)" "job_id_of job = i"
      using run r id by (auto simp: cancel_job_def work_simps Let_def job_id_of_def)
    let ?job = "job\<lparr>jb_cancel_requested := jb_cancel_requested (jr_data r) \<or> jb_cancel_requested job\<rparr>"
    have "store_outcome rx kd ?job (jr_tenant_ids r) rg = (Inr (), rg1)"
      using stored r(1) False by (auto simp: save_job_outcome_def work_simps Let_def finished_badly_def split: if_splits)
    then have same: "rg_jobs rg1 = rg_jobs (snd (store_job ?job (jr_tenant_ids r) rg))"
      using outcome_jobs [of rx kd ?job "jr_tenant_ids r" rg] by simp
    have "job_id_of ?job = i" using stored(2) by (simp add: job_id_of_def)
    then have "cancelling i (snd (store_job ?job (jr_tenant_ids r) rg))"
      using asked jobs_ok_stored [OF ok] by (simp add: cancelling_def job_at_stored split: option.split)
    then show ?thesis using cancelling_same [OF same] by simp
  qed
qed

lemma enqueued_row:
  assumes ok: "jobs_ok rg" and run: "enqueue_job job tenants identity rg = (Inr j, rg1)" and "jb_state job = JobQueued"
    and seen: "set tenants \<subseteq> T" "set (id_dataset_tenants identity) \<subseteq> T"
  shows "\<exists>r. job_at rg1 (job_id_of job) = Some r \<and> jr_data r = j \<and> set (jr_tenant_ids r) \<subseteq> T \<and>
      jb_specification j = jb_specification job \<and> jb_trainer_architecture j = jb_trainer_architecture job \<and> jb_state j \<noteq> JobFailed \<and>
      (jb_state j \<in> {JobQueued, JobRunning} \<longrightarrow> map_of (rg_submitters rg1) (job_id_of job) \<noteq> None)"
proof -
  let ?i = "job_id_of job"
  have submitted: "job_at rg1 ?i = Some (case job_at rg ?i of None \<Rightarrow> \<lparr>jr_job_id = ?i, jr_tenant_ids = sort tenants, jr_data = k\<rparr> | Some r \<Rightarrow> r\<lparr>jr_data := k\<rparr>)
      \<and> map_of (rg_submitters rg1) ?i \<noteq> None \<and> j = k"
    if "submit_job k tenants identity rg = (Inr j, rg1)" "job_id_of k = ?i" for k
  proof -
    have "rg1 = snd (put_submitter True ?i identity (snd (store_job k tenants rg)))" "j = k"
      using that by (auto simp: submit_job_def work_simps store_job_def put_submitter_def)
    then show ?thesis using job_at_stored [of k tenants rg ?i] that(2)
      by (simp add: put_submitter_def job_at_def)
  qed
  obtain found where found: "get_job rg ?i identity = Inr found" using run by (auto simp: enqueue_job_def work_simps)
  show ?thesis
  proof (cases "job_at rg ?i")
    case None
    then have "submit_job job tenants identity rg = (Inr j, rg1)"
      using run get_job_Inr [OF found] found by (auto simp: enqueue_job_def work_simps)
    from submitted [OF this] show ?thesis using None assms(3) seen(1) by simp
  next
    case (Some old)
    then have tenants: "set (jr_tenant_ids old) \<subseteq> T" using found seen(2) by (auto simp: get_job_def bindE_Inr_iff)
    have id: "job_id_of (jr_data old) = ?i" using ok job_at_row [OF Some] by (auto simp: jobs_ok_def)
    have spec: "jb_specification (jr_data old) = jb_specification job" "jb_trainer_architecture (jr_data old) = jb_trainer_architecture job"
      using run get_job_Inr [OF found] found Some by (auto simp: enqueue_job_def work_simps)
    show ?thesis
    proof (cases "jb_state (jr_data old) = JobFailed")
      case True
      let ?k = "(jr_data old)\<lparr>jb_state := JobQueued, jb_failure_code := None, jb_completed_at := None\<rparr>"
      have "submit_job ?k tenants identity rg = (Inr j, rg1)"
        using run get_job_Inr [OF found] found Some True by (auto simp: enqueue_job_def work_simps)
      from submitted [OF this] show ?thesis using Some spec tenants id by (simp add: job_id_of_def)
    next
      case False
      then have "j = jr_data old" "rg1 = snd ((if jb_state j \<in> {JobQueued, JobRunning} then put_submitter False ?i identity else pass ()) rg)"
        using run get_job_Inr [OF found] found Some by (auto simp: enqueue_job_def work_simps put_submitter_def split: if_splits)
      then show ?thesis using Some spec tenants False
        by (auto simp: put_submitter_def job_at_def split: if_splits)
    qed
  qed
qed

section \<open>Properties of jobs\<close>

text \<open>C13. A cancelled job never registers a model. Once a cancellation was answered with a job that
  carries the request, the request stays with the job through every later operation, retries,
  restarts, registrations of other jobs and whatever the worker reports included; and every
  completion of the job is refused and leaves the tables as they were, so that no model of it is
  ever registered.\<close>

theorem cancelled_job_never_completes:
  assumes "rg = registry_run es registry_new"
    and "cancel_job rx kd i identity rg = (Inr job, rg1)" and "jb_cancel_requested job"
    and "rg2 = registry_run es' rg1"
  shows "(\<exists>r. job_at rg2 i = Some r \<and> jb_cancel_requested (jr_data r)) \<and>
    (\<forall>rx' kds job' m architecture. job_id_of job' = i \<longrightarrow>
       \<not> is_ok (fst (complete (rx' :: 'k registry_env) kds job' m architecture rg2)) \<and>
       snd (complete rx' kds job' m architecture rg2) = rg2)"
proof -
  have "jobs_ok registry_new" by (simp add: jobs_ok_def registry_new_def)
  then have ok: "jobs_ok rg" unfolding assms(1) by (rule run_jobs(1))
  have "cancelling i rg1" by (rule cancel_requested [OF ok assms(2,3)])
  then have c: "cancelling i rg2" unfolding assms(4) by (rule run_jobs(2))
  have "\<not> is_ok (fst (complete rx' kds job' m architecture rg2)) \<and> snd (complete rx' kds job' m architecture rg2) = rg2"
    if "job_id_of job' = i" for rx' :: "'k registry_env" and kds job' m architecture
    using register_requested [OF c that, of rx' kds m]
    by (auto simp: complete_def then_do_def require_eval atomic_def split: sum.splits prod.splits)
  then show ?thesis using c by (auto simp: cancelling_def)
qed

text \<open>A submission sent again changes nothing. After a job was submitted, submitting it again with
  the same specification and trainer, by an operator who may see its tenants, returns the job that
  is there and leaves the tables as they are: no second job, no second event, the first submitter.\<close>

theorem submission_is_idempotent:
  assumes "rg = registry_run es registry_new"
    and "enqueue_job job tenants identity rg = (Inr j, rg1)" and "jb_state job = JobQueued"
    and "authorize_dataset identity' [] = Inr ()" and "set tenants \<subseteq> set (id_dataset_tenants identity')"
    and "set (id_dataset_tenants identity) \<subseteq> set (id_dataset_tenants identity')"
    and "jb_specification job' = jb_specification job" and "jb_trainer_architecture job' = jb_trainer_architecture job"
  shows "enqueue_job job' tenants' identity' rg1 = (Inr j, rg1) \<and> jb_specification j = jb_specification job \<and>
    jb_trainer_architecture j = jb_trainer_architecture job \<and> jb_state j \<noteq> JobFailed"
proof -
  have ok: "jobs_ok rg" unfolding assms(1) by (rule run_jobs(1)) (simp add: jobs_ok_def registry_new_def)
  let ?i = "job_id_of job"
  have "\<exists>r. job_at rg1 ?i = Some r \<and> jr_data r = j \<and> set (jr_tenant_ids r) \<subseteq> set (id_dataset_tenants identity') \<and>
      jb_specification j = jb_specification job \<and> jb_trainer_architecture j = jb_trainer_architecture job \<and> jb_state j \<noteq> JobFailed \<and>
      (jb_state j \<in> {JobQueued, JobRunning} \<longrightarrow> map_of (rg_submitters rg1) ?i \<noteq> None)"
    by (rule enqueued_row [OF ok assms(2,3,5,6)])
  then obtain r where r: "job_at rg1 ?i = Some r" "jr_data r = j" "set (jr_tenant_ids r) \<subseteq> set (id_dataset_tenants identity')"
      "jb_specification j = jb_specification job" "jb_trainer_architecture j = jb_trainer_architecture job" "jb_state j \<noteq> JobFailed"
      "jb_state j \<in> {JobQueued, JobRunning} \<longrightarrow> map_of (rg_submitters rg1) ?i \<noteq> None"
    by blast
  have i: "job_id_of job' = ?i" using assms(7) by (simp add: job_id_of_def)
  then have "get_job rg1 (job_id_of job') identity' = Inr (Some j)"
    using r(1-3) assms(4) by (simp add: get_job_def)
  then have "enqueue_job job' tenants' identity' rg1 = (Inr j, rg1)"
    using r(4-7) assms(7,8) i
    by (auto simp: enqueue_job_def then_do_def atomic_def require_eval put_submitter_def)
  then show ?thesis using r by blast
qed

section \<open>Properties of reports\<close>

definition kept_report :: "string \<Rightarrow> report_row \<Rightarrow> string \<times> string \<Rightarrow> registry_tables \<Rightarrow> bool" where
  "kept_report i row f rg \<longleftrightarrow> report_at rg i = Some row \<and> map_of (rg_files rg) i = Some f"

interpretation reports: bystander "kept_report i row f" for i row f
  by unfold_locales (simp_all add: kept_report_def report_at_def)

lemma kept_publish: "keeps (kept_report i row f) (publish_report rx kd (Some (record_evaluation rx)) report tenants identity pb)"
proof -
  have "keeps (kept_report i row f) (lock_baseline r)" for r
    by (simp add: keeps_def kept_report_def lock_baseline_def Let_def report_at_def)
  then show ?thesis
    unfolding publish_report_def publish_in_tables_def Let_def option.case
    by (intro quiet_rules reports.writes reports.evaluated keeps_intros(5)) (auto simp: kept_report_def report_at_def find_append)
qed

lemma kept_jobs:
  "keeps (kept_report i row f) (save_job rx kd job tenants)" "keeps (kept_report i row f) (enqueue_job job tenants identity)"
  "keeps (kept_report i row f) (cancel_job rx kd j identity)" "keeps (kept_report i row f) (complete rx kds job m architecture)"
proof -
  have stored: "keeps (kept_report i row f) (store_job j ts)" for j ts
    by (simp add: keeps_def kept_report_def store_job_def report_at_def)
  have outcome: "keeps (kept_report i row f) (save_job_outcome rx kd j ts)" for j ts
    unfolding save_job_outcome_def store_outcome_def Let_def by (intro quiet_rules stored reports.writes)
  show "keeps (kept_report i row f) (save_job rx kd job tenants)" unfolding save_job_def by (intro quiet_rules outcome)
  show "keeps (kept_report i row f) (enqueue_job job tenants identity)"
    unfolding enqueue_job_def submit_job_def by (intro quiet_rules stored reports.writes)
  show "keeps (kept_report i row f) (cancel_job rx kd j identity)"
    unfolding cancel_job_def Let_def by (intro quiet_rules outcome)
  show "keeps (kept_report i row f) (complete rx kds job m architecture)"
    unfolding complete_def register_model_def
    by (intro quiet_rules keeps_each_work stored reports.writes keeps_intros(5))
      (auto simp: kept_report_def report_at_def case_prod_beta intro: reports.recorded)
qed

lemma kept_apply: "kept_report i row f t \<Longrightarrow> kept_report i row f (registry_apply e t)"
proof -
  assume kept: "kept_report i row f t"
  obtain rx ev where "e = (rx, ev)" by force
  then show ?thesis using kept
    by (cases ev) (simp_all add: keepsD [OF kept_jobs(1)] keepsD [OF kept_jobs(2)] keepsD [OF kept_jobs(3)] keepsD [OF kept_jobs(4)]
        keepsD [OF kept_publish] keepsD [OF reports.promoted] keepsD [OF reports.rolled_back])
qed

lemma kept_run: "kept_report i row f rg \<Longrightarrow> kept_report i row f (registry_run es rg)"
  unfolding registry_run_def by (induction es arbitrary: rg) (simp_all add: kept_apply)

text \<open>C20. A published report stays as it was signed. For a report that is handed over unsigned, as the
  runner builds it, with an encoding that reads this report back and leaves the signature out of what
  is signed, and a key ring that accepts its own signer: every operator who may see its tenants
  reads the signed report from the moment it is published, after any sequence of operations; nothing
  replaces it, and no report, this one or another, can ever be published under its evaluation's
  identifier again, by whomever and with whatever configuration.\<close>

theorem published_report_is_permanent:
  assumes "publish_report rx kd (Some (record_evaluation rx)) report tenants identity pb rg = (Inr (), rg1)" and "\<not> signed report"
    and "cd_load (rx_codec rx) (cd_dump (rx_codec rx) (sign_report rx report)) = Some (sign_report rx report)"
    and "cd_payload (rx_codec rx) (sign_report rx report) = cd_payload (rx_codec rx) report"
    and "accepts_own (rx_keyring rx)"
    and "authorize_dataset reader [] = Inr ()" and "set tenants \<subseteq> set (id_dataset_tenants reader)"
  shows "get_report rx (registry_run es rg1) (ev_evaluation_id (er_specification report)) reader = Inr (Some (sign_report rx report)) \<and>
    (\<forall>(rx' :: 'k registry_env) kd' hook' other tenants' identity' pb'.
       ev_evaluation_id (er_specification other) = ev_evaluation_id (er_specification report) \<longrightarrow>
       \<not> is_ok (fst (publish_report rx' kd' hook' other tenants' identity' pb' (registry_run es rg1))))"
proof -
  let ?r = "sign_report rx report" and ?i = "ev_evaluation_id (er_specification report)"
  let ?row = "new_report_row rx ?r tenants identity pb"
  let ?f = "(cd_dump (rx_codec rx) ?r, publication_mac rx ?r)"
  have spec: "er_specification ?r = er_specification report" by (simp add: sign_report_def sign_record_def split: option.splits)
  obtain rg0 rg2 where p: "require_signer (rx_keyring rx) = Inr ()" "report_at rg ?i = None" "map_of (rg_files rg) ?i = None"
      "rg_reports rg0 = rg_reports rg @ [?row]" "rg_files rg0 = rg_files rg"
      "record_evaluation rx ?r identity rg0 = (Inr (), rg2)"
      "rg1 = rg2\<lparr>rg_files := rg_files rg2 @ [(?i, ?f)]\<rparr>"
    by (rule publish_Inr [OF assms(1)]) (use that in auto)
  have same: "rg_reports rg2 = rg_reports rg0 \<and> rg_files rg2 = rg_files rg0"
    using p(6) by (auto simp: record_evaluation_def Let_def work_simps update_model_def split: if_splits)
  have "report_at rg1 ?i = Some ?row"
    using p(2,4) same unfolding p(7) by (simp add: report_at_def find_append new_report_row_def spec)
  moreover have "map_of (rg_files rg1) ?i = Some ?f"
    using p(3,5) same unfolding p(7) by (simp add: map_add_def)
  ultimately have kept: "kept_report ?i ?row ?f (registry_run es rg1)" by (intro kept_run) (simp add: kept_report_def)
  have "authentic rx ?row ?r (fst ?f) (snd ?f)"
  proof (cases "kg_signer (rx_keyring rx)")
    case None
    then have "?r = report" "kg_verifier (rx_keyring rx) = None"
      using p(1) by (simp_all add: sign_report_def require_signer_def)
    then show ?thesis using assms(2)
      by (simp add: authentic_def new_report_row_def accepts_legacy_mac_def signed_def publication_mac_def)
  next
    case (Some s)
    then have r: "?r = sign_record report s ''evaluation-report'' (cd_payload (rx_codec rx) report)" by (simp add: sign_report_def)
    have "signed ?r" unfolding r by (simp add: signed_def sign_record_def)
    moreover have "verify_record ?r (kg_verifier (rx_keyring rx)) ''evaluation-report'' (cd_payload (rx_codec rx) ?r) = Inr ()"
      unfolding assms(4) unfolding r using assms(5) Some by (simp add: accepts_own_def)
    ultimately show ?thesis by (simp add: authentic_def new_report_row_def)
  qed
  then have "read_report rx (registry_run es rg1) ?row = Inr ?r"
    using kept assms(3) by (simp add: read_report_def kept_report_def new_report_row_def spec)
  moreover have "set (rw_tenant_ids ?row) \<subseteq> set (id_dataset_tenants reader)" using assms(7) by (simp add: new_report_row_def)
  ultimately have "get_report rx (registry_run es rg1) ?i reader = Inr (Some ?r)"
    using kept assms(6) by (simp add: get_report_def kept_report_def)
  moreover have "\<not> is_ok (fst (publish_report rx' kd' hook' other tenants' identity' pb' (registry_run es rg1)))"
    if i: "ev_evaluation_id (er_specification other) = ?i" for rx' :: "'k registry_env" and kd' hook' other tenants' identity' pb'
  proof
    assume "is_ok (fst (publish_report rx' kd' hook' other tenants' identity' pb' (registry_run es rg1)))"
    then obtain t where "publish_report rx' kd' hook' other tenants' identity' pb' (registry_run es rg1) = (Inr (), t)"
      by (metis is_ok_iff old.unit.exhaust prod.collapse)
    from publish_Inr [OF this] show False using kept i by (auto simp: kept_report_def)
  qed
  ultimately show ?thesis by blast
qed

section \<open>Examples of jobs and reports\<close>

definition sample_job :: training_job where
  "sample_job = undefined\<lparr>jb_specification := undefined\<lparr>tj_job_id := ''j''\<rparr>, jb_trainer_architecture := ''lora'',
     jb_cancel_requested := False, jb_state := JobQueued\<rparr>"

definition queued_registry :: registry_tables where
  "queued_registry = registry_new\<lparr>rg_jobs := [\<lparr>jr_job_id = ''j'', jr_tenant_ids = [''t''], jr_data = sample_job\<rparr>],
     rg_submitters := [(''j'', trusted keeper)]\<rparr>"

lemma sample_job_id [simp]: "job_id_of sample_job = ''j''"
  by (simp add: sample_job_def job_id_of_def)

lemma queued_run: "enqueue_job sample_job [''t''] keeper registry_new = (Inr sample_job, queued_registry)"
  by (simp add: enqueue_job_def then_do_def atomic_def get_job_def job_at_def submit_job_def store_job_def put_submitter_def
      queued_registry_def registry_new_def)

theorem submission_is_idempotent_witness:
  "enqueue_job sample_job [] keeper queued_registry = (Inr sample_job, queued_registry)"
  using submission_is_idempotent [OF _ queued_run, of "[]" keeper sample_job "[]"]
  by (simp add: registry_run_def sample_job_def)

lemma cancel_run:
  "\<exists>job rg1. cancel_job keeper_env (sample_draws 0) ''j'' keeper
     (registry_run [(keeper_env, EnqueueJobEvent sample_job [''t''] keeper)] registry_new) = (Inr job, rg1) \<and>
     jb_cancel_requested job"
proof -
  have run: "registry_run [(keeper_env, EnqueueJobEvent sample_job [''t''] keeper)] registry_new = queued_registry"
    by (simp add: registry_run_def queued_run)
  have "get_job queued_registry ''j'' keeper = Inr (Some sample_job)"
    by (simp add: get_job_def job_at_def queued_registry_def)
  moreover have "jb_state sample_job = JobQueued" by (simp add: sample_job_def)
  ultimately show ?thesis unfolding run
    by (simp add: cancel_job_def then_do_def atomic_def Let_def save_job_outcome_def store_outcome_def store_job_def
        put_registry_events_def split: option.split)
qed

theorem cancelled_job_never_completes_witness:
  "\<exists>rg1. \<not> is_ok (fst (complete keeper_env sample_draws sample_job (router_manifest ''b'' Candidate) ''router-logistic-v1'' rg1))"
proof -
  let ?es = "[(keeper_env, EnqueueJobEvent sample_job [''t''] keeper)]"
  obtain job rg1 where run: "cancel_job keeper_env (sample_draws 0) ''j'' keeper (registry_run ?es registry_new) = (Inr job, rg1)"
      "jb_cancel_requested job"
    using cancel_run by blast
  from cancelled_job_never_completes [where ?'k = unit, OF refl run refl, where es' = "[]"] show ?thesis using sample_job_id by blast
qed

definition signed_keyring :: "unit keyring" where
  "signed_keyring = keyring_new echo_hashes ''secret'' (Some echo_signer) (Some echo_verifier) False"

definition signed_report :: evaluation_report where
  "signed_report = sign_record routing_report echo_signer ''evaluation-report'' []"

definition signing_env :: "unit registry_env" where
  "signing_env = keeper_env\<lparr>rx_keyring := signed_keyring,
     rx_codec := \<lparr>cd_dump = (\<lambda>_. []), cd_load = (\<lambda>_. Some signed_report), cd_payload = (\<lambda>_. [])\<rparr>\<rparr>"

definition sample_publication :: publication where
  "sample_publication = \<lparr>pb_lock_baseline = True, pb_expected_baseline = None, pb_note = None, pb_staged = True,
     pb_renamed = True, pb_committed = True\<rparr>"

lemma signing_env_fields [simp]:
  "kg_signer (rx_keyring signing_env) = Some echo_signer" "kg_verifier (rx_keyring signing_env) = Some echo_verifier"
  "cd_dump (rx_codec signing_env) r = []" "cd_load (rx_codec signing_env) t = Some signed_report"
  "cd_payload (rx_codec signing_env) r = []" "sign_report signing_env routing_report = signed_report"
  by (simp_all add: signing_env_def signed_keyring_def keyring_new_def sign_report_def signed_report_def)

lemma signing_accepts: "accepts_own (rx_keyring signing_env)"
proof -
  have "verify_record (sign_record r echo_signer p x) (Some echo_verifier) p x = Inr ()" for r :: evaluation_report and p x
    by (subst verify_sign_record [where raw = "\<lambda>x. x" and pk = "()"]) (auto simp: echo_signer_def echo_verifier_def)
  then show ?thesis by (simp add: accepts_own_def) (simp add: echo_signer_def)
qed

lemma publication_run:
  "\<exists>rg1. publish_report signing_env (sample_draws 0) (Some (record_evaluation signing_env)) routing_report [''t''] keeper sample_publication
     registry_new = (Inr (), rg1)"
proof -
  have spec: "er_specification signed_report = er_specification routing_report" by (simp add: signed_report_def sign_record_def)
  have "authorize_dataset keeper [''t''] = Inr ()" by (simp add: authorize_dataset_def keeper_def)
  moreover have "require_signer (rx_keyring signing_env) = Inr ()" by (simp add: require_signer_def)
  ultimately show ?thesis
    by (simp add: publish_report_def publish_in_tables_def then_do_def atomic_def Let_def require_eval record_evaluation_def spec
        lock_baseline_def put_registry_events_def sample_publication_def report_at_def model_at_def current_baseline_def)
      (simp add: registry_new_def routing_report_def sample_evaluation_def)
qed

theorem published_report_is_permanent_witness:
  "\<exists>rg1. get_report signing_env rg1 ''e1'' keeper = Inr (Some signed_report)"
proof -
  obtain rg1 where run: "publish_report signing_env (sample_draws 0) (Some (record_evaluation signing_env)) routing_report [''t''] keeper
      sample_publication registry_new = (Inr (), rg1)"
    using publication_run by blast
  have "\<not> signed routing_report" by (simp add: signed_def routing_report_def sample_report_def)
  moreover have "ev_evaluation_id (er_specification routing_report) = ''e1''" by (simp add: routing_report_def sample_evaluation_def)
  ultimately show ?thesis
    using published_report_is_permanent [where es = "[]", OF run _ _ _ signing_accepts keeper_authorized, THEN conjunct1]
    by (auto simp: registry_run_def)
qed

end
