(* ===== verification/Specialists.thy ===== *)
theory Specialists
  imports Control
begin

text \<open>
  The loader of specialists, \<open>RegistrySpecialists\<close> of \<open>routing/shadow.py\<close>: what the registry admits
  is loaded once and kept in a cache of eight entries, keyed by version and artifact digest, with
  a second look at the registry after the slow load. The registry is a reader for each of the two
  looks; the provider that is built from a manifest is a parameter, and its lock makes a load one
  step.
\<close>

section \<open>A cache of eight entries\<close>

text \<open>\<open>move_to_end\<close> of an entry, and an insertion followed by \<open>popitem(last=False)\<close> beyond eight entries.\<close>

definition touch :: "'k \<Rightarrow> 'v \<Rightarrow> ('k \<times> 'v) list \<Rightarrow> ('k \<times> 'v) list" where
  "touch key v cache = filter (\<lambda>(k, _). k \<noteq> key) cache @ [(key, v)]"

definition push_bounded :: "'k \<Rightarrow> 'v \<Rightarrow> ('k \<times> 'v) list \<Rightarrow> ('k \<times> 'v) list" where
  "push_bounded key v cache = (let cache' = dict_put key v cache in if length cache' > 8 then tl cache' else cache')"

definition bounded_cache :: "('k \<times> 'v) list \<Rightarrow> bool" where
  "bounded_cache cache \<longleftrightarrow> length cache \<le> 8 \<and> distinct (map fst cache)"

lemma distinct_fst_filter: "distinct (map fst xs) \<Longrightarrow> distinct (map fst (filter P xs))"
  by (induction xs) auto

lemma bounded_cache_filter: "bounded_cache cache \<Longrightarrow> bounded_cache (filter P cache)"
  by (auto simp: bounded_cache_def intro: distinct_fst_filter order_trans [OF length_filter_le])

lemma bounded_cache_touch:
  assumes "bounded_cache cache" and "map_of cache key = Some v"
  shows "bounded_cache (touch key w cache)"
proof -
  have "length (filter (\<lambda>(k, _). k \<noteq> key) cache) < length cache"
    by (rule length_filter_less [OF map_of_SomeD [OF assms(2)]]) simp
  moreover note bounded_cache_filter [OF assms(1), of "\<lambda>(k, _). k \<noteq> key"]
  ultimately show ?thesis using assms(1) by (auto simp: touch_def bounded_cache_def)
qed

lemma touch_set: "set (touch key v cache) \<subseteq> insert (key, v) (set cache)" "(key, v) \<in> set (touch key v cache)"
  by (auto simp: touch_def)

lemma push_bounded_eq:
  "map_of cache key = None \<Longrightarrow> push_bounded key v cache =
     (if length cache \<ge> 8 then tl (cache @ [(key, v)]) else cache @ [(key, v)])"
  by (simp add: push_bounded_def Let_def dict_put_fresh)

lemma bounded_cache_push:
  assumes "bounded_cache cache" and "map_of cache key = None"
  shows "bounded_cache (push_bounded key v cache)"
proof -
  have "key \<notin> fst ` set cache" using assms(2) by (simp add: map_of_eq_None_iff)
  then show ?thesis
    unfolding push_bounded_eq [OF assms(2)] using assms(1) by (cases cache) (auto simp: bounded_cache_def)
qed

lemma push_bounded_set:
  assumes "map_of cache key = None"
  shows "set (push_bounded key v cache) \<subseteq> insert (key, v) (set cache)" and "(key, v) \<in> set (push_bounded key v cache)"
  unfolding push_bounded_eq [OF assms] by (cases cache; auto)+

section \<open>The loader\<close>

type_synonym serving = "provider_request \<Rightarrow> provider_result result"

type_synonym specialist_cache = "((ident \<times> string) \<times> execution_candidate) list"

record specialists_env =
  sx_foundation :: deployment
  sx_tenants :: "ident list"
  sx_allowed :: "lifecycle_state list"
  sx_provider :: "model_manifest \<Rightarrow> (serving \<times> string) result"

definition evict :: "ident \<Rightarrow> (specialist_cache, unit) work" where
  "evict version = writing (filter (\<lambda>(k, _). fst k \<noteq> version))"

definition get_or_evict :: "registry_reader \<Rightarrow> ident \<Rightarrow> identity \<Rightarrow> (specialist_cache, model_manifest) work" where
  "get_or_evict registry version internal =
     (case registry version internal of
        Inl e \<Rightarrow> then_do (evict version) (\<lambda>_. lift_result (Inl e))
      | Inr m \<Rightarrow> pass m)"

definition model_prices :: "ident \<Rightarrow> model_manifest \<Rightarrow> price_list" where
  "model_prices version m =
     \<lparr>pl_version = ''model-'' @ version, pl_input_micros_per_1000_tokens = mm_input_micros_per_1000_tokens m,
      pl_output_micros_per_1000_tokens = mm_output_micros_per_1000_tokens m\<rparr>"

definition ineligible :: exc where
  "ineligible = GatewayError 409 ''shadow_model_ineligible''"

definition internal_identity :: "ident list \<Rightarrow> identity \<Rightarrow> identity" where
  "internal_identity tenants i = i\<lparr>id_key_class := OperatorKey, id_dataset_tenants := tenants\<rparr>"

definition specialist_candidate :: "specialists_env \<Rightarrow> model_manifest \<Rightarrow> serving \<times> string \<Rightarrow> execution_candidate" where
  "specialist_candidate sx m p =
     (execution_candidate_default
        ((sx_foundation sx)\<lparr>dp_model_deployment_id := mm_version m, dp_model_id := mm_base_model_id m,
           dp_model_version := snd p, dp_model_provider := ''local-specialist'',
           dp_processing_region := mm_processing_region m, dp_price_list := model_prices (mm_version m) m\<rparr>)
        (fst p))\<lparr>xc_specialist := True, xc_context_limit := mm_context_limit m\<rparr>"

definition still_admitted ::
    "specialists_env \<Rightarrow> registry_reader \<Rightarrow> ident \<Rightarrow> identity \<Rightarrow> model_manifest \<Rightarrow> (specialist_cache, unit) work" where
  "still_admitted sx registry version identity m =
     then_do (get_or_evict registry version (internal_identity (sx_tenants sx) identity)) (\<lambda>latest.
     if mm_state latest \<notin> set (sx_allowed sx) \<or> mm_artifact_digest latest \<noteq> mm_artifact_digest m
     then then_do (evict version) (\<lambda>_. lift_result (Inl ineligible))
     else require (id_tenant_id identity \<in> set (mm_tenant_ids latest)) ineligible)"

definition cached_or_built ::
    "specialists_env \<Rightarrow> registry_reader \<Rightarrow> ident \<Rightarrow> identity \<Rightarrow> model_manifest \<Rightarrow>
     (specialist_cache, execution_candidate) work" where
  "cached_or_built sx latest version identity m =
     (let key = (version, mm_artifact_digest m) in
      then_do (reading (\<lambda>cache. map_of cache key)) (\<lambda>found.
      case found of
        Some c \<Rightarrow> then_do (writing (touch key c)) (\<lambda>_. pass c)
      | None \<Rightarrow>
          then_do (lift_result (sx_provider sx m)) (\<lambda>p.
          then_do (still_admitted sx latest version identity m) (\<lambda>_.
          let c = specialist_candidate sx m p in
          then_do (writing (push_bounded key c)) (\<lambda>_. pass c)))))"

definition load ::
    "specialists_env \<Rightarrow> registry_reader \<Rightarrow> registry_reader \<Rightarrow> ident \<Rightarrow> identity \<Rightarrow>
     (specialist_cache, execution_candidate) work" where
  "load sx registry latest version identity =
     then_do (get_or_evict registry version (internal_identity (sx_tenants sx) identity)) (\<lambda>m.
     then_do (writing (filter (\<lambda>(k, _). \<not> (fst k = version \<and>
         (k \<noteq> (version, mm_artifact_digest m) \<or> mm_state m \<notin> set (sx_allowed sx)))))) (\<lambda>_.
     then_do (require (mm_state m \<in> set (sx_allowed sx) \<and> id_tenant_id identity \<in> set (mm_tenant_ids m)) ineligible) (\<lambda>_.
     cached_or_built sx latest version identity m)))"

section \<open>Lemmas\<close>

text \<open>The cache is bounded and without two entries of one key, and its entries are specialists.\<close>

definition cache_ok :: "specialist_cache \<Rightarrow> bool" where
  "cache_ok cache \<longleftrightarrow> bounded_cache cache \<and> (\<forall>(k, c) \<in> set cache. xc_specialist c)"

lemma get_or_evict_Inr [work_simps]:
  "get_or_evict registry version i cache = (Inr m, cache') \<longleftrightarrow> registry version i = Inr m \<and> cache' = cache"
  by (auto simp: get_or_evict_def then_do_def evict_def lift_result_def pass_def writing_def split: sum.splits)

lemma cache_ok_filter: "cache_ok cache \<Longrightarrow> cache_ok (filter P cache)"
  by (auto simp: cache_ok_def intro: bounded_cache_filter)

lemma cache_ok_touch:
  assumes "cache_ok cache" and "map_of cache key = Some c"
  shows "cache_ok (touch key c cache)"
  using assms map_of_SomeD [OF assms(2)] touch_set(1) [of key c cache] bounded_cache_touch
  by (fastforce simp: cache_ok_def)

lemma cache_ok_push:
  assumes "cache_ok cache" and "xc_specialist c" and "map_of cache key = None"
  shows "cache_ok (push_bounded key c cache)"
proof -
  have "bounded_cache (push_bounded key c cache)"
    using assms(1) by (intro bounded_cache_push [OF _ assms(3)]) (simp add: cache_ok_def)
  then show ?thesis
    using assms(1,2) push_bounded_set(1) [OF assms(3), of c] by (auto simp: cache_ok_def dest!: subsetD)
qed

lemma cache_ok_member: "cache_ok cache \<Longrightarrow> (k, c) \<in> set cache \<Longrightarrow> map_of cache k = Some c"
  by (simp add: cache_ok_def bounded_cache_def)

lemma cached_or_built_Inr:
  assumes "cached_or_built sx latest version identity m cache = (Inr c, cache')"
  shows "map_of cache (version, mm_artifact_digest m) = Some c \<and>
      cache' = touch (version, mm_artifact_digest m) c cache \<or>
    map_of cache (version, mm_artifact_digest m) = None \<and>
      cache' = push_bounded (version, mm_artifact_digest m) c cache \<and>
      (\<exists>p l. sx_provider sx m = Inr p \<and> c = specialist_candidate sx m p \<and>
        latest version (internal_identity (sx_tenants sx) identity) = Inr l \<and>
        mm_state l \<in> set (sx_allowed sx) \<and> mm_artifact_digest l = mm_artifact_digest m \<and>
        id_tenant_id identity \<in> set (mm_tenant_ids l))"
  using assms
  by (auto simp: cached_or_built_def still_admitted_def work_simps Let_def split: option.splits if_splits)

section \<open>Properties\<close>

text \<open>A specialist that the loader hands out was admitted when it was asked for: the registry names its
  manifest, in an allowed state and for the tenant of the caller. It is the entry of the cache for this version and
  these artifacts, or it was built just now and the registry, asked again after the build, still
  admitted the same artifacts for the tenant; and the cache keeps its bound of eight entries.\<close>

theorem loaded_specialist_admitted:
  assumes "load sx registry latest version identity cache = (Inr c, cache')" and "cache_ok cache"
  shows "\<exists>m. registry version (internal_identity (sx_tenants sx) identity) = Inr m \<and>
    mm_state m \<in> set (sx_allowed sx) \<and> id_tenant_id identity \<in> set (mm_tenant_ids m) \<and>
    (map_of cache (version, mm_artifact_digest m) = Some c \<or>
     (\<exists>p l. sx_provider sx m = Inr p \<and> c = specialist_candidate sx m p \<and>
        latest version (internal_identity (sx_tenants sx) identity) = Inr l \<and>
        mm_state l \<in> set (sx_allowed sx) \<and> mm_artifact_digest l = mm_artifact_digest m \<and>
        id_tenant_id identity \<in> set (mm_tenant_ids l))) \<and>
    map_of cache' (version, mm_artifact_digest m) = Some c \<and> cache_ok cache'"
proof -
  let ?keep = "\<lambda>m. filter (\<lambda>(k, _). \<not> (fst k = version \<and>
    (k \<noteq> (version, mm_artifact_digest m) \<or> mm_state m \<notin> set (sx_allowed sx)))) cache"
  obtain m where m: "registry version (internal_identity (sx_tenants sx) identity) = Inr m"
      "mm_state m \<in> set (sx_allowed sx)" "id_tenant_id identity \<in> set (mm_tenant_ids m)"
      and run: "cached_or_built sx latest version identity m (?keep m) = (Inr c, cache')"
    using assms(1) by (auto simp: load_def work_simps)
  have same: "map_of (?keep m) (version, mm_artifact_digest m) = map_of cache (version, mm_artifact_digest m)"
    using m(2) by (induction cache) auto
  have ok: "cache_ok (?keep m)" by (rule cache_ok_filter [OF assms(2)])
  from cached_or_built_Inr [OF run] show ?thesis
  proof (elim disjE conjE exE)
    assume f: "map_of (?keep m) (version, mm_artifact_digest m) = Some c"
      and c': "cache' = touch (version, mm_artifact_digest m) c (?keep m)"
    have ok': "cache_ok cache'" unfolding c' by (rule cache_ok_touch [OF ok f])
    moreover have "((version, mm_artifact_digest m), c) \<in> set cache'" unfolding c' by (rule touch_set(2))
    ultimately have "map_of cache' (version, mm_artifact_digest m) = Some c" by (rule cache_ok_member)
    then show ?thesis using m f same ok' by metis
  next
    fix p l
    assume n: "map_of (?keep m) (version, mm_artifact_digest m) = None"
      and c': "cache' = push_bounded (version, mm_artifact_digest m) c (?keep m)"
      and b: "sx_provider sx m = Inr p" "c = specialist_candidate sx m p"
        "latest version (internal_identity (sx_tenants sx) identity) = Inr l" "mm_state l \<in> set (sx_allowed sx)"
        "mm_artifact_digest l = mm_artifact_digest m" "id_tenant_id identity \<in> set (mm_tenant_ids l)"
    have "xc_specialist c" by (simp add: b(2) specialist_candidate_def)
    then have ok': "cache_ok cache'" unfolding c' by (rule cache_ok_push [OF ok _ n])
    moreover have "((version, mm_artifact_digest m), c) \<in> set cache'" unfolding c' by (rule push_bounded_set(2) [OF n])
    ultimately have "map_of cache' (version, mm_artifact_digest m) = Some c" by (rule cache_ok_member)
    then show ?thesis using m b ok' by blast
  qed
qed

text \<open>The kill of a version reaches the loader: when the registry no longer names it, or names it in a state
  that is not allowed, the load raises and no entry of the version remains in the cache.\<close>

theorem withdrawn_specialist_evicted:
  assumes "\<And>m. registry version (internal_identity (sx_tenants sx) identity) = Inr m \<Longrightarrow> mm_state m \<notin> set (sx_allowed sx)"
  shows "\<not> is_ok (fst (load sx registry latest version identity cache)) \<and>
    (\<forall>k \<in> fst ` set (snd (load sx registry latest version identity cache)). fst k \<noteq> version)"
proof (cases "registry version (internal_identity (sx_tenants sx) identity)")
  case (Inl e)
  then show ?thesis by (auto simp: load_def get_or_evict_def evict_def then_do_def is_ok_def)
next
  case (Inr m)
  with assms have "mm_state m \<notin> set (sx_allowed sx)" by blast
  with Inr show ?thesis
    by (auto simp: load_def get_or_evict_def then_do_def require_eval is_ok_def)
qed

section \<open>Witnesses\<close>

definition served_manifest :: "lifecycle_state \<Rightarrow> model_manifest" where
  "served_manifest st = undefined\<lparr>mm_version := ''s'', mm_state := st, mm_tenant_ids := [''t''], mm_artifact_digest := ''d''\<rparr>"

definition sample_loader :: specialists_env where
  "sample_loader = \<lparr>sx_foundation = xc_deployment sample_foundation, sx_tenants = [''t''], sx_allowed = [Canary, Production],
     sx_provider = (\<lambda>_. Inr (xc_provider sample_foundation, ''v1''))\<rparr>"

definition tenant_caller :: identity where
  "tenant_caller = \<lparr>id_tenant_id = ''t'', id_application_ids = [''app''], id_environment = Local, id_subject = Some ''u'',
     id_key_class = UserKey, id_dataset_tenants = [], id_capabilities = []\<rparr>"

definition only_manifest :: "lifecycle_state \<Rightarrow> registry_reader" where
  "only_manifest st = (\<lambda>_ _. Inr (served_manifest st))"

lemma sample_load:
  "load sample_loader (only_manifest Canary) (only_manifest Canary) ''s'' tenant_caller [] =
     (Inr (specialist_candidate sample_loader (served_manifest Canary) (xc_provider sample_foundation, ''v1'')),
      [((''s'', ''d''), specialist_candidate sample_loader (served_manifest Canary)
          (xc_provider sample_foundation, ''v1''))])"
  by (simp add: load_def get_or_evict_def cached_or_built_def still_admitted_def then_do_def require_eval Let_def
      only_manifest_def served_manifest_def sample_loader_def tenant_caller_def push_bounded_def)

theorem loaded_specialist_admitted_witness:
  "\<exists>m. only_manifest Canary ''s'' (internal_identity (sx_tenants sample_loader) tenant_caller) = Inr m \<and>
     mm_state m \<in> set (sx_allowed sample_loader) \<and> id_tenant_id tenant_caller \<in> set (mm_tenant_ids m)"
  using loaded_specialist_admitted [OF sample_load] by (auto simp: cache_ok_def bounded_cache_def)

theorem withdrawn_specialist_evicted_witness:
  "\<not> is_ok (fst (load sample_loader (only_manifest Revoked) (only_manifest Revoked) ''s'' tenant_caller
      [((''s'', ''d''), sample_specialist)]))"
  using withdrawn_specialist_evicted [of "only_manifest Revoked" "''s''" sample_loader tenant_caller
      "only_manifest Revoked" "[((''s'', ''d''), sample_specialist)]"]
  by (simp add: only_manifest_def served_manifest_def sample_loader_def)

end
