(* ===== verification/Live.thy ===== *)
theory Live
  imports Specialists Artifacts
begin

text \<open>
  The planners of the attempts: \<open>FoundationPlanner\<close> of \<open>routing/chain.py\<close> and \<open>LivePlanner\<close> of
  \<open>routing/live.py\<close>, which admits specialists by the active policy, its switches, the manifests,
  the breakers and the canary assignment, asks the promoted router for an estimate and selects
  the cheapest. The state is that of the control store, of the breakers and of the three caches
  of the planner, whose lock makes a plan one step; what other threads do to the control store
  between two of its readings is an argument of the call, as is whether a reading raises. The
  parsed router with its estimate and the directories of artifacts are parameters. The registry is a reader, one for each time the code asks. Whether two snapshots
  are the same object is not a fact about values: it is a draw, which counts only for equal ones.
\<close>

section \<open>State and environment\<close>

record route_estimate =
  re_suitability :: flt
  re_confidence :: flt
  re_ood :: flt
  re_latency_ms :: flt

record ('k, 'r) live_env =
  lx_control :: "'k control_env"
  lx_provider :: serving
  lx_dump :: manifest_dump
  lx_directory :: "string \<Rightarrow> directory option"
  lx_parse_router :: "string \<Rightarrow> 'r result"
  lx_estimate :: "'r \<Rightarrow> routing_features \<Rightarrow> ident \<Rightarrow> route_estimate result"
  lx_specialists :: specialists_env
  lx_tenants :: "ident list"

type_synonym 'r router_cache = "((ident \<times> string) \<times> (model_manifest \<times> 'r)) list"

record 'r planner_state =
  ln_control :: control_state
  ln_breakers :: breakers
  ln_snapshot :: "route_snapshot option"
  ln_manifests :: "(ident \<times> model_manifest) list"
  ln_routers :: "'r router_cache"
  ln_specialists :: specialist_cache
  ln_kill_switch :: nat
  ln_metrics :: "string list"

record live_draws =
  lw_control :: "nat \<Rightarrow> control_draws"
  lw_others :: "nat \<Rightarrow> control_state \<Rightarrow> control_state"
  lw_outage :: "nat \<Rightarrow> bool"
  lw_registry :: "nat \<Rightarrow> registry_reader"
  lw_loads :: "ident \<Rightarrow> nat \<Rightarrow> registry_reader"
  lw_same_object :: bool
  lw_clock :: "ident \<Rightarrow> flt"

text \<open>The reading of the snapshot number \<open>k\<close>.\<close>

definition read_snapshot ::
    "'k control_env \<Rightarrow> live_draws \<Rightarrow> nat \<Rightarrow> ('r planner_state, route_snapshot) work" where
  "read_snapshot kx lw k = (\<lambda>st.
     let c = lw_others lw k (ln_control st) in
     if lw_outage lw k then (Inl OtherException, st\<lparr>ln_control := c\<rparr>)
     else case snapshot kx (lw_control lw k) c of (r, c') \<Rightarrow> (r, st\<lparr>ln_control := c'\<rparr>))"

definition meter :: "string \<Rightarrow> ('r planner_state, unit) work" where
  "meter name = writing (\<lambda>st. st\<lparr>ln_metrics := ln_metrics st @ [name]\<rparr>)"

section \<open>The foundation\<close>

definition snapshot_or_killed ::
    "'k control_env \<Rightarrow> live_draws \<Rightarrow> ('r planner_state, route_snapshot) work" where
  "snapshot_or_killed kx lw = (\<lambda>st.
     case read_snapshot kx lw 0 st of
       (Inr s, st') \<Rightarrow> (Inr s, st')
     | (Inl _, st') \<Rightarrow> then_do (meter ''shadow_failures'')
           (\<lambda>_. pass (route_snapshot_default\<lparr>sn_killed := True\<rparr>)) st')"

definition kill_gauge :: "route_snapshot \<Rightarrow> nat" where
  "kill_gauge s = (if sn_killed s \<or> (case sn_policy s of None \<Rightarrow> False | Some p \<Rightarrow> po_kill_switch p) then 1 else 0)"

definition foundation_plan ::
    "'k control_env \<Rightarrow> serving \<Rightarrow> live_draws \<Rightarrow> route_selection \<Rightarrow>
     routing_options \<Rightarrow> ('r planner_state, chain_plan) work" where
  "foundation_plan kx provider lw selection options =
     then_do (snapshot_or_killed kx lw) (\<lambda>s.
     then_do (writing (\<lambda>st. st\<lparr>ln_kill_switch := kill_gauge s\<rparr>)) (\<lambda>_.
     then_do (lift_result (case sn_policy s of Some p \<Rightarrow> Inr p
       | None \<Rightarrow> route_policy_validate
           (default_route_policy ''foundation-only'' (dp_model_deployment_id (rx_deployment selection))))) (\<lambda>p.
     pass \<lparr>cp_candidates = [execution_candidate_default (rx_deployment selection) provider], cp_policy = p,
           cp_allow_live_specialists = False,
           cp_fallback_reason = (if ro_mode options = SpecialistMode then Some ''live_specialists_disabled'' else None),
           cp_considered = []\<rparr>)))"

section \<open>The caches\<close>

text \<open>\<open>_refresh_manifests\<close>: the manifests of a snapshot's policy, read when the snapshot is a new object.\<close>

definition policy_versions :: "route_policy \<Rightarrow> ident \<Rightarrow> ident list" where
  "policy_versions p router_version = remdups (router_version # po_eligible_specialist_versions p)"

definition router_current :: "(ident \<times> model_manifest) list \<Rightarrow> (ident \<times> string) \<times> (model_manifest \<times> 'r) \<Rightarrow> bool" where
  "router_current manifests e =
     (case e of (key, (verified, _)) \<Rightarrow>
        (case map_of manifests (fst key) of
           None \<Rightarrow> True
         | Some current \<Rightarrow> mm_artifact_digest current = snd key \<and> mm_state current = mm_state verified))"

definition refresh_manifests ::
    "live_draws \<Rightarrow> route_snapshot \<Rightarrow> route_policy \<Rightarrow> ident \<Rightarrow> identity \<Rightarrow> ('r planner_state, unit) work" where
  "refresh_manifests lw s p router_version internal =
     then_do (reading (\<lambda>st. lw_same_object lw \<and> ln_snapshot st = Some s)) (\<lambda>same.
     if same then pass ()
     else then_do (lift_result (each_result (\<lambda>v. bindE (lw_registry lw 0 v internal) (\<lambda>m. Inr (v, m)))
             (policy_versions p router_version))) (\<lambda>manifests.
       writing (\<lambda>st. st\<lparr>ln_routers := filter (router_current manifests) (ln_routers st),
         ln_manifests := manifests, ln_snapshot := Some s\<rparr>)))"

text \<open>\<open>_router\<close>.\<close>

definition cold_router ::
    "('k, 'r) live_env \<Rightarrow> live_draws \<Rightarrow> model_manifest \<Rightarrow> identity \<Rightarrow> 'r result" where
  "cold_router lx lw m internal =
     bindE (verify_artifact (kx_hash (lx_control lx)) (kx_keyring (lx_control lx)) (lx_dump lx) m
              (lx_directory lx (mm_storage_location m))) (\<lambda>files.
     case map_of files ''router.json'' of
       None \<Rightarrow> Inl OtherException
     | Some content \<Rightarrow>
         bindE (lx_parse_router lx content) (\<lambda>router.
         bindE (lw_registry lw 1 (mm_version m) internal) (\<lambda>latest.
         bindE (guardE (latest = m) (GatewayError 409 ''live_router_changed'')) (\<lambda>_. Inr router))))"

definition router_of ::
    "('k, 'r) live_env \<Rightarrow> live_draws \<Rightarrow> model_manifest \<Rightarrow> identity \<Rightarrow> ('r planner_state, 'r) work" where
  "router_of lx lw m internal =
     (let key = (mm_version m, mm_artifact_digest m) in
      then_do (reading (\<lambda>st. map_of (ln_routers st) key)) (\<lambda>found.
      case found of
        Some (v, router) \<Rightarrow>
          then_do (writing (\<lambda>st. st\<lparr>ln_routers := touch key (v, router) (ln_routers st)\<rparr>))
            (\<lambda>_. pass router)
      | None \<Rightarrow>
          then_do (lift_result (cold_router lx lw m internal)) (\<lambda>router.
          then_do (writing (\<lambda>st. st\<lparr>ln_routers := push_bounded key (m, router) (ln_routers st)\<rparr>))
            (\<lambda>_. pass router))))"

section \<open>One candidate\<close>

text \<open>\<open>int.from_bytes(digest, "big")\<close>.\<close>

definition big_endian :: "string \<Rightarrow> nat" where
  "big_endian s = foldl (\<lambda>n c. 256 * n + code c) 0 s"

definition assigned :: "hash_functions \<Rightarrow> string \<Rightarrow> route_policy \<Rightarrow> bool" where
  "assigned hf i p =
     (of_nat (big_endian (hf_sha256 hf (i @ '':'' @ po_policy_id p))) / 2 ^ 256 < cc_traffic_fraction (po_canary p))"

record live_case =
  lc_selection :: route_selection
  lc_request :: provider_request
  lc_features :: routing_features
  lc_decision :: policy_decision
  lc_identity :: identity
  lc_snapshot :: route_snapshot
  lc_policy :: route_policy

text \<open>The branches before the circuit breaker is asked and those after it.\<close>

definition manifest_reason :: "live_case \<Rightarrow> ident \<Rightarrow> model_manifest \<Rightarrow> string option" where
  "manifest_reason lc version m =
     (if version \<in> set (sn_disabled_specialists (lc_snapshot lc)) then Some ''deployment_disabled''
      else if mm_state m \<notin> {Canary, Production} then Some ''state_ineligible''
      else if \<not> pd_processing_allowed (lc_decision lc) \<or> mm_processing_region m \<noteq> pd_residency (lc_decision lc)
        then Some ''policy_uncertainty''
      else if id_tenant_id (lc_identity lc) \<notin> set (mm_tenant_ids m) then Some ''policy_uncertainty''
      else if ''text'' \<notin> set (mm_modalities m) then Some ''unsupported_modality''
      else if int (input_tokens (lc_request lc)) + pr_max_output_tokens (lc_request lc) > mm_context_limit m
        then Some ''context_length''
      else None)"

definition canary_reason :: "'k control_env \<Rightarrow> live_case \<Rightarrow> model_manifest \<Rightarrow> string option" where
  "canary_reason kx lc m =
     (let c = po_canary (lc_policy lc) in
      if mm_state m = Canary \<and> cc_traffic_fraction c > 5 / 100 then Some ''canary_not_assigned''
      else if cc_tenant_allowlist c \<noteq> [] \<and>
          pseudonym (kx_hash kx) (kx_keyring kx) (id_tenant_id (lc_identity lc)) ''canary-tenant''
            \<notin> set (cc_tenant_allowlist c)
        then Some ''canary_not_assigned''
      else if \<not> assigned (kx_hash kx) (rd_interaction_id (rx_decision (lc_selection lc))) (lc_policy lc)
        then Some ''canary_not_assigned''
      else None)"

definition circuit_available :: "live_draws \<Rightarrow> ident \<Rightarrow> breaker_thresholds \<Rightarrow> ('r planner_state, bool) work" where
  "circuit_available lw version t = (\<lambda>st.
     case available (ln_breakers st) version t (lw_clock lw version) of
       (b, bs) \<Rightarrow> (Inr b, st\<lparr>ln_breakers := bs\<rparr>))"

definition admission_reason ::
    "'k control_env \<Rightarrow> live_draws \<Rightarrow> live_case \<Rightarrow> ident \<Rightarrow> model_manifest \<Rightarrow> ('r planner_state, string option) work" where
  "admission_reason kx lw lc version m =
     (case manifest_reason lc version m of
        Some r \<Rightarrow> pass (Some r)
      | None \<Rightarrow>
          then_do (circuit_available lw version (po_breaker (lc_policy lc))) (\<lambda>ok.
          pass (if ok then canary_reason kx lc m else Some ''circuit_open'')))"

definition live_deployment :: "deployment \<Rightarrow> ident \<Rightarrow> model_manifest \<Rightarrow> deployment" where
  "live_deployment d version m =
     d\<lparr>dp_model_deployment_id := version, dp_model_provider := ''local-specialist'',
       dp_model_id := mm_base_model_id m, dp_model_version := mm_version m,
       dp_processing_region := mm_processing_region m, dp_price_list := model_prices version m\<rparr>"

definition live_candidate ::
    "serving \<Rightarrow> live_case \<Rightarrow> ident \<Rightarrow> model_manifest \<Rightarrow> string option \<Rightarrow> execution_candidate" where
  "live_candidate provider lc version m reason =
     (execution_candidate_default (live_deployment (rx_deployment (lc_selection lc)) version m) provider)
       \<lparr>xc_specialist := True, xc_rejection_reason := reason, xc_context_limit := mm_context_limit m,
        xc_has_estimate := False\<rparr>"

definition estimated :: "route_estimate \<Rightarrow> execution_candidate \<Rightarrow> execution_candidate" where
  "estimated e c = c\<lparr>xc_quality := re_suitability e, xc_confidence := re_confidence e, xc_ood_score := re_ood e,
     xc_estimated_latency_ms := re_latency_ms e, xc_has_estimate := True\<rparr>"

definition estimate_reason :: "live_case \<Rightarrow> route_estimate \<Rightarrow> deployment \<Rightarrow> string option" where
  "estimate_reason lc e d =
     (let p = lc_policy lc in
      if re_ood e > po_ood_threshold_max p then Some ''out_of_distribution''
      else if re_suitability e < po_quality_threshold p then Some ''low_quality''
      else if re_confidence e < po_router_confidence_threshold p then Some ''low_confidence''
      else if request_cost d (lc_request lc) > request_cost (rx_deployment (lc_selection lc)) (lc_request lc)
        then Some ''not_cheapest''
      else None)"

definition load_specialist ::
    "('k, 'r) live_env \<Rightarrow> live_draws \<Rightarrow> ident \<Rightarrow> identity \<Rightarrow> ('r planner_state, execution_candidate) work" where
  "load_specialist lx lw version identity = (\<lambda>st.
     case load (lx_specialists lx) (lw_loads lw version 0) (lw_loads lw version 1) version identity (ln_specialists st) of
       (r, cache) \<Rightarrow> (r, st\<lparr>ln_specialists := cache\<rparr>))"

definition consider_version ::
    "('k, 'r) live_env \<Rightarrow> live_draws \<Rightarrow> live_case \<Rightarrow> 'r \<Rightarrow> ident \<Rightarrow> ('r planner_state, execution_candidate) work" where
  "consider_version lx lw lc router version =
     then_do (reading (\<lambda>st. map_of (ln_manifests st) version)) (\<lambda>found.
     case found of
       None \<Rightarrow> lift_result (Inl OtherException)
     | Some m \<Rightarrow>
         then_do (admission_reason (lx_control lx) lw lc version m) (\<lambda>reason.
         let c = live_candidate (lx_provider lx) lc version m reason in
         if reason \<noteq> None then pass c
         else then_do (lift_result (lx_estimate lx router (lc_features lc) version)) (\<lambda>e.
           let c = estimated e c in
           case estimate_reason lc e (xc_deployment c) of
             Some r \<Rightarrow> pass (c\<lparr>xc_rejection_reason := Some r\<rparr>)
           | None \<Rightarrow> then_do (load_specialist lx lw version (lc_identity lc)) (\<lambda>loaded.
               pass (c\<lparr>xc_provider := xc_provider loaded\<rparr>)))))"

fun consider_versions ::
    "('k, 'r) live_env \<Rightarrow> live_draws \<Rightarrow> live_case \<Rightarrow> 'r \<Rightarrow> ident list \<Rightarrow>
     ('r planner_state, execution_candidate list) work" where
  "consider_versions lx lw lc router [] = pass []"
| "consider_versions lx lw lc router (v # vs) =
     then_do (consider_version lx lw lc router v) (\<lambda>c.
     then_do (consider_versions lx lw lc router vs) (\<lambda>cs. pass (c # cs)))"

section \<open>The plan\<close>

definition candidate_key :: "provider_request \<Rightarrow> execution_candidate \<Rightarrow> micros \<times> string" where
  "candidate_key r c = (request_cost (xc_deployment c) r, dp_model_deployment_id (xc_deployment c))"

definition withdraw :: "route_snapshot \<Rightarrow> execution_candidate \<Rightarrow> execution_candidate" where
  "withdraw latest c =
     (if dp_model_deployment_id (xc_deployment c) \<in> set (sn_disabled_specialists latest)
      then c\<lparr>xc_rejection_reason := Some ''deployment_disabled''\<rparr> else c)"

fun select_first :: "bool \<Rightarrow> execution_candidate list \<Rightarrow> execution_candidate list" where
  "select_first selected [] = []"
| "select_first selected (c # cs) =
     (if xc_rejection_reason c = None
      then (if selected then c\<lparr>xc_rejection_reason := Some ''not_selected''\<rparr> else c) # select_first True cs
      else c # select_first selected cs)"

definition plan_reason :: "execution_candidate list \<Rightarrow> string option" where
  "plan_reason cs =
     (if list_ex (\<lambda>c. xc_rejection_reason c = Some ''out_of_distribution'') cs then Some ''out_of_distribution''
      else case cs of [] \<Rightarrow> Some ''low_confidence'' | c # _ \<Rightarrow> xc_rejection_reason c)"

definition live_plan :: "route_policy \<Rightarrow> chain_plan \<Rightarrow> execution_candidate list \<Rightarrow> chain_plan" where
  "live_plan p foundation cs =
     (let chosen = filter (\<lambda>c. xc_rejection_reason c = None) cs in
      \<lparr>cp_candidates = chosen @ cp_candidates foundation, cp_policy = p, cp_allow_live_specialists = True,
       cp_fallback_reason = (if chosen \<noteq> [] then None else plan_reason cs),
       cp_considered = cs @ cp_candidates foundation\<rparr>)"

definition fall_back :: "string \<Rightarrow> chain_plan \<Rightarrow> chain_plan" where
  "fall_back reason foundation = foundation\<lparr>cp_fallback_reason := Some reason\<rparr>"

definition planned ::
    "('k, 'r) live_env \<Rightarrow> live_draws \<Rightarrow> live_case \<Rightarrow> ident \<Rightarrow> 'r \<Rightarrow> chain_plan \<Rightarrow> ('r planner_state, chain_plan) work" where
  "planned lx lw lc task router foundation =
     then_do (consider_versions lx lw lc router (po_eligible_specialist_versions (lc_policy lc))) (\<lambda>cs.
     then_do (read_snapshot (lx_control lx) lw 2) (\<lambda>latest.
     if sn_policy latest \<noteq> Some (lc_policy lc) \<or> \<not> enabled latest (id_tenant_id (lc_identity lc)) task
     then pass (fall_back ''live_specialists_disabled'' foundation)
     else pass (live_plan (lc_policy lc) foundation
       (select_first False (map (withdraw latest) (sort_key (candidate_key (lc_request lc)) cs))))))"

definition router_admitted :: "identity \<Rightarrow> model_manifest \<Rightarrow> bool" where
  "router_admitted identity m =
     (mm_state m \<in> {Approved, Shadow, Canary, Production} \<and> mm_adapter_architecture m = router_architecture \<and>
      id_tenant_id identity \<in> set (mm_tenant_ids m))"

definition with_router ::
    "('k, 'r) live_env \<Rightarrow> live_draws \<Rightarrow> live_case \<Rightarrow> ident \<Rightarrow> ident \<Rightarrow> chain_plan \<Rightarrow> ('r planner_state, chain_plan) work" where
  "with_router lx lw lc task router_version foundation =
     (let internal = internal_identity (lx_tenants lx) (lc_identity lc) in
      then_do (refresh_manifests lw (lc_snapshot lc) (lc_policy lc) router_version internal) (\<lambda>_.
      then_do (reading (\<lambda>st. map_of (ln_manifests st) router_version)) (\<lambda>found.
      case found of
        None \<Rightarrow> lift_result (Inl OtherException)
      | Some m \<Rightarrow>
          if \<not> router_admitted (lc_identity lc) m then pass (fall_back ''policy_uncertainty'' foundation)
          else then_do (router_of lx lw m internal) (\<lambda>router. planned lx lw lc task router foundation))))"

text \<open>\<open>_live\<close>, which needs the request, its features, the decision of the policy and a router.\<close>

definition live_case_of ::
    "route_selection \<Rightarrow> identity \<Rightarrow> route_snapshot \<Rightarrow> route_policy \<Rightarrow> (live_case \<times> ident) option" where
  "live_case_of selection identity s p =
     (case (rx_request selection, rx_features selection, rx_policy selection, po_router_version p) of
        (Some r, Some f, Some d, Some version) \<Rightarrow>
          Some (\<lparr>lc_selection = selection, lc_request = r, lc_features = f, lc_decision = d,
            lc_identity = identity, lc_snapshot = s, lc_policy = p\<rparr>, version)
      | _ \<Rightarrow> None)"

definition live ::
    "('k, 'r) live_env \<Rightarrow> live_draws \<Rightarrow> route_selection \<Rightarrow> identity \<Rightarrow> ident \<Rightarrow> chain_plan \<Rightarrow>
     ('r planner_state, chain_plan) work" where
  "live lx lw selection identity task foundation =
     then_do (read_snapshot (lx_control lx) lw 1) (\<lambda>s.
     case sn_policy s of
       None \<Rightarrow> pass foundation
     | Some p \<Rightarrow>
         if \<not> po_live_specialists_allowed p then pass foundation
         else if \<not> enabled s (id_tenant_id identity) task
         then pass (fall_back ''live_specialists_disabled'' foundation)
         else case live_case_of selection identity s p of
             Some (lc, version) \<Rightarrow> with_router lx lw lc task version foundation
           | None \<Rightarrow> pass (fall_back ''policy_uncertainty'' foundation))"

text \<open>The handler of \<open>plan\<close>: every exception empties the caches and leaves the foundation.\<close>

definition fails_closed :: "chain_plan \<Rightarrow> ('r planner_state, chain_plan) work \<Rightarrow> ('r planner_state, chain_plan) work" where
  "fails_closed foundation m = (\<lambda>st.
     case m st of
       (Inr plan, st') \<Rightarrow> (Inr plan, st')
     | (Inl _, st') \<Rightarrow>
         then_do (writing (\<lambda>st. st\<lparr>ln_snapshot := None, ln_manifests := [], ln_routers := []\<rparr>)) (\<lambda>_.
         then_do (meter ''live_planner_failures'') (\<lambda>_.
         pass (fall_back ''policy_uncertainty'' foundation))) st')"

definition plan ::
    "('k, 'r) live_env \<Rightarrow> live_draws \<Rightarrow> route_selection \<Rightarrow> routing_options \<Rightarrow> identity \<Rightarrow> ident \<Rightarrow>
     ('r planner_state, chain_plan) work" where
  "plan lx lw selection options identity task =
     then_do (foundation_plan (lx_control lx) (lx_provider lx) lw selection options) (\<lambda>foundation.
     if ro_mode options = FoundationMode then pass foundation
     else fails_closed foundation (live lx lw selection identity task foundation))"

end
