(* ===== verification/Live_Laws.thy ===== *)
theory Live_Laws
  imports Live
begin

text \<open>
  What the live planner promises: what governs a specialist that is tried, that the cheapest is
  taken, that a plan always comes back with the foundation, and the bounds of the caches.
\<close>

section \<open>Lemmas\<close>

lemma select_first_chosen:
  "filter (\<lambda>c. xc_rejection_reason c = None) (select_first b cs) =
     (if b then [] else take 1 (filter (\<lambda>c. xc_rejection_reason c = None) cs))"
  by (induction b cs rule: select_first.induct) auto

lemma foundation_plan_Inr:
  assumes "foundation_plan kx provider lw selection options st = (Inr f, st')"
  shows "cp_candidates f = [execution_candidate_default (rx_deployment selection) provider]"
  using assms by (auto simp: foundation_plan_def work_simps)

lemma default_policy_valid:
  assumes "valid_identifier d"
  shows "route_policy_validate (default_route_policy ''foundation-only'' d) = Inr (default_route_policy ''foundation-only'' d)"
  using assms
  by (simp add: route_policy_validate_def default_route_policy_def contract_new_def route_policy_fields_def
      unique_specialists_def canary_config_fields_def default_rollback_thresholds_def rollback_thresholds_fields_def
      default_breaker_thresholds_def breaker_thresholds_fields_def scalar_defs)

lemma foundation_plan_returns:
  assumes "valid_identifier (dp_model_deployment_id (rx_deployment selection))"
  shows "\<exists>f st'. foundation_plan kx provider lw selection options st = (Inr f, st')"
proof (cases "read_snapshot kx lw 0 st")
  case (Pair r st1)
  have "\<exists>s st2. snapshot_or_killed kx lw st = (Inr s, st2)"
    using Pair by (cases r) (simp_all add: snapshot_or_killed_def then_do_def meter_def writing_def pass_def)
  then obtain s st2 where "snapshot_or_killed kx lw st = (Inr s, st2)" by blast
  then show ?thesis
    using default_policy_valid [OF assms]
    by (cases "sn_policy s") (simp_all add: foundation_plan_def then_do_def writing_def pass_def lift_result_def)
qed


lemma circuit_available_manifests:
  "circuit_available lw v t st = (r, st') \<Longrightarrow> ln_manifests st' = ln_manifests st"
  by (auto simp: circuit_available_def split: prod.splits)

lemma circuit_available_True:
  assumes "circuit_available lw v t st = (Inr True, st')"
  shows "\<exists>bs bs'. available bs v t (lw_clock lw v) = (True, bs')"
  using assms by (auto simp: circuit_available_def split: prod.splits)

lemma manifest_reason_kinds: "manifest_reason lc v m \<noteq> Some ''not_selected''"
  by (simp add: manifest_reason_def)

lemma canary_reason_kinds: "canary_reason kx lc m \<noteq> Some ''not_selected''"
  by (simp add: canary_reason_def Let_def)

lemma admission_reason_Inr:
  assumes "admission_reason kx lw lc version m st = (Inr reason, st')"
  shows "ln_manifests st' = ln_manifests st"
    and "reason = None \<Longrightarrow> manifest_reason lc version m = None \<and> canary_reason kx lc m = None \<and>
      (\<exists>bs bs'. available bs version (po_breaker (lc_policy lc)) (lw_clock lw version) = (True, bs'))"
    and "reason \<noteq> Some ''not_selected''"
proof (atomize (full), cases "manifest_reason lc version m")
  case (Some r)
  then have "reason = Some r" "st' = st" using assms by (simp_all add: admission_reason_def work_simps)
  then show "ln_manifests st' = ln_manifests st \<and>
    (reason = None \<longrightarrow> manifest_reason lc version m = None \<and> canary_reason kx lc m = None \<and>
      (\<exists>bs bs'. available bs version (po_breaker (lc_policy lc)) (lw_clock lw version) = (True, bs'))) \<and>
    reason \<noteq> Some ''not_selected''"
    using Some manifest_reason_kinds [of lc version m] by simp
next
  case None
  then obtain ok where ok: "circuit_available lw version (po_breaker (lc_policy lc)) st = (Inr ok, st')"
    and reason: "reason = (if ok then canary_reason kx lc m else Some ''circuit_open'')"
    using assms by (auto simp: admission_reason_def work_simps)
  show "ln_manifests st' = ln_manifests st \<and>
    (reason = None \<longrightarrow> manifest_reason lc version m = None \<and> canary_reason kx lc m = None \<and>
      (\<exists>bs bs'. available bs version (po_breaker (lc_policy lc)) (lw_clock lw version) = (True, bs'))) \<and>
    reason \<noteq> Some ''not_selected''"
    using None circuit_available_manifests [OF ok] circuit_available_True [of lw version _ st st'] ok
      canary_reason_kinds [of kx lc m] by (cases ok) (simp_all add: reason)
qed

lemma estimate_reason_kinds: "estimate_reason lc e d \<noteq> Some ''not_selected''"
  by (simp add: estimate_reason_def Let_def)

lemma load_specialist_Inr:
  assumes "load_specialist lx lw version identity st = (Inr c, st')"
  shows "ln_manifests st' = ln_manifests st"
    and "load (lx_specialists lx) (lw_loads lw version 0) (lw_loads lw version 1) version identity (ln_specialists st) =
      (Inr c, ln_specialists st')"
  using assms by (auto simp: load_specialist_def split: prod.splits)

text \<open>What a considered version is, and what it has passed when it is not rejected.\<close>

definition considered_as ::
    "('k, 'r) live_env \<Rightarrow> live_draws \<Rightarrow> live_case \<Rightarrow> 'r \<Rightarrow> (ident \<times> model_manifest) list \<Rightarrow> ident \<Rightarrow> execution_candidate \<Rightarrow> bool" where
  "considered_as lx lw lc router manifests version c \<longleftrightarrow>
     xc_rejection_reason c \<noteq> Some ''not_selected'' \<and>
     (\<exists>m. map_of manifests version = Some m \<and> xc_specialist c \<and>
        xc_deployment c = live_deployment (rx_deployment (lc_selection lc)) version m \<and>
        (xc_rejection_reason c = None \<longrightarrow>
           manifest_reason lc version m = None \<and> canary_reason (lx_control lx) lc m = None \<and>
           (\<exists>bs bs'. available bs version (po_breaker (lc_policy lc)) (lw_clock lw version) = (True, bs')) \<and>
           (\<exists>e. lx_estimate lx router (lc_features lc) version = Inr e \<and>
              estimate_reason lc e (xc_deployment c) = None) \<and>
           (\<exists>cache loaded cache'. load (lx_specialists lx) (lw_loads lw version 0) (lw_loads lw version 1) version
               (lc_identity lc) cache = (Inr loaded, cache') \<and> xc_provider c = xc_provider loaded)))"

lemma live_candidate_fields [simp]:
  "xc_deployment (live_candidate provider lc version m r) = live_deployment (rx_deployment (lc_selection lc)) version m"
  "xc_specialist (live_candidate provider lc version m r)"
  "xc_rejection_reason (live_candidate provider lc version m r) = r"
  "xc_deployment (estimated e c) = xc_deployment c" "xc_specialist (estimated e c) = xc_specialist c"
  "xc_rejection_reason (estimated e c) = xc_rejection_reason c"
  by (simp_all add: live_candidate_def estimated_def execution_candidate_default_def)

lemma consider_version_Inr:
  assumes "consider_version lx lw lc router version st = (Inr c, st')"
  shows "ln_manifests st' = ln_manifests st \<and> considered_as lx lw lc router (ln_manifests st) version c"
proof -
  obtain m reason st1 where m: "map_of (ln_manifests st) version = Some m"
    and adm: "admission_reason (lx_control lx) lw lc version m st = (Inr reason, st1)"
    and rest: "(let c = live_candidate (lx_provider lx) lc version m reason in
         if reason \<noteq> None then pass c
         else then_do (lift_result (lx_estimate lx router (lc_features lc) version)) (\<lambda>e.
           let c = estimated e c in
           case estimate_reason lc e (xc_deployment c) of
             Some r \<Rightarrow> pass (c\<lparr>xc_rejection_reason := Some r\<rparr>)
           | None \<Rightarrow> then_do (load_specialist lx lw version (lc_identity lc)) (\<lambda>loaded.
               pass (c\<lparr>xc_provider := xc_provider loaded\<rparr>)))) st1 = (Inr c, st')"
    using assms by (auto simp: consider_version_def work_simps split: option.splits)
  note keep = admission_reason_Inr [OF adm]
  show ?thesis
  proof (cases reason)
    case (Some r)
    then show ?thesis
      using rest m keep(1,3) by (auto simp: Let_def work_simps considered_as_def)
  next
    case None
    then obtain e where e: "lx_estimate lx router (lc_features lc) version = Inr e"
      and r: "(case estimate_reason lc e (live_deployment (rx_deployment (lc_selection lc)) version m) of
             Some r \<Rightarrow> pass ((estimated e (live_candidate (lx_provider lx) lc version m None))\<lparr>xc_rejection_reason := Some r\<rparr>)
           | None \<Rightarrow> then_do (load_specialist lx lw version (lc_identity lc)) (\<lambda>loaded.
               pass ((estimated e (live_candidate (lx_provider lx) lc version m None))\<lparr>xc_provider := xc_provider loaded\<rparr>)))
             st1 = (Inr c, st')"
      using rest by (auto simp: Let_def work_simps)
    have adm_ok: "manifest_reason lc version m = None" "canary_reason (lx_control lx) lc m = None"
        "\<exists>bs bs'. available bs version (po_breaker (lc_policy lc)) (lw_clock lw version) = (True, bs')"
      using keep(2) None by auto
    show ?thesis
    proof (cases "estimate_reason lc e (live_deployment (rx_deployment (lc_selection lc)) version m)")
      case (Some x)
      then show ?thesis
        using r m keep(1) estimate_reason_kinds by (auto simp: work_simps considered_as_def)
    next
      case None
      then obtain loaded where ld: "load_specialist lx lw version (lc_identity lc) st1 = (Inr loaded, st')"
        and c: "c = (estimated e (live_candidate (lx_provider lx) lc version m None))\<lparr>xc_provider := xc_provider loaded\<rparr>"
        using r by (auto simp: work_simps)
      have fields: "xc_rejection_reason c = None" "xc_specialist c" "xc_provider c = xc_provider loaded"
          "xc_deployment c = live_deployment (rx_deployment (lc_selection lc)) version m"
        unfolding c by simp_all
      note l = load_specialist_Inr [OF ld]
      have "considered_as lx lw lc router (ln_manifests st) version c"
        unfolding considered_as_def
      proof (intro conjI exI [of _ m] impI)
        show "\<exists>e. lx_estimate lx router (lc_features lc) version = Inr e \<and> estimate_reason lc e (xc_deployment c) = None"
          using e None fields(4) by simp
        show "\<exists>cache loaded cache'. load (lx_specialists lx) (lw_loads lw version 0) (lw_loads lw version 1) version
            (lc_identity lc) cache = (Inr loaded, cache') \<and> xc_provider c = xc_provider loaded"
          using l(2) fields(3) by blast
      qed (use m fields adm_ok in simp_all)
      then show ?thesis using keep(1) l(1) by simp
    qed
  qed
qed

lemma consider_versions_Inr:
  "consider_versions lx lw lc router vs st = (Inr cs, st') \<Longrightarrow>
   ln_manifests st' = ln_manifests st \<and>
   (\<forall>c \<in> set cs. \<exists>v \<in> set vs. considered_as lx lw lc router (ln_manifests st) v c)"
proof (induction vs arbitrary: cs st)
  case (Cons v vs)
  then obtain c cs' st1 where c: "consider_version lx lw lc router v st = (Inr c, st1)"
    and rest: "consider_versions lx lw lc router vs st1 = (Inr cs', st')" and "cs = c # cs'"
    by (auto simp: work_simps)
  with consider_version_Inr [OF c] Cons.IH [OF rest] show ?case by auto
qed (simp add: work_simps)

text \<open>How a live plan comes about.\<close>

definition live_choice :: "live_case \<Rightarrow> route_snapshot \<Rightarrow> execution_candidate list \<Rightarrow> execution_candidate list" where
  "live_choice lc latest cs = map (withdraw latest) (sort_key (candidate_key (lc_request lc)) cs)"

lemma planned_Inr:
  assumes "planned lx lw lc task router foundation st = (Inr pl, st')"
  obtains reason where "pl = fall_back reason foundation"
  | cs latest st1 where "consider_versions lx lw lc router (po_eligible_specialist_versions (lc_policy lc)) st = (Inr cs, st1)"
      "read_snapshot (lx_control lx) lw 2 st1 = (Inr latest, st')" "sn_policy latest = Some (lc_policy lc)"
      "enabled latest (id_tenant_id (lc_identity lc)) task"
      "pl = live_plan (lc_policy lc) foundation (select_first False (live_choice lc latest cs))"
  using assms by (auto simp: planned_def work_simps live_choice_def split: if_splits)

lemma with_router_Inr:
  assumes "with_router lx lw lc task router_version foundation st = (Inr pl, st')"
  obtains reason where "pl = fall_back reason foundation"
  | m router st1 st2 where "router_admitted (lc_identity lc) m" "map_of (ln_manifests st1) router_version = Some m"
      "router_of lx lw m (internal_identity (lx_tenants lx) (lc_identity lc)) st1 = (Inr router, st2)"
      "planned lx lw lc task router foundation st2 = (Inr pl, st')"
  using assms by (auto simp: with_router_def work_simps Let_def split: option.splits if_splits)

lemma router_of_manifests:
  "router_of lx lw m internal st = (Inr router, st') \<Longrightarrow> ln_manifests st' = ln_manifests st"
  by (auto simp: router_of_def work_simps Let_def split: option.splits)

lemma live_case_of_Some:
  assumes "live_case_of selection identity s p = Some (lc, version)"
  shows "lc_selection lc = selection \<and> lc_identity lc = identity \<and> rx_request selection = Some (lc_request lc) \<and>
    rx_features selection = Some (lc_features lc) \<and> rx_policy selection = Some (lc_decision lc) \<and> lc_policy lc = p \<and>
    po_router_version p = Some version"
  using assms by (auto simp: live_case_of_def split: option.splits)

text \<open>The router of a plan is that of an admitted manifest, which the policy names.\<close>

definition router_from ::
    "('k, 'r) live_env \<Rightarrow> live_draws \<Rightarrow> identity \<Rightarrow> route_policy \<Rightarrow> (ident \<times> model_manifest) list \<Rightarrow> 'r \<Rightarrow> bool" where
  "router_from lx lw identity p manifests router \<longleftrightarrow>
     (\<exists>rv rm st st'. po_router_version p = Some rv \<and> map_of manifests rv = Some rm \<and> router_admitted identity rm \<and>
        router_of lx lw rm (internal_identity (lx_tenants lx) identity) st = (Inr router, st'))"

lemma live_Inr:
  assumes "live lx lw selection identity task foundation st = (Inr pl, st')"
  obtains "pl = foundation" | reason where "pl = fall_back reason foundation"
  | lc router st1 where "lc_selection lc = selection" "lc_identity lc = identity"
      "rx_request selection = Some (lc_request lc)" "rx_features selection = Some (lc_features lc)"
      "rx_policy selection = Some (lc_decision lc)" "po_live_specialists_allowed (lc_policy lc)"
      "router_from lx lw identity (lc_policy lc) (ln_manifests st1) router"
      "planned lx lw lc task router foundation st1 = (Inr pl, st')"
proof -
  obtain s st1 where body: "(case sn_policy s of
       None \<Rightarrow> pass foundation
     | Some p \<Rightarrow>
         if \<not> po_live_specialists_allowed p then pass foundation
         else if \<not> enabled s (id_tenant_id identity) task
         then pass (fall_back ''live_specialists_disabled'' foundation)
         else case live_case_of selection identity s p of
             Some (lc, version) \<Rightarrow> with_router lx lw lc task version foundation
           | None \<Rightarrow> pass (fall_back ''policy_uncertainty'' foundation)) st1 = (Inr pl, st')"
    using assms unfolding live_def then_do_Inr by blast
  show thesis
  proof (cases "\<exists>p lc version. sn_policy s = Some p \<and> po_live_specialists_allowed p \<and>
      enabled s (id_tenant_id identity) task \<and> live_case_of selection identity s p = Some (lc, version)")
    case True
    then obtain p lc version where p: "sn_policy s = Some p" "po_live_specialists_allowed p"
        "enabled s (id_tenant_id identity) task" "live_case_of selection identity s p = Some (lc, version)" by blast
    with body have run: "with_router lx lw lc task version foundation st1 = (Inr pl, st')" by simp
    note f = live_case_of_Some [OF p(4)]
    from run show thesis
    proof (cases rule: with_router_Inr)
      case (2 m router st2 st3)
      have "router_from lx lw identity (lc_policy lc) (ln_manifests st3) router"
        using 2(1-3) f router_of_manifests [OF 2(3)] unfolding router_from_def by metis
      then show thesis using that(3) [of lc st3 router] f p(2) 2(4) by blast
    qed (rule that(2))
  next
    case False
    then have "pl = foundation \<or> (\<exists>reason. pl = fall_back reason foundation)"
      using body by (auto simp: work_simps split: option.splits if_splits)
    then show thesis using that(1,2) by blast
  qed
qed

lemma fails_closed_Inr:
  assumes "fails_closed foundation m st = (Inr pl, st')"
  obtains reason where "pl = fall_back reason foundation" | "m st = (Inr pl, st')"
  using assms by (auto simp: fails_closed_def work_simps meter_def split: prod.splits sum.splits)

lemma plan_Inr:
  assumes "plan lx lw selection options identity task st = (Inr pl, st')"
  obtains "cp_candidates pl = [execution_candidate_default (rx_deployment selection) (lx_provider lx)]"
  | foundation lc router st1 where
      "cp_candidates foundation = [execution_candidate_default (rx_deployment selection) (lx_provider lx)]"
      "ro_mode options \<noteq> FoundationMode" "lc_selection lc = selection" "lc_identity lc = identity"
      "rx_request selection = Some (lc_request lc)" "rx_features selection = Some (lc_features lc)"
      "rx_policy selection = Some (lc_decision lc)" "po_live_specialists_allowed (lc_policy lc)"
      "router_from lx lw identity (lc_policy lc) (ln_manifests st1) router"
      "planned lx lw lc task router foundation st1 = (Inr pl, st')"
proof -
  obtain f st1 where f: "foundation_plan (lx_control lx) (lx_provider lx) lw selection options st = (Inr f, st1)"
    and rest: "(if ro_mode options = FoundationMode then pass f
      else fails_closed f (live lx lw selection identity task f)) st1 = (Inr pl, st')"
    using assms unfolding plan_def then_do_Inr by blast
  note fc = foundation_plan_Inr [OF f]
  show thesis
  proof (cases "ro_mode options = FoundationMode")
    case True
    then show thesis using rest fc that(1) by (simp add: pass_def)
  next
    case False
    with rest have "fails_closed f (live lx lw selection identity task f) st1 = (Inr pl, st')" by simp
    then show thesis
    proof (cases rule: fails_closed_Inr)
      case (1 reason)
      then show thesis using fc that(1) by (simp add: fall_back_def)
    next
      case 2
      then show thesis
      proof (cases rule: live_Inr)
        case (3 lc router st2)
        then show thesis using that(2) [OF fc False] by blast
      qed (use fc that(1) in \<open>simp_all add: fall_back_def\<close>)
    qed
  qed
qed

lemma chosen_live:
  "filter (\<lambda>c. xc_rejection_reason c = None) (select_first False (live_choice lc latest cs)) =
     take 1 (filter (\<lambda>c. xc_rejection_reason c = None \<and>
         dp_model_deployment_id (xc_deployment c) \<notin> set (sn_disabled_specialists latest))
       (sort_key (candidate_key (lc_request lc)) cs))"
proof -
  have "filter (\<lambda>c. xc_rejection_reason c = None) (map (withdraw latest) xs) =
      filter (\<lambda>c. xc_rejection_reason c = None \<and>
        dp_model_deployment_id (xc_deployment c) \<notin> set (sn_disabled_specialists latest)) xs" for xs
    by (induction xs) (auto simp: withdraw_def)
  then show ?thesis by (simp add: select_first_chosen live_choice_def)
qed








section \<open>Properties\<close>



text \<open>C35. Planning never fails the request: whatever raises in the control store, the registry, the artifacts, the
  router or the loader, a plan comes back. It ends with the foundation; before it stands at most one
  candidate, a specialist that is not rejected, and none when the request insists on the foundation.
  The hypothesis is that the foundation's deployment has a valid identifier, since the default policy
  is validated with it.\<close>

theorem planner_always_serves:
  assumes "valid_identifier (dp_model_deployment_id (rx_deployment selection))"
  shows "\<exists>pl st'. plan lx lw selection options identity task st = (Inr pl, st') \<and>
     (\<exists>cs. cp_candidates pl = cs @ [execution_candidate_default (rx_deployment selection) (lx_provider lx)] \<and>
        length cs \<le> 1 \<and> (\<forall>c \<in> set cs. xc_specialist c \<and> xc_rejection_reason c = None) \<and>
        (ro_mode options = FoundationMode \<longrightarrow> cs = []))"
proof -
  obtain f st1 where f: "foundation_plan (lx_control lx) (lx_provider lx) lw selection options st = (Inr f, st1)"
    using foundation_plan_returns [OF assms] by blast
  have "\<exists>pl st'. plan lx lw selection options identity task st = (Inr pl, st')"
    using f by (auto simp: plan_def then_do_def pass_def fails_closed_def meter_def writing_def
        split: prod.splits sum.splits)
  then obtain pl st' where run: "plan lx lw selection options identity task st = (Inr pl, st')" by blast
  let ?f = "execution_candidate_default (rx_deployment selection) (lx_provider lx)"
  from run have "\<exists>cs. cp_candidates pl = cs @ [?f] \<and> length cs \<le> 1 \<and>
    (\<forall>c \<in> set cs. xc_specialist c \<and> xc_rejection_reason c = None) \<and> (ro_mode options = FoundationMode \<longrightarrow> cs = [])"
  proof (cases rule: plan_Inr)
    case 1
    then show ?thesis by simp
  next
    case (2 foundation lc router st1)
    from 2(10) show ?thesis
    proof (cases rule: planned_Inr)
      case (1 reason)
      then show ?thesis using 2(1) by (simp add: fall_back_def)
    next
      case choice: (2 cs latest st2)
      have "\<forall>c \<in> set cs. xc_specialist c"
        using consider_versions_Inr [OF choice(1)] by (auto simp: considered_as_def)
      then show ?thesis
        using 2(1,2) choice(5) by (auto simp: live_plan_def Let_def chosen_live dest!: in_set_takeD)
    qed
  qed
  then show ?thesis using run by blast
qed

lemma select_first_kinds:
  "d \<in> set (select_first b cs) \<Longrightarrow> (\<forall>c \<in> set cs. xc_rejection_reason c \<noteq> Some ''not_selected'') \<Longrightarrow>
   xc_rejection_reason d = None \<or> xc_rejection_reason d = Some ''not_selected'' \<Longrightarrow>
   \<exists>c \<in> set cs. xc_rejection_reason c = None \<and> xc_deployment c = xc_deployment d"
  by (induction b cs rule: select_first.induct) (auto split: if_splits)

lemma first_is_least:
  assumes "sorted (map key xs)" and "c \<in> set (take 1 (filter P xs))" and "d \<in> set xs" and "P d"
  shows "key c \<le> key d"
proof -
  have "sorted (map key (filter P xs))" using assms(1) by (rule sorted_filter)
  moreover have "d \<in> set (filter P xs)" using assms(3,4) by simp
  ultimately show ?thesis using assms(2) by (cases "filter P xs") auto
qed

text \<open>C40. The specialist that is tried is the cheapest of those that could be: no other specialist the plan considered
  and found admissible would have cost less on this request.\<close>

theorem live_specialist_cheapest:
  assumes "plan lx lw selection options identity task st = (Inr pl, st')" and "rx_request selection = Some r"
    and "c \<in> set (cp_candidates pl)" and "xc_specialist c"
    and "d \<in> set (cp_considered pl)" and "xc_specialist d"
    and "xc_rejection_reason d = None \<or> xc_rejection_reason d = Some ''not_selected''"
  shows "request_cost (xc_deployment c) r \<le> request_cost (xc_deployment d) r"
proof -
  have foundation: "\<not> xc_specialist (execution_candidate_default d provider)" for d provider
    by (simp add: execution_candidate_default_def)
  from assms(1) show ?thesis
  proof (cases rule: plan_Inr)
    case 1
    then show ?thesis using assms(3,4) foundation by auto
  next
    case (2 foundation lc router st1)
    have r: "lc_request lc = r" using 2(5) assms(2) by simp
    from 2(10) show ?thesis
    proof (cases rule: planned_Inr)
      case (1 reason)
      then show ?thesis using 2(1) assms(3,4) foundation by (auto simp: fall_back_def)
    next
      case choice: (2 cs latest st2)
      let ?P = "\<lambda>c. xc_rejection_reason c = None \<and>
         dp_model_deployment_id (xc_deployment c) \<notin> set (sn_disabled_specialists latest)"
      let ?sorted = "sort_key (candidate_key (lc_request lc)) cs"
      have c: "c \<in> set (take 1 (filter ?P ?sorted))"
        using assms(3,4) foundation 2(1) by (auto simp: choice(5) live_plan_def Let_def chosen_live)
      have "\<forall>c \<in> set cs. xc_rejection_reason c \<noteq> Some ''not_selected''"
        using consider_versions_Inr [OF choice(1)] by (auto simp: considered_as_def)
      then have "\<forall>c \<in> set (live_choice lc latest cs). xc_rejection_reason c \<noteq> Some ''not_selected''"
        by (auto simp: live_choice_def withdraw_def)
      moreover have "d \<in> set (select_first False (live_choice lc latest cs))"
        using assms(5,6) foundation 2(1) by (auto simp: choice(5) live_plan_def Let_def)
      ultimately obtain e where e: "e \<in> set (live_choice lc latest cs)" "xc_rejection_reason e = None"
          "xc_deployment e = xc_deployment d"
        using select_first_kinds assms(7) by blast
      then have "e \<in> set ?sorted" "?P e" by (auto simp: live_choice_def withdraw_def split: if_splits)
      with c have "candidate_key (lc_request lc) c \<le> candidate_key (lc_request lc) e"
        by (intro first_is_least [of "candidate_key (lc_request lc)" ?sorted c ?P e]) auto
      then show ?thesis
        using e(3) r by (auto simp: candidate_key_def less_eq_prod_def)
    qed
  qed
qed

section \<open>The caches\<close>

definition planner_ok :: "'r planner_state \<Rightarrow> bool" where
  "planner_ok st \<longleftrightarrow> bounded_cache (ln_routers st) \<and> cache_ok (ln_specialists st) \<and> breakers_inv (ln_breakers st)"

lemma evict_keeps: "keeps cache_ok (evict version)"
  by (auto simp: evict_def intro!: keeps_intros cache_ok_filter)

lemma get_or_evict_keeps: "keeps cache_ok (get_or_evict registry version i)"
  by (auto simp: get_or_evict_def intro!: keeps_rules evict_keeps split: sum.splits)

lemma load_keeps: "keeps cache_ok (load sx registry latest version identity)"
proof -
  have built: "keeps cache_ok (cached_or_built sx latest version identity m)" for m
  proof (unfold keeps_def, intro allI impI)
    fix cache :: specialist_cache
    assume ok: "cache_ok cache"
    let ?r = "cached_or_built sx latest version identity m cache"
    have still: "keeps cache_ok (still_admitted sx latest version identity m)"
      by (auto simp: still_admitted_def intro!: keeps_rules evict_keeps get_or_evict_keeps)
    show "cache_ok (snd ?r)"
    proof (cases "map_of cache (version, mm_artifact_digest m)")
      case (Some c)
      then show ?thesis using cache_ok_touch [OF ok Some] by (simp add: cached_or_built_def then_do_def Let_def)
    next
      case None
      show ?thesis
      proof (cases "sx_provider sx m")
        case (Inl e)
        then show ?thesis using None ok by (simp add: cached_or_built_def then_do_def Let_def)
      next
        case (Inr p)
        obtain r c where rc: "still_admitted sx latest version identity m cache = (r, c)" by fastforce
        have c: "cache_ok c" using keeps_run [OF still ok rc] .
        show ?thesis
        proof (cases r)
          case (Inl e)
          then show ?thesis using None Inr rc c by (simp add: cached_or_built_def then_do_def Let_def)
        next
          case (Inr u)
          then have "c = cache" using rc by (auto simp: still_admitted_def work_simps split: if_splits)
          moreover have "cache_ok (push_bounded (version, mm_artifact_digest m) (specialist_candidate sx m p) cache)"
            by (rule cache_ok_push [OF ok _ None]) (simp add: specialist_candidate_def)
          ultimately show ?thesis
            using None \<open>sx_provider sx m = Inr p\<close> rc Inr by (simp add: cached_or_built_def then_do_def Let_def)
        qed
      qed
    qed
  qed
  show ?thesis
    unfolding load_def by (intro keeps_rules get_or_evict_keeps cache_ok_filter built)
qed

lemma planner_ok_updates:
  "planner_ok (st\<lparr>ln_control := c\<rparr>) = planner_ok st" "planner_ok (st\<lparr>ln_metrics := ms\<rparr>) = planner_ok st"
  "planner_ok (st\<lparr>ln_kill_switch := n\<rparr>) = planner_ok st" "planner_ok (st\<lparr>ln_snapshot := s\<rparr>) = planner_ok st"
  "planner_ok (st\<lparr>ln_manifests := mf\<rparr>) = planner_ok st"
  by (simp_all add: planner_ok_def)

lemma read_snapshot_keeps: "keeps planner_ok (read_snapshot kx lw k)"
  by (auto simp: keeps_def read_snapshot_def Let_def planner_ok_updates split: prod.splits)

lemma meter_keeps: "keeps planner_ok (meter name)"
  by (auto simp: meter_def planner_ok_updates intro!: keeps_intros)

lemma foundation_plan_keeps: "keeps planner_ok (foundation_plan kx provider lw selection options)"
proof -
  have "keeps planner_ok (snapshot_or_killed kx lw)"
    using read_snapshot_keeps [of kx lw 0]
    by (force simp: keeps_def snapshot_or_killed_def then_do_def meter_def planner_ok_updates split: prod.splits sum.splits)
  then show ?thesis by (auto simp: foundation_plan_def planner_ok_updates intro!: keeps_rules)
qed

lemma circuit_available_keeps: "keeps planner_ok (circuit_available lw v t)"
  using breaker_step_inv [of _ "AvailableEvent v t (lw_clock lw v)"]
  by (auto simp: keeps_def circuit_available_def planner_ok_def split_beta)

lemma load_specialist_keeps:
  fixes lx :: "('k, 'r) live_env"
  shows "keeps (planner_ok :: 'r planner_state \<Rightarrow> bool) (load_specialist lx lw v i)"
proof (unfold keeps_def, intro allI impI)
  fix st :: "'r planner_state"
  assume ok: "planner_ok st"
  obtain r cache where l: "load (lx_specialists lx) (lw_loads lw v 0) (lw_loads lw v 1) v i (ln_specialists st) = (r, cache)"
    by fastforce
  have "cache_ok cache" using keeps_run [OF load_keeps _ l] ok by (simp add: planner_ok_def)
  then show "planner_ok (snd (load_specialist lx lw v i st))"
    using ok l by (simp add: load_specialist_def planner_ok_def)
qed

lemma router_of_keeps:
  fixes lx :: "('k, 'b) live_env"
  shows "keeps planner_ok (router_of lx lw m internal)"
proof (unfold keeps_def, intro allI impI)
  fix st :: "'b planner_state"
  assume "planner_ok st"
  then show "planner_ok (snd (router_of lx lw m internal st))"
    using bounded_cache_touch [of "ln_routers st"] bounded_cache_push [of "ln_routers st"]
    by (auto simp: router_of_def then_do_def Let_def planner_ok_def split: option.splits sum.splits)
qed

lemma refresh_manifests_keeps: "keeps planner_ok (refresh_manifests lw s p v internal)"
  unfolding refresh_manifests_def
  by (intro keeps_rules) (auto simp: planner_ok_def intro: bounded_cache_filter)

lemma admission_reason_keeps: "keeps planner_ok (admission_reason kx lw lc v m)"
  unfolding admission_reason_def by (auto intro!: keeps_rules circuit_available_keeps split: option.splits)

lemma consider_version_keeps: "keeps planner_ok (consider_version lx lw lc router v)"
  unfolding consider_version_def Let_def
  by (auto intro!: keeps_rules load_specialist_keeps admission_reason_keeps split: option.splits)

lemma consider_versions_keeps: "keeps planner_ok (consider_versions lx lw lc router vs)"
  by (induction vs) (simp_all only: consider_versions.simps keeps_rules consider_version_keeps)

lemma live_keeps: "keeps planner_ok (live lx lw selection identity task foundation)"
proof -
  have planned: "keeps planner_ok (planned lx lw lc task router foundation)" for lc router
    unfolding planned_def by (intro keeps_rules consider_versions_keeps read_snapshot_keeps)
  have "keeps planner_ok (with_router lx lw lc task v foundation)" for lc v
    unfolding with_router_def Let_def
    by (auto intro!: keeps_rules refresh_manifests_keeps router_of_keeps planned split: option.splits)
  then show ?thesis
    unfolding live_def by (auto intro!: keeps_rules read_snapshot_keeps split: option.splits)
qed

text \<open>Whatever happens while plans are made, the caches stay within their bounds and without two entries of one key:
  at most eight routers and eight specialists, and the breakers within their sixty-four windows.\<close>

theorem planner_caches_bounded:
  fixes lx :: "('k, 'b) live_env"
  assumes "planner_ok st"
  shows "planner_ok (snd (plan lx lw selection options identity task st))"
proof -
  have reset: "planner_ok (st\<lparr>ln_snapshot := None, ln_manifests := [], ln_routers := []\<rparr>)" if "planner_ok st" for st :: "'b planner_state"
    using that by (simp add: planner_ok_def bounded_cache_def)
  have "keeps planner_ok (fails_closed f (live lx lw selection identity task f))" for f
  proof (unfold keeps_def, intro allI impI)
    fix st :: "'b planner_state"
    assume ok: "planner_ok st"
    obtain r st' where l: "live lx lw selection identity task f st = (r, st')" by fastforce
    have "planner_ok st'" using keeps_run [OF live_keeps ok l] .
    then show "planner_ok (snd (fails_closed f (live lx lw selection identity task f) st))"
      using l reset [of st'] by (simp add: fails_closed_def then_do_def meter_def planner_ok_updates split: sum.splits)
  qed
  then have "keeps planner_ok (plan lx lw selection options identity task)"
    unfolding plan_def by (intro keeps_rules foundation_plan_keeps)
  then show ?thesis using assms by (rule keepsD)
qed

section \<open>Witnesses\<close>

text \<open>A canary that is assigned, loaded and cheaper than the foundation.\<close>

definition canary_policy :: route_policy where
  "canary_policy = (default_route_policy ''p'' ''base'')\<lparr>po_eligible_specialist_versions := [''s''],
     po_tenant_enabled := [(''t'', True)], po_task_enabled := [(''chat'', True)], po_live_specialists_allowed := True,
     po_router_version := Some ''r'', po_canary := \<lparr>cc_traffic_fraction = 5 / 100, cc_tenant_allowlist = []\<rparr>\<rparr>"

definition live_manifest :: model_manifest where
  "live_manifest = (served_manifest Canary)\<lparr>mm_processing_region := ''local'', mm_modalities := [''text''],
     mm_context_limit := 1000, mm_input_micros_per_1000_tokens := 0, mm_output_micros_per_1000_tokens := 0,
     mm_base_model_id := ''b''\<rparr>"

definition live_router_manifest :: model_manifest where
  "live_router_manifest = (served_manifest Production)\<lparr>mm_version := ''r'', mm_adapter_architecture := router_architecture\<rparr>"

definition live_snapshot :: route_snapshot where
  "live_snapshot = route_snapshot_default\<lparr>sn_policy := Some canary_policy\<rparr>"

definition sample_live_env :: "(unit, unit) live_env" where
  "sample_live_env =
     \<lparr>lx_control = \<lparr>kx_environment = Local, kx_foundation_id = ''base'', kx_tenants = [''t''],
        kx_hash = echo_hash\<lparr>hf_sha256 := (\<lambda>_. [])\<rparr>, kx_keyring = sample_keyring, kx_choices = undefined\<rparr>,
      lx_provider = xc_provider sample_foundation, lx_dump = (\<lambda>_ _. []), lx_directory = (\<lambda>_. None),
      lx_parse_router = (\<lambda>_. Inr ()),
      lx_estimate = (\<lambda>_ _ _. Inr \<lparr>re_suitability = 1, re_confidence = 1, re_ood = 0, re_latency_ms = 1\<rparr>),
      lx_specialists = sample_loader, lx_tenants = [''t'']\<rparr>"

definition sample_planner :: "unit planner_state" where
  "sample_planner =
     \<lparr>ln_control = \<lparr>kt_tables = undefined, kt_cached = live_snapshot, kt_expires = 9\<rparr>, ln_breakers = no_breakers,
      ln_snapshot = Some live_snapshot, ln_manifests = [(''r'', live_router_manifest), (''s'', live_manifest)],
      ln_routers = [((''r'', ''d''), (live_router_manifest, ()))], ln_specialists = [], ln_kill_switch = 0, ln_metrics = []\<rparr>"

definition sample_live_draws :: live_draws where
  "sample_live_draws =
     \<lparr>lw_control = (\<lambda>_. \<lparr>kd_now = (\<lambda>_. 0), kd_uid = (\<lambda>_. []), kd_clock = (\<lambda>_. 7)\<rparr>), lw_others = (\<lambda>_ c. c),
      lw_outage = (\<lambda>_. False), lw_registry = (\<lambda>_. only_manifest Canary), lw_loads = (\<lambda>_ _. only_manifest Canary),
      lw_same_object = True, lw_clock = (\<lambda>_. 0)\<rparr>"

definition sample_options :: routing_options where
  "sample_options = \<lparr>ro_mode = AutoMode, ro_max_cost_micros = 100, ro_deadline_ms = 5000\<rparr>"

definition sample_selection :: route_selection where
  "sample_selection =
     (foundation_route (xc_deployment sample_foundation) sample_provider_request sample_options
        (policy_decision_default ''p'' 60) ''i'' ''d'' 0)
       \<lparr>rx_features := Some undefined, rx_request := Some sample_provider_request,
        rx_policy := Some (policy_decision_default ''p'' 60)\<rparr>"

lemma sample_read:
  "ln_control st = ln_control sample_planner \<Longrightarrow>
   read_snapshot (lx_control sample_live_env) sample_live_draws k st = (Inr live_snapshot, st)"
  by (simp add: read_snapshot_def sample_live_draws_def snapshot_def sample_planner_def)

definition served_candidate :: execution_candidate where
  "served_candidate =
     \<lparr>xc_deployment = live_deployment (sample_deployment ''base'') ''s'' live_manifest,
      xc_provider = xc_provider sample_foundation, xc_estimated_latency_ms = 1, xc_specialist = True, xc_quality = 1,
      xc_confidence = 1, xc_ood_score = 0, xc_rejection_reason = None, xc_context_limit = 1000, xc_has_estimate = True\<rparr>"

lemma served_candidate_fields:
  "xc_specialist served_candidate" "xc_rejection_reason served_candidate = None"
  "xc_deployment served_candidate = live_deployment (sample_deployment ''base'') ''s'' live_manifest"
  by (simp_all add: served_candidate_def)

lemma then_doI: "m st = (Inr x, st1) \<Longrightarrow> f x st1 = r \<Longrightarrow> then_do m f st = r"
  by (simp add: then_do_def)

lemma readI: "reading f st = (Inr (f st), st)"
  by (simp add: reading_def)

lemma liftI: "x = Inr y \<Longrightarrow> lift_result x st = (Inr y, st)"
  by (simp add: lift_result_def)

lemma if_false: "\<not> b \<Longrightarrow> (if b then x else y) st = y st"
  by simp

definition sample_live_case :: live_case where
  "sample_live_case = \<lparr>lc_selection = sample_selection, lc_request = sample_provider_request, lc_features = undefined,
     lc_decision = policy_decision_default ''p'' 60, lc_identity = tenant_caller, lc_snapshot = live_snapshot,
     lc_policy = canary_policy\<rparr>"

lemma sample_case [simp]:
  "lc_selection sample_live_case = sample_selection" "lc_request sample_live_case = sample_provider_request"
  "lc_identity sample_live_case = tenant_caller" "lc_policy sample_live_case = canary_policy"
  "lc_snapshot sample_live_case = live_snapshot"
  by (simp_all add: sample_live_case_def)

lemma sample_snapshot [simp]:
  "sn_policy live_snapshot = Some canary_policy" "sn_disabled_specialists live_snapshot = []"
  "enabled live_snapshot (id_tenant_id tenant_caller) ''chat''"
  "po_eligible_specialist_versions canary_policy = [''s'']" "po_live_specialists_allowed canary_policy"
  "po_router_version canary_policy = Some ''r''"
  by (simp_all add: live_snapshot_def route_snapshot_default_def enabled_def flag_def canary_policy_def
      default_route_policy_def tenant_caller_def)

lemma sample_manifest_reason: "manifest_reason sample_live_case ''s'' live_manifest = None"
  by (simp add: manifest_reason_def sample_live_case_def live_manifest_def served_manifest_def live_snapshot_def
      route_snapshot_default_def policy_decision_default_def tenant_caller_def sample_input_tokens sample_max)

lemma sample_canary_reason: "canary_reason (lx_control sample_live_env) sample_live_case live_manifest = None"
  by (simp add: canary_reason_def sample_live_case_def live_manifest_def served_manifest_def canary_policy_def Let_def
      assigned_def big_endian_def sample_live_env_def)

lemma sample_admission:
  "\<exists>bs. admission_reason (lx_control sample_live_env) sample_live_draws sample_live_case ''s'' live_manifest sample_planner =
     (Inr None, sample_planner\<lparr>ln_breakers := bs\<rparr>)"
  by (simp add: admission_reason_def sample_manifest_reason sample_canary_reason then_do_def circuit_available_def
      available_def window_of_def no_breakers_def sample_planner_def Let_def new_window_def advance_def pass_def)

lemma sample_estimate:
  "estimate_reason sample_live_case \<lparr>re_suitability = 1, re_confidence = 1, re_ood = 0, re_latency_ms = 1\<rparr>
     (live_deployment (rx_deployment sample_selection) ''s'' live_manifest) = None"
  by (simp add: estimate_reason_def sample_live_case_def canary_policy_def default_route_policy_def Let_def
      request_cost_def live_deployment_def model_prices_def estimate_def live_manifest_def sample_selection_def
      foundation_route_def sample_foundation_def execution_candidate_default_def sample_deployment_def
      sample_input_tokens sample_max)

lemma sample_consider:
  "\<exists>bs cache. consider_version sample_live_env sample_live_draws sample_live_case () ''s'' sample_planner =
     (Inr served_candidate, sample_planner\<lparr>ln_breakers := bs, ln_specialists := cache\<rparr>)"
proof -
  have m: "map_of (ln_manifests sample_planner) ''s'' = Some live_manifest" by (simp add: sample_planner_def)
  obtain bs where a: "admission_reason (lx_control sample_live_env) sample_live_draws sample_live_case ''s'' live_manifest
      sample_planner = (Inr None, sample_planner\<lparr>ln_breakers := bs\<rparr>)"
    using sample_admission by blast
  have e: "lx_estimate sample_live_env () (lc_features sample_live_case) ''s'' =
      Inr \<lparr>re_suitability = 1, re_confidence = 1, re_ood = 0, re_latency_ms = 1\<rparr>"
    by (simp add: sample_live_env_def)
  have d: "xc_deployment (live_candidate (lx_provider sample_live_env) sample_live_case ''s'' live_manifest None) =
      live_deployment (rx_deployment sample_selection) ''s'' live_manifest"
    by (simp add: sample_live_case_def)
  have l: "load_specialist sample_live_env sample_live_draws ''s'' tenant_caller
      (sample_planner\<lparr>ln_breakers := bs\<rparr>) =
      (Inr (specialist_candidate sample_loader (served_manifest Canary) (xc_provider sample_foundation, ''v1'')),
       sample_planner\<lparr>ln_breakers := bs, ln_specialists := [((''s'', ''d''), specialist_candidate sample_loader
         (served_manifest Canary) (xc_provider sample_foundation, ''v1''))]\<rparr>)"
    by (simp add: load_specialist_def sample_live_env_def sample_live_draws_def sample_live_case_def sample_load sample_planner_def)
  have c: "(estimated \<lparr>re_suitability = 1, re_confidence = 1, re_ood = 0, re_latency_ms = 1\<rparr>
       (live_candidate (lx_provider sample_live_env) sample_live_case ''s'' live_manifest None))
       \<lparr>xc_provider := xc_provider (specialist_candidate sample_loader (served_manifest Canary)
          (xc_provider sample_foundation, ''v1''))\<rparr> = served_candidate"
    by (simp add: served_candidate_def estimated_def live_candidate_def execution_candidate_default_def
        sample_live_case_def sample_selection_def foundation_route_def sample_foundation_def live_manifest_def
        specialist_candidate_def Let_def)
  let ?e = "\<lparr>re_suitability = 1, re_confidence = 1, re_ood = 0, re_latency_ms = 1\<rparr>"
  let ?c = "estimated ?e (live_candidate (lx_provider sample_live_env) sample_live_case ''s'' live_manifest None)"
  have tail: "(case estimate_reason sample_live_case ?e (xc_deployment ?c) of
        Some r \<Rightarrow> pass (?c\<lparr>xc_rejection_reason := Some r\<rparr>)
      | None \<Rightarrow> then_do (load_specialist sample_live_env sample_live_draws ''s'' (lc_identity sample_live_case))
          (\<lambda>loaded. pass (?c\<lparr>xc_provider := xc_provider loaded\<rparr>))) (sample_planner\<lparr>ln_breakers := bs\<rparr>) =
      (Inr served_candidate, sample_planner\<lparr>ln_breakers := bs, ln_specialists := [((''s'', ''d''), specialist_candidate sample_loader
         (served_manifest Canary) (xc_provider sample_foundation, ''v1''))]\<rparr>)"
    unfolding live_candidate_fields d sample_estimate option.case sample_case
    by (rule then_doI, rule l, simp only: c pass_def)
  show ?thesis
    unfolding consider_version_def
    by (intro exI, rule then_doI, rule readI, unfold m option.case, rule then_doI, rule a, unfold Let_def,
      rule if_false [THEN trans], simp, rule then_doI, rule liftI, rule e, rule tail)
qed

lemma sample_served:
  "\<exists>bs cache. plan sample_live_env sample_live_draws sample_selection sample_options tenant_caller ''chat'' sample_planner =
     (Inr (live_plan canary_policy
        \<lparr>cp_candidates = [execution_candidate_default (rx_deployment sample_selection) (lx_provider sample_live_env)],
         cp_policy = canary_policy, cp_allow_live_specialists = False, cp_fallback_reason = None, cp_considered = []\<rparr>
        [served_candidate]),
      sample_planner\<lparr>ln_breakers := bs, ln_specialists := cache\<rparr>)" (is "\<exists>bs cache. _ = (Inr (live_plan _ ?f _), _)")
proof -
  obtain bs cache where c: "consider_version sample_live_env sample_live_draws sample_live_case () ''s'' sample_planner =
     (Inr served_candidate, sample_planner\<lparr>ln_breakers := bs, ln_specialists := cache\<rparr>)"
    using sample_consider by blast
  have f: "foundation_plan (lx_control sample_live_env) (lx_provider sample_live_env) sample_live_draws sample_selection
      sample_options sample_planner = (Inr ?f, sample_planner)"
    by (simp add: foundation_plan_def snapshot_or_killed_def sample_read then_do_def live_snapshot_def
        route_snapshot_default_def sample_options_def kill_gauge_def canary_policy_def default_route_policy_def
        sample_planner_def)
  have r: "router_of sample_live_env sample_live_draws live_router_manifest i sample_planner = (Inr (), sample_planner)" for i
    by (simp add: router_of_def then_do_def sample_planner_def live_router_manifest_def served_manifest_def touch_def Let_def)
  have p: "planned sample_live_env sample_live_draws sample_live_case ''chat'' () ?f sample_planner =
      (Inr (live_plan canary_policy ?f [served_candidate]), sample_planner\<lparr>ln_breakers := bs, ln_specialists := cache\<rparr>)"
  proof -
    have cs: "consider_versions sample_live_env sample_live_draws sample_live_case () [''s''] sample_planner =
        (Inr [served_candidate], sample_planner\<lparr>ln_breakers := bs, ln_specialists := cache\<rparr>)"
      unfolding consider_versions.simps by (rule then_doI, rule c, simp add: then_do_def pass_def)
    have rd: "read_snapshot (lx_control sample_live_env) sample_live_draws 2
        (sample_planner\<lparr>ln_breakers := bs, ln_specialists := cache\<rparr>) =
        (Inr live_snapshot, sample_planner\<lparr>ln_breakers := bs, ln_specialists := cache\<rparr>)"
      by (rule sample_read) simp
    have w: "withdraw live_snapshot served_candidate = served_candidate"
      by (simp add: withdraw_def)
    show ?thesis
      unfolding planned_def sample_case sample_snapshot
      by (rule then_doI, rule cs, rule then_doI, rule rd, simp add: w served_candidate_fields(2) pass_def)
  qed
  have w: "with_router sample_live_env sample_live_draws sample_live_case ''chat'' ''r'' ?f sample_planner =
      (Inr (live_plan canary_policy ?f [served_candidate]), sample_planner\<lparr>ln_breakers := bs, ln_specialists := cache\<rparr>)"
  proof -
    have refresh: "refresh_manifests sample_live_draws live_snapshot canary_policy ''r'' i sample_planner = (Inr (), sample_planner)" for i
      by (simp add: refresh_manifests_def then_do_def sample_live_draws_def sample_planner_def)
    have m: "map_of (ln_manifests sample_planner) ''r'' = Some live_router_manifest" by (simp add: sample_planner_def)
    have a: "router_admitted tenant_caller live_router_manifest"
      by (simp add: router_admitted_def live_router_manifest_def served_manifest_def tenant_caller_def)
    show ?thesis
      unfolding with_router_def Let_def sample_case
      by (rule then_doI, rule refresh, rule then_doI, rule readI)
        (simp add: m a then_doI [where m = "router_of a b c d" for a b c d, OF r] p)
  qed
  have k: "live_case_of sample_selection tenant_caller live_snapshot canary_policy = Some (sample_live_case, ''r'')"
    by (simp add: live_case_of_def sample_live_case_def sample_selection_def)
  have "live sample_live_env sample_live_draws sample_selection tenant_caller ''chat'' ?f sample_planner =
      (Inr (live_plan canary_policy ?f [served_candidate]), sample_planner\<lparr>ln_breakers := bs, ln_specialists := cache\<rparr>)"
    using w by (simp add: live_def then_do_def sample_read k)
  then have "plan sample_live_env sample_live_draws sample_selection sample_options tenant_caller ''chat'' sample_planner =
      (Inr (live_plan canary_policy ?f [served_candidate]), sample_planner\<lparr>ln_breakers := bs, ln_specialists := cache\<rparr>)"
    using f by (simp add: plan_def then_do_def fails_closed_def sample_options_def)
  then show ?thesis by blast
qed

lemma sample_live_run:
  obtains pl st' where "plan sample_live_env sample_live_draws sample_selection sample_options tenant_caller ''chat''
      sample_planner = (Inr pl, st')" "served_candidate \<in> set (cp_candidates pl)" "served_candidate \<in> set (cp_considered pl)"
proof -
  obtain st' where s: "plan sample_live_env sample_live_draws sample_selection sample_options tenant_caller ''chat''
      sample_planner = (Inr (live_plan canary_policy
        \<lparr>cp_candidates = [execution_candidate_default (rx_deployment sample_selection) (lx_provider sample_live_env)],
         cp_policy = canary_policy, cp_allow_live_specialists = False, cp_fallback_reason = None, cp_considered = []\<rparr>
        [served_candidate]), st')"
    using sample_served by blast
  show thesis by (rule that [OF s]) (simp_all add: live_plan_def served_candidate_fields)
qed


theorem live_specialist_cheapest_witness:
  "\<exists>pl st'. plan sample_live_env sample_live_draws sample_selection sample_options tenant_caller ''chat'' sample_planner =
      (Inr pl, st') \<and> served_candidate \<in> set (cp_candidates pl) \<and>
     request_cost (xc_deployment served_candidate) sample_provider_request
       \<le> request_cost (xc_deployment served_candidate) sample_provider_request"
proof (rule sample_live_run)
  fix pl st'
  assume run: "plan sample_live_env sample_live_draws sample_selection sample_options tenant_caller ''chat''
      sample_planner = (Inr pl, st')" and c: "served_candidate \<in> set (cp_candidates pl)" "served_candidate \<in> set (cp_considered pl)"
  have r: "rx_request sample_selection = Some sample_provider_request" by (simp add: sample_selection_def)
  have "request_cost (xc_deployment served_candidate) sample_provider_request
       \<le> request_cost (xc_deployment served_candidate) sample_provider_request"
    by (rule live_specialist_cheapest [OF run r c(1) served_candidate_fields(1) c(2) served_candidate_fields(1)])
      (simp add: served_candidate_fields(2))
  with run c show ?thesis by blast
qed

theorem planner_always_serves_witness:
  "\<exists>pl. fst (plan sample_live_env sample_live_draws sample_selection sample_options tenant_caller ''chat'' sample_planner) = Inr pl \<and>
     cp_candidates pl \<noteq> []"
proof -
  have "valid_identifier (dp_model_deployment_id (rx_deployment sample_selection))"
    by (simp add: sample_selection_def foundation_route_def sample_foundation_def execution_candidate_default_def
        sample_deployment_def scalar_defs Let_def)
  from planner_always_serves [OF this, of sample_live_env sample_live_draws sample_options tenant_caller "''chat''" sample_planner]
  show ?thesis by auto
qed

theorem planner_caches_bounded_witness:
  "length (ln_routers (snd (plan sample_live_env sample_live_draws sample_selection sample_options tenant_caller ''chat''
     sample_planner))) \<le> 8"
proof -
  have "planner_ok sample_planner"
    by (simp add: planner_ok_def sample_planner_def bounded_cache_def cache_ok_def breakers_inv_def no_breakers_def)
  from planner_caches_bounded [OF this, of sample_live_env sample_live_draws sample_selection sample_options tenant_caller "''chat''"]
  show ?thesis by (simp add: planner_ok_def bounded_cache_def)
qed

end
