(* ===== verification/Spec2Isabelle.thy ===== *)
theory Spec2Isabelle
  imports Contracts_Records Contracts_Datasets Contracts_Evaluation Lifecycle Stats Breakers Providers
    Pricing Tasks Events Outbox Chain Signing Gate Splitting Persistence_Laws Policy Rag Validation Feedback Eligibility Construction Control_Laws
    Registry_Records Live_Laws
begin

text \<open>
  A verification development for the adaptive LLM platform, the Python package \<open>src/src/adaptive_llm\<close>:
  a gateway that answers requests with a foundation model or, when evidence allows it, with a
  cheaper specialist; keeps what it may keep of every interaction; turns it into datasets; and
  moves the models trained on them through an audited lifecycle. File names below are relative to
  that package.

  \<^bold>\<open>The program and its parts.\<close>
  \<^enum> \<^emph>\<open>Contracts.\<close> Every value that crosses a boundary is a pydantic contract of \<open>contracts.py\<close>. The
    theories \<open>Contracts\<close>, \<open>Contracts_Records\<close>, \<open>Contracts_Datasets\<close> and \<open>Contracts_Evaluation\<close> have a
    record per contract, a predicate \<open>..._fields\<close> for its field constraints and a function
    \<open>..._validate\<close> for its validators; \<open>Structured\<close> (\<open>structured/__init__.py\<close>) admits the JSON schemas of
    a request, \<open>Uid\<close> models UUIDv7 identifiers, \<open>Lifecycle\<close> (\<open>registry/state.py\<close>) the states of a model.
  \<^enum> \<^emph>\<open>Serving.\<close> A request is authenticated (\<open>Identity\<close>: \<open>gateway/identity.py\<close>), classified (\<open>Tasks\<close>:
    \<open>routing/tasks.py\<close>), decided on and redacted (\<open>Policy\<close>: \<open>policy/\<close>, over the matcher of \<open>Regex\<close>),
    given its sources (\<open>Rag\<close>: \<open>rag/__init__.py\<close>), priced (\<open>Pricing\<close>: \<open>routing/__init__.py\<close>), planned
    (\<open>Live\<close>: \<open>routing/live.py\<close> and the planner of \<open>routing/chain.py\<close>; \<open>Specialists\<close>: the loader of
    \<open>routing/shadow.py\<close>), executed (\<open>Chain\<close>: \<open>routing/chain.py\<close>, with \<open>Breakers\<close>: \<open>routing/breakers.py\<close>
    and \<open>Providers\<close>: \<open>providers/__init__.py\<close>), and its answer is checked (\<open>Validation\<close>:
    \<open>validation/__init__.py\<close>).
  \<^enum> \<^emph>\<open>Persistence.\<close> \<open>Storage\<close> has the tables of \<open>storage/sqlite.py\<close> and the sweep of
    \<open>storage/retention.py\<close>, \<open>Outbox\<close> the table and the dispatcher of \<open>storage/outbox.py\<close> and
    \<open>events/outbox.py\<close> over the sinks of \<open>Events\<close> (\<open>events/__init__.py\<close>), \<open>Crypto\<close> the payload cipher
    (\<open>storage/crypto.py\<close>), and \<open>Persistence\<close> the service of \<open>storage/persistence.py\<close> that saves,
    replays and deletes; \<open>Feedback\<close> (\<open>gateway/feedback.py\<close>) adds labels to what is stored.
  \<^enum> \<^emph>\<open>Datasets.\<close> \<open>Eligibility\<close> (\<open>datasets/eligibility.py\<close>) selects the interactions, \<open>Construction\<close>
    (\<open>datasets/construction.py\<close>, \<open>datasets/sources.py\<close>) decrypts, verifies and redacts one example,
    \<open>Curation\<close> and \<open>Splitting\<close> (\<open>datasets/curation.py\<close>, with the measures of \<open>Text\<close>) remove duplicates
    and benchmark overlap and split without leaks.
  \<^enum> \<^emph>\<open>Evaluation and registry.\<close> \<open>Stats\<close> (\<open>evaluation/stats.py\<close>) and \<open>Gate\<close> (\<open>evaluation/gate.py\<close>) turn a
    report into decisions; \<open>Evaluations\<close> (\<open>evaluation/storage.py\<close>) publishes it, signed by \<open>Signing\<close>
    (\<open>signing/__init__.py\<close>); \<open>Artifacts\<close> (\<open>registry/artifacts.py\<close>) verifies what is on disk; \<open>Registry\<close>
    (\<open>registry/sqlite.py\<close>) keeps jobs, versions, transitions and deployments.
  \<^enum> \<^emph>\<open>Route control.\<close> \<open>Control\<close> and \<open>Control_Reports\<close> (\<open>routing/control.py\<close>) keep the policies, the
    pointer with its switches, the observations and the automatic rollback; \<open>Canary\<close>
    (\<open>routing/canary.py\<close>) measures live cohorts.

  The parts meet in a few places. The chain drives the breakers through the locale
  \<open>circuit_breaker\<close>; the dispatcher drives a store and a sink through \<open>outbox_store\<close> and
  \<open>event_sink\<close>; persistence and feedback share the tables and their invariants through
  \<open>store_invariant\<close> and \<open>feedback_invariant\<close>; the registry asks the control for its progression
  gate and the control asks the registry for manifests; jobs and reports are bystanders of the
  registry's other operations (\<open>bystander\<close>). Every locale is interpreted on the model's own
  definitions in the theory that provides them.

  \<^bold>\<open>How code becomes definitions.\<close>
  \<^item> A class with state is a record; a method is a function that returns its result and the new
    state. The stores use the operations of \<open>Storage\<close> with rollback at the end of a failed
    transaction, the services over the control database those of \<open>Unit_Of_Work\<close>. A lock of the code
    makes a method one step; where the code lets go of a lock between two readings, what others did
    meanwhile is an argument.
  \<^item> Every exception is a value of \<open>exc\<close>, every early return a branch; \<open>None\<close> from a parameter means
    that the library raised.
  \<^item> Clocks, identifiers, nonces and random choices are arguments, drawn in the order of the code;
    a property that speaks of all of them holds whatever is drawn.
  \<^item> SQL tables are lists of row records in the order of insertion, and their keys are guards of the
    calls that write. A dict is an association list in the order of insertion, a set whose order does
    not matter a list without repetition or a predicate.
  \<^item> Strings are lists of bytes; the classes of letters and spaces are those of ASCII, except where a
    parameter stands for the Unicode class. Integers are unbounded, as in Python. Floats are exact
    rationals: rounding is not modelled, nor are infinities and NaN, which the contracts exclude.
  \<^item> Code that is not in the repository is a parameter: HMAC, SHA-256, AES-GCM and Ed25519, JSON
    encodings and the schema validator, the random generator of numpy, loaded models. Where a property
    relies on what such code documents (decryption undoes encryption, a digest has no collision, a
    shuffle is a permutation), it says so in its hypotheses, and its witness satisfies them with a
    concrete function.
  \<^item> A contract that is written as JSON and read back is the contract.

  \<^bold>\<open>What is proved.\<close> The properties carry the names C1 to C40 in the order of their importance.
  \<^item> \<^emph>\<open>Serving\<close> (\<open>Chain\<close>, \<open>Live_Laws\<close>, \<open>Rag\<close>, \<open>Identity\<close>): failing specialists do not take the
    service down (C1), attempts are admitted, bounded and within the budget (C18, C36), the planner
    admits a specialist only by everything that governs it, takes the cheapest and always serves (C23,
    C35, C40), tenants do not interfere in retrieval (C24), callers are who their keys say (C39).
  \<^item> \<^emph>\<open>Persistence\<close> (\<open>Persistence_Laws\<close>, \<open>Retention\<close>, \<open>Crypto\<close>, \<open>Feedback\<close>, \<open>Outbox\<close>): deletion completes,
    erases and lasts, for an interaction and a subject (C2, C5, C9), saving is all or nothing and
    confidential (C6, C7), a replay returns what was saved (C8), the tables stay sound over all runs
    (C10), the sweep completes (C17), payloads are bound to their place (C28), corrections conform
    (C27), delivery is at least once (C15). A run is any sequence of saves, shadow attempts, deletions
    and sweeps; \<open>Storage_Logic\<close> has the rules that carry an invariant through the calls,
    \<open>Storage_Invariants\<close> those of the tables.
  \<^item> \<^emph>\<open>Registry\<close> (\<open>Board\<close>, \<open>Registry_Laws\<close>, \<open>Deployments\<close>, \<open>Registry_Records\<close>): the registry refines an
    abstract board of versions and pointers (C11), from which by rule induction over its steps follow
    one production version (C4), swaps (C30), the approval of everything served (C31) and the
    deadlock after the revocation of an incumbent (C3); approvals rest on evidence (C12), retries are
    idle (C32), cancelled jobs and published reports stay as they are (C13, C20), artifacts are
    determined by their manifests (C21).
  \<^item> \<^emph>\<open>Evaluation and control\<close> (\<open>Gate\<close>, \<open>Canary\<close>, \<open>Control_Laws\<close>): what passed gates and canaries mean
    (C16, C29, C34), what is switched off or breached stays off (C19, C22), what the progression gate
    lets through (C25).
  \<^item> \<^emph>\<open>Datasets\<close> (\<open>Eligibility\<close>, \<open>Construction\<close>, \<open>Splitting\<close>): examples are permitted, redacted and
    genuine (C33, C37, C38), splits do not leak and lose nothing (C14, C26).

  The other theorems of the component theories (contracts accept exactly what they say, statistics,
  signatures, curation, the Luhn checksum, the breakers) are their own and of use to these.

  \<^bold>\<open>Bounds and termination.\<close> The search for a root in the union-find is a \<open>partial_function\<close> into
  \<open>option\<close>, and C26 proves that it returns on every forest the split builds. The loops of the chain and
  of the dispatcher run over their plan and their rows. The matcher of \<open>Regex\<close> recurses on its pattern;
  a repetition may make as many rounds as there is text left, which is enough because every round has
  to make progress. The other loops are structural or have a measure. The limits of the code are kept as they are: eight
  entries of a planner's cache, 64 breaker windows, 100 characters of an identifier (92 and 87 of a
  segment key, C34).

  \<^bold>\<open>Where the model is coarser.\<close> A directory of artifacts is a value, so that a link is not a file,
  whereas \<open>Path.is_file\<close> follows it: verification refuses a link before it matters. The note of the
  automatic rollback is built without its validator, since its reasons come from a fixed list. The
  route control has the cache of one service instance; another instance may lag by the second its
  cache lives. Properties of the registry's runs assume that \<open>complete\<close> is handed a fresh candidate
  manifest (\<open>proper\<close>), which the registry does not check and all its callers satisfy; C7 assumes a
  graph without references, as the gateway builds it.

  \<^bold>\<open>Not modelled.\<close> The HTTP layer (\<open>app.py\<close>) and the asynchronous orchestration of a request
  (\<open>gateway/service.py\<close>), which string together what is modelled here; the shadow worker's queue; the
  remote providers; the logistic router and its training, whose exponentials are not rational; the
  runs that produce a report and the judge; training, distillation and research, which drive
  libraries for tensors; the build of a dataset's files; the PostgreSQL stores, backups, migrations and
  command lines; metrics beyond their names. Nor are the files that configuration is read from.
\<close>

end
